(* ===== verification/Prelude.thy ===== *)
theory Prelude
  imports Complex_Main "HOL-Library.Product_Lexorder" "HOL-Library.List_Lexorder"
    "HOL-Library.Char_ord" "HOL-Library.Multiset"
begin

section \<open>Shared vocabulary of the development\<close>

text \<open>
  The Python values, errors and SQL statements that every component of the platform uses.

  A Python \<open>str\<close> is a \<^typ>\<open>string\<close> with one \<^typ>\<open>char\<close> per code point (so the model speaks of
  code points below 256); a Python \<open>int\<close> is an \<^typ>\<open>int\<close>; an exception is a value of
  \<open>py_error\<close> in the left summand of a result.

  An SQLite table is the list of its rows in \<open>rowid\<close> order.  The platform's tables have a
  \<open>TEXT PRIMARY KEY\<close> and the implicit \<open>rowid\<close>; a new row gets the largest \<open>rowid\<close> plus one, so
  \<open>INSERT\<close> appends, \<open>DELETE\<close> keeps the order of the rows that stay, and \<open>ORDER BY \<dots>, rowid\<close> is a
  stable sort.  Each store function runs as one serialised transaction (\<open>run_sqlite_sync\<close> holds the
  connection's lock, \<open>BEGIN IMMEDIATE\<close>/\<open>COMMIT\<close>/\<open>ROLLBACK\<close> bracket the statements), so a store
  function is a function from tables to a result and the new tables, and an exception leaves the
  tables as they were.
\<close>

named_theorems sql_simps \<open>unfolding rules of the SQL statements on row lists\<close>
named_theorems row_defs \<open>definitions of the row updates of a component\<close>

subsection \<open>Errors and results\<close>

datatype py_error =
    ValueError string
  | TypeError string
  | KeyError string
  | RuntimeError string
  | IntegrityError
  | AssertionError
  | JSONDecodeError
  | IdempotencyConflictError string string string
  | DialogueConflictError string
  | LookupError string
  | TenantBoundaryError string
  | RunCheckpointLeaseLostError string
  | CancelledError string
  | OverflowError string
  | NonRetryableEventError string
  | PlannerRunInProgressError string
  | PlannerRunLeaseLostError string
  | DecisionDispatchInProgressError string
  | DecisionDispatchLeaseLostError string
  | ExternalError string string
  | ExceptionGroup string "py_error list"

text \<open>\<open>ExternalError\<close> is an exception of code outside the platform, by the name of its class and its text.
  A cancellation is a \<open>BaseException\<close> that is no \<open>Exception\<close>, and so is a group that contains one.\<close>

fun is_exception :: "py_error \<Rightarrow> bool" where
  "is_exception (CancelledError m) = False"
| "is_exception (ExceptionGroup m es) = list_all is_exception es"
| "is_exception _ = True"

type_synonym 'a result = "py_error + 'a"

definition rbind :: "'a result \<Rightarrow> ('a \<Rightarrow> 'b result) \<Rightarrow> 'b result" where
  "rbind m f = (case m of Inl e \<Rightarrow> Inl e | Inr x \<Rightarrow> f x)"

lemma rbind_simps [simp]:
  "rbind (Inl e) f = Inl e"
  "rbind (Inr x) f = f x"
  by (simp_all add: rbind_def)

lemma rbind_eq_Inr: "rbind m f = Inr y \<longleftrightarrow> (\<exists>x. m = Inr x \<and> f x = Inr y)"
  by (cases m) simp_all

lemma rbind_eq_Inl: "rbind m f = Inl e \<longleftrightarrow> m = Inl e \<or> (\<exists>x. m = Inr x \<and> f x = Inl e)"
  by (cases m) simp_all

subsection \<open>Python strings\<close>

definition py_whitespace :: "char list" where
  "py_whitespace = [CHR 0x09, CHR 0x0A, CHR 0x0B, CHR 0x0C, CHR 0x0D,
     CHR 0x1C, CHR 0x1D, CHR 0x1E, CHR 0x1F, CHR 0x20, CHR 0x85, CHR 0xA0]"

definition is_space :: "char \<Rightarrow> bool" where
  "is_space c = (c \<in> set py_whitespace)"

definition lstrip :: "string \<Rightarrow> string" where
  "lstrip s = dropWhile is_space s"

definition rstrip :: "string \<Rightarrow> string" where
  "rstrip s = rev (dropWhile is_space (rev s))"

definition strip :: "string \<Rightarrow> string" where
  "strip s = rstrip (lstrip s)"

text \<open>\<open>lower()\<close> of an ASCII letter.\<close>

definition ascii_lower :: "char \<Rightarrow> char" where
  "ascii_lower c = (let n = (of_char c :: nat) in if 65 \<le> n \<and> n \<le> 90 then char_of (n + 32) else c)"

text \<open>\<open>blank s\<close> is the test \<open>not s.strip()\<close> of the validators.\<close>

definition blank :: "string \<Rightarrow> bool" where
  "blank s = (\<forall>c \<in> set s. is_space c)"

lemma strip_eq_Nil: "strip s = [] \<longleftrightarrow> blank s"
proof
  assume "strip s = []"
  then have "\<forall>c \<in> set (dropWhile is_space s). is_space c"
    by (simp add: strip_def rstrip_def lstrip_def)
  then show "blank s"
    unfolding blank_def
    by (metis hd_dropWhile hd_in_set dropWhile_eq_Nil_conv)
next
  assume "blank s"
  then have "\<forall>c \<in> set (dropWhile is_space s). is_space c"
    unfolding blank_def by (blast dest: set_dropWhileD)
  then show "strip s = []" by (simp add: strip_def lstrip_def rstrip_def)
qed

lemma blank_Nil [simp]: "blank []"
  by (simp add: blank_def)

text \<open>An absent value counts as empty; \<open>given_blank\<close> is the test on a value that is given.\<close>

definition blank_opt :: "string option \<Rightarrow> bool" where
  "blank_opt v = (case v of None \<Rightarrow> True | Some s \<Rightarrow> blank s)"

definition given_blank :: "string option \<Rightarrow> bool" where
  "given_blank v = (case v of None \<Rightarrow> False | Some s \<Rightarrow> blank s)"

lemma blank_opt_simps [simp]:
  "blank_opt None" "blank_opt (Some s) = blank s" "\<not> given_blank None" "given_blank (Some s) = blank s"
  by (simp_all add: blank_opt_def given_blank_def)

text \<open>\<open>s[:n]\<close> for a non-negative \<open>n\<close>.\<close>

abbreviation prefix_chars :: "nat \<Rightarrow> string \<Rightarrow> string" where
  "prefix_chars \<equiv> take"

subsection \<open>SQL statements on row lists\<close>

definition update_where :: "('r \<Rightarrow> bool) \<Rightarrow> ('r \<Rightarrow> 'r) \<Rightarrow> 'r list \<Rightarrow> 'r list" where
  "update_where p f rows = map (\<lambda>r. if p r then f r else r) rows"

definition rowcount :: "('r \<Rightarrow> bool) \<Rightarrow> 'r list \<Rightarrow> nat" where
  "rowcount p rows = length (filter p rows)"

definition select_where :: "('r \<Rightarrow> bool) \<Rightarrow> 'r list \<Rightarrow> 'r list" where
  "select_where p rows = filter p rows"

definition fetchone :: "('r \<Rightarrow> bool) \<Rightarrow> 'r list \<Rightarrow> 'r option" where
  "fetchone p rows = find p rows"

definition order_by :: "('r \<Rightarrow> 'k::linorder) \<Rightarrow> 'r list \<Rightarrow> 'r list" where
  "order_by k rows = sort_key k rows"

text \<open>The rows with their \<open>rowid\<close> (their position), and \<open>LIMIT n\<close>, where a negative \<open>n\<close> is no limit.\<close>

definition with_rowid :: "'r list \<Rightarrow> (nat \<times> 'r) list" where
  "with_rowid rows = zip [0..<length rows] rows"

definition sql_limit :: "int \<Rightarrow> 'r list \<Rightarrow> 'r list" where
  "sql_limit n rows = (if n < 0 then rows else take (nat n) rows)"

text \<open>Comparisons with a column that may be \<open>NULL\<close> are not true for \<open>NULL\<close>.\<close>

definition null_le :: "int option \<Rightarrow> int \<Rightarrow> bool" where
  "null_le c n = (case c of None \<Rightarrow> False | Some v \<Rightarrow> v \<le> n)"

definition null_gt :: "int option \<Rightarrow> int \<Rightarrow> bool" where
  "null_gt c n = (case c of None \<Rightarrow> False | Some v \<Rightarrow> v > n)"

lemma null_le_simps [simp]: "\<not> null_le None n" "null_le (Some v) n \<longleftrightarrow> v \<le> n"
  by (simp_all add: null_le_def)

lemma null_gt_simps [simp]: "\<not> null_gt None n" "null_gt (Some v) n \<longleftrightarrow> v > n"
  by (simp_all add: null_gt_def)

text \<open>An optional filter of a query: no clause when the argument is \<open>None\<close>.\<close>

definition opt_clause :: "'a option \<Rightarrow> 'a \<Rightarrow> bool" where
  "opt_clause arg v = (case arg of None \<Rightarrow> True | Some a \<Rightarrow> v = a)"

lemma opt_clause_simps [simp]: "opt_clause None v" "opt_clause (Some a) v \<longleftrightarrow> v = a"
  by (simp_all add: opt_clause_def)

subsection \<open>Facts about the SQL statements\<close>

lemma update_where_Nil [simp]: "update_where p f [] = []"
  by (simp add: update_where_def)

lemma update_where_Cons [simp]:
  "update_where p f (r # rs) = (if p r then f r else r) # update_where p f rs"
  by (simp add: update_where_def)

lemma update_where_append [simp]:
  "update_where p f (rs @ ss) = update_where p f rs @ update_where p f ss"
  by (simp add: update_where_def)

lemma length_update_where [simp]: "length (update_where p f rs) = length rs"
  by (simp add: update_where_def)

lemma set_update_where:
  "set (update_where p f rs) = f ` {r \<in> set rs. p r} \<union> {r \<in> set rs. \<not> p r}"
  by (auto simp: update_where_def)

lemma bex_update_where:
  "(\<exists>x \<in> set (update_where p f rs). P x) \<longleftrightarrow> (\<exists>r \<in> set rs. P (if p r then f r else r))"
  by (auto simp: update_where_def)

lemma ball_update_where:
  "(\<forall>x \<in> set (update_where p f rs). P x) \<longleftrightarrow> (\<forall>r \<in> set rs. P (if p r then f r else r))"
  by (auto simp: update_where_def)

lemma update_where_id: "(\<And>r. r \<in> set rs \<Longrightarrow> \<not> p r) \<Longrightarrow> update_where p f rs = rs"
  by (induction rs) auto

lemma map_update_where [simp]:
  "(\<And>r. k (f r) = k r) \<Longrightarrow> map k (update_where p f rs) = map k rs"
  by (induction rs) auto

lemma update_where_preserves:
  assumes "\<And>r. r \<in> set rs \<Longrightarrow> P r" and "\<And>r. r \<in> set rs \<Longrightarrow> p r \<Longrightarrow> P r \<Longrightarrow> P (f r)"
  shows "\<forall>r \<in> set (update_where p f rs). P r"
  using assms by (auto simp: set_update_where)

lemma rowcount_Nil [simp]: "rowcount p [] = 0"
  by (simp add: rowcount_def)

lemma rowcount_Cons [simp]: "rowcount p (r # rs) = (if p r then 1 else 0) + rowcount p rs"
  by (simp add: rowcount_def)

lemma rowcount_eq_0: "rowcount p rs = 0 \<longleftrightarrow> (\<forall>r \<in> set rs. \<not> p r)"
  by (induction rs) auto

lemma rowcount_pos: "0 < rowcount p rs \<longleftrightarrow> (\<exists>r \<in> set rs. p r)"
  using rowcount_eq_0 [of p rs] by auto

text \<open>A predicate that fixes the primary key selects at most one row.\<close>

lemma rowcount_pk_le_1:
  assumes "distinct (map k rs)" and "\<And>r. p r \<Longrightarrow> k r = x"
  shows "rowcount p rs \<le> 1"
  using assms
proof (induction rs)
  case (Cons r rs)
  show ?case
  proof (cases "p r")
    case True
    with Cons.prems have "\<forall>s \<in> set rs. \<not> p s" by force
    then have "rowcount p rs = 0" by (simp add: rowcount_eq_0)
    with True show ?thesis by simp
  next
    case False
    with Cons show ?thesis by simp
  qed
qed simp

lemma rowcount_pk_eq_1:
  assumes "distinct (map k rs)" and "\<And>r. p r \<Longrightarrow> k r = x"
  shows "rowcount p rs = 1 \<longleftrightarrow> (\<exists>r \<in> set rs. p r)"
proof -
  have "rowcount p rs \<le> 1" by (rule rowcount_pk_le_1 [where k = k and x = x]) (use assms in auto)
  then show ?thesis using rowcount_pos [of p rs] by (auto simp: le_Suc_eq)
qed

lemma fetchone_Nil [simp]: "fetchone p [] = None"
  by (simp add: fetchone_def)

lemma fetchone_Cons [simp]: "fetchone p (r # rs) = (if p r then Some r else fetchone p rs)"
  by (simp add: fetchone_def)

lemma fetchone_None: "fetchone p rs = None \<longleftrightarrow> (\<forall>r \<in> set rs. \<not> p r)"
  by (induction rs) auto

lemma fetchone_SomeD: "fetchone p rs = Some r \<Longrightarrow> r \<in> set rs \<and> p r"
  by (induction rs) (auto split: if_splits)

lemma fetchone_append:
  "fetchone p (rs @ ss) = (case fetchone p rs of None \<Rightarrow> fetchone p ss | Some r \<Rightarrow> Some r)"
  by (induction rs) auto

lemma distinct_map_eq: "distinct (map k rs) \<Longrightarrow> r \<in> set rs \<Longrightarrow> s \<in> set rs \<Longrightarrow> k r = k s \<Longrightarrow> r = s"
  by (metis distinct_map inj_on_eq_iff)

lemma fetchone_pk:
  assumes "distinct (map k rs)" and "r \<in> set rs" and "p r" and "\<And>s. p s \<Longrightarrow> k s = k r"
  shows "fetchone p rs = Some r"
proof (cases "fetchone p rs")
  case None
  with assms(2,3) show ?thesis by (auto simp: fetchone_None)
next
  case (Some s)
  then have "s \<in> set rs" "p s" by (auto dest: fetchone_SomeD)
  with assms have "s = r" by (metis distinct_map_eq)
  with Some show ?thesis by simp
qed

lemma filter_pk:
  assumes "distinct (map k rs)" and "r \<in> set rs" and "p r" and "\<And>s. p s \<Longrightarrow> k s = x"
  shows "filter p rs = [r]"
proof -
  have sub: "set (filter p rs) \<subseteq> {r}"
  proof
    fix s assume "s \<in> set (filter p rs)"
    then have "s \<in> set rs" "k s = k r" using assms(3,4) by auto
    then show "s \<in> {r}" using distinct_map_eq [OF assms(1) _ assms(2)] by simp
  qed
  have "distinct (filter p rs)" using assms(1) by (simp add: distinct_map)
  moreover have "r \<in> set (filter p rs)" using assms(2,3) by simp
  ultimately obtain y ys where ys: "filter p rs = y # ys" "distinct (y # ys)" by (cases "filter p rs") auto
  then have "y = r" "set ys \<subseteq> {r}" using sub by simp_all
  with ys(2) have "ys = []" by (cases ys) auto
  with ys(1) \<open>y = r\<close> show ?thesis by simp
qed

lemma set_order_by [simp]: "set (order_by k rs) = set rs"
  by (simp add: order_by_def)

lemma length_order_by [simp]: "length (order_by k rs) = length rs"
  by (simp add: order_by_def)

lemma sorted_order_by [simp]: "sorted (map k (order_by k rs))"
  by (simp add: order_by_def)

lemma distinct_order_by: "distinct (map i (order_by k rs)) \<longleftrightarrow> distinct (map i rs)"
proof -
  have "mset (map i (order_by k rs)) = mset (map i rs)"
    by (simp add: order_by_def)
  then show ?thesis by (rule mset_eq_imp_distinct_iff)
qed

subsection \<open>Unique keys with \<open>NULL\<close>\<close>

text \<open>A \<open>UNIQUE\<close> constraint or partial unique index: rows whose key is \<open>NULL\<close> (\<open>None\<close>) do not
  take part.\<close>

definition unique_key :: "('r \<Rightarrow> 'k option) \<Rightarrow> 'r list \<Rightarrow> bool" where
  "unique_key k rows \<longleftrightarrow> distinct (List.map_filter k rows)"

lemma unique_key_Nil [simp]: "unique_key k []"
  by (simp add: unique_key_def)

lemma set_map_filter_Some: "x \<in> set (List.map_filter k rows) \<longleftrightarrow> (\<exists>r \<in> set rows. k r = Some x)"
  by (induction rows) (auto split: option.splits)

lemma unique_key_append:
  "unique_key k (rows @ [n]) \<longleftrightarrow> unique_key k rows \<and> (\<forall>r \<in> set rows. k n \<noteq> None \<longrightarrow> k r \<noteq> k n)"
proof -
  have "List.map_filter k (rows @ [n]) = List.map_filter k rows @ (case k n of None \<Rightarrow> [] | Some x \<Rightarrow> [x])"
    by (induction rows) (auto split: option.split)
  then show ?thesis by (auto simp: unique_key_def set_map_filter_Some split: option.splits)
qed

lemma unique_key_update_where:
  "(\<And>r. k (f r) = k r) \<Longrightarrow> unique_key k (update_where p f rows) = unique_key k rows"
proof -
  assume "\<And>r. k (f r) = k r"
  then have "List.map_filter k (update_where p f rows) = List.map_filter k rows"
    by (induction rows) (auto split: option.split)
  then show ?thesis by (simp add: unique_key_def)
qed

lemma unique_keyD:
  assumes "unique_key k rows" and "r \<in> set rows" and "s \<in> set rows" and "k r = Some x" and "k s = Some x"
  shows "r = s"
  using assms
proof (induction rows)
  case (Cons a rows)
  then show ?case
    by (auto simp: unique_key_def set_map_filter_Some split: option.splits)
qed simp

subsection \<open>Tables that only grow\<close>

text \<open>\<open>rows_extend Q s t\<close>: the rows of \<open>s\<close> are still in \<open>t\<close>, in their places, each related by
  \<open>Q\<close> to what it was; new rows follow them.\<close>

definition rows_extend :: "('r \<Rightarrow> 'r \<Rightarrow> bool) \<Rightarrow> 'r list \<Rightarrow> 'r list \<Rightarrow> bool" where
  "rows_extend Q s t \<longleftrightarrow> length s \<le> length t \<and> (\<forall>i < length s. Q (s ! i) (t ! i))"

lemma rows_extend_refl: "(\<And>r. Q r r) \<Longrightarrow> rows_extend Q s s"
  by (simp add: rows_extend_def)

lemma rows_extend_append: "(\<And>r. Q r r) \<Longrightarrow> rows_extend Q s (s @ new)"
  by (simp add: rows_extend_def nth_append)

lemma rows_extend_trans:
  assumes "rows_extend Q s t" and "rows_extend Q t u" and "\<And>a b c. Q a b \<Longrightarrow> Q b c \<Longrightarrow> Q a c"
  shows "rows_extend Q s u"
  unfolding rows_extend_def
proof (intro conjI allI impI)
  show "length s \<le> length u" using assms(1,2) by (simp add: rows_extend_def)
  fix i assume "i < length s"
  with assms(1,2) have "Q (s ! i) (t ! i)" and "Q (t ! i) (u ! i)" by (auto simp: rows_extend_def)
  then show "Q (s ! i) (u ! i)" by (rule assms(3))
qed

lemma rows_extend_mono: "rows_extend Q s t \<Longrightarrow> (\<And>a b. Q a b \<Longrightarrow> R a b) \<Longrightarrow> rows_extend R s t"
  by (simp add: rows_extend_def)

lemma rows_extend_member: "rows_extend Q s t \<Longrightarrow> r \<in> set s \<Longrightarrow> \<exists>r' \<in> set t. Q r r'"
  unfolding rows_extend_def by (metis in_set_conv_nth nth_mem order_less_le_trans)

lemma rows_extend_pair:
  assumes "rows_extend Q s t" and "distinct (map k t)" and "\<And>r r'. Q r r' \<Longrightarrow> k r' = k r"
    and "r \<in> set s" and "r' \<in> set t" and "k r' = k r"
  shows "Q r r'"
proof -
  obtain r'' where "r'' \<in> set t" "Q r r''" using rows_extend_member [OF assms(1,4)] by auto
  then show ?thesis using assms(2,3,5,6) by (metis distinct_map_eq)
qed

lemma rows_extend_map: "(\<And>r. r \<in> set s \<Longrightarrow> Q r (f r)) \<Longrightarrow> rows_extend Q s (map f s)"
  by (simp add: rows_extend_def)

lemma rows_extend_update_where:
  "(\<And>r. Q r r) \<Longrightarrow> (\<And>r. r \<in> set s \<Longrightarrow> p r \<Longrightarrow> Q r (f r)) \<Longrightarrow> rows_extend Q s (update_where p f s)"
  by (auto simp: update_where_def intro!: rows_extend_map)

subsection \<open>Claiming the first rows of an ordered query\<close>

text \<open>
  A claim selects the ids of the first \<open>n\<close> candidate rows in an order, updates the rows with these
  ids and reads them back in the same order.
\<close>

lemma filter_take_self: "distinct xs \<Longrightarrow> filter (\<lambda>x. x \<in> set (take n xs)) xs = take n xs"
proof -
  assume d: "distinct xs"
  have "filter (\<lambda>x. x \<in> set (take n xs)) (drop n xs) = []"
    using set_take_disj_set_drop_if_distinct [OF d, of n n] by (auto simp: filter_empty_conv)
  then show ?thesis
    using filter_append [of "\<lambda>x. x \<in> set (take n xs)" "take n xs" "drop n xs"] by simp
qed

lemma order_by_filter: "order_by k (filter p rs) = filter p (order_by k rs)"
  by (simp add: order_by_def filter_sort)

lemma insort_key_map: "(\<And>x. k (f x) = k x) \<Longrightarrow> insort_key k (f x) (map f xs) = map f (insort_key k x xs)"
  by (induction xs) auto

lemma order_by_map: "(\<And>x. k (f x) = k x) \<Longrightarrow> order_by k (map f xs) = map f (order_by k xs)"
  unfolding order_by_def by (induction xs) (auto simp: insort_key_map)

lemma claim_select:
  assumes d: "distinct (map i rows)" and T_def: "T = take n (order_by k (select_where p rows))"
  shows "order_by k (select_where (\<lambda>r. i r \<in> set (map i T)) rows) = T"
proof -
  let ?F = "filter p (order_by k rows)"
  have T: "T = take n ?F" by (simp add: T_def select_where_def order_by_filter)
  have sub: "set T \<subseteq> set rows" using set_take_subset [of n ?F] by (auto simp: T)
  have "i r \<in> set (map i T) \<longleftrightarrow> r \<in> set T" if "r \<in> set rows" for r
    using sub distinct_map_eq [OF d that] by auto
  then have "order_by k (select_where (\<lambda>r. i r \<in> set (map i T)) rows)
      = filter (\<lambda>r. r \<in> set T) (order_by k rows)"
    by (simp add: select_where_def order_by_filter [symmetric] cong: filter_cong)
  also have "\<dots> = filter (\<lambda>r. r \<in> set T) ?F"
    using set_take_subset [of n ?F] by (auto simp: T intro!: filter_cong)
  also have "\<dots> = T"
    using d distinct_order_by [of i k rows] unfolding T
    by (intro filter_take_self) (auto simp: distinct_map)
  finally show ?thesis .
qed

lemma claim_update_select:
  assumes "distinct (map i rows)" and "\<And>r. i (f r) = i r" and "\<And>r. k (f r) = k r"
    and T_def: "T = take n (order_by k (select_where p rows))"
    and q_def: "q = (\<lambda>r. i r \<in> set (map i T))"
  shows "order_by k (select_where q (update_where q f rows)) = map f T"
proof -
  have q: "q (f r) = q r" for r by (simp add: q_def assms)
  have "select_where q (update_where q f rows) = map f (select_where q rows)"
    unfolding select_where_def by (induction rows) (auto simp: q)
  then show ?thesis
    using claim_select [OF assms(1) T_def] by (simp add: order_by_map assms(3) q_def)
qed

subsection \<open>Labelled runs\<close>

text \<open>A run of a component is a sequence of labelled steps; each label names one operation of the
  code with its arguments.\<close>

inductive steps :: "('l \<Rightarrow> 's \<Rightarrow> 's \<Rightarrow> bool) \<Rightarrow> 'l list \<Rightarrow> 's \<Rightarrow> 's \<Rightarrow> bool" for step where
  steps_Nil: "steps step [] s s"
| steps_Cons: "step l s t \<Longrightarrow> steps step ls t u \<Longrightarrow> steps step (l # ls) s u"

inductive_cases steps_NilE [elim!]: "steps step [] s t"
inductive_cases steps_ConsE [elim!]: "steps step (l # ls) s t"

lemma steps_simps [simp]:
  "steps step [] s t \<longleftrightarrow> s = t"
  "steps step (l # ls) s u \<longleftrightarrow> (\<exists>t. step l s t \<and> steps step ls t u)"
  by (auto intro: steps.intros)

lemma steps_invariant [consumes 1, case_names init step]:
  assumes "steps step ls s t" and "I s"
    and "\<And>l s t. l \<in> set ls \<Longrightarrow> step l s t \<Longrightarrow> I s \<Longrightarrow> I t"
  shows "I t"
  using assms by (induction rule: steps.induct) auto

text \<open>A preorder that every step respects, under an invariant, holds between the ends of a run.\<close>

lemma steps_preorder:
  assumes "steps step ls s t" and "I s"
    and "\<And>l s t. step l s t \<Longrightarrow> I s \<Longrightarrow> I t" and "\<And>l s t. step l s t \<Longrightarrow> I s \<Longrightarrow> Q s t"
    and "\<And>s. Q s s" and "\<And>s t u. Q s t \<Longrightarrow> Q t u \<Longrightarrow> Q s u"
  shows "Q s t"
  using assms by (induction rule: steps.induct) metis+

lemmas sql_facts = set_update_where rowcount_eq_0 rowcount_pos fetchone_None

declare update_where_def [sql_simps] rowcount_def [sql_simps] select_where_def [sql_simps]
  fetchone_def [sql_simps] order_by_def [sql_simps]

end
