(* ===== verification/Idempotency.thy ===== *)
theory Idempotency
  imports Prelude
begin

section \<open>JSON values, canonical text and idempotent replay\<close>

text \<open>
  Models \<open>json_types.py\<close> (the strict JSON boundary), \<open>idempotency.py\<close> (fingerprints and replay
  checks) and \<open>conversation.py\<close> (the conversation scope).

  A JSON column (\<open>payload_json\<close>, \<open>result_json\<close>, \<dots>) holds text.  The model keeps the value that
  \<open>json.loads\<close> reads from it (\<open>Encoded\<close>), or the text itself when \<open>json.loads\<close> rejects it (\<open>Raw\<close>, the
  empty text among them), so \<open>json.dumps\<close> of a value is \<open>Encoded\<close> of that value.  Only the canonical
  text that a fingerprint is computed of is modelled as text.
\<close>

subsection \<open>Values\<close>

text \<open>
  A finite float carries its exact value (for comparison) and its \<open>repr\<close> (for printing).
  Objects are association lists in insertion order; a Python \<open>dict\<close> has distinct keys.
\<close>

datatype json =
    JNull
  | JBool bool
  | JInt int
  | JFloat rat string
  | JStr string
  | JArr "json list"
  | JObj "(string \<times> json) list"

text \<open>The Python objects a caller may hand over: \<open>PyNonFinite\<close> is an infinity or a NaN, and
  \<open>PyOther\<close> is an object of any other class, by the name of its class.\<close>

datatype pyval =
    PyNone
  | PyBool bool
  | PyInt int
  | PyFloat rat string
  | PyNonFinite string
  | PyStr string
  | PyList "pyval list"
  | PyDict "(pyval \<times> pyval) list"
  | PyOther string

subsection \<open>Decimal text of an integer\<close>

definition digit_char :: "nat \<Rightarrow> char" where
  "digit_char d = char_of (48 + d)"

fun nat_text :: "nat \<Rightarrow> string" where
  "nat_text n = (if n < 10 then [digit_char n] else nat_text (n div 10) @ [digit_char (n mod 10)])"

declare nat_text.simps [simp del]

definition int_text :: "int \<Rightarrow> string" where
  "int_text i = (if i < 0 then CHR ''-'' # nat_text (nat (- i)) else nat_text (nat i))"

subsection \<open>The strict JSON boundary\<close>

text \<open>\<open>_require_json_value\<close> and \<open>require_json_object\<close>; the two auxiliary functions are their loops
  over a list (with the running index) and over the items of a dict.\<close>

fun require_json_value :: "string \<Rightarrow> pyval \<Rightarrow> json result"
  and require_json_items :: "string \<Rightarrow> nat \<Rightarrow> pyval list \<Rightarrow> json list result"
  and require_json_fields :: "string \<Rightarrow> (pyval \<times> pyval) list \<Rightarrow> (string \<times> json) list result"
where
  "require_json_value label PyNone = Inr JNull"
| "require_json_value label (PyBool b) = Inr (JBool b)"
| "require_json_value label (PyInt i) = Inr (JInt i)"
| "require_json_value label (PyStr s) = Inr (JStr s)"
| "require_json_value label (PyFloat q t) = Inr (JFloat q t)"
| "require_json_value label (PyNonFinite t) =
     Inl (ValueError (label @ '' must be a finite JSON number''))"
| "require_json_value label (PyList vs) =
     rbind (require_json_items label 0 vs) (\<lambda>js. Inr (JArr js))"
| "require_json_value label (PyDict fs) =
     rbind (require_json_fields label fs) (\<lambda>kvs. Inr (JObj kvs))"
| "require_json_value label (PyOther t) =
     Inl (TypeError (label @ '' contains non-JSON value '' @ t))"
| "require_json_items label i [] = Inr []"
| "require_json_items label i (v # vs) =
     rbind (require_json_value (label @ ''['' @ nat_text i @ '']'') v) (\<lambda>j.
     rbind (require_json_items label (Suc i) vs) (\<lambda>js. Inr (j # js)))"
| "require_json_fields label [] = Inr []"
| "require_json_fields label ((k, v) # fs) =
     (case k of
        PyStr s \<Rightarrow>
          rbind (require_json_value (label @ ''.'' @ s) v) (\<lambda>j.
          rbind (require_json_fields label fs) (\<lambda>kvs. Inr ((s, j) # kvs)))
      | _ \<Rightarrow> Inl (TypeError (label @ '' keys must be strings'')))"

definition require_json_object :: "string \<Rightarrow> pyval \<Rightarrow> json result" where
  "require_json_object label v = (case v of
     PyDict fs \<Rightarrow> rbind (require_json_fields label fs) (\<lambda>kvs. Inr (JObj kvs))
   | _ \<Rightarrow> Inl (TypeError (label @ '' must be a JSON object'')))"

text \<open>The Python object that a JSON value is.\<close>

fun py_of_json :: "json \<Rightarrow> pyval" where
  "py_of_json JNull = PyNone"
| "py_of_json (JBool b) = PyBool b"
| "py_of_json (JInt i) = PyInt i"
| "py_of_json (JFloat q t) = PyFloat q t"
| "py_of_json (JStr s) = PyStr s"
| "py_of_json (JArr js) = PyList (map py_of_json js)"
| "py_of_json (JObj kvs) = PyDict (map (\<lambda>(k, v). (PyStr k, py_of_json v)) kvs)"

text \<open>An optional text as a field of an object.\<close>

definition opt_str :: "string option \<Rightarrow> json" where
  "opt_str v = (case v of None \<Rightarrow> JNull | Some s \<Rightarrow> JStr s)"

subsection \<open>Canonical text\<close>

text \<open>The string escapes of \<open>json.dumps(\<dots>, ensure_ascii=False)\<close>.\<close>

definition hex_digit :: "nat \<Rightarrow> char" where
  "hex_digit d = (if d < 10 then char_of (48 + d) else char_of (87 + d))"

definition escape_char :: "char \<Rightarrow> string" where
  "escape_char c =
     (if c = CHR 0x22 then [CHR 0x5C, CHR 0x22]
      else if c = CHR 0x5C then [CHR 0x5C, CHR 0x5C]
      else if c = CHR 0x0A then [CHR 0x5C, CHR ''n'']
      else if c = CHR 0x0D then [CHR 0x5C, CHR ''r'']
      else if c = CHR 0x09 then [CHR 0x5C, CHR ''t'']
      else if c = CHR 0x0C then [CHR 0x5C, CHR ''f'']
      else if c = CHR 0x08 then [CHR 0x5C, CHR ''b'']
      else if of_char c < (0x20 :: nat)
        then [CHR 0x5C, CHR ''u'', CHR ''0'', CHR ''0'',
              hex_digit (of_char c div 16), hex_digit (of_char c mod 16)]
      else [c])"

definition quote :: "string \<Rightarrow> string" where
  "quote s = CHR 0x22 # concat (map escape_char s) @ [CHR 0x22]"

fun join :: "string \<Rightarrow> string list \<Rightarrow> string" where
  "join sep [] = []"
| "join sep [x] = x"
| "join sep (x # y # ys) = x @ sep @ join sep (y # ys)"

text \<open>\<open>json.dumps(value, ensure_ascii=False, sort_keys=True, separators=(",", ":"))\<close>.\<close>

fun canonical :: "json \<Rightarrow> string"
  and canonical_items :: "json list \<Rightarrow> string list"
  and canonical_fields :: "(string \<times> json) list \<Rightarrow> (string \<times> string) list"
where
  "canonical JNull = ''null''"
| "canonical (JBool b) = (if b then ''true'' else ''false'')"
| "canonical (JInt i) = int_text i"
| "canonical (JFloat q t) = t"
| "canonical (JStr s) = quote s"
| "canonical (JArr js) = ''['' @ join '','' (canonical_items js) @ '']''"
| "canonical (JObj kvs) =
     ''{'' @ join '','' (map (\<lambda>(k, t). quote k @ '':'' @ t) (sort_key fst (canonical_fields kvs))) @ ''}''"
| "canonical_items [] = []"
| "canonical_items (j # js) = canonical j # canonical_items js"
| "canonical_fields [] = []"
| "canonical_fields ((k, v) # kvs) = (k, canonical v) # canonical_fields kvs"

text \<open>The SHA-256 hex digest of the UTF-8 bytes is the parameter \<open>sha\<close>.\<close>

definition idempotency_fingerprint :: "(string \<Rightarrow> string) \<Rightarrow> json \<Rightarrow> string" where
  "idempotency_fingerprint sha v = sha (canonical v)"

subsection \<open>Python equality of JSON values\<close>

text \<open>Numbers and booleans compare by value; dicts compare without regard to order.\<close>

fun json_eq :: "json \<Rightarrow> json \<Rightarrow> bool"
  and json_eq_items :: "json list \<Rightarrow> json list \<Rightarrow> bool"
  and json_eq_fields :: "(string \<times> json) list \<Rightarrow> (string \<times> json) list \<Rightarrow> bool"
where
  "json_eq JNull w = (w = JNull)"
| "json_eq (JStr s) w = (w = JStr s)"
| "json_eq (JBool b) w = (case w of JBool c \<Rightarrow> b = c | JInt j \<Rightarrow> of_bool b = j
     | JFloat q t \<Rightarrow> of_bool b = q | _ \<Rightarrow> False)"
| "json_eq (JInt i) w = (case w of JBool c \<Rightarrow> i = of_bool c | JInt j \<Rightarrow> i = j
     | JFloat q t \<Rightarrow> of_int i = q | _ \<Rightarrow> False)"
| "json_eq (JFloat q t) w = (case w of JBool c \<Rightarrow> q = of_bool c | JInt j \<Rightarrow> q = of_int j
     | JFloat p u \<Rightarrow> q = p | _ \<Rightarrow> False)"
| "json_eq (JArr js) w = (case w of JArr ks \<Rightarrow> json_eq_items js ks | _ \<Rightarrow> False)"
| "json_eq (JObj fs) w = (case w of
     JObj gs \<Rightarrow> length fs = length gs \<and> json_eq_fields fs gs | _ \<Rightarrow> False)"
| "json_eq_items [] ks = (ks = [])"
| "json_eq_items (j # js) ks =
     (case ks of [] \<Rightarrow> False | k # ks' \<Rightarrow> json_eq j k \<and> json_eq_items js ks')"
| "json_eq_fields [] gs = True"
| "json_eq_fields ((k, v) # fs) gs =
     (case map_of gs k of None \<Rightarrow> False | Some w \<Rightarrow> json_eq v w \<and> json_eq_fields fs gs)"

subsection \<open>Stored JSON text\<close>

datatype stored_json = Encoded json | Raw string

definition stored_json_matches :: "stored_json option \<Rightarrow> json \<Rightarrow> bool" where
  "stored_json_matches payload expected = (case payload of
     None \<Rightarrow> json_eq JNull expected
   | Some (Encoded v) \<Rightarrow> json_eq v expected
   | Some (Raw t) \<Rightarrow> t = [] \<and> json_eq JNull expected)"

definition require_idempotent_replay :: "bool \<Rightarrow> string \<Rightarrow> string \<Rightarrow> string \<Rightarrow> unit result" where
  "require_idempotent_replay matches resource key existing_id =
     (if \<not> matches then Inl (IdempotencyConflictError resource key existing_id) else Inr ())"

subsection \<open>Conversation scope\<close>

record conversation_scope =
  cs_tenant_id :: string
  cs_source_id :: string

definition ConversationScope :: "string \<Rightarrow> string \<Rightarrow> conversation_scope result" where
  "ConversationScope tenant source =
     (if blank tenant then Inl (ValueError ''tenant_id must be a non-empty string'')
      else if blank source then Inl (ValueError ''source_id must be a non-empty string'')
      else Inr \<lparr>cs_tenant_id = tenant, cs_source_id = source\<rparr>)"

subsection \<open>Facts about JSON values\<close>

text \<open>Values as Python builds them: the keys of every object are distinct.\<close>

fun wf_json :: "json \<Rightarrow> bool" where
  "wf_json (JArr js) = list_all wf_json js"
| "wf_json (JObj kvs) = (distinct (map fst kvs) \<and> list_all (\<lambda>(k, v). wf_json v) kvs)"
| "wf_json _ = True"

lemma py_of_json_eq [simp]:
  "PyNone = py_of_json j \<longleftrightarrow> j = JNull"
  "PyBool b = py_of_json j \<longleftrightarrow> j = JBool b"
  "PyInt i = py_of_json j \<longleftrightarrow> j = JInt i"
  "PyFloat q t = py_of_json j \<longleftrightarrow> j = JFloat q t"
  "PyNonFinite t \<noteq> py_of_json j"
  "PyStr s = py_of_json j \<longleftrightarrow> j = JStr s"
  "PyList vs = py_of_json j \<longleftrightarrow> (\<exists>js. j = JArr js \<and> vs = map py_of_json js)"
  "PyDict fs = py_of_json j \<longleftrightarrow>
     (\<exists>kvs. j = JObj kvs \<and> fs = map (\<lambda>(k, v). (PyStr k, py_of_json v)) kvs)"
  "PyOther t \<noteq> py_of_json j"
  by (cases j; auto)+

lemma require_json_iff:
  "require_json_value l v = Inr j \<longleftrightarrow> v = py_of_json j"
  "require_json_items l i vs = Inr js \<longleftrightarrow> vs = map py_of_json js"
  "require_json_fields l fs = Inr kvs \<longleftrightarrow> fs = map (\<lambda>(k, v). (PyStr k, py_of_json v)) kvs"
proof (induction l v and l i vs and l fs arbitrary: j and js and kvs
    rule: require_json_value_require_json_items_require_json_fields.induct)
  case (11 l i v vs)
  then show ?case by (cases js) (auto simp: rbind_eq_Inr)
next
  case (13 l k v fs)
  then show ?case by (cases kvs) (auto simp: rbind_eq_Inr split: pyval.splits)
qed (auto simp: rbind_eq_Inr)

lemma json_eq_fields_refl:
  assumes "\<And>k v. (k, v) \<in> set fs \<Longrightarrow> json_eq v v" and "distinct (map fst gs)" and "set fs \<subseteq> set gs"
  shows "json_eq_fields fs gs"
  using assms
proof (induction fs)
  case (Cons f fs)
  obtain k v where f: "f = (k, v)" by (cases f)
  with Cons.prems have "map_of gs k = Some v" by (auto intro: map_of_is_SomeI)
  moreover have "json_eq v v" using f Cons.prems(1) [of k v] by simp
  moreover have "json_eq_fields fs gs"
    using Cons.prems f by (intro Cons.IH) (simp_all, blast)
  ultimately show ?case using f by simp
qed simp

lemma json_eq_items_refl: "(\<And>v. v \<in> set vs \<Longrightarrow> json_eq v v) \<Longrightarrow> json_eq_items vs vs"
  by (induction vs) auto

lemma json_eq_refl: "wf_json v \<Longrightarrow> json_eq v v"
proof (induction v)
  case (JArr js)
  then show ?case by (auto simp: list_all_iff intro: json_eq_items_refl)
next
  case (JObj kvs)
  have "json_eq v v" if "(k, v) \<in> set kvs" for k v
  proof (rule JObj.IH [OF that])
    show "v \<in> Basic_BNFs.snds (k, v)" by simp
    show "wf_json v" using JObj.prems that by (auto simp: list_all_iff)
  qed
  then have "json_eq_fields kvs kvs"
    using JObj.prems by (intro json_eq_fields_refl) auto
  then show ?case by simp
qed auto

lemma stored_json_matches_refl [simp]: "wf_json v \<Longrightarrow> stored_json_matches (Some (Encoded v)) v"
  by (simp add: stored_json_matches_def json_eq_refl)

lemma canonical_fields_map: "canonical_fields kvs = map (\<lambda>(k, v). (k, canonical v)) kvs"
  by (induction kvs) auto

lemma canonical_key_order:
  assumes "mset fs = mset gs" and "distinct (map fst fs)"
  shows "canonical (JObj fs) = canonical (JObj gs)"
proof -
  let ?f = "map (\<lambda>(k, v). (k, canonical v)) fs" and ?g = "map (\<lambda>(k, v). (k, canonical v)) gs"
  have keys: "map fst ?f = map fst fs" by (induction fs) auto
  then have inj: "inj_on fst (set ?f)" using assms(2) by (metis distinct_map)
  have "mset ?f = mset (sort_key fst ?g)" using assms(1) by simp
  then have "sort_key fst ?f = sort_key fst ?g"
    using inj by (rule sort_key_inj_key_eq) simp
  then show ?thesis by (simp add: canonical_fields_map)
qed

end
