(* ===== verification/Idempotent_Port.thy ===== *)
theory Idempotent_Port
  imports Idempotency
begin

section \<open>The contract of an idempotent command\<close>

text \<open>
  Every durable command of the platform (\<open>enqueue\<close>, \<open>insert_action\<close>, \<open>enqueue_outbound\<close>, \<dots>) carries
  an idempotency key.  The locale states what its callers rely on: a command that went through is
  recorded; a recorded command can be issued again, answers, and leaves the store as it is; the
  other operations of the store never forget it.
\<close>

fun replay_all :: "('e \<Rightarrow> 's \<Rightarrow> ('r \<times> 's) result) \<Rightarrow> 'e list \<Rightarrow> 's \<Rightarrow> ('r list \<times> 's) result" where
  "replay_all f [] s = Inr ([], s)"
| "replay_all f (e # es) s =
     rbind (f e s) (\<lambda>(r, s'). rbind (replay_all f es s') (\<lambda>(rs, s''). Inr (r # rs, s'')))"

locale idempotent_store =
  fixes inv :: "'s \<Rightarrow> bool"
    and wf :: "'cmd \<Rightarrow> bool"
    and issue :: "'cmd \<Rightarrow> 'e \<Rightarrow> 's \<Rightarrow> ('r \<times> 's) result"
    and recorded :: "'cmd \<Rightarrow> 's \<Rightarrow> bool"
    and other :: "'l \<Rightarrow> 's \<Rightarrow> 's \<Rightarrow> bool"
  assumes inv_issue: "inv s \<Longrightarrow> issue c e s = Inr (r, s') \<Longrightarrow> inv s'"
    and issue_records: "inv s \<Longrightarrow> wf c \<Longrightarrow> issue c e s = Inr (r, s') \<Longrightarrow> recorded c s'"
    and issue_recorded: "inv s \<Longrightarrow> recorded c s \<Longrightarrow> \<exists>r. issue c e s = Inr (r, s)"
    and inv_other: "inv s \<Longrightarrow> other l s s' \<Longrightarrow> inv s'"
    and other_keeps: "inv s \<Longrightarrow> other l s s' \<Longrightarrow> recorded c s \<Longrightarrow> recorded c s'"
begin

lemma replay_recorded: "inv s \<Longrightarrow> recorded c s \<Longrightarrow> \<exists>rs. replay_all (issue c) es s = Inr (rs, s)"
proof (induction es)
  case (Cons e es)
  then obtain rs where rs: "replay_all (issue c) es s = Inr (rs, s)" by blast
  obtain r where "issue c e s = Inr (r, s)" using Cons.prems issue_recorded by blast
  with rs show ?case by simp
qed simp

text \<open>Whatever the store does in between, replays of a command that went through are absorbed.\<close>

lemma replay_absorbed:
  assumes "inv s" and "wf c" and "issue c e s = Inr (r, s1)" and "steps other ls s1 s2"
  shows "\<exists>rs. replay_all (issue c) es s2 = Inr (rs, s2)"
proof -
  have "inv s1 \<and> recorded c s1"
    using assms(1-3) by (auto intro: inv_issue issue_records)
  with assms(4) have "inv s2 \<and> recorded c s2"
    by (rule steps_invariant) (auto intro: inv_other other_keeps)
  then show ?thesis by (auto intro: replay_recorded)
qed

end

end
