(* ===== verification/Actions.thy ===== *)
theory Actions
  imports Idempotent_Port
begin

section \<open>Actions\<close>

text \<open>
  Models \<open>actions/store.py\<close> on the table \<open>actions\<close> (migrations 006, 011 and 015): an app-defined
  effect that a decision asks for, that may need a human approval, and that the action worker
  executes.  Every status change is one \<open>UPDATE\<close> guarded by the id, the conversation
  (tenant and source) and the statuses it may start from.
\<close>

subsection \<open>Rows\<close>

datatype action_state =
    ActPending | ActApproved | ActDenied | ActQueued | ActExecuting
  | ActExecuted | ActFailed | ActCancelled | ActUncertain

record action_row =
  ac_id :: string
  ac_tenant_id :: string
  ac_source_id :: string
  ac_run_id :: "string option"
  ac_kind :: string
  ac_payload_json :: stored_json
  ac_status :: action_state
  ac_approval_policy :: string
  ac_source_event_id :: "string option"
  ac_idempotency_key :: "string option"
  ac_approved_by :: "string option"
  ac_approved_at :: "int option"
  ac_executed_at :: "int option"
  ac_result_json :: "stored_json option"
  ac_last_error :: "string option"
  ac_created_at :: int
  ac_updated_at :: int

text \<open>The keyword arguments of \<open>insert_action\<close>.\<close>

record action_args =
  aa_tenant_id :: string
  aa_source_id :: string
  aa_kind :: string
  aa_payload :: json
  aa_run_id :: "string option"
  aa_approval_policy :: string
  aa_source_event_id :: "string option"
  aa_idempotency_key :: "string option"

subsection \<open>Creating\<close>

definition validate_conversation :: "string \<Rightarrow> string \<Rightarrow> unit result" where
  "validate_conversation tenant source =
     (if blank tenant \<or> blank source
      then Inl (ValueError ''tenant_id and source_id must be non-empty'') else Inr ())"

definition new_action_row :: "int \<Rightarrow> string \<Rightarrow> action_args \<Rightarrow> action_row" where
  "new_action_row now uuid a = \<lparr>
     ac_id = ''act_'' @ uuid, ac_tenant_id = aa_tenant_id a, ac_source_id = aa_source_id a,
     ac_run_id = aa_run_id a, ac_kind = aa_kind a, ac_payload_json = Encoded (aa_payload a),
     ac_status = (if aa_approval_policy a = ''auto'' then ActApproved else ActPending),
     ac_approval_policy = aa_approval_policy a, ac_source_event_id = aa_source_event_id a,
     ac_idempotency_key = aa_idempotency_key a, ac_approved_by = None, ac_approved_at = None,
     ac_executed_at = None, ac_result_json = None, ac_last_error = None,
     ac_created_at = now, ac_updated_at = now\<rparr>"

text \<open>\<open>PRIMARY KEY(id)\<close> and \<open>UNIQUE(tenant_id, source_id, idempotency_key)\<close>; a \<open>NULL\<close> key never
  conflicts.\<close>

definition ac_conflict :: "action_row \<Rightarrow> action_row \<Rightarrow> bool" where
  "ac_conflict n r = (ac_id r = ac_id n \<or>
     (ac_idempotency_key n \<noteq> None \<and> ac_idempotency_key r = ac_idempotency_key n
      \<and> ac_tenant_id r = ac_tenant_id n \<and> ac_source_id r = ac_source_id n))"

definition ac_insert :: "action_row \<Rightarrow> action_row list \<Rightarrow> action_row list result" where
  "ac_insert n rows = (if \<exists>r \<in> set rows. ac_conflict n r then Inl IntegrityError else Inr (rows @ [n]))"

definition ac_by_key :: "string \<Rightarrow> string \<Rightarrow> string \<Rightarrow> action_row \<Rightarrow> bool" where
  "ac_by_key tenant source key r =
     (ac_tenant_id r = tenant \<and> ac_source_id r = source \<and> ac_idempotency_key r = Some key)"

definition action_replay_matches :: "action_args \<Rightarrow> action_row \<Rightarrow> bool" where
  "action_replay_matches a row =
     (ac_kind row = aa_kind a
      \<and> stored_json_matches (Some (ac_payload_json row)) (aa_payload a)
      \<and> ac_run_id row = aa_run_id a
      \<and> ac_approval_policy row = aa_approval_policy a
      \<and> ac_source_event_id row = aa_source_event_id a)"

definition require_action_replay :: "action_row \<Rightarrow> string \<Rightarrow> action_args \<Rightarrow> unit result" where
  "require_action_replay row key a =
     require_idempotent_replay (action_replay_matches a row) ''action'' key (ac_id row)"

definition replay_action ::
  "action_row \<Rightarrow> string \<Rightarrow> action_args \<Rightarrow> action_row list \<Rightarrow> ((string \<times> bool) \<times> action_row list) result" where
  "replay_action existing key a rows =
     rbind (require_action_replay existing key a) (\<lambda>_. Inr ((ac_id existing, False), rows))"

definition insert_new_action ::
  "int \<Rightarrow> string \<Rightarrow> action_args \<Rightarrow> action_row list \<Rightarrow> ((string \<times> bool) \<times> action_row list) result" where
  "insert_new_action now uuid a rows =
     (let n = new_action_row now uuid a in
      case ac_insert n rows of
        Inr rows' \<Rightarrow> Inr ((ac_id n, True), rows')
      | Inl e \<Rightarrow>
          (case aa_idempotency_key a of
             None \<Rightarrow> Inl e
           | Some key \<Rightarrow>
               (case fetchone (ac_by_key (aa_tenant_id a) (aa_source_id a) key) rows of
                  None \<Rightarrow> Inl e
                | Some existing \<Rightarrow> replay_action existing key a rows)))"

definition insert_action ::
  "int \<Rightarrow> string \<Rightarrow> action_args \<Rightarrow> action_row list \<Rightarrow> ((string \<times> bool) \<times> action_row list) result" where
  "insert_action now uuid a rows =
     rbind (validate_conversation (aa_tenant_id a) (aa_source_id a)) (\<lambda>_.
       case aa_idempotency_key a of
         None \<Rightarrow> insert_new_action now uuid a rows
       | Some key \<Rightarrow>
           (case fetchone (ac_by_key (aa_tenant_id a) (aa_source_id a) key) rows of
              None \<Rightarrow> insert_new_action now uuid a rows
            | Some existing \<Rightarrow> replay_action existing key a rows))"

subsection \<open>Reading and changing the status\<close>

definition ac_is :: "string \<Rightarrow> string \<Rightarrow> string \<Rightarrow> action_row \<Rightarrow> bool" where
  "ac_is action_id tenant source r =
     (ac_id r = action_id \<and> ac_tenant_id r = tenant \<and> ac_source_id r = source)"

definition get_action :: "string \<Rightarrow> string \<Rightarrow> string \<Rightarrow> action_row list \<Rightarrow> action_row option" where
  "get_action action_id tenant source rows = fetchone (ac_is action_id tenant source) rows"

text \<open>\<open>UPDATE actions SET \<dots> WHERE id = ? AND tenant_id = ? AND source_id = ? AND status IN \<dots>\<close>, and
  \<open>cur.rowcount > 0\<close>.\<close>

definition ac_transition ::
  "action_state list \<Rightarrow> (action_row \<Rightarrow> action_row) \<Rightarrow> string \<Rightarrow> string \<Rightarrow> string \<Rightarrow> action_row list
    \<Rightarrow> bool \<times> action_row list" where
  "ac_transition from f action_id tenant source rows =
     (let p = (\<lambda>r. ac_is action_id tenant source r \<and> ac_status r \<in> set from)
      in (rowcount p rows > 0, update_where p f rows))"

definition approve_action ::
  "int \<Rightarrow> string \<Rightarrow> string \<Rightarrow> string \<Rightarrow> string \<Rightarrow> action_row list \<Rightarrow> bool \<times> action_row list" where
  "approve_action now approver action_id tenant source rows =
     ac_transition [ActPending]
       (\<lambda>r. r\<lparr>ac_status := ActApproved, ac_approved_by := Some approver, ac_approved_at := Some now,
              ac_updated_at := now\<rparr>) action_id tenant source rows"

definition deny_action ::
  "int \<Rightarrow> string \<Rightarrow> string \<Rightarrow> string \<Rightarrow> string \<Rightarrow> action_row list \<Rightarrow> bool \<times> action_row list" where
  "deny_action now approver action_id tenant source rows =
     ac_transition [ActPending]
       (\<lambda>r. r\<lparr>ac_status := ActDenied, ac_approved_by := Some approver, ac_approved_at := Some now,
              ac_updated_at := now\<rparr>) action_id tenant source rows"

definition mark_executing ::
  "int \<Rightarrow> string \<Rightarrow> string \<Rightarrow> string \<Rightarrow> action_row list \<Rightarrow> bool \<times> action_row list" where
  "mark_executing now action_id tenant source rows =
     ac_transition [ActApproved, ActQueued]
       (\<lambda>r. r\<lparr>ac_status := ActExecuting, ac_updated_at := now\<rparr>) action_id tenant source rows"

definition mark_queued ::
  "int \<Rightarrow> json option \<Rightarrow> string \<Rightarrow> string \<Rightarrow> string \<Rightarrow> action_row list \<Rightarrow> bool \<times> action_row list" where
  "mark_queued now res action_id tenant source rows =
     ac_transition [ActExecuting]
       (\<lambda>r. r\<lparr>ac_status := ActQueued,
              ac_result_json := Some (Encoded (case res of None \<Rightarrow> JObj [] | Some v \<Rightarrow> v)),
              ac_last_error := None, ac_updated_at := now\<rparr>) action_id tenant source rows"

definition mark_executed ::
  "int \<Rightarrow> json \<Rightarrow> string \<Rightarrow> string \<Rightarrow> string \<Rightarrow> action_row list \<Rightarrow> bool \<times> action_row list" where
  "mark_executed now res action_id tenant source rows =
     ac_transition [ActExecuting, ActQueued]
       (\<lambda>r. r\<lparr>ac_status := ActExecuted, ac_executed_at := Some now, ac_result_json := Some (Encoded res),
              ac_updated_at := now\<rparr>) action_id tenant source rows"

definition mark_failed ::
  "int \<Rightarrow> string \<Rightarrow> string \<Rightarrow> string \<Rightarrow> string \<Rightarrow> action_row list \<Rightarrow> bool \<times> action_row list" where
  "mark_failed now err action_id tenant source rows =
     ac_transition [ActApproved, ActExecuting, ActQueued]
       (\<lambda>r. r\<lparr>ac_status := ActFailed, ac_last_error := Some (prefix_chars 500 err),
              ac_result_json := Some (Encoded (JObj [(''error'', JStr err)])), ac_updated_at := now\<rparr>)
       action_id tenant source rows"

definition mark_retryable ::
  "int \<Rightarrow> string \<Rightarrow> string \<Rightarrow> string \<Rightarrow> string \<Rightarrow> action_row list \<Rightarrow> bool \<times> action_row list" where
  "mark_retryable now err action_id tenant source rows =
     ac_transition [ActExecuting]
       (\<lambda>r. r\<lparr>ac_status := ActQueued, ac_last_error := Some (prefix_chars 500 err), ac_updated_at := now\<rparr>)
       action_id tenant source rows"

definition mark_uncertain ::
  "int \<Rightarrow> string \<Rightarrow> string \<Rightarrow> string \<Rightarrow> string \<Rightarrow> action_row list \<Rightarrow> bool \<times> action_row list" where
  "mark_uncertain now err action_id tenant source rows =
     ac_transition [ActExecuting]
       (\<lambda>r. r\<lparr>ac_status := ActUncertain, ac_last_error := Some (prefix_chars 500 err),
              ac_result_json := Some (Encoded (JObj [(''execution'', JStr ''uncertain''), (''error'', JStr err)])),
              ac_updated_at := now\<rparr>) action_id tenant source rows"

text \<open>The status changes as one operation with a label.\<close>

datatype action_change =
    ChApprove string | ChDeny string | ChExecuting | ChQueued "json option" | ChExecuted json
  | ChFailed string | ChRetryable string | ChUncertain string

fun change_action ::
  "action_change \<Rightarrow> int \<Rightarrow> string \<Rightarrow> string \<Rightarrow> string \<Rightarrow> action_row list \<Rightarrow> bool \<times> action_row list" where
  "change_action (ChApprove by) now = approve_action now by"
| "change_action (ChDeny by) now = deny_action now by"
| "change_action ChExecuting now = mark_executing now"
| "change_action (ChQueued res) now = mark_queued now res"
| "change_action (ChExecuted res) now = mark_executed now res"
| "change_action (ChFailed err) now = mark_failed now err"
| "change_action (ChRetryable err) now = mark_retryable now err"
| "change_action (ChUncertain err) now = mark_uncertain now err"

lemmas change_action_defs = approve_action_def deny_action_def mark_executing_def mark_queued_def
  mark_executed_def mark_failed_def mark_retryable_def mark_uncertain_def

subsection \<open>Row steps\<close>

definition ac_envelope :: "action_row \<Rightarrow> _" where
  "ac_envelope r = (ac_id r, ac_tenant_id r, ac_source_id r, ac_run_id r, ac_kind r, ac_payload_json r,
     ac_approval_policy r, ac_source_event_id r, ac_idempotency_key r, ac_created_at r)"

definition ac_edges :: "(action_state \<times> action_state) set" where
  "ac_edges = {(ActPending, ActApproved), (ActPending, ActDenied),
     (ActApproved, ActExecuting), (ActQueued, ActExecuting),
     (ActExecuting, ActQueued), (ActExecuting, ActExecuted), (ActQueued, ActExecuted),
     (ActApproved, ActFailed), (ActExecuting, ActFailed), (ActQueued, ActFailed),
     (ActExecuting, ActUncertain)}"

text \<open>A status change keeps what the action is, follows an edge, and touches the approver only to
  record a decision on a pending action.\<close>

definition ac_row_step :: "action_row \<Rightarrow> action_row \<Rightarrow> bool" where
  "ac_row_step r r' \<longleftrightarrow> r' = r \<or>
     (ac_envelope r' = ac_envelope r \<and> (ac_status r, ac_status r') \<in> ac_edges
      \<and> (if ac_status r = ActPending then ac_approved_by r' \<noteq> None else ac_approved_by r' = ac_approved_by r))"

lemma ac_row_step_refl [simp]: "ac_row_step r r"
  by (simp add: ac_row_step_def)

lemma change_action_rows: "rows_extend ac_row_step rows (snd (change_action ch now k tn src rows))"
  by (cases ch)
     (auto simp: change_action_defs ac_transition_def Let_def ac_row_step_def ac_edges_def ac_envelope_def
       intro!: rows_extend_update_where)

lemma insert_action_rows:
  "insert_action now uuid a rows = Inr (res, rows') \<Longrightarrow>
    rows' = rows \<and> \<not> snd res \<or> rows' = rows @ [new_action_row now uuid a] \<and> res = (''act_'' @ uuid, True)"
  by (auto simp: insert_action_def insert_new_action_def replay_action_def Let_def ac_insert_def rbind_eq_Inr
      new_action_row_def split: if_splits option.splits)

subsection \<open>The invariant of the table\<close>

definition ac_key :: "action_row \<Rightarrow> (string \<times> string \<times> string) option" where
  "ac_key r = map_option (\<lambda>key. (ac_tenant_id r, ac_source_id r, key)) (ac_idempotency_key r)"

text \<open>An action that is not automatic has left \<open>pending\<close> only with the name of who decided.\<close>

definition ac_row_ok :: "action_row \<Rightarrow> bool" where
  "ac_row_ok r \<longleftrightarrow> (ac_status r \<noteq> ActPending \<and> ac_approval_policy r \<noteq> ''auto'' \<longrightarrow> ac_approved_by r \<noteq> None)"

definition ac_inv :: "action_row list \<Rightarrow> bool" where
  "ac_inv rows \<longleftrightarrow> distinct (map ac_id rows) \<and> unique_key ac_key rows \<and> (\<forall>r \<in> set rows. ac_row_ok r)"

lemma ac_inv_Nil [simp]: "ac_inv []"
  by (simp add: ac_inv_def)

lemma ac_inv_update:
  assumes "ac_inv rows" and "\<And>r. ac_envelope (f r) = ac_envelope r"
    and "\<And>r. r \<in> set rows \<Longrightarrow> p r \<Longrightarrow> ac_row_ok r \<Longrightarrow> ac_row_ok (f r)"
  shows "ac_inv (update_where p f rows)"
proof -
  have env: "ac_id (f r) = ac_id r" "ac_key (f r) = ac_key r" for r
    using assms(2) [of r] by (auto simp: ac_envelope_def ac_key_def)
  have "\<forall>r \<in> set (update_where p f rows). ac_row_ok r"
    using assms(1,3) by (intro update_where_preserves) (auto simp: ac_inv_def)
  then show ?thesis
    using assms(1) by (simp add: ac_inv_def env unique_key_update_where)
qed

lemma ac_inv_change: "ac_inv rows \<Longrightarrow> ac_inv (snd (change_action ch now k tn src rows))"
  by (cases ch)
     (auto simp: change_action_defs ac_transition_def Let_def ac_row_ok_def ac_envelope_def intro!: ac_inv_update)

lemma ac_inv_insert:
  assumes "ac_inv rows" and "insert_action now uuid a rows = Inr (res, rows')"
  shows "ac_inv rows'"
proof (cases "rows' = rows")
  case False
  let ?n = "new_action_row now uuid a"
  have rows': "rows' = rows @ [?n]" and free: "\<not> (\<exists>r \<in> set rows. ac_conflict ?n r)"
    using assms(2) False
    by (auto simp: insert_action_def insert_new_action_def replay_action_def Let_def ac_insert_def rbind_eq_Inr
        split: if_splits option.splits)
  have "ac_row_ok ?n" by (simp add: ac_row_ok_def new_action_row_def)
  moreover have "unique_key ac_key (rows @ [?n])"
    using assms(1) free
    by (auto simp: unique_key_append ac_inv_def ac_key_def ac_conflict_def new_action_row_def)
  moreover have "distinct (map ac_id (rows @ [?n]))"
    using assms(1) free by (auto simp: ac_inv_def ac_conflict_def)
  ultimately show ?thesis using assms(1) unfolding rows' by (simp add: ac_inv_def)
qed (use assms in simp)

subsection \<open>Runs\<close>

datatype action_op = OpInsert int string action_args | OpChange action_change int string string string

inductive ac_step :: "action_op \<Rightarrow> action_row list \<Rightarrow> action_row list \<Rightarrow> bool" where
  step_insert: "insert_action now uuid a rows = Inr (res, rows') \<Longrightarrow> ac_step (OpInsert now uuid a) rows rows'"
| step_change: "change_action ch now k tn src rows = (b, rows') \<Longrightarrow> ac_step (OpChange ch now k tn src) rows rows'"

inductive_simps ac_step_simps:
  "ac_step (OpInsert now uuid a) rows rows'"
  "ac_step (OpChange ch now k tn src) rows rows'"

lemma ac_step_inv: "ac_step op s t \<Longrightarrow> ac_inv s \<Longrightarrow> ac_inv t"
  by (induction rule: ac_step.induct) (auto intro: ac_inv_insert, metis ac_inv_change snd_conv)


lemma ac_step_rows: "ac_step op s t \<Longrightarrow> rows_extend ac_row_step s t"
  by (induction rule: ac_step.induct)
     (auto dest!: insert_action_rows intro: rows_extend_refl rows_extend_append simp: rows_extend_refl,
      metis change_action_rows snd_conv)

text \<open>Denied, executed, failed and cancelled actions are final for the store; an uncertain action
  waits for reconciliation.\<close>

definition ac_final :: "action_row \<Rightarrow> bool" where
  "ac_final r \<longleftrightarrow> ac_status r \<in> {ActDenied, ActExecuted, ActFailed, ActCancelled, ActUncertain}"

definition ac_row_later :: "action_row \<Rightarrow> action_row \<Rightarrow> bool" where
  "ac_row_later r r' \<longleftrightarrow> ac_envelope r' = ac_envelope r \<and> (ac_final r \<longrightarrow> r' = r)
     \<and> (ac_status r \<noteq> ActPending \<longrightarrow> ac_status r' \<noteq> ActPending \<and> ac_approved_by r' = ac_approved_by r)"

lemma ac_row_step_later: "ac_row_step r r' \<Longrightarrow> ac_row_later r r'"
  by (auto simp: ac_row_step_def ac_row_later_def ac_final_def ac_edges_def)

lemma ac_row_later_trans: "ac_row_later r s \<Longrightarrow> ac_row_later s t \<Longrightarrow> ac_row_later r t"
  by (auto simp: ac_row_later_def)

lemma steps_ac_later:
  assumes "steps ac_step ops s t"
  shows "rows_extend ac_row_later s t"
  using assms
proof (rule steps_preorder [where I = "\<lambda>_. True"])
  show "rows_extend ac_row_later s t" if "ac_step l s t" for l s t
    using that by (rule rows_extend_mono [OF ac_step_rows ac_row_step_later])
  show "rows_extend ac_row_later s s" for s
    by (rule rows_extend_refl) (simp add: ac_row_later_def)
  show "rows_extend ac_row_later s u" if "rows_extend ac_row_later s t" "rows_extend ac_row_later t u" for s t u
    using that ac_row_later_trans by (rule rows_extend_trans)
qed simp_all

subsection \<open>The action store keeps the contract of an idempotent command\<close>

definition ac_recorded :: "action_args \<Rightarrow> action_row list \<Rightarrow> bool" where
  "ac_recorded a rows \<longleftrightarrow> \<not> blank (aa_tenant_id a) \<and> \<not> blank (aa_source_id a) \<and>
     (\<exists>key. aa_idempotency_key a = Some key \<and>
       (\<exists>r \<in> set rows. ac_by_key (aa_tenant_id a) (aa_source_id a) key r \<and> action_replay_matches a r))"

lemma ac_fetch_by_key:
  assumes "ac_inv rows" and "r \<in> set rows" and "ac_by_key tn src key r"
  shows "fetchone (ac_by_key tn src key) rows = Some r"
proof (cases "fetchone (ac_by_key tn src key) rows")
  case None
  then show ?thesis using assms by (auto simp: fetchone_None)
next
  case (Some s)
  then have "s \<in> set rows" "ac_by_key tn src key s" by (auto dest: fetchone_SomeD)
  with assms have "s = r"
    by (intro unique_keyD [where k = ac_key and rows = rows and x = "(tn, src, key)"])
       (auto simp: ac_inv_def ac_key_def ac_by_key_def)
  with Some show ?thesis by simp
qed

lemma insert_action_recorded:
  assumes "ac_inv rows" and "ac_recorded a rows"
  shows "\<exists>i. insert_action now uuid a rows = Inr ((i, False), rows)"
proof -
  obtain key r where r: "aa_idempotency_key a = Some key" "r \<in> set rows"
    "ac_by_key (aa_tenant_id a) (aa_source_id a) key r" "action_replay_matches a r"
    using assms(2) by (auto simp: ac_recorded_def)
  then show ?thesis
    using ac_fetch_by_key [OF assms(1) r(2,3)] assms(2)
    by (simp add: insert_action_def replay_action_def require_action_replay_def require_idempotent_replay_def
        validate_conversation_def ac_recorded_def)
qed

lemma insert_action_records:
  assumes "insert_action now uuid a rows = Inr (res, rows')"
    and "wf_json (aa_payload a)" and "aa_idempotency_key a = Some key"
  shows "ac_recorded a rows'"
proof (cases "rows' = rows")
  case False
  then have "rows' = rows @ [new_action_row now uuid a]" using insert_action_rows [OF assms(1)] by auto
  moreover have "action_replay_matches a (new_action_row now uuid a)"
    using assms(2) by (simp add: action_replay_matches_def new_action_row_def)
  moreover have "\<not> blank (aa_tenant_id a)" "\<not> blank (aa_source_id a)"
    using assms(1) by (auto simp: insert_action_def validate_conversation_def split: if_splits)
  ultimately show ?thesis
    using assms(3) by (auto simp: ac_recorded_def ac_by_key_def new_action_row_def)
next
  case True
  then obtain r where "fetchone (ac_by_key (aa_tenant_id a) (aa_source_id a) key) rows = Some r"
    "action_replay_matches a r" "\<not> blank (aa_tenant_id a)" "\<not> blank (aa_source_id a)"
    using assms(1,3)
    by (auto simp: insert_action_def insert_new_action_def replay_action_def Let_def ac_insert_def rbind_eq_Inr
        require_action_replay_def require_idempotent_replay_def validate_conversation_def
        split: if_splits option.splits)
  with True show ?thesis using assms(3) by (auto simp: ac_recorded_def dest: fetchone_SomeD)
qed

lemma ac_recorded_later:
  assumes "rows_extend ac_row_step s t" and "ac_recorded a s"
  shows "ac_recorded a t"
proof -
  obtain key r where r: "aa_idempotency_key a = Some key" "r \<in> set s"
    "ac_by_key (aa_tenant_id a) (aa_source_id a) key r" "action_replay_matches a r"
    using assms(2) by (auto simp: ac_recorded_def)
  obtain r' where r': "r' \<in> set t" "ac_envelope r' = ac_envelope r"
    using rows_extend_member [OF assms(1) r(2)] by (auto simp: ac_row_step_def)
  have "ac_by_key (aa_tenant_id a) (aa_source_id a) key r'" "action_replay_matches a r'"
    using r(3,4) r'(2) by (simp_all add: ac_envelope_def ac_by_key_def action_replay_matches_def)
  with assms(2) r(1) r'(1) show ?thesis by (auto simp: ac_recorded_def)
qed

interpretation action_idem: idempotent_store ac_inv
    "\<lambda>a. wf_json (aa_payload a) \<and> aa_idempotency_key a \<noteq> None"
    "\<lambda>a (now, uuid). insert_action now uuid a" ac_recorded ac_step
proof (unfold_locales, goal_cases)
  case (3 s a e)
  then show ?case using insert_action_recorded [of s a] by (cases e) fastforce
next
  case (5 s l s' a)
  then show ?case by (blast intro: ac_recorded_later ac_step_rows)
qed (auto intro: ac_inv_insert insert_action_records ac_step_inv)

subsection \<open>A concrete action\<close>

definition demo_action :: action_args where
  "demo_action = \<lparr>aa_tenant_id = ''t'', aa_source_id = ''chat'', aa_kind = ''email'',
     aa_payload = JObj [(''to'', JStr ''x'')], aa_run_id = None, aa_approval_policy = ''manual'',
     aa_source_event_id = None, aa_idempotency_key = Some ''k''\<rparr>"

definition demo_pending :: action_row where
  "demo_pending = new_action_row 0 ''a'' demo_action"

definition demo_approved :: action_row where
  "demo_approved = demo_pending\<lparr>ac_status := ActApproved, ac_approved_by := Some ''boss'',
     ac_approved_at := Some 5, ac_updated_at := 5\<rparr>"

lemmas demo_action_defs = demo_pending_def demo_approved_def new_action_row_def demo_action_def

lemma demo_insert: "insert_action 0 ''a'' demo_action [] = Inr ((''act_a'', True), [demo_pending])"
  by (simp add: insert_action_def insert_new_action_def Let_def ac_insert_def validate_conversation_def
      blank_def is_space_def py_whitespace_def demo_action_defs)

lemma demo_approve:
  "change_action (ChApprove ''boss'') 5 ''act_a'' ''t'' ''chat'' [demo_pending] = (True, [demo_approved])"
  by (simp add: change_action_defs ac_transition_def Let_def ac_is_def demo_action_defs)

lemma demo_execute:
  "change_action ChExecuting 6 ''act_a'' ''t'' ''chat'' [demo_approved]
    = (True, [demo_approved\<lparr>ac_status := ActExecuting, ac_updated_at := 6\<rparr>])"
  by (simp add: change_action_defs ac_transition_def Let_def ac_is_def demo_action_defs)


lemma demo_action_inv: "ac_inv [demo_pending]" "ac_inv [demo_approved]"
  using ac_step_inv [OF step_insert [OF demo_insert]] ac_step_inv [OF step_change [OF demo_approve]] by simp_all

subsection \<open>Properties\<close>



text \<open>The action life cycle: along any run an action keeps what it was created as, its status
  never returns to pending, the recorded decision is never changed, and a denied, executed, failed,
  cancelled or uncertain action is not written again.\<close>

theorem action_life_cycle:
  assumes "steps ac_step ops rows rows'"
  shows "rows_extend (\<lambda>r r'. ac_envelope r' = ac_envelope r \<and> (ac_final r \<longrightarrow> r' = r)
      \<and> (ac_status r \<noteq> ActPending \<longrightarrow> ac_status r' \<noteq> ActPending \<and> ac_approved_by r' = ac_approved_by r)) rows rows'"
  using steps_ac_later [OF assms] by (simp add: ac_row_later_def [abs_def])

theorem action_life_cycle_witness:
  "ac_envelope (demo_approved\<lparr>ac_status := ActExecuting, ac_updated_at := 6\<rparr>) = ac_envelope demo_approved"
  using action_life_cycle [of "[OpChange ChExecuting 6 ''act_a'' ''t'' ''chat'']" "[demo_approved]"
      "[demo_approved\<lparr>ac_status := ActExecuting, ac_updated_at := 6\<rparr>]"] step_change [OF demo_execute]
  by (simp add: rows_extend_def)

text \<open>Creating an action is idempotent: after an insert with a key went through, and after any
  further store operations, the same insert can be repeated any number of times; it always answers,
  and changes nothing.\<close>

theorem insert_action_idempotent:
  assumes "ac_inv rows" and "wf_json (aa_payload a)" and "aa_idempotency_key a \<noteq> None"
    and "insert_action now uuid a rows = Inr (res, rows1)" and "steps ac_step ops rows1 rows2"
  shows "\<exists>rs. replay_all (\<lambda>(now, uuid). insert_action now uuid a) again rows2 = Inr (rs, rows2)"
  using action_idem.replay_absorbed [where e = "(now, uuid)" and c = a and s = rows and r = res
      and ?s1.0 = rows1 and ls = ops and ?s2.0 = rows2 and es = again] assms by simp

theorem insert_action_idempotent_witness:
  "\<exists>rs. replay_all (\<lambda>(now, uuid). insert_action now uuid demo_action) [(7, ''b''), (8, ''c'')] [demo_approved]
    = Inr (rs, [demo_approved])"
  using insert_action_idempotent [OF ac_inv_Nil _ _ demo_insert,
      of "[OpChange (ChApprove ''boss'') 5 ''act_a'' ''t'' ''chat'']" "[demo_approved]" "[(7, ''b''), (8, ''c'')]"]
    step_change [OF demo_approve]
  by (simp add: demo_action_def)

text \<open>Conversations are isolated: a status change issued for one tenant and source leaves every
  row of another conversation exactly as it was, and reports no change unless the action belongs to
  the conversation.\<close>

theorem action_scope_isolation:
  assumes "change_action ch now k tn src rows = (b, rows')"
  shows "rows_extend (\<lambda>r r'. (ac_tenant_id r, ac_source_id r) \<noteq> (tn, src) \<longrightarrow> r' = r) rows rows'
    \<and> (b \<longrightarrow> (\<exists>r \<in> set rows. ac_is k tn src r))"
proof -
  obtain from' f where "change_action ch now k tn src rows = ac_transition from' f k tn src rows"
    by (cases ch) (simp_all add: change_action_defs)
  then show ?thesis
    using assms
    by (auto simp: ac_transition_def Let_def rowcount_pos ac_is_def intro!: rows_extend_update_where)
qed

theorem action_scope_isolation_witness:
  "change_action (ChApprove ''boss'') 5 ''act_a'' ''t'' ''other'' [demo_pending] = (False, [demo_pending])
    \<and> rows_extend (\<lambda>r r'. (ac_tenant_id r, ac_source_id r) \<noteq> (''t'', ''other'') \<longrightarrow> r' = r) [demo_pending] [demo_pending]"
proof
  show call: "change_action (ChApprove ''boss'') 5 ''act_a'' ''t'' ''other'' [demo_pending] = (False, [demo_pending])"
    by (simp add: change_action_defs ac_transition_def Let_def ac_is_def demo_action_defs)
  show "rows_extend (\<lambda>r r'. (ac_tenant_id r, ac_source_id r) \<noteq> (''t'', ''other'') \<longrightarrow> r' = r) [demo_pending] [demo_pending]"
    using action_scope_isolation [OF call] by simp
qed

end
