(* ===== verification/Lease_Port.thy ===== *)
theory Lease_Port
  imports Prelude
begin

section \<open>The contract of a leased work table\<close>

text \<open>
  The durable queue, the outbound queue and the cron store of the platform share one protocol: a
  worker claims rows under a fresh lease token, and settles each row (done, retry, dead letter, \<dots>)
  by an \<open>UPDATE\<close> that is guarded by the row's id and the token (\<open>DurableQueue\<close>, \<open>OutboundQueue\<close> and
  \<open>CronStore\<close> in the code).  The locales state what a worker relies on; their lemmas are proved once
  and hold for every table that is shown to keep the contract.
\<close>

subsection \<open>Runs of operations that answer with a flag\<close>

fun run_ops :: "('o \<Rightarrow> 's \<Rightarrow> bool \<times> 's) \<Rightarrow> 'o list \<Rightarrow> 's \<Rightarrow> bool list \<times> 's" where
  "run_ops f [] s = ([], s)"
| "run_ops f (a # as) s =
     (let (b, s') = f a s; (bs, s'') = run_ops f as s' in (b # bs, s''))"

text \<open>How many of the operations selected by \<open>p\<close> answered \<open>True\<close>.\<close>

definition wins :: "('o \<Rightarrow> bool) \<Rightarrow> 'o list \<Rightarrow> bool list \<Rightarrow> nat" where
  "wins p as bs = length (filter (\<lambda>(a, b). p a \<and> b) (zip as bs))"

lemma wins_Nil [simp]: "wins p [] bs = 0"
  by (simp add: wins_def)

lemma wins_Cons [simp]: "wins p (a # as) (b # bs) = (if p a \<and> b then 1 else 0) + wins p as bs"
  by (simp add: wins_def)

subsection \<open>Settling a leased row\<close>

text \<open>\<open>prompt\<close> are the settlements that every holder may use; the others are guarded by a status of
  the row as well.\<close>

locale lease_port =
  fixes inv :: "'s \<Rightarrow> bool"
    and holds :: "'s \<Rightarrow> string \<Rightarrow> string \<Rightarrow> bool"
    and prompt :: "'o \<Rightarrow> bool"
    and settle :: "'o \<Rightarrow> string \<Rightarrow> string \<Rightarrow> 's \<Rightarrow> bool \<times> 's"
  assumes inv_settle: "inv s \<Longrightarrow> inv (snd (settle a k t s))"
    and settle_holds: "inv s \<Longrightarrow> fst (settle a k t s) \<Longrightarrow> holds s k t"
    and settle_prompt: "inv s \<Longrightarrow> prompt a \<Longrightarrow> holds s k t \<Longrightarrow> fst (settle a k t s)"
    and settle_refused: "inv s \<Longrightarrow> \<not> fst (settle a k t s) \<Longrightarrow> snd (settle a k t s) = s"
    and settle_release: "inv s \<Longrightarrow> fst (settle a k t s) \<Longrightarrow> \<not> holds (snd (settle a k t s)) k t'"
    and settle_frame: "inv s \<Longrightarrow> k' \<noteq> k \<Longrightarrow> holds (snd (settle a k t s)) k' t' = holds s k' t'"
begin

lemma settle_stale_pair: "inv s \<Longrightarrow> \<not> holds s k t \<Longrightarrow> settle a k t s = (False, s)"
  using settle_holds [of s a k t] settle_refused [of s a k t] by (auto simp: prod_eq_iff)

lemma settle_once_more:
  assumes "inv s" and "fst (settle a k t s)"
  shows "settle b k t' (snd (settle a k t s)) = (False, snd (settle a k t s))"
  using assms by (intro settle_stale_pair inv_settle settle_release)

text \<open>Whatever sequence of settlements several workers issue, with whatever tokens, a row that is
  not claimed again in between is settled at most once, and only if it was leased.\<close>

lemma settle_at_most_once:
  assumes "inv s"
  shows "wins (\<lambda>(a, k', t). k' = k) as (fst (run_ops (\<lambda>(a, k, t). settle a k t) as s))
    \<le> (if \<exists>t. holds s k t then 1 else 0)"
  using assms
proof (induction as arbitrary: s)
  case (Cons x as)
  obtain a k' t where x: "x = (a, k', t)" by (cases x)
  let ?s = "snd (settle a k' t s)"
  let ?n = "wins (\<lambda>(a, k', t). k' = k) as (fst (run_ops (\<lambda>(a, k, t). settle a k t) as ?s))"
  have IH: "?n \<le> (if \<exists>t. holds ?s k t then 1 else 0)"
    by (rule Cons.IH) (rule inv_settle [OF Cons.prems])
  have run: "fst (run_ops (\<lambda>(a, k, t). settle a k t) (x # as) s) =
      fst (settle a k' t s) # fst (run_ops (\<lambda>(a, k, t). settle a k t) as ?s)"
    using x by (simp add: case_prod_unfold Let_def)
  show ?case
  proof (cases "k' = k")
    case True
    with IH show ?thesis
      unfolding run using x settle_refused [OF Cons.prems, of a k' t]
        settle_release [OF Cons.prems, of a k' t] settle_holds [OF Cons.prems, of a k' t]
      by (cases "fst (settle a k' t s)") auto
  next
    case False
    with IH show ?thesis
      unfolding run using x settle_frame [OF Cons.prems, of k k'] by simp
  qed
qed simp

end

subsection \<open>Claiming rows under a fresh token\<close>

locale claim_port = lease_port inv holds prompt settle
  for inv :: "'s \<Rightarrow> bool" and holds :: "'s \<Rightarrow> string \<Rightarrow> string \<Rightarrow> bool" and prompt :: "'o \<Rightarrow> bool"
    and settle :: "'o \<Rightarrow> string \<Rightarrow> string \<Rightarrow> 's \<Rightarrow> bool \<times> 's" +
  fixes claim :: "'c \<Rightarrow> string \<Rightarrow> 's \<Rightarrow> string list \<times> 's"
  assumes inv_claim: "inv s \<Longrightarrow> inv (snd (claim c t s))"
    and claim_grants:
      "inv s \<Longrightarrow> k \<in> set (fst (claim c t s)) \<Longrightarrow> holds (snd (claim c t s)) k t' \<longleftrightarrow> t' = t"
    and claim_others:
      "inv s \<Longrightarrow> k \<notin> set (fst (claim c t s)) \<Longrightarrow> holds (snd (claim c t s)) k t' \<Longrightarrow> holds s k t'"
begin

lemma claim_then_settle:
  assumes "inv s" and "k \<in> set (fst (claim c t s))" and "prompt a"
  shows "fst (settle a k t (snd (claim c t s)))"
  using assms by (simp add: settle_prompt inv_claim claim_grants)

text \<open>Fencing: once a row has been claimed again, the earlier holder's settlement is refused and
  changes nothing.\<close>

lemma fenced_after_reclaim:
  assumes "inv s" and "k \<in> set (fst (claim c t s))" and "t' \<noteq> t"
  shows "settle a k t' (snd (claim c t s)) = (False, snd (claim c t s))"
  using assms by (intro settle_stale_pair) (simp_all add: inv_claim claim_grants)

end

subsection \<open>Tables whose settlements are guarded updates\<close>

text \<open>
  The way the code keeps the contract: the settlement is an \<open>UPDATE\<close> guarded by the id, the live
  statuses and the token, which clears the token or leaves the live statuses; the claim is an
  \<open>UPDATE\<close> of the selected ids after a clean-up that makes no row live.
\<close>

definition row_held :: "('r \<Rightarrow> string) \<Rightarrow> ('r \<Rightarrow> bool) \<Rightarrow> ('r \<Rightarrow> string option) \<Rightarrow> string \<Rightarrow> string \<Rightarrow> 'r \<Rightarrow> bool" where
  "row_held rid live tok k t r \<longleftrightarrow> rid r = k \<and> live r \<and> tok r = Some t"

definition table_holds ::
  "('r \<Rightarrow> string) \<Rightarrow> ('r \<Rightarrow> bool) \<Rightarrow> ('r \<Rightarrow> string option) \<Rightarrow> 'r list \<Rightarrow> string \<Rightarrow> string \<Rightarrow> bool" where
  "table_holds rid live tok rows k t \<longleftrightarrow> (\<exists>r \<in> set rows. row_held rid live tok k t r)"

locale guarded_table =
  fixes rid :: "'r \<Rightarrow> string" and live :: "'r \<Rightarrow> bool" and tok :: "'r \<Rightarrow> string option"
    and tinv :: "'r list \<Rightarrow> bool"
    and accepts :: "'o \<Rightarrow> 'r \<Rightarrow> bool"
    and tsettle :: "'o \<Rightarrow> string \<Rightarrow> string \<Rightarrow> 'r list \<Rightarrow> bool \<times> 'r list"
  assumes tinv_distinct: "tinv rows \<Longrightarrow> distinct (map rid rows)"
    and tinv_settle: "tinv rows \<Longrightarrow> tinv (snd (tsettle a k t rows))"
    and accepts_live: "accepts a r \<Longrightarrow> live r"
    and tsettle_form: "tinv rows \<Longrightarrow> \<exists>f.
      tsettle a k t rows = (table_holds rid (accepts a) tok rows k t,
                            update_where (row_held rid (accepts a) tok k t) f rows)
      \<and> (\<forall>r. rid (f r) = rid r \<and> (live (f r) \<longrightarrow> tok (f r) = None))"
begin

lemma accepted_held: "row_held rid (accepts a) tok k t r \<Longrightarrow> row_held rid live tok k t r"
  by (auto simp: row_held_def intro: accepts_live)

lemma settle_formE:
  assumes "tinv rows"
  obtains f where "tsettle a k t rows = (table_holds rid (accepts a) tok rows k t,
      update_where (row_held rid (accepts a) tok k t) f rows)"
    and "\<And>r. rid (f r) = rid r" and "\<And>r. live (f r) \<Longrightarrow> tok (f r) = None"
  using tsettle_form [OF assms, of a k t] by auto

lemma released:
  assumes "tinv rows" and "fst (tsettle a k t rows)"
  shows "\<not> table_holds rid live tok (snd (tsettle a k t rows)) k t'"
proof -
  obtain f where f: "tsettle a k t rows = (table_holds rid (accepts a) tok rows k t,
      update_where (row_held rid (accepts a) tok k t) f rows)"
    and fr: "\<And>r. rid (f r) = rid r" "\<And>r. live (f r) \<Longrightarrow> tok (f r) = None"
    using settle_formE [OF assms(1), of a k t] by metis
  obtain r where r: "r \<in> set rows" "row_held rid (accepts a) tok k t r"
    using assms(2) by (auto simp: f table_holds_def)
  have same: "s = r" if "s \<in> set rows" "rid s = k" for s
    using that r distinct_map_eq [OF tinv_distinct [OF assms(1)], of s r] by (simp add: row_held_def)
  have "\<not> row_held rid live tok k t' (if row_held rid (accepts a) tok k t s then f s else s)"
    if "s \<in> set rows" for s
    using same [OF that] r(2) fr by (cases "rid s = k") (auto simp: row_held_def)
  then show ?thesis by (auto simp: f table_holds_def bex_update_where)
qed

lemma kept_elsewhere:
  assumes "tinv rows" and "k' \<noteq> k"
  shows "table_holds rid live tok (snd (tsettle a k t rows)) k' t' = table_holds rid live tok rows k' t'"
proof -
  obtain f where f: "tsettle a k t rows = (table_holds rid (accepts a) tok rows k t,
      update_where (row_held rid (accepts a) tok k t) f rows)"
    and fr: "\<And>r. rid (f r) = rid r"
    using settle_formE [OF assms(1), of a k t] by metis
  have "row_held rid live tok k' t' (if row_held rid (accepts a) tok k t s then f s else s)
      = row_held rid live tok k' t' s" for s
    using assms(2) fr [of s] by (auto simp: row_held_def)
  then show ?thesis by (simp add: f table_holds_def bex_update_where)
qed

end

sublocale guarded_table \<subseteq> lease_port tinv "table_holds rid live tok"
  "\<lambda>a. \<forall>r. live r \<longrightarrow> accepts a r" tsettle
proof (unfold_locales, goal_cases)
  case (1 rows a k t)
  then show ?case by (rule tinv_settle)
next
  case (2 rows a k t)
  obtain f where "tsettle a k t rows = (table_holds rid (accepts a) tok rows k t,
      update_where (row_held rid (accepts a) tok k t) f rows)"
    using settle_formE [OF 2(1), of a k t] by metis
  with 2(2) show ?case by (auto simp: table_holds_def intro: accepted_held)
next
  case (3 rows a k t)
  obtain f where "tsettle a k t rows = (table_holds rid (accepts a) tok rows k t,
      update_where (row_held rid (accepts a) tok k t) f rows)"
    using settle_formE [OF 3(1), of a k t] by metis
  with 3(2,3) show ?case by (auto simp: table_holds_def row_held_def)
next
  case (4 rows a k t)
  obtain f where "tsettle a k t rows = (table_holds rid (accepts a) tok rows k t,
      update_where (row_held rid (accepts a) tok k t) f rows)"
    using settle_formE [OF 4(1), of a k t] by metis
  with 4(2) show ?case by (auto simp: table_holds_def update_where_id)
next
  case (5 rows a k t t')
  then show ?case by (rule released)
next
  case (6 rows k' k a t t')
  then show ?case by (rule kept_elsewhere)
qed

locale guarded_claims = guarded_table rid live tok tinv accepts tsettle
  for rid :: "'r \<Rightarrow> string" and live :: "'r \<Rightarrow> bool" and tok :: "'r \<Rightarrow> string option"
    and tinv :: "'r list \<Rightarrow> bool" and accepts :: "'o \<Rightarrow> 'r \<Rightarrow> bool"
    and tsettle :: "'o \<Rightarrow> string \<Rightarrow> string \<Rightarrow> 'r list \<Rightarrow> bool \<times> 'r list" +
  fixes tclaim :: "'c \<Rightarrow> string \<Rightarrow> 'r list \<Rightarrow> string list \<times> 'r list"
  assumes tinv_claim: "tinv rows \<Longrightarrow> tinv (snd (tclaim c t rows))"
    and tclaim_form: "tinv rows \<Longrightarrow> \<exists>rows1 f.
      snd (tclaim c t rows) = update_where (\<lambda>r. rid r \<in> set (fst (tclaim c t rows))) f rows1
      \<and> map rid rows1 = map rid rows
      \<and> (\<forall>r \<in> set rows1. live r \<longrightarrow> r \<in> set rows)
      \<and> (\<forall>r. rid (f r) = rid r \<and> live (f r) \<and> tok (f r) = Some t)"
    and tclaim_ids: "tinv rows \<Longrightarrow> set (fst (tclaim c t rows)) \<subseteq> rid ` set rows"

sublocale guarded_claims \<subseteq> claim_port tinv "table_holds rid live tok"
  "\<lambda>a. \<forall>r. live r \<longrightarrow> accepts a r" tsettle tclaim
proof (unfold_locales, goal_cases)
  case (1 rows c t)
  then show ?case by (rule tinv_claim)
next
  case (2 rows k c t t')
  obtain rows1 f where
    snd: "snd (tclaim c t rows) = update_where (\<lambda>r. rid r \<in> set (fst (tclaim c t rows))) f rows1"
    and ids: "map rid rows1 = map rid rows"
    and fr: "\<And>r. rid (f r) = rid r \<and> live (f r) \<and> tok (f r) = Some t"
    using tclaim_form [OF 2(1), of c t] by blast
  have "k \<in> set (map rid rows1)" using ids tclaim_ids [OF 2(1), of c t] 2(2) by auto
  then obtain r where r: "r \<in> set rows1" "rid r = k" by auto
  have "table_holds rid live tok (snd (tclaim c t rows)) k t' \<longleftrightarrow> (\<exists>r \<in> set rows1. rid r = k \<and> t' = t)"
    unfolding table_holds_def snd bex_update_where
    using 2(2) fr by (intro bex_cong refl) (auto simp: row_held_def)
  with r show ?case by auto
next
  case (3 rows k c t t')
  obtain rows1 f where
    snd: "snd (tclaim c t rows) = update_where (\<lambda>r. rid r \<in> set (fst (tclaim c t rows))) f rows1"
    and live: "\<And>r. r \<in> set rows1 \<Longrightarrow> live r \<Longrightarrow> r \<in> set rows"
    and fr: "\<And>r. rid (f r) = rid r"
    using tclaim_form [OF 3(1), of c t] by blast
  have "\<exists>r \<in> set rows1. row_held rid live tok k t' r"
    using 3(2,3) fr unfolding table_holds_def snd bex_update_where
    by (auto simp: row_held_def split: if_splits)
  with live show ?case by (auto simp: table_holds_def row_held_def)
qed

end
