(* ===== verification/Event_Queue.thy ===== *)
theory Event_Queue
  imports Idempotent_Port Lease_Port
begin

section \<open>The durable event queue\<close>

text \<open>
  Models \<open>queue/durable.py\<close> on the table \<open>event_queue\<close> (migrations 001, 011 and 017) and the row
  decoding of \<open>queue/sqlite.py\<close>.  \<open>uuid.uuid4().hex\<close> and \<open>int(time.time())\<close> are the arguments
  \<open>uuid\<close> and \<open>now\<close>.
\<close>

subsection \<open>Rows\<close>

datatype ev_state = EvQueued | EvLeased | EvDone | EvRetrying | EvDeadLetter

record event_row =
  ev_id :: string
  ev_tenant_id :: string
  ev_recipient :: string
  ev_message_type :: string
  ev_payload_json :: stored_json
  ev_status :: ev_state
  ev_priority :: int
  ev_run_after :: int
  ev_lease_owner :: "string option"
  ev_lease_until :: "int option"
  ev_lease_token :: "string option"
  ev_attempts :: int
  ev_max_attempts :: int
  ev_idempotency_key :: string
  ev_idempotency_fingerprint :: "string option"
  ev_correlation_id :: "string option"
  ev_causation_id :: "string option"
  ev_last_error :: "string option"
  ev_created_at :: int
  ev_updated_at :: int

text \<open>The keyword arguments of \<open>enqueue\<close>.\<close>

record enqueue_args =
  ea_tenant_id :: string
  ea_recipient :: string
  ea_message_type :: string
  ea_payload :: json
  ea_idempotency_key :: string
  ea_priority :: int
  ea_run_after :: "int option"
  ea_max_attempts :: int
  ea_correlation_id :: "string option"
  ea_causation_id :: "string option"

definition opt_int :: "int option \<Rightarrow> json" where
  "opt_int v = (case v of None \<Rightarrow> JNull | Some i \<Rightarrow> JInt i)"

definition enqueue_command :: "enqueue_args \<Rightarrow> json" where
  "enqueue_command a = JObj
    [(''recipient'', JStr (ea_recipient a)),
     (''message_type'', JStr (ea_message_type a)),
     (''payload'', ea_payload a),
     (''priority'', JInt (ea_priority a)),
     (''run_after'', opt_int (ea_run_after a)),
     (''max_attempts'', JInt (ea_max_attempts a)),
     (''correlation_id'', opt_str (ea_correlation_id a)),
     (''causation_id'', opt_str (ea_causation_id a))]"

definition new_event_row :: "(string \<Rightarrow> string) \<Rightarrow> int \<Rightarrow> string \<Rightarrow> enqueue_args \<Rightarrow> event_row" where
  "new_event_row sha now uuid a = \<lparr>
     ev_id = ''evt_'' @ uuid, ev_tenant_id = ea_tenant_id a, ev_recipient = ea_recipient a,
     ev_message_type = ea_message_type a, ev_payload_json = Encoded (ea_payload a),
     ev_status = EvQueued, ev_priority = ea_priority a,
     ev_run_after = (case ea_run_after a of None \<Rightarrow> now | Some t \<Rightarrow> t),
     ev_lease_owner = None, ev_lease_until = None, ev_lease_token = None,
     ev_attempts = 0, ev_max_attempts = ea_max_attempts a,
     ev_idempotency_key = ea_idempotency_key a,
     ev_idempotency_fingerprint = Some (idempotency_fingerprint sha (enqueue_command a)),
     ev_correlation_id = ea_correlation_id a, ev_causation_id = ea_causation_id a,
     ev_last_error = None, ev_created_at = now, ev_updated_at = now\<rparr>"

text \<open>\<open>INSERT\<close> under \<open>PRIMARY KEY(id)\<close> and \<open>UNIQUE(tenant_id, idempotency_key)\<close>.\<close>

definition ev_conflict :: "event_row \<Rightarrow> event_row \<Rightarrow> bool" where
  "ev_conflict n r = (ev_id r = ev_id n \<or>
     (ev_tenant_id r = ev_tenant_id n \<and> ev_idempotency_key r = ev_idempotency_key n))"

definition ev_insert :: "event_row \<Rightarrow> event_row list \<Rightarrow> event_row list result" where
  "ev_insert n rows = (if \<exists>r \<in> set rows. ev_conflict n r then Inl IntegrityError else Inr (rows @ [n]))"

definition ev_by_key :: "string \<Rightarrow> string \<Rightarrow> event_row \<Rightarrow> bool" where
  "ev_by_key tenant key r = (ev_tenant_id r = tenant \<and> ev_idempotency_key r = key)"

definition event_replay_matches :: "(string \<Rightarrow> string) \<Rightarrow> enqueue_args \<Rightarrow> event_row \<Rightarrow> bool" where
  "event_replay_matches sha a existing = (case ev_idempotency_fingerprint existing of
     Some stored \<Rightarrow> stored = idempotency_fingerprint sha (enqueue_command a)
   | None \<Rightarrow>
       ev_recipient existing = ea_recipient a
       \<and> ev_message_type existing = ea_message_type a
       \<and> stored_json_matches (Some (ev_payload_json existing)) (ea_payload a)
       \<and> ev_priority existing = ea_priority a
       \<and> ev_max_attempts existing = ea_max_attempts a
       \<and> ev_correlation_id existing = ea_correlation_id a
       \<and> ev_causation_id existing = ea_causation_id a)"

definition enqueue ::
  "(string \<Rightarrow> string) \<Rightarrow> int \<Rightarrow> string \<Rightarrow> enqueue_args \<Rightarrow> event_row list
    \<Rightarrow> (string option \<times> event_row list) result" where
  "enqueue sha now uuid a rows =
     (let n = new_event_row sha now uuid a in
      case ev_insert n rows of
        Inr rows' \<Rightarrow> Inr (Some (ev_id n), rows')
      | Inl e \<Rightarrow>
          (case fetchone (ev_by_key (ea_tenant_id a) (ea_idempotency_key a)) rows of
             None \<Rightarrow> Inl e
           | Some existing \<Rightarrow>
               rbind (require_idempotent_replay (event_replay_matches sha a existing)
                        ''event'' (ea_idempotency_key a) (ev_id existing))
                 (\<lambda>_. Inr (None, rows))))"

subsection \<open>Claiming\<close>

text \<open>The keyword arguments of \<open>claim_due\<close>.\<close>

record claim_args =
  ca_recipient :: string
  ca_limit :: int
  ca_lease_owner :: string
  ca_lease_seconds :: int
  ca_recover_exhausted :: bool
  ca_tenant_id :: "string option"

definition ev_release :: "ev_state \<Rightarrow> int \<Rightarrow> event_row \<Rightarrow> event_row" where
  "ev_release st now r = r\<lparr>ev_status := st, ev_lease_owner := None, ev_lease_until := None,
     ev_lease_token := None, ev_updated_at := now\<rparr>"

definition ev_exhausted :: "claim_args \<Rightarrow> int \<Rightarrow> event_row \<Rightarrow> bool" where
  "ev_exhausted c now r = (ev_recipient r = ca_recipient c \<and> ev_status r = EvLeased
     \<and> null_le (ev_lease_until r) now \<and> ev_attempts r \<ge> ev_max_attempts r
     \<and> \<not> ca_recover_exhausted c \<and> opt_clause (ca_tenant_id c) (ev_tenant_id r))"

definition ev_expire :: "int \<Rightarrow> event_row \<Rightarrow> event_row" where
  "ev_expire now r = (ev_release EvDeadLetter now r)
     \<lparr>ev_last_error := Some ''event lease expired after the maximum number of attempts''\<rparr>"

definition ev_due :: "claim_args \<Rightarrow> int \<Rightarrow> event_row \<Rightarrow> bool" where
  "ev_due c now r = (ev_recipient r = ca_recipient c
     \<and> opt_clause (ca_tenant_id c) (ev_tenant_id r)
     \<and> ev_run_after r \<le> now
     \<and> (ev_status r = EvQueued \<or> ev_status r = EvRetrying
        \<or> (ev_status r = EvLeased \<and> null_le (ev_lease_until r) now
           \<and> (ev_attempts r < ev_max_attempts r \<or> ca_recover_exhausted c))))"

definition ev_order :: "event_row \<Rightarrow> int \<times> int" where
  "ev_order r = (ev_priority r, ev_created_at r)"

definition ev_lease :: "claim_args \<Rightarrow> int \<Rightarrow> string \<Rightarrow> event_row \<Rightarrow> event_row" where
  "ev_lease c now token r = r\<lparr>ev_status := EvLeased, ev_lease_owner := Some (ca_lease_owner c),
     ev_lease_until := Some (now + ca_lease_seconds c), ev_lease_token := Some token,
     ev_attempts := ev_attempts r + 1, ev_updated_at := now\<rparr>"

text \<open>The transaction of \<open>claim_due\<close>, and the whole function with its argument checks.\<close>

definition claim_txn ::
  "claim_args \<Rightarrow> int \<Rightarrow> string \<Rightarrow> event_row list \<Rightarrow> event_row list \<times> event_row list" where
  "claim_txn c now token rows =
     (let rows1 = update_where (ev_exhausted c now) (ev_expire now) rows;
          ids = map ev_id (take (nat (ca_limit c)) (order_by ev_order (select_where (ev_due c now) rows1)))
      in if ids = [] then ([], rows1)
         else let rows2 = update_where (\<lambda>r. ev_id r \<in> set ids) (ev_lease c now token) rows1
              in (order_by ev_order (select_where (\<lambda>r. ev_id r \<in> set ids) rows2), rows2))"

definition claim_due ::
  "claim_args \<Rightarrow> int \<Rightarrow> string \<Rightarrow> event_row list \<Rightarrow> (event_row list \<times> event_row list) result" where
  "claim_due c now token rows =
     (if ca_limit c < 1 then Inl (ValueError ''limit must be positive'')
      else if ca_lease_seconds c < 1 then Inl (ValueError ''lease_seconds must be positive'')
      else if given_blank (ca_tenant_id c)
        then Inl (ValueError ''tenant_id must be non-empty when provided'')
      else Inr (claim_txn c now token rows))"

subsection \<open>Settling and renewing\<close>

definition ev_held :: "string \<Rightarrow> string \<Rightarrow> event_row \<Rightarrow> bool" where
  "ev_held event_id token r =
     (ev_id r = event_id \<and> ev_status r = EvLeased \<and> ev_lease_token r = Some token)"

definition mark_done :: "int \<Rightarrow> string \<Rightarrow> string \<Rightarrow> event_row list \<Rightarrow> bool \<times> event_row list" where
  "mark_done now event_id token rows =
     (rowcount (ev_held event_id token) rows = 1,
      update_where (ev_held event_id token) (ev_release EvDone now) rows)"

definition mark_dead_letter ::
  "int \<Rightarrow> string \<Rightarrow> string \<Rightarrow> string \<Rightarrow> event_row list \<Rightarrow> bool \<times> event_row list" where
  "mark_dead_letter now event_id token err rows =
     (rowcount (ev_held event_id token) rows = 1,
      update_where (ev_held event_id token)
        (\<lambda>r. (ev_release EvDeadLetter now r)\<lparr>ev_last_error := Some err\<rparr>) rows)"

definition renew_lease ::
  "int \<Rightarrow> int \<Rightarrow> string \<Rightarrow> string \<Rightarrow> event_row list \<Rightarrow> (bool \<times> event_row list) result" where
  "renew_lease now lease_seconds event_id token rows =
     (if lease_seconds < 1 then Inl (ValueError ''lease_seconds must be positive'')
      else let p = (\<lambda>r. ev_held event_id token r \<and> null_gt (ev_lease_until r) now)
           in Inr (rowcount p rows > 0,
                   update_where p (\<lambda>r. r\<lparr>ev_lease_until := Some (now + lease_seconds),
                                        ev_updated_at := now\<rparr>) rows))"

definition mark_retry ::
  "int \<Rightarrow> int \<Rightarrow> string \<Rightarrow> string \<Rightarrow> string \<Rightarrow> event_row list \<Rightarrow> ev_state option \<times> event_row list" where
  "mark_retry now run_after err event_id token rows =
     (case fetchone (ev_held event_id token) rows of
        None \<Rightarrow> (None, rows)
      | Some row \<Rightarrow>
          (let new_status = (if ev_attempts row \<ge> ev_max_attempts row then EvDeadLetter else EvRetrying);
               rows' = update_where (ev_held event_id token)
                 (\<lambda>r. (ev_release new_status now r)\<lparr>ev_run_after := run_after, ev_last_error := Some err\<rparr>) rows
           in if rowcount (ev_held event_id token) rows \<noteq> 1 then (None, rows')
              else (Some new_status, rows')))"

subsection \<open>Reading\<close>

record queue_event =
  qe_id :: string
  qe_tenant_id :: string
  qe_recipient :: string
  qe_message_type :: string
  qe_payload :: json
  qe_lease_token :: "string option"
  qe_attempts :: int
  qe_max_attempts :: int
  qe_correlation_id :: "string option"
  qe_causation_id :: "string option"

definition decode_payload :: "stored_json \<Rightarrow> json" where
  "decode_payload p = (case p of
     Encoded v \<Rightarrow> v
   | Raw t \<Rightarrow> if t = [] then JObj [] else JObj [(''_raw'', JStr t)])"

definition row_to_queue_event :: "event_row \<Rightarrow> queue_event" where
  "row_to_queue_event r = \<lparr>qe_id = ev_id r, qe_tenant_id = ev_tenant_id r,
     qe_recipient = ev_recipient r, qe_message_type = ev_message_type r,
     qe_payload = decode_payload (ev_payload_json r), qe_lease_token = ev_lease_token r,
     qe_attempts = ev_attempts r, qe_max_attempts = ev_max_attempts r,
     qe_correlation_id = ev_correlation_id r, qe_causation_id = ev_causation_id r\<rparr>"

subsection \<open>The invariant of the table\<close>

definition ev_row_ok :: "event_row \<Rightarrow> bool" where
  "ev_row_ok r \<longleftrightarrow>
     (ev_status r = EvLeased \<longrightarrow> ev_lease_owner r \<noteq> None \<and> ev_lease_until r \<noteq> None
        \<and> ev_lease_token r \<noteq> None \<and> 1 \<le> ev_attempts r)
   \<and> (ev_status r \<noteq> EvLeased \<longrightarrow> ev_lease_owner r = None \<and> ev_lease_until r = None
        \<and> ev_lease_token r = None)
   \<and> (ev_status r = EvQueued \<longrightarrow> ev_attempts r = 0)
   \<and> (ev_status r = EvRetrying \<longrightarrow> 1 \<le> ev_attempts r \<and> ev_attempts r < ev_max_attempts r)
   \<and> (ev_status r = EvDone \<or> ev_status r = EvDeadLetter \<longrightarrow> 1 \<le> ev_attempts r)"

definition ev_inv :: "event_row list \<Rightarrow> bool" where
  "ev_inv rows \<longleftrightarrow> distinct (map ev_id rows)
     \<and> distinct (map (\<lambda>r. (ev_tenant_id r, ev_idempotency_key r)) rows)
     \<and> (\<forall>r \<in> set rows. ev_row_ok r)"

text \<open>The columns that no operation writes after the insert.\<close>

definition ev_envelope :: "event_row \<Rightarrow> _" where
  "ev_envelope r = (ev_id r, ev_tenant_id r, ev_recipient r, ev_message_type r, ev_payload_json r,
     ev_priority r, ev_max_attempts r, ev_idempotency_key r, ev_idempotency_fingerprint r,
     ev_correlation_id r, ev_causation_id r, ev_created_at r)"

lemmas ev_row_updates = ev_release_def ev_expire_def ev_lease_def

lemma ev_envelope_cong:
  "ev_envelope r = ev_envelope s \<Longrightarrow> ev_id r = ev_id s"
  "ev_envelope r = ev_envelope s \<Longrightarrow> ev_tenant_id r = ev_tenant_id s"
  "ev_envelope r = ev_envelope s \<Longrightarrow> ev_idempotency_key r = ev_idempotency_key s"
  by (simp_all add: ev_envelope_def)

text \<open>Every statement but \<open>INSERT\<close> is an \<open>UPDATE\<close> that keeps the envelope; it keeps the invariant
  when it keeps the row condition.\<close>

lemma ev_inv_update:
  assumes "ev_inv rows" and "\<And>r. ev_envelope (f r) = ev_envelope r"
    and "\<And>r. r \<in> set rows \<Longrightarrow> p r \<Longrightarrow> ev_row_ok r \<Longrightarrow> ev_row_ok (f r)"
  shows "ev_inv (update_where p f rows)"
proof -
  have "map ev_id (update_where p f rows) = map ev_id rows"
    by (rule map_update_where) (rule ev_envelope_cong(1) [OF assms(2)])
  moreover have "map (\<lambda>r. (ev_tenant_id r, ev_idempotency_key r)) (update_where p f rows)
      = map (\<lambda>r. (ev_tenant_id r, ev_idempotency_key r)) rows"
    by (rule map_update_where) (simp add: ev_envelope_cong(2,3) [OF assms(2)])
  moreover have "\<forall>r \<in> set (update_where p f rows). ev_row_ok r"
    using assms(1,3) by (intro update_where_preserves) (auto simp: ev_inv_def)
  ultimately show ?thesis using assms(1) by (simp add: ev_inv_def)
qed

lemma ev_envelope_updates [simp]:
  "ev_envelope (ev_release st now r) = ev_envelope r"
  "ev_envelope (ev_expire now r) = ev_envelope r"
  "ev_envelope (ev_lease c now t r) = ev_envelope r"
  "ev_envelope (r\<lparr>ev_last_error := e\<rparr>) = ev_envelope r"
  "ev_envelope (r\<lparr>ev_run_after := n\<rparr>) = ev_envelope r"
  "ev_envelope (r\<lparr>ev_lease_until := u\<rparr>) = ev_envelope r"
  "ev_envelope (r\<lparr>ev_status := st\<rparr>) = ev_envelope r"
  "ev_envelope (r\<lparr>ev_lease_owner := o'\<rparr>) = ev_envelope r"
  "ev_envelope (r\<lparr>ev_lease_token := u'\<rparr>) = ev_envelope r"
  "ev_envelope (r\<lparr>ev_attempts := m\<rparr>) = ev_envelope r"
  "ev_envelope (r\<lparr>ev_updated_at := n\<rparr>) = ev_envelope r"
  by (simp_all add: ev_envelope_def ev_row_updates)

lemma ev_inv_distinct [dest]: "ev_inv rows \<Longrightarrow> distinct (map ev_id rows)"
  by (simp add: ev_inv_def)

lemma ev_inv_enqueue:
  assumes "ev_inv rows" and "enqueue sha now uuid a rows = Inr (res, rows')"
  shows "ev_inv rows'"
proof (cases "ev_insert (new_event_row sha now uuid a) rows")
  case (Inl e)
  with assms(2) have "rows' = rows"
    by (auto simp: enqueue_def Let_def rbind_eq_Inr split: option.splits)
  with assms(1) show ?thesis by simp
next
  case (Inr new)
  let ?n = "new_event_row sha now uuid a"
  from Inr assms(2) have rows': "rows' = rows @ [?n]" and "\<not> (\<exists>r \<in> set rows. ev_conflict ?n r)"
    by (auto simp: enqueue_def Let_def ev_insert_def split: if_splits)
  moreover have "ev_row_ok ?n" by (simp add: ev_row_ok_def new_event_row_def)
  ultimately show ?thesis
    using assms(1) by (auto simp: ev_inv_def ev_conflict_def)
qed

lemma ev_row_ok_lease: "ev_row_ok r \<Longrightarrow> ev_row_ok (ev_lease c now t r)"
  by (cases "ev_status r") (auto simp: ev_row_ok_def ev_lease_def)

lemma ev_row_ok_release:
  "ev_row_ok r \<Longrightarrow> ev_status r = EvLeased \<Longrightarrow> st = EvDone \<or> st = EvDeadLetter
    \<Longrightarrow> ev_row_ok (ev_release st now r)"
  by (auto simp: ev_row_ok_def ev_release_def)

lemma ev_row_ok_other_columns [simp]:
  "ev_row_ok (r\<lparr>ev_last_error := e\<rparr>) = ev_row_ok r"
  "ev_row_ok (r\<lparr>ev_run_after := n\<rparr>) = ev_row_ok r"
  "ev_row_ok (r\<lparr>ev_updated_at := n\<rparr>) = ev_row_ok r"
  by (simp_all add: ev_row_ok_def)

lemma ev_inv_claim:
  assumes "ev_inv rows"
  shows "ev_inv (snd (claim_txn c now t rows))"
proof -
  let ?rows1 = "update_where (ev_exhausted c now) (ev_expire now) rows"
  have "ev_inv ?rows1"
    using assms
    by (rule ev_inv_update) (auto simp: ev_expire_def ev_exhausted_def intro: ev_row_ok_release)
  moreover from this have "ev_inv (update_where p (ev_lease c now t) ?rows1)" for p
    by (rule ev_inv_update) (auto intro: ev_row_ok_lease)
  ultimately show ?thesis by (simp add: claim_txn_def Let_def)
qed

lemma ev_inv_done: "ev_inv rows \<Longrightarrow> ev_inv (snd (mark_done now k t rows))"
  unfolding mark_done_def snd_conv
  by (rule ev_inv_update) (auto simp: ev_held_def intro: ev_row_ok_release)

lemma ev_inv_dead: "ev_inv rows \<Longrightarrow> ev_inv (snd (mark_dead_letter now k t e rows))"
  unfolding mark_dead_letter_def snd_conv
  by (rule ev_inv_update) (auto simp: ev_held_def intro: ev_row_ok_release)

lemma ev_inv_renew:
  assumes "ev_inv rows" and "renew_lease now secs k t rows = Inr (b, rows')"
  shows "ev_inv rows'"
proof -
  let ?p = "\<lambda>r. ev_held k t r \<and> null_gt (ev_lease_until r) now"
  let ?f = "\<lambda>r. r\<lparr>ev_lease_until := Some (now + secs), ev_updated_at := now\<rparr>"
  have "rows' = update_where ?p ?f rows"
    using assms(2) by (simp add: renew_lease_def Let_def split: if_splits)
  moreover have "ev_inv (update_where ?p ?f rows)"
    using assms(1) by (rule ev_inv_update) (auto simp: ev_held_def ev_row_ok_def ev_envelope_def)
  ultimately show ?thesis by simp
qed

lemma ev_fetch_held:
  assumes "ev_inv rows" and "r \<in> set rows" and "ev_held k t r"
  shows "fetchone (ev_held k t) rows = Some r"
  using assms by (intro fetchone_pk [where k = ev_id]) (auto simp: ev_held_def)

lemma ev_rowcount_held:
  assumes "ev_inv rows"
  shows "rowcount (ev_held k t) rows = 1 \<longleftrightarrow> (\<exists>r \<in> set rows. ev_held k t r)"
  using assms by (intro rowcount_pk_eq_1 [where k = ev_id and x = k]) (auto simp: ev_held_def)

lemma ev_inv_retry:
  assumes "ev_inv rows"
  shows "ev_inv (snd (mark_retry now ra e k t rows))"
proof (cases "fetchone (ev_held k t) rows")
  case None
  then show ?thesis using assms by (simp add: mark_retry_def)
next
  case (Some row)
  let ?st = "if ev_attempts row \<ge> ev_max_attempts row then EvDeadLetter else EvRetrying"
  let ?f = "\<lambda>r. (ev_release ?st now r)\<lparr>ev_run_after := ra, ev_last_error := Some e\<rparr>"
  have same: "r = row" if "r \<in> set rows" "ev_held k t r" for r
    using ev_fetch_held [OF assms that] Some by simp
  have "ev_inv (update_where (ev_held k t) ?f rows)"
    using assms
    by (rule ev_inv_update)
       (auto dest: same simp: ev_row_ok_def ev_release_def ev_held_def)
  then show ?thesis using Some by (simp add: mark_retry_def Let_def)
qed

subsection \<open>What a claim returns\<close>

lemma ev_due_after_expire:
  "select_where (ev_due c now) (update_where (ev_exhausted c now) (ev_expire now) rows)
    = select_where (ev_due c now) rows"
  unfolding select_where_def
  by (induction rows) (auto simp: ev_due_def ev_exhausted_def ev_expire_def ev_release_def)

lemma ev_id_updates [simp]:
  "ev_id (ev_release st now r) = ev_id r" "ev_id (ev_expire now r) = ev_id r"
  "ev_id (ev_lease c now t r) = ev_id r"
  by (simp_all add: ev_row_updates)

lemma ev_order_lease [simp]: "ev_order (ev_lease c now t r) = ev_order r"
  by (simp add: ev_order_def ev_lease_def)

definition ev_candidates :: "claim_args \<Rightarrow> int \<Rightarrow> event_row list \<Rightarrow> event_row list" where
  "ev_candidates c now rows = take (nat (ca_limit c)) (order_by ev_order (select_where (ev_due c now) rows))"

text \<open>The leased batch is the first \<open>limit\<close> due rows in the order \<open>priority, created_at, rowid\<close>.\<close>

lemma claim_txn_result:
  assumes "distinct (map ev_id rows)"
  shows "fst (claim_txn c now t rows) = map (ev_lease c now t) (ev_candidates c now rows)"
proof -
  let ?rows1 = "update_where (ev_exhausted c now) (ev_expire now) rows"
  have "distinct (map ev_id ?rows1)" using assms by simp
  then show ?thesis
    using claim_update_select [where i = ev_id and f = "ev_lease c now t" and k = ev_order
        and rows = ?rows1 and n = "nat (ca_limit c)" and p = "ev_due c now"]
    by (auto simp: claim_txn_def Let_def ev_candidates_def ev_due_after_expire)
qed

lemma claim_txn_rows:
  "snd (claim_txn c now t rows) =
     update_where (\<lambda>r. ev_id r \<in> ev_id ` set (ev_candidates c now rows)) (ev_lease c now t)
       (update_where (ev_exhausted c now) (ev_expire now) rows)"
  by (auto simp: claim_txn_def Let_def ev_candidates_def ev_due_after_expire intro!: update_where_id [symmetric])

lemma ev_candidates_due: "r \<in> set (ev_candidates c now rows) \<Longrightarrow> r \<in> set rows \<and> ev_due c now r"
  using set_take_subset by (fastforce simp: ev_candidates_def select_where_def)

subsection \<open>The queue keeps the lease contract\<close>

abbreviation ev_live :: "event_row \<Rightarrow> bool" where
  "ev_live r \<equiv> ev_status r = EvLeased"

abbreviation ev_holds :: "event_row list \<Rightarrow> string \<Rightarrow> string \<Rightarrow> bool" where
  "ev_holds \<equiv> table_holds ev_id ev_live ev_lease_token"

lemma ev_held_row_held: "ev_held k t = row_held ev_id ev_live ev_lease_token k t"
  by (simp add: fun_eq_iff ev_held_def row_held_def)

lemma ev_holds_iff: "ev_holds rows k t \<longleftrightarrow> (\<exists>r \<in> set rows. ev_held k t r)"
  by (simp add: table_holds_def ev_held_row_held)

datatype ev_settlement = SettleDone int | SettleDead int string | SettleRetry int int string

fun ev_settle :: "ev_settlement \<Rightarrow> string \<Rightarrow> string \<Rightarrow> event_row list \<Rightarrow> bool \<times> event_row list" where
  "ev_settle (SettleDone now) k t rows = mark_done now k t rows"
| "ev_settle (SettleDead now err) k t rows = mark_dead_letter now k t err rows"
| "ev_settle (SettleRetry now ra err) k t rows =
     (let (st, rows') = mark_retry now ra err k t rows in (st \<noteq> None, rows'))"

definition ev_claim_ids :: "claim_args \<times> int \<Rightarrow> string \<Rightarrow> event_row list \<Rightarrow> string list \<times> event_row list" where
  "ev_claim_ids cn t rows = (let (claimed, rows') = claim_txn (fst cn) (snd cn) t rows in (map ev_id claimed, rows'))"

lemma mark_retry_eq:
  assumes "ev_inv rows"
  shows "mark_retry now ra err k t rows =
    (case fetchone (ev_held k t) rows of
       None \<Rightarrow> (None, rows)
     | Some row \<Rightarrow>
        (let st = (if ev_attempts row \<ge> ev_max_attempts row then EvDeadLetter else EvRetrying)
         in (Some st, update_where (ev_held k t)
              (\<lambda>r. (ev_release st now r)\<lparr>ev_run_after := ra, ev_last_error := Some err\<rparr>) rows)))"
proof (cases "fetchone (ev_held k t) rows")
  case (Some row)
  then have "rowcount (ev_held k t) rows = 1"
    using ev_rowcount_held [OF assms, of k t] fetchone_SomeD by metis
  with Some show ?thesis by (simp add: mark_retry_def Let_def)
qed (simp add: mark_retry_def)

text \<open>Each settlement is one guarded \<open>UPDATE\<close> that clears the token and keeps the envelope.\<close>

lemma ev_settle_form:
  assumes "ev_inv rows"
  shows "\<exists>f. ev_settle a k t rows = (ev_holds rows k t, update_where (ev_held k t) f rows)
    \<and> (\<forall>r. ev_envelope (f r) = ev_envelope r \<and> ev_lease_token (f r) = None)"
proof (cases a)
  case (SettleRetry now ra err)
  show ?thesis
  proof (cases "fetchone (ev_held k t) rows")
    case None
    then have "\<not> ev_held k t r" if "r \<in> set rows" for r
      using that by (simp add: fetchone_None)
    then show ?thesis
      using None SettleRetry update_where_id [of rows "ev_held k t" "ev_release EvDone now"]
      by (intro exI [of _ "ev_release EvDone now"]) (auto simp: mark_retry_def ev_holds_iff ev_release_def)
  next
    case (Some row)
    let ?st = "if ev_attempts row \<ge> ev_max_attempts row then EvDeadLetter else EvRetrying"
    let ?f = "\<lambda>r. (ev_release ?st now r)\<lparr>ev_run_after := ra, ev_last_error := Some err\<rparr>"
    have "ev_settle a k t rows = (ev_holds rows k t, update_where (ev_held k t) ?f rows)"
      using Some fetchone_SomeD [OF Some] SettleRetry
      by (auto simp: mark_retry_eq [OF assms] ev_holds_iff Let_def)
    then show ?thesis by (intro exI [of _ ?f]) (simp add: ev_release_def)
  qed
next
  case (SettleDone now)
  then show ?thesis
    using ev_rowcount_held [OF assms, of k t]
    by (intro exI [of _ "ev_release EvDone now"]) (auto simp: mark_done_def ev_holds_iff ev_release_def)
next
  case (SettleDead now err)
  then show ?thesis
    using ev_rowcount_held [OF assms, of k t]
    by (intro exI [of _ "\<lambda>r. (ev_release EvDeadLetter now r)\<lparr>ev_last_error := Some err\<rparr>"])
       (auto simp: mark_dead_letter_def ev_holds_iff ev_release_def)
qed

lemma ev_inv_settle: "ev_inv rows \<Longrightarrow> ev_inv (snd (ev_settle a k t rows))"
  by (cases a) (auto simp: ev_inv_done ev_inv_dead case_prod_unfold Let_def dest: ev_inv_retry)

lemma ev_claim_ids_simps:
  assumes "ev_inv rows"
  shows "fst (ev_claim_ids cn t rows) = map ev_id (ev_candidates (fst cn) (snd cn) rows)"
    and "snd (ev_claim_ids cn t rows) = snd (claim_txn (fst cn) (snd cn) t rows)"
  using claim_txn_result [OF ev_inv_distinct [OF assms], of "fst cn" "snd cn" t]
  by (auto simp: ev_claim_ids_def case_prod_unfold Let_def)

interpretation event_lease: guarded_claims ev_id ev_live ev_lease_token ev_inv "\<lambda>_. ev_live" ev_settle ev_claim_ids
proof (unfold_locales, goal_cases)
  case (4 rows a k t)
  then show ?case
    using ev_settle_form [of rows a k t] by (auto simp: ev_held_row_held dest: ev_envelope_cong)
next
  case (6 rows c t)
  let ?rows1 = "update_where (ev_exhausted (fst c) (snd c)) (ev_expire (snd c)) rows"
  show ?case
    by (rule exI [of _ ?rows1], rule exI [of _ "ev_lease (fst c) (snd c) t"])
       (auto simp: ev_claim_ids_simps [OF 6] claim_txn_rows set_update_where ev_expire_def ev_release_def ev_lease_def)
next
  case (7 rows c t)
  then show ?case by (auto simp: ev_claim_ids_simps dest: ev_candidates_due)
qed (auto simp: ev_inv_settle ev_claim_ids_simps ev_inv_claim)

subsection \<open>Runs of the queue\<close>

datatype ev_op =
    OpEnqueue int string enqueue_args
  | OpClaim claim_args int string
  | OpSettle ev_settlement string string
  | OpRenew int int string string

inductive ev_step :: "(string \<Rightarrow> string) \<Rightarrow> ev_op \<Rightarrow> event_row list \<Rightarrow> event_row list \<Rightarrow> bool" for sha where
  step_enqueue: "enqueue sha now uuid a rows = Inr (res, rows') \<Longrightarrow> ev_step sha (OpEnqueue now uuid a) rows rows'"
| step_claim: "claim_due c now t rows = Inr (claimed, rows') \<Longrightarrow> ev_step sha (OpClaim c now t) rows rows'"
| step_settle: "ev_settle a k t rows = (b, rows') \<Longrightarrow> ev_step sha (OpSettle a k t) rows rows'"
| step_renew: "renew_lease now secs k t rows = Inr (b, rows') \<Longrightarrow> ev_step sha (OpRenew now secs k t) rows rows'"

inductive_simps ev_step_simps:
  "ev_step sha (OpEnqueue now uuid a) rows rows'"
  "ev_step sha (OpClaim c now t) rows rows'"
  "ev_step sha (OpSettle a k t) rows rows'"
  "ev_step sha (OpRenew now secs k t) rows rows'"

lemma claim_due_Inr: "claim_due c now t rows = Inr (claimed, rows') \<Longrightarrow>
    claim_txn c now t rows = (claimed, rows') \<and> 1 \<le> ca_limit c \<and> 1 \<le> ca_lease_seconds c"
  by (auto simp: claim_due_def split: if_splits)

lemma ev_step_inv: "ev_step sha op s t \<Longrightarrow> ev_inv s \<Longrightarrow> ev_inv t"
proof (induction rule: ev_step.induct)
  case (step_claim c now t rows claimed rows')
  then show ?case using ev_inv_claim [of rows c now t] claim_due_Inr [OF step_claim(1)] by simp
next
  case (step_settle a k t rows b rows')
  then show ?case using ev_inv_settle [of rows a k t] by simp
qed (auto intro: ev_inv_enqueue ev_inv_renew)

lemma ev_inv_Nil [simp]: "ev_inv []"
  by (simp add: ev_inv_def)

lemma steps_ev_inv: "steps (ev_step sha) ops s t \<Longrightarrow> ev_inv s \<Longrightarrow> ev_inv t"
  by (erule steps_invariant) (auto intro: ev_step_inv)

text \<open>How a step changes one row: it keeps the envelope, and moves the status along the edges of the
  queue's state machine.\<close>

definition ev_edges :: "(ev_state \<times> ev_state) set" where
  "ev_edges = {(EvQueued, EvLeased), (EvRetrying, EvLeased), (EvLeased, EvLeased),
     (EvLeased, EvDone), (EvLeased, EvRetrying), (EvLeased, EvDeadLetter)}"

definition ev_row_step :: "event_row \<Rightarrow> event_row \<Rightarrow> bool" where
  "ev_row_step r r' \<longleftrightarrow> r' = r \<or> (ev_envelope r' = ev_envelope r \<and> (ev_status r, ev_status r') \<in> ev_edges)"

lemma ev_row_stepI:
  "ev_envelope r' = ev_envelope r \<Longrightarrow> (ev_status r, ev_status r') \<in> ev_edges \<Longrightarrow> ev_row_step r r'"
  by (simp add: ev_row_step_def)

lemma ev_row_step_refl [simp]: "ev_row_step r r"
  by (simp add: ev_row_step_def)

lemma enqueue_rows:
  "enqueue sha now uuid a rows = Inr (res, rows') \<Longrightarrow>
    rows' = rows \<and> res = None \<or> rows' = rows @ [new_event_row sha now uuid a] \<and> res \<noteq> None"
  by (auto simp: enqueue_def Let_def ev_insert_def rbind_eq_Inr split: if_splits option.splits)

lemma ev_settle_rows:
  assumes "ev_inv rows"
  shows "rows_extend ev_row_step rows (snd (ev_settle a k t rows))"
proof -
  have upd: "rows_extend ev_row_step rows (update_where (ev_held k t) f rows)"
    if "\<And>r. ev_envelope (f r) = ev_envelope r" "\<And>r. ev_status (f r) \<in> {EvDone, EvDeadLetter, EvRetrying}" for f
    by (rule rows_extend_update_where) (use that in \<open>auto simp: ev_row_step_def ev_held_def ev_edges_def\<close>)
  show ?thesis
  proof (cases a)
    case (SettleRetry now ra err)
    then show ?thesis
      by (auto simp: mark_retry_eq [OF assms] Let_def rows_extend_refl intro!: upd split: option.split)
         (auto simp: ev_release_def)
  next
    case (SettleDone now)
    then show ?thesis by (auto simp: mark_done_def ev_release_def intro!: upd)
  next
    case (SettleDead now err)
    then show ?thesis by (auto simp: mark_dead_letter_def ev_release_def intro!: upd)
  qed
qed

lemma ev_due_not_exhausted: "ev_due c now r \<Longrightarrow> \<not> ev_exhausted c now r"
  by (auto simp: ev_due_def ev_exhausted_def)

lemma ev_candidate_iff:
  assumes "ev_inv rows" and "r \<in> set rows" and "ev_id r \<in> ev_id ` set (ev_candidates c now rows)"
  shows "ev_due c now r"
proof -
  obtain s where s: "s \<in> set (ev_candidates c now rows)" "ev_id r = ev_id s" using assms(3) by auto
  then have "r = s" using assms by (auto dest: ev_candidates_due intro: distinct_map_eq)
  with s show ?thesis by (auto dest: ev_candidates_due)
qed

text \<open>What a claim does to the table: due rows that were selected are leased, exhausted rows are
  dead-lettered, every other row stays.\<close>

lemma claim_txn_map:
  assumes "ev_inv rows"
  shows "snd (claim_txn c now t rows) = map (\<lambda>r.
      if ev_id r \<in> ev_id ` set (ev_candidates c now rows) then ev_lease c now t r
      else if ev_exhausted c now r then ev_expire now r else r) rows"
  using ev_due_not_exhausted ev_candidate_iff [OF assms, of _ c now]
  by (auto simp: claim_txn_rows update_where_def)

lemma claim_txn_row_steps:
  assumes "ev_inv rows"
  shows "rows_extend ev_row_step rows (snd (claim_txn c now t rows))"
proof -
  have "ev_row_step r (ev_lease c now t r)" if "ev_due c now r" for r
    using that by (auto simp: ev_due_def ev_edges_def ev_lease_def ev_row_step_def)
  moreover have "ev_row_step r (ev_expire now r)" if "ev_exhausted c now r" for r
    using that by (auto simp: ev_exhausted_def ev_edges_def ev_expire_def ev_release_def ev_row_step_def)
  ultimately show ?thesis
    using ev_candidate_iff [OF assms] by (auto simp: claim_txn_map [OF assms] intro!: rows_extend_map)
qed

lemma renew_row_steps:
  assumes "renew_lease now secs k t rows = Inr (b, rows')"
  shows "rows_extend ev_row_step rows rows'"
proof -
  let ?p = "\<lambda>r. ev_held k t r \<and> null_gt (ev_lease_until r) now"
  let ?f = "\<lambda>r. r\<lparr>ev_lease_until := Some (now + secs), ev_updated_at := now\<rparr>"
  have "rows' = update_where ?p ?f rows"
    using assms by (simp add: renew_lease_def Let_def split: if_splits)
  moreover have "rows_extend ev_row_step rows (update_where ?p ?f rows)"
    by (rule rows_extend_update_where) (auto simp: ev_row_step_def ev_held_def ev_edges_def)
  ultimately show ?thesis by simp
qed

text \<open>One step of the queue: the rows of the old table take a row step each, in place, and at most
  one new row is appended.\<close>

lemma ev_step_rows:
  assumes "ev_step sha op s t" and "ev_inv s"
  shows "rows_extend ev_row_step s t"
  using assms(1)
proof cases
  case (step_enqueue now uuid a res)
  then show ?thesis
    by (auto dest!: enqueue_rows intro: rows_extend_refl rows_extend_append)
next
  case (step_claim c now t claimed)
  then show ?thesis
    using claim_txn_row_steps [OF assms(2), of c now t] claim_due_Inr [OF step_claim(2)] by auto
next
  case (step_settle a k t b)
  then show ?thesis using ev_settle_rows [OF assms(2), of a k t] by auto
next
  case (step_renew now secs k t b)
  then show ?thesis by (auto dest: renew_row_steps)
qed

text \<open>Along a run: every old row keeps its place and its envelope, and a row in a final state is
  never written again.\<close>

definition ev_final :: "event_row \<Rightarrow> bool" where
  "ev_final r \<longleftrightarrow> ev_status r = EvDone \<or> ev_status r = EvDeadLetter"

definition ev_row_later :: "event_row \<Rightarrow> event_row \<Rightarrow> bool" where
  "ev_row_later r r' \<longleftrightarrow> ev_envelope r' = ev_envelope r \<and> (ev_final r \<longrightarrow> r' = r)"

lemma ev_row_step_later: "ev_row_step r r' \<Longrightarrow> ev_row_later r r'"
  by (auto simp: ev_row_step_def ev_row_later_def ev_final_def ev_edges_def)

lemma ev_row_later_trans: "ev_row_later r s \<Longrightarrow> ev_row_later s t \<Longrightarrow> ev_row_later r t"
  by (auto simp: ev_row_later_def)

lemma ev_step_later: "ev_step sha op s t \<Longrightarrow> ev_inv s \<Longrightarrow> rows_extend ev_row_later s t"
  by (rule rows_extend_mono [OF ev_step_rows ev_row_step_later])

lemma steps_ev_later:
  assumes "steps (ev_step sha) ops s t" and "ev_inv s"
  shows "rows_extend ev_row_later s t"
  using assms
proof (rule steps_preorder)
  show "rows_extend ev_row_later s s" for s
    by (rule rows_extend_refl) (simp add: ev_row_later_def)
  show "rows_extend ev_row_later s u" if "rows_extend ev_row_later s t" "rows_extend ev_row_later t u" for s t u
    using that ev_row_later_trans by (rule rows_extend_trans)
qed (fact ev_step_inv ev_step_later)+

subsection \<open>The queue keeps the contract of an idempotent command\<close>

definition ev_recorded :: "(string \<Rightarrow> string) \<Rightarrow> enqueue_args \<Rightarrow> event_row list \<Rightarrow> bool" where
  "ev_recorded sha a rows \<longleftrightarrow> (\<exists>r \<in> set rows. ev_by_key (ea_tenant_id a) (ea_idempotency_key a) r
     \<and> event_replay_matches sha a r)"

lemma ev_fetch_by_key:
  assumes "ev_inv rows" and "r \<in> set rows" and "ev_by_key tn key r"
  shows "fetchone (ev_by_key tn key) rows = Some r"
  by (rule fetchone_pk [where k = "\<lambda>r. (ev_tenant_id r, ev_idempotency_key r)"])
     (use assms in \<open>auto simp: ev_inv_def ev_by_key_def\<close>)

lemma ev_insert_recorded:
  "r \<in> set rows \<Longrightarrow> ev_by_key (ea_tenant_id a) (ea_idempotency_key a) r \<Longrightarrow>
    ev_insert (new_event_row sha now uuid a) rows = Inl IntegrityError"
  by (auto simp: ev_insert_def ev_conflict_def ev_by_key_def new_event_row_def)

lemma enqueue_recorded:
  assumes "ev_inv rows" and "ev_recorded sha a rows"
  shows "enqueue sha now uuid a rows = Inr (None, rows)"
proof -
  obtain r where r: "r \<in> set rows" "ev_by_key (ea_tenant_id a) (ea_idempotency_key a) r"
    "event_replay_matches sha a r"
    using assms(2) by (auto simp: ev_recorded_def)
  then show ?thesis
    using ev_fetch_by_key [OF assms(1) r(1,2)] ev_insert_recorded [OF r(1,2), of sha now uuid]
    by (simp add: enqueue_def Let_def require_idempotent_replay_def)
qed

lemma event_replay_matches_new: "event_replay_matches sha a (new_event_row sha now uuid a)"
  by (simp add: event_replay_matches_def new_event_row_def)

lemma enqueue_records:
  assumes "enqueue sha now uuid a rows = Inr (res, rows')"
  shows "ev_recorded sha a rows'"
proof (cases "ev_insert (new_event_row sha now uuid a) rows")
  case (Inr rows1)
  then have "rows' = rows @ [new_event_row sha now uuid a]"
    using assms by (auto simp: enqueue_def Let_def ev_insert_def split: if_splits)
  then show ?thesis
    using event_replay_matches_new [of sha a now uuid]
    by (auto simp: ev_recorded_def ev_by_key_def new_event_row_def)
next
  case (Inl e)
  then obtain r where "fetchone (ev_by_key (ea_tenant_id a) (ea_idempotency_key a)) rows = Some r"
    and "event_replay_matches sha a r" and "rows' = rows"
    using assms by (auto simp: enqueue_def Let_def rbind_eq_Inr require_idempotent_replay_def
        split: option.splits if_splits)
  then show ?thesis by (auto simp: ev_recorded_def dest: fetchone_SomeD)
qed

lemma ev_recorded_envelope:
  assumes "ev_envelope r' = ev_envelope r"
  shows "ev_by_key tn key r' = ev_by_key tn key r" "event_replay_matches sha a r' = event_replay_matches sha a r"
  using assms by (simp_all add: ev_envelope_def ev_by_key_def event_replay_matches_def split: option.split)

lemma ev_recorded_later:
  assumes "rows_extend ev_row_later s t" and "ev_recorded sha a s"
  shows "ev_recorded sha a t"
proof -
  obtain r where r: "r \<in> set s" "ev_by_key (ea_tenant_id a) (ea_idempotency_key a) r"
    "event_replay_matches sha a r"
    using assms(2) by (auto simp: ev_recorded_def)
  obtain r' where "r' \<in> set t" "ev_envelope r' = ev_envelope r"
    using rows_extend_member [OF assms(1) r(1)] by (auto simp: ev_row_later_def)
  with r show ?thesis
    unfolding ev_recorded_def using ev_recorded_envelope [of r' r] by (intro bexI [of _ r']) simp_all
qed

interpretation event_idem: idempotent_store ev_inv "\<lambda>_. True"
    "\<lambda>a (now, uuid). enqueue sha now uuid a" "ev_recorded sha" "ev_step sha" for sha
proof (unfold_locales, goal_cases)
  case (4 s l s')
  then show ?case by (blast intro: ev_step_inv)
next
  case (5 s l s' a)
  then show ?case by (blast intro: ev_recorded_later ev_step_later)
qed (auto intro: ev_inv_enqueue enqueue_records enqueue_recorded)

subsection \<open>Bounded attempts\<close>

definition ev_bounded :: "event_row list \<Rightarrow> bool" where
  "ev_bounded rows \<longleftrightarrow> (\<forall>r \<in> set rows. 1 \<le> ev_max_attempts r \<and> ev_attempts r \<le> ev_max_attempts r)"

fun ev_plain_op :: "ev_op \<Rightarrow> bool" where
  "ev_plain_op (OpEnqueue now uuid a) = (1 \<le> ea_max_attempts a)"
| "ev_plain_op (OpClaim c now t) = (\<not> ca_recover_exhausted c)"
| "ev_plain_op _ = True"

lemma ev_bounded_update:
  assumes "ev_bounded rows"
    and "\<And>r. r \<in> set rows \<Longrightarrow> p r \<Longrightarrow> ev_max_attempts (f r) = ev_max_attempts r \<and>
      (ev_attempts (f r) = ev_attempts r \<or> ev_attempts (f r) \<le> ev_max_attempts r)"
  shows "ev_bounded (update_where p f rows)"
  using assms by (fastforce simp: ev_bounded_def ball_update_where)

lemma ev_bounded_settle:
  assumes "ev_inv rows" and "ev_bounded rows"
  shows "ev_bounded (snd (ev_settle a k t rows))"
  using assms(2)
  by (cases a)
     (auto simp: mark_done_def mark_dead_letter_def mark_retry_eq [OF assms(1)] Let_def ev_release_def
       intro!: ev_bounded_update split: option.split)

lemma ev_bounded_claim:
  assumes "ev_inv rows" and "ev_bounded rows" and "\<not> ca_recover_exhausted c"
  shows "ev_bounded (snd (claim_txn c now t rows))"
proof -
  have "ev_attempts r < ev_max_attempts r" if "r \<in> set rows" "ev_due c now r" for r
    using that assms by (auto simp: ev_due_def ev_inv_def ev_row_ok_def ev_bounded_def)
  then have "ev_attempts r + 1 \<le> ev_max_attempts r"
    if "r \<in> set rows" "ev_id r \<in> ev_id ` set (ev_candidates c now rows)" for r
    using ev_candidate_iff [OF assms(1) that] that(1) by force
  then show ?thesis
    using assms(2) unfolding claim_txn_map [OF assms(1)] ev_bounded_def set_map ball_simps(9)
    by (simp add: ev_lease_def ev_expire_def ev_release_def del: set_map)
qed

lemma ev_step_bounded:
  assumes "ev_step sha op s t" and "ev_plain_op op" and "ev_inv s" and "ev_bounded s"
  shows "ev_bounded t"
  using assms(1)
proof cases
  case (step_enqueue now uuid a res)
  then show ?thesis using assms(2,4) by (auto dest!: enqueue_rows simp: ev_bounded_def new_event_row_def)
next
  case (step_claim c now t claimed)
  then show ?thesis
    using ev_bounded_claim [OF assms(3,4), of c now t] assms(2) claim_due_Inr [OF step_claim(2)] by simp
next
  case (step_settle a k t b)
  then show ?thesis using ev_bounded_settle [OF assms(3,4), of a k t] by simp
next
  case (step_renew now secs k t b)
  then show ?thesis using assms(4)
    by (auto simp: renew_lease_def Let_def split: if_splits intro!: ev_bounded_update)
qed

subsection \<open>A concrete queue\<close>

text \<open>One event, enqueued at time 0 and claimed at time 10 for 60 seconds: the input at which the
  properties are instantiated.\<close>

definition demo_event :: enqueue_args where
  "demo_event = \<lparr>ea_tenant_id = ''t'', ea_recipient = ''agent'', ea_message_type = ''Ping'',
     ea_payload = JObj [(''source_id'', JStr ''chat'')], ea_idempotency_key = ''k'', ea_priority = 100,
     ea_run_after = None, ea_max_attempts = 2, ea_correlation_id = None, ea_causation_id = None\<rparr>"

definition demo_claim :: claim_args where
  "demo_claim = \<lparr>ca_recipient = ''agent'', ca_limit = 5, ca_lease_owner = ''w'', ca_lease_seconds = 60,
     ca_recover_exhausted = False, ca_tenant_id = None\<rparr>"

definition demo_row :: event_row where
  "demo_row = new_event_row (\<lambda>s. s) 0 ''u'' demo_event"

definition demo_leased :: event_row where
  "demo_leased = ev_lease demo_claim 10 ''tok'' demo_row"

lemma demo_enqueue: "enqueue (\<lambda>s. s) 0 ''u'' demo_event [] = Inr (Some ''evt_u'', [demo_row])"
  by (simp add: enqueue_def Let_def ev_insert_def demo_row_def new_event_row_def)

lemma demo_row_due: "ev_due demo_claim 10 demo_row" "\<not> ev_exhausted demo_claim 10 demo_row"
  by (simp_all add: ev_due_def ev_exhausted_def demo_row_def new_event_row_def demo_event_def demo_claim_def)

lemma demo_claimed: "claim_due demo_claim 10 ''tok'' [demo_row] = Inr ([demo_leased], [demo_leased])"
  using demo_row_due
  by (simp add: claim_due_def claim_txn_def Let_def select_where_def order_by_def demo_leased_def)
     (simp add: demo_claim_def)

lemma demo_enqueue_step: "ev_step (\<lambda>s. s) (OpEnqueue 0 ''u'' demo_event) [] [demo_row]"
  using demo_enqueue by (rule step_enqueue)

lemma demo_claim_step: "ev_step (\<lambda>s. s) (OpClaim demo_claim 10 ''tok'') [demo_row] [demo_leased]"
  using demo_claimed by (rule step_claim)

lemma demo_run: "steps (ev_step (\<lambda>s. s)) [OpEnqueue 0 ''u'' demo_event, OpClaim demo_claim 10 ''tok''] [] [demo_leased]"
  using demo_enqueue_step demo_claim_step by (auto simp del: ev_step_simps)

lemma demo_inv: "ev_inv [demo_row]" "ev_inv [demo_leased]"
  using ev_step_inv [OF demo_enqueue_step] ev_step_inv [OF demo_claim_step] by simp_all

lemma demo_leased_columns:
  "ev_id demo_leased = ''evt_u''" "ev_status demo_leased = EvLeased" "ev_lease_token demo_leased = Some ''tok''"
  "ev_lease_until demo_leased = Some 70" "ev_attempts demo_leased = 1" "ev_max_attempts demo_leased = 2"
  by (simp_all add: demo_leased_def ev_lease_def demo_row_def new_event_row_def demo_claim_def demo_event_def)

subsection \<open>Properties\<close>

text \<open>In every state the queue can reach from an empty table, ids and tenant-scoped idempotency
  keys are unique, a row has a lease owner, deadline and token exactly while it is leased, queued
  rows have no attempt, and a row waits for a retry only while it has attempts left.\<close>

theorem event_queue_invariant:
  assumes "steps (ev_step sha) ops [] rows"
  shows "ev_inv rows"
  using assms by (rule steps_ev_inv) simp

theorem event_queue_invariant_witness: "ev_inv [demo_leased]"
  using event_queue_invariant [OF demo_run] .

text \<open>C23: Events are durable: along any run, every event keeps its position and the content it was
  enqueued with, no event is lost, and an event that is done or dead-lettered is never written
  again.\<close>

theorem event_durability:
  assumes "ev_inv rows" and "steps (ev_step sha) ops rows rows'"
  shows "rows_extend (\<lambda>r r'. ev_envelope r' = ev_envelope r \<and> (ev_final r \<longrightarrow> r' = r)) rows rows'"
  using steps_ev_later [OF assms(2,1)] by (simp add: ev_row_later_def [abs_def])

theorem event_durability_witness:
  "ev_envelope demo_leased = ev_envelope demo_row"
  using event_durability [OF demo_inv(1), of "\<lambda>s. s" "[OpClaim demo_claim 10 ''tok'']" "[demo_leased]"]
    demo_claim_step
  by (simp add: rows_extend_def)

text \<open>A claim leases exactly the first \<open>limit\<close> due events of the recipient (and tenant) in the
  order priority, creation time, insertion, and returns them as they are stored, leased by this
  claim.\<close>

theorem claim_due_spec:
  assumes "ev_inv rows" and "claim_due c now token rows = Inr (claimed, rows')"
  shows "claimed = map (ev_lease c now token)
           (take (nat (ca_limit c)) (order_by ev_order (filter (ev_due c now) rows)))
    \<and> rows' = map (\<lambda>r. if ev_id r \<in> ev_id ` set claimed then ev_lease c now token r
           else if ev_exhausted c now r then ev_expire now r else r) rows"
proof (rule conjI)
  have txn: "claim_txn c now token rows = (claimed, rows')" using assms(2) by (auto dest: claim_due_Inr)
  show cl: "claimed = map (ev_lease c now token)
      (take (nat (ca_limit c)) (order_by ev_order (filter (ev_due c now) rows)))"
    using claim_txn_result [OF ev_inv_distinct [OF assms(1)], of c now token] txn
    by (simp add: ev_candidates_def select_where_def)
  then have "ev_id ` set claimed = ev_id ` set (ev_candidates c now rows)"
    by (simp add: ev_candidates_def select_where_def image_image)
  then show "rows' = map (\<lambda>r. if ev_id r \<in> ev_id ` set claimed then ev_lease c now token r
      else if ev_exhausted c now r then ev_expire now r else r) rows"
    using claim_txn_map [OF assms(1), of c now token] txn by simp
qed

theorem claim_due_spec_witness:
  "[demo_leased] = map (ev_lease demo_claim 10 ''tok'')
     (take 5 (order_by ev_order (filter (ev_due demo_claim 10) [demo_row])))"
  using claim_due_spec [OF demo_inv(1) demo_claimed] by (simp add: demo_claim_def)

text \<open>C19: Two claims never lease the same event while the first lease runs: a second claim at a time
  before the first lease expires, by any worker for any recipient, returns other events.\<close>

theorem claims_disjoint:
  assumes "ev_inv rows" and "claim_due c now token rows = Inr (claimed, rows1)"
    and "claim_due c' now' token' rows1 = Inr (claimed', rows2)"
    and "now' < now + ca_lease_seconds c"
  shows "ev_id ` set claimed \<inter> ev_id ` set claimed' = {}"
proof -
  have txn: "claim_txn c now token rows = (claimed, rows1)" "claim_txn c' now' token' rows1 = (claimed', rows2)"
    using assms(2,3) by (auto dest: claim_due_Inr)
  have inv1: "ev_inv rows1" using ev_inv_claim [OF assms(1), of c now token] txn(1) by simp
  have ids: "ev_id ` set claimed = ev_id ` set (ev_candidates c now rows)"
    using claim_txn_result [OF ev_inv_distinct [OF assms(1)], of c now token] txn(1) by (simp add: image_image)
  have busy: "\<not> ev_due c' now' x" if x: "x \<in> set rows1" "ev_id x \<in> ev_id ` set claimed" for x
  proof -
    have "x \<in> (\<lambda>r. if ev_id r \<in> ev_id ` set (ev_candidates c now rows) then ev_lease c now token r
        else if ev_exhausted c now r then ev_expire now r else r) ` set rows"
      using x(1) claim_txn_map [OF assms(1), of c now token] txn(1) by (metis list.set_map snd_conv)
    then obtain y where "x = (if ev_id y \<in> ev_id ` set (ev_candidates c now rows) then ev_lease c now token y
        else if ev_exhausted c now y then ev_expire now y else y)" by blast
    moreover from this have "ev_id x = ev_id y" by simp
    ultimately have "x = ev_lease c now token y" using x(2) ids by simp
    then show ?thesis using assms(4) by (simp add: ev_due_def ev_lease_def)
  qed
  have due: "\<exists>x \<in> set rows1. ev_due c' now' x \<and> ev_id x = ev_id y" if "y \<in> set claimed'" for y
  proof -
    have "claimed' = map (ev_lease c' now' token') (ev_candidates c' now' rows1)"
      using claim_txn_result [OF ev_inv_distinct [OF inv1], of c' now' token'] txn(2) by simp
    with that obtain x where "x \<in> set (ev_candidates c' now' rows1)" "y = ev_lease c' now' token' x" by auto
    then show ?thesis using ev_candidates_due [of x c' now' rows1] by (intro bexI [of _ x]) simp_all
  qed
  have "ev_id y \<notin> ev_id ` set claimed" if "y \<in> set claimed'" for y
    using due [OF that] busy by metis
  then show ?thesis by (simp only: disjoint_iff) blast
qed

theorem claims_disjoint_witness:
  "claim_due demo_claim 20 ''tok2'' [demo_leased] = Inr ([], [demo_leased])
    \<and> ev_id ` set [demo_leased] \<inter> ev_id ` set ([] :: event_row list) = {}"
proof
  have "\<not> ev_due demo_claim 20 demo_leased" "\<not> ev_exhausted demo_claim 20 demo_leased"
    by (simp_all add: ev_due_def ev_exhausted_def demo_leased_columns)
  then show second: "claim_due demo_claim 20 ''tok2'' [demo_leased] = Inr ([], [demo_leased])"
    by (simp add: claim_due_def claim_txn_def Let_def select_where_def order_by_def) (simp add: demo_claim_def)
  show "ev_id ` set [demo_leased] \<inter> ev_id ` set ([] :: event_row list) = {}"
    by (rule claims_disjoint [OF demo_inv(1) demo_claimed second]) (simp add: demo_claim_def)
qed

text \<open>Settlement is at most once: whatever sequence of done, dead-letter and retry calls workers
  issue with whatever lease tokens, an event is settled at most once until it is claimed again, and
  not at all when nobody holds it.\<close>

theorem event_settled_at_most_once:
  assumes "ev_inv rows"
  shows "wins (\<lambda>(a, k', t). k' = k) calls (fst (run_ops (\<lambda>(a, k, t). ev_settle a k t) calls rows))
    \<le> (if \<exists>t. ev_holds rows k t then 1 else 0)"
  using assms by (rule event_lease.settle_at_most_once)

theorem event_settled_at_most_once_witness:
  "wins (\<lambda>(a, k', t). k' = ''evt_u'')
     [(SettleDone 20, ''evt_u'', ''tok''), (SettleDead 21 ''late'', ''evt_u'', ''tok'')]
     (fst (run_ops (\<lambda>(a, k, t). ev_settle a k t)
        [(SettleDone 20, ''evt_u'', ''tok''), (SettleDead 21 ''late'', ''evt_u'', ''tok'')] [demo_leased])) \<le> 1"
  using event_settled_at_most_once [OF demo_inv(2), of "''evt_u''"
      "[(SettleDone 20, ''evt_u'', ''tok''), (SettleDead 21 ''late'', ''evt_u'', ''tok'')]"]
  by (simp split: if_splits)

text \<open>C1: Fencing: once an event has been claimed under a new token, every settlement with another
  token is refused and leaves the queue as it is, while the new holder's settlement succeeds.\<close>

theorem event_fencing:
  assumes "ev_inv rows" and "claim_due c now token rows = Inr (claimed, rows')"
    and "r \<in> set claimed" and "token' \<noteq> token"
  shows "ev_settle a (ev_id r) token' rows' = (False, rows') \<and> fst (ev_settle b (ev_id r) token rows')"
proof (rule conjI)
  have "claim_txn c now token rows = (claimed, rows')" using assms(2) by (auto dest: claim_due_Inr)
  then have ids: "fst (ev_claim_ids (c, now) token rows) = map ev_id claimed"
    "snd (ev_claim_ids (c, now) token rows) = rows'"
    by (simp_all add: ev_claim_ids_def)
  show "ev_settle a (ev_id r) token' rows' = (False, rows')"
    using event_lease.fenced_after_reclaim [OF assms(1), of "ev_id r" "(c, now)" token token' a] assms(3,4)
    by (simp add: ids)
  show "fst (ev_settle b (ev_id r) token rows')"
    using event_lease.claim_then_settle [OF assms(1), of "ev_id r" "(c, now)" token b] assms(3)
    by (simp add: ids)
qed

theorem event_fencing_witness:
  "ev_settle (SettleDone 20) ''evt_u'' ''old'' [demo_leased] = (False, [demo_leased])
    \<and> fst (ev_settle (SettleDone 20) ''evt_u'' ''tok'' [demo_leased])"
  using event_fencing [OF demo_inv(1) demo_claimed, of demo_leased "''old''" "SettleDone 20" "SettleDone 20"]
  by (simp add: demo_leased_columns)

text \<open>Enqueue is idempotent: after an enqueue went through, and after any further operations on
  the queue, issuing the same command again any number of times answers \<open>None\<close> each time and changes
  nothing.\<close>

theorem enqueue_idempotent:
  assumes "ev_inv rows" and "enqueue sha now uuid a rows = Inr (res, rows1)"
    and "steps (ev_step sha) ops rows1 rows2"
  shows "(\<exists>rs. replay_all (\<lambda>(now, uuid). enqueue sha now uuid a) again rows2 = Inr (rs, rows2))
    \<and> enqueue sha now' uuid' a rows2 = Inr (None, rows2)"
proof (rule conjI)
  show "\<exists>rs. replay_all (\<lambda>(now, uuid). enqueue sha now uuid a) again rows2 = Inr (rs, rows2)"
    using event_idem.replay_absorbed [where s = rows and c = a and sha = sha and e = "(now, uuid)" and r = res
      and ?s1.0 = rows1 and ls = ops and ?s2.0 = rows2 and es = again] assms by simp
  have "ev_inv rows1" using assms(1,2) by (rule ev_inv_enqueue)
  then show "enqueue sha now' uuid' a rows2 = Inr (None, rows2)"
    using assms(2,3) steps_ev_inv steps_ev_later enqueue_records
    by (blast intro: enqueue_recorded ev_recorded_later)
qed

theorem enqueue_idempotent_witness:
  "enqueue (\<lambda>s. s) 30 ''v'' demo_event [demo_leased] = Inr (None, [demo_leased])"
  using enqueue_idempotent [OF ev_inv_Nil demo_enqueue, of "[OpClaim demo_claim 10 ''tok'']" "[demo_leased]"]
    demo_claim_step
  by simp



text \<open>Attempts are bounded: while events are enqueued with at least one attempt and claims do not
  ask for exhausted events, no event is ever attempted more often than its maximum.\<close>

theorem event_attempts_bounded:
  assumes "steps (ev_step sha) ops [] rows" and "\<forall>op \<in> set ops. ev_plain_op op"
  shows "\<forall>r \<in> set rows. ev_attempts r \<le> ev_max_attempts r"
proof -
  have "ev_inv rows \<and> ev_bounded rows"
    using assms(1)
  proof (rule steps_invariant)
    show "ev_inv [] \<and> ev_bounded []" by (simp add: ev_bounded_def)
  qed (use assms(2) in \<open>auto intro: ev_step_inv ev_step_bounded\<close>)
  then show ?thesis by (auto simp: ev_bounded_def)
qed

theorem event_attempts_bounded_witness: "ev_attempts demo_leased \<le> ev_max_attempts demo_leased"
  using event_attempts_bounded [OF demo_run] by (simp add: demo_event_def demo_claim_def)

end
