(* ===== verification/Approvals.thy ===== *)
theory Approvals
  imports Actions Event_Queue
begin

section \<open>Approving an action\<close>

text \<open>
  Models \<open>approvals/runtime.py\<close>: one transaction approves an action and enqueues its execution.
  The transaction reads and writes \<open>actions\<close> and \<open>event_queue\<close>; an exception rolls both back.
\<close>

record approval_db =
  ap_actions :: "action_row list"
  ap_events :: "event_row list"

record approval_result =
  ar_action_id :: string
  ar_status :: action_state
  ar_transitioned :: bool
  ar_execution_event_id :: "string option"
  ar_execution_event_created :: bool

text \<open>The arguments of the \<open>enqueue\<close> call.\<close>

definition execution_key :: "string \<Rightarrow> string" where
  "execution_key action_id = ''execute-action:'' @ action_id"

definition execution_event :: "string \<Rightarrow> string \<Rightarrow> string \<Rightarrow> string \<Rightarrow> string option \<Rightarrow> enqueue_args" where
  "execution_event tenant source action_id recipient source_event = \<lparr>
     ea_tenant_id = tenant, ea_recipient = recipient, ea_message_type = ''ExecuteAction'',
     ea_payload = JObj [(''action_id'', JStr action_id), (''source_id'', JStr source)],
     ea_idempotency_key = execution_key action_id, ea_priority = 100, ea_run_after = None,
     ea_max_attempts = 5, ea_correlation_id = Some action_id, ea_causation_id = source_event\<rparr>"

text \<open>The id of the enqueued event, or of the event that is already on record under the key.\<close>

definition execution_event_id :: "string \<Rightarrow> string \<Rightarrow> event_row list \<Rightarrow> string option \<Rightarrow> string result" where
  "execution_event_id tenant key evs event_id = (case event_id of
     Some i \<Rightarrow> Inr i
   | None \<Rightarrow>
       (case fetchone (ev_by_key tenant key) evs of
          None \<Rightarrow> Inl (RuntimeError ''approved action has no durable execution event'')
        | Some e \<Rightarrow> Inr (ev_id e)))"

text \<open>The two clock readings are the arguments \<open>now1\<close> (in \<open>approve_action\<close>) and \<open>now2\<close> (in \<open>enqueue\<close>).\<close>

definition approve_action_and_enqueue ::
  "(string \<Rightarrow> string) \<Rightarrow> int \<Rightarrow> int \<Rightarrow> string \<Rightarrow> string \<Rightarrow> string \<Rightarrow> string \<Rightarrow> string \<Rightarrow> string
    \<Rightarrow> approval_db \<Rightarrow> (approval_result \<times> approval_db) result" where
  "approve_action_and_enqueue sha now1 now2 uuid tenant source action_id approver recipient db =
     (case get_action action_id tenant source (ap_actions db) of
        None \<Rightarrow> Inl (KeyError (''action not found: '' @ action_id))
      | Some _ \<Rightarrow>
          (let (transitioned, acts) = approve_action now1 approver action_id tenant source (ap_actions db)
           in case get_action action_id tenant source acts of
                None \<Rightarrow> Inl (RuntimeError (''action disappeared during approval: '' @ action_id))
              | Some act \<Rightarrow>
                  if ac_status act = ActApproved
                  then rbind (enqueue sha now2 uuid
                         (execution_event tenant source action_id recipient (ac_source_event_id act)) (ap_events db))
                       (\<lambda>(event_id, evs).
                          rbind (execution_event_id tenant (execution_key action_id) evs event_id)
                            (\<lambda>i. Inr (\<lparr>ar_action_id = action_id, ar_status = ac_status act,
                                      ar_transitioned = transitioned, ar_execution_event_id = Some i,
                                      ar_execution_event_created = (event_id \<noteq> None)\<rparr>,
                                    \<lparr>ap_actions = acts, ap_events = evs\<rparr>)))
                  else Inr (\<lparr>ar_action_id = action_id, ar_status = ac_status act,
                              ar_transitioned = transitioned, ar_execution_event_id = None,
                              ar_execution_event_created = False\<rparr>,
                            \<lparr>ap_actions = acts, ap_events = ap_events db\<rparr>)))"

definition ap_inv :: "approval_db \<Rightarrow> bool" where
  "ap_inv db \<longleftrightarrow> ac_inv (ap_actions db) \<and> ev_inv (ap_events db)"

subsection \<open>How the approval reads the table\<close>

lemma get_action_SomeD: "get_action k tn src rows = Some r \<Longrightarrow> r \<in> set rows \<and> ac_is k tn src r"
  by (auto simp: get_action_def dest: fetchone_SomeD)

lemma get_action_unique:
  "distinct (map ac_id rows) \<Longrightarrow> r \<in> set rows \<Longrightarrow> ac_is k tn src r \<Longrightarrow> get_action k tn src rows = Some r"
  unfolding get_action_def by (rule fetchone_pk [where k = ac_id]) (auto simp: ac_is_def)

text \<open>Reading an action back after a guarded status change.\<close>

lemma get_action_transition:
  assumes "distinct (map ac_id rows)" and "get_action k tn src rows = Some r"
    and "\<And>r. ac_id (f r) = ac_id r \<and> ac_tenant_id (f r) = ac_tenant_id r \<and> ac_source_id (f r) = ac_source_id r"
  shows "ac_transition sts f k tn src rows =
      (ac_status r \<in> set sts,
       update_where (\<lambda>x. ac_is k tn src x \<and> ac_status x \<in> set sts) f rows)"
    and "get_action k tn src (snd (ac_transition sts f k tn src rows)) =
      Some (if ac_status r \<in> set sts then f r else r)"
proof -
  let ?p = "\<lambda>x. ac_is k tn src x \<and> ac_status x \<in> set sts"
  have r: "r \<in> set rows" "ac_is k tn src r" using get_action_SomeD [OF assms(2)] by auto
  have same: "x = r" if "x \<in> set rows" "ac_is k tn src x" for x
    using that r distinct_map_eq [OF assms(1)] by (simp add: ac_is_def)
  have "(\<exists>x \<in> set rows. ?p x) \<longleftrightarrow> ac_status r \<in> set sts" using r same by blast
  then show tr: "ac_transition sts f k tn src rows = (ac_status r \<in> set sts, update_where ?p f rows)"
    by (simp add: ac_transition_def Let_def rowcount_pos)
  have "(if ?p r then f r else r) \<in> set (update_where ?p f rows)"
    using r(1) by (auto simp: set_update_where)
  then show "get_action k tn src (snd (ac_transition sts f k tn src rows)) =
      Some (if ac_status r \<in> set sts then f r else r)"
    unfolding tr snd_conv using assms(1,3) r(2)
    by (intro get_action_unique) (auto simp: ac_is_def split: if_splits)
qed

text \<open>The transaction in one equation, for an action that exists.\<close>

definition approved_row :: "int \<Rightarrow> string \<Rightarrow> action_row \<Rightarrow> action_row" where
  "approved_row now approver r = (if ac_status r = ActPending then r\<lparr>ac_status := ActApproved,
     ac_approved_by := Some approver, ac_approved_at := Some now, ac_updated_at := now\<rparr> else r)"

lemma approve_then_get:
  assumes "ac_inv rows" and "get_action k tn src rows = Some r"
  shows "fst (approve_action now who k tn src rows) = (ac_status r = ActPending)"
    and "get_action k tn src (snd (approve_action now who k tn src rows)) = Some (approved_row now who r)"
proof -
  let ?f = "\<lambda>r. r\<lparr>ac_status := ActApproved, ac_approved_by := Some who, ac_approved_at := Some now,
      ac_updated_at := now\<rparr>"
  have d: "distinct (map ac_id rows)" using assms(1) by (simp add: ac_inv_def)
  note tr = get_action_transition [OF d assms(2), where f = ?f and sts = "[ActPending]"]
  show "fst (approve_action now who k tn src rows) = (ac_status r = ActPending)"
    unfolding approve_action_def by (subst tr(1)) simp_all
  show "get_action k tn src (snd (approve_action now who k tn src rows)) = Some (approved_row now who r)"
    unfolding approve_action_def approved_row_def by (subst tr(2)) simp_all
qed

lemma approve_Inr:
  assumes "approve_action_and_enqueue sha now1 now2 uuid tn src k who rcpt db = Inr (res, db')"
  shows "ap_actions db' = snd (approve_action now1 who k tn src (ap_actions db)) \<and> ar_action_id res = k
    \<and> (ap_events db' = ap_events db \<or> (\<exists>ev eid. enqueue sha now2 uuid ev (ap_events db) = Inr (eid, ap_events db')))"
  using assms
  by (auto simp: approve_action_and_enqueue_def Let_def case_prod_unfold rbind_eq_Inr split: option.splits if_splits)

lemma ap_inv_approve:
  assumes "ap_inv db"
    and "approve_action_and_enqueue sha now1 now2 uuid tn src k who rcpt db = Inr (res, db')"
  shows "ap_inv db'"
proof -
  have "ac_inv (snd (approve_action now1 who k tn src (ap_actions db)))"
    using assms(1) ac_inv_change [of "ap_actions db" "ChApprove who" now1 k tn src] by (simp add: ap_inv_def)
  then show ?thesis
    using assms(1) approve_Inr [OF assms(2)] by (auto simp: ap_inv_def intro: ev_inv_enqueue)
qed

text \<open>A successful approval of an action that is approved afterwards leaves its execution event on
  record and returns that event's id.\<close>

lemma approve_records:
  assumes "ap_inv db"
    and "approve_action_and_enqueue sha now1 now2 uuid tn src k who rcpt db = Inr (res, db')"
    and "ar_status res = ActApproved"
  shows "\<exists>act. get_action k tn src (ap_actions db') = Some act \<and> ac_status act = ActApproved
    \<and> (let ev = execution_event tn src k rcpt (ac_source_event_id act)
       in ev_recorded sha ev (ap_events db')
        \<and> map_option ev_id (fetchone (ev_by_key tn (execution_key k)) (ap_events db')) = ar_execution_event_id res)"
proof -
  have ac: "ac_inv (ap_actions db)" and ev: "ev_inv (ap_events db)" using assms(1) by (simp_all add: ap_inv_def)
  obtain r where r: "get_action k tn src (ap_actions db) = Some r"
    using assms(2) by (auto simp: approve_action_and_enqueue_def split: option.splits)
  note get = approve_then_get [OF ac r, of now1 who]
  let ?act = "approved_row now1 who r"
  let ?e = "execution_event tn src k rcpt (ac_source_event_id ?act)"
  have st: "ac_status ?act = ActApproved"
    using assms(2,3) r get
    by (auto simp: approve_action_and_enqueue_def Let_def case_prod_unfold rbind_eq_Inr split: option.splits if_splits)
  then obtain eid evs where enq: "enqueue sha now2 uuid ?e (ap_events db) = Inr (eid, evs)"
    and res: "execution_event_id tn (execution_key k) evs eid = Inr (the (ar_execution_event_id res))"
      "ar_execution_event_id res \<noteq> None"
    and db': "db' = \<lparr>ap_actions = snd (approve_action now1 who k tn src (ap_actions db)), ap_events = evs\<rparr>"
    using assms(2) r get
    by (auto simp: approve_action_and_enqueue_def Let_def case_prod_unfold rbind_eq_Inr
        split: option.splits if_splits)
  have evs: "ev_inv evs" using ev enq by (rule ev_inv_enqueue)
  have rec: "ev_recorded sha ?e evs" using enq by (rule enqueue_records)
  then obtain x where x: "x \<in> set evs" "ev_by_key tn (execution_key k) x"
    by (auto simp: ev_recorded_def execution_event_def)
  have fetch: "fetchone (ev_by_key tn (execution_key k)) evs = Some x"
    using ev_fetch_by_key [OF evs x] .
  have "Some (ev_id x) = ar_execution_event_id res"
  proof (cases eid)
    case None
    then show ?thesis using res fetch by (auto simp: execution_event_id_def)
  next
    case (Some i)
    have "new_event_row sha now2 uuid ?e \<in> set evs" "i = ev_id (new_event_row sha now2 uuid ?e)"
      using enq Some by (auto simp: enqueue_def Let_def ev_insert_def rbind_eq_Inr split: if_splits option.splits)
    moreover have "ev_by_key tn (execution_key k) (new_event_row sha now2 uuid ?e)"
      by (simp add: ev_by_key_def new_event_row_def execution_event_def)
    ultimately have "ev_id x = i" using ev_fetch_by_key [OF evs] fetch by fastforce
    then show ?thesis using Some res by (auto simp: execution_event_id_def)
  qed
  then show ?thesis
    using get(2) st rec fetch by (intro exI [of _ ?act]) (simp add: db' Let_def)
qed

subsection \<open>Properties\<close>

text \<open>Approval is atomic with the enqueue: when the approval answers that the action is approved,
  the action is approved in the store, its \<open>ExecuteAction\<close> event is on record in the queue under the
  key \<open>execute-action:<id>\<close>, and the answer carries the id of that event.\<close>

theorem approval_enqueues_execution:
  assumes "ap_inv db"
    and "approve_action_and_enqueue sha now1 now2 uuid tn src k who rcpt db = Inr (res, db')"
    and "ar_status res = ActApproved"
  shows "\<exists>act ev. get_action k tn src (ap_actions db') = Some act \<and> ac_status act = ActApproved
    \<and> ev \<in> set (ap_events db') \<and> ev_tenant_id ev = tn \<and> ev_idempotency_key ev = execution_key k
    \<and> event_replay_matches sha (execution_event tn src k rcpt (ac_source_event_id act)) ev
    \<and> ar_execution_event_id res = Some (ev_id ev)"
proof -
  obtain act where act: "get_action k tn src (ap_actions db') = Some act" "ac_status act = ActApproved"
    and rec: "ev_recorded sha (execution_event tn src k rcpt (ac_source_event_id act)) (ap_events db')"
    and id: "map_option ev_id (fetchone (ev_by_key tn (execution_key k)) (ap_events db')) = ar_execution_event_id res"
    using approve_records [OF assms] by (auto simp: Let_def)
  obtain ev where ev: "ev \<in> set (ap_events db')" "ev_by_key tn (execution_key k) ev"
    "event_replay_matches sha (execution_event tn src k rcpt (ac_source_event_id act)) ev"
    using rec by (auto simp: ev_recorded_def execution_event_def)
  have "ev_inv (ap_events db')" using ap_inv_approve [OF assms(1,2)] by (simp add: ap_inv_def)
  then have "ar_execution_event_id res = Some (ev_id ev)" using id ev_fetch_by_key [OF _ ev(1,2)] by simp
  with act ev show ?thesis by (auto simp: ev_by_key_def)
qed

definition demo_approval :: "approval_result \<times> approval_db" where
  "demo_approval = (\<lparr>ar_action_id = ''act_a'', ar_status = ActApproved, ar_transitioned = True,
       ar_execution_event_id = Some ''evt_u'', ar_execution_event_created = True\<rparr>,
     \<lparr>ap_actions = [demo_approved],
      ap_events = [new_event_row (\<lambda>s. s) 6 ''u'' (execution_event ''t'' ''chat'' ''act_a'' ''actions'' None)]\<rparr>)"

lemma demo_approval_call:
  "approve_action_and_enqueue (\<lambda>s. s) 5 6 ''u'' ''t'' ''chat'' ''act_a'' ''boss'' ''actions''
     \<lparr>ap_actions = [demo_pending], ap_events = []\<rparr> = Inr demo_approval"
  by (simp add: approve_action_and_enqueue_def get_action_def ac_is_def approve_action_def ac_transition_def
      Let_def demo_action_defs enqueue_def ev_insert_def demo_approval_def execution_event_id_def)
     (simp add: new_event_row_def)

lemma demo_approval_inv: "ap_inv \<lparr>ap_actions = [demo_pending], ap_events = []\<rparr>"
  using demo_action_inv by (simp add: ap_inv_def)

theorem approval_enqueues_execution_witness:
  "\<exists>ev \<in> set (ap_events (snd demo_approval)). ev_idempotency_key ev = execution_key ''act_a''"
  using approval_enqueues_execution [OF demo_approval_inv,
      of "\<lambda>s. s" 5 6 "''u''" "''t''" "''chat''" "''act_a''" "''boss''" "''actions''" "fst demo_approval" "snd demo_approval"]
    demo_approval_call
  by (auto simp: demo_approval_def)

text \<open>Approving twice is harmless: once an approval answered that the action is approved, the same
  approval at any later time, by anyone, answers with the same event id, reports neither a transition
  nor a new event, and changes neither table.\<close>

theorem approval_repeatable:
  assumes "ap_inv db"
    and "approve_action_and_enqueue sha now1 now2 uuid tn src k who rcpt db = Inr (res, db')"
    and "ar_status res = ActApproved"
  shows "approve_action_and_enqueue sha now3 now4 uuid' tn src k who' rcpt db'
    = Inr (res\<lparr>ar_transitioned := False, ar_execution_event_created := False\<rparr>, db')"
proof -
  have inv: "ap_inv db'" using assms(1,2) by (rule ap_inv_approve)
  obtain act where act: "get_action k tn src (ap_actions db') = Some act" "ac_status act = ActApproved"
    and rec: "ev_recorded sha (execution_event tn src k rcpt (ac_source_event_id act)) (ap_events db')"
    and id: "map_option ev_id (fetchone (ev_by_key tn (execution_key k)) (ap_events db')) = ar_execution_event_id res"
    using approve_records [OF assms] by (auto simp: Let_def)
  have noop: "approve_action now3 who' k tn src (ap_actions db') = (False, ap_actions db')"
    using get_action_transition(1) [OF _ act(1)] inv act(2) get_action_SomeD [OF act(1)]
    by (auto simp: approve_action_def ap_inv_def ac_inv_def intro!: update_where_id dest: distinct_map_eq)
       (metis ac_is_def action_state.distinct(1) distinct_map_eq)
  have enq: "enqueue sha now4 uuid' (execution_event tn src k rcpt (ac_source_event_id act)) (ap_events db')
      = Inr (None, ap_events db')"
    using inv rec by (intro enqueue_recorded) (simp_all add: ap_inv_def)
  obtain x where x: "x \<in> set (ap_events db')" "ev_by_key tn (execution_key k) x"
    using rec by (auto simp: ev_recorded_def execution_event_def)
  have fetch: "fetchone (ev_by_key tn (execution_key k)) (ap_events db') = Some x"
    using inv x by (intro ev_fetch_by_key) (simp_all add: ap_inv_def)
  then have "res\<lparr>ar_transitioned := False, ar_execution_event_created := False\<rparr> = \<lparr>ar_action_id = k,
      ar_status = ActApproved, ar_transitioned = False, ar_execution_event_id = Some (ev_id x),
      ar_execution_event_created = False\<rparr>"
    using id assms(3) approve_Inr [OF assms(2)] by (cases res) simp
  then show ?thesis
    using act noop enq fetch by (simp add: approve_action_and_enqueue_def execution_event_id_def)
qed

theorem approval_repeatable_witness:
  "approve_action_and_enqueue (\<lambda>s. s) 50 60 ''z'' ''t'' ''chat'' ''act_a'' ''other'' ''actions'' (snd demo_approval)
    = Inr ((fst demo_approval)\<lparr>ar_transitioned := False, ar_execution_event_created := False\<rparr>, snd demo_approval)"
  using approval_repeatable [OF demo_approval_inv,
      of "\<lambda>s. s" 5 6 "''u''" "''t''" "''chat''" "''act_a''" "''boss''" "''actions''" "fst demo_approval" "snd demo_approval"]
    demo_approval_call
  by (simp add: demo_approval_def)

end
