(* ===== verification/History.thy ===== *)
theory History
  imports Idempotent_Port
begin

section \<open>Conversation history\<close>

text \<open>
  Models \<open>conversation_history/store.py\<close> on the table \<open>conversation_messages\<close> (migration 025): the
  inbound and outbound messages of each conversation, recorded once, read in pages and pruned.
  The full-text search (SQLite's FTS5 ranking) is not modelled.
\<close>

subsection \<open>Rows\<close>

record message_row =
  hm_id :: string
  hm_tenant_id :: string
  hm_source_id :: string
  hm_channel :: string
  hm_direction :: string
  hm_author_id :: "string option"
  hm_author_username :: "string option"
  hm_author_display_name :: "string option"
  hm_text :: string
  hm_source_message_id :: string
  hm_source_event_id :: "string option"
  hm_metadata_json :: stored_json
  hm_occurred_at :: int
  hm_created_at :: int

record message_args =
  ha_tenant_id :: string
  ha_source_id :: string
  ha_channel :: string
  ha_direction :: string
  ha_text :: string
  ha_source_message_id :: string
  ha_occurred_at :: int
  ha_author_id :: "string option"
  ha_author_username :: "string option"
  ha_author_display_name :: "string option"
  ha_source_event_id :: "string option"
  ha_metadata :: "json option"

subsection \<open>Validation\<close>

definition validate_scope :: "string \<Rightarrow> string \<Rightarrow> unit result" where
  "validate_scope tenant source =
     (if blank tenant \<or> blank source
      then Inl (ValueError ''tenant_id and source_id must be non-empty'') else Inr ())"

definition validate_message :: "message_args \<Rightarrow> unit result" where
  "validate_message a =
     rbind (validate_scope (ha_tenant_id a) (ha_source_id a)) (\<lambda>_.
       if blank (ha_channel a) \<or> blank (ha_source_message_id a)
       then Inl (ValueError ''channel and source_message_id must be non-empty'')
       else if ha_direction a \<noteq> ''inbound'' \<and> ha_direction a \<noteq> ''outbound''
       then Inl (ValueError (''unsupported message direction: '' @ ha_direction a))
       else if ha_occurred_at a < 0
       then Inl (ValueError ''occurred_at must be a non-negative integer'')
       else Inr ())"

definition or_none :: "string \<Rightarrow> string option" where
  "or_none s = (if s = [] then None else Some s)"

definition normalize_author_display_name :: "string option \<Rightarrow> string option" where
  "normalize_author_display_name v = (case v of None \<Rightarrow> None | Some s \<Rightarrow> or_none (strip s))"

definition normalize_author_username :: "string option \<Rightarrow> string option" where
  "normalize_author_username v = (case v of
     None \<Rightarrow> None
   | Some s \<Rightarrow> or_none (strip (dropWhile (\<lambda>c. c = CHR ''@'') (strip s))))"

definition bounded :: "int \<Rightarrow> string \<Rightarrow> int \<Rightarrow> int \<Rightarrow> int result" where
  "bounded value name maximum minimum =
     (if minimum \<le> value \<and> value \<le> maximum then Inr value
      else Inl (ValueError (name @ '' must be between '' @ int_text minimum @ '' and '' @ int_text maximum)))"

subsection \<open>Recording\<close>

definition message_metadata :: "message_args \<Rightarrow> json" where
  "message_metadata a = (case ha_metadata a of None \<Rightarrow> JObj [] | Some m \<Rightarrow> m)"

definition new_message_row :: "int \<Rightarrow> string \<Rightarrow> message_args \<Rightarrow> message_row" where
  "new_message_row now uuid a = \<lparr>
     hm_id = ''history_'' @ uuid, hm_tenant_id = ha_tenant_id a, hm_source_id = ha_source_id a,
     hm_channel = ha_channel a, hm_direction = ha_direction a, hm_author_id = ha_author_id a,
     hm_author_username = normalize_author_username (ha_author_username a),
     hm_author_display_name = normalize_author_display_name (ha_author_display_name a),
     hm_text = ha_text a, hm_source_message_id = ha_source_message_id a,
     hm_source_event_id = ha_source_event_id a, hm_metadata_json = Encoded (message_metadata a),
     hm_occurred_at = ha_occurred_at a, hm_created_at = now\<rparr>"

definition hm_key :: "message_row \<Rightarrow> string \<times> string \<times> string \<times> string" where
  "hm_key r = (hm_tenant_id r, hm_source_id r, hm_direction r, hm_source_message_id r)"

definition hm_insert :: "message_row \<Rightarrow> message_row list \<Rightarrow> message_row list result" where
  "hm_insert n rows =
     (if \<exists>r \<in> set rows. hm_id r = hm_id n \<or> hm_key r = hm_key n then Inl IntegrityError else Inr (rows @ [n]))"

definition hm_by_key :: "message_args \<Rightarrow> message_row \<Rightarrow> bool" where
  "hm_by_key a r = (hm_tenant_id r = ha_tenant_id a \<and> hm_source_id r = ha_source_id a
     \<and> hm_direction r = ha_direction a \<and> hm_source_message_id r = ha_source_message_id a)"

definition message_replay_matches :: "message_args \<Rightarrow> message_row \<Rightarrow> bool" where
  "message_replay_matches a r =
     (hm_channel r = ha_channel a
      \<and> hm_author_id r = ha_author_id a
      \<and> hm_author_username r = normalize_author_username (ha_author_username a)
      \<and> hm_author_display_name r = normalize_author_display_name (ha_author_display_name a)
      \<and> hm_text r = ha_text a
      \<and> hm_source_event_id r = ha_source_event_id a
      \<and> stored_json_matches (Some (hm_metadata_json r)) (message_metadata a)
      \<and> hm_occurred_at r = ha_occurred_at a)"

definition record_message ::
  "int \<Rightarrow> string \<Rightarrow> message_args \<Rightarrow> message_row list \<Rightarrow> ((string \<times> bool) \<times> message_row list) result" where
  "record_message now uuid a rows =
     rbind (validate_message a) (\<lambda>_.
       let n = new_message_row now uuid a in
       case hm_insert n rows of
         Inr rows' \<Rightarrow> Inr ((hm_id n, True), rows')
       | Inl e \<Rightarrow>
           (case fetchone (hm_by_key a) rows of
              None \<Rightarrow> Inl e
            | Some existing \<Rightarrow>
                rbind (require_idempotent_replay (message_replay_matches a existing)
                         ''conversation message'' (ha_source_message_id a) (hm_id existing))
                  (\<lambda>_. Inr ((hm_id existing, False), rows))))"

subsection \<open>Reading\<close>

definition hm_in :: "string \<Rightarrow> string \<Rightarrow> message_row \<Rightarrow> bool" where
  "hm_in tenant source r = (hm_tenant_id r = tenant \<and> hm_source_id r = source)"

definition get_message ::
  "string \<Rightarrow> string \<Rightarrow> string \<Rightarrow> message_row list \<Rightarrow> message_row option result" where
  "get_message message_id tenant source rows =
     rbind (validate_scope tenant source) (\<lambda>_.
       Inr (fetchone (\<lambda>r. hm_id r = message_id \<and> hm_in tenant source r) rows))"

text \<open>\<open>ORDER BY occurred_at DESC, rowid DESC\<close> is the reverse of the stable
  ascending order.\<close>

definition hm_before :: "nat \<times> message_row \<Rightarrow> nat \<times> message_row \<Rightarrow> bool" where
  "hm_before c x = (hm_occurred_at (snd x) < hm_occurred_at (snd c)
     \<or> (hm_occurred_at (snd x) = hm_occurred_at (snd c) \<and> fst x < fst c))"

definition newest :: "nat \<Rightarrow> (nat \<times> message_row) list \<Rightarrow> message_row list" where
  "newest n xs = map snd (take n (rev (order_by (\<lambda>x. hm_occurred_at (snd x)) xs)))"

definition recent_messages ::
  "string \<Rightarrow> string \<Rightarrow> int \<Rightarrow> string option \<Rightarrow> message_row list \<Rightarrow> message_row list result" where
  "recent_messages tenant source limit before_message_id rows =
     rbind (validate_scope tenant source) (\<lambda>_.
     rbind (bounded limit ''limit'' 100 1) (\<lambda>safe_limit.
     rbind (case before_message_id of
              None \<Rightarrow> Inr (\<lambda>_. True)
            | Some i \<Rightarrow>
                (case fetchone (\<lambda>x. hm_id (snd x) = i \<and> hm_in tenant source (snd x)) (with_rowid rows) of
                   None \<Rightarrow> Inl (ValueError ''before_message_id does not belong to this conversation'')
                 | Some cursor \<Rightarrow> Inr (hm_before cursor)))
       (\<lambda>before_filter.
          Inr (rev (newest (nat safe_limit)
            (select_where (\<lambda>x. hm_in tenant source (snd x) \<and> before_filter x) (with_rowid rows)))))))"

subsection \<open>Pruning\<close>

definition prune_history_before ::
  "string \<Rightarrow> string \<Rightarrow> int \<Rightarrow> int \<Rightarrow> message_row list \<Rightarrow> (nat \<times> message_row list) result" where
  "prune_history_before tenant source before limit rows =
     rbind (validate_scope tenant source) (\<lambda>_.
     rbind (bounded limit ''limit'' 10000 1) (\<lambda>safe_limit.
       let ids = map hm_id (take (nat safe_limit)
                   (order_by hm_occurred_at
                     (select_where (\<lambda>r. hm_in tenant source r \<and> hm_occurred_at r < before) rows)))
       in Inr (length ids, filter (\<lambda>r. \<not> (hm_in tenant source r \<and> hm_id r \<in> set ids)) rows)))"

subsection \<open>The invariant of the table\<close>

definition hm_inv :: "message_row list \<Rightarrow> bool" where
  "hm_inv rows \<longleftrightarrow> distinct (map hm_id rows) \<and> distinct (map hm_key rows)"

lemma hm_inv_Nil [simp]: "hm_inv []"
  by (simp add: hm_inv_def)

lemma record_message_rows:
  assumes "record_message now uuid a rows = Inr (res, rows')"
  shows "rows' = rows \<and> \<not> snd res \<or>
    rows' = rows @ [new_message_row now uuid a] \<and> res = (hm_id (new_message_row now uuid a), True)
    \<and> (\<forall>r \<in> set rows. hm_id r \<noteq> hm_id (new_message_row now uuid a)
                      \<and> hm_key r \<noteq> hm_key (new_message_row now uuid a))"
  using assms unfolding record_message_def Let_def
  by (auto simp: hm_insert_def rbind_eq_Inr split: if_splits option.splits)

lemma hm_inv_record: "hm_inv rows \<Longrightarrow> record_message now uuid a rows = Inr (res, rows') \<Longrightarrow> hm_inv rows'"
proof (drule record_message_rows, elim disjE conjE)
  assume "hm_inv rows" and "rows' = rows @ [new_message_row now uuid a]"
    and "\<forall>r \<in> set rows. hm_id r \<noteq> hm_id (new_message_row now uuid a)
                        \<and> hm_key r \<noteq> hm_key (new_message_row now uuid a)"
  then show "hm_inv rows'" by (simp add: hm_inv_def image_iff) metis
qed simp

lemma hm_by_key_iff: "hm_by_key a r \<longleftrightarrow> hm_key r = (ha_tenant_id a, ha_source_id a, ha_direction a, ha_source_message_id a)"
  by (auto simp: hm_by_key_def hm_key_def)

lemma hm_fetch_by_key:
  assumes "hm_inv rows" and "r \<in> set rows" and "hm_by_key a r"
  shows "fetchone (hm_by_key a) rows = Some r"
  by (rule fetchone_pk [where k = hm_key]) (use assms in \<open>auto simp: hm_inv_def hm_by_key_iff\<close>)

definition hm_recorded :: "message_args \<Rightarrow> message_row list \<Rightarrow> bool" where
  "hm_recorded a rows \<longleftrightarrow> validate_message a = Inr () \<and>
     (\<exists>r \<in> set rows. hm_by_key a r \<and> message_replay_matches a r)"

lemma record_message_recorded:
  assumes "hm_inv rows" and "hm_recorded a rows"
  shows "\<exists>i. record_message now uuid a rows = Inr ((i, False), rows)"
proof -
  obtain r where r: "r \<in> set rows" "hm_by_key a r" "message_replay_matches a r" and ok: "validate_message a = Inr ()"
    using assms(2) by (auto simp: hm_recorded_def)
  have "hm_insert (new_message_row now uuid a) rows = Inl IntegrityError"
    using r(1,2) by (auto simp: hm_insert_def hm_by_key_def hm_key_def new_message_row_def)
  then show ?thesis
    using ok r hm_fetch_by_key [OF assms(1) r(1,2)]
    by (simp add: record_message_def Let_def require_idempotent_replay_def)
qed

lemma record_message_records:
  assumes "record_message now uuid a rows = Inr (res, rows')" and "wf_json (message_metadata a)"
  shows "hm_recorded a rows'"
proof -
  have ok: "validate_message a = Inr ()"
    using assms(1) by (auto simp: record_message_def rbind_eq_Inr)
  show ?thesis
  proof (cases "hm_insert (new_message_row now uuid a) rows")
    case (Inr rows1)
    then have "rows' = rows @ [new_message_row now uuid a]"
      using assms(1) ok by (auto simp: record_message_def Let_def hm_insert_def split: if_splits)
    moreover have "message_replay_matches a (new_message_row now uuid a)" "hm_by_key a (new_message_row now uuid a)"
      using assms(2) by (simp_all add: message_replay_matches_def new_message_row_def hm_by_key_def)
    ultimately show ?thesis using ok by (auto simp: hm_recorded_def)
  next
    case (Inl e)
    then obtain r where "fetchone (hm_by_key a) rows = Some r" "message_replay_matches a r" "rows' = rows"
      using assms(1) ok by (auto simp: record_message_def Let_def rbind_eq_Inr require_idempotent_replay_def
          split: option.splits if_splits)
    then show ?thesis using ok by (auto simp: hm_recorded_def dest: fetchone_SomeD)
  qed
qed

text \<open>The other writes of a conversation's history are records of other messages.\<close>

definition hm_record_step :: "int \<times> string \<times> message_args \<Rightarrow> message_row list \<Rightarrow> message_row list \<Rightarrow> bool" where
  "hm_record_step l rows rows' \<longleftrightarrow> (case l of (now, uuid, a) \<Rightarrow> \<exists>res. record_message now uuid a rows = Inr (res, rows'))"

interpretation history_idem: idempotent_store hm_inv "\<lambda>a. wf_json (message_metadata a)"
    "\<lambda>a (now, uuid). record_message now uuid a" hm_recorded hm_record_step
proof (unfold_locales, goal_cases)
  case (3 s a e)
  then show ?case using record_message_recorded [of s a] by (cases e) fastforce
next
  case (5 s l s' a)
  then show ?case
    by (auto simp: hm_record_step_def hm_recorded_def dest!: record_message_rows split: prod.splits)
qed (auto simp: hm_record_step_def intro: hm_inv_record record_message_records)

subsection \<open>Pages of the history\<close>

text \<open>A conversation's messages in chronological order, ties in the order of recording.\<close>

definition conversation_log :: "string \<Rightarrow> string \<Rightarrow> message_row list \<Rightarrow> message_row list" where
  "conversation_log tenant source rows = order_by hm_occurred_at (filter (hm_in tenant source) rows)"

abbreviation occurred :: "nat \<times> message_row \<Rightarrow> int" where
  "occurred x \<equiv> hm_occurred_at (snd x)"

lemma insort_before:
  assumes "sorted_wrt (\<lambda>x y. hm_before y x) ys" and "\<forall>y \<in> set ys. fst x < fst y"
  shows "sorted_wrt (\<lambda>x y. hm_before y x) (insort_key occurred x ys)"
  using assms
proof (induction ys)
  case (Cons y ys)
  have ys: "\<forall>z \<in> set ys. hm_before z y" using Cons.prems(1) by simp
  show ?case
  proof (cases "occurred x \<le> occurred y")
    case True
    have "hm_before z x" if "z \<in> set (y # ys)" for z
    proof -
      have "occurred y \<le> occurred z" using ys that by (auto simp: hm_before_def)
      with True Cons.prems(2) that show ?thesis unfolding hm_before_def by fastforce
    qed
    with True Cons.prems show ?thesis by simp
  next
    case False
    then have "hm_before z y" if "z \<in> set (insort_key occurred x ys)" for z
      using ys that unfolding set_insort_key by (auto simp: hm_before_def)
    with False Cons show ?thesis by simp
  qed
qed simp

lemma order_by_occurred_sorted:
  "sorted_wrt (<) (map fst xs) \<Longrightarrow> sorted_wrt (\<lambda>x y. hm_before y x) (order_by occurred xs)"
proof (induction xs)
  case (Cons x xs)
  then have "\<forall>y \<in> set (order_by occurred xs). fst x < fst y" by auto
  then have "sorted_wrt (\<lambda>x y. hm_before y x) (insort_key occurred x (order_by occurred xs))"
    using Cons by (intro insort_before) auto
  then show ?case by (simp add: order_by_def)
qed (simp add: order_by_def)

lemma sorted_with_rowid: "sorted_wrt (<) (map fst (filter p (with_rowid rows)))"
proof -
  have "sorted_wrt (<) (map fst (with_rowid rows))" by (simp add: with_rowid_def)
  then show ?thesis by (simp add: sorted_wrt_map sorted_wrt_filter)
qed

lemma insort_map_snd: "map snd (insort_key occurred x xs) = insort_key hm_occurred_at (snd x) (map snd xs)"
  by (induction xs) auto

lemma order_by_map_snd: "map snd (order_by occurred xs) = order_by hm_occurred_at (map snd xs)"
  unfolding order_by_def by (induction xs) (auto simp: insort_map_snd)

lemma filter_snd_zip: "length ns = length rows \<Longrightarrow> map snd (filter (\<lambda>x. p (snd x)) (zip ns rows)) = filter p rows"
  by (induction ns rows rule: list_induct2) auto

lemma map_id_with_rowid: "map (\<lambda>x. hm_id (snd x)) (with_rowid rows) = map hm_id rows"
proof -
  have "map snd (with_rowid rows) = rows" by (simp add: with_rowid_def)
  then have "map hm_id (map snd (with_rowid rows)) = map hm_id rows" by (rule arg_cong)
  then show ?thesis by (simp add: comp_def)
qed

definition conversation_index :: "string \<Rightarrow> string \<Rightarrow> message_row list \<Rightarrow> (nat \<times> message_row) list" where
  "conversation_index tenant source rows =
     order_by occurred (filter (\<lambda>x. hm_in tenant source (snd x)) (with_rowid rows))"

lemma map_snd_conversation_index: "map snd (conversation_index tn src rows) = conversation_log tn src rows"
  by (simp add: conversation_index_def conversation_log_def order_by_map_snd with_rowid_def filter_snd_zip)

lemma filter_before_prefix:
  assumes "sorted_wrt (\<lambda>x y. hm_before y x) xs" and "j < length xs"
  shows "filter (hm_before (xs ! j)) xs = take j xs"
proof -
  have "hm_before (xs ! j) (xs ! i)" if "i < j" for i
    using assms that by (simp add: sorted_wrt_iff_nth_less)
  then have "\<forall>x \<in> set (take j xs). hm_before (xs ! j) x"
    using assms(2) by (simp add: all_set_conv_all_nth)
  then have front: "filter (hm_before (xs ! j)) (take j xs) = take j xs"
    by (simp add: filter_id_conv)
  have "\<not> hm_before (xs ! j) (xs ! (j + i))" if "j + i < length xs" for i
  proof (cases "i = 0")
    case False
    then have "hm_before (xs ! (j + i)) (xs ! j)" using assms(1) that by (simp add: sorted_wrt_iff_nth_less)
    then show ?thesis by (auto simp: hm_before_def)
  qed (simp add: hm_before_def)
  then have "\<forall>x \<in> set (drop j xs). \<not> hm_before (xs ! j) x"
    using assms(2) by (simp add: all_set_conv_all_nth)
  then have "filter (hm_before (xs ! j)) (drop j xs) = []"
    by (simp add: filter_empty_conv)
  with front show ?thesis
    using filter_append [of "hm_before (xs ! j)" "take j xs" "drop j xs"] by simp
qed

lemma newest_last: "rev (newest n xs) = (let L = map snd (order_by occurred xs) in drop (length L - n) L)"
  by (simp add: newest_def Let_def drop_map rev_map take_rev)

lemma recent_messages_last:
  assumes "\<not> blank tn" and "\<not> blank src" and "1 \<le> n" and "n \<le> 100"
  shows "recent_messages tn src n None rows =
    Inr (let L = conversation_log tn src rows in drop (length L - nat n) L)"
  using assms map_snd_conversation_index [of tn src rows]
  by (simp add: recent_messages_def validate_scope_def bounded_def newest_last select_where_def
      conversation_index_def Let_def del: length_map length_order_by)

lemma recent_messages_before:
  assumes "hm_inv rows" and "\<not> blank tn" and "\<not> blank src" and "1 \<le> n" and "n \<le> 100"
    and "j < length (conversation_log tn src rows)"
  shows "recent_messages tn src n (Some (hm_id (conversation_log tn src rows ! j))) rows =
    Inr (drop (j - nat n) (take j (conversation_log tn src rows)))"
proof -
  let ?X = "conversation_index tn src rows" and ?L = "conversation_log tn src rows"
  have len: "length ?X = length ?L" using map_snd_conversation_index [of tn src rows] by (metis length_map)
  have nth: "snd (?X ! j) = ?L ! j"
    using assms(6) len map_snd_conversation_index [of tn src rows] by (metis nth_map)
  have cursor: "?X ! j \<in> set (with_rowid rows)" "hm_in tn src (snd (?X ! j))"
    using assms(6) len nth_mem [of j ?X] by (auto simp: conversation_index_def)
  have "distinct (map (\<lambda>x. hm_id (snd x)) (with_rowid rows))"
    using assms(1) unfolding map_id_with_rowid by (simp add: hm_inv_def)
  then have fetch: "fetchone (\<lambda>x. hm_id (snd x) = hm_id (?L ! j) \<and> hm_in tn src (snd x)) (with_rowid rows) = Some (?X ! j)"
    using cursor nth by (intro fetchone_pk [where k = "\<lambda>x. hm_id (snd x)"]) auto
  have "order_by occurred (filter (\<lambda>x. hm_in tn src (snd x) \<and> hm_before (?X ! j) x) (with_rowid rows))
      = filter (hm_before (?X ! j)) ?X"
    by (simp add: conversation_index_def order_by_filter [symmetric] conj_commute)
  also have "\<dots> = take j ?X"
    using assms(6) len order_by_occurred_sorted [OF sorted_with_rowid]
    by (intro filter_before_prefix) (auto simp: conversation_index_def)
  finally have "map snd (order_by occurred
      (filter (\<lambda>x. hm_in tn src (snd x) \<and> hm_before (?X ! j) x) (with_rowid rows))) = take j ?L"
    using map_snd_conversation_index [of tn src rows] by (simp flip: take_map)
  then show ?thesis
    using assms fetch
    by (simp add: recent_messages_def validate_scope_def bounded_def newest_last select_where_def Let_def
        del: length_map length_order_by)
qed

subsection \<open>Pruning cuts the log at its front\<close>

lemma filter_less_sorted: "sorted (map f xs) \<Longrightarrow> filter (\<lambda>x. f x < (b::int)) xs = takeWhile (\<lambda>x. f x < b) xs"
proof (induction xs)
  case (Cons x xs)
  show ?case
  proof (cases "f x < b")
    case False
    with Cons.prems have "\<forall>y \<in> set xs. \<not> f y < b" by fastforce
    then show ?thesis using False by (simp add: filter_empty_conv)
  qed (use Cons in simp)
qed simp

lemma take_takeWhile: "take n (takeWhile P xs) = take (min n (length (takeWhile P xs))) xs"
  by (metis min.commute take_all take_take takeWhile_eq_take linorder_linear)

lemma filter_not_take:
  assumes "distinct (map k xs)"
  shows "filter (\<lambda>x. k x \<notin> set (map k (take n xs))) xs = drop n xs"
proof -
  have d: "distinct (map k (take n xs) @ map k (drop n xs))"
    using assms by (metis append_take_drop_id map_append)
  then have "filter (\<lambda>x. k x \<notin> set (map k (take n xs))) (drop n xs) = drop n xs"
    by (auto simp: filter_id_conv)
  moreover have "filter (\<lambda>x. k x \<notin> set (map k (take n xs))) (take n xs) = []"
    by (auto simp: filter_empty_conv)
  ultimately show ?thesis by (metis append_Nil append_take_drop_id filter_append)
qed

definition messages_before :: "string \<Rightarrow> string \<Rightarrow> int \<Rightarrow> message_row list \<Rightarrow> nat" where
  "messages_before tenant source before rows =
     length (filter (\<lambda>r. hm_in tenant source r \<and> hm_occurred_at r < before) rows)"

lemma prune_ids:
  "order_by hm_occurred_at (filter (\<lambda>r. hm_in tn src r \<and> hm_occurred_at r < b) rows)
     = takeWhile (\<lambda>r. hm_occurred_at r < b) (conversation_log tn src rows)"
proof -
  have "filter (\<lambda>r. hm_in tn src r \<and> hm_occurred_at r < b) rows
      = filter (\<lambda>r. hm_occurred_at r < b) (filter (hm_in tn src) rows)"
    by (auto intro: filter_cong)
  then have "order_by hm_occurred_at (filter (\<lambda>r. hm_in tn src r \<and> hm_occurred_at r < b) rows)
      = filter (\<lambda>r. hm_occurred_at r < b) (conversation_log tn src rows)"
    by (simp only: order_by_filter conversation_log_def)
  then show ?thesis by (simp add: filter_less_sorted conversation_log_def)
qed

lemma distinct_log: "hm_inv rows \<Longrightarrow> distinct (map hm_id (conversation_log tn src rows))"
  by (simp add: conversation_log_def distinct_order_by hm_inv_def distinct_map_filter)

lemma prune_cuts_log:
  assumes "hm_inv rows" and "\<not> blank tn" and "\<not> blank src" and "1 \<le> n" and "n \<le> 10000"
  shows "\<exists>k rows'. prune_history_before tn src b n rows = Inr (k, rows')
    \<and> k = min (nat n) (messages_before tn src b rows)
    \<and> conversation_log tn src rows' = drop k (conversation_log tn src rows)
    \<and> filter (\<lambda>r. \<not> hm_in tn src r) rows' = filter (\<lambda>r. \<not> hm_in tn src r) rows"
proof -
  let ?L = "conversation_log tn src rows" and ?old = "\<lambda>r. hm_occurred_at r < b"
  define k where "k = min (nat n) (messages_before tn src b rows)"
  have len: "length (takeWhile ?old ?L) = messages_before tn src b rows"
    using arg_cong [OF prune_ids [of tn src b rows], of length] by (simp add: messages_before_def)
  define ids where "ids = map hm_id (take k ?L)"
  define rows' where "rows' = filter (\<lambda>r. \<not> (hm_in tn src r \<and> hm_id r \<in> set ids)) rows"
  have "prune_history_before tn src b n rows = Inr (length ids, rows')"
    using assms take_takeWhile [of "nat n" ?old ?L]
    by (simp add: prune_history_before_def validate_scope_def bounded_def select_where_def prune_ids
        Let_def rows'_def ids_def k_def len del: length_map length_take)
  moreover have "length ids = k"
    using length_takeWhile_le [of ?old ?L] by (simp add: ids_def k_def len)
  moreover have "filter (hm_in tn src) rows' = filter (\<lambda>r. hm_id r \<notin> set ids) (filter (hm_in tn src) rows)"
    unfolding rows'_def by (auto intro: filter_cong)
  then have "conversation_log tn src rows' = filter (\<lambda>r. hm_id r \<notin> set ids) ?L"
    by (simp only: conversation_log_def order_by_filter)
  then have "conversation_log tn src rows' = drop k ?L"
    unfolding ids_def by (simp only: filter_not_take [OF distinct_log [OF assms(1)]])
  moreover have "filter (\<lambda>r. \<not> hm_in tn src r) rows' = filter (\<lambda>r. \<not> hm_in tn src r) rows"
    unfolding rows'_def by (auto intro: filter_cong)
  ultimately show ?thesis by (auto simp: k_def)
qed

subsection \<open>Properties\<close>

text \<open>C25: Pages of the history are exact: the newest page is the last \<open>n\<close> messages of the conversation's
  chronological log, and the page before the message at position \<open>j\<close> of the log is the (at most \<open>n\<close>)
  messages right before it, so that walking back page by page reads every message once, in order.\<close>

theorem recent_messages_pages:
  assumes "hm_inv rows" and "\<not> blank tn" and "\<not> blank src" and "1 \<le> n" and "n \<le> 100"
    and "j < length (conversation_log tn src rows)"
  shows "recent_messages tn src n None rows =
      Inr (drop (length (conversation_log tn src rows) - nat n) (conversation_log tn src rows))
    \<and> recent_messages tn src n (Some (hm_id (conversation_log tn src rows ! j))) rows =
      Inr (drop (j - nat n) (take j (conversation_log tn src rows)))"
  using recent_messages_last [OF assms(2-5)] recent_messages_before [OF assms] by (simp add: Let_def)

definition demo_message :: "string \<Rightarrow> int \<Rightarrow> message_args" where
  "demo_message key t = \<lparr>ha_tenant_id = ''t'', ha_source_id = ''s'', ha_channel = ''telegram'',
     ha_direction = ''inbound'', ha_text = ''hi'', ha_source_message_id = key, ha_occurred_at = t,
     ha_author_id = Some ''u'', ha_author_username = Some ''@user'', ha_author_display_name = None,
     ha_source_event_id = None, ha_metadata = None\<rparr>"

definition demo_messages :: "message_row list" where
  "demo_messages = [new_message_row 5 ''a'' (demo_message ''k1'' 10), new_message_row 5 ''b'' (demo_message ''k2'' 7),
     new_message_row 5 ''c'' (demo_message ''k3'' 10)]"

lemma demo_messages_inv: "hm_inv demo_messages"
  by (simp add: hm_inv_def demo_messages_def new_message_row_def hm_key_def demo_message_def)

lemma demo_not_blank: "\<not> blank ''t''" "\<not> blank ''s''"
  by (simp_all add: blank_def is_space_def py_whitespace_def)

lemma demo_log: "map hm_id (conversation_log ''t'' ''s'' demo_messages) = [''history_b'', ''history_a'', ''history_c'']"
  by (simp add: conversation_log_def order_by_def demo_messages_def new_message_row_def demo_message_def hm_in_def)

theorem recent_messages_pages_witness:
  "recent_messages ''t'' ''s'' 1 None demo_messages =
      Inr (drop (length (conversation_log ''t'' ''s'' demo_messages) - nat 1) (conversation_log ''t'' ''s'' demo_messages))
    \<and> recent_messages ''t'' ''s'' 1 (Some (hm_id (conversation_log ''t'' ''s'' demo_messages ! 2))) demo_messages =
      Inr (drop (2 - nat 1) (take 2 (conversation_log ''t'' ''s'' demo_messages)))"
proof -
  have "length (conversation_log ''t'' ''s'' demo_messages) = 3"
    using arg_cong [OF demo_log, of length] by simp
  then show ?thesis
    by (intro recent_messages_pages demo_messages_inv demo_not_blank) simp_all
qed

text \<open>Pruning removes the oldest messages of one conversation and nothing else: exactly
  \<open>min limit (number of that conversation's messages before the date)\<close> rows go, they are the front
  of the conversation's chronological log, and every other conversation's rows stay as they were.\<close>

theorem prune_history_cuts_oldest:
  assumes "hm_inv rows" and "\<not> blank tn" and "\<not> blank src" and "1 \<le> n" and "n \<le> 10000"
  shows "\<exists>k rows'. prune_history_before tn src b n rows = Inr (k, rows')
    \<and> k = min (nat n) (messages_before tn src b rows)
    \<and> conversation_log tn src rows' = drop k (conversation_log tn src rows)
    \<and> filter (\<lambda>r. \<not> hm_in tn src r) rows' = filter (\<lambda>r. \<not> hm_in tn src r) rows"
  by (rule prune_cuts_log) (rule assms)+

theorem prune_history_cuts_oldest_witness:
  "\<exists>k rows'. prune_history_before ''t'' ''s'' 10 5 demo_messages = Inr (k, rows')
    \<and> k = min (nat 5) (messages_before ''t'' ''s'' 10 demo_messages)
    \<and> conversation_log ''t'' ''s'' rows' = drop k (conversation_log ''t'' ''s'' demo_messages)
    \<and> filter (\<lambda>r. \<not> hm_in ''t'' ''s'' r) rows' = filter (\<lambda>r. \<not> hm_in ''t'' ''s'' r) demo_messages"
  by (intro prune_history_cuts_oldest demo_messages_inv demo_not_blank) simp_all

end
