(* ===== verification/Dialogue_Tables.thy ===== *)
theory Dialogue_Tables
  imports History
begin

section \<open>The tables of a conversation\<close>

text \<open>
  The dialogue tables (migrations 029 and 030) with their constraints, and the outbound queue's table
  (migrations 015, 017, 023, 029 and 030), which the outbound store and the dialogue store both write.
  Foreign keys are enforced (\<open>PRAGMA foreign_keys=ON\<close> in \<open>storage/sqlite.py\<close>).  The
  \<open>AUTOINCREMENT\<close> columns \<open>sequence\<close> are positions in the row lists: no statement deletes a dialogue row.
\<close>

subsection \<open>Rows\<close>

datatype task_state = TaskActive | TaskClosed | TaskCancelled

record task_row =
  dt_id :: string
  dt_tenant_id :: string
  dt_source_id :: string
  dt_title :: string
  dt_original_request :: string
  dt_status :: task_state
  dt_revision :: int
  dt_created_at :: int
  dt_updated_at :: int
  dt_terminal_at :: "int option"

record question_candidate =
  qc_task_id :: string
  qc_title :: string
  qc_revision :: int
  qc_excerpt :: "string option"

datatype question_state = QPending | QResolved

record question_row =
  dq_id :: string
  dq_tenant_id :: string
  dq_source_id :: string
  dq_actor_id :: string
  dq_text :: string
  dq_status :: question_state
  dq_revision :: int
  dq_candidates_json :: "question_candidate list"
  dq_has_more_candidates :: bool
  dq_resolved_task_id :: "string option"
  dq_created_at :: int
  dq_resolved_at :: "int option"

record plan_row =
  dp_tenant_id :: string
  dp_source_id :: string
  dp_plan_id :: string
  dp_fingerprint :: string
  dp_plan_json :: json
  dp_result_json :: json
  dp_created_at :: int

record input_row =
  di_input_id :: string
  di_tenant_id :: string
  di_source_id :: string
  di_actor_id :: string
  di_text :: string
  di_occurred_at :: int
  di_channel :: string
  di_source_message_id :: "string option"
  di_reply_to_message_id :: "string option"
  di_message_thread_id :: "string option"
  di_task_id :: "string option"
  di_question_id :: "string option"
  di_plan_id :: string
  di_created_at :: int

datatype role = User | Assistant

record dialogue_message_row =
  dm_message_id :: string
  dm_tenant_id :: string
  dm_source_id :: string
  dm_task_id :: string
  dm_role :: role
  dm_actor_id :: "string option"
  dm_text :: string
  dm_occurred_at :: int
  dm_input_id :: "string option"
  dm_source_message_id :: "string option"

record focus_row =
  df_tenant_id :: string
  df_source_id :: string
  df_actor_id :: string
  df_task_id :: string
  df_updated_at :: int

record reference_row =
  dr_tenant_id :: string
  dr_source_id :: string
  dr_channel :: string
  dr_external_message_id :: string
  dr_outbound_message_id :: string
  dr_task_id :: "string option"
  dr_question_id :: "string option"
  dr_question_revision :: "int option"
  dr_confirmed_at :: int

datatype ob_state =
  ObQueued | ObLeased | ObSending | ObSent | ObRetrying | ObUncertain | ObDeadLetter | ObCancelled

record outbound_row =
  ob_id :: string
  ob_tenant_id :: string
  ob_source_id :: string
  ob_channel :: string
  ob_destination_id :: string
  ob_text :: string
  ob_payload_json :: stored_json
  ob_status :: ob_state
  ob_priority :: int
  ob_run_after :: int
  ob_lease_owner :: "string option"
  ob_lease_until :: "int option"
  ob_lease_token :: "string option"
  ob_attempts :: int
  ob_max_attempts :: int
  ob_idempotency_key :: string
  ob_idempotency_fingerprint :: "string option"
  ob_correlation_id :: "string option"
  ob_ordering_key :: "string option"
  ob_ordering_position :: "int option"
  ob_task_id :: "string option"
  ob_task_revision :: "int option"
  ob_routing_question_id :: "string option"
  ob_routing_question_revision :: "int option"
  ob_reply_to_message_id :: "int option"
  ob_message_thread_id :: "int option"
  ob_last_error :: "string option"
  ob_sent_at :: "int option"
  ob_result_json :: "json option"
  ob_created_at :: int
  ob_updated_at :: int

record conv_db =
  db_tasks :: "task_row list"
  db_questions :: "question_row list"
  db_plans :: "plan_row list"
  db_inputs :: "input_row list"
  db_messages :: "dialogue_message_row list"
  db_focus :: "focus_row list"
  db_refs :: "reference_row list"
  db_outbound :: "outbound_row list"
  db_history :: "message_row list"

definition empty_conv_db :: conv_db where
  "empty_conv_db = \<lparr>db_tasks = [], db_questions = [], db_plans = [], db_inputs = [], db_messages = [],
     db_focus = [], db_refs = [], db_outbound = [], db_history = []\<rparr>"

subsection \<open>Rows of one conversation\<close>

definition task_in :: "string \<Rightarrow> string \<Rightarrow> string \<Rightarrow> task_row \<Rightarrow> bool" where
  "task_in tenant source task_id r = (dt_tenant_id r = tenant \<and> dt_source_id r = source \<and> dt_id r = task_id)"

definition question_in :: "string \<Rightarrow> string \<Rightarrow> string \<Rightarrow> question_row \<Rightarrow> bool" where
  "question_in tenant source question_id r =
     (dq_tenant_id r = tenant \<and> dq_source_id r = source \<and> dq_id r = question_id)"

definition task_current :: "int option \<Rightarrow> task_row \<Rightarrow> bool" where
  "task_current revision r = (dt_status r = TaskActive \<and> revision = Some (dt_revision r))"

definition question_current :: "int option \<Rightarrow> question_row \<Rightarrow> bool" where
  "question_current revision r = (dq_status r = QPending \<and> revision = Some (dq_revision r))"

text \<open>The foreign keys \<open>(tenant_id, source_id, task_id)\<close> and \<open>(tenant_id, source_id, question_id)\<close>;
  a \<open>NULL\<close> satisfies them.\<close>

definition fk_task :: "conv_db \<Rightarrow> string \<Rightarrow> string \<Rightarrow> string option \<Rightarrow> bool" where
  "fk_task db tenant source t = (case t of None \<Rightarrow> True
     | Some i \<Rightarrow> fetchone (task_in tenant source i) (db_tasks db) \<noteq> None)"

definition fk_question :: "conv_db \<Rightarrow> string \<Rightarrow> string \<Rightarrow> string option \<Rightarrow> bool" where
  "fk_question db tenant source q = (case q of None \<Rightarrow> True
     | Some i \<Rightarrow> fetchone (question_in tenant source i) (db_questions db) \<noteq> None)"

definition fk_input :: "conv_db \<Rightarrow> string \<Rightarrow> string \<Rightarrow> string option \<Rightarrow> bool" where
  "fk_input db tenant source i = (case i of None \<Rightarrow> True
     | Some k \<Rightarrow> (\<exists>r \<in> set (db_inputs db). di_tenant_id r = tenant \<and> di_source_id r = source \<and> di_input_id r = k))"

subsection \<open>Inserts\<close>

definition insert_task :: "task_row \<Rightarrow> conv_db \<Rightarrow> conv_db result" where
  "insert_task n db =
     (if \<exists>r \<in> set (db_tasks db). dt_id r = dt_id n then Inl IntegrityError
      else Inr (db\<lparr>db_tasks := db_tasks db @ [n]\<rparr>))"

definition insert_question :: "question_row \<Rightarrow> conv_db \<Rightarrow> conv_db result" where
  "insert_question n db =
     (if \<exists>r \<in> set (db_questions db). dq_id r = dq_id n then Inl IntegrityError
      else Inr (db\<lparr>db_questions := db_questions db @ [n]\<rparr>))"

definition di_key :: "input_row \<Rightarrow> string \<times> string \<times> string" where
  "di_key r = (di_tenant_id r, di_source_id r, di_input_id r)"

definition di_source_key :: "input_row \<Rightarrow> (string \<times> string \<times> string \<times> string) option" where
  "di_source_key r = (case di_source_message_id r of None \<Rightarrow> None
     | Some m \<Rightarrow> Some (di_tenant_id r, di_source_id r, di_channel r, m))"

definition insert_input_row :: "input_row \<Rightarrow> conv_db \<Rightarrow> conv_db result" where
  "insert_input_row n db =
     (if (\<exists>r \<in> set (db_inputs db). di_key r = di_key n
            \<or> di_source_key n \<noteq> None \<and> di_source_key r = di_source_key n)
         \<or> di_task_id n = None \<and> di_question_id n = None
         \<or> \<not> fk_task db (di_tenant_id n) (di_source_id n) (di_task_id n)
         \<or> \<not> fk_question db (di_tenant_id n) (di_source_id n) (di_question_id n)
      then Inl IntegrityError
      else Inr (db\<lparr>db_inputs := db_inputs db @ [n]\<rparr>))"

definition dm_key :: "dialogue_message_row \<Rightarrow> string \<times> string \<times> string" where
  "dm_key r = (dm_tenant_id r, dm_source_id r, dm_message_id r)"

definition dm_input_key :: "dialogue_message_row \<Rightarrow> (string \<times> string \<times> string) option" where
  "dm_input_key r = (case dm_input_id r of None \<Rightarrow> None | Some i \<Rightarrow> Some (dm_tenant_id r, dm_source_id r, i))"

definition insert_dialogue_message :: "dialogue_message_row \<Rightarrow> conv_db \<Rightarrow> conv_db result" where
  "insert_dialogue_message n db =
     (if (\<exists>r \<in> set (db_messages db). dm_key r = dm_key n
            \<or> dm_input_key n \<noteq> None \<and> dm_input_key r = dm_input_key n)
         \<or> \<not> fk_task db (dm_tenant_id n) (dm_source_id n) (Some (dm_task_id n))
         \<or> \<not> fk_input db (dm_tenant_id n) (dm_source_id n) (dm_input_id n)
      then Inl IntegrityError
      else Inr (db\<lparr>db_messages := db_messages db @ [n]\<rparr>))"

definition dr_key :: "reference_row \<Rightarrow> string \<times> string \<times> string \<times> string" where
  "dr_key r = (dr_tenant_id r, dr_source_id r, dr_channel r, dr_external_message_id r)"

definition dr_outbound_key :: "reference_row \<Rightarrow> string \<times> string \<times> string" where
  "dr_outbound_key r = (dr_tenant_id r, dr_source_id r, dr_outbound_message_id r)"

definition insert_reference :: "reference_row \<Rightarrow> conv_db \<Rightarrow> conv_db result" where
  "insert_reference n db =
     (if (\<exists>r \<in> set (db_refs db). dr_key r = dr_key n \<or> dr_outbound_key r = dr_outbound_key n)
         \<or> (dr_task_id n = None) = (dr_question_id n = None)
         \<or> \<not> fk_task db (dr_tenant_id n) (dr_source_id n) (dr_task_id n)
         \<or> \<not> fk_question db (dr_tenant_id n) (dr_source_id n) (dr_question_id n)
      then Inl IntegrityError
      else Inr (db\<lparr>db_refs := db_refs db @ [n]\<rparr>))"

definition insert_plan_row :: "plan_row \<Rightarrow> conv_db \<Rightarrow> conv_db result" where
  "insert_plan_row n db =
     (if \<exists>r \<in> set (db_plans db). dp_tenant_id r = dp_tenant_id n \<and> dp_source_id r = dp_source_id n
            \<and> dp_plan_id r = dp_plan_id n
      then Inl IntegrityError
      else Inr (db\<lparr>db_plans := db_plans db @ [n]\<rparr>))"

text \<open>\<open>UNIQUE\<close> keys of the outbound table: the id, the idempotency key of a conversation and the
  position in an ordered sequence.\<close>

definition ob_key :: "outbound_row \<Rightarrow> string \<times> string \<times> string" where
  "ob_key r = (ob_tenant_id r, ob_source_id r, ob_idempotency_key r)"

definition ob_lane :: "outbound_row \<Rightarrow> (string \<times> string \<times> string \<times> string \<times> int) option" where
  "ob_lane r = (case (ob_ordering_key r, ob_ordering_position r) of
     (Some k, Some p) \<Rightarrow> Some (ob_tenant_id r, ob_source_id r, ob_channel r, k, p)
   | _ \<Rightarrow> None)"

definition insert_outbound :: "outbound_row \<Rightarrow> conv_db \<Rightarrow> conv_db result" where
  "insert_outbound n db =
     (if \<exists>r \<in> set (db_outbound db). ob_id r = ob_id n \<or> ob_key r = ob_key n
            \<or> ob_lane n \<noteq> None \<and> ob_lane r = ob_lane n
      then Inl IntegrityError
      else Inr (db\<lparr>db_outbound := db_outbound db @ [n]\<rparr>))"

text \<open>Clearing a lease while setting a status.\<close>

definition ob_release :: "ob_state \<Rightarrow> string option \<Rightarrow> int \<Rightarrow> outbound_row \<Rightarrow> outbound_row" where
  "ob_release st err now r = r\<lparr>ob_status := st, ob_last_error := err, ob_lease_owner := None,
     ob_lease_until := None, ob_lease_token := None, ob_updated_at := now\<rparr>"

lemmas insert_defs = insert_task_def insert_question_def insert_input_row_def insert_dialogue_message_def
  insert_reference_def insert_plan_row_def insert_outbound_def

end
