(* ===== verification/Outbound.thy ===== *)
theory Outbound
  imports Dialogue_Tables Event_Queue
begin

section \<open>The outbound queue\<close>

text \<open>
  Models \<open>outbound/store.py\<close> and the validated data of \<open>outbound/contracts.py\<close>: messages to a channel are
  enqueued under an idempotency key, optionally at a position of an ordered sequence and on behalf of
  a dialogue task or routing question; claimed under a lease; admitted to sending only while the task
  or question is current; and settled.  A confirmed send is recorded in the conversation history
  and projected into the dialogue in the same transaction.
\<close>

subsection \<open>Requests\<close>

record task_reference =
  tr_task_id :: "string option"
  tr_task_revision :: "int option"
  tr_routing_question_id :: "string option"
  tr_routing_question_revision :: "int option"

definition positive_opt :: "int option \<Rightarrow> bool" where
  "positive_opt v = (case v of None \<Rightarrow> False | Some n \<Rightarrow> n \<ge> 1)"

text \<open>The constructor \<open>OutboundTaskReference\<close>; a question reference without a revision is bound to
  the first generation.\<close>

definition OutboundTaskReference ::
  "string option \<Rightarrow> int option \<Rightarrow> string option \<Rightarrow> int option \<Rightarrow> task_reference result" where
  "OutboundTaskReference task_id task_revision question_id question_revision =
     (if (task_id = None) = (question_id = None)
      then Inl (ValueError ''exactly one of task_id or routing_question_id is required'')
      else case task_id of
        Some t \<Rightarrow>
          if blank t \<or> \<not> positive_opt task_revision \<or> question_revision \<noteq> None
          then Inl (ValueError ''task references require a task_id and positive task_revision'')
          else Inr \<lparr>tr_task_id = task_id, tr_task_revision = task_revision,
                    tr_routing_question_id = question_id, tr_routing_question_revision = None\<rparr>
      | None \<Rightarrow>
          if task_revision \<noteq> None \<or> blank_opt question_id
          then Inl (ValueError ''routing question references require only routing_question_id'')
          else if question_revision \<noteq> None \<and> \<not> positive_opt question_revision
          then Inl (ValueError ''routing question references require a positive revision'')
          else Inr \<lparr>tr_task_id = None, tr_task_revision = None, tr_routing_question_id = question_id,
                    tr_routing_question_revision = (case question_revision of None \<Rightarrow> Some 1 | Some n \<Rightarrow> Some n)\<rparr>)"

record outbound_request =
  or_tenant_id :: string
  or_source_id :: string
  or_channel :: string
  or_destination_id :: string
  or_text :: string
  or_idempotency_key :: string
  or_payload :: "json option"
  or_priority :: int
  or_run_after :: "int option"
  or_max_attempts :: int
  or_correlation_id :: "string option"
  or_ordering_key :: "string option"
  or_ordering_position :: "int option"
  or_task_reference :: "task_reference option"
  or_reply_to_message_id :: "int option"
  or_message_thread_id :: "int option"

definition ref_task_id :: "outbound_request \<Rightarrow> string option" where
  "ref_task_id a = (case or_task_reference a of None \<Rightarrow> None | Some t \<Rightarrow> tr_task_id t)"

definition ref_task_revision :: "outbound_request \<Rightarrow> int option" where
  "ref_task_revision a = (case or_task_reference a of None \<Rightarrow> None | Some t \<Rightarrow> tr_task_revision t)"

definition ref_question_id :: "outbound_request \<Rightarrow> string option" where
  "ref_question_id a = (case or_task_reference a of None \<Rightarrow> None | Some t \<Rightarrow> tr_routing_question_id t)"

definition ref_question_revision :: "outbound_request \<Rightarrow> int option" where
  "ref_question_revision a = (case or_task_reference a of None \<Rightarrow> None | Some t \<Rightarrow> tr_routing_question_revision t)"

definition outbound_payload :: "outbound_request \<Rightarrow> json" where
  "outbound_payload a = (case or_payload a of None \<Rightarrow> JObj [] | Some p \<Rightarrow> p)"

subsection \<open>Fingerprints\<close>

text \<open>The fields that every version fingerprinted, and what later versions added to them.\<close>

definition pre_dialogue_fields :: "outbound_request \<Rightarrow> (string \<times> json) list" where
  "pre_dialogue_fields a =
    [(''channel'', JStr (or_channel a)),
     (''destination_id'', JStr (or_destination_id a)),
     (''text'', JStr (or_text a)),
     (''payload'', outbound_payload a),
     (''priority'', JInt (or_priority a)),
     (''run_after'', opt_int (or_run_after a)),
     (''max_attempts'', JInt (or_max_attempts a)),
     (''correlation_id'', opt_str (or_correlation_id a)),
     (''ordering_key'', opt_str (or_ordering_key a)),
     (''ordering_position'', opt_int (or_ordering_position a))]"

definition outbound_command :: "outbound_request \<Rightarrow> json" where
  "outbound_command a = JObj (pre_dialogue_fields a @
    [(''task_id'', opt_str (ref_task_id a)),
     (''task_revision'', opt_int (ref_task_revision a)),
     (''routing_question_id'', opt_str (ref_question_id a)),
     (''routing_question_revision'', opt_int (ref_question_revision a)),
     (''reply_to_message_id'', opt_int (or_reply_to_message_id a)),
     (''message_thread_id'', opt_int (or_message_thread_id a))])"

definition legacy_command :: "outbound_request \<Rightarrow> json" where
  "legacy_command a = JObj (pre_dialogue_fields a @
    [(''task_id'', opt_str (ref_task_id a)),
     (''task_revision'', opt_int (ref_task_revision a)),
     (''routing_question_id'', opt_str (ref_question_id a)),
     (''reply_to_message_id'', opt_int (or_reply_to_message_id a)),
     (''message_thread_id'', opt_int (or_message_thread_id a))])"

definition pre_dialogue_command :: "outbound_request \<Rightarrow> json" where
  "pre_dialogue_command a = JObj (pre_dialogue_fields a)"

definition has_no_dialogue_or_reply_fields :: "outbound_row \<Rightarrow> outbound_request \<Rightarrow> bool" where
  "has_no_dialogue_or_reply_fields existing a =
     (or_task_reference a = None \<and> or_reply_to_message_id a = None \<and> or_message_thread_id a = None
      \<and> ob_task_id existing = None \<and> ob_task_revision existing = None
      \<and> ob_routing_question_id existing = None \<and> ob_routing_question_revision existing = None
      \<and> ob_reply_to_message_id existing = None \<and> ob_message_thread_id existing = None)"

definition expected_question_revision :: "outbound_request \<Rightarrow> int option" where
  "expected_question_revision a = (if ref_question_id a \<noteq> None then ref_question_revision a else None)"

definition outbound_fingerprint_matches :: "(string \<Rightarrow> string) \<Rightarrow> outbound_request \<Rightarrow> outbound_row \<Rightarrow> string \<Rightarrow> bool" where
  "outbound_fingerprint_matches sha a existing stored =
     (stored = idempotency_fingerprint sha (outbound_command a)
      \<or> (stored = idempotency_fingerprint sha (legacy_command a)
         \<and> ob_routing_question_revision existing = expected_question_revision a)
      \<or> (has_no_dialogue_or_reply_fields existing a
         \<and> stored = idempotency_fingerprint sha (pre_dialogue_command a)))"

definition outbound_replay_matches :: "(string \<Rightarrow> string) \<Rightarrow> outbound_request \<Rightarrow> outbound_row \<Rightarrow> bool" where
  "outbound_replay_matches sha a existing = (case ob_idempotency_fingerprint existing of
     Some stored \<Rightarrow> outbound_fingerprint_matches sha a existing stored
   | None \<Rightarrow>
       ob_channel existing = or_channel a
       \<and> ob_destination_id existing = or_destination_id a
       \<and> ob_text existing = or_text a
       \<and> stored_json_matches (Some (ob_payload_json existing)) (outbound_payload a)
       \<and> ob_priority existing = or_priority a
       \<and> ob_max_attempts existing = or_max_attempts a
       \<and> ob_correlation_id existing = or_correlation_id a
       \<and> ob_ordering_key existing = or_ordering_key a
       \<and> ob_ordering_position existing = or_ordering_position a
       \<and> ob_task_id existing = ref_task_id a
       \<and> ob_task_revision existing = ref_task_revision a
       \<and> ob_routing_question_id existing = ref_question_id a
       \<and> ob_routing_question_revision existing = expected_question_revision a
       \<and> ob_reply_to_message_id existing = or_reply_to_message_id a
       \<and> ob_message_thread_id existing = or_message_thread_id a)"

definition require_outbound_replay :: "(string \<Rightarrow> string) \<Rightarrow> outbound_request \<Rightarrow> outbound_row \<Rightarrow> unit result" where
  "require_outbound_replay sha a existing =
     require_idempotent_replay (outbound_replay_matches sha a existing)
       ''outbound message'' (or_idempotency_key a) (ob_id existing)"

subsection \<open>Enqueueing\<close>

definition validate_telegram_reply_fields :: "int option \<Rightarrow> int option \<Rightarrow> unit result" where
  "validate_telegram_reply_fields reply thread =
     (if reply \<noteq> None \<and> \<not> positive_opt reply
      then Inl (ValueError ''reply_to_message_id must be a positive integer when provided'')
      else if thread \<noteq> None \<and> \<not> positive_opt thread
      then Inl (ValueError ''message_thread_id must be a positive integer when provided'')
      else Inr ())"

definition validate_outbound_request :: "outbound_request \<Rightarrow> unit result" where
  "validate_outbound_request a =
     (if blank (or_tenant_id a) \<or> blank (or_source_id a)
      then Inl (ValueError ''tenant_id and source_id must be non-empty'')
      else if (or_ordering_key a = None) \<noteq> (or_ordering_position a = None)
      then Inl (ValueError ''ordering_key and ordering_position must be provided together'')
      else if (case or_ordering_key a of None \<Rightarrow> False | Some k \<Rightarrow> blank k \<or> length k > 256)
      then Inl (ValueError ''ordering_key must be non-empty and at most 256 characters'')
      else if or_ordering_position a \<noteq> None \<and> \<not> positive_opt (or_ordering_position a)
      then Inl (ValueError ''ordering_position must be a positive integer'')
      else validate_telegram_reply_fields (or_reply_to_message_id a) (or_message_thread_id a))"

definition validate_task_reference :: "conv_db \<Rightarrow> string \<Rightarrow> string \<Rightarrow> task_reference \<Rightarrow> unit result" where
  "validate_task_reference db tenant source ref = (case tr_task_id ref of
     Some t \<Rightarrow>
       (case fetchone (task_in tenant source t) (db_tasks db) of
          None \<Rightarrow> Inl (DialogueConflictError ''outbound task reference is stale or outside its conversation'')
        | Some row \<Rightarrow> if task_current (tr_task_revision ref) row then Inr ()
            else Inl (DialogueConflictError ''outbound task reference is stale or outside its conversation''))
   | None \<Rightarrow>
       (case tr_routing_question_id ref of
          None \<Rightarrow> Inl AssertionError
        | Some q \<Rightarrow>
            (case fetchone (question_in tenant source q) (db_questions db) of
               None \<Rightarrow> Inl (DialogueConflictError ''outbound routing question is stale or outside its conversation'')
             | Some row \<Rightarrow> if question_current (tr_routing_question_revision ref) row then Inr ()
                 else Inl (DialogueConflictError ''outbound routing question is stale or outside its conversation''))))"

definition new_outbound_id :: "string \<Rightarrow> string" where
  "new_outbound_id uuid = ''out_'' @ uuid"

definition new_outbound_row :: "(string \<Rightarrow> string) \<Rightarrow> int \<Rightarrow> string \<Rightarrow> outbound_request \<Rightarrow> outbound_row" where
  "new_outbound_row sha now uuid a = \<lparr>
     ob_id = new_outbound_id uuid, ob_tenant_id = or_tenant_id a, ob_source_id = or_source_id a,
     ob_channel = or_channel a, ob_destination_id = or_destination_id a, ob_text = or_text a,
     ob_payload_json = Encoded (outbound_payload a), ob_status = ObQueued, ob_priority = or_priority a,
     ob_run_after = (case or_run_after a of None \<Rightarrow> now | Some t \<Rightarrow> t),
     ob_lease_owner = None, ob_lease_until = None, ob_lease_token = None,
     ob_attempts = 0, ob_max_attempts = or_max_attempts a, ob_idempotency_key = or_idempotency_key a,
     ob_idempotency_fingerprint = Some (idempotency_fingerprint sha (outbound_command a)),
     ob_correlation_id = or_correlation_id a, ob_ordering_key = or_ordering_key a,
     ob_ordering_position = or_ordering_position a, ob_task_id = ref_task_id a,
     ob_task_revision = ref_task_revision a, ob_routing_question_id = ref_question_id a,
     ob_routing_question_revision = ref_question_revision a,
     ob_reply_to_message_id = or_reply_to_message_id a, ob_message_thread_id = or_message_thread_id a,
     ob_last_error = None, ob_sent_at = None, ob_result_json = None,
     ob_created_at = now, ob_updated_at = now\<rparr>"

definition ob_by_key :: "outbound_request \<Rightarrow> outbound_row \<Rightarrow> bool" where
  "ob_by_key a r = (ob_tenant_id r = or_tenant_id a \<and> ob_source_id r = or_source_id a
     \<and> ob_idempotency_key r = or_idempotency_key a)"

definition enqueue_outbound_with_result ::
  "(string \<Rightarrow> string) \<Rightarrow> int \<Rightarrow> string \<Rightarrow> outbound_request \<Rightarrow> conv_db \<Rightarrow> ((string \<times> bool) \<times> conv_db) result" where
  "enqueue_outbound_with_result sha now uuid a db =
     rbind (validate_outbound_request a) (\<lambda>_.
     case fetchone (ob_by_key a) (db_outbound db) of
       Some existing \<Rightarrow>
         rbind (require_outbound_replay sha a existing) (\<lambda>_. Inr ((ob_id existing, False), db))
     | None \<Rightarrow>
         rbind (case or_task_reference a of
                  None \<Rightarrow> Inr ()
                | Some ref \<Rightarrow> validate_task_reference db (or_tenant_id a) (or_source_id a) ref) (\<lambda>_.
         case insert_outbound (new_outbound_row sha now uuid a) db of
           Inr db' \<Rightarrow> Inr ((new_outbound_id uuid, True), db')
         | Inl e \<Rightarrow>
             (case fetchone (ob_by_key a) (db_outbound db) of
                None \<Rightarrow> Inl e
              | Some existing \<Rightarrow>
                  rbind (require_outbound_replay sha a existing) (\<lambda>_. Inr ((ob_id existing, False), db)))))"

definition enqueue_outbound ::
  "(string \<Rightarrow> string) \<Rightarrow> int \<Rightarrow> string \<Rightarrow> outbound_request \<Rightarrow> conv_db \<Rightarrow> (string option \<times> conv_db) result" where
  "enqueue_outbound sha now uuid a db =
     rbind (enqueue_outbound_with_result sha now uuid a db) (\<lambda>((i, created), db').
       Inr (if created then Some i else None, db'))"

text \<open>All requests in one transaction: the first error undoes the earlier ones.\<close>

fun enqueue_outbound_many ::
  "(string \<Rightarrow> string) \<Rightarrow> int \<Rightarrow> (string \<times> outbound_request) list \<Rightarrow> conv_db
    \<Rightarrow> (string option list \<times> conv_db) result" where
  "enqueue_outbound_many sha now [] db = Inr ([], db)"
| "enqueue_outbound_many sha now ((uuid, a) # rest) db =
     rbind (enqueue_outbound sha now uuid a db) (\<lambda>(i, db').
     rbind (enqueue_outbound_many sha now rest db') (\<lambda>(is, db''). Inr (i # is, db'')))"

subsection \<open>Claiming\<close>

record outbound_claim =
  oc_channel :: string
  oc_limit :: int
  oc_lease_owner :: string
  oc_lease_seconds :: int
  oc_tenant_id :: "string option"

definition ob_scope :: "outbound_claim \<Rightarrow> outbound_row \<Rightarrow> bool" where
  "ob_scope c r = (ob_channel r = oc_channel c \<and> opt_clause (oc_tenant_id c) (ob_tenant_id r))"

definition ob_send_lost :: "outbound_claim \<Rightarrow> int \<Rightarrow> outbound_row \<Rightarrow> bool" where
  "ob_send_lost c now r = (ob_scope c r \<and> ob_status r = ObSending \<and> null_le (ob_lease_until r) now)"

definition ob_exhausted :: "outbound_claim \<Rightarrow> int \<Rightarrow> outbound_row \<Rightarrow> bool" where
  "ob_exhausted c now r = (ob_scope c r \<and> ob_status r = ObLeased \<and> null_le (ob_lease_until r) now
     \<and> ob_attempts r \<ge> ob_max_attempts r)"

text \<open>The same conversation, channel and ordering key.\<close>

definition same_sequence :: "outbound_row \<Rightarrow> outbound_row \<Rightarrow> bool" where
  "same_sequence p r = (ob_tenant_id p = ob_tenant_id r \<and> ob_source_id p = ob_source_id r
     \<and> ob_channel p = ob_channel r \<and> ob_ordering_key r \<noteq> None \<and> ob_ordering_key p = ob_ordering_key r)"

definition ob_broken_sequence :: "outbound_claim \<Rightarrow> outbound_row list \<Rightarrow> outbound_row \<Rightarrow> bool" where
  "ob_broken_sequence c rows r = (ob_scope c r \<and> (ob_status r = ObQueued \<or> ob_status r = ObRetrying)
     \<and> ob_ordering_key r \<noteq> None
     \<and> (\<exists>p \<in> set rows. same_sequence p r
          \<and> (case (ob_ordering_position p, ob_ordering_position r) of (Some i, Some j) \<Rightarrow> i < j | _ \<Rightarrow> False)
          \<and> (ob_status p = ObDeadLetter \<or> ob_status p = ObCancelled)))"

definition predecessor :: "outbound_row \<Rightarrow> outbound_row \<Rightarrow> bool" where
  "predecessor p r = (same_sequence p r
     \<and> (case (ob_ordering_position p, ob_ordering_position r) of (Some i, Some j) \<Rightarrow> i = j - 1 | _ \<Rightarrow> False))"

definition ob_turn :: "outbound_row list \<Rightarrow> outbound_row \<Rightarrow> bool" where
  "ob_turn rows r = (ob_ordering_key r = None \<or> ob_ordering_position r = Some 1
     \<or> (\<exists>p \<in> set rows. predecessor p r \<and> ob_status p = ObSent))"

definition ob_due :: "outbound_claim \<Rightarrow> int \<Rightarrow> outbound_row list \<Rightarrow> outbound_row \<Rightarrow> bool" where
  "ob_due c now rows r = (ob_scope c r \<and> ob_run_after r \<le> now
     \<and> (ob_status r = ObQueued \<or> ob_status r = ObRetrying
        \<or> (ob_status r = ObLeased \<and> null_le (ob_lease_until r) now \<and> ob_attempts r < ob_max_attempts r))
     \<and> ob_turn rows r)"

definition ob_order :: "outbound_row \<Rightarrow> int \<times> int" where
  "ob_order r = (ob_priority r, ob_created_at r)"

definition ob_lease :: "outbound_claim \<Rightarrow> int \<Rightarrow> string \<Rightarrow> outbound_row \<Rightarrow> outbound_row" where
  "ob_lease c now token r = r\<lparr>ob_status := ObLeased, ob_lease_owner := Some (oc_lease_owner c),
     ob_lease_until := Some (now + oc_lease_seconds c), ob_lease_token := Some token,
     ob_attempts := ob_attempts r + 1, ob_updated_at := now\<rparr>"

text \<open>The three clean-up statements, in order; the subquery of the third sees the table as it was
  before that statement.\<close>

definition ob_cleanup :: "outbound_claim \<Rightarrow> int \<Rightarrow> outbound_row list \<Rightarrow> outbound_row list" where
  "ob_cleanup c now rows =
     (let rows1 = update_where (ob_send_lost c now)
            (ob_release ObUncertain (Some ''outbound send outcome is uncertain after lease expiry'') now) rows;
          rows2 = update_where (ob_exhausted c now)
            (ob_release ObDeadLetter (Some ''outbound lease expired after the maximum number of attempts'') now) rows1
      in update_where (ob_broken_sequence c rows2)
            (ob_release ObCancelled (Some ''ordered predecessor did not complete successfully'') now) rows2)"

definition ob_candidates :: "outbound_claim \<Rightarrow> int \<Rightarrow> outbound_row list \<Rightarrow> outbound_row list" where
  "ob_candidates c now rows = take (nat (oc_limit c)) (order_by ob_order (select_where (ob_due c now rows) rows))"

definition outbound_claim_txn ::
  "outbound_claim \<Rightarrow> int \<Rightarrow> string \<Rightarrow> outbound_row list \<Rightarrow> outbound_row list \<times> outbound_row list" where
  "outbound_claim_txn c now token rows =
     (let rows3 = ob_cleanup c now rows;
          ids = map ob_id (ob_candidates c now rows3)
      in if ids = [] then ([], rows3)
         else let rows4 = update_where (\<lambda>r. ob_id r \<in> set ids) (ob_lease c now token) rows3
              in (order_by ob_order (select_where (\<lambda>r. ob_id r \<in> set ids) rows4), rows4))"

definition outbound_claim_due ::
  "outbound_claim \<Rightarrow> int \<Rightarrow> string \<Rightarrow> conv_db \<Rightarrow> (outbound_row list \<times> conv_db) result" where
  "outbound_claim_due c now token db =
     (if oc_limit c < 1 then Inl (ValueError ''limit must be positive'')
      else if oc_lease_seconds c < 1 then Inl (ValueError ''lease_seconds must be positive'')
      else if (case oc_tenant_id c of None \<Rightarrow> False | Some t \<Rightarrow> blank t)
        then Inl (ValueError ''tenant_id must be non-empty when provided'')
      else let (claimed, rows') = outbound_claim_txn c now token (db_outbound db)
           in Inr (claimed, db\<lparr>db_outbound := rows'\<rparr>))"

subsection \<open>Renewing and admission to sending\<close>

definition ob_live :: "outbound_row \<Rightarrow> bool" where
  "ob_live r = (ob_status r = ObLeased \<or> ob_status r = ObSending)"

definition ob_held :: "string \<Rightarrow> string \<Rightarrow> outbound_row \<Rightarrow> bool" where
  "ob_held message_id token r = (ob_id r = message_id \<and> ob_live r \<and> ob_lease_token r = Some token)"

definition ob_leased :: "string \<Rightarrow> string \<Rightarrow> outbound_row \<Rightarrow> bool" where
  "ob_leased message_id token r =
     (ob_id r = message_id \<and> ob_status r = ObLeased \<and> ob_lease_token r = Some token)"

definition ob_sending :: "string \<Rightarrow> string \<Rightarrow> outbound_row \<Rightarrow> bool" where
  "ob_sending message_id token r =
     (ob_id r = message_id \<and> ob_status r = ObSending \<and> ob_lease_token r = Some token)"

definition outbound_renew_lease ::
  "int \<Rightarrow> int \<Rightarrow> string \<Rightarrow> string \<Rightarrow> conv_db \<Rightarrow> (bool \<times> conv_db) result" where
  "outbound_renew_lease now lease_seconds message_id token db =
     (if lease_seconds < 1 then Inl (ValueError ''lease_seconds must be positive'')
      else let p = (\<lambda>r. ob_held message_id token r \<and> null_gt (ob_lease_until r) now)
           in Inr (rowcount p (db_outbound db) > 0,
                   db\<lparr>db_outbound := update_where p
                     (\<lambda>r. r\<lparr>ob_lease_until := Some (now + lease_seconds), ob_updated_at := now\<rparr>)
                     (db_outbound db)\<rparr>))"

definition task_admission_is_current :: "conv_db \<Rightarrow> outbound_row \<Rightarrow> bool" where
  "task_admission_is_current db row = (case ob_task_id row of
     Some t \<Rightarrow>
       (case fetchone (task_in (ob_tenant_id row) (ob_source_id row) t) (db_tasks db) of
          None \<Rightarrow> False
        | Some current \<Rightarrow> task_current (ob_task_revision row) current)
   | None \<Rightarrow>
       (case ob_routing_question_id row of
          None \<Rightarrow> True
        | Some q \<Rightarrow>
            (case fetchone (question_in (ob_tenant_id row) (ob_source_id row) q) (db_questions db) of
               None \<Rightarrow> False
             | Some current \<Rightarrow> question_current (ob_routing_question_revision row) current)))"

definition mark_sending :: "int \<Rightarrow> string \<Rightarrow> string \<Rightarrow> conv_db \<Rightarrow> bool \<times> conv_db" where
  "mark_sending now message_id token db =
     (let p = (\<lambda>r. ob_leased message_id token r \<and> null_gt (ob_lease_until r) now) in
      case fetchone p (db_outbound db) of
        None \<Rightarrow> (False, db)
      | Some row \<Rightarrow>
          if \<not> task_admission_is_current db row
          then (False, db\<lparr>db_outbound := update_where (ob_leased message_id token)
                  (ob_release ObCancelled
                     (Some ''dialogue task or routing question became stale before send admission'') now)
                  (db_outbound db)\<rparr>)
          else (rowcount p (db_outbound db) = 1,
                db\<lparr>db_outbound := update_where p
                  (\<lambda>r. r\<lparr>ob_status := ObSending, ob_updated_at := now\<rparr>) (db_outbound db)\<rparr>))"

subsection \<open>Settling\<close>

definition result_field :: "json \<Rightarrow> string \<Rightarrow> json" where
  "result_field result k = (case result of
     JObj kvs \<Rightarrow> (case map_of kvs k of None \<Rightarrow> JNull | Some v \<Rightarrow> v)
   | _ \<Rightarrow> JNull)"

text \<open>The identifier of the delivered message in the channel, as the projection reads it from the
  sender's result.\<close>

definition external_message_id :: "string \<Rightarrow> json \<Rightarrow> string option" where
  "external_message_id channel result =
     (let v0 = result_field result ''external_message_id'';
          v = (if v0 = JNull \<and> channel = ''telegram'' then result_field result ''message_id'' else v0)
      in case v of
           JInt n \<Rightarrow> if n > 0 \<and> length (int_text n) \<le> 256 then Some (int_text n) else None
         | JStr s \<Rightarrow> if blank s \<or> length s > 256 then None else Some s
         | _ \<Rightarrow> None)"

definition sent_dialogue_message :: "int \<Rightarrow> outbound_row \<Rightarrow> string \<Rightarrow> string option \<Rightarrow> dialogue_message_row" where
  "sent_dialogue_message now outbound task_id external_id = \<lparr>
     dm_message_id = ''outbound_'' @ ob_id outbound, dm_tenant_id = ob_tenant_id outbound,
     dm_source_id = ob_source_id outbound, dm_task_id = task_id, dm_role = Assistant, dm_actor_id = None,
     dm_text = ob_text outbound, dm_occurred_at = now, dm_input_id = None,
     dm_source_message_id = external_id\<rparr>"

definition confirmed_reference :: "int \<Rightarrow> outbound_row \<Rightarrow> string \<Rightarrow> reference_row" where
  "confirmed_reference now outbound external_id = \<lparr>
     dr_tenant_id = ob_tenant_id outbound, dr_source_id = ob_source_id outbound,
     dr_channel = ob_channel outbound, dr_external_message_id = external_id,
     dr_outbound_message_id = ob_id outbound, dr_task_id = ob_task_id outbound,
     dr_question_id = ob_routing_question_id outbound,
     dr_question_revision = ob_routing_question_revision outbound, dr_confirmed_at = now\<rparr>"

definition project_confirmed_dialogue_message ::
  "int \<Rightarrow> outbound_row \<Rightarrow> json \<Rightarrow> conv_db \<Rightarrow> conv_db result" where
  "project_confirmed_dialogue_message now outbound result db =
     (if ob_task_id outbound = None \<and> ob_routing_question_id outbound = None then Inr db
      else let external_id = external_message_id (ob_channel outbound) result in
        rbind (case ob_task_id outbound of
                 None \<Rightarrow> Inr db
               | Some t \<Rightarrow>
                   rbind (insert_dialogue_message (sent_dialogue_message now outbound t external_id) db) (\<lambda>db1.
                     Inr (db1\<lparr>db_tasks := update_where (task_in (ob_tenant_id outbound) (ob_source_id outbound) t)
                            (\<lambda>r. r\<lparr>dt_updated_at := now\<rparr>) (db_tasks db1)\<rparr>)))
          (\<lambda>db2. case external_id of
             None \<Rightarrow> Inr db2
           | Some x \<Rightarrow> insert_reference (confirmed_reference now outbound x) db2))"

definition sent_history_args :: "int \<Rightarrow> outbound_row \<Rightarrow> message_args" where
  "sent_history_args now row = \<lparr>
     ha_tenant_id = ob_tenant_id row, ha_source_id = ob_source_id row, ha_channel = ob_channel row,
     ha_direction = ''outbound'', ha_text = ob_text row, ha_source_message_id = ob_id row,
     ha_occurred_at = now, ha_author_id = None, ha_author_username = None,
     ha_author_display_name = None, ha_source_event_id = None, ha_metadata = None\<rparr>"

definition ob_sent :: "json \<Rightarrow> int \<Rightarrow> outbound_row \<Rightarrow> outbound_row" where
  "ob_sent result now r = r\<lparr>ob_status := ObSent, ob_result_json := Some result, ob_lease_owner := None,
     ob_lease_until := None, ob_lease_token := None, ob_sent_at := Some now, ob_updated_at := now\<rparr>"

definition mark_sent ::
  "int \<Rightarrow> string \<Rightarrow> json option \<Rightarrow> string \<Rightarrow> string \<Rightarrow> conv_db \<Rightarrow> (bool \<times> conv_db) result" where
  "mark_sent now uuid result_arg message_id token db =
     (let result = (case result_arg of None \<Rightarrow> JObj [] | Some v \<Rightarrow> v);
          p = ob_sending message_id token;
          db1 = db\<lparr>db_outbound := update_where p (ob_sent result now) (db_outbound db)\<rparr>
      in if rowcount p (db_outbound db) \<noteq> 1 then Inr (False, db1)
         else case fetchone (\<lambda>r. ob_id r = message_id) (db_outbound db1) of
           None \<Rightarrow> Inl (RuntimeError (''sent outbound message disappeared: '' @ message_id))
         | Some row \<Rightarrow>
             rbind (record_message (ob_created_at row) uuid (sent_history_args now row) (db_history db1)) (\<lambda>(_, h).
             rbind (project_confirmed_dialogue_message now row result (db1\<lparr>db_history := h\<rparr>)) (\<lambda>db2.
               Inr (True, db2))))"

definition outbound_mark_uncertain :: "int \<Rightarrow> string \<Rightarrow> string \<Rightarrow> string \<Rightarrow> outbound_row list \<Rightarrow> bool \<times> outbound_row list" where
  "outbound_mark_uncertain now err message_id token rows =
     (rowcount (ob_sending message_id token) rows > 0,
      update_where (ob_sending message_id token) (ob_release ObUncertain (Some err) now) rows)"

definition outbound_mark_dead_letter :: "int \<Rightarrow> string \<Rightarrow> string \<Rightarrow> string \<Rightarrow> outbound_row list \<Rightarrow> bool \<times> outbound_row list" where
  "outbound_mark_dead_letter now err message_id token rows =
     (rowcount (ob_held message_id token) rows > 0,
      update_where (ob_held message_id token) (ob_release ObDeadLetter (Some err) now) rows)"

definition outbound_mark_retry ::
  "int \<Rightarrow> int \<Rightarrow> string \<Rightarrow> string \<Rightarrow> string \<Rightarrow> outbound_row list \<Rightarrow> ob_state option \<times> outbound_row list" where
  "outbound_mark_retry now run_after err message_id token rows =
     (case fetchone (ob_held message_id token) rows of
        None \<Rightarrow> (None, rows)
      | Some row \<Rightarrow>
          (let new_status = (if ob_attempts row \<ge> ob_max_attempts row then ObDeadLetter else ObRetrying);
               rows' = update_where (ob_held message_id token)
                 (\<lambda>r. (ob_release new_status (Some err) now r)\<lparr>ob_run_after := run_after\<rparr>) rows
           in if rowcount (ob_held message_id token) rows \<noteq> 1 then (None, rows')
              else (Some new_status, rows')))"

subsection \<open>The invariant of the table\<close>

definition ob_row_ok :: "outbound_row \<Rightarrow> bool" where
  "ob_row_ok r \<longleftrightarrow>
     (ob_live r \<longrightarrow> ob_lease_owner r \<noteq> None \<and> ob_lease_until r \<noteq> None \<and> ob_lease_token r \<noteq> None)
   \<and> (\<not> ob_live r \<longrightarrow> ob_lease_owner r = None \<and> ob_lease_until r = None \<and> ob_lease_token r = None)
   \<and> 0 \<le> ob_attempts r
   \<and> (ob_status r \<noteq> ObQueued \<and> ob_status r \<noteq> ObCancelled \<longrightarrow> 1 \<le> ob_attempts r)
   \<and> (ob_status r = ObSent \<longleftrightarrow> ob_sent_at r \<noteq> None)
   \<and> (ob_ordering_key r = None \<longleftrightarrow> ob_ordering_position r = None)
   \<and> (\<forall>p. ob_ordering_position r = Some p \<longrightarrow> 1 \<le> p)"

definition ob_inv :: "outbound_row list \<Rightarrow> bool" where
  "ob_inv rows \<longleftrightarrow> distinct (map ob_id rows) \<and> distinct (map ob_key rows) \<and> unique_key ob_lane rows
     \<and> (\<forall>r \<in> set rows. ob_row_ok r)"

text \<open>The columns that no operation writes after the insert.\<close>

definition ob_envelope :: "outbound_row \<Rightarrow> _" where
  "ob_envelope r = ((ob_id r, ob_tenant_id r, ob_source_id r, ob_channel r, ob_destination_id r, ob_text r,
     ob_payload_json r, ob_priority r, ob_max_attempts r, ob_idempotency_key r, ob_idempotency_fingerprint r),
     (ob_correlation_id r, ob_ordering_key r, ob_ordering_position r, ob_task_id r, ob_task_revision r,
      ob_routing_question_id r, ob_routing_question_revision r, ob_reply_to_message_id r,
      ob_message_thread_id r, ob_created_at r))"

lemma ob_envelope_eqD:
  assumes "ob_envelope r = ob_envelope s"
  shows "ob_id r = ob_id s" "ob_key r = ob_key s" "ob_lane r = ob_lane s" "ob_order r = ob_order s"
    "ob_ordering_key r = ob_ordering_key s" "ob_ordering_position r = ob_ordering_position s"
    "same_sequence r x = same_sequence s x" "same_sequence x r = same_sequence x s"
    "predecessor r x = predecessor s x" "predecessor x r = predecessor x s"
    "ob_by_key a r = ob_by_key a s"
  using assms
  by (simp_all add: ob_envelope_def ob_key_def ob_lane_def ob_order_def same_sequence_def predecessor_def
      ob_by_key_def split: option.split)

lemma ob_envelope_replay:
  assumes "ob_envelope r = ob_envelope s"
  shows "outbound_replay_matches sha a r = outbound_replay_matches sha a s"
proof -
  have "outbound_fingerprint_matches sha a r x = outbound_fingerprint_matches sha a s x" for x
    using assms by (simp add: ob_envelope_def outbound_fingerprint_matches_def has_no_dialogue_or_reply_fields_def)
  then show ?thesis
    using assms by (cases "ob_idempotency_fingerprint s") (simp_all add: ob_envelope_def outbound_replay_matches_def)
qed

lemma ob_envelope_updates [simp]:
  "ob_envelope (ob_release st err now r) = ob_envelope r"
  "ob_envelope (ob_lease c now t r) = ob_envelope r"
  "ob_envelope (ob_sent result now r) = ob_envelope r"
  "ob_envelope (r\<lparr>ob_lease_until := u\<rparr>) = ob_envelope r"
  "ob_envelope (r\<lparr>ob_updated_at := n\<rparr>) = ob_envelope r"
  "ob_envelope (r\<lparr>ob_run_after := n\<rparr>) = ob_envelope r"
  "ob_envelope (r\<lparr>ob_status := st\<rparr>) = ob_envelope r"
  by (simp_all add: ob_envelope_def ob_release_def ob_lease_def ob_sent_def)

lemma ob_id_updates [simp]:
  "ob_id (ob_release st err now r) = ob_id r"
  "ob_id (ob_lease c now t r) = ob_id r"
  "ob_id (ob_sent result now r) = ob_id r"
  by (simp_all add: ob_release_def ob_lease_def ob_sent_def)

lemma ob_inv_update:
  assumes "ob_inv rows" and "\<And>r. ob_envelope (f r) = ob_envelope r"
    and "\<And>r. r \<in> set rows \<Longrightarrow> p r \<Longrightarrow> ob_row_ok r \<Longrightarrow> ob_row_ok (f r)"
  shows "ob_inv (update_where p f rows)"
proof -
  have "map ob_id (update_where p f rows) = map ob_id rows"
    by (rule map_update_where) (rule ob_envelope_eqD(1) [OF assms(2)])
  moreover have "map ob_key (update_where p f rows) = map ob_key rows"
    by (rule map_update_where) (rule ob_envelope_eqD(2) [OF assms(2)])
  moreover have "unique_key ob_lane (update_where p f rows) = unique_key ob_lane rows"
    by (rule unique_key_update_where) (rule ob_envelope_eqD(3) [OF assms(2)])
  moreover have "\<forall>r \<in> set (update_where p f rows). ob_row_ok r"
    using assms(1,3) by (intro update_where_preserves) (auto simp: ob_inv_def)
  ultimately show ?thesis using assms(1) by (simp add: ob_inv_def)
qed

lemma ob_inv_distinct [dest]: "ob_inv rows \<Longrightarrow> distinct (map ob_id rows)"
  by (simp add: ob_inv_def)

lemma ob_row_ok_release:
  "ob_row_ok r \<Longrightarrow> st \<in> {ObUncertain, ObDeadLetter, ObRetrying} \<Longrightarrow> ob_status r \<noteq> ObSent \<Longrightarrow> 1 \<le> ob_attempts r
    \<Longrightarrow> ob_row_ok (ob_release st err now r)"
  by (auto simp: ob_row_ok_def ob_release_def ob_live_def)

lemma ob_row_ok_cancel: "ob_row_ok r \<Longrightarrow> ob_status r \<noteq> ObSent \<Longrightarrow> ob_row_ok (ob_release ObCancelled err now r)"
  by (auto simp: ob_row_ok_def ob_release_def ob_live_def)

lemma ob_row_ok_lease: "ob_row_ok r \<Longrightarrow> ob_status r \<noteq> ObSent \<Longrightarrow> ob_row_ok (ob_lease c now t r)"
  by (auto simp: ob_row_ok_def ob_lease_def ob_live_def)

lemma ob_row_ok_live_attempts: "ob_row_ok r \<Longrightarrow> ob_live r \<Longrightarrow> 1 \<le> ob_attempts r \<and> ob_status r \<noteq> ObSent"
  by (auto simp: ob_row_ok_def ob_live_def)

lemma ob_row_ok_columns [simp]:
  "ob_row_ok (r\<lparr>ob_run_after := n\<rparr>) = ob_row_ok r"
  "ob_row_ok (r\<lparr>ob_updated_at := n\<rparr>) = ob_row_ok r"
  by (simp_all add: ob_row_ok_def ob_live_def)

subsection \<open>Quiet changes and the order of delivery\<close>

text \<open>Every statement but the claim is quiet: it keeps the envelope and the attempts of each row and
  does not touch rows in a final status; a row it adds has not been attempted.\<close>

definition ob_final :: "outbound_row \<Rightarrow> bool" where
  "ob_final r \<longleftrightarrow> ob_status r \<in> {ObSent, ObDeadLetter, ObCancelled}"

definition ob_evolves :: "outbound_row \<Rightarrow> outbound_row \<Rightarrow> bool" where
  "ob_evolves r r' \<longleftrightarrow> ob_envelope r' = ob_envelope r \<and> ob_attempts r \<le> ob_attempts r' \<and> (ob_final r \<longrightarrow> r' = r)"

definition ob_quiet :: "outbound_row list \<Rightarrow> outbound_row list \<Rightarrow> bool" where
  "ob_quiet rows rows' \<longleftrightarrow> (\<exists>mid new. rows' = mid @ new
     \<and> list_all2 (\<lambda>r r'. ob_evolves r r' \<and> ob_attempts r' = ob_attempts r) rows mid
     \<and> (\<forall>n \<in> set new. ob_attempts n = 0))"

definition ob_ordered :: "outbound_row list \<Rightarrow> bool" where
  "ob_ordered rows \<longleftrightarrow> (\<forall>r \<in> set rows. 1 \<le> ob_attempts r \<longrightarrow> ob_turn rows r)"

lemma ob_evolves_refl [simp]: "ob_evolves r r"
  by (simp add: ob_evolves_def)

lemma ob_evolves_trans: "ob_evolves r s \<Longrightarrow> ob_evolves s t \<Longrightarrow> ob_evolves r t"
  by (auto simp: ob_evolves_def)

lemma ob_quiet_refl [simp]: "ob_quiet rows rows"
  unfolding ob_quiet_def by (rule exI [of _ rows], rule exI [of _ "[]"]) (simp add: list_all2_same)

lemma ob_quiet_append: "ob_attempts n = 0 \<Longrightarrow> ob_quiet rows (rows @ [n])"
  unfolding ob_quiet_def by (rule exI [of _ rows], rule exI [of _ "[n]"]) (simp add: list_all2_same)

lemma ob_quiet_update:
  assumes "\<And>r. r \<in> set rows \<Longrightarrow> p r \<Longrightarrow> \<not> ob_final r"
    and "\<And>r. ob_envelope (f r) = ob_envelope r" and "\<And>r. ob_attempts (f r) = ob_attempts r"
  shows "ob_quiet rows (update_where p f rows)"
  unfolding ob_quiet_def
proof (intro exI conjI)
  show "update_where p f rows = update_where p f rows @ []" by simp
  show "list_all2 (\<lambda>r r'. ob_evolves r r' \<and> ob_attempts r' = ob_attempts r) rows (update_where p f rows)"
    unfolding update_where_def list_all2_map2
    using assms by (auto intro!: list.rel_refl_strong simp: ob_evolves_def)
qed simp

lemma ob_turn_mono:
  assumes "ob_turn rows r" and "ob_envelope r' = ob_envelope r"
    and "\<And>p. p \<in> set rows \<Longrightarrow> ob_status p = ObSent \<Longrightarrow> p \<in> set rows'"
  shows "ob_turn rows' r'"
  using assms ob_envelope_eqD(5,6) [OF assms(2)] ob_envelope_eqD(10) [OF assms(2)]
  unfolding ob_turn_def by metis

lemma ob_quiet_sent: "ob_quiet rows rows' \<Longrightarrow> p \<in> set rows \<Longrightarrow> ob_status p = ObSent \<Longrightarrow> p \<in> set rows'"
proof -
  assume "ob_quiet rows rows'" and p: "p \<in> set rows" "ob_status p = ObSent"
  then obtain mid new where rows': "rows' = mid @ new"
    and l: "list_all2 (\<lambda>r r'. ob_evolves r r' \<and> ob_attempts r' = ob_attempts r) rows mid"
    by (auto simp: ob_quiet_def)
  obtain i where "i < length rows" "rows ! i = p" using p(1) by (auto simp: in_set_conv_nth)
  with l p(2) have "i < length mid" "mid ! i = p"
    by (auto simp: list_all2_conv_all_nth ob_evolves_def ob_final_def)
  then show "p \<in> set rows'" using rows' by (metis Un_iff nth_mem set_append)
qed

lemma ob_ordered_quiet:
  assumes "ob_ordered rows" and q: "ob_quiet rows rows'"
  shows "ob_ordered rows'"
  unfolding ob_ordered_def
proof (intro ballI impI)
  fix r' assume r': "r' \<in> set rows'" and att: "1 \<le> ob_attempts r'"
  obtain mid new where rows': "rows' = mid @ new" "\<forall>n \<in> set new. ob_attempts n = 0"
    and l: "list_all2 (\<lambda>r r'. ob_evolves r r' \<and> ob_attempts r' = ob_attempts r) rows mid"
    using q by (auto simp: ob_quiet_def)
  have "r' \<in> set mid" using r' rows' att by auto
  then obtain r where r: "r \<in> set rows" "ob_evolves r r'" "ob_attempts r' = ob_attempts r"
    using l unfolding list_all2_conv_all_nth by (metis in_set_conv_nth)
  then have "ob_turn rows r" using assms(1) att by (simp add: ob_ordered_def)
  then show "ob_turn rows' r'"
    by (rule ob_turn_mono) (use r(2) ob_quiet_sent [OF q] in \<open>auto simp: ob_evolves_def\<close>)
qed

subsection \<open>Operations keep the invariant and the order\<close>

definition ob_ok :: "outbound_row list \<Rightarrow> bool" where
  "ob_ok rows \<longleftrightarrow> ob_inv rows \<and> ob_ordered rows"

lemma ob_ok_update:
  assumes "ob_ok rows" and "\<And>r. r \<in> set rows \<Longrightarrow> p r \<Longrightarrow> \<not> ob_final r"
    and "\<And>r. ob_envelope (f r) = ob_envelope r" and "\<And>r. ob_attempts (f r) = ob_attempts r"
    and "\<And>r. r \<in> set rows \<Longrightarrow> p r \<Longrightarrow> ob_row_ok r \<Longrightarrow> ob_row_ok (f r)"
  shows "ob_ok (update_where p f rows)"
proof -
  have "ob_quiet rows (update_where p f rows)" by (rule ob_quiet_update) (use assms in auto)
  then show ?thesis
    using assms ob_inv_update [of rows f p] ob_ordered_quiet by (auto simp: ob_ok_def)
qed

lemma ob_attempts_updates [simp]:
  "ob_attempts (ob_release st err now r) = ob_attempts r"
  "ob_attempts (ob_sent result now r) = ob_attempts r"
  "ob_attempts (ob_lease c now t r) = ob_attempts r + 1"
  by (simp_all add: ob_release_def ob_sent_def ob_lease_def)

lemma ob_live_not_final: "ob_live r \<Longrightarrow> \<not> ob_final r"
  by (auto simp: ob_live_def ob_final_def)

lemma ob_held_live: "ob_held k t r \<Longrightarrow> ob_live r" "ob_leased k t r \<Longrightarrow> ob_live r" "ob_sending k t r \<Longrightarrow> ob_live r"
  by (auto simp: ob_held_def ob_leased_def ob_sending_def ob_live_def)

lemma ob_held_id: "ob_held k t r \<Longrightarrow> ob_id r = k" "ob_leased k t r \<Longrightarrow> ob_id r = k" "ob_sending k t r \<Longrightarrow> ob_id r = k"
  by (auto simp: ob_held_def ob_leased_def ob_sending_def)

text \<open>A guarded release of leased rows.\<close>

lemma ob_ok_release:
  assumes "ob_ok rows" and "\<And>r. p r \<Longrightarrow> ob_live r"
    and "st \<in> {ObUncertain, ObDeadLetter, ObRetrying, ObCancelled}"
  shows "ob_ok (update_where p (ob_release st err now) rows)"
  using assms
  by (intro ob_ok_update)
     (auto dest: ob_live_not_final ob_row_ok_live_attempts intro: ob_row_ok_release ob_row_ok_cancel)

lemma ob_ok_cleanup: "ob_ok rows \<Longrightarrow> ob_ok (ob_cleanup c now rows)"
proof -
  assume ok: "ob_ok rows"
  define rows1 where "rows1 = update_where (ob_send_lost c now)
    (ob_release ObUncertain (Some ''outbound send outcome is uncertain after lease expiry'') now) rows"
  define rows2 where "rows2 = update_where (ob_exhausted c now)
    (ob_release ObDeadLetter (Some ''outbound lease expired after the maximum number of attempts'') now) rows1"
  have "ob_ok rows1" unfolding rows1_def
    using ok by (rule ob_ok_release) (auto simp: ob_send_lost_def ob_live_def)
  then have "ob_ok rows2" unfolding rows2_def
    by (rule ob_ok_release) (auto simp: ob_exhausted_def ob_live_def)
  then have "ob_ok (update_where (ob_broken_sequence c rows2) (ob_release ObCancelled e now) rows2)" for e
    by (rule ob_ok_update) (auto simp: ob_broken_sequence_def ob_final_def intro: ob_row_ok_cancel)
  then show ?thesis by (simp add: ob_cleanup_def Let_def rows1_def rows2_def)
qed

lemma ob_candidates_due: "r \<in> set (ob_candidates c now rows) \<Longrightarrow> r \<in> set rows \<and> ob_due c now rows r"
  using set_take_subset [of "nat (oc_limit c)" "order_by ob_order (select_where (ob_due c now rows) rows)"]
  by (auto simp: ob_candidates_def select_where_def)

lemma ob_due_not_final: "ob_due c now rows r \<Longrightarrow> \<not> ob_final r"
  by (auto simp: ob_due_def ob_final_def)

text \<open>The rows a claim leases are exactly its candidates.\<close>

lemma ob_selected:
  assumes "ob_inv rows" and "r \<in> set rows"
  shows "ob_id r \<in> set (map ob_id (ob_candidates c now rows)) \<longleftrightarrow> r \<in> set (ob_candidates c now rows)"
  using assms distinct_map_eq [OF ob_inv_distinct [OF assms(1)], of r] ob_candidates_due [of _ c now rows]
  by auto

lemma ob_inv_lease:
  assumes "ob_inv rows"
  shows "ob_inv (update_where (\<lambda>r. ob_id r \<in> set (map ob_id (ob_candidates c now rows))) (ob_lease c now t) rows)"
  using assms
  by (rule ob_inv_update)
     (auto simp: ob_selected [OF assms] ob_final_def simp del: set_map
        dest!: ob_candidates_due ob_due_not_final intro!: ob_row_ok_lease)

lemma ob_ordered_lease:
  assumes "ob_inv rows" and "ob_ordered rows"
  shows "ob_ordered (update_where (\<lambda>r. ob_id r \<in> set (map ob_id (ob_candidates c now rows))) (ob_lease c now t) rows)"
    (is "ob_ordered ?rows'")
  unfolding ob_ordered_def ball_update_where
proof (intro ballI impI)
  let ?sel = "\<lambda>r. ob_id r \<in> set (map ob_id (ob_candidates c now rows))"
  fix r assume r: "r \<in> set rows" and att: "1 \<le> ob_attempts (if ?sel r then ob_lease c now t r else r)"
  have sent: "p \<in> set ?rows'" if "p \<in> set rows" "ob_status p = ObSent" for p
  proof -
    have "\<not> ?sel p"
      using that ob_selected [OF assms(1) that(1)] by (auto simp: ob_final_def dest!: ob_candidates_due ob_due_not_final)
    with that(1) show ?thesis by (auto simp: set_update_where)
  qed
  have "ob_turn rows r"
  proof (cases "?sel r")
    case True
    then have "ob_due c now rows r" using ob_selected [OF assms(1) r] ob_candidates_due by blast
    then show ?thesis by (simp add: ob_due_def)
  next
    case False
    with att r assms(2) show ?thesis by (simp add: ob_ordered_def)
  qed
  then show "ob_turn ?rows' (if ?sel r then ob_lease c now t r else r)"
    by (rule ob_turn_mono) (use sent in auto)
qed

lemma outbound_claim_txn_rows:
  "snd (outbound_claim_txn c now t rows) = update_where
     (\<lambda>r. ob_id r \<in> set (map ob_id (ob_candidates c now (ob_cleanup c now rows)))) (ob_lease c now t) (ob_cleanup c now rows)"
  by (auto simp: outbound_claim_txn_def Let_def update_where_id)

lemma ob_ok_claim: "ob_ok rows \<Longrightarrow> ob_ok (snd (outbound_claim_txn c now t rows))"
  unfolding outbound_claim_txn_rows
  using ob_ok_cleanup [of rows c now] ob_inv_lease ob_ordered_lease by (auto simp: ob_ok_def simp del: set_map)

text \<open>A row is leased by at most one token: settlements find at most one row.\<close>

lemma ob_fetch_pk:
  assumes "ob_inv rows" and "r \<in> set rows" and "p r" and "\<And>s. p s \<Longrightarrow> ob_id s = ob_id r"
  shows "fetchone p rows = Some r"
  by (rule fetchone_pk [where k = ob_id and p = p, OF ob_inv_distinct [OF assms(1)] assms(2,3)]) (rule assms(4))

lemma ob_rowcount:
  assumes "ob_inv rows" and "\<And>r. p r \<Longrightarrow> ob_id r = k"
  shows "rowcount p rows = 1 \<longleftrightarrow> (\<exists>r \<in> set rows. p r)"
  by (rule rowcount_pk_eq_1 [where k = ob_id and x = k, OF ob_inv_distinct [OF assms(1)]]) (rule assms(2))

lemma ob_ok_uncertain: "ob_ok rows \<Longrightarrow> ob_ok (snd (outbound_mark_uncertain now e k t rows))"
  unfolding outbound_mark_uncertain_def snd_conv by (rule ob_ok_release) (auto dest: ob_held_live)

lemma ob_ok_dead_letter: "ob_ok rows \<Longrightarrow> ob_ok (snd (outbound_mark_dead_letter now e k t rows))"
  unfolding outbound_mark_dead_letter_def snd_conv by (rule ob_ok_release) (auto dest: ob_held_live)

lemma ob_ok_retry_update:
  assumes "ob_ok rows" and "st \<in> {ObDeadLetter, ObRetrying}"
  shows "ob_ok (update_where (ob_held k t) (\<lambda>r. (ob_release st e now r)\<lparr>ob_run_after := ra\<rparr>) rows)"
proof (rule ob_ok_update [OF assms(1)])
  fix r assume "ob_held k t r" and "ob_row_ok r"
  then have "1 \<le> ob_attempts r \<and> ob_status r \<noteq> ObSent"
    by (blast dest: ob_held_live ob_row_ok_live_attempts)
  then show "ob_row_ok ((ob_release st e now r)\<lparr>ob_run_after := ra\<rparr>)"
    using assms(2) \<open>ob_row_ok r\<close> by (auto intro: ob_row_ok_release)
qed (auto dest: ob_held_live ob_live_not_final)

lemma ob_ok_retry: "ob_ok rows \<Longrightarrow> ob_ok (snd (outbound_mark_retry now ra e k t rows))"
  using ob_ok_retry_update [where rows = rows and k = k and t = t and e = "Some e" and now = now and ra = ra]
  by (auto simp: outbound_mark_retry_def Let_def split: option.splits)

lemma ob_ok_insert:
  assumes "ob_ok (db_outbound db)" and "insert_outbound n db = Inr db'" and "ob_row_ok n" and "ob_attempts n = 0"
  shows "ob_ok (db_outbound db') \<and> db_outbound db' = db_outbound db @ [n]"
proof (rule conjI)
  have no: "\<not> (\<exists>r \<in> set (db_outbound db). ob_id r = ob_id n \<or> ob_key r = ob_key n
      \<or> ob_lane n \<noteq> None \<and> ob_lane r = ob_lane n)"
    and rows: "db_outbound db' = db_outbound db @ [n]"
    using assms(2) by (auto simp: insert_outbound_def split: if_splits)
  show "db_outbound db' = db_outbound db @ [n]" by (rule rows)
  have "ob_quiet (db_outbound db) (db_outbound db @ [n])" by (rule ob_quiet_append) (rule assms(4))
  then have "ob_ordered (db_outbound db')"
    using assms(1) ob_ordered_quiet rows by (auto simp: ob_ok_def)
  moreover have "ob_inv (db_outbound db')"
    using assms(1,3) no by (auto simp: ob_ok_def ob_inv_def rows unique_key_append image_iff dest: sym)
  ultimately show "ob_ok (db_outbound db')" by (simp add: ob_ok_def)
qed

lemma new_outbound_row_ok:
  assumes "validate_outbound_request a = Inr ()"
  shows "ob_row_ok (new_outbound_row sha now uuid a) \<and> ob_attempts (new_outbound_row sha now uuid a) = 0"
  using assms
  by (cases "or_ordering_key a"; cases "or_ordering_position a")
     (auto simp: validate_outbound_request_def ob_row_ok_def ob_live_def new_outbound_row_def positive_opt_def
        split: if_splits)

text \<open>An accepted request leaves the database as it is, or appends its row.\<close>

lemma enqueue_outbound_cases:
  assumes "enqueue_outbound_with_result sha now uuid a db = Inr (res, db')"
  shows "validate_outbound_request a = Inr () \<and>
    (db' = db \<and> (\<exists>r. fetchone (ob_by_key a) (db_outbound db) = Some r \<and> outbound_replay_matches sha a r
                      \<and> res = (ob_id r, False))
     \<or> insert_outbound (new_outbound_row sha now uuid a) db = Inr db' \<and> res = (new_outbound_id uuid, True)
       \<and> fetchone (ob_by_key a) (db_outbound db) = None
       \<and> (\<forall>ref. or_task_reference a = Some ref \<longrightarrow>
             validate_task_reference db (or_tenant_id a) (or_source_id a) ref = Inr ()))"
  using assms
  by (auto simp: enqueue_outbound_with_result_def rbind_eq_Inr require_outbound_replay_def
      require_idempotent_replay_def split: option.splits sum.splits if_splits)

lemma ob_ok_enqueue:
  assumes "ob_ok (db_outbound db)" and "enqueue_outbound_with_result sha now uuid a db = Inr (res, db')"
  shows "ob_ok (db_outbound db')"
  using enqueue_outbound_cases [OF assms(2)] assms(1)
    ob_ok_insert [OF assms(1)] new_outbound_row_ok [of a sha now uuid] by auto

lemma ob_ok_renew:
  assumes "ob_ok (db_outbound db)" and "outbound_renew_lease now secs k t db = Inr (b, db')"
  shows "ob_ok (db_outbound db')"
proof -
  let ?p = "\<lambda>r. ob_held k t r \<and> null_gt (ob_lease_until r) now"
  let ?f = "\<lambda>r. r\<lparr>ob_lease_until := Some (now + secs), ob_updated_at := now\<rparr>"
  have "db_outbound db' = update_where ?p ?f (db_outbound db)"
    using assms(2) by (auto simp: outbound_renew_lease_def Let_def split: if_splits)
  moreover have "ob_ok (update_where ?p ?f (db_outbound db))"
    using assms(1)
  proof (rule ob_ok_update)
    fix r assume "ob_held k t r \<and> null_gt (ob_lease_until r) now"
    then show "\<not> ob_final r" by (auto dest: ob_held_live ob_live_not_final)
  next
    fix r assume "ob_held k t r \<and> null_gt (ob_lease_until r) now" and "ob_row_ok r"
    then show "ob_row_ok (?f r)" by (auto simp: ob_row_ok_def ob_held_def ob_live_def)
  qed simp_all
  ultimately show ?thesis by simp
qed

lemma ob_ok_sending: "ob_ok (db_outbound db) \<Longrightarrow> ob_ok (db_outbound (snd (mark_sending now k t db)))"
proof -
  assume ok: "ob_ok (db_outbound db)"
  let ?p = "\<lambda>r. ob_leased k t r \<and> null_gt (ob_lease_until r) now"
  let ?f = "\<lambda>r. r\<lparr>ob_status := ObSending, ob_updated_at := now\<rparr>"
  have cancel: "ob_ok (update_where (ob_leased k t) (ob_release ObCancelled e now) (db_outbound db))" for e
    using ok by (rule ob_ok_release) (auto dest: ob_held_live)
  have "ob_ok (update_where ?p ?f (db_outbound db))"
    using ok
  proof (rule ob_ok_update)
    fix r assume "ob_leased k t r \<and> null_gt (ob_lease_until r) now"
    then show "\<not> ob_final r" by (auto dest: ob_held_live ob_live_not_final)
  next
    fix r assume "ob_leased k t r \<and> null_gt (ob_lease_until r) now" and "ob_row_ok r"
    then show "ob_row_ok (?f r)" by (auto simp: ob_row_ok_def ob_leased_def ob_live_def)
  qed simp_all
  with ok cancel show ?thesis by (simp add: mark_sending_def Let_def split: option.split)
qed

lemma ob_ok_sent: "ob_ok rows \<Longrightarrow> ob_ok (update_where (ob_sending k t) (ob_sent result now) rows)"
proof (rule ob_ok_update)
  fix r assume "ob_sending k t r" and "ob_row_ok r"
  then show "ob_row_ok (ob_sent result now r)"
    by (auto simp: ob_row_ok_def ob_sending_def ob_live_def ob_sent_def)
qed (auto dest: ob_held_live ob_live_not_final)

text \<open>The history record and the dialogue projection of a send leave the outbound table alone.\<close>

lemma insert_keeps_outbound:
  "insert_dialogue_message n db = Inr db' \<Longrightarrow> db_outbound db' = db_outbound db"
  "insert_reference m db = Inr db' \<Longrightarrow> db_outbound db' = db_outbound db"
  by (auto simp: insert_defs split: if_splits)

lemma project_keeps_outbound:
  "project_confirmed_dialogue_message now row result db = Inr db' \<Longrightarrow> db_outbound db' = db_outbound db"
  by (auto simp: project_confirmed_dialogue_message_def Let_def rbind_eq_Inr
      dest!: insert_keeps_outbound split: if_splits option.splits)

lemma mark_sent_outbound:
  assumes "mark_sent now uuid res k t db = Inr (b, db')"
  shows "b = (rowcount (ob_sending k t) (db_outbound db) = 1) \<and>
    db_outbound db' = update_where (ob_sending k t) (ob_sent (case res of None \<Rightarrow> JObj [] | Some v \<Rightarrow> v) now) (db_outbound db)"
  using assms
  by (auto simp: mark_sent_def Let_def rbind_eq_Inr dest!: project_keeps_outbound split: if_splits option.splits)

end
