(* ===== verification/Outbound_Delivery.thy ===== *)
theory Outbound_Delivery
  imports Outbound
begin

section \<open>Delivery guarantees of the outbound queue\<close>

text \<open>
  The outbound store keeps the lease contract and the contract of an idempotent command; messages of
  a sequence are delivered in order; a message is admitted to sending only on behalf of a current
  task or question; a confirmed send is in the history and in the dialogue.
\<close>

subsection \<open>Settlements\<close>

datatype ob_settlement =
    SendConfirmed int string "json option"
  | SendUncertain int string
  | SendDead int string
  | SendRetry int int string

text \<open>The statuses that the guard of each settlement names.\<close>

fun ob_accepts :: "ob_settlement \<Rightarrow> outbound_row \<Rightarrow> bool" where
  "ob_accepts (SendConfirmed _ _ _) r = (ob_status r = ObSending)"
| "ob_accepts (SendUncertain _ _) r = (ob_status r = ObSending)"
| "ob_accepts (SendDead _ _) r = ob_live r"
| "ob_accepts (SendRetry _ _ _) r = ob_live r"

text \<open>The outbound table after a settlement.\<close>

fun ob_settle_rows :: "ob_settlement \<Rightarrow> string \<Rightarrow> string \<Rightarrow> outbound_row list \<Rightarrow> bool \<times> outbound_row list" where
  "ob_settle_rows (SendConfirmed now uuid res) k t rows =
     (rowcount (ob_sending k t) rows = 1,
      update_where (ob_sending k t) (ob_sent (case res of None \<Rightarrow> JObj [] | Some v \<Rightarrow> v) now) rows)"
| "ob_settle_rows (SendUncertain now err) k t rows = outbound_mark_uncertain now err k t rows"
| "ob_settle_rows (SendDead now err) k t rows = outbound_mark_dead_letter now err k t rows"
| "ob_settle_rows (SendRetry now ra err) k t rows =
     (let (st, rows') = outbound_mark_retry now ra err k t rows in (st \<noteq> None, rows'))"

text \<open>A settlement of the store; an error of \<open>mark_sent\<close> rolls everything back.\<close>

fun ob_settle :: "ob_settlement \<Rightarrow> string \<Rightarrow> string \<Rightarrow> conv_db \<Rightarrow> bool \<times> conv_db" where
  "ob_settle (SendConfirmed now uuid res) k t db =
     (case mark_sent now uuid res k t db of Inl e \<Rightarrow> (False, db) | Inr out \<Rightarrow> out)"
| "ob_settle a k t db = (let (b, rows') = ob_settle_rows a k t (db_outbound db) in (b, db\<lparr>db_outbound := rows'\<rparr>))"

definition ob_claim_ids :: "outbound_claim \<times> int \<Rightarrow> string \<Rightarrow> outbound_row list \<Rightarrow> string list \<times> outbound_row list" where
  "ob_claim_ids cn t rows =
     (let (claimed, rows') = outbound_claim_txn (fst cn) (snd cn) t rows in (map ob_id claimed, rows'))"

abbreviation ob_holds :: "outbound_row list \<Rightarrow> string \<Rightarrow> string \<Rightarrow> bool" where
  "ob_holds \<equiv> table_holds ob_id ob_live ob_lease_token"

lemma ob_held_row_held:
  "ob_held k t = row_held ob_id ob_live ob_lease_token k t"
  "ob_sending k t = row_held ob_id (\<lambda>r. ob_status r = ObSending) ob_lease_token k t"
  by (simp_all add: fun_eq_iff ob_held_def ob_sending_def row_held_def)

lemma ob_rowcount_holds:
  assumes "ob_inv rows"
  shows "0 < rowcount (row_held ob_id l ob_lease_token k t) rows \<longleftrightarrow> table_holds ob_id l ob_lease_token rows k t"
    and "rowcount (row_held ob_id l ob_lease_token k t) rows = 1 \<longleftrightarrow> table_holds ob_id l ob_lease_token rows k t"
proof -
  show "0 < rowcount (row_held ob_id l ob_lease_token k t) rows \<longleftrightarrow> table_holds ob_id l ob_lease_token rows k t"
    by (simp add: rowcount_pos table_holds_def)
  show "rowcount (row_held ob_id l ob_lease_token k t) rows = 1 \<longleftrightarrow> table_holds ob_id l ob_lease_token rows k t"
    unfolding table_holds_def by (rule ob_rowcount [OF assms, of _ k]) (simp add: row_held_def)
qed

lemma ob_settle_form:
  assumes "ob_inv rows"
  shows "\<exists>f. ob_settle_rows a k t rows =
      (table_holds ob_id (ob_accepts a) ob_lease_token rows k t,
       update_where (row_held ob_id (ob_accepts a) ob_lease_token k t) f rows)
    \<and> (\<forall>r. ob_envelope (f r) = ob_envelope r \<and> ob_lease_token (f r) = None)"
proof (cases a)
  case (SendConfirmed now uuid res)
  then have acc: "ob_accepts a = (\<lambda>r. ob_status r = ObSending)" by (simp add: fun_eq_iff)
  show ?thesis
    unfolding acc using SendConfirmed ob_rowcount_holds(2) [OF assms, of "\<lambda>r. ob_status r = ObSending" k t]
    by (intro exI [of _ "ob_sent (case res of None \<Rightarrow> JObj [] | Some v \<Rightarrow> v) now"])
       (simp add: ob_held_row_held(2) ob_sent_def ob_envelope_def)
next
  case (SendUncertain now err)
  then have acc: "ob_accepts a = (\<lambda>r. ob_status r = ObSending)" by (simp add: fun_eq_iff)
  show ?thesis
    unfolding acc using SendUncertain ob_rowcount_holds(1) [OF assms, of "\<lambda>r. ob_status r = ObSending" k t]
    by (intro exI [of _ "ob_release ObUncertain (Some err) now"])
       (simp add: outbound_mark_uncertain_def ob_held_row_held(2) ob_release_def ob_envelope_def)
next
  case (SendDead now err)
  then have acc: "ob_accepts a = ob_live" by (simp add: fun_eq_iff)
  show ?thesis
    unfolding acc using SendDead ob_rowcount_holds(1) [OF assms, of ob_live k t]
    by (intro exI [of _ "ob_release ObDeadLetter (Some err) now"])
       (simp add: outbound_mark_dead_letter_def ob_held_row_held(1) ob_release_def ob_envelope_def)
next
  case (SendRetry now ra err)
  then have acc: "ob_accepts a = ob_live" by (simp add: fun_eq_iff)
  show ?thesis
  proof (cases "fetchone (ob_held k t) rows")
    case None
    then have "\<forall>r \<in> set rows. \<not> ob_held k t r" by (simp add: fetchone_None)
    then show ?thesis
      unfolding acc using None SendRetry update_where_id [of rows "ob_held k t" "ob_release ObRetrying None now"]
      by (intro exI [of _ "ob_release ObRetrying None now"])
         (simp add: outbound_mark_retry_def table_holds_def flip: ob_held_row_held(1), simp add: ob_release_def)
  next
    case (Some row)
    let ?st = "if ob_attempts row \<ge> ob_max_attempts row then ObDeadLetter else ObRetrying"
    let ?f = "\<lambda>r. (ob_release ?st (Some err) now r)\<lparr>ob_run_after := ra\<rparr>"
    have "table_holds ob_id ob_live ob_lease_token rows k t"
      using fetchone_SomeD [OF Some] by (auto simp: table_holds_def ob_held_row_held(1))
    then show ?thesis
      unfolding acc using Some SendRetry ob_rowcount_holds(2) [OF assms, of ob_live k t]
      by (intro exI [of _ ?f])
         (simp add: outbound_mark_retry_def Let_def ob_held_row_held(1), simp add: ob_release_def ob_envelope_def)
  qed
qed

lemma ob_ok_settle_rows: "ob_ok rows \<Longrightarrow> ob_ok (snd (ob_settle_rows a k t rows))"
  using ob_ok_retry by (cases a) (auto simp: ob_ok_sent ob_ok_uncertain ob_ok_dead_letter case_prod_unfold Let_def)

text \<open>What a claim returns: its candidates, leased.\<close>

lemma ob_cleanup_inv: "ob_ok rows \<Longrightarrow> ob_inv (ob_cleanup c now rows)"
  using ob_ok_cleanup by (auto simp: ob_ok_def)

lemma outbound_claim_result:
  assumes "ob_ok rows"
  shows "fst (outbound_claim_txn c now t rows) = map (ob_lease c now t) (ob_candidates c now (ob_cleanup c now rows))"
proof -
  let ?rows = "ob_cleanup c now rows"
  let ?T = "ob_candidates c now ?rows"
  have "order_by ob_order (select_where (\<lambda>r. ob_id r \<in> set (map ob_id ?T))
      (update_where (\<lambda>r. ob_id r \<in> set (map ob_id ?T)) (ob_lease c now t) ?rows)) = map (ob_lease c now t) ?T"
    by (rule claim_update_select [where p = "ob_due c now ?rows" and n = "nat (oc_limit c)"])
       (use ob_cleanup_inv [OF assms] in \<open>auto simp: ob_candidates_def ob_order_def ob_lease_def\<close>)
  then show ?thesis by (auto simp: outbound_claim_txn_def Let_def)
qed

lemma ob_claim_ids_simps:
  assumes "ob_ok rows"
  shows "fst (ob_claim_ids cn t rows) = map ob_id (ob_candidates (fst cn) (snd cn) (ob_cleanup (fst cn) (snd cn) rows))"
    and "snd (ob_claim_ids cn t rows) = snd (outbound_claim_txn (fst cn) (snd cn) t rows)"
  using outbound_claim_result [OF assms, of "fst cn" "snd cn" t]
  by (auto simp: ob_claim_ids_def case_prod_unfold Let_def comp_def)

lemma ob_cleanup_ids: "map ob_id (ob_cleanup c now rows) = map ob_id rows"
  by (simp add: ob_cleanup_def Let_def)

lemma ob_cleanup_live: "r \<in> set (ob_cleanup c now rows) \<Longrightarrow> ob_live r \<Longrightarrow> r \<in> set rows"
  by (auto simp: ob_cleanup_def Let_def set_update_where ob_release_def ob_live_def)

interpretation outbound_rows: guarded_claims ob_id ob_live ob_lease_token ob_ok ob_accepts ob_settle_rows ob_claim_ids
proof (unfold_locales, goal_cases)
  case (3 a r)
  then show ?case by (cases a) (simp_all add: ob_live_def)
next
  case (4 rows a k t)
  then show ?case using ob_settle_form [of rows a k t] by (auto simp: ob_ok_def dest: ob_envelope_eqD(1))
next
  case (6 rows c t)
  show ?case
    by (rule exI [of _ "ob_cleanup (fst c) (snd c) rows"], rule exI [of _ "ob_lease (fst c) (snd c) t"])
       (auto simp: ob_claim_ids_simps [OF 6] outbound_claim_txn_rows ob_cleanup_ids ob_lease_def ob_live_def
          dest: ob_cleanup_live simp del: set_map)
next
  case (7 rows c t)
  have "ob_id ` set (ob_cleanup (fst c) (snd c) rows) = ob_id ` set rows"
    using arg_cong [OF ob_cleanup_ids, of set "fst c" "snd c" rows] by simp
  moreover have "set (ob_candidates (fst c) (snd c) (ob_cleanup (fst c) (snd c) rows))
      \<subseteq> set (ob_cleanup (fst c) (snd c) rows)"
    by (blast dest: ob_candidates_due)
  ultimately show ?case unfolding ob_claim_ids_simps(1) [OF 7] set_map by blast
qed (auto simp: ob_ok_settle_rows ob_claim_ids_simps ob_ok_claim, auto simp: ob_ok_def)

text \<open>The same contract at the level of the store: \<open>mark_sent\<close> either does what its guarded update
  does, or raises and changes nothing.\<close>

lemma ob_settle_cases:
  "ob_settle a k t db = (False, db) \<or>
   (fst (ob_settle a k t db), db_outbound (snd (ob_settle a k t db))) = ob_settle_rows a k t (db_outbound db)"
proof (cases a)
  case (SendConfirmed now uuid res)
  show ?thesis
  proof (cases "mark_sent now uuid res k t db")
    case (Inr out)
    obtain b db' where out: "out = (b, db')" by (cases out)
    from mark_sent_outbound [OF Inr [unfolded out]]
    have "(b, db_outbound db') = ob_settle_rows a k t (db_outbound db)" by (simp only: SendConfirmed ob_settle_rows.simps)
    moreover have "ob_settle a k t db = (b, db')" using Inr out SendConfirmed by simp
    ultimately show ?thesis by simp
  qed (simp add: SendConfirmed)
qed (simp_all add: case_prod_unfold Let_def del: ob_settle_rows.simps)

lemma ob_settle_refused_same:
  "ob_ok (db_outbound db) \<Longrightarrow> \<not> fst (ob_settle a k t db) \<Longrightarrow> snd (ob_settle a k t db) = db"
proof -
  assume ok: "ob_ok (db_outbound db)" and no: "\<not> fst (ob_settle a k t db)"
  have rows: "snd (ob_settle_rows a k t (db_outbound db)) = db_outbound db"
    if "\<not> fst (ob_settle_rows a k t (db_outbound db))"
    using that by (rule outbound_rows.settle_refused [OF ok])
  show ?thesis
  proof (cases a)
    case (SendConfirmed now uuid res)
    show ?thesis
    proof (cases "mark_sent now uuid res k t db")
      case (Inr out)
      then obtain db' where db': "mark_sent now uuid res k t db = Inr (False, db')" "ob_settle a k t db = (False, db')"
        using no SendConfirmed by (cases out) auto
      then have rc: "rowcount (ob_sending k t) (db_outbound db) \<noteq> 1" by (auto dest: mark_sent_outbound)
      then have "update_where (ob_sending k t) (ob_sent (case res of None \<Rightarrow> JObj [] | Some v \<Rightarrow> v) now) (db_outbound db)
          = db_outbound db"
        using rows SendConfirmed by simp
      then have "db' = db" using db'(1) rc by (auto simp: mark_sent_def Let_def)
      then show ?thesis using db'(2) by simp
    qed (use SendConfirmed in simp)
  qed (use no rows in \<open>auto simp: case_prod_unfold Let_def simp del: ob_settle_rows.simps\<close>)
qed

interpretation outbound_lease: claim_port "\<lambda>db. ob_ok (db_outbound db)" "\<lambda>db. ob_holds (db_outbound db)"
    "\<lambda>a. case a of SendDead _ _ \<Rightarrow> True | SendRetry _ _ _ \<Rightarrow> True | _ \<Rightarrow> False" ob_settle
    "\<lambda>cn t db. let (ids, rows') = ob_claim_ids cn t (db_outbound db) in (ids, db\<lparr>db_outbound := rows'\<rparr>)"
proof (unfold_locales, goal_cases)
  case (1 db a k t)
  then show ?case using ob_settle_cases [of a k t db] ob_ok_settle_rows [of "db_outbound db" a k t]
    by (metis snd_conv)
next
  case (2 db a k t)
  then show ?case using ob_settle_cases [of a k t db] outbound_rows.settle_holds [of "db_outbound db" a k t]
    by (metis fst_conv)
next
  case (3 db a k t)
  then show ?case
    using outbound_rows.settle_prompt [OF 3(1), of a k t]
    by (cases a) (auto simp: case_prod_unfold Let_def simp del: ob_settle_rows.simps)
next
  case (4 db a k t)
  then show ?case by (rule ob_settle_refused_same)
next
  case (5 db a k t t')
  then show ?case using ob_settle_cases [of a k t db] outbound_rows.settle_release [of "db_outbound db" a k t t']
    by (metis fst_conv snd_conv)
next
  case (6 db k' k a t t')
  then show ?case using ob_settle_cases [of a k t db] outbound_rows.settle_frame [of "db_outbound db" k' k a t t']
    by (metis snd_conv)
next
  case (7 db c t)
  then show ?case using outbound_rows.inv_claim [of "db_outbound db" c t] by (simp add: case_prod_unfold Let_def)
next
  case (8 db k c t t')
  then show ?case using outbound_rows.claim_grants [of "db_outbound db" k c t t'] by (simp add: case_prod_unfold Let_def)
next
  case (9 db k c t t')
  then show ?case using outbound_rows.claim_others [of "db_outbound db" k c t t'] by (simp add: case_prod_unfold Let_def)
qed

subsection \<open>Runs of the store\<close>

datatype ob_op =
    OEnqueue int string outbound_request
  | OClaim outbound_claim int string
  | ORenew int int string string
  | OSending int string string
  | OSettle ob_settlement string string

inductive ob_step :: "(string \<Rightarrow> string) \<Rightarrow> ob_op \<Rightarrow> conv_db \<Rightarrow> conv_db \<Rightarrow> bool" for sha where
  ob_enqueue: "enqueue_outbound_with_result sha now uuid a db = Inr (res, db') \<Longrightarrow> ob_step sha (OEnqueue now uuid a) db db'"
| ob_claim: "outbound_claim_due c now t db = Inr (claimed, db') \<Longrightarrow> ob_step sha (OClaim c now t) db db'"
| ob_renew: "outbound_renew_lease now secs k t db = Inr (b, db') \<Longrightarrow> ob_step sha (ORenew now secs k t) db db'"
| ob_sending: "mark_sending now k t db = (b, db') \<Longrightarrow> ob_step sha (OSending now k t) db db'"
| ob_settled: "ob_settle a k t db = (b, db') \<Longrightarrow> ob_step sha (OSettle a k t) db db'"

inductive_simps ob_step_simps:
  "ob_step sha (OEnqueue now uuid a) db db'"
  "ob_step sha (OClaim c now t) db db'"
  "ob_step sha (ORenew now secs k t) db db'"
  "ob_step sha (OSending now k t) db db'"
  "ob_step sha (OSettle a k t) db db'"

lemma outbound_claim_Inr:
  "outbound_claim_due c now t db = Inr (claimed, db') \<Longrightarrow>
     outbound_claim_txn c now t (db_outbound db) = (claimed, db_outbound db') \<and> db' = db\<lparr>db_outbound := db_outbound db'\<rparr>
     \<and> 1 \<le> oc_limit c \<and> 1 \<le> oc_lease_seconds c"
  by (auto simp: outbound_claim_due_def case_prod_unfold Let_def split: if_splits option.splits)

lemma ob_step_ok: "ob_step sha op db db' \<Longrightarrow> ob_ok (db_outbound db) \<Longrightarrow> ob_ok (db_outbound db')"
proof (induction rule: ob_step.induct)
  case (ob_claim c now t db claimed db')
  then show ?case using ob_ok_claim [of "db_outbound db" c now t] outbound_claim_Inr [OF ob_claim(1)] by simp
next
  case (ob_sending now k t db b db')
  then show ?case using ob_ok_sending [of db now k t] by simp
next
  case (ob_settled a k t db b db')
  then show ?case using outbound_lease.inv_settle [of db a k t] by simp
qed (auto intro: ob_ok_enqueue ob_ok_renew)

lemma steps_ob_ok: "steps (ob_step sha) ops db db' \<Longrightarrow> ob_ok (db_outbound db) \<Longrightarrow> ob_ok (db_outbound db')"
  by (erule steps_invariant) (auto intro: ob_step_ok)

subsection \<open>A confirmed send\<close>

definition sent_in_history :: "outbound_row \<Rightarrow> message_row \<Rightarrow> bool" where
  "sent_in_history r m \<longleftrightarrow> hm_tenant_id m = ob_tenant_id r \<and> hm_source_id m = ob_source_id r
     \<and> hm_channel m = ob_channel r \<and> hm_direction m = ''outbound'' \<and> hm_source_message_id m = ob_id r
     \<and> hm_text m = ob_text r \<and> ob_sent_at r = Some (hm_occurred_at m)"

definition sends_recorded :: "conv_db \<Rightarrow> bool" where
  "sends_recorded db \<longleftrightarrow>
     (\<forall>r \<in> set (db_outbound db). ob_status r = ObSent \<longrightarrow> (\<exists>m \<in> set (db_history db). sent_in_history r m))"

abbreviation sent_value :: "json option \<Rightarrow> json" where
  "sent_value res \<equiv> (case res of None \<Rightarrow> JObj [] | Some v \<Rightarrow> v)"

lemma insert_dialogue_message_keeps:
  "insert_dialogue_message n db = Inr db' \<Longrightarrow>
     db_messages db' = db_messages db @ [n] \<and> db_history db' = db_history db \<and> db_refs db' = db_refs db"
  by (auto simp: insert_defs split: if_splits)

lemma insert_reference_keeps:
  "insert_reference n db = Inr db' \<Longrightarrow>
     db_refs db' = db_refs db @ [n] \<and> db_history db' = db_history db \<and> db_messages db' = db_messages db"
  by (auto simp: insert_defs split: if_splits)

lemma project_effect:
  assumes "project_confirmed_dialogue_message now row result db = Inr db'"
  shows "db_history db' = db_history db
    \<and> (\<forall>t. ob_task_id row = Some t \<longrightarrow>
         sent_dialogue_message now row t (external_message_id (ob_channel row) result) \<in> set (db_messages db'))
    \<and> (ob_task_id row \<noteq> None \<or> ob_routing_question_id row \<noteq> None \<longrightarrow>
         (\<forall>x. external_message_id (ob_channel row) result = Some x \<longrightarrow>
            confirmed_reference now row x \<in> set (db_refs db')))"
proof (cases "ob_task_id row = None \<and> ob_routing_question_id row = None")
  case True
  with assms show ?thesis by (simp add: project_confirmed_dialogue_message_def)
next
  case False
  let ?x = "external_message_id (ob_channel row) result"
  obtain db2 where
    two: "(case ob_task_id row of
             None \<Rightarrow> Inr db
           | Some t \<Rightarrow>
               rbind (insert_dialogue_message (sent_dialogue_message now row t ?x) db) (\<lambda>db1.
                 Inr (db1\<lparr>db_tasks := update_where (task_in (ob_tenant_id row) (ob_source_id row) t)
                        (\<lambda>r. r\<lparr>dt_updated_at := now\<rparr>) (db_tasks db1)\<rparr>))) = Inr db2"
    and three: "(case ?x of None \<Rightarrow> Inr db2 | Some x \<Rightarrow> insert_reference (confirmed_reference now row x) db2) = Inr db'"
    using assms False by (auto simp: project_confirmed_dialogue_message_def Let_def rbind_eq_Inr)
  have "db_history db2 = db_history db
      \<and> (\<forall>t. ob_task_id row = Some t \<longrightarrow> sent_dialogue_message now row t ?x \<in> set (db_messages db2))"
    using two by (auto simp: rbind_eq_Inr dest!: insert_dialogue_message_keeps split: option.splits)
  moreover have "db_history db' = db_history db2 \<and> db_messages db' = db_messages db2
      \<and> (\<forall>x. ?x = Some x \<longrightarrow> confirmed_reference now row x \<in> set (db_refs db'))"
    using three by (auto dest!: insert_reference_keeps split: option.splits)
  ultimately show ?thesis by simp
qed

lemma mark_sent_effect:
  assumes "ob_inv (db_outbound db)" and "mark_sent now uuid res k t db = Inr (True, db')"
  shows "\<exists>r \<in> set (db_outbound db). ob_sending k t r
    \<and> ob_sent (sent_value res) now r \<in> set (db_outbound db')
    \<and> (\<exists>out. record_message (ob_created_at r) uuid (sent_history_args now r) (db_history db) = Inr (out, db_history db'))
    \<and> (\<forall>tid. ob_task_id r = Some tid \<longrightarrow>
         sent_dialogue_message now r tid (external_message_id (ob_channel r) (sent_value res)) \<in> set (db_messages db'))
    \<and> (ob_task_id r \<noteq> None \<or> ob_routing_question_id r \<noteq> None \<longrightarrow>
         (\<forall>x. external_message_id (ob_channel r) (sent_value res) = Some x \<longrightarrow>
            confirmed_reference now r x \<in> set (db_refs db')))"
proof -
  let ?f = "ob_sent (sent_value res) now" and ?p = "ob_sending k t"
  have one: "rowcount ?p (db_outbound db) = 1" and rows': "db_outbound db' = update_where ?p ?f (db_outbound db)"
    using mark_sent_outbound [OF assms(2)] by auto
  obtain r where r: "r \<in> set (db_outbound db)" "?p r"
    using one ob_rowcount [OF assms(1), of ?p k] by (auto dest: ob_held_id)
  have inv': "ob_inv (update_where ?p ?f (db_outbound db))"
    using assms(1) by (rule ob_inv_update) (simp, auto simp: ob_row_ok_def ob_sending_def ob_live_def ob_sent_def)
  have "?f r \<in> set (update_where ?p ?f (db_outbound db))" using r by (auto simp: set_update_where)
  then have fetch: "fetchone (\<lambda>x. ob_id x = k) (update_where ?p ?f (db_outbound db)) = Some (?f r)"
    using r(2) by (intro ob_fetch_pk [OF inv']) (auto simp: ob_sending_def)
  have same: "sent_history_args now (?f r) = sent_history_args now r" "ob_created_at (?f r) = ob_created_at r"
    "ob_task_id (?f r) = ob_task_id r" "ob_routing_question_id (?f r) = ob_routing_question_id r"
    "ob_channel (?f r) = ob_channel r" "confirmed_reference now (?f r) = confirmed_reference now r"
    "sent_dialogue_message now (?f r) = sent_dialogue_message now r"
    by (simp_all add: sent_history_args_def ob_sent_def confirmed_reference_def sent_dialogue_message_def fun_eq_iff)
  obtain out h where rec: "record_message (ob_created_at r) uuid (sent_history_args now r) (db_history db) = Inr (out, h)"
    and proj: "project_confirmed_dialogue_message now (?f r) (sent_value res)
       (db\<lparr>db_outbound := update_where ?p ?f (db_outbound db), db_history := h\<rparr>) = Inr db'"
    using assms(2) one fetch same
    by (auto simp: mark_sent_def Let_def rbind_eq_Inr)
  show ?thesis
    using r rec project_effect [OF proj] \<open>?f r \<in> _\<close> rows' by (intro bexI [of _ r]) (simp_all add: same)
qed

lemma recorded_sent:
  assumes "record_message created uuid (sent_history_args now r) h = Inr (out, h')"
  shows "\<exists>m \<in> set h'. sent_in_history (ob_sent v now r) m"
proof -
  have "hm_recorded (sent_history_args now r) h'"
    using assms by (rule record_message_records) (simp add: message_metadata_def sent_history_args_def)
  then obtain m where "m \<in> set h'" "hm_by_key (sent_history_args now r) m" "message_replay_matches (sent_history_args now r) m"
    by (auto simp: hm_recorded_def)
  then show ?thesis
    by (intro bexI [of _ m])
       (simp_all add: sent_in_history_def hm_by_key_def message_replay_matches_def sent_history_args_def ob_sent_def)
qed

lemma record_message_keeps: "record_message now uuid a h = Inr (out, h') \<Longrightarrow> set h \<subseteq> set h'"
  by (drule record_message_rows) auto

text \<open>The other operations make no row \<open>sent\<close> and keep the history.\<close>

lemma sends_recorded_rows:
  assumes "sends_recorded db"
    and "\<And>r. r \<in> set (db_outbound db') \<Longrightarrow> ob_status r = ObSent \<Longrightarrow> r \<in> set (db_outbound db)"
    and "set (db_history db) \<subseteq> set (db_history db')"
  shows "sends_recorded db'"
  using assms unfolding sends_recorded_def by blast

lemma sent_after_update:
  "r \<in> set (update_where p f rows) \<Longrightarrow> ob_status r = ObSent \<Longrightarrow> (\<And>x. ob_status (f x) \<noteq> ObSent) \<Longrightarrow> r \<in> set rows"
  by (auto simp: set_update_where)

lemma status_updates [simp]:
  "ob_status (ob_release st err now r) = st"
  "ob_status (ob_lease c now t r) = ObLeased"
  "ob_status (ob_sent v now r) = ObSent"
  by (simp_all add: ob_release_def ob_lease_def ob_sent_def)

lemma sent_after_claim:
  "r \<in> set (snd (outbound_claim_txn c now t rows)) \<Longrightarrow> ob_status r = ObSent \<Longrightarrow> r \<in> set rows"
  unfolding outbound_claim_txn_rows ob_cleanup_def Let_def by (auto dest!: sent_after_update)

lemma sends_recorded_settle:
  assumes "ob_ok (db_outbound db)" and "sends_recorded db" and "ob_settle a k t db = (b, db')"
  shows "sends_recorded db'"
proof (cases a)
  case (SendConfirmed now uuid res)
  show ?thesis
  proof (cases b)
    case True
    then have m: "mark_sent now uuid res k t db = Inr (True, db')"
      using assms(3) SendConfirmed by (cases "mark_sent now uuid res k t db") auto
    obtain r out where r: "r \<in> set (db_outbound db)" "ob_sending k t r"
      and rec: "record_message (ob_created_at r) uuid (sent_history_args now r) (db_history db) = Inr (out, db_history db')"
      using mark_sent_effect [OF _ m] assms(1) by (auto simp: ob_ok_def)
    have rows': "db_outbound db' = update_where (ob_sending k t) (ob_sent (sent_value res) now) (db_outbound db)"
      using mark_sent_outbound [OF m] by simp
    show ?thesis
      unfolding sends_recorded_def rows' ball_update_where
    proof (intro ballI impI)
      fix x assume x: "x \<in> set (db_outbound db)"
        and st: "ob_status (if ob_sending k t x then ob_sent (sent_value res) now x else x) = ObSent"
      show "\<exists>m \<in> set (db_history db'). sent_in_history (if ob_sending k t x then ob_sent (sent_value res) now x else x) m"
      proof (cases "ob_sending k t x")
        case True
        then have "x = r"
          using x r assms(1) by (auto simp: ob_ok_def dest!: ob_held_id(3) dest: distinct_map_eq [OF ob_inv_distinct])
        then show ?thesis using True recorded_sent [OF rec] by simp
      next
        case False
        with st x assms(2) record_message_keeps [OF rec] show ?thesis by (auto simp: sends_recorded_def)
      qed
    qed
  next
    case False
    then have "db' = db" using ob_settle_refused_same [OF assms(1), of a k t] assms(3) by simp
    then show ?thesis using assms(2) by simp
  qed
next
  case (SendUncertain now err)
  with assms(2,3) show ?thesis
    by (auto simp: outbound_mark_uncertain_def intro!: sends_recorded_rows [OF assms(2)] dest!: sent_after_update)
next
  case (SendDead now err)
  with assms(2,3) show ?thesis
    by (auto simp: outbound_mark_dead_letter_def intro!: sends_recorded_rows [OF assms(2)] dest!: sent_after_update)
next
  case (SendRetry now ra err)
  with assms(2,3) show ?thesis
    by (auto simp: outbound_mark_retry_def Let_def case_prod_unfold intro!: sends_recorded_rows [OF assms(2)]
        dest!: sent_after_update split: option.splits if_splits)
qed

definition conv_ok :: "conv_db \<Rightarrow> bool" where
  "conv_ok db \<longleftrightarrow> ob_ok (db_outbound db) \<and> hm_inv (db_history db) \<and> sends_recorded db"

lemma hm_inv_settle:
  assumes "ob_inv (db_outbound db)" and "hm_inv (db_history db)" and "ob_settle a k t db = (b, db')"
  shows "hm_inv (db_history db')"
proof (cases "\<exists>now uuid res. a = SendConfirmed now uuid res \<and> mark_sent now uuid res k t db = Inr (True, db')")
  case True
  then show ?thesis using mark_sent_effect [OF assms(1)] assms(2) by (blast intro: hm_inv_record)
next
  case False
  then have "db_history db' = db_history db"
    using assms(3)
    by (cases a) (auto simp: case_prod_unfold Let_def mark_sent_def rbind_eq_Inr
        split: sum.splits if_splits option.splits)
  then show ?thesis using assms(2) by simp
qed

lemma ob_step_conv_ok:
  assumes "ob_step sha op db db'" and "conv_ok db"
  shows "conv_ok db'"
proof -
  have "hm_inv (db_history db') \<and> sends_recorded db'"
    using assms
  proof (induction rule: ob_step.induct)
    case (ob_enqueue now uuid a db res db')
    then have "db_history db' = db_history db
        \<and> (\<forall>r \<in> set (db_outbound db'). ob_status r = ObSent \<longrightarrow> r \<in> set (db_outbound db))"
      by (auto dest!: enqueue_outbound_cases simp: insert_outbound_def new_outbound_row_def split: if_splits)
    with ob_enqueue.prems show ?case by (auto simp: conv_ok_def intro: sends_recorded_rows)
  next
    case (ob_claim c now t db claimed db')
    then have "outbound_claim_txn c now t (db_outbound db) = (claimed, db_outbound db')"
      "db_history db' = db_history db"
      by (auto dest: outbound_claim_Inr simp: outbound_claim_due_def case_prod_unfold Let_def split: if_splits)
    with ob_claim.prems sent_after_claim [of _ c now t "db_outbound db"] show ?case
      by (auto simp: conv_ok_def intro: sends_recorded_rows)
  next
    case (ob_renew now secs k t db b db')
    then have "db_history db' = db_history db
        \<and> (\<forall>r \<in> set (db_outbound db'). ob_status r = ObSent \<longrightarrow> r \<in> set (db_outbound db))"
      by (auto simp: outbound_renew_lease_def Let_def set_update_where ob_held_def ob_live_def split: if_splits)
    with ob_renew.prems show ?case by (auto simp: conv_ok_def intro: sends_recorded_rows)
  next
    case (ob_sending now k t db b db')
    then have "db_history db' = db_history db
        \<and> (\<forall>r \<in> set (db_outbound db'). ob_status r = ObSent \<longrightarrow> r \<in> set (db_outbound db))"
      by (auto simp: mark_sending_def Let_def set_update_where split: if_splits option.splits)
    with ob_sending.prems show ?case by (auto simp: conv_ok_def intro: sends_recorded_rows)
  next
    case (ob_settled a k t db b db')
    then show ?case by (auto simp: conv_ok_def ob_ok_def intro: hm_inv_settle sends_recorded_settle)
  qed
  moreover have "ob_ok (db_outbound db')" using assms by (auto simp: conv_ok_def intro: ob_step_ok)
  ultimately show ?thesis by (simp add: conv_ok_def)
qed

lemma steps_conv_ok: "steps (ob_step sha) ops db db' \<Longrightarrow> conv_ok db \<Longrightarrow> conv_ok db'"
  by (erule steps_invariant) (auto intro: ob_step_conv_ok)

subsection \<open>Rows are never lost\<close>

lemma ob_extend_update:
  assumes "\<And>r. p r \<Longrightarrow> \<not> ob_final r" and "\<And>r. ob_envelope (f r) = ob_envelope r"
    and "\<And>r. ob_attempts r \<le> ob_attempts (f r)"
  shows "rows_extend ob_evolves rows (update_where p f rows)"
  using assms by (intro rows_extend_update_where) (auto simp: ob_evolves_def)

lemma ob_extend_trans: "rows_extend ob_evolves a b \<Longrightarrow> rows_extend ob_evolves b c \<Longrightarrow> rows_extend ob_evolves a c"
  by (rule rows_extend_trans) (auto intro: ob_evolves_trans)

lemma ob_extend_cleanup: "rows_extend ob_evolves rows (ob_cleanup c now rows)"
proof -
  define rows1 where "rows1 = update_where (ob_send_lost c now)
    (ob_release ObUncertain (Some ''outbound send outcome is uncertain after lease expiry'') now) rows"
  define rows2 where "rows2 = update_where (ob_exhausted c now)
    (ob_release ObDeadLetter (Some ''outbound lease expired after the maximum number of attempts'') now) rows1"
  have 1: "rows_extend ob_evolves rows rows1" unfolding rows1_def
    by (rule ob_extend_update) (auto simp: ob_send_lost_def ob_final_def)
  have 2: "rows_extend ob_evolves rows1 rows2" unfolding rows2_def
    by (rule ob_extend_update) (auto simp: ob_exhausted_def ob_final_def)
  have 3: "rows_extend ob_evolves rows2 (update_where (ob_broken_sequence c rows2) (ob_release ObCancelled e now) rows2)" for e
    by (rule ob_extend_update) (auto simp: ob_broken_sequence_def ob_final_def)
  show ?thesis
    using ob_extend_trans [OF ob_extend_trans [OF 1 2] 3] by (simp add: ob_cleanup_def Let_def rows1_def rows2_def)
qed

lemma ob_extend_lease:
  assumes "ob_inv rows"
  shows "rows_extend ob_evolves rows
    (update_where (\<lambda>r. ob_id r \<in> set (map ob_id (ob_candidates c now rows))) (ob_lease c now t) rows)"
proof (rule rows_extend_update_where)
  fix r assume "r \<in> set rows" and "ob_id r \<in> set (map ob_id (ob_candidates c now rows))"
  then have "\<not> ob_final r" using ob_selected [OF assms] by (blast dest: ob_candidates_due ob_due_not_final)
  then show "ob_evolves r (ob_lease c now t r)" by (simp add: ob_evolves_def)
qed simp

lemma ob_extend_settle:
  assumes "ob_ok (db_outbound db)"
  shows "rows_extend ob_evolves (db_outbound db) (db_outbound (snd (ob_settle a k t db)))"
proof -
  obtain f where f: "ob_settle_rows a k t (db_outbound db) =
      (table_holds ob_id (ob_accepts a) ob_lease_token (db_outbound db) k t,
       update_where (row_held ob_id (ob_accepts a) ob_lease_token k t) f (db_outbound db))"
    and env: "\<And>r. ob_envelope (f r) = ob_envelope r"
    using ob_settle_form [of "db_outbound db" a k t] assms by (auto simp: ob_ok_def)
  have acc: "\<not> ob_final r" if "ob_accepts a r" for r
    using that by (cases a) (auto simp: ob_live_def ob_final_def)
  have att: "ob_attempts r \<le> ob_attempts (snd (ob_settle_rows a k t (db_outbound db)) ! i)"
    if "i < length (db_outbound db)" "r = db_outbound db ! i" for r i
    using that by (cases a)
      (auto simp: outbound_mark_uncertain_def outbound_mark_dead_letter_def outbound_mark_retry_def Let_def
        update_where_def case_prod_unfold split: option.splits if_splits)
  have rows: "rows_extend ob_evolves (db_outbound db) (snd (ob_settle_rows a k t (db_outbound db)))"
    unfolding rows_extend_def
  proof (intro conjI allI impI)
    fix i assume i: "i < length (db_outbound db)"
    let ?r = "db_outbound db ! i"
    have "snd (ob_settle_rows a k t (db_outbound db)) ! i =
        (if row_held ob_id (ob_accepts a) ob_lease_token k t ?r then f ?r else ?r)"
      using i by (simp add: f update_where_def)
    then show "ob_evolves ?r (snd (ob_settle_rows a k t (db_outbound db)) ! i)"
      using att [OF i refl] env acc by (auto simp: ob_evolves_def row_held_def split: if_splits)
  qed (simp add: f)
  show ?thesis
    using ob_settle_cases [of a k t db] rows rows_extend_refl [of ob_evolves] by (metis ob_evolves_refl snd_conv)
qed

lemma ob_held_not_final: "ob_held k t r \<Longrightarrow> \<not> ob_final r" "ob_leased k t r \<Longrightarrow> \<not> ob_final r"
  by (auto simp: ob_held_def ob_leased_def ob_live_def ob_final_def)

lemma ob_step_extend:
  assumes "ob_step sha op db db'" and "ob_ok (db_outbound db)"
  shows "rows_extend ob_evolves (db_outbound db) (db_outbound db')"
  using assms
proof (induction rule: ob_step.induct)
  case (ob_enqueue now uuid a db res db')
  then have "\<exists>new. db_outbound db' = db_outbound db @ new"
    by (auto dest!: enqueue_outbound_cases simp: insert_outbound_def split: if_splits)
  then show ?case using rows_extend_append [of ob_evolves "db_outbound db"] by auto
next
  case (ob_claim c now t db claimed db')
  then have "db_outbound db' = snd (outbound_claim_txn c now t (db_outbound db))"
    by (auto dest: outbound_claim_Inr)
  then show ?case
    using ob_extend_trans [OF ob_extend_cleanup ob_extend_lease] ob_cleanup_inv [OF ob_claim.prems]
    by (simp add: outbound_claim_txn_rows del: set_map)
next
  case (ob_renew now secs k t db b db')
  then show ?case
    by (auto simp: outbound_renew_lease_def Let_def split: if_splits
        intro!: ob_extend_update dest: ob_held_not_final)
next
  case (ob_sending now k t db b db')
  then show ?case
    by (auto simp: mark_sending_def Let_def split: if_splits option.splits
        intro!: ob_extend_update rows_extend_refl dest: ob_held_not_final)
next
  case (ob_settled a k t db b db')
  then show ?case using ob_extend_settle [of db a k t] by simp
qed

subsection \<open>The store keeps the contract of an idempotent command\<close>

definition ob_recorded :: "(string \<Rightarrow> string) \<Rightarrow> outbound_request \<Rightarrow> conv_db \<Rightarrow> bool" where
  "ob_recorded sha a db \<longleftrightarrow> validate_outbound_request a = Inr () \<and>
     (\<exists>r \<in> set (db_outbound db). ob_by_key a r \<and> outbound_replay_matches sha a r)"

lemma ob_fetch_by_key:
  assumes "ob_inv rows" and "r \<in> set rows" and "ob_by_key a r"
  shows "fetchone (ob_by_key a) rows = Some r"
  by (rule fetchone_pk [where k = ob_key]) (use assms in \<open>auto simp: ob_inv_def ob_by_key_def ob_key_def\<close>)

lemma enqueue_outbound_recorded:
  assumes "ob_ok (db_outbound db)" and "ob_recorded sha a db"
  shows "\<exists>i. enqueue_outbound_with_result sha now uuid a db = Inr ((i, False), db)"
proof -
  obtain r where "r \<in> set (db_outbound db)" "ob_by_key a r" "outbound_replay_matches sha a r"
    using assms(2) by (auto simp: ob_recorded_def)
  then show ?thesis
    using assms ob_fetch_by_key [of "db_outbound db" r a]
    by (simp add: enqueue_outbound_with_result_def ob_recorded_def ob_ok_def require_outbound_replay_def
        require_idempotent_replay_def)
qed

lemma enqueue_outbound_records:
  assumes "enqueue_outbound_with_result sha now uuid a db = Inr (res, db')"
  shows "ob_recorded sha a db'"
proof -
  have "ob_by_key a (new_outbound_row sha now uuid a)" "outbound_replay_matches sha a (new_outbound_row sha now uuid a)"
    by (simp_all add: ob_by_key_def outbound_replay_matches_def outbound_fingerprint_matches_def new_outbound_row_def)
  then show ?thesis
    using enqueue_outbound_cases [OF assms]
    by (auto simp: ob_recorded_def insert_outbound_def dest: fetchone_SomeD split: if_splits)
qed

interpretation outbound_idem: idempotent_store "\<lambda>db. ob_ok (db_outbound db)" "\<lambda>_. True"
    "\<lambda>a (now, uuid). enqueue_outbound_with_result sha now uuid a" "ob_recorded sha" "ob_step sha" for sha
proof (unfold_locales, goal_cases)
  case (3 db a e)
  then show ?case using enqueue_outbound_recorded [of db sha a] by (cases e) fastforce
next
  case (5 db l db' a)
  then obtain r where r: "r \<in> set (db_outbound db)" "ob_by_key a r" "outbound_replay_matches sha a r"
    "validate_outbound_request a = Inr ()"
    by (auto simp: ob_recorded_def)
  obtain r' where "r' \<in> set (db_outbound db')" "ob_evolves r r'"
    using rows_extend_member [OF ob_step_extend [OF 5(2,1)] r(1)] by auto
  then show ?case
    using r ob_envelope_eqD(11) [of r' r] ob_envelope_replay [of r' r]
    by (auto simp: ob_recorded_def ob_evolves_def)
qed (auto intro: ob_ok_enqueue enqueue_outbound_records ob_step_ok)

subsection \<open>Order and admission\<close>

lemma same_sequence_trans: "same_sequence s p \<Longrightarrow> same_sequence p r \<Longrightarrow> same_sequence s r"
  by (auto simp: same_sequence_def)

lemma ordered_chain:
  assumes "ob_ok rows" and "r \<in> set rows" and "1 \<le> ob_attempts r" and "ob_ordering_position r = Some p"
    and "1 \<le> q" and "q < p"
  shows "\<exists>s \<in> set rows. same_sequence s r \<and> ob_ordering_position s = Some q \<and> ob_status s = ObSent"
  using assms(2-6)
proof (induction "nat (p - q)" arbitrary: r p)
  case (Suc n)
  have "ob_row_ok r" using assms(1) Suc.prems(1) by (simp add: ob_ok_def ob_inv_def)
  then have "ob_ordering_key r \<noteq> None" using Suc.prems(3) by (auto simp: ob_row_ok_def)
  then obtain s where s: "s \<in> set rows" "predecessor s r" "ob_status s = ObSent"
    using assms(1) Suc.prems by (force simp: ob_ok_def ob_ordered_def ob_turn_def)
  then have seq: "same_sequence s r" and pos: "ob_ordering_position s = Some (p - 1)"
    using Suc.prems(3) by (auto simp: predecessor_def split: option.splits)
  show ?case
  proof (cases "q = p - 1")
    case True
    with s seq pos show ?thesis by auto
  next
    case False
    have "1 \<le> ob_attempts s" using assms(1) s by (auto simp: ob_ok_def ob_inv_def ob_row_ok_def)
    moreover have "n = nat (p - 1 - q)" using Suc.hyps(2) by simp
    ultimately obtain u where "u \<in> set rows" "same_sequence u s" "ob_ordering_position u = Some q" "ob_status u = ObSent"
      using Suc.hyps(1) [of "p - 1" s] s(1) pos Suc.prems(4,5) False by auto
    then show ?thesis using seq by (blast intro: same_sequence_trans)
  qed
qed simp

lemma lane_unique:
  assumes "ob_inv rows" and "s \<in> set rows" and "u \<in> set rows" and "same_sequence s r" and "same_sequence u r"
    and "ob_ordering_position s = Some q" and "ob_ordering_position u = Some q"
  shows "s = u"
proof -
  obtain k where "ob_ordering_key r = Some k" using assms(4) by (auto simp: same_sequence_def)
  then show ?thesis
    using assms by (intro unique_keyD [of ob_lane rows s u]) (auto simp: ob_inv_def ob_lane_def same_sequence_def)
qed

lemma mark_sending_iff:
  assumes "ob_inv (db_outbound db)"
  shows "fst (mark_sending now k t db) \<longleftrightarrow>
    (\<exists>r \<in> set (db_outbound db). ob_leased k t r \<and> null_gt (ob_lease_until r) now \<and> task_admission_is_current db r)"
proof -
  let ?p = "\<lambda>r. ob_leased k t r \<and> null_gt (ob_lease_until r) now"
  have same: "x = y" if "x \<in> set (db_outbound db)" "?p x" "y \<in> set (db_outbound db)" "?p y" for x y
    using that distinct_map_eq [OF ob_inv_distinct [OF assms]] by (metis ob_held_id(2))
  have rc: "rowcount ?p (db_outbound db) = 1 \<longleftrightarrow> (\<exists>r \<in> set (db_outbound db). ?p r)"
    by (rule ob_rowcount [OF assms, of _ k]) (auto dest: ob_held_id)
  show ?thesis
  proof (cases "fetchone ?p (db_outbound db)")
    case None
    then have "\<forall>r \<in> set (db_outbound db). \<not> ?p r" by (simp only: fetchone_None)
    then show ?thesis using None by (auto simp: mark_sending_def)
  next
    case (Some r)
    then have r: "r \<in> set (db_outbound db)" "?p r" by (auto dest: fetchone_SomeD)
    have "fst (mark_sending now k t db) = task_admission_is_current db r"
      using Some rc r by (auto simp: mark_sending_def Let_def)
    then show ?thesis using same r by metis
  qed
qed

lemma mark_sending_sent_rows:
  assumes "ob_inv (db_outbound db)" and "ob_leased k t r" and "r \<in> set (db_outbound db)"
    and "null_gt (ob_lease_until r) now"
  shows "if task_admission_is_current db r
    then mark_sending now k t db = (True, db\<lparr>db_outbound := update_where (\<lambda>x. x = r)
           (\<lambda>x. x\<lparr>ob_status := ObSending, ob_updated_at := now\<rparr>) (db_outbound db)\<rparr>)
    else mark_sending now k t db = (False, db\<lparr>db_outbound := update_where (\<lambda>x. x = r)
           (ob_release ObCancelled (Some ''dialogue task or routing question became stale before send admission'') now)
           (db_outbound db)\<rparr>)"
proof -
  let ?p = "\<lambda>r. ob_leased k t r \<and> null_gt (ob_lease_until r) now"
  have id: "ob_leased k t x \<longleftrightarrow> x = r" if "x \<in> set (db_outbound db)" for x
    using that assms distinct_map_eq [OF ob_inv_distinct [OF assms(1)], of x r] by (auto dest: ob_held_id(2))
  have upd: "update_where q f (db_outbound db) = update_where (\<lambda>x. x = r) f (db_outbound db)"
    if "\<And>x. x \<in> set (db_outbound db) \<Longrightarrow> q x \<longleftrightarrow> x = r" for q and f :: "outbound_row \<Rightarrow> outbound_row"
    using that by (simp add: update_where_def)
  have u1: "update_where (ob_leased k t) f (db_outbound db) = update_where (\<lambda>x. x = r) f (db_outbound db)" for f
    by (rule upd) (rule id)
  have u2: "update_where ?p f (db_outbound db) = update_where (\<lambda>x. x = r) f (db_outbound db)" for f
    by (rule upd) (use id assms(2,4) in auto)
  have "fetchone ?p (db_outbound db) = Some r"
    by (rule ob_fetch_pk [OF assms(1,3)]) (use assms in \<open>auto dest: ob_held_id(2)\<close>)
  moreover have "rowcount ?p (db_outbound db) = 1"
    by (subst ob_rowcount [OF assms(1), of _ k]) (use assms in \<open>auto dest: ob_held_id(2)\<close>)
  ultimately show ?thesis by (simp add: mark_sending_def u1 u2)
qed

subsection \<open>Properties\<close>

definition demo_request :: "string \<Rightarrow> int \<Rightarrow> outbound_request" where
  "demo_request key position = \<lparr>or_tenant_id = ''t'', or_source_id = ''s'', or_channel = ''telegram'',
     or_destination_id = ''chat'', or_text = ''hello'', or_idempotency_key = key, or_payload = None,
     or_priority = 100, or_run_after = None, or_max_attempts = 5, or_correlation_id = None,
     or_ordering_key = Some ''seq'', or_ordering_position = Some position, or_task_reference = None,
     or_reply_to_message_id = None, or_message_thread_id = None\<rparr>"

definition demo_outbound_claim :: outbound_claim where
  "demo_outbound_claim = \<lparr>oc_channel = ''telegram'', oc_limit = 10, oc_lease_owner = ''w'', oc_lease_seconds = 60,
     oc_tenant_id = None\<rparr>"

definition demo_queued :: "string \<Rightarrow> int \<Rightarrow> outbound_row" where
  "demo_queued key position = new_outbound_row (\<lambda>s. s) 5 key (demo_request key position)"

text \<open>The first message of the sequence is being sent, the second one is queued.\<close>

definition demo_sending_row :: outbound_row where
  "demo_sending_row = (ob_lease demo_outbound_claim 6 ''tok'' (demo_queued ''a'' 1))\<lparr>ob_status := ObSending\<rparr>"

definition demo_db :: conv_db where
  "demo_db = empty_conv_db\<lparr>db_outbound := [demo_sending_row, demo_queued ''b'' 2]\<rparr>"

lemmas demo_outbound_defs = demo_sending_row_def demo_queued_def new_outbound_row_def demo_request_def ob_lease_def
  demo_outbound_claim_def new_outbound_id_def ref_task_id_def ref_task_revision_def ref_question_id_def
  ref_question_revision_def

lemma demo_row_columns:
  "ob_id demo_sending_row = ''out_a''" "ob_id (demo_queued ''b'' 2) = ''out_b''"
  "ob_key demo_sending_row \<noteq> ob_key (demo_queued ''b'' 2)"
  "ob_lane demo_sending_row = Some (''t'', ''s'', ''telegram'', ''seq'', 1)"
  "ob_lane (demo_queued ''b'' 2) = Some (''t'', ''s'', ''telegram'', ''seq'', 2)"
  "ob_turn rows demo_sending_row" "ob_attempts (demo_queued ''b'' 2) = 0" "ob_attempts demo_sending_row = 1"
  by (simp_all add: demo_outbound_defs ob_key_def ob_lane_def ob_turn_def)

lemma demo_rows_ok: "ob_row_ok demo_sending_row" "ob_row_ok (demo_queued ''b'' 2)"
  by (simp_all add: ob_row_ok_def ob_live_def demo_outbound_defs)

lemma demo_db_ok: "conv_ok demo_db"
proof -
  have "ob_inv (db_outbound demo_db)"
    using demo_rows_ok
    by (simp add: ob_inv_def demo_db_def demo_row_columns unique_key_def)
  moreover have "ob_ordered (db_outbound demo_db)"
    by (simp add: ob_ordered_def demo_db_def demo_row_columns)
  moreover have "sends_recorded demo_db"
    by (simp add: sends_recorded_def demo_db_def demo_outbound_defs)
  ultimately show ?thesis by (simp add: conv_ok_def ob_ok_def demo_db_def empty_conv_db_def)
qed

definition demo_db_sent :: conv_db where
  "demo_db_sent = demo_db\<lparr>db_outbound := [ob_sent (JObj []) 8 demo_sending_row, demo_queued ''b'' 2],
     db_history := [new_message_row 5 ''h'' (sent_history_args 8 demo_sending_row)]\<rparr>"

lemma demo_mark_sent: "mark_sent 8 ''h'' None ''out_a'' ''tok'' demo_db = Inr (True, demo_db_sent)"
proof -
  have s: "ob_sending ''out_a'' ''tok'' demo_sending_row" "\<not> ob_sending ''out_a'' ''tok'' (demo_queued ''b'' 2)"
    by (simp_all add: ob_sending_def demo_outbound_defs)
  have c: "ob_created_at (ob_sent v n demo_sending_row) = 5"
    "sent_history_args n (ob_sent v m demo_sending_row) = sent_history_args n demo_sending_row"
    "ob_task_id (ob_sent v n demo_sending_row) = None" "ob_routing_question_id (ob_sent v n demo_sending_row) = None" for v n m
    by (simp_all add: ob_sent_def sent_history_args_def demo_outbound_defs)
  have "validate_message (sent_history_args 8 demo_sending_row) = Inr ()"
    by (simp add: validate_message_def validate_scope_def sent_history_args_def demo_outbound_defs blank_def
        is_space_def py_whitespace_def)
  then have "record_message 5 ''h'' (sent_history_args 8 demo_sending_row) []
      = Inr ((hm_id (new_message_row 5 ''h'' (sent_history_args 8 demo_sending_row)), True),
             [new_message_row 5 ''h'' (sent_history_args 8 demo_sending_row)])"
    by (simp add: record_message_def Let_def hm_insert_def)
  then show ?thesis
    by (simp add: mark_sent_def Let_def demo_db_def s c demo_row_columns project_confirmed_dialogue_message_def
        demo_db_sent_def empty_conv_db_def)
qed

text \<open>The outbound queue keeps its invariant in every run of enqueue, claim, renew, admission and
  settlement calls: ids, idempotency keys and sequence positions stay unique, a row has a lease exactly
  while it is leased or sending, a row is \<open>sent\<close> exactly when it has a send time, and every sent
  message is in the conversation history with its text and send time.\<close>

theorem outbound_run_invariant:
  assumes "conv_ok db" and "steps (ob_step sha) ops db db'"
  shows "ob_inv (db_outbound db') \<and> hm_inv (db_history db')
    \<and> (\<forall>r \<in> set (db_outbound db'). ob_status r = ObSent \<longrightarrow> (\<exists>m \<in> set (db_history db'). sent_in_history r m))"
  using steps_conv_ok [OF assms(2,1)] by (simp add: conv_ok_def ob_ok_def sends_recorded_def)

theorem outbound_run_invariant_witness:
  "ob_inv (db_outbound demo_db_sent) \<and> hm_inv (db_history demo_db_sent)
    \<and> (\<exists>m \<in> set (db_history demo_db_sent). sent_in_history (ob_sent (JObj []) 8 demo_sending_row) m)"
proof -
  have "steps (ob_step (\<lambda>s. s)) [OSettle (SendConfirmed 8 ''h'' None) ''out_a'' ''tok''] demo_db demo_db_sent"
    by (auto simp: ob_step_simps demo_mark_sent)
  moreover have "ob_sent (JObj []) 8 demo_sending_row \<in> set (db_outbound demo_db_sent)" by (simp add: demo_db_sent_def)
  ultimately show ?thesis using outbound_run_invariant [OF demo_db_ok] by (metis status_updates(3))
qed

text \<open>C4: Ordered delivery: in every reachable state, once a message at position \<open>p\<close> of a sequence has
  been attempted even once, each earlier position \<open>q\<close> of the same sequence holds exactly one message
  and it has been sent.\<close>

theorem outbound_ordered_delivery:
  assumes "ob_ok (db_outbound db)" and "steps (ob_step sha) ops db db'" and "r \<in> set (db_outbound db')"
    and "1 \<le> ob_attempts r" and "ob_ordering_position r = Some p" and "1 \<le> q" and "q < p"
  shows "\<exists>s \<in> set (db_outbound db'). same_sequence s r \<and> ob_ordering_position s = Some q \<and> ob_status s = ObSent
    \<and> (\<forall>u \<in> set (db_outbound db'). same_sequence u r \<and> ob_ordering_position u = Some q \<longrightarrow> u = s)"
proof -
  have ok: "ob_ok (db_outbound db')" using assms(1,2) by (blast intro: steps_ob_ok)
  obtain s where "s \<in> set (db_outbound db')" "same_sequence s r" "ob_ordering_position s = Some q" "ob_status s = ObSent"
    using ordered_chain [OF ok assms(3-7)] by blast
  moreover have "ob_inv (db_outbound db')" using ok by (simp add: ob_ok_def)
  ultimately show ?thesis using lane_unique by blast
qed

lemma demo_claim_second:
  "outbound_claim_due demo_outbound_claim 9 ''tok2'' demo_db_sent =
     Inr ([ob_lease demo_outbound_claim 9 ''tok2'' (demo_queued ''b'' 2)],
          demo_db_sent\<lparr>db_outbound := [ob_sent (JObj []) 8 demo_sending_row,
             ob_lease demo_outbound_claim 9 ''tok2'' (demo_queued ''b'' 2)]\<rparr>)"
proof -
  let ?s = "ob_sent (JObj []) 8 demo_sending_row" and ?q = "demo_queued ''b'' 2"
  have st: "ob_status ?s = ObSent" "ob_status ?q = ObQueued" by (simp_all add: demo_outbound_defs)
  have clean: "ob_cleanup demo_outbound_claim 9 [?s, ?q] = [?s, ?q]"
    by (simp add: ob_cleanup_def Let_def ob_send_lost_def ob_exhausted_def ob_broken_sequence_def st)
  have "predecessor ?s ?q" by (simp add: predecessor_def same_sequence_def ob_sent_def demo_outbound_defs)
  then have "ob_due demo_outbound_claim 9 [?s, ?q] ?q"
    by (simp add: ob_due_def ob_turn_def ob_scope_def st) (simp add: demo_outbound_defs)
  moreover have "\<not> ob_due demo_outbound_claim 9 [?s, ?q] ?s" by (simp add: ob_due_def st)
  ultimately have cand: "ob_candidates demo_outbound_claim 9 [?s, ?q] = [?q]"
    by (simp add: ob_candidates_def select_where_def order_by_def) (simp add: demo_outbound_claim_def)
  have ids: "ob_id ?s \<noteq> ob_id ?q" by (simp add: demo_outbound_defs)
  then have txn: "outbound_claim_txn demo_outbound_claim 9 ''tok2'' [?s, ?q]
      = ([ob_lease demo_outbound_claim 9 ''tok2'' ?q], [?s, ob_lease demo_outbound_claim 9 ''tok2'' ?q])"
    by (simp add: outbound_claim_txn_def clean cand select_where_def order_by_def)
  have "db_outbound demo_db_sent = [?s, ?q]" by (simp add: demo_db_sent_def)
  then show ?thesis
    by (simp add: outbound_claim_due_def txn) (simp add: demo_outbound_claim_def)
qed

theorem outbound_ordered_delivery_witness:
  "\<exists>s \<in> {ob_sent (JObj []) 8 demo_sending_row, ob_lease demo_outbound_claim 9 ''tok2'' (demo_queued ''b'' 2)}.
     same_sequence s (ob_lease demo_outbound_claim 9 ''tok2'' (demo_queued ''b'' 2))
     \<and> ob_ordering_position s = Some 1 \<and> ob_status s = ObSent"
proof -
  let ?l = "ob_lease demo_outbound_claim 9 ''tok2'' (demo_queued ''b'' 2)"
  let ?db = "demo_db_sent\<lparr>db_outbound := [ob_sent (JObj []) 8 demo_sending_row, ?l]\<rparr>"
  have ok: "ob_ok (db_outbound demo_db)" using demo_db_ok by (simp add: conv_ok_def)
  have run: "steps (ob_step (\<lambda>s. s))
      [OSettle (SendConfirmed 8 ''h'' None) ''out_a'' ''tok'', OClaim demo_outbound_claim 9 ''tok2''] demo_db ?db"
    using demo_claim_second by (auto simp: ob_step_simps demo_mark_sent)
  have "ob_ordering_position ?l = Some 2" "1 \<le> ob_attempts ?l" by (simp_all add: demo_outbound_defs)
  then have "\<exists>s \<in> set (db_outbound ?db). same_sequence s ?l \<and> ob_ordering_position s = Some 1 \<and> ob_status s = ObSent
      \<and> (\<forall>u \<in> set (db_outbound ?db). same_sequence u ?l \<and> ob_ordering_position u = Some 1 \<longrightarrow> u = s)"
    by (intro outbound_ordered_delivery [OF ok run, where p = 2]) simp_all
  then show ?thesis by auto
qed

text \<open>A message is settled at most once per claim and only by its current holder: whatever sequence
  of sent, uncertain, dead-letter and retry calls workers issue with whatever tokens, at most one
  succeeds for a message until it is claimed again, none when nobody holds it; and after a claim under
  a new token every call with another token is refused and changes nothing.\<close>

theorem outbound_settled_at_most_once:
  assumes "ob_ok (db_outbound db)"
  shows "wins (\<lambda>(a, k', t). k' = k) calls (fst (run_ops (\<lambda>(a, k, t). ob_settle a k t) calls db))
      \<le> (if \<exists>t. ob_holds (db_outbound db) k t then 1 else 0)
    \<and> (\<forall>c now token token' claimed db' r a. outbound_claim_due c now token db = Inr (claimed, db')
         \<longrightarrow> r \<in> set claimed \<longrightarrow> token' \<noteq> token \<longrightarrow> ob_settle a (ob_id r) token' db' = (False, db'))"
proof (intro conjI allI impI)
  show "wins (\<lambda>(a, k', t). k' = k) calls (fst (run_ops (\<lambda>(a, k, t). ob_settle a k t) calls db))
      \<le> (if \<exists>t. ob_holds (db_outbound db) k t then 1 else 0)"
    using assms by (rule outbound_lease.settle_at_most_once)
  fix c now token token' claimed db' r a
  assume claim: "outbound_claim_due c now token db = Inr (claimed, db')" and r: "r \<in> set claimed" and "token' \<noteq> token"
  have "ob_claim_ids (c, now) token (db_outbound db) = (map ob_id claimed, db_outbound db')"
    and "db' = db\<lparr>db_outbound := db_outbound db'\<rparr>"
    using outbound_claim_Inr [OF claim] by (auto simp: ob_claim_ids_def)
  then show "ob_settle a (ob_id r) token' db' = (False, db')"
    using outbound_lease.fenced_after_reclaim [OF assms, of "ob_id r" "(c, now)" token token' a] r \<open>token' \<noteq> token\<close>
    by simp
qed

theorem outbound_settled_at_most_once_witness:
  "wins (\<lambda>(a, k', t). k' = ''out_a'')
     [(SendConfirmed 8 ''h'' None, ''out_a'', ''tok''), (SendDead 9 ''late'', ''out_a'', ''tok'')]
     (fst (run_ops (\<lambda>(a, k, t). ob_settle a k t)
        [(SendConfirmed 8 ''h'' None, ''out_a'', ''tok''), (SendDead 9 ''late'', ''out_a'', ''tok'')] demo_db)) \<le> 1"
proof -
  have "ob_ok (db_outbound demo_db)" using demo_db_ok by (simp add: conv_ok_def)
  from conjunct1 [OF outbound_settled_at_most_once [OF this, of "''out_a''"
      "[(SendConfirmed 8 ''h'' None, ''out_a'', ''tok''), (SendDead 9 ''late'', ''out_a'', ''tok'')]"]]
  show ?thesis by (rule order_trans) simp
qed

text \<open>Send admission: a message whose holder asks to send it before its lease runs out is admitted
  exactly when the dialogue task or routing question it speaks for is still current (active or
  pending, at the revision the message was written for); a stale one is cancelled at once, and
  nothing else changes.\<close>

theorem outbound_send_admission:
  assumes "ob_inv (db_outbound db)" and "r \<in> set (db_outbound db)" and "ob_leased k t r"
    and "null_gt (ob_lease_until r) now"
  shows "if task_admission_is_current db r
    then mark_sending now k t db = (True, db\<lparr>db_outbound := update_where (\<lambda>x. x = r)
           (\<lambda>x. x\<lparr>ob_status := ObSending, ob_updated_at := now\<rparr>) (db_outbound db)\<rparr>)
    else mark_sending now k t db = (False, db\<lparr>db_outbound := update_where (\<lambda>x. x = r)
           (ob_release ObCancelled (Some ''dialogue task or routing question became stale before send admission'') now)
           (db_outbound db)\<rparr>)"
  by (rule mark_sending_sent_rows [OF assms(1,3,2,4)])

definition demo_stale_row :: outbound_row where
  "demo_stale_row = (ob_lease demo_outbound_claim 6 ''tok'' (demo_queued ''a'' 1))
     \<lparr>ob_task_id := Some ''task'', ob_task_revision := Some 1\<rparr>"

theorem outbound_send_admission_witness:
  "mark_sending 7 ''out_a'' ''tok'' (empty_conv_db\<lparr>db_outbound := [demo_stale_row]\<rparr>) = (False,
     empty_conv_db\<lparr>db_outbound := [ob_release ObCancelled
        (Some ''dialogue task or routing question became stale before send admission'') 7 demo_stale_row]\<rparr>)"
proof -
  let ?db = "empty_conv_db\<lparr>db_outbound := [demo_stale_row]\<rparr>"
  have "ob_row_ok demo_stale_row" by (simp add: ob_row_ok_def ob_live_def demo_stale_row_def demo_outbound_defs)
  then have "ob_inv (db_outbound ?db)" by (simp add: ob_inv_def unique_key_def split: option.split)
  moreover have "ob_leased ''out_a'' ''tok'' demo_stale_row" "null_gt (ob_lease_until demo_stale_row) 7"
    by (simp_all add: ob_leased_def demo_stale_row_def demo_outbound_defs)
  moreover have "\<not> task_admission_is_current ?db demo_stale_row"
    by (simp add: task_admission_is_current_def demo_stale_row_def empty_conv_db_def)
  ultimately show ?thesis
    using outbound_send_admission [of ?db demo_stale_row "''out_a''" "''tok''" 7] by simp
qed

text \<open>A confirmed send is atomic with its records: when \<open>mark_sent\<close> answers true, the message was
  being sent under that token; it is now \<open>sent\<close>; its text is recorded in the history; a message of
  a dialogue task has its assistant message in the dialogue; and when the channel returned an
  identifier, the reference from that identifier to the task or question is confirmed.\<close>

theorem outbound_mark_sent_records:
  assumes "ob_inv (db_outbound db)" and "mark_sent now uuid res k t db = Inr (True, db')"
  shows "\<exists>r \<in> set (db_outbound db). ob_sending k t r
    \<and> ob_sent (sent_value res) now r \<in> set (db_outbound db')
    \<and> (\<exists>m \<in> set (db_history db'). sent_in_history (ob_sent (sent_value res) now r) m)
    \<and> (\<forall>tid. ob_task_id r = Some tid \<longrightarrow>
         sent_dialogue_message now r tid (external_message_id (ob_channel r) (sent_value res)) \<in> set (db_messages db'))
    \<and> (ob_task_id r \<noteq> None \<or> ob_routing_question_id r \<noteq> None \<longrightarrow>
         (\<forall>x. external_message_id (ob_channel r) (sent_value res) = Some x \<longrightarrow>
            confirmed_reference now r x \<in> set (db_refs db')))"
  using mark_sent_effect [OF assms] recorded_sent by blast

theorem outbound_mark_sent_records_witness:
  "\<exists>r \<in> set (db_outbound demo_db). ob_sending ''out_a'' ''tok'' r
    \<and> ob_sent (JObj []) 8 r \<in> set (db_outbound demo_db_sent)
    \<and> (\<exists>m \<in> set (db_history demo_db_sent). sent_in_history (ob_sent (JObj []) 8 r) m)"
proof -
  have "ob_inv (db_outbound demo_db)" using demo_db_ok by (simp add: conv_ok_def ob_ok_def)
  then show ?thesis using outbound_mark_sent_records [OF _ demo_mark_sent] by fastforce
qed

text \<open>Enqueueing a message is idempotent: after a request went through, and whatever the store does
  in between, issuing the same request again any number of times answers and changes nothing, so the
  message is not sent twice on account of a retry by the caller.\<close>

theorem enqueue_outbound_idempotent:
  assumes "ob_ok (db_outbound db)" and "enqueue_outbound_with_result sha now uuid a db = Inr (res, db1)"
    and "steps (ob_step sha) ops db1 db2"
  shows "\<exists>rs. replay_all (\<lambda>(now, uuid). enqueue_outbound_with_result sha now uuid a) again db2 = Inr (rs, db2)"
  using outbound_idem.replay_absorbed [where s = db and c = a and sha = sha and e = "(now, uuid)" and r = res
      and ?s1.0 = db1 and ls = ops and ?s2.0 = db2 and es = again] assms by simp

lemma demo_request_valid: "validate_outbound_request (demo_request key 1) = Inr ()"
  by (simp add: validate_outbound_request_def demo_request_def blank_def is_space_def py_whitespace_def
      positive_opt_def validate_telegram_reply_fields_def)

theorem enqueue_outbound_idempotent_witness:
  "\<exists>rs. replay_all (\<lambda>(now, uuid). enqueue_outbound_with_result (\<lambda>s. s) now uuid (demo_request ''a'' 1))
     [(20, ''x''), (30, ''y'')] (empty_conv_db\<lparr>db_outbound := [demo_queued ''a'' 1]\<rparr>)
     = Inr (rs, empty_conv_db\<lparr>db_outbound := [demo_queued ''a'' 1]\<rparr>)"
proof -
  have first: "enqueue_outbound_with_result (\<lambda>s. s) 5 ''a'' (demo_request ''a'' 1) empty_conv_db
      = Inr ((new_outbound_id ''a'', True), empty_conv_db\<lparr>db_outbound := [demo_queued ''a'' 1]\<rparr>)"
    by (simp add: enqueue_outbound_with_result_def demo_request_valid empty_conv_db_def insert_outbound_def
        demo_queued_def) (simp add: demo_request_def)
  have "ob_ok (db_outbound empty_conv_db)"
    by (simp add: ob_ok_def ob_inv_def ob_ordered_def empty_conv_db_def)
  then show ?thesis by (rule enqueue_outbound_idempotent [OF _ first steps_Nil])
qed

end
