(* ===== verification/Dialogue.thy ===== *)
theory Dialogue
  imports Outbound
begin

section \<open>Dialogue tasks and routing plans\<close>

text \<open>
  Models \<open>dialogue/contracts.py\<close> (the validated plan data) and \<open>dialogue/store.py\<close>: a routing plan assigns
  each input of a conversation to a task or to a routing question, creates and ends tasks, and
  suppresses the outbound messages of tasks and questions that are no longer current, all in one
  transaction.  \<open>uuid i\<close> is the random identifier drawn while the input \<open>i\<close> is routed.
\<close>

subsection \<open>Plan data\<close>

record dialogue_input =
  in_input_id :: string
  in_actor_id :: string
  in_text :: string
  in_occurred_at :: int
  in_channel :: string
  in_source_message_id :: "string option"
  in_reply_to_message_id :: "string option"
  in_message_thread_id :: "string option"

datatype route_action = RCreate | RAttach | RQuestion | RResolve | RClose | RCancel | RStatus

record dialogue_route =
  rt_input_id :: string
  rt_action :: route_action
  rt_task_id :: "string option"
  rt_task_key :: "string option"
  rt_title :: "string option"
  rt_question_id :: "string option"
  rt_question_revision :: "int option"
  rt_question_text :: "string option"
  rt_candidates :: "question_candidate list"
  rt_has_more_candidates :: bool
  rt_response_text :: "string option"

record dialogue_plan =
  pl_plan_id :: string
  pl_scope :: conversation_scope
  pl_inputs :: "dialogue_input list"
  pl_routes :: "dialogue_route list"

record dialogue_assignment =
  as_input_id :: string
  as_task_id :: "string option"
  as_question_id :: "string option"
  as_task_revision :: "int option"
  as_question_revision :: "int option"
  as_task_status :: "task_state option"

record dialogue_plan_result =
  dpr_plan_id :: string
  dpr_assignments :: "dialogue_assignment list"

subsection \<open>Validated constructors\<close>

definition longer_than :: "nat \<Rightarrow> string option \<Rightarrow> bool" where
  "longer_than n v = (case v of None \<Rightarrow> False | Some s \<Rightarrow> length s > n)"

definition DialogueInput :: "dialogue_input \<Rightarrow> dialogue_input result" where
  "DialogueInput i =
     (if blank (in_input_id i) then Inl (ValueError ''input_id must be a non-empty string'')
      else if blank (in_actor_id i) then Inl (ValueError ''actor_id must be a non-empty string'')
      else if blank (in_channel i) then Inl (ValueError ''channel must be a non-empty string'')
      else if blank (in_text i) then Inl (ValueError ''text must be a non-empty string'')
      else if given_blank (in_source_message_id i)
        then Inl (ValueError ''source_message_id must be a non-empty string when provided'')
      else if given_blank (in_reply_to_message_id i)
        then Inl (ValueError ''reply_to_message_id must be a non-empty string when provided'')
      else if given_blank (in_message_thread_id i)
        then Inl (ValueError ''message_thread_id must be a non-empty string when provided'')
      else Inr i)"

definition DialogueQuestionCandidate :: "question_candidate \<Rightarrow> question_candidate result" where
  "DialogueQuestionCandidate c =
     (if blank (qc_task_id c) then Inl (ValueError ''candidate task_id must be non-empty'')
      else if blank (qc_title c) then Inl (ValueError ''candidate title must be non-empty'')
      else if qc_revision c < 1 then Inl (ValueError ''candidate revision must be positive'')
      else Inr c)"

definition new_task_key :: "string \<Rightarrow> string" where
  "new_task_key input_id = ''new:'' @ input_id"

definition route_target :: "dialogue_route \<Rightarrow> string option" where
  "route_target r = (case rt_task_id r of Some t \<Rightarrow> Some t | None \<Rightarrow> rt_task_key r)"

definition DialogueRoute :: "dialogue_route \<Rightarrow> dialogue_route result" where
  "DialogueRoute r =
     (if blank (rt_input_id r) then Inl (ValueError ''input_id must be non-empty'')
      else if rt_action r \<noteq> RStatus \<and> rt_response_text r \<noteq> None
        then Inl (ValueError ''response_text is reserved for status acknowledgements'')
      else case rt_action r of
        RCreate \<Rightarrow>
          if blank_opt (rt_task_key r) \<or> blank_opt (rt_title r) \<or> rt_task_id r \<noteq> None
          then Inl (ValueError ''create route requires task_key and title only'')
          else if rt_task_key r \<noteq> Some (new_task_key (rt_input_id r))
          then Inl (ValueError ''new task key must be derived from the first input id'')
          else Inr r
      | RStatus \<Rightarrow>
          if blank_opt (rt_response_text r) \<or> longer_than 2000 (rt_response_text r)
          then Inl (ValueError ''status requires a bounded host-generated response'')
          else if blank_opt (rt_task_id r) \<or> rt_task_key r \<noteq> None
          then Inl (ValueError ''status requires an existing task_id'')
          else Inr r
      | RAttach \<Rightarrow>
          if (rt_task_id r = None) = (rt_task_key r = None)
          then Inl (ValueError ''attach route requires exactly one of task_id or task_key'')
          else if blank_opt (route_target r) then Inl (ValueError ''attach target must be non-empty'')
          else Inr r
      | RQuestion \<Rightarrow>
          if (case rt_question_id r of None \<Rightarrow> True | Some q \<Rightarrow> q = [])
             \<or> blank_opt (rt_question_text r) \<or> rt_task_id r \<noteq> None \<or> rt_task_key r \<noteq> None
             \<or> rt_question_revision r \<noteq> None \<and> \<not> positive_opt (rt_question_revision r)
          then Inl (ValueError ''question route requires question_id and question_text and no task target'')
          else Inr r
      | RResolve \<Rightarrow>
          if blank_opt (rt_question_id r) \<or> \<not> positive_opt (rt_question_revision r)
             \<or> \<not> ((\<not> blank_opt (rt_task_id r) \<and> rt_task_key r = None \<and> rt_title r = None)
                  \<or> (rt_task_id r = None \<and> \<not> blank_opt (rt_task_key r)
                     \<and> rt_task_key r = Some (new_task_key (rt_input_id r)) \<and> \<not> blank_opt (rt_title r)))
          then Inl (ValueError (''resolve_question route requires question_id/revision and either an existing task_id ''
                 @ ''or a new task_key/title derived from this input''))
          else Inr r
      | RClose \<Rightarrow>
          if (rt_task_id r = None) = (rt_task_key r = None)
          then Inl (ValueError ''close route requires exactly one of task_id or task_key'')
          else if blank_opt (route_target r) then Inl (ValueError ''close target must be non-empty'')
          else Inr r
      | RCancel \<Rightarrow>
          if (rt_task_id r = None) = (rt_task_key r = None)
          then Inl (ValueError ''cancel route requires exactly one of task_id or task_key'')
          else if blank_opt (route_target r) then Inl (ValueError ''cancel target must be non-empty'')
          else Inr r)"

definition DialoguePlan :: "dialogue_plan \<Rightarrow> dialogue_plan result" where
  "DialoguePlan p =
     (if blank (pl_plan_id p) then Inl (ValueError ''plan_id must be non-empty'')
      else if pl_inputs p = [] then Inl (ValueError ''at least one dialogue input is required'')
      else if \<not> distinct (map in_input_id (pl_inputs p)) \<or> \<not> distinct (map rt_input_id (pl_routes p))
        then Inl (ValueError ''dialogue input and route ids must be unique within a plan'')
      else if set (map in_input_id (pl_inputs p)) \<noteq> set (map rt_input_id (pl_routes p))
        then Inl (ValueError ''every input must have exactly one route'')
      else Inr p)"

subsection \<open>Plan bounds\<close>

definition route_by_input :: "dialogue_plan \<Rightarrow> string \<Rightarrow> dialogue_route result" where
  "route_by_input plan input_id =
     (case map_of (rev (map (\<lambda>r. (rt_input_id r, r)) (pl_routes plan))) input_id of
        None \<Rightarrow> Inl (KeyError input_id) | Some r \<Rightarrow> Inr r)"

definition bad_title :: "dialogue_route \<Rightarrow> bool" where
  "bad_title r = (blank_opt (rt_title r) \<or> longer_than 256 (rt_title r))"

definition validate_plan_item :: "dialogue_plan \<Rightarrow> dialogue_input \<Rightarrow> unit result" where
  "validate_plan_item plan item =
     (if length (in_text item) > 16000 then Inl (ValueError ''input text exceeds 16000 characters'')
      else if length (in_input_id item) > 256 \<or> length (in_actor_id item) > 256 \<or> length (in_channel item) > 64
        \<or> longer_than 256 (in_source_message_id item) \<or> longer_than 256 (in_reply_to_message_id item)
        \<or> longer_than 256 (in_message_thread_id item)
        then Inl (ValueError ''dialogue input identifiers exceed their storage bounds'')
      else rbind (route_by_input plan (in_input_id item)) (\<lambda>route.
        if rt_action route = RCreate \<and> bad_title route
        then Inl (ValueError ''task title must contain 1 to 256 characters'')
        else if rt_action route = RResolve \<and> rt_task_key route \<noteq> None \<and> bad_title route
        then Inl (ValueError ''task title must contain 1 to 256 characters'')
        else if rt_action route = RQuestion then
          (case rt_question_text route of
             None \<Rightarrow> Inl AssertionError
           | Some text \<Rightarrow>
               if length text > 4000 then Inl (ValueError ''routing question exceeds 4000 characters'')
               else if length (rt_candidates route) > 50
               then Inl (ValueError ''at most 50 candidates may be snapshotted'')
               else if \<exists>c \<in> set (rt_candidates route). length (qc_task_id c) > 256 \<or> length (qc_title c) > 256
                         \<or> longer_than 240 (qc_excerpt c)
               then Inl (ValueError ''routing question candidate data exceeds its storage bounds'')
               else Inr ())
        else Inr ()))"

fun validate_plan_items :: "dialogue_plan \<Rightarrow> dialogue_input list \<Rightarrow> unit result" where
  "validate_plan_items plan [] = Inr ()"
| "validate_plan_items plan (i # is) = rbind (validate_plan_item plan i) (\<lambda>_. validate_plan_items plan is)"

definition validate_plan :: "dialogue_plan \<Rightarrow> unit result" where
  "validate_plan plan =
     (if length (pl_plan_id plan) > 256 then Inl (ValueError ''plan_id must be at most 256 characters'')
      else validate_plan_items plan (pl_inputs plan))"

subsection \<open>Plans and results as JSON\<close>

fun action_text :: "route_action \<Rightarrow> string" where
  "action_text RCreate = ''create''"
| "action_text RAttach = ''attach''"
| "action_text RQuestion = ''question''"
| "action_text RResolve = ''resolve_question''"
| "action_text RClose = ''close''"
| "action_text RCancel = ''cancel''"
| "action_text RStatus = ''status''"

fun task_state_text :: "task_state \<Rightarrow> string" where
  "task_state_text TaskActive = ''active''"
| "task_state_text TaskClosed = ''closed''"
| "task_state_text TaskCancelled = ''cancelled''"

definition input_json :: "dialogue_input \<Rightarrow> json" where
  "input_json i = JObj
    [(''input_id'', JStr (in_input_id i)), (''actor_id'', JStr (in_actor_id i)), (''text'', JStr (in_text i)),
     (''occurred_at'', JInt (in_occurred_at i)), (''channel'', JStr (in_channel i)),
     (''source_message_id'', opt_str (in_source_message_id i)),
     (''reply_to_message_id'', opt_str (in_reply_to_message_id i)),
     (''message_thread_id'', opt_str (in_message_thread_id i))]"

definition candidate_json :: "question_candidate \<Rightarrow> json" where
  "candidate_json c = JObj [(''task_id'', JStr (qc_task_id c)), (''title'', JStr (qc_title c)),
     (''revision'', JInt (qc_revision c)), (''excerpt'', opt_str (qc_excerpt c))]"

definition route_json :: "dialogue_route \<Rightarrow> json" where
  "route_json r = JObj (
    [(''input_id'', JStr (rt_input_id r)), (''action'', JStr (action_text (rt_action r))),
     (''task_id'', opt_str (rt_task_id r)), (''task_key'', opt_str (rt_task_key r)),
     (''title'', opt_str (rt_title r)), (''question_id'', opt_str (rt_question_id r)),
     (''question_revision'', opt_int (rt_question_revision r)),
     (''question_text'', opt_str (rt_question_text r)),
     (''candidates'', JArr (map candidate_json (rt_candidates r))),
     (''has_more_candidates'', JBool (rt_has_more_candidates r))]
    @ (case rt_response_text r of None \<Rightarrow> [] | Some t \<Rightarrow> [(''response_text'', JStr t)]))"

definition plan_data :: "dialogue_plan \<Rightarrow> json" where
  "plan_data p = JObj
    [(''plan_id'', JStr (pl_plan_id p)),
     (''scope'', JObj [(''tenant_id'', JStr (cs_tenant_id (pl_scope p))), (''source_id'', JStr (cs_source_id (pl_scope p)))]),
     (''inputs'', JArr (map input_json (pl_inputs p))),
     (''routes'', JArr (map route_json (pl_routes p)))]"

definition assignment_json :: "dialogue_assignment \<Rightarrow> json" where
  "assignment_json a = JObj
    [(''input_id'', JStr (as_input_id a)), (''task_id'', opt_str (as_task_id a)),
     (''question_id'', opt_str (as_question_id a)), (''task_revision'', opt_int (as_task_revision a)),
     (''question_revision'', opt_int (as_question_revision a)),
     (''task_status'', (case as_task_status a of None \<Rightarrow> JNull | Some s \<Rightarrow> JStr (task_state_text s)))]"

definition plan_result_json :: "dialogue_plan_result \<Rightarrow> json" where
  "plan_result_json r = JObj [(''plan_id'', JStr (dpr_plan_id r)),
     (''assignments'', JArr (map assignment_json (dpr_assignments r)))]"

text \<open>Reading them back; a missing field or a field of another type is a \<open>KeyError\<close>.\<close>

definition field :: "string \<Rightarrow> json \<Rightarrow> json option" where
  "field k v = (case v of JObj kvs \<Rightarrow> map_of kvs k | _ \<Rightarrow> None)"

definition str_field :: "string \<Rightarrow> json \<Rightarrow> string result" where
  "str_field k v = (case field k v of Some (JStr s) \<Rightarrow> Inr s | _ \<Rightarrow> Inl (KeyError k))"

definition int_field :: "string \<Rightarrow> json \<Rightarrow> int result" where
  "int_field k v = (case field k v of Some (JInt s) \<Rightarrow> Inr s | _ \<Rightarrow> Inl (KeyError k))"

definition bool_field :: "string \<Rightarrow> json \<Rightarrow> bool result" where
  "bool_field k v = (case field k v of Some (JBool s) \<Rightarrow> Inr s | _ \<Rightarrow> Inl (KeyError k))"

definition arr_field :: "string \<Rightarrow> json \<Rightarrow> json list result" where
  "arr_field k v = (case field k v of Some (JArr s) \<Rightarrow> Inr s | _ \<Rightarrow> Inl (KeyError k))"

text \<open>An optional field: absent means the dataclass default \<open>None\<close>.\<close>

definition opt_str_field :: "string \<Rightarrow> json \<Rightarrow> string option result" where
  "opt_str_field k v = (case field k v of None \<Rightarrow> Inr None | Some JNull \<Rightarrow> Inr None
     | Some (JStr s) \<Rightarrow> Inr (Some s) | _ \<Rightarrow> Inl (KeyError k))"

definition opt_int_field :: "string \<Rightarrow> json \<Rightarrow> int option result" where
  "opt_int_field k v = (case field k v of None \<Rightarrow> Inr None | Some JNull \<Rightarrow> Inr None
     | Some (JInt s) \<Rightarrow> Inr (Some s) | _ \<Rightarrow> Inl (KeyError k))"

fun all_results :: "('a \<Rightarrow> 'b result) \<Rightarrow> 'a list \<Rightarrow> 'b list result" where
  "all_results f [] = Inr []"
| "all_results f (x # xs) = rbind (f x) (\<lambda>y. rbind (all_results f xs) (\<lambda>ys. Inr (y # ys)))"

definition read_action :: "string \<Rightarrow> route_action result" where
  "read_action s =
     (if s = ''create'' then Inr RCreate else if s = ''attach'' then Inr RAttach
      else if s = ''question'' then Inr RQuestion else if s = ''resolve_question'' then Inr RResolve
      else if s = ''close'' then Inr RClose else if s = ''cancel'' then Inr RCancel
      else if s = ''status'' then Inr RStatus else Inl (ValueError ''unsupported dialogue route action''))"

definition read_task_state :: "string \<Rightarrow> task_state result" where
  "read_task_state s =
     (if s = ''active'' then Inr TaskActive else if s = ''closed'' then Inr TaskClosed
      else if s = ''cancelled'' then Inr TaskCancelled else Inl (ValueError s))"

definition read_assignment :: "json \<Rightarrow> dialogue_assignment result" where
  "read_assignment v =
     rbind (str_field ''input_id'' v) (\<lambda>i.
     rbind (opt_str_field ''task_id'' v) (\<lambda>t.
     rbind (opt_str_field ''question_id'' v) (\<lambda>q.
     rbind (opt_int_field ''task_revision'' v) (\<lambda>tr.
     rbind (opt_int_field ''question_revision'' v) (\<lambda>qr.
     rbind (opt_str_field ''task_status'' v) (\<lambda>s.
     rbind (case s of None \<Rightarrow> Inr None | Some x \<Rightarrow> rbind (read_task_state x) (\<lambda>y. Inr (Some y))) (\<lambda>st.
       Inr \<lparr>as_input_id = i, as_task_id = t, as_question_id = q, as_task_revision = tr,
            as_question_revision = qr, as_task_status = st\<rparr>)))))))"

definition plan_result_of :: "json \<Rightarrow> dialogue_plan_result result" where
  "plan_result_of v =
     rbind (str_field ''plan_id'' v) (\<lambda>i.
     rbind (arr_field ''assignments'' v) (\<lambda>as.
     rbind (all_results read_assignment as) (\<lambda>xs.
       Inr \<lparr>dpr_plan_id = i, dpr_assignments = xs\<rparr>)))"

definition read_input :: "json \<Rightarrow> dialogue_input result" where
  "read_input v =
     rbind (str_field ''input_id'' v) (\<lambda>i.
     rbind (str_field ''actor_id'' v) (\<lambda>a.
     rbind (str_field ''text'' v) (\<lambda>t.
     rbind (int_field ''occurred_at'' v) (\<lambda>o'.
     rbind (str_field ''channel'' v) (\<lambda>c.
     rbind (opt_str_field ''source_message_id'' v) (\<lambda>s.
     rbind (opt_str_field ''reply_to_message_id'' v) (\<lambda>r.
     rbind (opt_str_field ''message_thread_id'' v) (\<lambda>m.
       DialogueInput \<lparr>in_input_id = i, in_actor_id = a, in_text = t, in_occurred_at = o', in_channel = c,
         in_source_message_id = s, in_reply_to_message_id = r, in_message_thread_id = m\<rparr>))))))))"

definition read_candidate :: "json \<Rightarrow> question_candidate result" where
  "read_candidate v =
     rbind (str_field ''task_id'' v) (\<lambda>i.
     rbind (str_field ''title'' v) (\<lambda>t.
     rbind (int_field ''revision'' v) (\<lambda>r.
     rbind (opt_str_field ''excerpt'' v) (\<lambda>x.
       DialogueQuestionCandidate \<lparr>qc_task_id = i, qc_title = t, qc_revision = r, qc_excerpt = x\<rparr>))))"

definition read_route :: "json \<Rightarrow> dialogue_route result" where
  "read_route v =
     rbind (str_field ''input_id'' v) (\<lambda>i.
     rbind (rbind (str_field ''action'' v) read_action) (\<lambda>a.
     rbind (opt_str_field ''task_id'' v) (\<lambda>t.
     rbind (opt_str_field ''task_key'' v) (\<lambda>k.
     rbind (opt_str_field ''title'' v) (\<lambda>ti.
     rbind (opt_str_field ''question_id'' v) (\<lambda>q.
     rbind (opt_int_field ''question_revision'' v) (\<lambda>qr.
     rbind (opt_str_field ''question_text'' v) (\<lambda>qt.
     rbind (rbind (arr_field ''candidates'' v) (all_results read_candidate)) (\<lambda>cs.
     rbind (bool_field ''has_more_candidates'' v) (\<lambda>h.
     rbind (opt_str_field ''response_text'' v) (\<lambda>rt.
       DialogueRoute \<lparr>rt_input_id = i, rt_action = a, rt_task_id = t, rt_task_key = k, rt_title = ti,
         rt_question_id = q, rt_question_revision = qr, rt_question_text = qt, rt_candidates = cs,
         rt_has_more_candidates = h, rt_response_text = rt\<rparr>)))))))))))"

definition dialogue_plan_of :: "json \<Rightarrow> dialogue_plan result" where
  "dialogue_plan_of v =
     rbind (case field ''scope'' v of None \<Rightarrow> Inl (KeyError ''scope'') | Some s \<Rightarrow> Inr s) (\<lambda>s.
     rbind (rbind (str_field ''tenant_id'' s) (\<lambda>t. rbind (str_field ''source_id'' s) (ConversationScope t))) (\<lambda>scope.
     rbind (rbind (arr_field ''inputs'' v) (all_results read_input)) (\<lambda>inputs.
     rbind (rbind (arr_field ''routes'' v) (all_results read_route)) (\<lambda>routes.
     rbind (str_field ''plan_id'' v) (\<lambda>i.
       DialoguePlan \<lparr>pl_plan_id = i, pl_scope = scope, pl_inputs = inputs, pl_routes = routes\<rparr>)))))"

subsection \<open>Statements of a plan\<close>

abbreviation tenant_of :: "dialogue_plan \<Rightarrow> string" where
  "tenant_of plan \<equiv> cs_tenant_id (pl_scope plan)"

abbreviation source_of :: "dialogue_plan \<Rightarrow> string" where
  "source_of plan \<equiv> cs_source_id (pl_scope plan)"

definition get_task_row :: "conv_db \<Rightarrow> conversation_scope \<Rightarrow> string \<Rightarrow> task_row option" where
  "get_task_row db scope task_id = fetchone (task_in (cs_tenant_id scope) (cs_source_id scope) task_id) (db_tasks db)"

definition get_question_row :: "conv_db \<Rightarrow> conversation_scope \<Rightarrow> string \<Rightarrow> question_row option" where
  "get_question_row db scope q = fetchone (question_in (cs_tenant_id scope) (cs_source_id scope) q) (db_questions db)"

definition new_task_id :: "string \<Rightarrow> string" where
  "new_task_id uuid = ''task_'' @ uuid"

definition new_task_row :: "int \<Rightarrow> conversation_scope \<Rightarrow> string \<Rightarrow> string \<Rightarrow> string \<Rightarrow> task_row" where
  "new_task_row now scope task_id title request = \<lparr>
     dt_id = task_id, dt_tenant_id = cs_tenant_id scope, dt_source_id = cs_source_id scope, dt_title = title,
     dt_original_request = request, dt_status = TaskActive, dt_revision = 1, dt_created_at = now,
     dt_updated_at = now, dt_terminal_at = None\<rparr>"

definition new_input_row ::
  "int \<Rightarrow> string \<Rightarrow> conversation_scope \<Rightarrow> dialogue_input \<Rightarrow> string option \<Rightarrow> string option \<Rightarrow> input_row" where
  "new_input_row now plan_id scope item task_id question_id = \<lparr>
     di_input_id = in_input_id item, di_tenant_id = cs_tenant_id scope, di_source_id = cs_source_id scope,
     di_actor_id = in_actor_id item, di_text = in_text item, di_occurred_at = in_occurred_at item,
     di_channel = in_channel item, di_source_message_id = in_source_message_id item,
     di_reply_to_message_id = in_reply_to_message_id item, di_message_thread_id = in_message_thread_id item,
     di_task_id = task_id, di_question_id = question_id, di_plan_id = plan_id, di_created_at = now\<rparr>"

definition insert_input ::
  "int \<Rightarrow> string \<Rightarrow> conversation_scope \<Rightarrow> dialogue_input \<Rightarrow> string option \<Rightarrow> string option \<Rightarrow> conv_db \<Rightarrow> conv_db result" where
  "insert_input now plan_id scope item task_id question_id db =
     insert_input_row (new_input_row now plan_id scope item task_id question_id) db"

definition insert_input_message :: "conversation_scope \<Rightarrow> dialogue_input \<Rightarrow> string \<Rightarrow> conv_db \<Rightarrow> conv_db result" where
  "insert_input_message scope item task_id db = insert_dialogue_message \<lparr>
     dm_message_id = ''input_'' @ in_input_id item, dm_tenant_id = cs_tenant_id scope,
     dm_source_id = cs_source_id scope, dm_task_id = task_id, dm_role = User, dm_actor_id = Some (in_actor_id item),
     dm_text = in_text item, dm_occurred_at = in_occurred_at item, dm_input_id = Some (in_input_id item),
     dm_source_message_id = in_source_message_id item\<rparr> db"

definition insert_message_from_input_row :: "input_row \<Rightarrow> string \<Rightarrow> conv_db \<Rightarrow> conv_db result" where
  "insert_message_from_input_row r task_id db = insert_dialogue_message \<lparr>
     dm_message_id = ''input_'' @ di_input_id r, dm_tenant_id = di_tenant_id r, dm_source_id = di_source_id r,
     dm_task_id = task_id, dm_role = User, dm_actor_id = Some (di_actor_id r), dm_text = di_text r,
     dm_occurred_at = di_occurred_at r, dm_input_id = Some (di_input_id r),
     dm_source_message_id = di_source_message_id r\<rparr> db"

definition touch_task :: "int \<Rightarrow> conversation_scope \<Rightarrow> string \<Rightarrow> conv_db \<Rightarrow> conv_db" where
  "touch_task now scope task_id db = db\<lparr>db_tasks :=
     update_where (task_in (cs_tenant_id scope) (cs_source_id scope) task_id) (\<lambda>r. r\<lparr>dt_updated_at := now\<rparr>) (db_tasks db)\<rparr>"

definition focus_of :: "string \<Rightarrow> string \<Rightarrow> string \<Rightarrow> focus_row \<Rightarrow> bool" where
  "focus_of tenant source actor r = (df_tenant_id r = tenant \<and> df_source_id r = source \<and> df_actor_id r = actor)"

text \<open>\<open>INSERT \<dots> ON CONFLICT DO UPDATE\<close>, under the foreign key on the task.\<close>

definition set_focus :: "int \<Rightarrow> conversation_scope \<Rightarrow> string \<Rightarrow> string \<Rightarrow> conv_db \<Rightarrow> conv_db result" where
  "set_focus now scope actor task_id db =
     (let p = focus_of (cs_tenant_id scope) (cs_source_id scope) actor in
      if \<not> fk_task db (cs_tenant_id scope) (cs_source_id scope) (Some task_id) then Inl IntegrityError
      else if \<exists>r \<in> set (db_focus db). p r
      then Inr (db\<lparr>db_focus := update_where p (\<lambda>r. r\<lparr>df_task_id := task_id, df_updated_at := now\<rparr>) (db_focus db)\<rparr>)
      else Inr (db\<lparr>db_focus := db_focus db @ [\<lparr>df_tenant_id = cs_tenant_id scope, df_source_id = cs_source_id scope,
             df_actor_id = actor, df_task_id = task_id, df_updated_at = now\<rparr>]\<rparr>))"

definition ob_pending :: "outbound_row \<Rightarrow> bool" where
  "ob_pending r = (ob_status r = ObQueued \<or> ob_status r = ObRetrying \<or> ob_status r = ObLeased)"

definition suppress :: "(outbound_row \<Rightarrow> bool) \<Rightarrow> string \<Rightarrow> int \<Rightarrow> conversation_scope \<Rightarrow> conv_db \<Rightarrow> conv_db" where
  "suppress p reason now scope db = db\<lparr>db_outbound :=
     update_where (\<lambda>r. ob_tenant_id r = cs_tenant_id scope \<and> ob_source_id r = cs_source_id scope \<and> p r \<and> ob_pending r)
       (ob_release ObCancelled (Some reason) now) (db_outbound db)\<rparr>"

definition suppress_task_outbound :: "string \<Rightarrow> int \<Rightarrow> conversation_scope \<Rightarrow> string \<Rightarrow> conv_db \<Rightarrow> conv_db" where
  "suppress_task_outbound reason now scope task_id = suppress (\<lambda>r. ob_task_id r = Some task_id) reason now scope"

definition suppress_question_outbound :: "int \<Rightarrow> conversation_scope \<Rightarrow> string \<Rightarrow> conv_db \<Rightarrow> conv_db" where
  "suppress_question_outbound now scope q =
     suppress (\<lambda>r. ob_routing_question_id r = Some q) ''routing question resolved before send admission'' now scope"

definition suppress_question_generation_outbound :: "int \<Rightarrow> conversation_scope \<Rightarrow> string \<Rightarrow> int \<Rightarrow> conv_db \<Rightarrow> conv_db" where
  "suppress_question_generation_outbound now scope q revision =
     suppress (\<lambda>r. ob_routing_question_id r = Some q \<and> ob_routing_question_revision r = Some revision)
       ''routing question generation refreshed before send admission'' now scope"

definition resolve_task_target :: "dialogue_route \<Rightarrow> (string \<rightharpoonup> string) \<Rightarrow> string result" where
  "resolve_task_target route local_tasks = (case rt_task_id route of
     Some t \<Rightarrow> Inr t
   | None \<Rightarrow> (case Option.bind (rt_task_key route) local_tasks of
       None \<Rightarrow> Inl (DialogueConflictError ''local task key does not refer to an earlier creation in this plan'')
     | Some t \<Rightarrow> Inr t))"

definition attach_input ::
  "int \<Rightarrow> string \<Rightarrow> conversation_scope \<Rightarrow> dialogue_input \<Rightarrow> string \<Rightarrow> conv_db \<Rightarrow> conv_db result" where
  "attach_input now plan_id scope item task_id db = (case get_task_row db scope task_id of
     None \<Rightarrow> Inl (DialogueConflictError ''dialogue task is unavailable or terminal'')
   | Some row \<Rightarrow>
       if dt_status row \<noteq> TaskActive then Inl (DialogueConflictError ''dialogue task is unavailable or terminal'')
       else rbind (insert_input now plan_id scope item (Some task_id) None db) (\<lambda>db1.
            rbind (insert_input_message scope item task_id db1) (\<lambda>db2.
              Inr (touch_task now scope task_id db2))))"

subsection \<open>Routing questions\<close>

text \<open>The candidates of a question are snapshotted from current, distinct tasks.\<close>

fun question_candidates_from ::
  "conv_db \<Rightarrow> conversation_scope \<Rightarrow> string set \<Rightarrow> question_candidate list \<Rightarrow> question_candidate list result" where
  "question_candidates_from db scope seen [] = Inr []"
| "question_candidates_from db scope seen (c # cs) =
     (if qc_task_id c \<in> seen
      then Inl (DialogueConflictError ''routing question candidate list contains duplicate tasks'')
      else case get_task_row db scope (qc_task_id c) of
        None \<Rightarrow> Inl (DialogueConflictError ''routing question candidate is stale or unavailable'')
      | Some row \<Rightarrow>
          if dt_status row \<noteq> TaskActive \<or> dt_revision row \<noteq> qc_revision c
          then Inl (DialogueConflictError ''routing question candidate is stale or unavailable'')
          else rbind (question_candidates_from db scope (insert (qc_task_id c) seen) cs) (\<lambda>out.
            Inr (\<lparr>qc_task_id = dt_id row, qc_title = dt_title row, qc_revision = dt_revision row,
                  qc_excerpt = Some (prefix_chars 240 (dt_original_request row))\<rparr> # out)))"

definition question_candidates ::
  "conv_db \<Rightarrow> conversation_scope \<Rightarrow> question_candidate list \<Rightarrow> question_candidate list result" where
  "question_candidates db scope cs = question_candidates_from db scope {} cs"

definition reference_to :: "conversation_scope \<Rightarrow> string \<Rightarrow> string \<Rightarrow> reference_row \<Rightarrow> bool" where
  "reference_to scope channel external r = (dr_tenant_id r = cs_tenant_id scope \<and> dr_source_id r = cs_source_id scope
     \<and> dr_channel r = channel \<and> dr_external_message_id r = external)"

definition reply_reference :: "conv_db \<Rightarrow> conversation_scope \<Rightarrow> dialogue_input \<Rightarrow> reference_row option" where
  "reply_reference db scope item = (case in_reply_to_message_id item of
     None \<Rightarrow> None
   | Some m \<Rightarrow> fetchone (reference_to scope (in_channel item) m) (db_refs db))"

definition create_or_extend_question ::
  "int \<Rightarrow> conversation_scope \<Rightarrow> dialogue_input \<Rightarrow> dialogue_route \<Rightarrow> string \<Rightarrow> string \<Rightarrow> conv_db \<Rightarrow> (int \<times> conv_db) result" where
  "create_or_extend_question now scope item route question_id question_text db =
     (case get_question_row db scope question_id of
        Some existing \<Rightarrow>
          let current_revision = dq_revision existing in
          if dq_status existing \<noteq> QPending
          then Inl (DialogueConflictError ''routing question id was reused with changed or terminal input'')
          else if rt_question_revision route \<noteq> None \<and> rt_question_revision route \<noteq> Some current_revision
          then Inl (DialogueConflictError ''routing question refresh was based on a stale question revision'')
          else if dq_actor_id existing \<noteq> in_actor_id item
               \<and> \<not> (case reply_reference db scope item of None \<Rightarrow> False | Some r \<Rightarrow> dr_question_id r = Some question_id)
          then Inl (DialogueConflictError
                 ''another actor may extend a routing question only by replying to its confirmed message'')
          else rbind (question_candidates db scope (rt_candidates route)) (\<lambda>expected.
            if \<not> (dq_text existing \<noteq> question_text \<or> dq_candidates_json existing \<noteq> expected
                  \<or> dq_has_more_candidates existing \<noteq> rt_has_more_candidates route)
            then Inr (current_revision, db)
            else if rt_question_revision route = None
            then Inl (DialogueConflictError ''a routing question refresh requires its expected revision'')
            else
              let p = (\<lambda>r. question_in (cs_tenant_id scope) (cs_source_id scope) question_id r
                         \<and> dq_status r = QPending \<and> dq_revision r = current_revision)
              in if rowcount p (db_questions db) \<noteq> 1
                 then Inl (DialogueConflictError ''routing question changed concurrently'')
                 else Inr (current_revision + 1,
                   suppress_question_generation_outbound now scope question_id current_revision
                     (db\<lparr>db_questions := update_where p
                        (\<lambda>r. r\<lparr>dq_text := question_text, dq_candidates_json := expected,
                              dq_has_more_candidates := rt_has_more_candidates route,
                              dq_revision := dq_revision r + 1\<rparr>) (db_questions db)\<rparr>)))
      | None \<Rightarrow>
          if rt_question_revision route \<noteq> None
          then Inl (DialogueConflictError ''a new routing question cannot name a previous revision'')
          else rbind (question_candidates db scope (rt_candidates route)) (\<lambda>candidates.
               rbind (insert_question \<lparr>dq_id = question_id, dq_tenant_id = cs_tenant_id scope,
                        dq_source_id = cs_source_id scope, dq_actor_id = in_actor_id item, dq_text = question_text,
                        dq_status = QPending, dq_revision = 1, dq_candidates_json = candidates,
                        dq_has_more_candidates = rt_has_more_candidates route, dq_resolved_task_id = None,
                        dq_created_at = now, dq_resolved_at = None\<rparr> db)
                 (\<lambda>db'. Inr (1, db'))))"

text \<open>Who may resolve a question: a reply to the confirmed message of this very revision, or the
  question's own actor once that revision has been delivered.\<close>

definition confirmed_generation :: "conversation_scope \<Rightarrow> string \<Rightarrow> int \<Rightarrow> reference_row \<Rightarrow> bool" where
  "confirmed_generation scope q revision r = (dr_tenant_id r = cs_tenant_id scope
     \<and> dr_source_id r = cs_source_id scope \<and> dr_question_id r = Some q \<and> dr_question_revision r = Some revision)"

definition resolution_allowed ::
  "conv_db \<Rightarrow> conversation_scope \<Rightarrow> dialogue_input \<Rightarrow> question_row \<Rightarrow> string \<Rightarrow> int \<Rightarrow> unit result" where
  "resolution_allowed db scope item question q revision = (case in_reply_to_message_id item of
     Some m \<Rightarrow>
       (case fetchone (reference_to scope (in_channel item) m) (db_refs db) of
          None \<Rightarrow> Inl (DialogueConflictError ''reply does not refer to this question's confirmed message'')
        | Some r \<Rightarrow>
            if dr_question_id r \<noteq> Some q
               \<or> (case dr_question_revision r of None \<Rightarrow> 0 | Some n \<Rightarrow> n) \<noteq> revision
            then Inl (DialogueConflictError ''reply does not refer to this question's confirmed message'')
            else Inr ())
   | None \<Rightarrow>
       if dq_actor_id question \<noteq> in_actor_id item
       then Inl (DialogueConflictError
              ''another actor may resolve a question only by replying to its confirmed message'')
       else if fetchone (confirmed_generation scope q revision) (db_refs db) = None
       then Inl (DialogueConflictError ''semantic routing question resolution requires confirmed delivery'')
       else Inr ())"

definition original_input :: "conversation_scope \<Rightarrow> string \<Rightarrow> input_row \<Rightarrow> bool" where
  "original_input scope q r = (di_tenant_id r = cs_tenant_id scope \<and> di_source_id r = cs_source_id scope
     \<and> di_question_id r = Some q \<and> di_task_id r = None)"

fun reassign_inputs :: "conversation_scope \<Rightarrow> string \<Rightarrow> input_row list \<Rightarrow> conv_db \<Rightarrow> conv_db result" where
  "reassign_inputs scope task_id [] db = Inr db"
| "reassign_inputs scope task_id (old # rest) db =
     (let p = (\<lambda>r. di_tenant_id r = cs_tenant_id scope \<and> di_source_id r = cs_source_id scope
                 \<and> di_input_id r = di_input_id old \<and> di_task_id r = None)
      in if rowcount p (db_inputs db) \<noteq> 1
         then Inl (DialogueConflictError ''routing question input was assigned concurrently'')
         else rbind (insert_message_from_input_row old task_id
                (db\<lparr>db_inputs := update_where p (\<lambda>r. r\<lparr>di_task_id := Some task_id\<rparr>) (db_inputs db)\<rparr>))
              (reassign_inputs scope task_id rest))"

text \<open>The task a resolution selects: a new one for the first original input, or an offered candidate
  that has not changed since.\<close>

definition resolution_task ::
  "int \<Rightarrow> string \<Rightarrow> conversation_scope \<Rightarrow> dialogue_route \<Rightarrow> question_row \<Rightarrow> input_row \<Rightarrow> conv_db \<Rightarrow> (string \<times> conv_db) result" where
  "resolution_task now uuid scope route question first db = (case rt_task_key route of
     Some _ \<Rightarrow>
       (case rt_title route of
          None \<Rightarrow> Inl AssertionError
        | Some title \<Rightarrow>
            rbind (insert_task (new_task_row now scope (new_task_id uuid) title (di_text first)) db) (\<lambda>db'.
              Inr (new_task_id uuid, db')))
   | None \<Rightarrow>
       (case rt_task_id route of
          None \<Rightarrow> Inl AssertionError
        | Some task_id \<Rightarrow>
            (case fetchone (\<lambda>c. qc_task_id c = task_id) (dq_candidates_json question) of
               None \<Rightarrow> Inl (DialogueConflictError ''selected task was not offered by this routing question'')
             | Some selected \<Rightarrow>
                 (case get_task_row db scope task_id of
                    None \<Rightarrow> Inl (DialogueConflictError ''selected task changed after the routing question was issued'')
                  | Some task \<Rightarrow>
                      if dt_status task \<noteq> TaskActive \<or> dt_revision task \<noteq> qc_revision selected
                      then Inl (DialogueConflictError ''selected task changed after the routing question was issued'')
                      else Inr (task_id, db)))))"

definition resolve_question ::
  "int \<Rightarrow> string \<Rightarrow> string \<Rightarrow> conversation_scope \<Rightarrow> dialogue_input \<Rightarrow> dialogue_route \<Rightarrow> string \<Rightarrow> int \<Rightarrow> conv_db
    \<Rightarrow> (string \<times> conv_db) result" where
  "resolve_question now uuid plan_id scope item route question_id revision db =
     (case get_question_row db scope question_id of
        None \<Rightarrow> Inl (DialogueConflictError ''routing question is missing, stale, or already resolved'')
      | Some question \<Rightarrow>
          if dq_status question \<noteq> QPending \<or> dq_revision question \<noteq> revision
          then Inl (DialogueConflictError ''routing question is missing, stale, or already resolved'')
          else rbind (resolution_allowed db scope item question question_id revision) (\<lambda>_.
          case select_where (original_input scope question_id) (db_inputs db) of
            [] \<Rightarrow> Inl (DialogueConflictError ''routing question has no unresolved original input'')
          | first # others \<Rightarrow>
              rbind (resolution_task now uuid scope route question first db) (\<lambda>(task_id, db1).
              let p = (\<lambda>r. question_in (cs_tenant_id scope) (cs_source_id scope) question_id r
                         \<and> dq_status r = QPending \<and> dq_revision r = revision)
              in if rowcount p (db_questions db1) \<noteq> 1
                 then Inl (DialogueConflictError ''routing question was resolved concurrently'')
                 else
                   rbind (reassign_inputs scope task_id (first # others)
                     (db1\<lparr>db_questions := update_where p
                        (\<lambda>r. r\<lparr>dq_status := QResolved, dq_revision := dq_revision r + 1,
                              dq_resolved_task_id := Some task_id, dq_resolved_at := Some now\<rparr>) (db_questions db1)\<rparr>))
                   (\<lambda>db2.
                   rbind (insert_input now plan_id scope item (Some task_id) None
                            (suppress_question_outbound now scope question_id db2)) (\<lambda>db3.
                   rbind (insert_input_message scope item task_id db3) (\<lambda>db4.
                     Inr (task_id, touch_task now scope task_id db4)))))))"

subsection \<open>Applying a plan\<close>

definition end_task :: "task_state \<Rightarrow> string \<Rightarrow> int \<Rightarrow> conversation_scope \<Rightarrow> string \<Rightarrow> conv_db \<Rightarrow> conv_db" where
  "end_task st reason now scope task_id db =
     suppress_task_outbound reason now scope task_id
       (db\<lparr>db_tasks := update_where
          (\<lambda>r. task_in (cs_tenant_id scope) (cs_source_id scope) task_id r \<and> dt_status r = TaskActive)
          (\<lambda>r. r\<lparr>dt_status := st, dt_revision := dt_revision r + 1, dt_terminal_at := Some now,
                dt_updated_at := now\<rparr>) (db_tasks db)\<rparr>)"

type_synonym assigned = "string option \<times> string option \<times> int option"

text \<open>One iteration of the routing loop.\<close>

definition route_input ::
  "int \<Rightarrow> string \<Rightarrow> dialogue_plan \<Rightarrow> dialogue_input \<Rightarrow> dialogue_route \<Rightarrow> (string \<rightharpoonup> string) \<Rightarrow> conv_db
    \<Rightarrow> (assigned \<times> (string \<rightharpoonup> string) \<times> conv_db) result" where
  "route_input now uuid plan item route local_tasks db = (case rt_action route of
     RCreate \<Rightarrow>
       (case (rt_task_key route, rt_title route) of
          (Some key, Some title) \<Rightarrow>
            if local_tasks key \<noteq> None
            then Inl (DialogueConflictError ''local task key was created more than once'')
            else
              let task_id = new_task_id uuid in
              rbind (insert_task (new_task_row now (pl_scope plan) task_id title (in_text item)) db) (\<lambda>db1.
              rbind (insert_input now (pl_plan_id plan) (pl_scope plan) item (Some task_id) None db1) (\<lambda>db2.
              rbind (insert_input_message (pl_scope plan) item task_id db2) (\<lambda>db3.
              rbind (set_focus now (pl_scope plan) (in_actor_id item) task_id db3) (\<lambda>db4.
                Inr ((Some task_id, None, None), local_tasks(key \<mapsto> task_id), db4)))))
        | _ \<Rightarrow> Inl AssertionError)
   | RStatus \<Rightarrow>
       (case rt_task_id route of
          None \<Rightarrow> Inl AssertionError
        | Some task_id \<Rightarrow>
            if get_task_row db (pl_scope plan) task_id = None
            then Inl (DialogueConflictError ''dialogue task is unavailable in this scope'')
            else rbind (insert_input now (pl_plan_id plan) (pl_scope plan) item (Some task_id) None db) (\<lambda>db1.
              Inr ((Some task_id, None, None), local_tasks, db1)))
   | RAttach \<Rightarrow>
       rbind (resolve_task_target route local_tasks) (\<lambda>task_id.
       rbind (attach_input now (pl_plan_id plan) (pl_scope plan) item task_id db) (\<lambda>db1.
       rbind (set_focus now (pl_scope plan) (in_actor_id item) task_id db1) (\<lambda>db2.
         Inr ((Some task_id, None, None), local_tasks, db2))))
   | RQuestion \<Rightarrow>
       (case (rt_question_id route, rt_question_text route) of
          (Some q, Some text) \<Rightarrow>
            rbind (create_or_extend_question now (pl_scope plan) item route q text db) (\<lambda>(revision, db1).
            rbind (insert_input now (pl_plan_id plan) (pl_scope plan) item None (Some q) db1) (\<lambda>db2.
              Inr ((None, Some q, Some revision), local_tasks, db2)))
        | _ \<Rightarrow> Inl AssertionError)
   | RResolve \<Rightarrow>
       (case (rt_question_id route, rt_question_revision route) of
          (Some q, Some revision) \<Rightarrow>
            if (case rt_task_key route of None \<Rightarrow> False | Some key \<Rightarrow> local_tasks key \<noteq> None)
            then Inl (DialogueConflictError ''local task key was created more than once'')
            else rbind (resolve_question now uuid (pl_plan_id plan) (pl_scope plan) item route q revision db) (\<lambda>(task_id, db1).
                 rbind (set_focus now (pl_scope plan) (in_actor_id item) task_id db1) (\<lambda>db2.
                   Inr ((Some task_id, Some q, None),
                        (case rt_task_key route of None \<Rightarrow> local_tasks | Some key \<Rightarrow> local_tasks(key \<mapsto> task_id)), db2)))
        | _ \<Rightarrow> Inl AssertionError)
   | _ \<Rightarrow>
       rbind (resolve_task_target route local_tasks) (\<lambda>task_id.
       case get_task_row db (pl_scope plan) task_id of
         None \<Rightarrow> Inl (DialogueConflictError ''dialogue task is unavailable in this scope'')
       | Some task \<Rightarrow>
           if dt_status task \<noteq> TaskActive
           then Inl (DialogueConflictError ''terminal dialogue tasks cannot be changed'')
           else rbind (attach_input now (pl_plan_id plan) (pl_scope plan) item task_id db) (\<lambda>db1.
             Inr ((Some task_id, None, None), local_tasks,
               (if rt_action route = RClose
                then end_task TaskClosed ''dialogue task closed before send admission'' now (pl_scope plan) task_id db1
                else end_task TaskCancelled ''dialogue task cancelled before send admission'' now (pl_scope plan) task_id db1)))))"

fun route_inputs ::
  "int \<Rightarrow> (string \<Rightarrow> string) \<Rightarrow> dialogue_plan \<Rightarrow> dialogue_input list \<Rightarrow> (string \<rightharpoonup> string) \<Rightarrow> conv_db
    \<Rightarrow> ((string \<times> assigned) list \<times> conv_db) result" where
  "route_inputs now uuid plan [] local_tasks db = Inr ([], db)"
| "route_inputs now uuid plan (item # items) local_tasks db =
     rbind (route_by_input plan (in_input_id item)) (\<lambda>route.
     rbind (route_input now (uuid (in_input_id item)) plan item route local_tasks db) (\<lambda>(a, local', db1).
     rbind (route_inputs now uuid plan items local' db1) (\<lambda>(rest, db2).
       Inr ((in_input_id item, a) # rest, db2))))"

fun finalize_assignments :: "conv_db \<Rightarrow> conversation_scope \<Rightarrow> (string \<times> assigned) list \<Rightarrow> dialogue_assignment list result" where
  "finalize_assignments db scope [] = Inr []"
| "finalize_assignments db scope ((i, task_id, question_id, question_revision) # rest) =
     rbind (case task_id of
              None \<Rightarrow> Inr (None, None)
            | Some t \<Rightarrow>
                (case get_task_row db scope t of
                   None \<Rightarrow> Inl (RuntimeError ''dialogue task disappeared while committing its route plan'')
                 | Some row \<Rightarrow> Inr (Some (dt_revision row), Some (dt_status row)))) (\<lambda>(revision, status).
     rbind (finalize_assignments db scope rest) (\<lambda>out.
       Inr (\<lparr>as_input_id = i, as_task_id = task_id, as_question_id = question_id, as_task_revision = revision,
            as_question_revision = question_revision, as_task_status = status\<rparr> # out)))"

definition plan_of :: "dialogue_plan \<Rightarrow> plan_row \<Rightarrow> bool" where
  "plan_of plan r = (dp_tenant_id r = tenant_of plan \<and> dp_source_id r = source_of plan \<and> dp_plan_id r = pl_plan_id plan)"

definition input_known :: "conv_db \<Rightarrow> dialogue_plan \<Rightarrow> dialogue_input \<Rightarrow> bool" where
  "input_known db plan item = (\<exists>r \<in> set (db_inputs db).
     di_tenant_id r = tenant_of plan \<and> di_source_id r = source_of plan \<and> di_input_id r = in_input_id item)"

definition new_plan_row :: "string \<Rightarrow> int \<Rightarrow> dialogue_plan \<Rightarrow> dialogue_plan_result \<Rightarrow> plan_row" where
  "new_plan_row fingerprint now plan result = \<lparr>dp_tenant_id = tenant_of plan, dp_source_id = source_of plan,
     dp_plan_id = pl_plan_id plan, dp_fingerprint = fingerprint, dp_plan_json = plan_data plan,
     dp_result_json = plan_result_json result, dp_created_at = now\<rparr>"

definition apply_dialogue_plan ::
  "(string \<Rightarrow> string) \<Rightarrow> int \<Rightarrow> (string \<Rightarrow> string) \<Rightarrow> dialogue_plan \<Rightarrow> conv_db \<Rightarrow> (dialogue_plan_result \<times> conv_db) result" where
  "apply_dialogue_plan sha now uuid plan db =
     rbind (validate_plan plan) (\<lambda>_.
     let fingerprint = idempotency_fingerprint sha (plan_data plan) in
     case fetchone (plan_of plan) (db_plans db) of
       Some previous \<Rightarrow>
         if dp_fingerprint previous \<noteq> fingerprint
         then Inl (DialogueConflictError ''dialogue plan id was reused with changed input'')
         else rbind (plan_result_of (dp_result_json previous)) (\<lambda>result. Inr (result, db))
     | None \<Rightarrow>
         if \<exists>item \<in> set (pl_inputs plan). input_known db plan item
         then Inl (DialogueConflictError ''dialogue input was already assigned by another plan'')
         else rbind (route_inputs now uuid plan (pl_inputs plan) Map.empty db) (\<lambda>(assignments, db1).
              rbind (finalize_assignments db1 (pl_scope plan) assignments) (\<lambda>finalized.
              let result = \<lparr>dpr_plan_id = pl_plan_id plan, dpr_assignments = finalized\<rparr> in
              rbind (insert_plan_row (new_plan_row fingerprint now plan result) db1) (\<lambda>db2.
                Inr (result, db2)))))"

subsection \<open>Reading\<close>

definition get_task :: "conv_db \<Rightarrow> conversation_scope \<Rightarrow> string \<Rightarrow> task_row option" where
  "get_task db scope task_id = get_task_row db scope task_id"

definition get_plan :: "conv_db \<Rightarrow> conversation_scope \<Rightarrow> string \<Rightarrow> dialogue_plan option result" where
  "get_plan db scope plan_id =
     (case fetchone (\<lambda>r. dp_tenant_id r = cs_tenant_id scope \<and> dp_source_id r = cs_source_id scope
                        \<and> dp_plan_id r = plan_id) (db_plans db) of
        None \<Rightarrow> Inr None
      | Some r \<Rightarrow> rbind (dialogue_plan_of (dp_plan_json r)) (\<lambda>p. Inr (Some p)))"

definition validate_page :: "int \<Rightarrow> int \<Rightarrow> unit result" where
  "validate_page limit offset =
     (if \<not> (1 \<le> limit \<and> limit \<le> 100) then Inl (ValueError ''limit must be between 1 and 100'')
      else if \<not> (0 \<le> offset \<and> offset \<le> 100000) then Inl (ValueError ''offset must be between 0 and 100000'')
      else Inr ())"

record dialogue_candidate =
  cd_task_id :: string
  cd_title :: string
  cd_status :: task_state
  cd_revision :: int
  cd_updated_at :: int
  cd_excerpt :: string

definition candidate_of :: "task_row \<Rightarrow> dialogue_candidate" where
  "candidate_of r = \<lparr>cd_task_id = dt_id r, cd_title = dt_title r, cd_status = dt_status r,
     cd_revision = dt_revision r, cd_updated_at = dt_updated_at r,
     cd_excerpt = prefix_chars 240 (dt_original_request r)\<rparr>"

record dialogue_page =
  pg_items :: "dialogue_candidate list"
  pg_offset :: int
  pg_has_more :: bool

definition active_in :: "conversation_scope \<Rightarrow> task_row \<Rightarrow> bool" where
  "active_in scope r = (dt_tenant_id r = cs_tenant_id scope \<and> dt_source_id r = cs_source_id scope
     \<and> dt_status r = TaskActive)"

text \<open>\<open>ORDER BY updated_at DESC, id ASC LIMIT limit + 1 OFFSET offset\<close>.\<close>

definition candidate_page :: "int \<Rightarrow> int \<Rightarrow> task_row list \<Rightarrow> dialogue_page" where
  "candidate_page limit offset selected =
     (let rows = take (nat limit + 1) (drop (nat offset) (order_by (\<lambda>r. (- dt_updated_at r, dt_id r)) selected))
      in \<lparr>pg_items = map candidate_of (take (nat limit) rows), pg_offset = offset,
          pg_has_more = length rows > nat limit\<rparr>)"

definition list_candidates :: "conv_db \<Rightarrow> conversation_scope \<Rightarrow> int \<Rightarrow> int \<Rightarrow> dialogue_page result" where
  "list_candidates db scope limit offset =
     rbind (validate_page limit offset) (\<lambda>_.
       Inr (candidate_page limit offset (select_where (active_in scope) (db_tasks db))))"

text \<open>SQLite's \<open>LIKE \<dots> ESCAPE '\'\<close>: case-insensitive for ASCII letters; \<open>\\<close> takes the next pattern
  character literally, and a pattern that ends with it matches nothing.\<close>

fun like :: "string \<Rightarrow> string \<Rightarrow> bool" where
  "like [] t = (t = [])"
| "like (p # ps) [] = (p = CHR ''%'' \<and> like ps [])"
| "like (p # ps) (c # cs) =
     (if p = CHR ''%'' then like ps (c # cs) \<or> like (p # ps) cs
      else if p = CHR 0x5C then
        (case ps of [] \<Rightarrow> False | q # qs \<Rightarrow> ascii_lower q = ascii_lower c \<and> like qs cs)
      else if p = CHR ''_'' then like ps cs
      else ascii_lower p = ascii_lower c \<and> like ps cs)"

text \<open>\<open>"%" + query.strip().replace("%", "\\%").replace("_", "\\_") + "%"\<close>.\<close>

definition like_escape :: "string \<Rightarrow> string" where
  "like_escape q = concat (map (\<lambda>c. if c = CHR ''%'' \<or> c = CHR ''_'' then [CHR 0x5C, c] else [c]) q)"

definition like_pattern :: "string \<Rightarrow> string" where
  "like_pattern query = CHR ''%'' # like_escape (strip query) @ [CHR ''%'']"

definition search_candidates :: "conv_db \<Rightarrow> conversation_scope \<Rightarrow> string \<Rightarrow> int \<Rightarrow> int \<Rightarrow> dialogue_page result" where
  "search_candidates db scope query limit offset =
     rbind (validate_page limit offset) (\<lambda>_.
       if blank query \<or> length query > 256
       then Inl (ValueError ''query must contain between 1 and 256 characters'')
       else Inr (candidate_page limit offset
              (select_where (\<lambda>r. active_in scope r
                 \<and> (like (like_pattern query) (dt_title r) \<or> like (like_pattern query) (dt_original_request r)))
                 (db_tasks db))))"

definition get_focus :: "conv_db \<Rightarrow> conversation_scope \<Rightarrow> string \<Rightarrow> string option" where
  "get_focus db scope actor =
     map_option df_task_id (fetchone (focus_of (cs_tenant_id scope) (cs_source_id scope) actor) (db_focus db))"

definition input_of :: "input_row \<Rightarrow> dialogue_input" where
  "input_of r = \<lparr>in_input_id = di_input_id r, in_actor_id = di_actor_id r, in_text = di_text r,
     in_occurred_at = di_occurred_at r, in_channel = di_channel r, in_source_message_id = di_source_message_id r,
     in_reply_to_message_id = di_reply_to_message_id r, in_message_thread_id = di_message_thread_id r\<rparr>"

record dialogue_question =
  dqn_row :: question_row
  dqn_inputs :: "dialogue_input list"
  dqn_delivery_confirmed :: bool

definition question_of :: "conv_db \<Rightarrow> conversation_scope \<Rightarrow> question_row \<Rightarrow> dialogue_question" where
  "question_of db scope r = \<lparr>dqn_row = r,
     dqn_inputs = map input_of (select_where (\<lambda>i. di_tenant_id i = cs_tenant_id scope
       \<and> di_source_id i = cs_source_id scope \<and> di_question_id i = Some (dq_id r)) (db_inputs db)),
     dqn_delivery_confirmed =
       (fetchone (confirmed_generation scope (dq_id r) (dq_revision r)) (db_refs db) \<noteq> None)\<rparr>"

definition get_question :: "conv_db \<Rightarrow> conversation_scope \<Rightarrow> string \<Rightarrow> dialogue_question option" where
  "get_question db scope q = map_option (question_of db scope) (get_question_row db scope q)"

definition list_pending_questions ::
  "conv_db \<Rightarrow> conversation_scope \<Rightarrow> string \<Rightarrow> int \<Rightarrow> (dialogue_question list \<times> bool) result" where
  "list_pending_questions db scope actor limit =
     rbind (validate_page limit 0) (\<lambda>_.
       let rows = take (nat limit + 1) (order_by (\<lambda>r. (- dq_created_at r, dq_id r))
             (select_where (\<lambda>r. dq_tenant_id r = cs_tenant_id scope \<and> dq_source_id r = cs_source_id scope
                \<and> dq_actor_id r = actor \<and> dq_status r = QPending) (db_questions db)))
       in Inr (map (question_of db scope) (take (nat limit) rows), length rows > nat limit))"

definition get_confirmed_reference :: "conv_db \<Rightarrow> conversation_scope \<Rightarrow> string \<Rightarrow> string \<Rightarrow> reference_row option" where
  "get_confirmed_reference db scope channel external = fetchone (reference_to scope channel external) (db_refs db)"

definition get_input_reference ::
  "conv_db \<Rightarrow> conversation_scope \<Rightarrow> string \<Rightarrow> string \<Rightarrow> (string \<times> string option \<times> string option) option" where
  "get_input_reference db scope channel external =
     map_option (\<lambda>r. (di_input_id r, di_task_id r, di_question_id r))
       (fetchone (\<lambda>r. di_tenant_id r = cs_tenant_id scope \<and> di_source_id r = cs_source_id scope
          \<and> di_channel r = channel \<and> di_source_message_id r = Some external) (db_inputs db))"

text \<open>A page of a task's messages; positions in the row list are the \<open>sequence\<close> numbers.\<close>

definition task_message :: "conversation_scope \<Rightarrow> string \<Rightarrow> dialogue_message_row \<Rightarrow> bool" where
  "task_message scope task_id m = (dm_tenant_id m = cs_tenant_id scope \<and> dm_source_id m = cs_source_id scope
     \<and> dm_task_id m = task_id)"

definition through_sequence :: "conv_db \<Rightarrow> conversation_scope \<Rightarrow> string \<Rightarrow> string \<Rightarrow> nat option" where
  "through_sequence db scope task_id input_id =
     (if \<exists>i \<in> set (db_inputs db). di_tenant_id i = cs_tenant_id scope \<and> di_source_id i = cs_source_id scope
            \<and> di_input_id i = input_id \<and> di_task_id i = Some task_id
      then map_option fst (fetchone (\<lambda>x. dm_tenant_id (snd x) = cs_tenant_id scope
             \<and> dm_source_id (snd x) = cs_source_id scope \<and> dm_input_id (snd x) = Some input_id)
             (with_rowid (db_messages db)))
      else None)"

definition before_sequence :: "conv_db \<Rightarrow> conversation_scope \<Rightarrow> string \<Rightarrow> string \<Rightarrow> nat option" where
  "before_sequence db scope task_id message_id =
     map_option fst (fetchone (\<lambda>x. task_message scope task_id (snd x) \<and> dm_message_id (snd x) = message_id)
       (with_rowid (db_messages db)))"

definition context_page :: "conv_db \<Rightarrow> conversation_scope \<Rightarrow> string \<Rightarrow> nat \<Rightarrow> nat option \<Rightarrow> nat option
    \<Rightarrow> dialogue_message_row list \<times> bool \<times> string option" where
  "context_page db scope task_id limit before through =
     (let rows = take (limit + 1) (rev (select_where (\<lambda>x. task_message scope task_id (snd x)
            \<and> (case before of None \<Rightarrow> True | Some b \<Rightarrow> fst x < b)
            \<and> (case through of None \<Rightarrow> True | Some e \<Rightarrow> dm_role (snd x) = Assistant \<or> fst x \<le> e))
            (with_rowid (db_messages db))));
          has_older = length rows > limit;
          messages = rev (map snd (take limit rows))
      in (messages, has_older,
          if has_older \<and> messages \<noteq> [] then Some (dm_message_id (hd messages)) else None))"

definition get_task_context ::
  "conv_db \<Rightarrow> conversation_scope \<Rightarrow> string \<Rightarrow> int \<Rightarrow> string option \<Rightarrow> string option
    \<Rightarrow> (task_row \<times> dialogue_message_row list \<times> bool \<times> string option) option result" where
  "get_task_context db scope task_id limit before_message_id through_input_id =
     (if \<not> (1 \<le> limit \<and> limit \<le> 100) then Inl (ValueError ''limit must be between 1 and 100'')
      else case get_task_row db scope task_id of
        None \<Rightarrow> Inr None
      | Some task \<Rightarrow>
          let through = Option.bind through_input_id (through_sequence db scope task_id);
              before = Option.bind before_message_id (before_sequence db scope task_id)
          in if through_input_id \<noteq> None \<and> through = None \<or> before_message_id \<noteq> None \<and> before = None
             then Inr None
             else Inr (Some (task, context_page db scope task_id (nat limit) before through)))"

end
