(* ===== verification/Dialogue_Plans.thy ===== *)
theory Dialogue_Plans
  imports Dialogue Outbound_Delivery
begin

section \<open>Properties of routing plans\<close>

text \<open>
  What a committed plan does to the tables: tasks, questions, inputs and outbound messages only move
  forward, a task that ends leaves no pending outbound message behind, a question is resolved only
  after its current generation was delivered, and a plan that is applied again is absorbed.
\<close>

subsection \<open>Plans and results survive the round trip through JSON\<close>

lemma field_simps [simp]: "field k (JObj kvs) = map_of kvs k"
  by (simp add: field_def)

lemma opt_fields [simp]:
  "field k v = Some (opt_str x) \<Longrightarrow> opt_str_field k v = Inr x"
  "field k v = Some (opt_int y) \<Longrightarrow> opt_int_field k v = Inr y"
  by (simp_all add: opt_str_field_def opt_int_field_def opt_str_def opt_int_def split: option.splits)

lemma all_results_map: "(\<And>x. x \<in> set xs \<Longrightarrow> f (g x) = Inr x) \<Longrightarrow> all_results f (map g xs) = Inr xs"
  by (induction xs) simp_all

lemma read_task_state_text [simp]: "read_task_state (task_state_text s) = Inr s"
  by (cases s) (simp_all add: read_task_state_def)

lemma read_action_text [simp]: "read_action (action_text a) = Inr a"
  by (cases a) (simp_all add: read_action_def)

lemma read_assignment_json [simp]: "read_assignment (assignment_json a) = Inr a"
  by (cases "as_task_status a")
     (simp_all add: read_assignment_def assignment_json_def str_field_def opt_str_field_def opt_int_field_def
        opt_str_def opt_int_def split: option.split)

lemma plan_result_roundtrip [simp]: "plan_result_of (plan_result_json r) = Inr r"
  using all_results_map [of "dpr_assignments r" read_assignment assignment_json]
  by (simp add: plan_result_of_def plan_result_json_def str_field_def arr_field_def)

definition wf_route :: "dialogue_route \<Rightarrow> bool" where
  "wf_route r \<longleftrightarrow> DialogueRoute r = Inr r \<and> (\<forall>c \<in> set (rt_candidates r). DialogueQuestionCandidate c = Inr c)"

text \<open>A plan as the constructors of its parts accept it.\<close>

definition wf_plan :: "dialogue_plan \<Rightarrow> bool" where
  "wf_plan p \<longleftrightarrow> ConversationScope (tenant_of p) (source_of p) = Inr (pl_scope p)
     \<and> (\<forall>i \<in> set (pl_inputs p). DialogueInput i = Inr i) \<and> (\<forall>r \<in> set (pl_routes p). wf_route r)
     \<and> DialoguePlan p = Inr p"

lemma read_input_json: "DialogueInput i = Inr i \<Longrightarrow> read_input (input_json i) = Inr i"
  by (cases i) (simp add: read_input_def input_json_def str_field_def int_field_def)

lemma read_candidate_json: "DialogueQuestionCandidate c = Inr c \<Longrightarrow> read_candidate (candidate_json c) = Inr c"
  by (cases c) (simp add: read_candidate_def candidate_json_def str_field_def int_field_def)

lemma read_route_json:
  assumes "wf_route r"
  shows "read_route (route_json r) = Inr r"
proof -
  have "all_results read_candidate (map candidate_json (rt_candidates r)) = Inr (rt_candidates r)"
    using assms by (intro all_results_map) (auto simp: wf_route_def read_candidate_json)
  moreover have "opt_str_field ''response_text'' (route_json r) = Inr (rt_response_text r)"
    by (cases "rt_response_text r") (simp_all add: opt_str_field_def route_json_def)
  ultimately show ?thesis
    using assms
    by (cases r; cases "rt_response_text r")
       (simp_all add: read_route_def route_json_def str_field_def bool_field_def arr_field_def wf_route_def)
qed

lemma plan_roundtrip: "wf_plan p \<Longrightarrow> dialogue_plan_of (plan_data p) = Inr p"
proof -
  assume wf: "wf_plan p"
  have "all_results read_input (map input_json (pl_inputs p)) = Inr (pl_inputs p)"
    "all_results read_route (map route_json (pl_routes p)) = Inr (pl_routes p)"
    using wf by (auto simp: wf_plan_def intro!: all_results_map read_input_json read_route_json)
  then show ?thesis
    using wf by (cases p) (simp add: dialogue_plan_of_def plan_data_def str_field_def arr_field_def wf_plan_def)
qed

subsection \<open>How rows move while a plan is applied\<close>

definition task_identity :: "task_row \<Rightarrow> _" where
  "task_identity r = (dt_id r, dt_tenant_id r, dt_source_id r, dt_title r, dt_original_request r, dt_created_at r)"

definition task_evolves :: "task_row \<Rightarrow> task_row \<Rightarrow> bool" where
  "task_evolves r r' \<longleftrightarrow> task_identity r' = task_identity r \<and>
     (dt_status r' = dt_status r \<and> dt_revision r' = dt_revision r \<and> dt_terminal_at r' = dt_terminal_at r
      \<or> dt_status r = TaskActive \<and> dt_status r' \<noteq> TaskActive \<and> dt_revision r' = dt_revision r + 1)"

definition question_identity :: "question_row \<Rightarrow> _" where
  "question_identity r = (dq_id r, dq_tenant_id r, dq_source_id r, dq_actor_id r, dq_created_at r)"

definition question_evolves :: "question_row \<Rightarrow> question_row \<Rightarrow> bool" where
  "question_evolves r r' \<longleftrightarrow> question_identity r' = question_identity r \<and> dq_revision r \<le> dq_revision r'
     \<and> (dq_status r = QResolved \<longrightarrow> r' = r) \<and> (dq_revision r' = dq_revision r \<longrightarrow> r' = r)"

definition input_evolves :: "input_row \<Rightarrow> input_row \<Rightarrow> bool" where
  "input_evolves r r' \<longleftrightarrow> r' = r \<or> di_task_id r = None \<and> (\<exists>t. r' = r\<lparr>di_task_id := Some t\<rparr>)"

definition ob_suppressed :: "outbound_row \<Rightarrow> outbound_row \<Rightarrow> bool" where
  "ob_suppressed o1 o2 \<longleftrightarrow> o2 = o1 \<or> ob_pending o1 \<and> (\<exists>reason now. o2 = ob_release ObCancelled reason now o1)"

text \<open>No outbound message of the task is waiting to be sent.\<close>

definition no_pending :: "conv_db \<Rightarrow> task_row \<Rightarrow> bool" where
  "no_pending db r \<longleftrightarrow> (\<forall>m \<in> set (db_outbound db). ob_tenant_id m = dt_tenant_id r \<and> ob_source_id m = dt_source_id r
     \<and> ob_task_id m = Some (dt_id r) \<longrightarrow> \<not> ob_pending m)"

definition task_step :: "conv_db \<Rightarrow> task_row \<Rightarrow> task_row \<Rightarrow> bool" where
  "task_step db' r r' \<longleftrightarrow> task_evolves r r'
     \<and> (dt_status r = TaskActive \<and> dt_status r' \<noteq> TaskActive \<longrightarrow> no_pending db' r')"

text \<open>The generation of the question that was resolved has been delivered.\<close>

definition delivered :: "reference_row list \<Rightarrow> question_row \<Rightarrow> int \<Rightarrow> bool" where
  "delivered refs q revision \<longleftrightarrow> (\<exists>x \<in> set refs. dr_tenant_id x = dq_tenant_id q \<and> dr_source_id x = dq_source_id q
     \<and> dr_question_id x = Some (dq_id q) \<and> dr_question_revision x = Some revision)"

definition question_step :: "reference_row list \<Rightarrow> question_row \<Rightarrow> question_row \<Rightarrow> bool" where
  "question_step refs r r' \<longleftrightarrow> question_evolves r r'
     \<and> (dq_status r = QPending \<and> dq_status r' = QResolved \<longrightarrow> delivered refs r (dq_revision r' - 1))"

definition plan_step :: "conv_db \<Rightarrow> conv_db \<Rightarrow> bool" where
  "plan_step db db' \<longleftrightarrow>
     rows_extend (task_step db') (db_tasks db) (db_tasks db')
   \<and> rows_extend (question_step (db_refs db)) (db_questions db) (db_questions db')
   \<and> rows_extend input_evolves (db_inputs db) (db_inputs db')
   \<and> (\<exists>new. db_messages db' = db_messages db @ new)
   \<and> db_refs db' = db_refs db \<and> db_history db' = db_history db \<and> db_plans db' = db_plans db
   \<and> list_all2 ob_suppressed (db_outbound db) (db_outbound db')"

definition dg_inv :: "conv_db \<Rightarrow> bool" where
  "dg_inv db \<longleftrightarrow> distinct (map dt_id (db_tasks db)) \<and> distinct (map dq_id (db_questions db))
     \<and> distinct (map di_key (db_inputs db)) \<and> distinct (map dm_key (db_messages db))
     \<and> (\<forall>q \<in> set (db_questions db). 1 \<le> dq_revision q) \<and> (\<forall>t \<in> set (db_tasks db). 1 \<le> dt_revision t)"

text \<open>A statement is good when it keeps the invariant and moves rows forward.\<close>

definition good :: "conv_db \<Rightarrow> conv_db \<Rightarrow> bool" where
  "good db db' \<longleftrightarrow> (dg_inv db \<longrightarrow> dg_inv db' \<and> plan_step db db')"

lemma evolves_refl [simp]: "task_evolves r r" "question_evolves q q" "input_evolves i i" "ob_suppressed m m"
  by (simp_all add: task_evolves_def question_evolves_def input_evolves_def ob_suppressed_def)

lemma task_evolves_trans: "task_evolves a b \<Longrightarrow> task_evolves b c \<Longrightarrow> task_evolves a c"
  by (auto simp: task_evolves_def)

lemma question_evolves_trans: "question_evolves a b \<Longrightarrow> question_evolves b c \<Longrightarrow> question_evolves a c"
  unfolding question_evolves_def by (metis order_antisym order_trans)

lemma input_evolves_trans: "input_evolves a b \<Longrightarrow> input_evolves b c \<Longrightarrow> input_evolves a c"
  by (auto simp: input_evolves_def)

lemma ob_suppressed_trans: "ob_suppressed a b \<Longrightarrow> ob_suppressed b c \<Longrightarrow> ob_suppressed a c"
  by (auto simp: ob_suppressed_def ob_pending_def ob_release_def)

lemma step_refl [simp]: "task_step db r r" "question_step refs q q"
  by (auto simp: task_step_def question_step_def)

lemma step_ids: "task_step db r r' \<Longrightarrow> dt_id r' = dt_id r" "question_step refs q q' \<Longrightarrow> dq_id q' = dq_id q"
  by (auto simp: task_step_def task_evolves_def task_identity_def question_step_def question_evolves_def
      question_identity_def)

lemma suppressed_pending: "ob_suppressed a b \<Longrightarrow> ob_pending b \<Longrightarrow> b = a"
  by (auto simp: ob_suppressed_def ob_pending_def ob_release_def)

lemma no_pending_later:
  assumes "no_pending db r" and "list_all2 ob_suppressed (db_outbound db) (db_outbound db')"
    and "task_identity r' = task_identity r"
  shows "no_pending db' r'"
  unfolding no_pending_def
proof (intro ballI impI notI)
  fix m assume m: "m \<in> set (db_outbound db')" "ob_tenant_id m = dt_tenant_id r' \<and> ob_source_id m = dt_source_id r'
     \<and> ob_task_id m = Some (dt_id r')" "ob_pending m"
  obtain i where i: "i < length (db_outbound db')" "db_outbound db' ! i = m" using m(1) by (auto simp: in_set_conv_nth)
  then have "ob_suppressed (db_outbound db ! i) m" "i < length (db_outbound db)"
    using assms(2) by (auto simp: list_all2_conv_all_nth)
  then have "m \<in> set (db_outbound db)" using suppressed_pending [OF _ m(3)] by (metis nth_mem)
  then show False using assms(1,3) m(2,3) by (auto simp: no_pending_def task_identity_def)
qed

lemma task_step_trans:
  assumes "task_step db1 a b" and "task_step db2 b c" and "list_all2 ob_suppressed (db_outbound db1) (db_outbound db2)"
  shows "task_step db2 a c"
  using assms no_pending_later [of db1 b db2 c] task_evolves_trans [of a b c]
  unfolding task_step_def by (metis task_evolves_def)

lemma question_step_trans: "question_step refs a b \<Longrightarrow> question_step refs b c \<Longrightarrow> question_step refs a c"
proof -
  assume ab: "question_step refs a b" and bc: "question_step refs b c"
  then have ev: "question_evolves a c" by (auto simp: question_step_def intro: question_evolves_trans)
  have "delivered refs a (dq_revision c - 1)" if "dq_status a = QPending" "dq_status c = QResolved"
  proof (cases "dq_status b")
    case QPending
    then have "delivered refs b (dq_revision c - 1)" using bc that by (simp add: question_step_def)
    then show ?thesis using ab by (auto simp: question_step_def question_evolves_def question_identity_def delivered_def)
  next
    case QResolved
    then have "c = b" using bc by (simp add: question_step_def question_evolves_def)
    then show ?thesis using ab that by (simp add: question_step_def)
  qed
  with ev show ?thesis by (simp add: question_step_def)
qed

lemma plan_step_refl [simp]: "plan_step db db"
  by (simp add: plan_step_def rows_extend_refl list_all2_same)

lemma plan_step_trans:
  assumes "plan_step a b" and "plan_step b c"
  shows "plan_step a c"
  unfolding plan_step_def
proof (intro conjI)
  have l: "list_all2 ob_suppressed (db_outbound b) (db_outbound c)" using assms(2) by (simp add: plan_step_def)
  show "list_all2 ob_suppressed (db_outbound a) (db_outbound c)"
    using assms by (auto simp: plan_step_def intro: list_all2_trans [OF ob_suppressed_trans])
  have "rows_extend (task_step c) (db_tasks a) (db_tasks c)"
    using assms task_step_trans [OF _ _ l] unfolding plan_step_def rows_extend_def
    by (meson order_less_le_trans order_trans)
  then show "rows_extend (task_step c) (db_tasks a) (db_tasks c)" .
  show "rows_extend (question_step (db_refs a)) (db_questions a) (db_questions c)"
    using assms by (auto simp: plan_step_def intro: rows_extend_trans question_step_trans)
  show "rows_extend input_evolves (db_inputs a) (db_inputs c)"
    using assms by (auto simp: plan_step_def intro: rows_extend_trans input_evolves_trans)
qed (use assms in \<open>auto simp: plan_step_def\<close>)

lemma good_refl [simp]: "good db db"
  by (simp add: good_def)

lemma good_trans: "good a b \<Longrightarrow> good b c \<Longrightarrow> good a c"
  by (auto simp: good_def intro: plan_step_trans)

subsection \<open>Every statement of a plan is good\<close>

lemmas plan_step_rows = plan_step_def rows_extend_refl rows_extend_append list_all2_same

lemma good_insert_task: "insert_task n db = Inr db' \<Longrightarrow> 1 \<le> dt_revision n \<Longrightarrow> good db db'"
proof -
  assume rvn: "1 \<le> dt_revision n" and "insert_task n db = Inr db'"
  then have db': "db' = db\<lparr>db_tasks := db_tasks db @ [n]\<rparr>" and "dt_id n \<notin> dt_id ` set (db_tasks db)"
    by (auto simp: insert_task_def image_iff split: if_splits dest: sym)
  then show ?thesis using rvn by (auto simp: good_def dg_inv_def plan_step_rows)
qed

lemma good_insert_question: "insert_question n db = Inr db' \<Longrightarrow> 1 \<le> dq_revision n \<Longrightarrow> good db db'"
proof -
  assume rvn: "1 \<le> dq_revision n" and "insert_question n db = Inr db'"
  then have db': "db' = db\<lparr>db_questions := db_questions db @ [n]\<rparr>" and "dq_id n \<notin> dq_id ` set (db_questions db)"
    by (auto simp: insert_question_def image_iff split: if_splits dest: sym)
  then show ?thesis using rvn by (auto simp: good_def dg_inv_def plan_step_rows)
qed

lemma good_insert_input: "insert_input_row n db = Inr db' \<Longrightarrow> good db db'"
proof -
  assume "insert_input_row n db = Inr db'"
  then have db': "db' = db\<lparr>db_inputs := db_inputs db @ [n]\<rparr>" and "\<forall>r \<in> set (db_inputs db). di_key r \<noteq> di_key n"
    by (auto simp: insert_input_row_def split: if_splits)
  then show ?thesis by (auto simp: good_def dg_inv_def plan_step_rows image_iff)
qed

lemma good_insert_message: "insert_dialogue_message n db = Inr db' \<Longrightarrow> good db db'"
proof -
  assume "insert_dialogue_message n db = Inr db'"
  then have db': "db' = db\<lparr>db_messages := db_messages db @ [n]\<rparr>" and "\<forall>r \<in> set (db_messages db). dm_key r \<noteq> dm_key n"
    by (auto simp: insert_dialogue_message_def split: if_splits)
  then show ?thesis by (auto simp: good_def dg_inv_def plan_step_rows image_iff)
qed

lemma good_focus: "set_focus now scope actor t db = Inr db' \<Longrightarrow> good db db'"
  by (auto simp: set_focus_def Let_def good_def dg_inv_def plan_step_rows split: if_splits)

lemma good_tasks_update:
  assumes "\<And>r. r \<in> set (db_tasks db) \<Longrightarrow> p r \<Longrightarrow> task_step db' r (f r)"
    and "\<And>r. dt_id (f r) = dt_id r" and "\<And>r. 1 \<le> dt_revision r \<Longrightarrow> 1 \<le> dt_revision (f r)"
    and "db' = db\<lparr>db_tasks := update_where p f (db_tasks db), db_outbound := rows\<rparr>"
    and "list_all2 ob_suppressed (db_outbound db) rows"
  shows "good db db'"
proof -
  have "rows_extend (task_step db') (db_tasks db) (update_where p f (db_tasks db))"
    using assms(1) by (intro rows_extend_update_where) simp_all
  moreover have "map dt_id (update_where p f (db_tasks db)) = map dt_id (db_tasks db)"
    by (rule map_update_where) (rule assms(2))
  moreover have "(\<forall>t \<in> set (db_tasks db). 1 \<le> dt_revision t) \<longrightarrow> (\<forall>t \<in> set (update_where p f (db_tasks db)). 1 \<le> dt_revision t)"
    using assms(3) by (auto simp: set_update_where)
  ultimately show ?thesis using assms(4,5) by (auto simp: good_def dg_inv_def plan_step_rows)
qed

lemma good_touch: "good db (touch_task now scope t db)"
  by (rule good_tasks_update [where rows = "db_outbound db"])
     (auto simp: touch_task_def task_step_def task_evolves_def task_identity_def list_all2_same)

lemma suppress_rows: "list_all2 ob_suppressed (db_outbound db) (db_outbound (suppress p reason now scope db))"
  unfolding suppress_def update_where_def
  by (auto simp: list_all2_map2 ob_suppressed_def intro!: list.rel_refl_strong)

lemma good_suppress: "good db (suppress p reason now scope db)"
proof -
  have "suppress p reason now scope db = db\<lparr>db_outbound := db_outbound (suppress p reason now scope db)\<rparr>"
    by (simp add: suppress_def)
  then obtain rows where rows: "suppress p reason now scope db = db\<lparr>db_outbound := rows\<rparr>"
    "list_all2 ob_suppressed (db_outbound db) rows"
    using suppress_rows [of db p reason now scope] by metis
  then show ?thesis by (auto simp: good_def dg_inv_def plan_step_rows)
qed

text \<open>Ending a task suppresses what is pending for it.\<close>

lemma good_end_task: "st \<noteq> TaskActive \<Longrightarrow> good db (end_task st reason now scope t db)"
proof (rule good_tasks_update)
  let ?db' = "end_task st reason now scope t db"
  show "?db' = db\<lparr>db_tasks := update_where (\<lambda>r. task_in (cs_tenant_id scope) (cs_source_id scope) t r \<and> dt_status r = TaskActive)
     (\<lambda>r. r\<lparr>dt_status := st, dt_revision := dt_revision r + 1, dt_terminal_at := Some now, dt_updated_at := now\<rparr>) (db_tasks db),
     db_outbound := db_outbound ?db'\<rparr>"
    by (simp add: end_task_def suppress_task_outbound_def suppress_def)
  show "list_all2 ob_suppressed (db_outbound db) (db_outbound ?db')"
    using suppress_rows [of "db\<lparr>db_tasks := x\<rparr>" for x] by (simp add: end_task_def suppress_task_outbound_def)
  fix r assume "st \<noteq> TaskActive" and r: "task_in (cs_tenant_id scope) (cs_source_id scope) t r \<and> dt_status r = TaskActive"
  have "no_pending ?db' (r\<lparr>dt_status := st, dt_revision := dt_revision r + 1, dt_terminal_at := Some now, dt_updated_at := now\<rparr>)"
    using r by (auto simp: no_pending_def task_in_def end_task_def suppress_task_outbound_def suppress_def
        set_update_where ob_release_def ob_pending_def)
  then show "task_step ?db' r (r\<lparr>dt_status := st, dt_revision := dt_revision r + 1, dt_terminal_at := Some now, dt_updated_at := now\<rparr>)"
    using r \<open>st \<noteq> TaskActive\<close> by (simp add: task_step_def task_evolves_def task_identity_def)
qed simp_all

lemma good_questions_update:
  assumes "\<And>r. r \<in> set (db_questions db) \<Longrightarrow> p r \<Longrightarrow> 1 \<le> dq_revision r \<Longrightarrow> question_step (db_refs db) r (f r)"
    and "\<And>r. dq_id (f r) = dq_id r" and "\<And>r. dq_revision (f r) = dq_revision r + 1"
  shows "good db (db\<lparr>db_questions := update_where p f (db_questions db)\<rparr>)"
proof -
  have "rows_extend (question_step (db_refs db)) (db_questions db) (update_where p f (db_questions db))"
    if "\<forall>q \<in> set (db_questions db). 1 \<le> dq_revision q"
    using assms(1) that by (intro rows_extend_update_where) simp_all
  moreover have "map dq_id (update_where p f (db_questions db)) = map dq_id (db_questions db)"
    by (rule map_update_where) (rule assms(2))
  moreover have "(\<forall>t \<in> set (db_questions db). 1 \<le> dq_revision t) \<longrightarrow>
      (\<forall>t \<in> set (update_where p f (db_questions db)). 1 \<le> dq_revision t)"
    using assms(3) by (auto simp: set_update_where)
  ultimately show ?thesis by (auto simp: good_def dg_inv_def plan_step_rows)
qed

lemma good_inputs_update:
  "good db (db\<lparr>db_inputs := update_where (\<lambda>r. p r \<and> di_task_id r = None) (\<lambda>r. r\<lparr>di_task_id := Some t\<rparr>) (db_inputs db)\<rparr>)"
proof -
  have "rows_extend input_evolves (db_inputs db)
      (update_where (\<lambda>r. p r \<and> di_task_id r = None) (\<lambda>r. r\<lparr>di_task_id := Some t\<rparr>) (db_inputs db))"
    by (intro rows_extend_update_where) (auto simp: input_evolves_def)
  moreover have "map di_key (update_where (\<lambda>r. p r \<and> di_task_id r = None) (\<lambda>r. r\<lparr>di_task_id := Some t\<rparr>) (db_inputs db))
      = map di_key (db_inputs db)"
    by (rule map_update_where) (simp add: di_key_def)
  ultimately show ?thesis by (auto simp: good_def dg_inv_def plan_step_rows)
qed

lemma good_reassign: "reassign_inputs scope t olds db = Inr db' \<Longrightarrow> good db db'"
proof (induction olds arbitrary: db)
  case (Cons old rest)
  let ?p = "\<lambda>r. (di_tenant_id r = cs_tenant_id scope \<and> di_source_id r = cs_source_id scope
                 \<and> di_input_id r = di_input_id old) \<and> di_task_id r = None"
  let ?db1 = "db\<lparr>db_inputs := update_where ?p (\<lambda>r. r\<lparr>di_task_id := Some t\<rparr>) (db_inputs db)\<rparr>"
  obtain db2 where 2: "insert_message_from_input_row old t ?db1 = Inr db2" "reassign_inputs scope t rest db2 = Inr db'"
    using Cons.prems by (auto simp: Let_def rbind_eq_Inr conj_assoc split: if_splits)
  have "good db ?db1" by (rule good_inputs_update)
  moreover have "good ?db1 db2" using 2(1) unfolding insert_message_from_input_row_def by (rule good_insert_message)
  ultimately show ?case using Cons.IH [OF 2(2)] good_trans by blast
qed simp

lemma good_attach: "attach_input now plan_id scope item t db = Inr db' \<Longrightarrow> good db db'"
  unfolding attach_input_def insert_input_def insert_input_message_def
  by (auto simp: rbind_eq_Inr split: option.splits if_splits
      dest!: good_insert_input good_insert_message intro: good_trans good_touch)

subsection \<open>Routing\<close>

lemma question_row_unique:
  assumes "dg_inv db" and "get_question_row db scope q = Some x" and "r \<in> set (db_questions db)"
    and "question_in (cs_tenant_id scope) (cs_source_id scope) q r"
  shows "r = x"
proof -
  have "x \<in> set (db_questions db)" "dq_id x = q"
    using fetchone_SomeD [OF assms(2) [unfolded get_question_row_def]] by (auto simp: question_in_def)
  then show ?thesis
    using assms(1,3,4) distinct_map_eq [of dq_id "db_questions db" r x] by (auto simp: dg_inv_def question_in_def)
qed

lemma good_question:
  assumes "create_or_extend_question now scope item route q text db = Inr (rvn, db')"
  shows "good db db'"
proof (cases "get_question_row db scope q")
  case None
  then show ?thesis
    using assms by (auto simp: create_or_extend_question_def rbind_eq_Inr split: if_splits dest!: good_insert_question)
next
  case (Some existing)
  let ?p = "\<lambda>r. question_in (cs_tenant_id scope) (cs_source_id scope) q r
                         \<and> dq_status r = QPending \<and> dq_revision r = dq_revision existing"
  let ?f = "\<lambda>expected r. r\<lparr>dq_text := text, dq_candidates_json := expected,
     dq_has_more_candidates := rt_has_more_candidates route, dq_revision := dq_revision r + 1\<rparr>"
  have upd: "good db (db\<lparr>db_questions := update_where ?p (?f expected) (db_questions db)\<rparr>)" for expected
    by (rule good_questions_update) (auto simp: question_step_def question_evolves_def question_identity_def)
  have "db' = db \<or> (\<exists>expected. db' = suppress_question_generation_outbound now scope q (dq_revision existing)
      (db\<lparr>db_questions := update_where ?p (?f expected) (db_questions db)\<rparr>))"
    using assms Some by (auto simp: create_or_extend_question_def Let_def rbind_eq_Inr split: if_splits)
  then show ?thesis
  proof
    assume "\<exists>expected. db' = suppress_question_generation_outbound now scope q (dq_revision existing)
      (db\<lparr>db_questions := update_where ?p (?f expected) (db_questions db)\<rparr>)"
    then obtain expected where "db' = suppress_question_generation_outbound now scope q (dq_revision existing)
      (db\<lparr>db_questions := update_where ?p (?f expected) (db_questions db)\<rparr>)" ..
    then show ?thesis
      unfolding suppress_question_generation_outbound_def by (simp only: good_trans [OF upd good_suppress])
  qed simp
qed

lemma resolution_delivered:
  assumes "resolution_allowed db scope item question q rvn = Inr ()" and "1 \<le> rvn"
  shows "\<exists>x \<in> set (db_refs db). dr_tenant_id x = cs_tenant_id scope \<and> dr_source_id x = cs_source_id scope
    \<and> dr_question_id x = Some q \<and> dr_question_revision x = Some rvn"
proof (cases "in_reply_to_message_id item")
  case None
  then obtain x where "fetchone (confirmed_generation scope q rvn) (db_refs db) = Some x"
    using assms(1) by (auto simp: resolution_allowed_def split: if_splits)
  then show ?thesis by (auto simp: confirmed_generation_def dest!: fetchone_SomeD)
next
  case (Some m)
  then obtain x where x: "fetchone (reference_to scope (in_channel item) m) (db_refs db) = Some x"
    "dr_question_id x = Some q" "(case dr_question_revision x of None \<Rightarrow> 0 | Some n \<Rightarrow> n) = rvn"
    using assms(1) by (auto simp: resolution_allowed_def split: option.splits if_splits)
  then have "dr_question_revision x = Some rvn" using assms(2) by (cases "dr_question_revision x") auto
  then show ?thesis using fetchone_SomeD [OF x(1)] x(2) by (auto simp: reference_to_def)
qed

lemma good_resolution_task:
  "resolution_task now uuid scope route question first db = Inr (t, db') \<Longrightarrow>
     good db db' \<and> db_questions db' = db_questions db \<and> db_refs db' = db_refs db"
  by (auto simp: resolution_task_def rbind_eq_Inr insert_task_def new_task_row_def split: option.splits if_splits
      intro!: good_insert_task [where n = "new_task_row now scope (new_task_id uuid) x y" for x y])

lemma good_resolve:
  assumes "resolve_question now uuid plan_id scope item route q rvn db = Inr (t, db')"
  shows "good db db'"
proof (cases "dg_inv db")
  case True
  let ?p = "\<lambda>r. question_in (cs_tenant_id scope) (cs_source_id scope) q r \<and> dq_status r = QPending \<and> dq_revision r = rvn"
  let ?f = "\<lambda>r. r\<lparr>dq_status := QResolved, dq_revision := dq_revision r + 1, dq_resolved_task_id := Some t, dq_resolved_at := Some now\<rparr>"
  obtain question first others db1 db2 db3 db4 where
    question: "get_question_row db scope q = Some question" "dq_revision question = rvn"
    and allowed: "resolution_allowed db scope item question q rvn = Inr ()"
    and task: "resolution_task now uuid scope route question first db = Inr (t, db1)"
    and re: "reassign_inputs scope t (first # others) (db1\<lparr>db_questions := update_where ?p ?f (db_questions db1)\<rparr>) = Inr db2"
    and rest: "insert_input now plan_id scope item (Some t) None (suppress_question_outbound now scope q db2) = Inr db3"
      "insert_input_message scope item t db3 = Inr db4" "db' = touch_task now scope t db4"
    using assms by (auto simp: resolve_question_def rbind_eq_Inr Let_def case_prod_unfold
        split: option.splits if_splits list.splits)
  have "1 \<le> rvn"
    using True question fetchone_SomeD [OF question(1) [unfolded get_question_row_def]] by (auto simp: dg_inv_def)
  then have del: "\<exists>x \<in> set (db_refs db). dr_tenant_id x = cs_tenant_id scope \<and> dr_source_id x = cs_source_id scope
      \<and> dr_question_id x = Some q \<and> dr_question_revision x = Some rvn"
    by (rule resolution_delivered [OF allowed])
  have 1: "good db db1" "db_refs db1 = db_refs db" using good_resolution_task [OF task] by auto
  have 2: "good db1 (db1\<lparr>db_questions := update_where ?p ?f (db_questions db1)\<rparr>)"
  proof (rule good_questions_update)
    fix r assume "r \<in> set (db_questions db1)" and r: "?p r" and "1 \<le> dq_revision r"
    have "delivered (db_refs db1) r (dq_revision (?f r) - 1)"
      using del r by (auto simp: delivered_def 1(2) question_in_def)
    then show "question_step (db_refs db1) r (?f r)"
      using r by (simp add: question_step_def question_evolves_def question_identity_def)
  qed simp_all
  have 3: "good (db1\<lparr>db_questions := update_where ?p ?f (db_questions db1)\<rparr>) db2" by (rule good_reassign [OF re])
  have 4: "good db2 (suppress_question_outbound now scope q db2)"
    unfolding suppress_question_outbound_def by (rule good_suppress)
  have 5: "good (suppress_question_outbound now scope q db2) db3" using rest(1) unfolding insert_input_def by (rule good_insert_input)
  have 6: "good db3 db4" using rest(2) unfolding insert_input_message_def by (rule good_insert_message)
  have 7: "good db4 db'" unfolding rest(3) by (rule good_touch)
  show ?thesis by (rule good_trans [OF good_trans [OF good_trans [OF good_trans [OF good_trans [OF good_trans [OF 1(1) 2] 3] 4] 5] 6] 7])
qed (simp add: good_def)

lemma good_create:
  assumes "insert_task (new_task_row now scope t title request) db = Inr db1"
    and "insert_input now plan_id scope item (Some t) None db1 = Inr db2"
    and "insert_input_message scope item t db2 = Inr db3" and "set_focus now scope actor t db3 = Inr db4"
  shows "good db db4"
proof -
  have "good db db1" by (rule good_insert_task [OF assms(1)]) (simp add: new_task_row_def)
  moreover have "good db1 db2" using assms(2) unfolding insert_input_def by (rule good_insert_input)
  moreover have "good db2 db3" using assms(3) unfolding insert_input_message_def by (rule good_insert_message)
  moreover have "good db3 db4" using assms(4) by (rule good_focus)
  ultimately show ?thesis by (blast intro: good_trans)
qed

lemma good_route:
  assumes "route_input now uuid plan item route loc db = Inr (a, loc', db')"
  shows "good db db'"
proof (cases "rt_action route")
  case RCreate
  then show ?thesis
    using assms by (auto simp: route_input_def rbind_eq_Inr Let_def split: option.splits if_splits intro: good_create)
next
  case RStatus
  then show ?thesis
    using assms by (auto simp: route_input_def rbind_eq_Inr insert_input_def split: option.splits if_splits
        dest: good_insert_input)
next
  case RAttach
  then show ?thesis
    using assms by (auto simp: route_input_def rbind_eq_Inr dest!: good_attach good_focus intro: good_trans)
next
  case RQuestion
  then show ?thesis
    using assms by (auto simp: route_input_def rbind_eq_Inr insert_input_def split: option.splits
        dest!: good_question good_insert_input intro: good_trans)
next
  case RResolve
  then show ?thesis
    using assms by (auto simp: route_input_def rbind_eq_Inr split: option.splits if_splits
        dest!: good_resolve good_focus intro: good_trans)
next
  case RClose
  then obtain t where t: "resolve_task_target route loc = Inr t"
    using assms by (auto simp: route_input_def rbind_eq_Inr)
  then obtain db1 where "attach_input now (pl_plan_id plan) (pl_scope plan) item t db = Inr db1"
    "db' = end_task TaskClosed ''dialogue task closed before send admission'' now (pl_scope plan) t db1"
    using assms RClose
    by (cases "get_task_row db (pl_scope plan) t") (auto simp: route_input_def rbind_eq_Inr split: if_splits)
  then show ?thesis using good_trans [OF good_attach good_end_task] by simp
next
  case RCancel
  then obtain t where t: "resolve_task_target route loc = Inr t"
    using assms by (auto simp: route_input_def rbind_eq_Inr)
  then obtain db1 where "attach_input now (pl_plan_id plan) (pl_scope plan) item t db = Inr db1"
    "db' = end_task TaskCancelled ''dialogue task cancelled before send admission'' now (pl_scope plan) t db1"
    using assms RCancel
    by (cases "get_task_row db (pl_scope plan) t") (auto simp: route_input_def rbind_eq_Inr split: if_splits)
  then show ?thesis using good_trans [OF good_attach good_end_task] by simp
qed

lemma good_routes: "route_inputs now uuid plan items loc db = Inr (as, db') \<Longrightarrow> good db db'"
proof (induction items arbitrary: loc db as)
  case (Cons item items)
  then show ?case
    by (auto simp: rbind_eq_Inr case_prod_unfold dest!: good_route intro: good_trans)
qed simp

subsection \<open>A committed plan\<close>

lemma apply_plan_cases:
  assumes "apply_dialogue_plan sha now uuid plan db = Inr (res, db')"
  shows "validate_plan plan = Inr () \<and>
    (db' = db \<and> (\<exists>r. fetchone (plan_of plan) (db_plans db) = Some r
        \<and> dp_fingerprint r = idempotency_fingerprint sha (plan_data plan) \<and> plan_result_of (dp_result_json r) = Inr res)
     \<or> fetchone (plan_of plan) (db_plans db) = None \<and> (\<forall>item \<in> set (pl_inputs plan). \<not> input_known db plan item)
       \<and> (\<exists>as db1. route_inputs now uuid plan (pl_inputs plan) Map.empty db = Inr (as, db1)
            \<and> finalize_assignments db1 (pl_scope plan) as = Inr (dpr_assignments res) \<and> dpr_plan_id res = pl_plan_id plan
            \<and> db' = db1\<lparr>db_plans := db_plans db1 @
                 [new_plan_row (idempotency_fingerprint sha (plan_data plan)) now plan res]\<rparr>))"
proof -
  have v: "validate_plan plan = Inr ()" using assms by (auto simp: apply_dialogue_plan_def rbind_eq_Inr)
  show ?thesis
  proof (cases "fetchone (plan_of plan) (db_plans db)")
    case (Some r)
    then show ?thesis
      using assms v by (auto simp: apply_dialogue_plan_def rbind_eq_Inr Let_def split: if_splits)
  next
    case None
    show ?thesis
      using assms None v
      by (auto simp: apply_dialogue_plan_def rbind_eq_Inr Let_def insert_plan_row_def split: if_splits)
  qed
qed

lemma apply_plan_step:
  assumes "apply_dialogue_plan sha now uuid plan db = Inr (res, db')" and "dg_inv db"
  shows "dg_inv db' \<and> (\<exists>db1 new. plan_step db db1 \<and> db' = db1\<lparr>db_plans := db_plans db @ new\<rparr>)"
  using apply_plan_cases [OF assms(1)]
proof (elim conjE disjE exE)
  assume "db' = db"
  then show ?thesis using assms(2) by (auto intro!: exI [of _ db] exI [of _ "[]"])
next
  fix as db1
  let ?row = "new_plan_row (idempotency_fingerprint sha (plan_data plan)) now plan res"
  assume "route_inputs now uuid plan (pl_inputs plan) Map.empty db = Inr (as, db1)"
    and db': "db' = db1\<lparr>db_plans := db_plans db1 @ [?row]\<rparr>"
  then have "dg_inv db1" "plan_step db db1" using good_routes assms(2) by (auto simp: good_def)
  moreover from this db' have "dg_inv db'" by (simp add: dg_inv_def)
  ultimately show ?thesis using db' by (auto simp: plan_step_def intro!: exI [of _ db1])
qed

text \<open>Suppression is quiet for the outbound queue.\<close>

lemma map_eq_list_all2: "list_all2 P xs ys \<Longrightarrow> (\<And>x y. P x y \<Longrightarrow> k x = k y) \<Longrightarrow> map k ys = map k xs"
  by (induction rule: list_all2_induct) auto

lemma suppressed_facts:
  assumes "ob_suppressed a b"
  shows "ob_envelope b = ob_envelope a" "ob_attempts b = ob_attempts a" "ob_final a \<Longrightarrow> b = a"
    "ob_row_ok a \<Longrightarrow> ob_row_ok b" "ob_status b = ObSent \<Longrightarrow> b = a"
  using assms
  by (auto simp: ob_suppressed_def ob_pending_def ob_final_def intro: ob_row_ok_cancel)

lemma ob_ok_suppressed:
  assumes "ob_ok rows" and "list_all2 ob_suppressed rows rows'"
  shows "ob_ok rows'"
proof -
  have "ob_quiet rows rows'"
    unfolding ob_quiet_def
    by (rule exI [of _ rows'], rule exI [of _ "[]"])
       (use assms(2) suppressed_facts in \<open>auto simp: ob_evolves_def elim!: list_all2_mono\<close>)
  then have "ob_ordered rows'" using assms(1) ob_ordered_quiet by (auto simp: ob_ok_def)
  moreover have "ob_inv rows'"
  proof -
    have keys: "map ob_id rows' = map ob_id rows" "map ob_key rows' = map ob_key rows" "map ob_lane rows' = map ob_lane rows"
      using assms(2) ob_envelope_eqD(1-3) [OF suppressed_facts(1)]
      by (intro map_eq_list_all2 [of ob_suppressed]; metis)+
    have "unique_key ob_lane xs = distinct (List.map_filter id (map ob_lane xs))" for xs
      by (simp add: unique_key_def map_filter_def filter_map comp_def)
    then have "unique_key ob_lane rows' = unique_key ob_lane rows" by (simp add: keys(3))
    moreover have "\<forall>r \<in> set rows'. ob_row_ok r"
    proof
      fix r assume "r \<in> set rows'"
      then obtain i where i: "i < length rows'" "rows' ! i = r" by (auto simp: in_set_conv_nth)
      with assms(2) have "ob_suppressed (rows ! i) r" "rows ! i \<in> set rows"
        by (auto simp: list_all2_conv_all_nth)
      with assms(1) show "ob_row_ok r" by (auto simp: ob_ok_def ob_inv_def intro: suppressed_facts(4))
    qed
    ultimately show ?thesis using assms(1) keys by (simp add: ob_ok_def ob_inv_def)
  qed
  ultimately show ?thesis by (simp add: ob_ok_def)
qed

lemma conv_ok_suppressed:
  assumes "conv_ok db" and "list_all2 ob_suppressed (db_outbound db) (db_outbound db')" and "db_history db' = db_history db"
  shows "conv_ok db'"
proof -
  have "r \<in> set (db_outbound db)" if "r \<in> set (db_outbound db')" "ob_status r = ObSent" for r
    using that assms(2) suppressed_facts(5) unfolding list_all2_conv_all_nth by (metis in_set_conv_nth)
  then show ?thesis
    using assms ob_ok_suppressed [of "db_outbound db"]
    by (auto simp: conv_ok_def intro: sends_recorded_rows [of db])
qed

subsection \<open>Runs of a conversation\<close>

datatype cv_op = CvOutbound ob_op | CvPlan int "string \<Rightarrow> string" dialogue_plan

inductive cv_step :: "(string \<Rightarrow> string) \<Rightarrow> cv_op \<Rightarrow> conv_db \<Rightarrow> conv_db \<Rightarrow> bool" for sha where
  cv_outbound: "ob_step sha op db db' \<Longrightarrow> cv_step sha (CvOutbound op) db db'"
| cv_plan: "apply_dialogue_plan sha now uuid plan db = Inr (res, db') \<Longrightarrow> cv_step sha (CvPlan now uuid plan) db db'"

inductive_simps cv_step_simps:
  "cv_step sha (CvOutbound op) db db'"
  "cv_step sha (CvPlan now uuid plan) db db'"

text \<open>The dialogue tables as an outbound operation leaves them.\<close>

definition dialogue_kept :: "conv_db \<Rightarrow> conv_db \<Rightarrow> bool" where
  "dialogue_kept db db' \<longleftrightarrow> rows_extend task_evolves (db_tasks db) (db_tasks db')
     \<and> length (db_tasks db') = length (db_tasks db)
     \<and> db_questions db' = db_questions db \<and> db_inputs db' = db_inputs db \<and> db_plans db' = db_plans db
     \<and> (distinct (map dm_key (db_messages db)) \<longrightarrow> distinct (map dm_key (db_messages db')))"

lemma dialogue_kept_refl [simp]: "dialogue_kept db db"
  by (simp add: dialogue_kept_def rows_extend_refl)

lemma dialogue_kept_outbound [simp]: "dialogue_kept db (db\<lparr>db_outbound := rows\<rparr>)"
  by (simp add: dialogue_kept_def rows_extend_refl)

lemma dialogue_kept_trans: "dialogue_kept a b \<Longrightarrow> dialogue_kept b c \<Longrightarrow> dialogue_kept a c"
  by (auto simp: dialogue_kept_def intro: rows_extend_trans task_evolves_trans)

lemma dialogue_kept_message: "insert_dialogue_message n db = Inr db' \<Longrightarrow> dialogue_kept db db'"
proof -
  assume "insert_dialogue_message n db = Inr db'"
  then have "db' = db\<lparr>db_messages := db_messages db @ [n]\<rparr>" "dm_key n \<notin> dm_key ` set (db_messages db)"
    by (auto simp: insert_dialogue_message_def image_iff split: if_splits dest: sym)
  then show ?thesis by (auto simp: dialogue_kept_def rows_extend_refl)
qed

lemma dialogue_kept_reference: "insert_reference n db = Inr db' \<Longrightarrow> dialogue_kept db db'"
  by (auto simp: insert_reference_def dialogue_kept_def rows_extend_refl split: if_splits)

lemma dialogue_kept_project:
  assumes "project_confirmed_dialogue_message now row v db = Inr db'"
  shows "dialogue_kept db db'"
proof -
  have touch: "dialogue_kept x (x\<lparr>db_tasks := update_where p (\<lambda>r. r\<lparr>dt_updated_at := now\<rparr>) (db_tasks x)\<rparr>)" for x p
    by (auto simp: dialogue_kept_def task_evolves_def task_identity_def intro!: rows_extend_update_where)
  have touched: "dialogue_kept y (x\<lparr>db_tasks := update_where p (\<lambda>r. r\<lparr>dt_updated_at := now\<rparr>) (db_tasks x)\<rparr>)"
    if "dialogue_kept y x" for x y p
    using that touch by (rule dialogue_kept_trans)
  show ?thesis
    using assms
    by (auto simp: project_confirmed_dialogue_message_def Let_def rbind_eq_Inr split: if_splits option.splits
        dest!: dialogue_kept_message dialogue_kept_reference intro: touched
        elim: dialogue_kept_trans [OF touched] dialogue_kept_trans)
qed

lemma dialogue_kept_sent:
  assumes "mark_sent now uuid res k t db = Inr (b, db')"
  shows "dialogue_kept db db'"
proof -
  have hist: "dialogue_kept db (db\<lparr>db_outbound := rows, db_history := h\<rparr>)" for rows h
    by (simp add: dialogue_kept_def rows_extend_refl)
  show ?thesis
    using assms
    by (auto simp: mark_sent_def Let_def rbind_eq_Inr split: if_splits option.splits
        dest!: dialogue_kept_project intro: dialogue_kept_trans hist)
qed

lemma dialogue_kept_step: "ob_step sha op db db' \<Longrightarrow> dialogue_kept db db'"
proof (induction rule: ob_step.induct)
  case (ob_enqueue now uuid a db res db')
  then show ?case by (auto dest!: enqueue_outbound_cases simp: insert_outbound_def split: if_splits)
next
  case (ob_claim c now t db claimed db')
  then have "db' = db\<lparr>db_outbound := db_outbound db'\<rparr>" by (auto dest: outbound_claim_Inr)
  then show ?case by (metis dialogue_kept_outbound)
next
  case (ob_renew now secs k t db b db')
  then show ?case by (auto simp: outbound_renew_lease_def Let_def split: if_splits)
next
  case (ob_sending now k t db b db')
  then show ?case by (auto simp: mark_sending_def Let_def split: if_splits option.splits)
next
  case (ob_settled a k t db b db')
  then show ?case
    by (cases a) (auto simp: case_prod_unfold Let_def split: sum.splits intro: dialogue_kept_sent)
qed

lemma dialogue_kept_inv: "dialogue_kept db db' \<Longrightarrow> dg_inv db \<Longrightarrow> dg_inv db'"
proof -
  assume k: "dialogue_kept db db'" and inv: "dg_inv db"
  have len: "length (db_tasks db') = length (db_tasks db)"
    and ev: "\<And>i. i < length (db_tasks db) \<Longrightarrow> task_evolves (db_tasks db ! i) (db_tasks db' ! i)"
    using k by (auto simp: dialogue_kept_def rows_extend_def)
  then have "map dt_id (db_tasks db') = map dt_id (db_tasks db)"
    by (intro nth_equalityI) (auto simp: task_evolves_def task_identity_def)
  moreover have "\<forall>t \<in> set (db_tasks db'). 1 \<le> dt_revision t"
  proof
    fix t assume "t \<in> set (db_tasks db')"
    then obtain i where i: "i < length (db_tasks db)" "db_tasks db' ! i = t" using len by (auto simp: in_set_conv_nth)
    have "1 \<le> dt_revision (db_tasks db ! i)" using inv nth_mem [OF i(1)] by (simp add: dg_inv_def)
    then show "1 \<le> dt_revision t" using ev [OF i(1)] i(2) by (auto simp: task_evolves_def)
  qed
  ultimately show ?thesis using k inv by (simp add: dg_inv_def dialogue_kept_def)
qed

definition cv_ok :: "conv_db \<Rightarrow> bool" where
  "cv_ok db \<longleftrightarrow> conv_ok db \<and> dg_inv db"

lemma plan_step_conv_ok: "plan_step db db1 \<Longrightarrow> conv_ok db \<Longrightarrow> conv_ok (db1\<lparr>db_plans := ps\<rparr>)"
  by (erule conv_ok_suppressed) (auto simp: plan_step_def)

lemma cv_step_ok: "cv_step sha op db db' \<Longrightarrow> cv_ok db \<Longrightarrow> cv_ok db'"
proof (induction rule: cv_step.induct)
  case (cv_outbound op db db')
  then show ?case unfolding cv_ok_def by (blast intro: dialogue_kept_inv dialogue_kept_step ob_step_conv_ok)
next
  case (cv_plan now uuid plan db res db')
  then show ?case using apply_plan_step [OF cv_plan(1)] by (auto simp: cv_ok_def intro: plan_step_conv_ok)
qed

lemma steps_cv_ok: "steps (cv_step sha) ops db db' \<Longrightarrow> cv_ok db \<Longrightarrow> cv_ok db'"
  by (erule steps_invariant) (auto intro: cv_step_ok)

text \<open>What every operation does to the rows of the dialogue.\<close>

definition dialogue_later :: "conv_db \<Rightarrow> conv_db \<Rightarrow> bool" where
  "dialogue_later db db' \<longleftrightarrow> rows_extend task_evolves (db_tasks db) (db_tasks db')
     \<and> rows_extend question_evolves (db_questions db) (db_questions db')
     \<and> rows_extend input_evolves (db_inputs db) (db_inputs db')
     \<and> (\<exists>new. db_plans db' = db_plans db @ new)"

lemma dialogue_later_refl [simp]: "dialogue_later db db"
  by (simp add: dialogue_later_def rows_extend_refl)

lemma dialogue_later_trans: "dialogue_later a b \<Longrightarrow> dialogue_later b c \<Longrightarrow> dialogue_later a c"
  by (auto simp: dialogue_later_def
      intro: rows_extend_trans task_evolves_trans question_evolves_trans input_evolves_trans)

lemma cv_step_later: "cv_step sha op db db' \<Longrightarrow> cv_ok db \<Longrightarrow> dialogue_later db db'"
proof (induction rule: cv_step.induct)
  case (cv_outbound op db db')
  then show ?case
    using dialogue_kept_step by (auto simp: dialogue_later_def dialogue_kept_def rows_extend_refl)
next
  case (cv_plan now uuid plan db res db')
  then obtain db1 new where "plan_step db db1" "db' = db1\<lparr>db_plans := db_plans db @ new\<rparr>"
    using apply_plan_step [OF cv_plan(1)] by (auto simp: cv_ok_def)
  then show ?case
    by (auto simp: dialogue_later_def plan_step_def task_step_def question_step_def elim!: rows_extend_mono)
qed

lemma steps_later: "steps (cv_step sha) ops db db' \<Longrightarrow> cv_ok db \<Longrightarrow> dialogue_later db db'"
  by (erule steps_preorder [where I = cv_ok])
     (auto intro: cv_step_ok cv_step_later dialogue_later_trans)

subsection \<open>Plans are idempotent commands\<close>

definition plan_recorded :: "(string \<Rightarrow> string) \<Rightarrow> dialogue_plan \<Rightarrow> conv_db \<Rightarrow> bool" where
  "plan_recorded sha plan db \<longleftrightarrow> validate_plan plan = Inr () \<and>
     (\<exists>r res. fetchone (plan_of plan) (db_plans db) = Some r
        \<and> dp_fingerprint r = idempotency_fingerprint sha (plan_data plan) \<and> plan_result_of (dp_result_json r) = Inr res)"

lemma apply_plan_recorded:
  "plan_recorded sha plan db \<Longrightarrow> \<exists>res. apply_dialogue_plan sha now uuid plan db = Inr (res, db)"
  by (auto simp: plan_recorded_def apply_dialogue_plan_def)

lemma plan_of_new [simp]: "plan_of plan (new_plan_row f now plan res)"
  by (simp add: plan_of_def new_plan_row_def)

text \<open>The stored result of a plan is what the plan returned.\<close>

lemma apply_plan_stored:
  assumes "apply_dialogue_plan sha now uuid plan db = Inr (res, db')" and "dg_inv db"
  shows "\<exists>r. fetchone (plan_of plan) (db_plans db') = Some r
    \<and> dp_fingerprint r = idempotency_fingerprint sha (plan_data plan) \<and> plan_result_of (dp_result_json r) = Inr res"
  using apply_plan_cases [OF assms(1)]
proof (elim conjE disjE exE)
  fix as db1
  let ?row = "new_plan_row (idempotency_fingerprint sha (plan_data plan)) now plan res"
  assume none: "fetchone (plan_of plan) (db_plans db) = None"
    and "route_inputs now uuid plan (pl_inputs plan) Map.empty db = Inr (as, db1)"
    and db': "db' = db1\<lparr>db_plans := db_plans db1 @ [?row]\<rparr>"
  then have "db_plans db1 = db_plans db" using good_routes assms(2) by (auto simp: good_def plan_step_def)
  with none db' have "fetchone (plan_of plan) (db_plans db') = Some ?row" by (simp add: fetchone_append)
  then show ?thesis by (simp add: new_plan_row_def)
qed auto

interpretation plan_idem: idempotent_store cv_ok "\<lambda>_. True"
    "\<lambda>plan (now, uuid). apply_dialogue_plan sha now uuid plan" "plan_recorded sha" "cv_step sha" for sha
proof (unfold_locales, goal_cases)
  case (1 db plan e res db')
  then show ?case by (cases e) (auto intro: cv_step_ok [where sha = sha] cv_plan)
next
  case (2 db plan e res db')
  then show ?case
    using apply_plan_cases apply_plan_stored by (cases e) (fastforce simp: plan_recorded_def cv_ok_def)
next
  case (3 db plan e)
  then show ?case using apply_plan_recorded [of sha plan db] by (cases e) fastforce
next
  case (4 db l db')
  then show ?case by (blast intro: cv_step_ok)
next
  case (5 db l db' plan)
  then show ?case
    using cv_step_later [OF 5(2,1)] by (auto simp: plan_recorded_def dialogue_later_def fetchone_append)
qed

subsection \<open>Every input of a plan is assigned\<close>

definition assigned_row :: "dialogue_plan \<Rightarrow> string \<Rightarrow> assigned \<Rightarrow> input_row \<Rightarrow> bool" where
  "assigned_row plan i a r \<longleftrightarrow> di_key r = (tenant_of plan, source_of plan, i) \<and> di_plan_id r = pl_plan_id plan
     \<and> (\<forall>t. fst a = Some t \<longrightarrow> di_task_id r = Some t) \<and> (fst a = None \<longrightarrow> di_question_id r = fst (snd a))"

lemma insert_input_rows:
  "insert_input now plan_id scope item t q db = Inr db' \<Longrightarrow>
     db_inputs db' = db_inputs db @ [new_input_row now plan_id scope item t q]"
  by (auto simp: insert_input_def insert_input_row_def split: if_splits)

lemma keeps_inputs:
  "insert_dialogue_message n db = Inr db' \<Longrightarrow> db_inputs db' = db_inputs db"
  "set_focus now scope actor tk db = Inr db' \<Longrightarrow> db_inputs db' = db_inputs db"
  by (auto simp: insert_dialogue_message_def set_focus_def Let_def split: if_splits)

lemma keeps_inputs_updates [simp]:
  "db_inputs (touch_task now scope tk db) = db_inputs db"
  "db_inputs (suppress p reason now scope db) = db_inputs db"
  "db_inputs (end_task st reason now scope tk db) = db_inputs db"
  by (simp_all add: touch_task_def suppress_def end_task_def suppress_task_outbound_def)

lemma attach_input_rows:
  "attach_input now plan_id scope item t db = Inr db' \<Longrightarrow>
     db_inputs db' = db_inputs db @ [new_input_row now plan_id scope item (Some t) None]"
  by (auto simp: attach_input_def insert_input_message_def rbind_eq_Inr split: option.splits if_splits
      dest!: insert_input_rows keeps_inputs(1))

lemma resolve_question_row:
  "resolve_question now uuid plan_id scope item route q n db = Inr (t, db') \<Longrightarrow>
     new_input_row now plan_id scope item (Some t) None \<in> set (db_inputs db')"
  by (auto simp: resolve_question_def insert_input_message_def rbind_eq_Inr Let_def case_prod_unfold
      split: option.splits if_splits list.splits dest!: insert_input_rows keeps_inputs(1))

lemma assigned_new_row:
  "assigned_row plan (in_input_id item) a (new_input_row now (pl_plan_id plan) (pl_scope plan) item t q)
    \<longleftrightarrow> (\<forall>x. fst a = Some x \<longrightarrow> t = Some x) \<and> (fst a = None \<longrightarrow> q = fst (snd a))"
  by (simp add: assigned_row_def new_input_row_def di_key_def)

lemma end_route:
  assumes "route_input now uuid plan item route loc db = Inr (a, loc', db')" and "rt_action route \<in> {RClose, RCancel}"
  shows "\<exists>t db1. attach_input now (pl_plan_id plan) (pl_scope plan) item t db = Inr db1
    \<and> a = (Some t, None, None) \<and> db_inputs db' = db_inputs db1"
proof -
  obtain t where t: "resolve_task_target route loc = Inr t"
    using assms by (auto simp: route_input_def rbind_eq_Inr)
  show ?thesis
    using assms t
    by (cases "get_task_row db (pl_scope plan) t") (auto simp: route_input_def rbind_eq_Inr split: if_splits)
qed

lemma route_input_row:
  assumes "route_input now uuid plan item route loc db = Inr (a, loc', db')"
  shows "\<exists>r \<in> set (db_inputs db'). assigned_row plan (in_input_id item) a r"
proof (cases "rt_action route")
  case RCreate
  then show ?thesis
    using assms
    by (auto simp: route_input_def rbind_eq_Inr Let_def insert_input_message_def assigned_new_row
        split: option.splits if_splits dest!: insert_input_rows keeps_inputs)
next
  case RStatus
  then show ?thesis
    using assms by (auto simp: route_input_def rbind_eq_Inr assigned_new_row split: option.splits if_splits
        dest!: insert_input_rows)
next
  case RAttach
  then show ?thesis
    using assms by (auto simp: route_input_def rbind_eq_Inr assigned_new_row dest!: attach_input_rows keeps_inputs)
next
  case RQuestion
  then show ?thesis
    using assms by (auto simp: route_input_def rbind_eq_Inr assigned_new_row split: option.splits
        dest!: insert_input_rows)
next
  case RResolve
  then obtain q n t db1 where 1: "resolve_question now uuid (pl_plan_id plan) (pl_scope plan) item route q n db = Inr (t, db1)"
    and 2: "set_focus now (pl_scope plan) (in_actor_id item) t db1 = Inr db'" and a: "fst a = Some t"
    using assms by (auto simp: route_input_def rbind_eq_Inr case_prod_unfold split: option.splits if_splits)
  then have "new_input_row now (pl_plan_id plan) (pl_scope plan) item (Some t) None \<in> set (db_inputs db')"
    using resolve_question_row [OF 1] keeps_inputs(2) [OF 2] by simp
  moreover have "assigned_row plan (in_input_id item) a (new_input_row now (pl_plan_id plan) (pl_scope plan) item (Some t) None)"
    using a by (simp add: assigned_new_row)
  ultimately show ?thesis by blast
next
  case RClose
  then show ?thesis using end_route [OF assms] by (auto simp: assigned_new_row dest!: attach_input_rows)
next
  case RCancel
  then show ?thesis using end_route [OF assms] by (auto simp: assigned_new_row dest!: attach_input_rows)
qed

lemma assigned_row_evolves: "assigned_row plan i a r \<Longrightarrow> input_evolves r r' \<Longrightarrow> assigned_row plan i a r'"
  by (auto simp: assigned_row_def input_evolves_def di_key_def)

lemma route_inputs_rows:
  "route_inputs now uuid plan items loc db = Inr (as, db') \<Longrightarrow> dg_inv db \<Longrightarrow>
     map fst as = map in_input_id items
     \<and> (\<forall>(i, a) \<in> set as. \<exists>r \<in> set (db_inputs db'). assigned_row plan i a r)"
proof (induction items arbitrary: loc db as)
  case (Cons item items)
  obtain route a loc1 db1 rest where
    one: "route_input now (uuid (in_input_id item)) plan item route loc db = Inr (a, loc1, db1)"
    and two: "route_inputs now uuid plan items loc1 db1 = Inr (rest, db')" and as: "as = (in_input_id item, a) # rest"
    using Cons.prems(1) by (auto simp: rbind_eq_Inr case_prod_unfold)
  have inv1: "dg_inv db1" using good_route [OF one] Cons.prems(2) by (simp add: good_def)
  obtain r where r: "r \<in> set (db_inputs db1)" "assigned_row plan (in_input_id item) a r"
    using route_input_row [OF one] by blast
  have "rows_extend input_evolves (db_inputs db1) (db_inputs db')"
    using good_routes [OF two] inv1 by (simp add: good_def plan_step_def)
  then obtain r' where "r' \<in> set (db_inputs db')" "assigned_row plan (in_input_id item) a r'"
    using rows_extend_member [OF _ r(1)] assigned_row_evolves [OF r(2)] by blast
  then show ?case using Cons.IH [OF two inv1] as by auto
qed simp

text \<open>A final assignment names the task as it is when the plan commits.\<close>

definition assignment_final :: "conv_db \<Rightarrow> conversation_scope \<Rightarrow> string \<times> assigned \<Rightarrow> dialogue_assignment \<Rightarrow> bool" where
  "assignment_final db scope ia x \<longleftrightarrow> as_input_id x = fst ia \<and> as_task_id x = fst (snd ia)
     \<and> as_question_id x = fst (snd (snd ia)) \<and> as_question_revision x = snd (snd (snd ia))
     \<and> (\<forall>t. as_task_id x = Some t \<longrightarrow> (\<exists>row. get_task_row db scope t = Some row
          \<and> as_task_revision x = Some (dt_revision row) \<and> as_task_status x = Some (dt_status row)))"

lemma finalize_assignments_final:
  "finalize_assignments db scope as = Inr xs \<Longrightarrow> list_all2 (assignment_final db scope) as xs"
proof (induction as arbitrary: xs)
  case (Cons ia as)
  obtain i t q n where ia: "ia = (i, t, q, n)" by (cases ia) auto
  with Cons show ?case
    by (cases t) (auto simp: rbind_eq_Inr assignment_final_def split: option.splits)
qed simp

lemma plan_assigns:
  assumes "apply_dialogue_plan sha now uuid plan db = Inr (res, db')" and "dg_inv db"
    and "fetchone (plan_of plan) (db_plans db) = None"
  shows "map as_input_id (dpr_assignments res) = map in_input_id (pl_inputs plan)
    \<and> (\<forall>x \<in> set (dpr_assignments res).
         (\<exists>r \<in> set (db_inputs db'). di_key r = (tenant_of plan, source_of plan, as_input_id x)
            \<and> di_plan_id r = pl_plan_id plan
            \<and> (\<forall>t. as_task_id x = Some t \<longrightarrow> di_task_id r = Some t)
            \<and> (as_task_id x = None \<longrightarrow> di_question_id r = as_question_id x))
       \<and> (\<forall>t. as_task_id x = Some t \<longrightarrow> (\<exists>row. get_task_row db' (pl_scope plan) t = Some row
            \<and> as_task_revision x = Some (dt_revision row) \<and> as_task_status x = Some (dt_status row))))"
proof -
  obtain as db1 ps where routes: "route_inputs now uuid plan (pl_inputs plan) Map.empty db = Inr (as, db1)"
    and fin: "finalize_assignments db1 (pl_scope plan) as = Inr (dpr_assignments res)"
    and db': "db' = db1\<lparr>db_plans := ps\<rparr>"
    using apply_plan_cases [OF assms(1)] assms(3) by auto
  have l: "list_all2 (assignment_final db1 (pl_scope plan)) as (dpr_assignments res)"
    by (rule finalize_assignments_final [OF fin])
  have rows: "map fst as = map in_input_id (pl_inputs plan)"
    "\<forall>(i, a) \<in> set as. \<exists>r \<in> set (db_inputs db1). assigned_row plan i a r"
    using route_inputs_rows [OF routes assms(2)] by auto
  have ids: "map as_input_id (dpr_assignments res) = map fst as"
    using l by (induction rule: list_all2_induct) (auto simp: assignment_final_def)
  have "\<exists>ia \<in> set as. assignment_final db1 (pl_scope plan) ia x" if "x \<in> set (dpr_assignments res)" for x
    using l that unfolding list_all2_conv_all_nth in_set_conv_nth by (metis nth_mem)
  then show ?thesis
    using ids rows db' by (fastforce simp: assignment_final_def assigned_row_def get_task_row_def)
qed

subsection \<open>Properties\<close>

definition demo_scope :: conversation_scope where
  "demo_scope = \<lparr>cs_tenant_id = ''t'', cs_source_id = ''s''\<rparr>"

definition demo_input :: "string \<Rightarrow> dialogue_input" where
  "demo_input i = \<lparr>in_input_id = i, in_actor_id = ''ann'', in_text = ''book a table'', in_occurred_at = 9,
     in_channel = ''telegram'', in_source_message_id = None, in_reply_to_message_id = None,
     in_message_thread_id = None\<rparr>"

definition demo_route :: "string \<Rightarrow> route_action \<Rightarrow> dialogue_route" where
  "demo_route i a = \<lparr>rt_input_id = i, rt_action = a, rt_task_id = None, rt_task_key = None, rt_title = None,
     rt_question_id = None, rt_question_revision = None, rt_question_text = None, rt_candidates = [],
     rt_has_more_candidates = False, rt_response_text = None\<rparr>"

definition demo_plan :: "string \<Rightarrow> string \<Rightarrow> dialogue_route \<Rightarrow> dialogue_plan" where
  "demo_plan p i r = \<lparr>pl_plan_id = p, pl_scope = demo_scope, pl_inputs = [demo_input i], pl_routes = [r]\<rparr>"

definition demo_create :: dialogue_plan where
  "demo_create = demo_plan ''p1'' ''i1'' ((demo_route ''i1'' RCreate)\<lparr>rt_task_key := Some ''new:i1'', rt_title := Some ''dinner''\<rparr>)"


definition demo_resolve :: dialogue_plan where
  "demo_resolve = demo_plan ''p3'' ''i3'' ((demo_route ''i3'' RResolve)\<lparr>rt_task_key := Some ''new:i3'',
     rt_title := Some ''dinner'', rt_question_id := Some ''q'', rt_question_revision := Some 1\<rparr>)"

text \<open>An active task with a queued message for it, and a delivered routing question.\<close>

definition demo_dialogue_db :: conv_db where
  "demo_dialogue_db = empty_conv_db\<lparr>
     db_tasks := [new_task_row 5 demo_scope ''task_i1'' ''dinner'' ''book a table''],
     db_questions := [\<lparr>dq_id = ''q'', dq_tenant_id = ''t'', dq_source_id = ''s'', dq_actor_id = ''ann'', dq_text = ''which?'',
       dq_status = QPending, dq_revision = 1, dq_candidates_json = [], dq_has_more_candidates = False,
       dq_resolved_task_id = None, dq_created_at = 5, dq_resolved_at = None\<rparr>],
     db_inputs := [new_input_row 5 ''p0'' demo_scope (demo_input ''i0'') None (Some ''q'')],
     db_refs := [\<lparr>dr_tenant_id = ''t'', dr_source_id = ''s'', dr_channel = ''telegram'', dr_external_message_id = ''77'',
       dr_outbound_message_id = ''out_q'', dr_task_id = None, dr_question_id = Some ''q'',
       dr_question_revision = Some 1, dr_confirmed_at = 6\<rparr>],
     db_outbound := [(demo_queued ''a'' 1)\<lparr>ob_task_id := Some ''task_i1'', ob_task_revision := Some 1\<rparr>]\<rparr>"

lemma demo_dialogue_inv: "dg_inv demo_dialogue_db" "dg_inv empty_conv_db"
  by (simp_all add: dg_inv_def demo_dialogue_db_def empty_conv_db_def new_task_row_def)

lemma demo_conv_ok: "cv_ok empty_conv_db"
  by (simp add: cv_ok_def conv_ok_def ob_ok_def ob_inv_def ob_ordered_def sends_recorded_def demo_dialogue_inv(2))
     (simp add: empty_conv_db_def)

definition demo_apply :: "dialogue_plan \<Rightarrow> conv_db \<Rightarrow> (dialogue_plan_result \<times> conv_db) result" where
  "demo_apply plan db = apply_dialogue_plan (\<lambda>s. ''digest'') 10 (\<lambda>i. i) plan db"

lemma demo_created: "case demo_apply demo_create empty_conv_db of Inl _ \<Rightarrow> False
    | Inr (res, db') \<Rightarrow> map as_task_id (dpr_assignments res) = [Some ''task_i1'']"
  by code_simp


lemma demo_resolved: "case demo_apply demo_resolve demo_dialogue_db of Inl _ \<Rightarrow> False
    | Inr (res, db') \<Rightarrow> map (\<lambda>r. (dq_id r, dq_status r, dq_revision r)) (db_questions db') = [(''q'', QResolved, 2)]"
  by code_simp

text \<open>One run, two writers: whatever interleaving of outbound operations and routing plans a
  conversation sees, the outbound invariant, the history records of sent messages and the uniqueness
  and revision invariants of the dialogue tables hold, and the order of delivery is kept.\<close>

theorem conversation_run_invariant:
  assumes "cv_ok db" and "steps (cv_step sha) ops db db'"
  shows "ob_ok (db_outbound db') \<and> hm_inv (db_history db') \<and> sends_recorded db' \<and> dg_inv db'"
  using steps_cv_ok [OF assms(2,1)] by (simp add: cv_ok_def conv_ok_def)

theorem conversation_run_invariant_witness:
  "\<exists>res db'. demo_apply demo_create empty_conv_db = Inr (res, db')
     \<and> ob_ok (db_outbound db') \<and> hm_inv (db_history db') \<and> sends_recorded db' \<and> dg_inv db'"
proof -
  obtain res db' where r: "demo_apply demo_create empty_conv_db = Inr (res, db')"
    using demo_created by (auto split: sum.splits)
  then have "steps (cv_step (\<lambda>s. ''digest'')) [CvPlan 10 (\<lambda>i. i) demo_create] empty_conv_db db'"
    by (auto simp: cv_step_simps demo_apply_def)
  from conversation_run_invariant [OF demo_conv_ok this] show ?thesis using r by blast
qed

text \<open>The life cycle of dialogue rows: in every run of plans and outbound operations no task, question
  or input is lost; a task keeps its identity, is ended at most once (its revision then grows by one)
  and is never reopened; a resolved question never changes; a question's revision never decreases and
  grows with every change; and an input that was given a task keeps it.\<close>

theorem dialogue_life_cycle:
  assumes "cv_ok db" and "steps (cv_step sha) ops db db'"
  shows "rows_extend task_evolves (db_tasks db) (db_tasks db')
    \<and> rows_extend question_evolves (db_questions db) (db_questions db')
    \<and> rows_extend input_evolves (db_inputs db) (db_inputs db')"
  using steps_later [OF assms(2,1)] by (simp add: dialogue_later_def)

theorem dialogue_life_cycle_witness:
  "\<exists>res db'. demo_apply demo_create empty_conv_db = Inr (res, db')
     \<and> rows_extend task_evolves (db_tasks empty_conv_db) (db_tasks db')
     \<and> rows_extend question_evolves (db_questions empty_conv_db) (db_questions db')
     \<and> rows_extend input_evolves (db_inputs empty_conv_db) (db_inputs db')"
proof -
  obtain res db' where r: "demo_apply demo_create empty_conv_db = Inr (res, db')"
    using demo_created by (auto split: sum.splits)
  then have "steps (cv_step (\<lambda>s. ''digest'')) [CvPlan 10 (\<lambda>i. i) demo_create] empty_conv_db db'"
    by (auto simp: cv_step_simps demo_apply_def)
  from dialogue_life_cycle [OF demo_conv_ok this] show ?thesis using r by blast
qed



text \<open>C21: A routing question is resolved only after it was delivered: whenever a plan resolves a question
  that was pending, the generation it resolves (the revision before the resolution) has a confirmed
  delivery in that conversation.\<close>

theorem question_resolved_after_delivery:
  assumes "apply_dialogue_plan sha now uuid plan db = Inr (res, db')" and "dg_inv db"
    and "q \<in> set (db_questions db)" and "q' \<in> set (db_questions db')" and "dq_id q' = dq_id q"
    and "dq_status q = QPending" and "dq_status q' = QResolved"
  shows "\<exists>x \<in> set (db_refs db). dr_tenant_id x = dq_tenant_id q \<and> dr_source_id x = dq_source_id q
     \<and> dr_question_id x = Some (dq_id q) \<and> dr_question_revision x = Some (dq_revision q' - 1)"
proof -
  obtain db1 new where step: "plan_step db db1" and db': "db' = db1\<lparr>db_plans := db_plans db @ new\<rparr>" and inv: "dg_inv db'"
    using apply_plan_step [OF assms(1,2)] by blast
  have "question_step (db_refs db) q q'"
    by (rule rows_extend_pair [where k = dq_id and s = "db_questions db" and t = "db_questions db1"])
       (use step inv assms(3-5) db' in \<open>auto simp: plan_step_def dg_inv_def dest: step_ids\<close>)
  then show ?thesis using assms(6,7) by (auto simp: question_step_def delivered_def)
qed

theorem question_resolved_after_delivery_witness:
  "\<exists>x \<in> set (db_refs demo_dialogue_db). dr_question_id x = Some ''q'' \<and> dr_question_revision x = Some 1"
proof -
  obtain res db' where r: "demo_apply demo_resolve demo_dialogue_db = Inr (res, db')"
    and st: "map (\<lambda>r. (dq_id r, dq_status r, dq_revision r)) (db_questions db') = [(''q'', QResolved, 2)]"
    using demo_resolved by (auto split: sum.splits)
  obtain q where q: "db_questions demo_dialogue_db = [q]" "dq_id q = ''q''" "dq_status q = QPending"
    by (simp add: demo_dialogue_db_def)
  obtain q' where q': "db_questions db' = [q']" "dq_id q' = ''q''" "dq_status q' = QResolved" "dq_revision q' = 2"
    using st by auto
  show ?thesis
    using question_resolved_after_delivery [OF r [unfolded demo_apply_def] demo_dialogue_inv(1), of q q'] q q' by auto
qed

text \<open>Every input of a new plan is assigned: the result lists one assignment per input, in order;
  each names the stored input row of this plan with its task, or with its question when it has no
  task; and the revision and status it reports are those of the task when the plan commits.\<close>

theorem plan_assigns_every_input:
  assumes "apply_dialogue_plan sha now uuid plan db = Inr (res, db')" and "dg_inv db"
    and "fetchone (plan_of plan) (db_plans db) = None"
  shows "map as_input_id (dpr_assignments res) = map in_input_id (pl_inputs plan)
    \<and> (\<forall>x \<in> set (dpr_assignments res).
         (\<exists>r \<in> set (db_inputs db'). di_key r = (tenant_of plan, source_of plan, as_input_id x)
            \<and> di_plan_id r = pl_plan_id plan
            \<and> (\<forall>t. as_task_id x = Some t \<longrightarrow> di_task_id r = Some t)
            \<and> (as_task_id x = None \<longrightarrow> di_question_id r = as_question_id x))
       \<and> (\<forall>t. as_task_id x = Some t \<longrightarrow> (\<exists>row. get_task_row db' (pl_scope plan) t = Some row
            \<and> as_task_revision x = Some (dt_revision row) \<and> as_task_status x = Some (dt_status row))))"
  by (rule plan_assigns [OF assms])

theorem plan_assigns_every_input_witness:
  "\<exists>res db' row. demo_apply demo_create empty_conv_db = Inr (res, db')
     \<and> map as_input_id (dpr_assignments res) = [''i1''] \<and> get_task_row db' demo_scope ''task_i1'' = Some row
     \<and> map as_task_revision (dpr_assignments res) = [Some (dt_revision row)]"
proof -
  obtain res db' where r: "demo_apply demo_create empty_conv_db = Inr (res, db')"
    and t: "map as_task_id (dpr_assignments res) = [Some ''task_i1'']"
    using demo_created by (auto split: sum.splits)
  have new: "fetchone (plan_of demo_create) (db_plans empty_conv_db) = None" by (simp add: empty_conv_db_def)
  obtain x where "dpr_assignments res = [x]" "as_task_id x = Some ''task_i1''" using t by auto
  then show ?thesis
    using plan_assigns_every_input [OF r [unfolded demo_apply_def] demo_dialogue_inv(2) new] r
    by (auto simp: demo_create_def demo_plan_def demo_input_def)
qed

text \<open>Plans are idempotent: after a plan was applied, and after any further plans and outbound
  operations, applying it again any number of times answers and changes nothing, and right after the
  first application the answer is the same result.\<close>

theorem dialogue_plan_idempotent:
  assumes "cv_ok db" and "apply_dialogue_plan sha now uuid plan db = Inr (res, db1)"
    and "steps (cv_step sha) ops db1 db2"
  shows "(\<exists>rs. replay_all (\<lambda>(now, uuid). apply_dialogue_plan sha now uuid plan) again db2 = Inr (rs, db2))
    \<and> apply_dialogue_plan sha now' uuid' plan db1 = Inr (res, db1)"
proof (rule conjI)
  show "\<exists>rs. replay_all (\<lambda>(now, uuid). apply_dialogue_plan sha now uuid plan) again db2 = Inr (rs, db2)"
    using plan_idem.replay_absorbed [where s = db and c = plan and sha = sha and e = "(now, uuid)" and r = res
      and ?s1.0 = db1 and ls = ops and ?s2.0 = db2 and es = again] assms by simp
  have "dg_inv db" using assms(1) by (simp add: cv_ok_def)
  then show "apply_dialogue_plan sha now' uuid' plan db1 = Inr (res, db1)"
    using apply_plan_cases [OF assms(2)] apply_plan_stored [OF assms(2)] by (auto simp: apply_dialogue_plan_def)
qed

theorem dialogue_plan_idempotent_witness:
  "\<exists>res db'. demo_apply demo_create empty_conv_db = Inr (res, db') \<and> demo_apply demo_create db' = Inr (res, db')"
proof -
  obtain res db' where r: "demo_apply demo_create empty_conv_db = Inr (res, db')"
    using demo_created by (auto split: sum.splits)
  then show ?thesis
    using dialogue_plan_idempotent [OF demo_conv_ok r [unfolded demo_apply_def] steps_Nil]
    by (auto simp: demo_apply_def)
qed

text \<open>A committed plan reads back as it was: the plan that \<open>get_plan\<close> decodes from the stored JSON is
  the plan that was applied.\<close>

theorem dialogue_plan_reads_back:
  assumes "apply_dialogue_plan sha now uuid plan db = Inr (res, db')" and "dg_inv db" and "wf_plan plan"
    and "fetchone (plan_of plan) (db_plans db) = None"
  shows "get_plan db' (pl_scope plan) (pl_plan_id plan) = Inr (Some plan)"
proof -
  let ?row = "new_plan_row (idempotency_fingerprint sha (plan_data plan)) now plan res"
  obtain as db1 where "route_inputs now uuid plan (pl_inputs plan) Map.empty db = Inr (as, db1)"
    and db': "db' = db1\<lparr>db_plans := db_plans db1 @ [?row]\<rparr>"
    using apply_plan_cases [OF assms(1)] assms(4) by auto
  then have "db_plans db1 = db_plans db" using good_routes assms(2) by (auto simp: good_def plan_step_def)
  moreover have "(\<lambda>r. dp_tenant_id r = tenant_of plan \<and> dp_source_id r = source_of plan \<and> dp_plan_id r = pl_plan_id plan)
      = plan_of plan" by (simp add: fun_eq_iff plan_of_def)
  ultimately show ?thesis
    using db' assms(4) plan_roundtrip [OF assms(3)]
    by (simp add: get_plan_def fetchone_append) (simp add: new_plan_row_def)
qed

theorem dialogue_plan_reads_back_witness:
  "\<exists>res db'. demo_apply demo_create empty_conv_db = Inr (res, db')
     \<and> get_plan db' (pl_scope demo_create) (pl_plan_id demo_create) = Inr (Some demo_create)"
proof -
  obtain res db' where r: "demo_apply demo_create empty_conv_db = Inr (res, db')"
    using demo_created by (auto split: sum.splits)
  have "wf_plan demo_create" by code_simp
  moreover have "fetchone (plan_of demo_create) (db_plans empty_conv_db) = None" by (simp add: empty_conv_db_def)
  ultimately show ?thesis
    using dialogue_plan_reads_back [OF r [unfolded demo_apply_def] demo_dialogue_inv(2)] r by blast
qed

end
