(* ===== verification/Dialogue_Search.thy ===== *)
theory Dialogue_Search
  imports Dialogue "HOL-Library.Sublist"
begin

section \<open>Searching the active tasks\<close>

text \<open>
  What \<open>search_candidates\<close> of \<open>dialogue/store.py\<close> finds.  The query is turned into a \<open>LIKE\<close> pattern by
  escaping \<open>%\<close> and \<open>_\<close>; the escape character itself is not escaped.
\<close>

abbreviation fold_case :: "string \<Rightarrow> string" where
  "fold_case \<equiv> map ascii_lower"

lemma like_escape_simps [simp]:
  "like_escape [] = []"
  "like_escape (c # q) = (if c = CHR ''%'' \<or> c = CHR ''_'' then [CHR 0x5C, c] else [c]) @ like_escape q"
  by (simp_all add: like_escape_def)

lemma like_percent: "like (CHR ''%'' # ps) t \<longleftrightarrow> (\<exists>u v. t = u @ v \<and> like ps v)"
proof (induction t)
  case (Cons c t)
  have "like (CHR ''%'' # ps) (c # t) \<longleftrightarrow> like ps (c # t) \<or> like (CHR ''%'' # ps) t" by simp
  also have "\<dots> \<longleftrightarrow> like ps (c # t) \<or> (\<exists>u v. t = u @ v \<and> like ps v)" by (simp only: Cons.IH)
  also have "\<dots> \<longleftrightarrow> (\<exists>u v. c # t = u @ v \<and> like ps v)" by (auto simp: Cons_eq_append_conv)
  finally show ?case .
qed simp

lemma like_literal:
  assumes "CHR 0x5C \<notin> set q"
  shows "like (like_escape q @ ps) t \<longleftrightarrow> (\<exists>u v. t = u @ v \<and> fold_case u = fold_case q \<and> like ps v)"
  using assms
proof (induction q arbitrary: t)
  case (Cons c q)
  have "like (like_escape (c # q) @ ps) t \<longleftrightarrow>
      (\<exists>d ds. t = d # ds \<and> ascii_lower c = ascii_lower d \<and> like (like_escape q @ ps) ds)"
    using Cons.prems by (cases t) auto
  also have "\<dots> \<longleftrightarrow> (\<exists>d ds. t = d # ds \<and> ascii_lower c = ascii_lower d \<and>
      (\<exists>u v. ds = u @ v \<and> fold_case u = fold_case q \<and> like ps v))"
    using Cons by simp
  also have "\<dots> \<longleftrightarrow> (\<exists>u v. t = u @ v \<and> fold_case u = fold_case (c # q) \<and> like ps v)"
    by (auto simp: Cons_eq_map_conv) (metis append_Cons list.simps(9))+
  finally show ?case .
qed simp

lemma like_pattern_contains:
  assumes "CHR 0x5C \<notin> set (strip query)"
  shows "like (like_pattern query) t \<longleftrightarrow> sublist (fold_case (strip query)) (fold_case t)"
proof -
  have all: "like ''%'' v" for v by (simp only: like_percent) (rule exI [of _ v], simp)
  have "like (like_pattern query) t \<longleftrightarrow>
      (\<exists>u w v. t = u @ w @ v \<and> fold_case w = fold_case (strip query))"
    unfolding like_pattern_def like_percent like_literal [OF assms] using all by auto
  also have "\<dots> \<longleftrightarrow> sublist (fold_case (strip query)) (fold_case t)"
  proof
    assume "sublist (fold_case (strip query)) (fold_case t)"
    then obtain a b where "fold_case t = a @ fold_case (strip query) @ b" by (auto simp: sublist_def)
    then obtain u r where t: "t = u @ r" and r: "fold_case r = fold_case (strip query) @ b"
      by (metis map_eq_append_conv)
    moreover from r obtain w v where "r = w @ v" "fold_case w = fold_case (strip query)"
      by (metis map_eq_append_conv)
    ultimately show "\<exists>u w v. t = u @ w @ v \<and> fold_case w = fold_case (strip query)" by blast
  next
    assume "\<exists>u w v. t = u @ w @ v \<and> fold_case w = fold_case (strip query)"
    then obtain u v where "fold_case t = fold_case u @ fold_case (strip query) @ fold_case v"
      by (auto simp del: map_map)
    then show "sublist (fold_case (strip query)) (fold_case t)" unfolding sublist_def by blast
  qed
  finally show ?thesis .
qed

lemma like_ends: "like (CHR ''%'' # [CHR 0x5C, CHR ''%'']) t \<longleftrightarrow> t \<noteq> [] \<and> last t = CHR ''%''"
proof -
  have "ascii_lower d = CHR ''%'' \<longleftrightarrow> d = CHR ''%''" for d
  proof
    assume low: "ascii_lower d = CHR ''%''"
    show "d = CHR ''%''"
    proof (rule ccontr)
      assume "d \<noteq> CHR ''%''"
      with low have r: "65 \<le> (of_char d :: nat)" "(of_char d :: nat) \<le> 90" "char_of ((of_char d :: nat) + 32) = CHR ''%''"
        by (auto simp: ascii_lower_def Let_def split: if_splits)
      from arg_cong [OF r(3), of "of_char :: char \<Rightarrow> nat"] r(1,2) show False by simp
    qed
  qed (simp add: ascii_lower_def)
  note only = this
  have one: "like [CHR 0x5C, CHR ''%''] v \<longleftrightarrow> v = ''%''" for v
  proof (cases v)
    case (Cons d ds)
    have "ascii_lower (CHR ''%'') = CHR ''%''" by (simp add: ascii_lower_def)
    then show ?thesis unfolding Cons using only [of d] by (cases ds) auto
  qed simp
  have "like (CHR ''%'' # [CHR 0x5C, CHR ''%'']) t \<longleftrightarrow> (\<exists>u. t = u @ ''%'')"
    by (simp only: like_percent one) blast
  also have "\<dots> \<longleftrightarrow> t \<noteq> [] \<and> last t = CHR ''%''"
    by (cases t rule: rev_cases) auto
  finally show ?thesis .
qed

subsection \<open>Properties\<close>

text \<open>Searching is exact for queries without a backslash: the page is taken from the active tasks of
  the conversation whose title or original request contains the stripped query, ASCII letters compared
  without case and \<open>%\<close> and \<open>_\<close> taken literally.\<close>

theorem search_candidates_exact:
  assumes "validate_page limit offset = Inr ()" and "\<not> blank query" and "length query \<le> 256"
    and "CHR 0x5C \<notin> set (strip query)"
  shows "search_candidates db scope query limit offset = Inr (candidate_page limit offset
    (filter (\<lambda>r. active_in scope r \<and> (sublist (fold_case (strip query)) (fold_case (dt_title r))
        \<or> sublist (fold_case (strip query)) (fold_case (dt_original_request r)))) (db_tasks db)))"
  using assms by (simp add: search_candidates_def like_pattern_contains select_where_def)

definition demo_search_db :: conv_db where
  "demo_search_db = empty_conv_db\<lparr>db_tasks :=
     [new_task_row 5 \<lparr>cs_tenant_id = ''t'', cs_source_id = ''s''\<rparr> ''task_1'' ''Dinner 100%'' ''book'']\<rparr>"

theorem search_candidates_exact_witness:
  "search_candidates demo_search_db \<lparr>cs_tenant_id = ''t'', cs_source_id = ''s''\<rparr> '' 0% '' 10 0 =
     Inr (candidate_page 10 0 (filter (\<lambda>r. active_in \<lparr>cs_tenant_id = ''t'', cs_source_id = ''s''\<rparr> r
        \<and> (sublist (fold_case (strip '' 0% '')) (fold_case (dt_title r))
           \<or> sublist (fold_case (strip '' 0% '')) (fold_case (dt_original_request r)))) (db_tasks demo_search_db)))"
  by (rule search_candidates_exact) (code_simp, code_simp, simp, code_simp)

text \<open>C26: A backslash is not found: the pattern for the query of one backslash escapes the closing
  wildcard instead, so that it matches exactly the texts that end with a percent sign, whether or not
  they contain a backslash.\<close>

theorem search_backslash_misread:
  "like (like_pattern [CHR 0x5C]) t \<longleftrightarrow> t \<noteq> [] \<and> last t = CHR ''%''"
proof -
  have "strip [CHR 0x5C] = [CHR 0x5C]" by code_simp
  then show ?thesis using like_ends [of t] by (simp add: like_pattern_def del: like.simps)
qed

end
