(* ===== verification/Python_Text.thy ===== *)
theory Python_Text
  imports Idempotency
begin

section \<open>Python's text of a value\<close>

text \<open>
  What \<open>str(v)\<close>, \<open>repr(s)\<close> (the conversion \<open>!r\<close> of an f-string) and the truth test give for a JSON value
  and for an exception.  The printable characters are those of \<open>str.isprintable\<close> below code point 256.
\<close>

definition py_printable :: "char \<Rightarrow> bool" where
  "py_printable c = (let n = of_char c :: nat in 32 \<le> n \<and> n \<noteq> 173 \<and> \<not> (127 \<le> n \<and> n \<le> 160))"

definition repr_char :: "char \<Rightarrow> char \<Rightarrow> string" where
  "repr_char q c =
     (if c = q \<or> c = CHR 0x5C then [CHR 0x5C, c]
      else if c = CHR 0x0A then [CHR 0x5C, CHR ''n'']
      else if c = CHR 0x0D then [CHR 0x5C, CHR ''r'']
      else if c = CHR 0x09 then [CHR 0x5C, CHR ''t'']
      else if py_printable c then [c]
      else [CHR 0x5C, CHR ''x'', hex_digit (of_char c div 16), hex_digit (of_char c mod 16)])"

definition repr_str :: "string \<Rightarrow> string" where
  "repr_str s = (let q = (if CHR 0x27 \<in> set s \<and> CHR 0x22 \<notin> set s then CHR 0x22 else CHR 0x27)
     in [q] @ concat (map (repr_char q) s) @ [q])"

fun py_repr :: "json \<Rightarrow> string" and py_repr_items :: "json list \<Rightarrow> string list"
  and py_repr_fields :: "(string \<times> json) list \<Rightarrow> string list" where
  "py_repr JNull = ''None''"
| "py_repr (JBool b) = (if b then ''True'' else ''False'')"
| "py_repr (JInt i) = int_text i"
| "py_repr (JFloat q t) = t"
| "py_repr (JStr s) = repr_str s"
| "py_repr (JArr js) = ''['' @ join '', '' (py_repr_items js) @ '']''"
| "py_repr (JObj kvs) = ''{'' @ join '', '' (py_repr_fields kvs) @ ''}''"
| "py_repr_items [] = []"
| "py_repr_items (j # js) = py_repr j # py_repr_items js"
| "py_repr_fields [] = []"
| "py_repr_fields ((k, v) # kvs) = (repr_str k @ '': '' @ py_repr v) # py_repr_fields kvs"

definition py_str :: "json \<Rightarrow> string" where
  "py_str v = (case v of JStr s \<Rightarrow> s | _ \<Rightarrow> py_repr v)"

fun truthy :: "json \<Rightarrow> bool" where
  "truthy JNull = False"
| "truthy (JBool b) = b"
| "truthy (JInt i) = (i \<noteq> 0)"
| "truthy (JFloat q t) = (q \<noteq> 0)"
| "truthy (JStr s) = (s \<noteq> [])"
| "truthy (JArr js) = (js \<noteq> [])"
| "truthy (JObj kvs) = (kvs \<noteq> [])"

text \<open>\<open>str(exc)\<close> of the exceptions that a handler of the platform prints, and \<open>f"{type(exc).__name__}: {exc}"\<close>.
  The messages of SQLite and of the JSON decoder are not modelled.\<close>

definition error_text :: "py_error \<Rightarrow> string" where
  "error_text e = (case e of ValueError m \<Rightarrow> m | TypeError m \<Rightarrow> m | RuntimeError m \<Rightarrow> m | KeyError m \<Rightarrow> repr_str m
     | DialogueConflictError m \<Rightarrow> m | LookupError m \<Rightarrow> m | TenantBoundaryError m \<Rightarrow> m | RunCheckpointLeaseLostError m \<Rightarrow> m
     | CancelledError m \<Rightarrow> m | OverflowError m \<Rightarrow> m | NonRetryableEventError m \<Rightarrow> m | PlannerRunInProgressError m \<Rightarrow> m
     | PlannerRunLeaseLostError m \<Rightarrow> m | DecisionDispatchInProgressError m \<Rightarrow> m | DecisionDispatchLeaseLostError m \<Rightarrow> m
     | ExternalError c m \<Rightarrow> m
     | ExceptionGroup m es \<Rightarrow> m @ '' ('' @ nat_text (length es) @ '' sub-exception'' @ (if length es = 1 then [] else ''s'') @ '')''
     | IdempotencyConflictError r _ _ \<Rightarrow> r @ '' idempotency key was reused with different input'' | _ \<Rightarrow> [])"

definition error_name :: "py_error \<Rightarrow> string" where
  "error_name e = (case e of ValueError _ \<Rightarrow> ''ValueError'' | TypeError _ \<Rightarrow> ''TypeError'' | KeyError _ \<Rightarrow> ''KeyError''
     | RuntimeError _ \<Rightarrow> ''RuntimeError'' | IntegrityError \<Rightarrow> ''IntegrityError'' | AssertionError \<Rightarrow> ''AssertionError''
     | JSONDecodeError \<Rightarrow> ''JSONDecodeError'' | IdempotencyConflictError _ _ _ \<Rightarrow> ''IdempotencyConflictError''
     | DialogueConflictError _ \<Rightarrow> ''DialogueConflictError'' | LookupError _ \<Rightarrow> ''LookupError''
     | TenantBoundaryError _ \<Rightarrow> ''TenantBoundaryError'' | RunCheckpointLeaseLostError _ \<Rightarrow> ''RunCheckpointLeaseLostError''
     | CancelledError _ \<Rightarrow> ''CancelledError'' | OverflowError _ \<Rightarrow> ''OverflowError''
     | NonRetryableEventError _ \<Rightarrow> ''NonRetryableEventError'' | PlannerRunInProgressError _ \<Rightarrow> ''PlannerRunInProgressError''
     | PlannerRunLeaseLostError _ \<Rightarrow> ''PlannerRunLeaseLostError''
     | DecisionDispatchInProgressError _ \<Rightarrow> ''DecisionDispatchInProgressError''
     | DecisionDispatchLeaseLostError _ \<Rightarrow> ''DecisionDispatchLeaseLostError'' | ExternalError c _ \<Rightarrow> c
     | ExceptionGroup _ es \<Rightarrow> if is_exception e then ''ExceptionGroup'' else ''BaseExceptionGroup'')"

definition error_line :: "py_error \<Rightarrow> string" where
  "error_line e = error_name e @ '': '' @ error_text e"

text \<open>\<open>int(text)\<close>: white space around it, a sign, digits with single underscores between them.\<close>

fun digits_value :: "int \<Rightarrow> string \<Rightarrow> int option" where
  "digits_value acc [] = Some acc"
| "digits_value acc (c # cs) =
     (if of_char c \<ge> (48 :: nat) \<and> of_char c \<le> (57 :: nat) then digits_value (10 * acc + (of_char c - 48)) cs
      else if c = CHR ''_'' \<and> cs \<noteq> [] \<and> hd cs \<noteq> CHR ''_'' then digits_value acc cs else None)"

definition unsigned_value :: "string \<Rightarrow> int option" where
  "unsigned_value s = (case s of [] \<Rightarrow> None | c # cs \<Rightarrow> if c = CHR ''_'' then None else digits_value 0 s)"

definition int_of_text :: "string \<Rightarrow> int option" where
  "int_of_text t = (case strip t of
     [] \<Rightarrow> None
   | c # cs \<Rightarrow> if c = CHR ''-'' then map_option uminus (unsigned_value cs)
       else if c = CHR ''+'' then unsigned_value cs else unsigned_value (c # cs))"

text \<open>\<open>xs[:n]\<close>; a negative \<open>n\<close> counts from the end.\<close>

definition slice_to :: "int \<Rightarrow> 'a list \<Rightarrow> 'a list" where
  "slice_to n xs = (if 0 \<le> n then take (nat n) xs else take (length xs - nat (- n)) xs)"

end
