(* ===== verification/Reconciliation.thy ===== *)
theory Reconciliation
  imports Approvals Dialogue_Plans Python_Text
begin

section \<open>Resolving uncertain effects\<close>

text \<open>
  Models \<open>reconciliation/store.py\<close>: an operator resolves an action or an outbound message whose outcome
  is uncertain.  Each resolution is one transaction over the audit table \<open>effect_reconciliations\<close>
  (migrations 014 and 015) and the tables of the effect: \<open>actions\<close> and \<open>event_queue\<close>, or
  \<open>outbound_messages\<close> and the conversation history.

  The evidence is a JSON object.  The audit row keeps its canonical text; the effect's \<open>result_json\<close>
  keeps the value (the order of an object's keys is not observable in it).
\<close>

subsection \<open>Requests, results and the audit table\<close>

datatype effect_type = EffAction | EffOutbound

fun effect_text :: "effect_type \<Rightarrow> string" where
  "effect_text EffAction = ''action''"
| "effect_text EffOutbound = ''outbound''"

record recon_row =
  rr_id :: string
  rr_tenant_id :: string
  rr_source_id :: string
  rr_effect_type :: effect_type
  rr_effect_id :: string
  rr_request_key :: string
  rr_resolution :: string
  rr_result_status :: string
  rr_actor_id :: string
  rr_evidence_json :: string
  rr_created_at :: int

record recon_request =
  rq_tenant_id :: string
  rq_source_id :: string
  rq_resolution :: string
  rq_request_key :: string
  rq_actor_id :: string
  rq_evidence :: "(string \<times> json) list"

record recon_result =
  rs_effect_id :: string
  rs_status :: string
  rs_applied :: bool

record recon_db =
  rc_actions :: "action_row list"
  rc_events :: "event_row list"
  rc_conv :: conv_db
  rc_log :: "recon_row list"

subsection \<open>The shared steps\<close>

definition validate_recon_request :: "recon_request \<Rightarrow> string result" where
  "validate_recon_request q =
     (if rq_tenant_id q = [] \<or> rq_source_id q = [] \<or> rq_request_key q = [] \<or> rq_actor_id q = []
      then Inl (ValueError ''tenant_id, source_id, request_key, and actor_id must be non-empty'')
      else if rq_evidence q = [] then Inl (ValueError ''reconciliation evidence must be non-empty'')
      else Inr (canonical (JObj (rq_evidence q))))"

definition recon_by_key :: "effect_type \<Rightarrow> recon_request \<Rightarrow> recon_row \<Rightarrow> bool" where
  "recon_by_key ty q r = (rr_tenant_id r = rq_tenant_id q \<and> rr_source_id r = rq_source_id q
     \<and> rr_effect_type r = ty \<and> rr_request_key r = rq_request_key q)"

definition recon_matches :: "string \<Rightarrow> recon_request \<Rightarrow> string \<Rightarrow> recon_row \<Rightarrow> bool" where
  "recon_matches effect_id q evidence_json r = (rr_effect_id r = effect_id \<and> rr_resolution r = rq_resolution q
     \<and> rr_actor_id r = rq_actor_id q \<and> rr_evidence_json r = evidence_json)"

definition recon_existing ::
  "recon_row list \<Rightarrow> effect_type \<Rightarrow> string \<Rightarrow> recon_request \<Rightarrow> string \<Rightarrow> recon_result option result" where
  "recon_existing audit ty effect_id q evidence_json = (case fetchone (recon_by_key ty q) audit of
     None \<Rightarrow> Inr None
   | Some row \<Rightarrow>
       rbind (require_idempotent_replay (recon_matches effect_id q evidence_json row)
                (effect_text ty @ '' reconciliation'') (rq_request_key q) (rr_id row)) (\<lambda>_.
         Inr (Some \<lparr>rs_effect_id = effect_id, rs_status = rr_result_status row, rs_applied = False\<rparr>)))"

definition recon_key :: "recon_row \<Rightarrow> string \<times> string \<times> effect_type \<times> string" where
  "recon_key r = (rr_tenant_id r, rr_source_id r, rr_effect_type r, rr_request_key r)"

definition new_recon_row ::
  "int \<Rightarrow> string \<Rightarrow> effect_type \<Rightarrow> string \<Rightarrow> recon_request \<Rightarrow> string \<Rightarrow> string \<Rightarrow> recon_row" where
  "new_recon_row now uuid ty effect_id q status evidence_json = \<lparr>rr_id = ''rec_'' @ uuid,
     rr_tenant_id = rq_tenant_id q, rr_source_id = rq_source_id q, rr_effect_type = ty,
     rr_effect_id = effect_id, rr_request_key = rq_request_key q, rr_resolution = rq_resolution q,
     rr_result_status = status, rr_actor_id = rq_actor_id q, rr_evidence_json = evidence_json,
     rr_created_at = now\<rparr>"

text \<open>\<open>PRIMARY KEY(id)\<close> and \<open>UNIQUE(tenant_id, source_id, effect_type, request_key)\<close>.\<close>

definition recon_record :: "recon_row \<Rightarrow> recon_db \<Rightarrow> recon_db result" where
  "recon_record n db = (if \<exists>r \<in> set (rc_log db). rr_id r = rr_id n \<or> recon_key r = recon_key n
     then Inl IntegrityError else Inr (db\<lparr>rc_log := rc_log db @ [n]\<rparr>))"

definition recon_error_text :: "recon_request \<Rightarrow> string" where
  "recon_error_text q =
     (let get = (\<lambda>k. case map_of (rq_evidence q) k of None \<Rightarrow> JNull | Some v \<Rightarrow> v);
          v = (if truthy (get ''error'') then get ''error''
               else if truthy (get ''reason'') then get ''reason''
               else JStr (''reconciled as '' @ rq_resolution q))
      in prefix_chars 500 (py_str v))"

fun action_status_text :: "action_state \<Rightarrow> string" where
  "action_status_text ActPending = ''pending''"
| "action_status_text ActApproved = ''approved''"
| "action_status_text ActDenied = ''denied''"
| "action_status_text ActQueued = ''queued''"
| "action_status_text ActExecuting = ''executing''"
| "action_status_text ActExecuted = ''executed''"
| "action_status_text ActFailed = ''failed''"
| "action_status_text ActCancelled = ''cancelled''"
| "action_status_text ActUncertain = ''uncertain''"

fun ob_status_text :: "ob_state \<Rightarrow> string" where
  "ob_status_text ObQueued = ''queued''"
| "ob_status_text ObLeased = ''leased''"
| "ob_status_text ObSending = ''sending''"
| "ob_status_text ObSent = ''sent''"
| "ob_status_text ObRetrying = ''retrying''"
| "ob_status_text ObUncertain = ''uncertain''"
| "ob_status_text ObDeadLetter = ''dead_letter''"
| "ob_status_text ObCancelled = ''cancelled''"

text \<open>\<open>_require_uncertain\<close>: the status of the row is given, \<open>None\<close> for no row.\<close>

definition require_uncertain :: "string option \<Rightarrow> string \<Rightarrow> string \<Rightarrow> unit result" where
  "require_uncertain status effect_name effect_id = (case status of
     None \<Rightarrow> Inl (KeyError (effect_name @ '' not found: '' @ effect_id))
   | Some st \<Rightarrow>
       if st \<noteq> ''uncertain''
       then Inl (ValueError (effect_name @ '' '' @ effect_id @ '' is not uncertain: '' @ st)) else Inr ())"

subsection \<open>Resolving an action\<close>

definition reconcile_event :: "string \<Rightarrow> recon_request \<Rightarrow> string option \<Rightarrow> enqueue_args" where
  "reconcile_event action_id q source_event = \<lparr>
     ea_tenant_id = rq_tenant_id q, ea_recipient = ''actions'', ea_message_type = ''ExecuteAction'',
     ea_payload = JObj [(''action_id'', JStr action_id), (''source_id'', JStr (rq_source_id q))],
     ea_idempotency_key = ''reconcile-action:'' @ action_id @ '':'' @ rq_request_key q, ea_priority = 100,
     ea_run_after = None, ea_max_attempts = 5, ea_correlation_id = Some action_id,
     ea_causation_id = source_event\<rparr>"

definition ac_uncertain :: "string \<Rightarrow> recon_request \<Rightarrow> action_row \<Rightarrow> bool" where
  "ac_uncertain action_id q r = (ac_is action_id (rq_tenant_id q) (rq_source_id q) r \<and> ac_status r = ActUncertain)"

definition update_action ::
  "string \<Rightarrow> recon_request \<Rightarrow> (action_row \<Rightarrow> action_row) \<Rightarrow> recon_db \<Rightarrow> recon_db" where
  "update_action action_id q f db = db\<lparr>rc_actions := update_where (ac_uncertain action_id q) f (rc_actions db)\<rparr>"

definition settle_action ::
  "(string \<Rightarrow> string) \<Rightarrow> int \<Rightarrow> string \<Rightarrow> string \<Rightarrow> recon_request \<Rightarrow> action_row \<Rightarrow> recon_db \<Rightarrow> (string \<times> recon_db) result" where
  "settle_action sha now uuid action_id q row db =
     (if rq_resolution q = ''executed'' then
        Inr (''executed'', update_action action_id q (\<lambda>r. r\<lparr>ac_status := ActExecuted, ac_executed_at := Some now,
          ac_result_json := Some (Encoded (JObj (rq_evidence q))), ac_last_error := None, ac_updated_at := now\<rparr>) db)
      else if rq_resolution q = ''failed'' then
        Inr (''failed'', update_action action_id q (\<lambda>r. r\<lparr>ac_status := ActFailed,
          ac_result_json := Some (Encoded (JObj (rq_evidence q))), ac_last_error := Some (recon_error_text q),
          ac_updated_at := now\<rparr>) db)
      else
        let db1 = update_action action_id q (\<lambda>r. r\<lparr>ac_status := ActApproved, ac_result_json := None,
              ac_last_error := None, ac_updated_at := now\<rparr>) db
        in rbind (enqueue sha now uuid (reconcile_event action_id q (ac_source_event_id row)) (rc_events db1)) (\<lambda>(event_id, evs).
           if event_id = None
           then Inl (RuntimeError ''reconciliation execution event already exists without an audit record'')
           else Inr (''approved'', db1\<lparr>rc_events := evs\<rparr>)))"

definition resolve_action ::
  "(string \<Rightarrow> string) \<Rightarrow> int \<Rightarrow> string \<Rightarrow> string \<Rightarrow> string \<Rightarrow> recon_request \<Rightarrow> recon_db \<Rightarrow> (recon_result \<times> recon_db) result" where
  "resolve_action sha now uuid1 uuid2 action_id q db =
     (if rq_resolution q \<notin> set [''executed'', ''failed'', ''not_executed'']
      then Inl (ValueError (''unsupported action resolution: '' @ rq_resolution q))
      else rbind (validate_recon_request q) (\<lambda>evidence_json.
           rbind (recon_existing (rc_log db) EffAction action_id q evidence_json) (\<lambda>existing.
           case existing of
             Some res \<Rightarrow> Inr (res, db)
           | None \<Rightarrow>
               let found = fetchone (ac_is action_id (rq_tenant_id q) (rq_source_id q)) (rc_actions db) in
               rbind (require_uncertain (map_option (\<lambda>r. action_status_text (ac_status r)) found)
                        ''action'' action_id) (\<lambda>_.
               case found of
                 None \<Rightarrow> Inl AssertionError
               | Some row \<Rightarrow>
                   rbind (settle_action sha now uuid1 action_id q row db) (\<lambda>(status, db1).
                   rbind (recon_record (new_recon_row now uuid2 EffAction action_id q status evidence_json) db1) (\<lambda>db2.
                     Inr (\<lparr>rs_effect_id = action_id, rs_status = status, rs_applied = True\<rparr>, db2)))))))"

subsection \<open>Resolving an outbound message\<close>

definition ob_in :: "string \<Rightarrow> recon_request \<Rightarrow> outbound_row \<Rightarrow> bool" where
  "ob_in message_id q r = (ob_id r = message_id \<and> ob_tenant_id r = rq_tenant_id q \<and> ob_source_id r = rq_source_id q)"

definition outbound_outcome :: "int \<Rightarrow> recon_request \<Rightarrow> ob_state \<times> int option \<times> json option \<times> string option" where
  "outbound_outcome effect_at q =
     (if rq_resolution q = ''sent'' then (ObSent, Some effect_at, Some (JObj (rq_evidence q)), None)
      else if rq_resolution q = ''failed''
      then (ObDeadLetter, None, Some (JObj (rq_evidence q)), Some (recon_error_text q))
      else (ObQueued, None, None, None))"

definition ob_resolve :: "int \<Rightarrow> int \<Rightarrow> int \<Rightarrow> recon_request \<Rightarrow> outbound_row \<Rightarrow> outbound_row" where
  "ob_resolve now effect_at retry_at q r = (case outbound_outcome effect_at q of (status, sent_at, result, err) \<Rightarrow>
     r\<lparr>ob_status := status, ob_sent_at := sent_at, ob_result_json := result, ob_last_error := err,
       ob_run_after := (if status = ObQueued then retry_at else ob_run_after r), ob_lease_owner := None,
       ob_lease_until := None, ob_lease_token := None, ob_updated_at := now\<rparr>)"

definition settle_outbound ::
  "int \<Rightarrow> int \<Rightarrow> int \<Rightarrow> string \<Rightarrow> string \<Rightarrow> recon_request \<Rightarrow> outbound_row \<Rightarrow> conv_db \<Rightarrow> conv_db result" where
  "settle_outbound now effect_at retry_at uuid message_id q row db =
     (let db1 = db\<lparr>db_outbound := update_where (\<lambda>r. ob_in message_id q r \<and> ob_status r = ObUncertain)
            (ob_resolve now effect_at retry_at q) (db_outbound db)\<rparr>
      in if rq_resolution q = ''sent''
         then rbind (record_message (ob_created_at row) uuid (sent_history_args effect_at row) (db_history db1))
                (\<lambda>(_, h). Inr (db1\<lparr>db_history := h\<rparr>))
         else Inr db1)"

definition resolve_outbound ::
  "int \<Rightarrow> int option \<Rightarrow> int option \<Rightarrow> string \<Rightarrow> string \<Rightarrow> string \<Rightarrow> recon_request \<Rightarrow> recon_db \<Rightarrow> (recon_result \<times> recon_db) result" where
  "resolve_outbound now effect_arg retry_arg uuid1 uuid2 message_id q db =
     (if rq_resolution q \<notin> set [''sent'', ''failed'', ''not_sent'']
      then Inl (ValueError (''unsupported outbound resolution: '' @ rq_resolution q))
      else
        let effect_at = (case effect_arg of None \<Rightarrow> now | Some t \<Rightarrow> t);
            retry_at = (case retry_arg of None \<Rightarrow> now | Some t \<Rightarrow> t) in
        rbind (validate_recon_request q) (\<lambda>evidence_json.
        rbind (recon_existing (rc_log db) EffOutbound message_id q evidence_json) (\<lambda>existing.
        case existing of
          Some res \<Rightarrow> Inr (res, db)
        | None \<Rightarrow>
            let found = fetchone (ob_in message_id q) (db_outbound (rc_conv db)) in
            rbind (require_uncertain (map_option (\<lambda>r. ob_status_text (ob_status r)) found)
                     ''outbound message'' message_id) (\<lambda>_.
            case found of
              None \<Rightarrow> Inl AssertionError
            | Some row \<Rightarrow>
                rbind (settle_outbound now effect_at retry_at uuid1 message_id q row (rc_conv db)) (\<lambda>conv.
                let status = ob_status_text (fst (outbound_outcome effect_at q)) in
                rbind (recon_record (new_recon_row now uuid2 EffOutbound message_id q status evidence_json)
                         (db\<lparr>rc_conv := conv\<rparr>)) (\<lambda>db2.
                  Inr (\<lparr>rs_effect_id = message_id, rs_status = status, rs_applied = True\<rparr>, db2)))))))"

subsection \<open>What a resolution does\<close>

lemma require_uncertain_Inr [simp]: "require_uncertain st nm k = Inr () \<longleftrightarrow> st = Some ''uncertain''"
  by (auto simp: require_uncertain_def split: option.splits)

lemma action_status_uncertain [simp]: "action_status_text st = ''uncertain'' \<longleftrightarrow> st = ActUncertain"
  by (cases st) simp_all

lemma ob_status_uncertain [simp]: "ob_status_text st = ''uncertain'' \<longleftrightarrow> st = ObUncertain"
  by (cases st) simp_all

lemma recon_record_Inr:
  "recon_record n db = Inr db' \<longleftrightarrow> db' = db\<lparr>rc_log := rc_log db @ [n]\<rparr>
     \<and> (\<forall>r \<in> set (rc_log db). rr_id r \<noteq> rr_id n \<and> recon_key r \<noteq> recon_key n)"
  by (auto simp: recon_record_def split: if_splits)

text \<open>A request that was answered from the audit table.\<close>

definition recon_replayed ::
  "effect_type \<Rightarrow> string \<Rightarrow> recon_request \<Rightarrow> recon_row list \<Rightarrow> recon_result \<Rightarrow> bool" where
  "recon_replayed ty k q audit res \<longleftrightarrow> (\<exists>ev r. validate_recon_request q = Inr ev
     \<and> fetchone (recon_by_key ty q) audit = Some r \<and> recon_matches k q ev r
     \<and> res = \<lparr>rs_effect_id = k, rs_status = rr_result_status r, rs_applied = False\<rparr>)"

lemma recon_existing_Inr:
  "recon_existing audit ty k q ev = Inr out \<longleftrightarrow>
    (case fetchone (recon_by_key ty q) audit of
       None \<Rightarrow> out = None
     | Some r \<Rightarrow> recon_matches k q ev r
         \<and> out = Some \<lparr>rs_effect_id = k, rs_status = rr_result_status r, rs_applied = False\<rparr>)"
  by (auto simp: recon_existing_def rbind_eq_Inr require_idempotent_replay_def split: option.split if_splits)

lemma resolve_action_cases:
  assumes "resolve_action sha now uuid1 uuid2 k q db = Inr (res, db')"
  obtains (replay) "db' = db" and "recon_replayed EffAction k q (rc_log db) res"
    and "rq_resolution q \<in> {''executed'', ''failed'', ''not_executed''}"
  | (applied) ev row status db1 where "validate_recon_request q = Inr ev"
    and "rq_resolution q \<in> {''executed'', ''failed'', ''not_executed''}"
    and "get_action k (rq_tenant_id q) (rq_source_id q) (rc_actions db) = Some row" and "ac_status row = ActUncertain"
    and "settle_action sha now uuid1 k q row db = Inr (status, db1)"
    and "recon_record (new_recon_row now uuid2 EffAction k q status ev) db1 = Inr db'"
    and "res = \<lparr>rs_effect_id = k, rs_status = status, rs_applied = True\<rparr>"
proof -
  have res: "rq_resolution q \<in> {''executed'', ''failed'', ''not_executed''}"
    using assms by (auto simp: resolve_action_def split: if_splits)
  then obtain ev out where ev: "validate_recon_request q = Inr ev"
    and out: "recon_existing (rc_log db) EffAction k q ev = Inr out"
    using assms by (auto simp: resolve_action_def rbind_eq_Inr)
  show thesis
  proof (cases "fetchone (recon_by_key EffAction q) (rc_log db)")
    case (Some r)
    then have m: "recon_matches k q ev r"
      and o: "out = Some \<lparr>rs_effect_id = k, rs_status = rr_result_status r, rs_applied = False\<rparr>"
      using out by (simp_all add: recon_existing_Inr)
    have "res = \<lparr>rs_effect_id = k, rs_status = rr_result_status r, rs_applied = False\<rparr>" "db' = db"
      using assms res ev out [unfolded o] by (auto simp: resolve_action_def split: if_splits)
    with m Some ev res show thesis by (intro replay) (auto simp: recon_replayed_def)
  next
    case None
    with out have "out = None" by (simp add: recon_existing_Inr)
    with assms res ev out obtain row where row: "fetchone (ac_is k (rq_tenant_id q) (rq_source_id q)) (rc_actions db) = Some row"
      "ac_status row = ActUncertain"
      by (auto simp: resolve_action_def rbind_eq_Inr Let_def split: option.splits)
    obtain status db1 where "settle_action sha now uuid1 k q row db = Inr (status, db1)"
      "recon_record (new_recon_row now uuid2 EffAction k q status ev) db1 = Inr db'"
      "res = \<lparr>rs_effect_id = k, rs_status = status, rs_applied = True\<rparr>"
      using assms res ev out \<open>out = None\<close> row by (auto simp: resolve_action_def rbind_eq_Inr Let_def)
    with res ev row show thesis by (intro applied) (auto simp: get_action_def)
  qed
qed

lemma resolve_outbound_cases:
  assumes "resolve_outbound now ea ra uuid1 uuid2 k q db = Inr (res, db')"
  obtains (replay) "db' = db" and "recon_replayed EffOutbound k q (rc_log db) res"
    and "rq_resolution q \<in> {''sent'', ''failed'', ''not_sent''}"
  | (applied) ev row conv where "validate_recon_request q = Inr ev"
    and "rq_resolution q \<in> {''sent'', ''failed'', ''not_sent''}"
    and "row \<in> set (db_outbound (rc_conv db))" and "ob_in k q row" and "ob_status row = ObUncertain"
    and "settle_outbound now (case ea of None \<Rightarrow> now | Some t \<Rightarrow> t) (case ra of None \<Rightarrow> now | Some t \<Rightarrow> t) uuid1 k q row (rc_conv db) = Inr conv"
    and "recon_record (new_recon_row now uuid2 EffOutbound k q (rs_status res) ev) (db\<lparr>rc_conv := conv\<rparr>) = Inr db'"
    and "rs_effect_id res = k" and "rs_applied res"
proof -
  have res: "rq_resolution q \<in> {''sent'', ''failed'', ''not_sent''}"
    using assms by (auto simp: resolve_outbound_def split: if_splits)
  then obtain ev out where ev: "validate_recon_request q = Inr ev"
    and out: "recon_existing (rc_log db) EffOutbound k q ev = Inr out"
    using assms by (auto simp: resolve_outbound_def rbind_eq_Inr Let_def)
  show thesis
  proof (cases "fetchone (recon_by_key EffOutbound q) (rc_log db)")
    case (Some r)
    then have m: "recon_matches k q ev r"
      and o: "out = Some \<lparr>rs_effect_id = k, rs_status = rr_result_status r, rs_applied = False\<rparr>"
      using out by (simp_all add: recon_existing_Inr)
    have "res = \<lparr>rs_effect_id = k, rs_status = rr_result_status r, rs_applied = False\<rparr>" "db' = db"
      using assms res ev out [unfolded o] by (auto simp: resolve_outbound_def Let_def split: if_splits)
    with m Some ev res show thesis by (intro replay) (auto simp: recon_replayed_def)
  next
    case None
    with out have "out = None" by (simp add: recon_existing_Inr)
    with assms res ev out obtain row where row: "fetchone (ob_in k q) (db_outbound (rc_conv db)) = Some row"
      "ob_status row = ObUncertain"
      by (auto simp: resolve_outbound_def rbind_eq_Inr Let_def split: option.splits)
    obtain conv where "settle_outbound now (case ea of None \<Rightarrow> now | Some t \<Rightarrow> t) (case ra of None \<Rightarrow> now | Some t \<Rightarrow> t)
        uuid1 k q row (rc_conv db) = Inr conv"
      "recon_record (new_recon_row now uuid2 EffOutbound k q (rs_status res) ev) (db\<lparr>rc_conv := conv\<rparr>) = Inr db'"
      "rs_effect_id res = k" "rs_applied res"
      using assms res ev out \<open>out = None\<close> row by (auto simp: resolve_outbound_def rbind_eq_Inr Let_def)
    with res ev row(2) fetchone_SomeD [OF row(1)] show thesis by (intro applied) auto
  qed
qed

text \<open>Settling moves exactly the uncertain action to a status that is neither pending nor uncertain.\<close>

lemma settle_action_effect:
  assumes "settle_action sha now uuid k q row db = Inr (status, db1)"
  shows "rc_conv db1 = rc_conv db \<and> rc_log db1 = rc_log db
    \<and> (rc_events db1 = rc_events db \<or> (\<exists>a res. enqueue sha now uuid a (rc_events db) = Inr (res, rc_events db1)))
    \<and> (\<exists>f. rc_actions db1 = update_where (ac_uncertain k q) f (rc_actions db)
         \<and> (\<forall>r. ac_envelope (f r) = ac_envelope r \<and> ac_approved_by (f r) = ac_approved_by r
               \<and> ac_status (f r) \<noteq> ActPending))"
proof (cases "rq_resolution q = ''executed'' \<or> rq_resolution q = ''failed''")
  case True
  then show ?thesis
    using assms by (auto simp: settle_action_def update_action_def ac_envelope_def split: if_splits)
next
  case False
  then obtain e evs where "enqueue sha now uuid (reconcile_event k q (ac_source_event_id row)) (rc_events db) = Inr (e, evs)"
    and "db1 = (update_action k q (\<lambda>r. r\<lparr>ac_status := ActApproved, ac_result_json := None,
              ac_last_error := None, ac_updated_at := now\<rparr>) db)\<lparr>rc_events := evs\<rparr>"
    using assms by (auto simp: settle_action_def Let_def rbind_eq_Inr update_action_def split: if_splits)
  then show ?thesis
    by (auto simp: update_action_def ac_envelope_def
        intro!: exI [of _ "\<lambda>r. r\<lparr>ac_status := ActApproved, ac_result_json := None,
              ac_last_error := None, ac_updated_at := now\<rparr>"])
qed

subsection \<open>Resolutions keep the invariants\<close>

lemma ob_resolve_columns:
  "ob_envelope (ob_resolve now ea ra q r) = ob_envelope r"
  "ob_attempts (ob_resolve now ea ra q r) = ob_attempts r"
  "ob_status (ob_resolve now ea ra q r) = ObSent \<longleftrightarrow> rq_resolution q = ''sent''"
  "ob_status (ob_resolve now ea ra q r) \<noteq> ObUncertain"
  by (simp_all add: ob_resolve_def outbound_outcome_def ob_envelope_def)

lemma ob_row_ok_resolve: "ob_row_ok r \<Longrightarrow> ob_status r = ObUncertain \<Longrightarrow> ob_row_ok (ob_resolve now ea ra q r)"
  by (auto simp: ob_row_ok_def ob_resolve_def outbound_outcome_def ob_live_def)

abbreviation ob_open :: "string \<Rightarrow> recon_request \<Rightarrow> outbound_row \<Rightarrow> bool" where
  "ob_open k q r \<equiv> ob_in k q r \<and> ob_status r = ObUncertain"

lemma settle_outbound_Inr:
  assumes "settle_outbound now ea ra uuid k q row db = Inr conv"
  shows "conv = db\<lparr>db_outbound := update_where (ob_open k q) (ob_resolve now ea ra q) (db_outbound db),
      db_history := db_history conv\<rparr>
    \<and> (if rq_resolution q = ''sent''
       then \<exists>out. record_message (ob_created_at row) uuid (sent_history_args ea row) (db_history db) = Inr (out, db_history conv)
       else db_history conv = db_history db)"
  using assms by (auto simp: settle_outbound_def Let_def rbind_eq_Inr split: if_splits)

lemma sent_in_history_resolve:
  "rq_resolution q = ''sent'' \<Longrightarrow> sent_in_history (ob_resolve now ea ra q r) m = sent_in_history (ob_sent v ea r) m"
  by (simp add: sent_in_history_def ob_resolve_def outbound_outcome_def ob_sent_def)

lemma settle_outbound_ok:
  assumes "settle_outbound now ea ra uuid k q row db = Inr conv" and "cv_ok db"
    and "row \<in> set (db_outbound db)" and "ob_in k q row"
  shows "cv_ok conv"
proof -
  note set = settle_outbound_Inr [OF assms(1)]
  let ?rows = "update_where (ob_open k q) (ob_resolve now ea ra q) (db_outbound db)"
  have rows: "db_outbound conv = ?rows" using set by (metis (no_types) conv_db.select_convs(8) conv_db.surjective conv_db.update_convs(8,9))
  have ok: "ob_ok (db_outbound db)" "hm_inv (db_history db)" "sends_recorded db" "dg_inv db"
    using assms(2) by (simp_all add: cv_ok_def conv_ok_def)
  have "ob_ok ?rows"
    using ok(1) by (rule ob_ok_update) (auto simp: ob_resolve_columns ob_final_def intro: ob_row_ok_resolve)
  moreover have "hm_inv (db_history conv)" using set ok(2) by (auto intro: hm_inv_record split: if_splits)
  moreover have "dg_inv conv" by (subst conjunct1 [OF set]) (use ok(4) in \<open>simp add: dg_inv_def\<close>)
  moreover have "sends_recorded conv"
    unfolding sends_recorded_def rows ball_update_where
  proof (intro ballI impI)
    fix x assume x: "x \<in> set (db_outbound db)"
      and st: "ob_status (if ob_open k q x then ob_resolve now ea ra q x else x) = ObSent"
    have hist: "set (db_history db) \<subseteq> set (db_history conv)"
      using set by (auto dest: record_message_keeps split: if_splits)
    show "\<exists>m \<in> set (db_history conv). sent_in_history (if ob_open k q x then ob_resolve now ea ra q x else x) m"
    proof (cases "ob_open k q x")
      case True
      then have "x = row"
        using x assms(3,4) ok(1) distinct_map_eq [of ob_id "db_outbound db" x row] by (auto simp: ob_ok_def ob_inv_def ob_in_def)
      moreover have sent: "rq_resolution q = ''sent''" using True st by (simp add: ob_resolve_columns)
      then obtain out where "record_message (ob_created_at row) uuid (sent_history_args ea row) (db_history db)
          = Inr (out, db_history conv)"
        using set by auto
      then have "\<exists>m \<in> set (db_history conv). sent_in_history (ob_sent JNull ea row) m" by (rule recorded_sent)
      ultimately show ?thesis using True by (simp only: sent_in_history_resolve [OF sent, of _ _ _ _ _ JNull] if_True simp_thms)
    next
      case False
      then have "ob_status x = ObSent" using st by (simp split: if_splits)
      then show ?thesis using False x ok(3) hist by (auto simp: sends_recorded_def)
    qed
  qed
  ultimately show ?thesis by (simp add: cv_ok_def conv_ok_def rows)
qed

definition rc_inv :: "recon_db \<Rightarrow> bool" where
  "rc_inv db \<longleftrightarrow> ac_inv (rc_actions db) \<and> ev_inv (rc_events db) \<and> cv_ok (rc_conv db)
     \<and> distinct (map rr_id (rc_log db)) \<and> distinct (map recon_key (rc_log db))"

lemma rc_inv_record:
  "rc_inv db \<Longrightarrow> recon_record n db = Inr db' \<Longrightarrow> rc_inv db'"
  by (auto simp: recon_record_Inr rc_inv_def)

lemma settle_action_inv:
  assumes "settle_action sha now uuid k q row db = Inr (status, db1)" and "rc_inv db"
  shows "rc_inv db1"
proof -
  note e = settle_action_effect [OF assms(1)]
  then obtain f where f: "rc_actions db1 = update_where (ac_uncertain k q) f (rc_actions db)"
    "\<And>r. ac_envelope (f r) = ac_envelope r \<and> ac_approved_by (f r) = ac_approved_by r \<and> ac_status (f r) \<noteq> ActPending"
    by blast
  have "ac_row_ok (f r)" if "ac_uncertain k q r" "ac_row_ok r" for r
    using that f(2) [of r] by (auto simp: ac_row_ok_def ac_uncertain_def ac_envelope_def)
  then have "ac_inv (rc_actions db1)"
    unfolding f(1) using assms(2) f(2) by (intro ac_inv_update) (auto simp: rc_inv_def)
  then show ?thesis using assms(2) e by (auto simp: rc_inv_def intro: ev_inv_enqueue)
qed

subsection \<open>Runs of the platform\<close>

datatype recon_cmd = ResolveAction string recon_request
  | ResolveOutbound string recon_request "int option" "int option"

fun resolve :: "(string \<Rightarrow> string) \<Rightarrow> recon_cmd \<Rightarrow> int \<times> string \<times> string \<Rightarrow> recon_db \<Rightarrow> (recon_result \<times> recon_db) result" where
  "resolve sha (ResolveAction k q) (now, uuid1, uuid2) db = resolve_action sha now uuid1 uuid2 k q db"
| "resolve sha (ResolveOutbound k q ea ra) (now, uuid1, uuid2) db = resolve_outbound now ea ra uuid1 uuid2 k q db"

datatype rc_op = RcAction action_op | RcEvent ev_op | RcConv cv_op
  | RcApprove int int string string string string string string
  | RcResolve recon_cmd "int \<times> string \<times> string"

text \<open>Everything the stores of the model can do, and the resolutions.\<close>

inductive rc_step :: "(string \<Rightarrow> string) \<Rightarrow> rc_op \<Rightarrow> recon_db \<Rightarrow> recon_db \<Rightarrow> bool" for sha where
  rc_action: "ac_step op (rc_actions db) acts \<Longrightarrow> rc_step sha (RcAction op) db (db\<lparr>rc_actions := acts\<rparr>)"
| rc_event: "ev_step sha op (rc_events db) evs \<Longrightarrow> rc_step sha (RcEvent op) db (db\<lparr>rc_events := evs\<rparr>)"
| rc_conv: "cv_step sha op (rc_conv db) conv \<Longrightarrow> rc_step sha (RcConv op) db (db\<lparr>rc_conv := conv\<rparr>)"
| rc_approve: "approve_action_and_enqueue sha n1 n2 u tn src k who rcpt
      \<lparr>ap_actions = rc_actions db, ap_events = rc_events db\<rparr> = Inr (res, ap) \<Longrightarrow>
    rc_step sha (RcApprove n1 n2 u tn src k who rcpt) db (db\<lparr>rc_actions := ap_actions ap, rc_events := ap_events ap\<rparr>)"
| rc_resolve: "resolve sha cmd e db = Inr (res, db') \<Longrightarrow> rc_step sha (RcResolve cmd e) db db'"

lemma resolve_inv:
  assumes "resolve sha cmd e db = Inr (res, db')" and "rc_inv db"
  shows "rc_inv db'"
proof (cases "(sha, cmd, e, db)" rule: resolve.cases)
  case (1 sha' k q now uuid1 uuid2 db0)
  with assms(1) have "resolve_action sha now uuid1 uuid2 k q db = Inr (res, db')" by simp
  then show ?thesis
    by (cases rule: resolve_action_cases) (use assms(2) in \<open>blast intro: settle_action_inv rc_inv_record\<close>)+
next
  case (2 sha' k q ea ra now uuid1 uuid2 db0)
  with assms(1) have "resolve_outbound now ea ra uuid1 uuid2 k q db = Inr (res, db')" by simp
  then show ?thesis
  proof (cases rule: resolve_outbound_cases)
    case (applied ev row conv)
    then have "rc_inv (db\<lparr>rc_conv := conv\<rparr>)" using assms(2) settle_outbound_ok by (simp add: rc_inv_def)
    then show ?thesis using applied by (blast intro: rc_inv_record)
  qed (use assms(2) in simp)
qed

lemma rc_step_inv: "rc_step sha op s t \<Longrightarrow> rc_inv s \<Longrightarrow> rc_inv t"
proof (induction rule: rc_step.induct)
  case (rc_approve n1 n2 u tn src k who rcpt db res ap)
  then have "ap_inv ap" using ap_inv_approve [of "\<lparr>ap_actions = rc_actions db, ap_events = rc_events db\<rparr>"]
    by (simp add: ap_inv_def rc_inv_def)
  with rc_approve.prems show ?case by (simp add: ap_inv_def rc_inv_def)
next
  case (rc_resolve cmd e db res db')
  then show ?case by (rule resolve_inv)
qed (auto simp: rc_inv_def intro: ac_step_inv ev_step_inv cv_step_ok)

subsection \<open>Uncertain effects wait for a resolution\<close>

text \<open>No operation of the stores writes an uncertain row.\<close>

lemma kept_by_update: "r \<in> set rows \<Longrightarrow> \<not> p r \<Longrightarrow> r \<in> set (update_where p f rows)"
  by (auto simp: set_update_where)

lemma uncertain_not_held:
  "ob_status r = ObUncertain \<Longrightarrow> \<not> ob_held k t r" "ob_status r = ObUncertain \<Longrightarrow> \<not> ob_leased k t r"
  "ob_status r = ObUncertain \<Longrightarrow> \<not> ob_sending k t r"
  by (auto simp: ob_held_def ob_live_def ob_leased_def ob_sending_def)

lemma claim_keeps_uncertain:
  assumes "ob_inv rows" and "r \<in> set rows" and "ob_status r = ObUncertain"
  shows "r \<in> set (snd (outbound_claim_txn c now t rows))"
proof -
  have r: "r \<in> set (ob_cleanup c now rows)"
    unfolding ob_cleanup_def Let_def using assms(2,3)
    by (intro kept_by_update) (auto simp: ob_send_lost_def ob_exhausted_def ob_broken_sequence_def)
  have d: "distinct (map ob_id (ob_cleanup c now rows))"
    using assms(1) by (simp add: ob_inv_def ob_cleanup_def Let_def)
  have "ob_id x \<noteq> ob_id r" if "x \<in> set (ob_candidates c now (ob_cleanup c now rows))" for x
  proof
    assume "ob_id x = ob_id r"
    with ob_candidates_due [OF that] have "x = r" by (intro distinct_map_eq [OF d _ r]) simp_all
    with ob_candidates_due [OF that] assms(3) show False by (simp add: ob_due_def)
  qed
  then have "ob_id r \<notin> set (map ob_id (ob_candidates c now (ob_cleanup c now rows)))" by fastforce
  then show ?thesis unfolding outbound_claim_txn_rows by (rule kept_by_update [OF r])
qed

lemma settle_keeps_uncertain:
  assumes "ob_settle a k t db = (b, db')" and "r \<in> set (db_outbound db)" and "ob_status r = ObUncertain"
  shows "r \<in> set (db_outbound db')"
proof (cases a)
  case (SendConfirmed now uuid res)
  then show ?thesis
  proof (cases "mark_sent now uuid res k t db")
    case (Inr out)
    then have "mark_sent now uuid res k t db = Inr (b, db')" using assms(1) SendConfirmed by simp
    then show ?thesis
      using kept_by_update [where p = "ob_sending k t", OF assms(2) uncertain_not_held(3) [OF assms(3)]] mark_sent_outbound by metis
  qed (use assms SendConfirmed in simp)
next
  case (SendUncertain now err)
  with assms(1) show ?thesis
    using kept_by_update [where p = "ob_sending k t", OF assms(2) uncertain_not_held(3) [OF assms(3)]] by (auto simp: outbound_mark_uncertain_def)
next
  case (SendDead now err)
  with assms(1) show ?thesis
    using kept_by_update [where p = "ob_held k t", OF assms(2) uncertain_not_held(1) [OF assms(3)]] by (auto simp: outbound_mark_dead_letter_def)
next
  case (SendRetry now ra err)
  with assms(1) show ?thesis
    using assms(2) kept_by_update [where p = "ob_held k t", OF assms(2) uncertain_not_held(1) [OF assms(3)]]
    by (auto simp: outbound_mark_retry_def Let_def split: option.splits if_splits)
qed

lemma ob_step_keeps_uncertain:
  assumes "ob_step sha op db db'" and "ob_inv (db_outbound db)"
    and "r \<in> set (db_outbound db)" and "ob_status r = ObUncertain"
  shows "r \<in> set (db_outbound db')"
  using assms
proof (induction rule: ob_step.induct)
  case (ob_enqueue now uuid a db res db')
  then show ?case by (auto dest!: enqueue_outbound_cases simp: insert_outbound_def split: if_splits)
next
  case (ob_claim c now t db claimed db')
  then show ?case using claim_keeps_uncertain [of "db_outbound db" r c now t] by (auto dest!: outbound_claim_Inr)
next
  case (ob_renew now secs k t db b db')
  then show ?case
    by (auto simp: outbound_renew_lease_def Let_def uncertain_not_held intro!: kept_by_update split: if_splits)
next
  case (ob_sending now k t db b db')
  then show ?case
    by (auto simp: mark_sending_def Let_def uncertain_not_held intro!: kept_by_update split: option.splits if_splits)
next
  case (ob_settled a k t db b db')
  then show ?case by (blast intro: settle_keeps_uncertain)
qed

lemma suppressed_keeps_uncertain:
  assumes "list_all2 ob_suppressed rows rows'" and "r \<in> set rows" and "ob_status r = ObUncertain"
  shows "r \<in> set rows'"
proof -
  obtain i where i: "i < length rows" "rows ! i = r" using assms(2) by (auto simp: in_set_conv_nth)
  with assms(1) have "ob_suppressed r (rows' ! i)" "i < length rows'" by (auto simp: list_all2_conv_all_nth)
  with assms(3) have "rows' ! i = r" by (auto simp: ob_suppressed_def ob_pending_def)
  with \<open>i < length rows'\<close> show ?thesis by (metis nth_mem)
qed

lemma cv_step_keeps_uncertain:
  assumes "cv_step sha op db db'" and "cv_ok db" and "r \<in> set (db_outbound db)" and "ob_status r = ObUncertain"
  shows "r \<in> set (db_outbound db')"
  using assms
proof (induction rule: cv_step.induct)
  case (cv_outbound op db db')
  then show ?case by (auto simp: cv_ok_def conv_ok_def ob_ok_def intro: ob_step_keeps_uncertain)
next
  case (cv_plan now uuid plan db res db')
  then obtain db1 new where "plan_step db db1" "db' = db1\<lparr>db_plans := db_plans db @ new\<rparr>"
    using apply_plan_step [OF cv_plan(1)] by (auto simp: cv_ok_def)
  with cv_plan.prems show ?case by (auto simp: plan_step_def intro: suppressed_keeps_uncertain)
qed

lemma later_keeps_uncertain:
  assumes "rows_extend ac_row_step rows rows'" and "r \<in> set rows" and "ac_status r = ActUncertain"
  shows "r \<in> set rows'"
proof -
  obtain r' where "r' \<in> set rows'" "ac_row_step r r'" using rows_extend_member [OF assms(1,2)] by blast
  moreover from this(2) have "r' = r" using assms(3) by (auto simp: ac_row_step_def ac_edges_def)
  ultimately show ?thesis by simp
qed

definition audited_action :: "recon_row list \<Rightarrow> action_row \<Rightarrow> bool" where
  "audited_action audit r \<longleftrightarrow> (\<exists>l \<in> set audit. rr_effect_type l = EffAction \<and> rr_effect_id l = ac_id r
     \<and> rr_tenant_id l = ac_tenant_id r \<and> rr_source_id l = ac_source_id r)"

definition audited_outbound :: "recon_row list \<Rightarrow> outbound_row \<Rightarrow> bool" where
  "audited_outbound audit r \<longleftrightarrow> (\<exists>l \<in> set audit. rr_effect_type l = EffOutbound \<and> rr_effect_id l = ob_id r
     \<and> rr_tenant_id l = ob_tenant_id r \<and> rr_source_id l = ob_source_id r)"

definition recon_waits :: "recon_db \<Rightarrow> recon_db \<Rightarrow> bool" where
  "recon_waits s t \<longleftrightarrow> (\<exists>new. rc_log t = rc_log s @ new
     \<and> (\<forall>r \<in> set (rc_actions s). ac_status r = ActUncertain \<longrightarrow> r \<in> set (rc_actions t) \<or> audited_action new r)
     \<and> (\<forall>r \<in> set (db_outbound (rc_conv s)). ob_status r = ObUncertain \<longrightarrow>
          r \<in> set (db_outbound (rc_conv t)) \<or> audited_outbound new r))"

lemma recon_waitsI:
  assumes "rc_log t = rc_log s"
    and "\<And>r. r \<in> set (rc_actions s) \<Longrightarrow> ac_status r = ActUncertain \<Longrightarrow> r \<in> set (rc_actions t)"
    and "\<And>r. r \<in> set (db_outbound (rc_conv s)) \<Longrightarrow> ob_status r = ObUncertain \<Longrightarrow> r \<in> set (db_outbound (rc_conv t))"
  shows "recon_waits s t"
  using assms unfolding recon_waits_def by (intro exI [of _ "[]"]) simp

lemma recon_waits_trans:
  assumes "recon_waits s t" and "recon_waits t u"
  shows "recon_waits s u"
proof -
  obtain n1 where n1: "rc_log t = rc_log s @ n1"
    "\<And>r. r \<in> set (rc_actions s) \<Longrightarrow> ac_status r = ActUncertain \<Longrightarrow> r \<in> set (rc_actions t) \<or> audited_action n1 r"
    "\<And>r. r \<in> set (db_outbound (rc_conv s)) \<Longrightarrow> ob_status r = ObUncertain \<Longrightarrow>
      r \<in> set (db_outbound (rc_conv t)) \<or> audited_outbound n1 r"
    using assms(1) by (auto simp: recon_waits_def)
  obtain n2 where n2: "rc_log u = rc_log t @ n2"
    "\<And>r. r \<in> set (rc_actions t) \<Longrightarrow> ac_status r = ActUncertain \<Longrightarrow> r \<in> set (rc_actions u) \<or> audited_action n2 r"
    "\<And>r. r \<in> set (db_outbound (rc_conv t)) \<Longrightarrow> ob_status r = ObUncertain \<Longrightarrow>
      r \<in> set (db_outbound (rc_conv u)) \<or> audited_outbound n2 r"
    using assms(2) by (auto simp: recon_waits_def)
  have mono: "audited_action n1 r \<or> audited_action n2 r \<Longrightarrow> audited_action (n1 @ n2) r"
    "audited_outbound n1 x \<or> audited_outbound n2 x \<Longrightarrow> audited_outbound (n1 @ n2) x" for r x
    by (auto simp: audited_action_def audited_outbound_def)
  show ?thesis
    unfolding recon_waits_def
  proof (intro exI [of _ "n1 @ n2"] conjI ballI impI)
    show "rc_log u = rc_log s @ n1 @ n2" using n1(1) n2(1) by simp
  next
    fix r assume "r \<in> set (rc_actions s)" "ac_status r = ActUncertain"
    then show "r \<in> set (rc_actions u) \<or> audited_action (n1 @ n2) r" using n1(2) n2(2) mono(1) by blast
  next
    fix r assume "r \<in> set (db_outbound (rc_conv s))" "ob_status r = ObUncertain"
    then show "r \<in> set (db_outbound (rc_conv u)) \<or> audited_outbound (n1 @ n2) r" using n1(3) n2(3) mono(2) by blast
  qed
qed

lemma resolve_waits:
  assumes "resolve sha cmd e db = Inr (res, db')"
  shows "recon_waits db db'"
proof (cases "(sha, cmd, e, db)" rule: resolve.cases)
  case (1 sha' k q now uuid1 uuid2 db0)
  with assms have "resolve_action sha now uuid1 uuid2 k q db = Inr (res, db')" by simp
  then show ?thesis
  proof (cases rule: resolve_action_cases)
    case (applied ev row status db1)
    let ?n = "new_recon_row now uuid2 EffAction k q status ev"
    note e = settle_action_effect [OF applied(5)]
    obtain f where f: "rc_actions db1 = update_where (ac_uncertain k q) f (rc_actions db)" using e by blast
    have acts: "rc_actions db' = rc_actions db1" using applied(6) by (auto simp: recon_record_Inr)
    have "audited_action [?n] r" if "ac_uncertain k q r" for r
      using that by (simp add: audited_action_def new_recon_row_def ac_uncertain_def ac_is_def)
    then have "r \<in> set (rc_actions db') \<or> audited_action [?n] r" if "r \<in> set (rc_actions db)" for r
      unfolding acts f using kept_by_update [OF that] by blast
    moreover have "rc_log db' = rc_log db @ [?n]" "rc_conv db' = rc_conv db"
      using applied(6) e by (auto simp: recon_record_Inr)
    ultimately show ?thesis unfolding recon_waits_def by (intro exI [of _ "[?n]"]) simp
  qed (auto intro: recon_waitsI)
next
  case (2 sha' k q ea ra now uuid1 uuid2 db0)
  with assms have "resolve_outbound now ea ra uuid1 uuid2 k q db = Inr (res, db')" by simp
  then show ?thesis
  proof (cases rule: resolve_outbound_cases)
    case (applied ev row conv)
    let ?n = "new_recon_row now uuid2 EffOutbound k q (rs_status res) ev"
    obtain f where "db_outbound conv = update_where (ob_open k q) f (db_outbound (rc_conv db))"
      using applied(6) by (auto simp: settle_outbound_def Let_def rbind_eq_Inr split: if_splits)
    then have rows: "db_outbound (rc_conv db') = update_where (ob_open k q) f (db_outbound (rc_conv db))"
      using applied(7) by (auto simp: recon_record_Inr)
    have "audited_outbound [?n] r" if "ob_open k q r" for r
      using that by (simp add: audited_outbound_def new_recon_row_def ob_in_def)
    then have "r \<in> set (db_outbound (rc_conv db')) \<or> audited_outbound [?n] r"
      if "r \<in> set (db_outbound (rc_conv db))" for r
      unfolding rows using kept_by_update [OF that, of "ob_open k q" f] by meson
    moreover have "rc_log db' = rc_log db @ [?n]" "rc_actions db' = rc_actions db"
      using applied(7) by (auto simp: recon_record_Inr)
    ultimately show ?thesis unfolding recon_waits_def by (intro exI [of _ "[?n]"]) simp
  qed (auto intro: recon_waitsI)
qed

lemma rc_step_waits: "rc_step sha op s t \<Longrightarrow> rc_inv s \<Longrightarrow> recon_waits s t"
proof (induction rule: rc_step.induct)
  case (rc_approve n1 n2 u tn src k who rcpt db res ap)
  then have "ap_actions ap = snd (approve_action n1 who k tn src (rc_actions db))"
    by (auto dest!: approve_Inr)
  then have "rows_extend ac_row_step (rc_actions db) (ap_actions ap)"
    using change_action_rows [of "rc_actions db" "ChApprove who" n1 k tn src] by simp
  then show ?case by (auto intro!: recon_waitsI intro: later_keeps_uncertain)
next
  case (rc_resolve cmd e db res db')
  then show ?case by (blast intro: resolve_waits)
next
  case (rc_action op db acts)
  then show ?case using later_keeps_uncertain [OF ac_step_rows] by (auto intro!: recon_waitsI)
next
  case (rc_conv op db conv)
  then show ?case by (auto intro!: recon_waitsI simp: rc_inv_def intro: cv_step_keeps_uncertain)
qed (auto intro: recon_waitsI)

lemma steps_recon_waits:
  assumes "steps (rc_step sha) ops s t" and "rc_inv s"
  shows "recon_waits s t"
  using assms
  by (rule steps_preorder [where I = rc_inv]) (auto intro: rc_step_inv rc_step_waits recon_waitsI recon_waits_trans)

subsection \<open>Replaying a resolution\<close>

fun cmd_effect :: "recon_cmd \<Rightarrow> effect_type \<times> string \<times> recon_request" where
  "cmd_effect (ResolveAction k q) = (EffAction, k, q)"
| "cmd_effect (ResolveOutbound k q ea ra) = (EffOutbound, k, q)"

fun cmd_supported :: "recon_cmd \<Rightarrow> bool" where
  "cmd_supported (ResolveAction k q) = (rq_resolution q \<in> {''executed'', ''failed'', ''not_executed''})"
| "cmd_supported (ResolveOutbound k q ea ra) = (rq_resolution q \<in> {''sent'', ''failed'', ''not_sent''})"

definition audit_of :: "recon_cmd \<Rightarrow> recon_result \<Rightarrow> recon_row \<Rightarrow> bool" where
  "audit_of cmd res r \<longleftrightarrow> (case cmd_effect cmd of (ty, k, q) \<Rightarrow> cmd_supported cmd \<and> rs_effect_id res = k
     \<and> rs_status res = rr_result_status r \<and> recon_by_key ty q r
     \<and> (\<exists>ev. validate_recon_request q = Inr ev \<and> recon_matches k q ev r))"

lemma replayed_audit:
  "recon_replayed ty k q audit res \<Longrightarrow> cmd_effect cmd = (ty, k, q) \<Longrightarrow> cmd_supported cmd \<Longrightarrow>
    \<exists>r \<in> set audit. audit_of cmd res r"
  by (auto simp: recon_replayed_def audit_of_def dest!: fetchone_SomeD)

lemma new_row_audit:
  "validate_recon_request q = Inr ev \<Longrightarrow> cmd_effect cmd = (ty, k, q) \<Longrightarrow> cmd_supported cmd \<Longrightarrow> rs_effect_id res = k \<Longrightarrow>
    audit_of cmd res (new_recon_row now uuid ty k q (rs_status res) ev)"
  by (simp add: audit_of_def recon_by_key_def recon_matches_def new_recon_row_def)

lemma resolve_audited:
  assumes "resolve sha cmd e db = Inr (res, db')"
  shows "\<exists>r \<in> set (rc_log db'). audit_of cmd res r"
proof (cases "(sha, cmd, e, db)" rule: resolve.cases)
  case (1 sha' k q now uuid1 uuid2 db0)
  with assms have "resolve_action sha now uuid1 uuid2 k q db = Inr (res, db')" by simp
  then show ?thesis
  proof (cases rule: resolve_action_cases)
    case replay
    with 1 show ?thesis by (intro replayed_audit) simp_all
  next
    case (applied ev row status db1)
    with 1 have "audit_of cmd res (new_recon_row now uuid2 EffAction k q (rs_status res) ev)"
      by (intro new_row_audit) simp_all
    with applied show ?thesis by (auto simp: recon_record_Inr)
  qed
next
  case (2 sha' k q ea ra now uuid1 uuid2 db0)
  with assms have "resolve_outbound now ea ra uuid1 uuid2 k q db = Inr (res, db')" by simp
  then show ?thesis
  proof (cases rule: resolve_outbound_cases)
    case replay
    with 2 show ?thesis by (intro replayed_audit) simp_all
  next
    case (applied ev row conv)
    with 2 have "audit_of cmd res (new_recon_row now uuid2 EffOutbound k q (rs_status res) ev)"
      by (intro new_row_audit) simp_all
    with applied show ?thesis by (auto simp: recon_record_Inr)
  qed
qed

lemma fetch_audit:
  assumes "rc_inv db" and "r \<in> set (rc_log db)" and "recon_by_key ty q r"
  shows "fetchone (recon_by_key ty q) (rc_log db) = Some r"
  by (rule fetchone_pk [where k = recon_key]) (use assms in \<open>auto simp: rc_inv_def recon_by_key_def recon_key_def\<close>)

lemma resolve_replay:
  assumes "rc_inv db" and "r \<in> set (rc_log db)" and "audit_of cmd res r"
  shows "resolve sha cmd e db = Inr (res\<lparr>rs_applied := False\<rparr>, db)"
proof -
  obtain ty k q where cmd: "cmd_effect cmd = (ty, k, q)" by (cases "cmd_effect cmd")
  with assms(3) obtain ev where a: "cmd_supported cmd" "rs_effect_id res = k" "rs_status res = rr_result_status r"
    "recon_by_key ty q r" "validate_recon_request q = Inr ev" "recon_matches k q ev r"
    by (auto simp: audit_of_def)
  then have ex: "recon_existing (rc_log db) ty k q ev = Inr (Some (res\<lparr>rs_applied := False\<rparr>))"
    using fetch_audit [OF assms(1,2) a(4)] by (cases res) (simp add: recon_existing_Inr)
  obtain now uuid1 uuid2 where e: "e = (now, uuid1, uuid2)" by (cases e)
  show ?thesis
  proof (cases cmd)
    case (ResolveAction k' q')
    with cmd have "ty = EffAction" "k' = k" "q' = q" by simp_all
    with ResolveAction a(1,5) ex e show ?thesis by (auto simp: resolve_action_def)
  next
    case (ResolveOutbound k' q' ea ra)
    with cmd have "ty = EffOutbound" "k' = k" "q' = q" by simp_all
    with ResolveOutbound a(1,5) ex e show ?thesis by (auto simp: resolve_outbound_def Let_def)
  qed
qed

subsection \<open>A concrete resolution\<close>

definition demo_uncertain :: action_row where
  "demo_uncertain = demo_approved\<lparr>ac_status := ActUncertain\<rparr>"

definition demo_recon_db :: recon_db where
  "demo_recon_db = \<lparr>rc_actions = [demo_uncertain], rc_events = [], rc_conv = empty_conv_db, rc_log = []\<rparr>"

definition demo_request :: recon_request where
  "demo_request = \<lparr>rq_tenant_id = ''t'', rq_source_id = ''chat'', rq_resolution = ''not_executed'',
     rq_request_key = ''check'', rq_actor_id = ''op'', rq_evidence = [(''lookup'', JStr ''none'')]\<rparr>"

lemma demo_recon_inv: "rc_inv demo_recon_db"
  by (simp add: rc_inv_def demo_recon_db_def ac_inv_def demo_uncertain_def demo_action_defs ac_row_ok_def
      unique_key_def cv_ok_def conv_ok_def ob_ok_def ob_inv_def ob_ordered_def sends_recorded_def dg_inv_def
      empty_conv_db_def split: option.split)

definition demo_resolved :: "recon_result \<times> recon_db" where
  "demo_resolved = (case resolve_action (\<lambda>s. s) 9 ''e'' ''r'' ''act_a'' demo_request demo_recon_db of
     Inr out \<Rightarrow> out | Inl _ \<Rightarrow> (\<lparr>rs_effect_id = [], rs_status = [], rs_applied = False\<rparr>, demo_recon_db))"

lemma demo_resolve:
  "resolve_action (\<lambda>s. s) 9 ''e'' ''r'' ''act_a'' demo_request demo_recon_db = Inr demo_resolved"
proof -
  have "(case resolve_action (\<lambda>s. s) 9 ''e'' ''r'' ''act_a'' demo_request demo_recon_db of Inr _ \<Rightarrow> True | Inl _ \<Rightarrow> False)"
    by code_simp
  then show ?thesis by (auto simp: demo_resolved_def split: sum.splits)
qed

lemma demo_resolve_cmd:
  "resolve (\<lambda>s. s) (ResolveAction ''act_a'' demo_request) (9, ''e'', ''r'') demo_recon_db
    = Inr (fst demo_resolved, snd demo_resolved)"
  by (simp add: demo_resolve)

subsection \<open>Properties\<close>

text \<open>C10: An uncertain effect is resolved only by an audited decision.  Whatever the action store, the
  event queue, the approvals, the outbound queue, the dialogue and the resolutions do, and in whatever
  order, an action or an outbound message that is uncertain is still in its table as it was, or the
  audit table has a new entry for it in its own conversation; entries of the audit table are never
  changed or removed.\<close>

theorem uncertain_needs_resolution:
  assumes "rc_inv db" and "steps (rc_step sha) ops db db'"
  shows "\<exists>new. rc_log db' = rc_log db @ new
    \<and> (\<forall>r \<in> set (rc_actions db). ac_status r = ActUncertain \<longrightarrow> r \<in> set (rc_actions db')
        \<or> (\<exists>l \<in> set new. rr_effect_type l = EffAction \<and> rr_effect_id l = ac_id r
            \<and> rr_tenant_id l = ac_tenant_id r \<and> rr_source_id l = ac_source_id r))
    \<and> (\<forall>r \<in> set (db_outbound (rc_conv db)). ob_status r = ObUncertain \<longrightarrow> r \<in> set (db_outbound (rc_conv db'))
        \<or> (\<exists>l \<in> set new. rr_effect_type l = EffOutbound \<and> rr_effect_id l = ob_id r
            \<and> rr_tenant_id l = ob_tenant_id r \<and> rr_source_id l = ob_source_id r))"
  using steps_recon_waits [OF assms(2,1)] by (simp add: recon_waits_def audited_action_def audited_outbound_def)

theorem uncertain_needs_resolution_witness:
  "demo_uncertain \<notin> set (rc_actions (snd demo_resolved))
    \<and> (\<exists>l \<in> set (rc_log (snd demo_resolved)). rr_effect_id l = ''act_a'')"
proof
  show gone: "demo_uncertain \<notin> set (rc_actions (snd demo_resolved))" by code_simp
  have "steps (rc_step (\<lambda>s. s)) [RcResolve (ResolveAction ''act_a'' demo_request) (9, ''e'', ''r'')] demo_recon_db (snd demo_resolved)"
    using rc_resolve [OF demo_resolve_cmd] by simp
  from uncertain_needs_resolution [OF demo_recon_inv this] gone
  show "\<exists>l \<in> set (rc_log (snd demo_resolved)). rr_effect_id l = ''act_a''"
    by (auto simp: demo_recon_db_def demo_uncertain_def demo_action_defs)
qed

text \<open>Resolutions are idempotent: once a resolution was accepted, and after anything the platform
  does later, repeating the request answers with the same effect and the status it had been resolved
  to, says that it was not applied again, and changes no table.\<close>

theorem reconcile_idempotent:
  assumes "rc_inv db" and "resolve sha cmd e db = Inr (res, db1)" and "steps (rc_step sha) ops db1 db2"
  shows "resolve sha cmd e' db2 = Inr (res\<lparr>rs_applied := False\<rparr>, db2)"
proof -
  obtain r where r: "r \<in> set (rc_log db1)" "audit_of cmd res r" using resolve_audited [OF assms(2)] by blast
  have inv1: "rc_inv db1" using assms(2,1) by (rule resolve_inv)
  have "rc_inv db2" using assms(3) inv1 by (rule steps_invariant) (rule rc_step_inv)
  moreover have "r \<in> set (rc_log db2)" using steps_recon_waits [OF assms(3) inv1] r(1) by (auto simp: recon_waits_def)
  ultimately show ?thesis using r(2) by (rule resolve_replay)
qed

theorem reconcile_idempotent_witness:
  "resolve (\<lambda>s. s) (ResolveAction ''act_a'' demo_request) (99, ''x'', ''y'') (snd demo_resolved)
    = Inr ((fst demo_resolved)\<lparr>rs_applied := False\<rparr>, snd demo_resolved)"
  by (rule reconcile_idempotent [OF demo_recon_inv demo_resolve_cmd, of "[]"]) simp

text \<open>An action that an operator reports as not executed is put back to work in one transaction: it is
  approved again with its recorded decision, and exactly one new event, queued for the action worker,
  names it.\<close>

theorem not_executed_requeues:
  assumes "rc_inv db" and "resolve_action sha now uuid1 uuid2 k q db = Inr (res, db')"
    and "rs_applied res" and "rq_resolution q = ''not_executed''"
  shows "\<exists>old act ev. get_action k (rq_tenant_id q) (rq_source_id q) (rc_actions db) = Some old
    \<and> get_action k (rq_tenant_id q) (rq_source_id q) (rc_actions db') = Some act
    \<and> ac_status old = ActUncertain \<and> ac_status act = ActApproved \<and> ac_approved_by act = ac_approved_by old
    \<and> rc_events db' = rc_events db @ [ev] \<and> ev_status ev = EvQueued \<and> ev_recipient ev = ''actions''
    \<and> ev_payload_json ev = Encoded (JObj [(''action_id'', JStr k), (''source_id'', JStr (rq_source_id q))])"
  using assms(2)
proof (cases rule: resolve_action_cases)
  case replay
  then show ?thesis using assms(3) by (auto simp: recon_replayed_def)
next
  case (applied ev row status db1)
  let ?f = "\<lambda>r. r\<lparr>ac_status := ActApproved, ac_result_json := None, ac_last_error := None, ac_updated_at := now\<rparr>"
  let ?a = "reconcile_event k q (ac_source_event_id row)"
  have d: "distinct (map ac_id (rc_actions db))" using assms(1) by (simp add: rc_inv_def ac_inv_def)
  have row: "row \<in> set (rc_actions db)" "ac_uncertain k q row"
    using get_action_SomeD [OF applied(3)] applied(4) by (auto simp: ac_uncertain_def)
  obtain e evs where enq: "enqueue sha now uuid1 ?a (rc_events db) = Inr (Some e, evs)"
    and db1: "db1 = (update_action k q ?f db)\<lparr>rc_events := evs\<rparr>"
    using applied(5) assms(4) by (auto simp: settle_action_def Let_def rbind_eq_Inr update_action_def split: if_splits)
  have evs: "evs = rc_events db @ [new_event_row sha now uuid1 ?a]"
    using enq by (auto simp: enqueue_def Let_def ev_insert_def rbind_eq_Inr split: if_splits option.splits)
  have "?f row \<in> set (rc_actions db1)"
    unfolding db1 update_action_def using row by (auto simp: set_update_where)
  then have "get_action k (rq_tenant_id q) (rq_source_id q) (rc_actions db1) = Some (?f row)"
    using d row(2) by (intro get_action_unique) (auto simp: db1 update_action_def ac_uncertain_def ac_is_def)
  then show ?thesis
    using applied(3,4,6) evs
    by (auto simp: recon_record_Inr db1 new_event_row_def reconcile_event_def)
qed

theorem not_executed_requeues_witness:
  "map ac_status (rc_actions (snd demo_resolved)) = [ActApproved]
    \<and> (\<exists>ev \<in> set (rc_events (snd demo_resolved)). ev_status ev = EvQueued \<and> ev_recipient ev = ''actions'')"
proof
  show "map ac_status (rc_actions (snd demo_resolved)) = [ActApproved]" by code_simp
  have "rs_applied (fst demo_resolved)" by code_simp
  with not_executed_requeues [OF demo_recon_inv, of "\<lambda>s. s" 9 "''e''" "''r''" "''act_a''" demo_request
      "fst demo_resolved" "snd demo_resolved"] demo_resolve
  show "\<exists>ev \<in> set (rc_events (snd demo_resolved)). ev_status ev = EvQueued \<and> ev_recipient ev = ''actions''"
    by (auto simp: demo_request_def)
qed

end
