(* ===== verification/Cron.thy ===== *)
theory Cron
  imports Event_Queue Python_Text
begin

section \<open>Scheduled jobs\<close>

text \<open>
  Models \<open>cron/schedule.py\<close> and \<open>cron/store.py\<close> on the table \<open>cron_jobs\<close> (migrations 003, 012, 015, 016, 017,
  020 and 027): jobs are inserted with an optional recurrence, claimed when due, published as \<open>CronJobDue\<close>
  events in the same transaction that advances the schedule, listed and cancelled.

  The time zone database and the recurrence library (\<open>zoneinfo\<close>, \<open>dateutil.rrule\<close>) are parameters:
  whether a zone and a timestamp are accepted, whether a rule is accepted for an anchor, and the timestamp
  of the first recurrence after a moment.  \<open>payload_json\<close> is written by \<open>json.dumps\<close> only; the model keeps
  its value.
\<close>

subsection \<open>Schedules\<close>

record schedule_lib =
  sl_zone_ok :: "string \<Rightarrow> int \<Rightarrow> bool"
  sl_rrule_ok :: "string \<Rightarrow> int \<Rightarrow> string \<Rightarrow> bool"
  sl_after :: "string \<Rightarrow> int \<Rightarrow> string \<Rightarrow> int \<Rightarrow> int option result"

definition validate_schedule :: "schedule_lib \<Rightarrow> int \<Rightarrow> string option \<Rightarrow> string \<Rightarrow> unit result" where
  "validate_schedule lib run_at rrule timezone =
     (if \<not> sl_zone_ok lib timezone run_at
      then Inl (ValueError (''invalid timezone or run_at: '' @ repr_str timezone))
      else case rrule of
        None \<Rightarrow> Inr ()
      | Some body \<Rightarrow>
          if blank body then Inl (ValueError ''rrule must be non-empty when provided'')
          else if \<not> sl_rrule_ok lib body run_at timezone then Inl (ValueError ''invalid rrule'')
          else Inr ())"

definition next_run_at :: "schedule_lib \<Rightarrow> int \<Rightarrow> string option \<Rightarrow> string \<Rightarrow> int \<Rightarrow> int option result" where
  "next_run_at lib anchor rrule timezone fired_at = (case rrule of
     None \<Rightarrow> Inr None
   | Some body \<Rightarrow> if body = [] then Inr None else sl_after lib body anchor timezone fired_at)"

subsection \<open>Rows\<close>

datatype cj_state = CjPending | CjLeased | CjFired | CjCancelled | CjDeadLetter

record cron_row =
  cj_id :: string
  cj_tenant_id :: string
  cj_source_id :: string
  cj_name :: string
  cj_payload_json :: json
  cj_status :: cj_state
  cj_schedule_anchor_at :: int
  cj_run_at :: int
  cj_rrule :: "string option"
  cj_timezone :: string
  cj_lease_owner :: "string option"
  cj_lease_until :: "int option"
  cj_lease_token :: "string option"
  cj_attempts :: int
  cj_max_attempts :: int
  cj_idempotency_key :: "string option"
  cj_idempotency_fingerprint :: "string option"
  cj_last_error :: "string option"
  cj_created_at :: int
  cj_updated_at :: int

record cron_args =
  ja_tenant_id :: string
  ja_source_id :: string
  ja_name :: string
  ja_payload :: json
  ja_run_at :: int
  ja_rrule :: "string option"
  ja_timezone :: string
  ja_max_attempts :: int
  ja_idempotency_key :: "string option"

record cron_db =
  cd_jobs :: "cron_row list"
  cd_events :: "event_row list"

subsection \<open>Inserting\<close>

definition cron_command :: "cron_args \<Rightarrow> json" where
  "cron_command a = JObj
    [(''name'', JStr (ja_name a)), (''payload'', ja_payload a), (''run_at'', JInt (ja_run_at a)),
     (''rrule'', opt_str (ja_rrule a)), (''timezone'', JStr (ja_timezone a)),
     (''max_attempts'', JInt (ja_max_attempts a))]"

definition new_cron_row :: "(string \<Rightarrow> string) \<Rightarrow> int \<Rightarrow> string \<Rightarrow> cron_args \<Rightarrow> cron_row" where
  "new_cron_row sha now uuid a = \<lparr>cj_id = ''cron_'' @ uuid, cj_tenant_id = ja_tenant_id a,
     cj_source_id = ja_source_id a, cj_name = ja_name a, cj_payload_json = ja_payload a,
     cj_status = CjPending, cj_schedule_anchor_at = ja_run_at a, cj_run_at = ja_run_at a,
     cj_rrule = ja_rrule a, cj_timezone = ja_timezone a, cj_lease_owner = None, cj_lease_until = None,
     cj_lease_token = None, cj_attempts = 0, cj_max_attempts = ja_max_attempts a,
     cj_idempotency_key = ja_idempotency_key a,
     cj_idempotency_fingerprint = Some (idempotency_fingerprint sha (cron_command a)),
     cj_last_error = None, cj_created_at = now, cj_updated_at = now\<rparr>"

text \<open>\<open>PRIMARY KEY(id)\<close> and the partial unique index on \<open>(tenant_id, source_id, idempotency_key)\<close>.\<close>

definition cj_key :: "cron_row \<Rightarrow> (string \<times> string \<times> string) option" where
  "cj_key r = map_option (\<lambda>key. (cj_tenant_id r, cj_source_id r, key)) (cj_idempotency_key r)"

definition cj_insert :: "cron_row \<Rightarrow> cron_row list \<Rightarrow> cron_row list result" where
  "cj_insert n rows = (if \<exists>r \<in> set rows. cj_id r = cj_id n \<or> (cj_key n \<noteq> None \<and> cj_key r = cj_key n)
     then Inl IntegrityError else Inr (rows @ [n]))"

definition cj_by_key :: "cron_args \<Rightarrow> string \<Rightarrow> cron_row \<Rightarrow> bool" where
  "cj_by_key a key r = (cj_tenant_id r = ja_tenant_id a \<and> cj_source_id r = ja_source_id a
     \<and> cj_idempotency_key r = Some key)"

definition require_cron_replay :: "(string \<Rightarrow> string) \<Rightarrow> cron_row \<Rightarrow> string \<Rightarrow> cron_args \<Rightarrow> unit result" where
  "require_cron_replay sha row key a = require_idempotent_replay
     (case cj_idempotency_fingerprint row of
        Some stored \<Rightarrow> stored = idempotency_fingerprint sha (cron_command a)
      | None \<Rightarrow> cj_name row = ja_name a \<and> json_eq (cj_payload_json row) (ja_payload a)
          \<and> cj_rrule row = ja_rrule a \<and> cj_timezone row = ja_timezone a
          \<and> cj_max_attempts row = ja_max_attempts a)
     ''cron job'' key (cj_id row)"

definition replay_job ::
  "(string \<Rightarrow> string) \<Rightarrow> cron_row \<Rightarrow> string \<Rightarrow> cron_args \<Rightarrow> cron_row list \<Rightarrow> ((string \<times> bool) \<times> cron_row list) result" where
  "replay_job sha existing key a rows =
     rbind (require_cron_replay sha existing key a) (\<lambda>_. Inr ((cj_id existing, False), rows))"

definition insert_new_job ::
  "(string \<Rightarrow> string) \<Rightarrow> int \<Rightarrow> string \<Rightarrow> cron_args \<Rightarrow> cron_row list \<Rightarrow> ((string \<times> bool) \<times> cron_row list) result" where
  "insert_new_job sha now uuid a rows =
     (let n = new_cron_row sha now uuid a in
      case cj_insert n rows of
        Inr rows' \<Rightarrow> Inr ((cj_id n, True), rows')
      | Inl e \<Rightarrow>
          (case ja_idempotency_key a of
             None \<Rightarrow> Inl e
           | Some key \<Rightarrow>
               (case fetchone (cj_by_key a key) rows of
                  None \<Rightarrow> Inl e
                | Some existing \<Rightarrow> replay_job sha existing key a rows)))"

definition insert_job ::
  "schedule_lib \<Rightarrow> (string \<Rightarrow> string) \<Rightarrow> int \<Rightarrow> string \<Rightarrow> cron_args \<Rightarrow> cron_row list \<Rightarrow> ((string \<times> bool) \<times> cron_row list) result" where
  "insert_job lib sha now uuid a rows =
     (if blank (ja_tenant_id a) \<or> blank (ja_source_id a)
      then Inl (ValueError ''tenant_id and source_id must be non-empty'')
      else rbind (validate_schedule lib (ja_run_at a) (ja_rrule a) (ja_timezone a)) (\<lambda>_.
        if ja_max_attempts a < 1 then Inl (ValueError ''max_attempts must be positive'')
        else case ja_idempotency_key a of
          None \<Rightarrow> insert_new_job sha now uuid a rows
        | Some key \<Rightarrow>
            (case fetchone (cj_by_key a key) rows of
               None \<Rightarrow> insert_new_job sha now uuid a rows
             | Some existing \<Rightarrow> replay_job sha existing key a rows)))"

subsection \<open>Claiming\<close>

record cron_claim =
  jc_limit :: int
  jc_lease_owner :: string
  jc_lease_seconds :: int
  jc_tenant_id :: "string option"

definition cj_release :: "cj_state \<Rightarrow> int \<Rightarrow> cron_row \<Rightarrow> cron_row" where
  "cj_release st now r = r\<lparr>cj_status := st, cj_lease_owner := None, cj_lease_until := None,
     cj_lease_token := None, cj_updated_at := now\<rparr>"

definition cj_dead :: "string \<Rightarrow> int \<Rightarrow> cron_row \<Rightarrow> cron_row" where
  "cj_dead err now r = (cj_release CjDeadLetter now r)\<lparr>cj_last_error := Some err\<rparr>"

definition cj_exhausted :: "cron_claim \<Rightarrow> int \<Rightarrow> cron_row \<Rightarrow> bool" where
  "cj_exhausted c now r = (cj_status r = CjLeased \<and> null_le (cj_lease_until r) now
     \<and> cj_attempts r \<ge> cj_max_attempts r \<and> opt_clause (jc_tenant_id c) (cj_tenant_id r))"

definition cj_claimable :: "int \<Rightarrow> cron_row \<Rightarrow> bool" where
  "cj_claimable now r = (cj_status r = CjPending
     \<or> (cj_status r = CjLeased \<and> null_le (cj_lease_until r) now \<and> cj_attempts r < cj_max_attempts r))"

definition cj_due :: "cron_claim \<Rightarrow> int \<Rightarrow> cron_row \<Rightarrow> bool" where
  "cj_due c now r = (cj_run_at r \<le> now \<and> cj_claimable now r \<and> opt_clause (jc_tenant_id c) (cj_tenant_id r))"

definition cj_order :: "cron_row \<Rightarrow> int \<times> int" where
  "cj_order r = (cj_run_at r, cj_created_at r)"

definition cj_lease :: "cron_claim \<Rightarrow> int \<Rightarrow> string \<Rightarrow> cron_row \<Rightarrow> cron_row" where
  "cj_lease c now token r = r\<lparr>cj_status := CjLeased, cj_lease_owner := Some (jc_lease_owner c),
     cj_lease_until := Some (now + jc_lease_seconds c), cj_lease_token := Some token,
     cj_attempts := cj_attempts r + 1, cj_updated_at := now\<rparr>"

definition cj_schedule :: "schedule_lib \<Rightarrow> cron_row \<Rightarrow> unit result" where
  "cj_schedule lib r = validate_schedule lib (cj_schedule_anchor_at r) (cj_rrule r) (cj_timezone r)"

text \<open>One iteration of the inner loop: a row with an invalid schedule is buried, the others are leased.\<close>

definition visit_job ::
  "schedule_lib \<Rightarrow> cron_claim \<Rightarrow> int \<Rightarrow> string \<Rightarrow> cron_row \<Rightarrow> string list \<times> cron_row list \<Rightarrow> string list \<times> cron_row list" where
  "visit_job lib c now token row st = (case st of (ids, rows) \<Rightarrow>
     (case cj_schedule lib row of
        Inl e \<Rightarrow> (ids, update_where (\<lambda>r. cj_id r = cj_id row)
                    (cj_dead (''invalid cron schedule: '' @ error_text e) now) rows)
      | Inr _ \<Rightarrow>
          (let p = (\<lambda>r. cj_id r = cj_id row \<and> cj_claimable now r)
           in (if rowcount p rows = 1 then ids @ [cj_id row] else ids,
               update_where p (cj_lease c now token) rows))))"

definition due_batch :: "cron_claim \<Rightarrow> int \<Rightarrow> nat \<Rightarrow> cron_row list \<Rightarrow> cron_row list" where
  "due_batch c now n rows = take n (order_by cj_order (select_where (cj_due c now) rows))"

text \<open>The \<open>while\<close> loop; \<open>None\<close> would be a loop that does not end.\<close>

partial_function (option) claim_loop ::
  "schedule_lib \<Rightarrow> cron_claim \<Rightarrow> int \<Rightarrow> string \<Rightarrow> string list \<Rightarrow> cron_row list \<Rightarrow> (string list \<times> cron_row list) option" where
  "claim_loop lib c now token ids rows =
     (if int (length ids) < jc_limit c then
        (let batch = due_batch c now (nat (jc_limit c - int (length ids))) rows
         in if batch = [] then Some (ids, rows)
            else (let st = fold (visit_job lib c now token) batch (ids, rows)
                  in claim_loop lib c now token (fst st) (snd st)))
      else Some (ids, rows))"

definition cron_cleanup :: "cron_claim \<Rightarrow> int \<Rightarrow> cron_row list \<Rightarrow> cron_row list" where
  "cron_cleanup c now rows = update_where (cj_exhausted c now)
     (cj_dead ''cron lease expired after the maximum number of attempts'' now) rows"

record cron_job =
  job_id :: string
  job_tenant_id :: string
  job_source_id :: string
  job_name :: string
  job_payload :: json
  job_run_at :: int
  job_rrule :: "string option"
  job_timezone :: string
  job_attempts :: int
  job_lease_token :: "string option"

definition job_from_row :: "cron_row \<Rightarrow> cron_job" where
  "job_from_row r = \<lparr>job_id = cj_id r, job_tenant_id = cj_tenant_id r, job_source_id = cj_source_id r,
     job_name = cj_name r, job_payload = cj_payload_json r, job_run_at = cj_run_at r,
     job_rrule = cj_rrule r, job_timezone = cj_timezone r, job_attempts = cj_attempts r,
     job_lease_token = cj_lease_token r\<rparr>"

definition claim_due_jobs ::
  "schedule_lib \<Rightarrow> cron_claim \<Rightarrow> int \<Rightarrow> string \<Rightarrow> cron_row list \<Rightarrow> (cron_job list \<times> cron_row list) result option" where
  "claim_due_jobs lib c now token rows =
     (if jc_limit c < 1 then Some (Inl (ValueError ''limit must be positive''))
      else if jc_lease_seconds c < 1 then Some (Inl (ValueError ''lease_seconds must be positive''))
      else if given_blank (jc_tenant_id c)
        then Some (Inl (ValueError ''tenant_id must be non-empty when provided''))
      else case claim_loop lib c now token [] (cron_cleanup c now rows) of
        None \<Rightarrow> None
      | Some (ids, rows') \<Rightarrow>
          Some (Inr (map job_from_row (order_by cj_order (select_where (\<lambda>r. cj_id r \<in> set ids) rows')), rows')))"

subsection \<open>Publishing\<close>

definition cj_held :: "string \<Rightarrow> string \<Rightarrow> cron_row \<Rightarrow> bool" where
  "cj_held k token r = (cj_id r = k \<and> cj_status r = CjLeased \<and> cj_lease_token r = Some token)"

definition cron_renew_lease ::
  "int \<Rightarrow> int \<Rightarrow> string \<Rightarrow> string \<Rightarrow> cron_row list \<Rightarrow> (bool \<times> cron_row list) result" where
  "cron_renew_lease now lease_seconds k token rows =
     (if lease_seconds < 1 then Inl (ValueError ''lease_seconds must be positive'')
      else let p = (\<lambda>r. cj_held k token r \<and> null_gt (cj_lease_until r) now)
           in Inr (rowcount p rows > 0,
                   update_where p (\<lambda>r. r\<lparr>cj_lease_until := Some (now + lease_seconds), cj_updated_at := now\<rparr>) rows))"

definition occurrence_key :: "string \<Rightarrow> int \<Rightarrow> string" where
  "occurrence_key k run_at = ''cron:'' @ k @ '':'' @ int_text run_at"

definition due_event :: "string \<Rightarrow> cron_row \<Rightarrow> enqueue_args" where
  "due_event recipient row = \<lparr>
     ea_tenant_id = cj_tenant_id row, ea_recipient = recipient, ea_message_type = ''CronJobDue'',
     ea_payload = JObj [(''cron_job_id'', JStr (cj_id row)), (''source_id'', JStr (cj_source_id row)),
       (''name'', JStr (cj_name row)), (''payload'', cj_payload_json row), (''run_at'', JInt (cj_run_at row))],
     ea_idempotency_key = occurrence_key (cj_id row) (cj_run_at row), ea_priority = 100,
     ea_run_after = None, ea_max_attempts = 5, ea_correlation_id = Some (cj_id row), ea_causation_id = None\<rparr>"

definition cj_advance :: "int option \<Rightarrow> int \<Rightarrow> cron_row \<Rightarrow> cron_row" where
  "cj_advance following fired_at r = (case following of
     None \<Rightarrow> cj_release CjFired fired_at r
   | Some t \<Rightarrow> (cj_release CjPending fired_at r)\<lparr>cj_run_at := t, cj_attempts := 0\<rparr>)"

definition advance_completed_job ::
  "schedule_lib \<Rightarrow> cron_row \<Rightarrow> string \<Rightarrow> string \<Rightarrow> int \<Rightarrow> cron_row list \<Rightarrow> (bool \<times> cron_row list) result" where
  "advance_completed_job lib row k token fired_at rows =
     rbind (next_run_at lib (cj_schedule_anchor_at row) (cj_rrule row) (cj_timezone row) fired_at) (\<lambda>following.
       Inr (rowcount (cj_held k token) rows = 1, update_where (cj_held k token) (cj_advance following fired_at) rows))"

definition dispatch_due_event ::
  "schedule_lib \<Rightarrow> (string \<Rightarrow> string) \<Rightarrow> int \<Rightarrow> string \<Rightarrow> string \<Rightarrow> string \<Rightarrow> string \<Rightarrow> cron_db \<Rightarrow> (bool \<times> cron_db) result" where
  "dispatch_due_event lib sha fired_at uuid k token recipient db =
     (if blank recipient then Inl (ValueError ''recipient must be a non-empty string'')
      else case fetchone (\<lambda>r. cj_held k token r \<and> null_gt (cj_lease_until r) fired_at) (cd_jobs db) of
        None \<Rightarrow> Inr (False, db)
      | Some row \<Rightarrow>
          rbind (enqueue sha fired_at uuid (due_event recipient row) (cd_events db)) (\<lambda>(_, evs).
          rbind (advance_completed_job lib row k token fired_at (cd_jobs db)) (\<lambda>(updated, jobs).
            if \<not> updated then Inl (RuntimeError ''cron lease changed during atomic event dispatch'')
            else Inr (True, \<lparr>cd_jobs = jobs, cd_events = evs\<rparr>))))"

subsection \<open>Listing and cancelling\<close>

definition validate_conversation_scope :: "string \<Rightarrow> string \<Rightarrow> unit result" where
  "validate_conversation_scope tenant source =
     (if blank tenant then Inl (ValueError ''tenant_id must be a non-empty string'')
      else if blank source then Inl (ValueError ''source_id must be a non-empty string'')
      else Inr ())"

record scheduled_job =
  sj_id :: string
  sj_name :: string
  sj_status :: cj_state
  sj_run_at :: int
  sj_rrule :: "string option"
  sj_timezone :: string

definition list_scheduled_jobs :: "string \<Rightarrow> string \<Rightarrow> int \<Rightarrow> cron_row list \<Rightarrow> scheduled_job list result" where
  "list_scheduled_jobs tenant source limit rows =
     rbind (validate_conversation_scope tenant source) (\<lambda>_.
       if limit < 1 \<or> limit > 50 then Inl (ValueError ''limit must be an integer between 1 and 50'')
       else Inr (map (\<lambda>r. \<lparr>sj_id = cj_id r, sj_name = cj_name r, sj_status = cj_status r, sj_run_at = cj_run_at r,
                          sj_rrule = cj_rrule r, sj_timezone = cj_timezone r\<rparr>)
          (take (nat limit) (order_by cj_order (select_where
             (\<lambda>r. cj_tenant_id r = tenant \<and> cj_source_id r = source
                \<and> (cj_status r = CjPending \<or> cj_status r = CjLeased)) rows)))))"

datatype cancellation = Cancelled | CurrentRunMayComplete | AlreadyCancelled | AlreadyFinished | NotFound

definition active_dispatch :: "string \<Rightarrow> string \<Rightarrow> event_row \<Rightarrow> bool" where
  "active_dispatch k tenant e = (ev_tenant_id e = tenant \<and> ev_correlation_id e = Some k
     \<and> ev_message_type e = ''CronJobDue''
     \<and> (ev_status e = EvQueued \<or> ev_status e = EvLeased \<or> ev_status e = EvRetrying))"

definition has_active_dispatched_event :: "string \<Rightarrow> string \<Rightarrow> event_row list \<Rightarrow> bool" where
  "has_active_dispatched_event k tenant evs = (fetchone (active_dispatch k tenant) evs \<noteq> None)"

definition cj_in :: "string \<Rightarrow> string \<Rightarrow> string \<Rightarrow> cron_row \<Rightarrow> bool" where
  "cj_in k tenant source r = (cj_id r = k \<and> cj_tenant_id r = tenant \<and> cj_source_id r = source)"

definition cancel_scheduled_job ::
  "int \<Rightarrow> string \<Rightarrow> string \<Rightarrow> string \<Rightarrow> cron_db \<Rightarrow> (cancellation \<times> cron_db) result" where
  "cancel_scheduled_job now k tenant source db =
     rbind (validate_conversation_scope tenant source) (\<lambda>_.
       if blank k then Inl (ValueError ''job_id must be a non-empty string'')
       else
         let active = has_active_dispatched_event k tenant (cd_events db) in
         case fetchone (cj_in k tenant source) (cd_jobs db) of
           None \<Rightarrow> Inr (NotFound, db)
         | Some row \<Rightarrow>
             if cj_status row = CjCancelled
             then Inr (if cj_lease_token row \<noteq> None \<or> active then CurrentRunMayComplete else AlreadyCancelled, db)
             else if cj_status row = CjFired \<or> cj_status row = CjDeadLetter
             then Inr (if active then CurrentRunMayComplete else AlreadyFinished, db)
             else Inr (if active then CurrentRunMayComplete else Cancelled,
                    db\<lparr>cd_jobs := update_where
                      (\<lambda>r. cj_in k tenant source r \<and> (cj_status r = CjPending \<or> cj_status r = CjLeased))
                      (cj_release CjCancelled now) (cd_jobs db)\<rparr>))"

end
