(* ===== verification/Cron_Claims.thy ===== *)
theory Cron_Claims
  imports Cron
begin

section \<open>Claiming scheduled jobs\<close>

text \<open>
  The \<open>while\<close> loop of \<open>claim_due_jobs\<close> in \<open>cron/store.py\<close>: it always ends, and it computes what one pass
  over the due jobs in order computes.
\<close>

subsection \<open>What a visit leaves due\<close>

lemma cj_id_updates [simp]:
  "cj_id (cj_release st now r) = cj_id r" "cj_id (cj_dead err now r) = cj_id r"
  "cj_id (cj_lease c now t r) = cj_id r" "cj_id (cj_advance nx now r) = cj_id r"
  by (simp_all add: cj_release_def cj_dead_def cj_lease_def cj_advance_def split: option.split)

lemma cj_dead_not_due [simp]: "\<not> cj_claimable now (cj_dead err n r)"
  by (simp add: cj_claimable_def cj_dead_def cj_release_def)

lemma cj_lease_not_due: "1 \<le> jc_lease_seconds c \<Longrightarrow> \<not> cj_claimable now (cj_lease c now t r)"
  by (simp add: cj_claimable_def cj_lease_def)

lemma filter_update_where:
  "(\<And>r. p r \<Longrightarrow> \<not> q (f r)) \<Longrightarrow> filter q (update_where p f rows) = filter (\<lambda>r. q r \<and> \<not> p r) rows"
  by (induction rows) auto

lemma visit_due:
  assumes "1 \<le> jc_lease_seconds c"
  shows "filter (cj_due c now) (snd (visit_job lib c now t row st)) =
    filter (\<lambda>r. cj_due c now r \<and> cj_id r \<noteq> cj_id row) (snd st)"
proof (cases "cj_schedule lib row")
  case (Inl e)
  then show ?thesis by (simp add: visit_job_def case_prod_unfold filter_update_where cj_due_def)
next
  case (Inr u)
  have "filter (cj_due c now) (update_where (\<lambda>r. cj_id r = cj_id row \<and> cj_claimable now r) (cj_lease c now t) (snd st))
      = filter (\<lambda>r. cj_due c now r \<and> \<not> (cj_id r = cj_id row \<and> cj_claimable now r)) (snd st)"
    by (rule filter_update_where) (simp add: cj_due_def cj_lease_not_due [OF assms])
  also have "\<dots> = filter (\<lambda>r. cj_due c now r \<and> cj_id r \<noteq> cj_id row) (snd st)"
    by (rule filter_cong) (auto simp: cj_due_def)
  finally show ?thesis using Inr by (simp add: visit_job_def case_prod_unfold Let_def)
qed

lemma fold_visit_due:
  assumes "1 \<le> jc_lease_seconds c"
  shows "filter (cj_due c now) (snd (fold (visit_job lib c now t) batch st)) =
    filter (\<lambda>r. cj_due c now r \<and> cj_id r \<notin> cj_id ` set batch) (snd st)"
proof (induction batch arbitrary: st)
  case (Cons row batch)
  show ?case
    by (simp only: fold_Cons comp_apply Cons.IH flip: filter_filter)
       (simp add: visit_due [OF assms] conj_commute conj_left_commute)
qed simp

subsection \<open>The loop ends\<close>

lemma due_batch_subset: "set (due_batch c now n rows) \<subseteq> set (filter (cj_due c now) rows)"
  using set_take_subset [of n "order_by cj_order (select_where (cj_due c now) rows)"]
  by (auto simp: due_batch_def select_where_def)

lemma fewer_due:
  assumes "1 \<le> jc_lease_seconds c" and "due_batch c now n rows \<noteq> []"
  shows "length (filter (cj_due c now) (snd (fold (visit_job lib c now t) (due_batch c now n rows) (ids, rows))))
    < length (filter (cj_due c now) rows)"
proof -
  obtain r where r: "r \<in> set (due_batch c now n rows)" using assms(2) by (cases "due_batch c now n rows") auto
  let ?q = "\<lambda>r. cj_id r \<notin> cj_id ` set (due_batch c now n rows)"
  have "length (filter ?q (filter (cj_due c now) rows)) < length (filter (cj_due c now) rows)"
    by (rule length_filter_less [of r]) (use r due_batch_subset [of c now n rows] in auto)
  then show ?thesis by (simp add: fold_visit_due [OF assms(1)] conj_commute)
qed

lemma claim_loop_total:
  assumes "1 \<le> jc_lease_seconds c"
  shows "\<exists>out. claim_loop lib c now t ids rows = Some out"
proof (induction "length (filter (cj_due c now) rows)" arbitrary: ids rows rule: less_induct)
  case less
  let ?batch = "due_batch c now (nat (jc_limit c - int (length ids))) rows"
  let ?st = "fold (visit_job lib c now t) ?batch (ids, rows)"
  show ?case
  proof (cases "int (length ids) < jc_limit c \<and> ?batch \<noteq> []")
    case True
    then have "\<exists>out. claim_loop lib c now t (fst ?st) (snd ?st) = Some out"
      by (intro less.hyps fewer_due [OF assms]) simp
    with True show ?thesis by (subst claim_loop.simps) (simp add: Let_def)
  qed (subst claim_loop.simps, auto simp: Let_def)
qed

subsection \<open>One pass over the due jobs\<close>

definition schedule_ok :: "schedule_lib \<Rightarrow> cron_row \<Rightarrow> bool" where
  "schedule_ok lib r = (cj_schedule lib r = Inr ())"

text \<open>The jobs that are looked at: those in front of the \<open>n\<close>-th job with a valid schedule, and that job.\<close>

fun pick_jobs :: "schedule_lib \<Rightarrow> nat \<Rightarrow> cron_row list \<Rightarrow> cron_row list" where
  "pick_jobs lib n [] = []"
| "pick_jobs lib 0 (r # rs) = []"
| "pick_jobs lib (Suc n) (r # rs) = r # pick_jobs lib (if schedule_ok lib r then n else Suc n) rs"

lemma pick_jobs_0 [simp]: "pick_jobs lib 0 rs = []"
  by (cases rs) simp_all

text \<open>What becomes of a job that is looked at.\<close>

definition settle_job :: "schedule_lib \<Rightarrow> cron_claim \<Rightarrow> int \<Rightarrow> string \<Rightarrow> cron_row \<Rightarrow> cron_row" where
  "settle_job lib c now t r = (case cj_schedule lib r of
     Inl e \<Rightarrow> cj_dead (''invalid cron schedule: '' @ error_text e) now r
   | Inr _ \<Rightarrow> cj_lease c now t r)"

lemma settle_job_id [simp]: "cj_id (settle_job lib c now t r) = cj_id r"
  by (simp add: settle_job_def split: sum.split)

lemma settle_job_ok: "schedule_ok lib r \<Longrightarrow> settle_job lib c now t r = cj_lease c now t r"
  by (simp add: settle_job_def schedule_ok_def)

lemma pick_jobs_prefix: "\<exists>m. pick_jobs lib n rs = take m rs"
proof (induction lib n rs rule: pick_jobs.induct)
  case (3 lib n r rs)
  then obtain m where "pick_jobs lib (if schedule_ok lib r then n else Suc n) rs = take m rs" by blast
  then show ?case by (intro exI [of _ "Suc m"]) simp
qed (auto intro: exI [of _ 0])

lemma pick_jobs_take:
  "m \<le> n \<Longrightarrow> pick_jobs lib n rs =
    take m rs @ pick_jobs lib (n - length (filter (schedule_ok lib) (take m rs))) (drop m rs)"
proof (induction lib n rs arbitrary: m rule: pick_jobs.induct)
  case (3 lib n r rs)
  show ?case
  proof (cases m)
    case (Suc m')
    then show ?thesis using "3.IH" [of m'] "3.prems" by auto
  qed simp
qed simp_all

lemma pick_jobs_ok_le: "length (filter (schedule_ok lib) (pick_jobs lib n rs)) \<le> n"
  by (induction lib n rs rule: pick_jobs.induct) auto

subsection \<open>The loop is one pass\<close>

lemma rowcount_due:
  assumes "distinct (map cj_id rows)" and "row \<in> set rows" and "cj_claimable now row"
  shows "rowcount (\<lambda>r. cj_id r = cj_id row \<and> cj_claimable now r) rows = 1"
proof -
  have "rowcount (\<lambda>r. cj_id r = cj_id row \<and> cj_claimable now r) rows = 1 \<longleftrightarrow>
      (\<exists>r \<in> set rows. cj_id r = cj_id row \<and> cj_claimable now r)"
    by (rule rowcount_pk_eq_1 [where k = cj_id]) (use assms(1) in auto)
  with assms show ?thesis by blast
qed

lemma visit_settles:
  assumes "distinct (map cj_id rows)" and "row \<in> set rows" and "cj_claimable now row"
  shows "visit_job lib c now t row (ids, rows) =
    (ids @ (if schedule_ok lib row then [cj_id row] else []),
     update_where (\<lambda>r. cj_id r = cj_id row) (settle_job lib c now t) rows)"
proof -
  have same: "r = row" if "r \<in> set rows" "cj_id r = cj_id row" for r
    using that assms distinct_map_eq by metis
  show ?thesis
  proof (cases "cj_schedule lib row")
    case (Inl e)
    have "update_where (\<lambda>r. cj_id r = cj_id row) (cj_dead (''invalid cron schedule: '' @ error_text e) now) rows
        = update_where (\<lambda>r. cj_id r = cj_id row) (settle_job lib c now t) rows"
      unfolding update_where_def by (rule map_cong) (auto dest: same simp: settle_job_def Inl)
    with Inl show ?thesis by (simp add: visit_job_def schedule_ok_def)
  next
    case (Inr u)
    have "update_where (\<lambda>r. cj_id r = cj_id row \<and> cj_claimable now r) (cj_lease c now t) rows
        = update_where (\<lambda>r. cj_id r = cj_id row) (settle_job lib c now t) rows"
      unfolding update_where_def
      by (rule map_cong) (auto dest: same simp: settle_job_def Inr assms(3))
    with Inr show ?thesis
      by (simp add: visit_job_def schedule_ok_def Let_def rowcount_due [OF assms])
  qed
qed

lemma update_where_compose:
  assumes "\<And>r. k (f r) = k r" and "A \<inter> B = {}"
  shows "update_where (\<lambda>r. k r \<in> B) f (update_where (\<lambda>r. k r \<in> A) f rows) = update_where (\<lambda>r. k r \<in> A \<union> B) f rows"
  unfolding update_where_def using assms by (auto simp: map_eq_conv)

lemma fold_visit_settles:
  assumes "distinct (map cj_id rows)" and "distinct (map cj_id batch)"
    and "\<And>r. r \<in> set batch \<Longrightarrow> r \<in> set rows \<and> cj_claimable now r"
  shows "fold (visit_job lib c now t) batch (ids, rows) =
    (ids @ map cj_id (filter (schedule_ok lib) batch),
     update_where (\<lambda>r. cj_id r \<in> cj_id ` set batch) (settle_job lib c now t) rows)"
  using assms
proof (induction batch arbitrary: ids rows)
  case (Cons row batch)
  let ?rows = "update_where (\<lambda>r. cj_id r \<in> {cj_id row}) (settle_job lib c now t) rows"
  have visit: "visit_job lib c now t row (ids, rows) =
      (ids @ (if schedule_ok lib row then [cj_id row] else []), ?rows)"
    using Cons.prems by (subst visit_settles) auto
  have in_rows: "r \<in> set ?rows \<and> cj_claimable now r" if "r \<in> set batch" for r
  proof -
    have "cj_id r \<in> cj_id ` set batch" using that by (rule imageI)
    then have "cj_id r \<noteq> cj_id row" using Cons.prems(2) by auto
    then show ?thesis using Cons.prems(3) that by (auto simp: set_update_where)
  qed
  have "fold (visit_job lib c now t) (row # batch) (ids, rows) =
      ((ids @ (if schedule_ok lib row then [cj_id row] else [])) @ map cj_id (filter (schedule_ok lib) batch),
       update_where (\<lambda>r. cj_id r \<in> cj_id ` set batch) (settle_job lib c now t) ?rows)"
    unfolding fold_Cons comp_apply visit
    by (rule Cons.IH) (use Cons.prems in_rows in \<open>auto\<close>)
  also have "update_where (\<lambda>r. cj_id r \<in> cj_id ` set batch) (settle_job lib c now t) ?rows =
      update_where (\<lambda>r. cj_id r \<in> {cj_id row} \<union> cj_id ` set batch) (settle_job lib c now t) rows"
    by (rule update_where_compose) (use Cons.prems(2) in auto)
  finally show ?case by simp
qed (simp add: update_where_id)

abbreviation due_jobs :: "cron_claim \<Rightarrow> int \<Rightarrow> cron_row list \<Rightarrow> cron_row list" where
  "due_jobs c now rows \<equiv> order_by cj_order (filter (cj_due c now) rows)"

lemma due_jobs_rest:
  assumes "1 \<le> jc_lease_seconds c" and "distinct (map cj_id rows)"
  shows "due_jobs c now (snd (fold (visit_job lib c now t) (take n (due_jobs c now rows)) (ids, rows)))
    = drop n (due_jobs c now rows)"
proof -
  let ?L = "due_jobs c now rows"
  have dL: "distinct (map cj_id ?L)"
    using assms(2) by (simp add: distinct_order_by distinct_map_filter)
  then have d: "set (map cj_id (take n ?L)) \<inter> set (map cj_id (drop n ?L)) = {}"
    by (simp only: take_map [symmetric] drop_map [symmetric] set_take_disj_set_drop_if_distinct [OF dL])
  have "due_jobs c now (snd (fold (visit_job lib c now t) (take n ?L) (ids, rows)))
      = filter (\<lambda>r. cj_id r \<notin> cj_id ` set (take n ?L)) ?L"
    by (simp add: fold_visit_due [OF assms(1)] order_by_filter conj_commute flip: filter_filter)
  also have "\<dots> = filter (\<lambda>r. cj_id r \<notin> cj_id ` set (take n ?L)) (take n ?L)
      @ filter (\<lambda>r. cj_id r \<notin> cj_id ` set (take n ?L)) (drop n ?L)"
    by (metis append_take_drop_id filter_append)
  also have "filter (\<lambda>r. cj_id r \<notin> cj_id ` set (take n ?L)) (take n ?L) = []"
    by (simp add: filter_empty_conv)
  also have "filter (\<lambda>r. cj_id r \<notin> cj_id ` set (take n ?L)) (drop n ?L) = drop n ?L"
    using d by (auto simp: filter_id_conv)
  finally show ?thesis by simp
qed

lemma claim_loop_one_pass:
  assumes "1 \<le> jc_lease_seconds c" and "distinct (map cj_id rows)"
  shows "claim_loop lib c now t ids rows =
    (let seen = pick_jobs lib (nat (jc_limit c - int (length ids))) (due_jobs c now rows)
     in Some (ids @ map cj_id (filter (schedule_ok lib) seen),
              update_where (\<lambda>r. cj_id r \<in> cj_id ` set seen) (settle_job lib c now t) rows))"
  using assms(2)
proof (induction "length (filter (cj_due c now) rows)" arbitrary: ids rows rule: less_induct)
  case less
  let ?n = "nat (jc_limit c - int (length ids))" and ?L = "due_jobs c now rows"
  let ?batch = "take ?n ?L"
  have batch: "due_batch c now ?n rows = ?batch" by (simp add: due_batch_def select_where_def)
  show ?case
  proof (cases "int (length ids) < jc_limit c \<and> ?batch \<noteq> []")
    case False
    then have "pick_jobs lib ?n ?L = []"
      by (cases "int (length ids) < jc_limit c") (auto simp: take_eq_Nil)
    moreover from False have "claim_loop lib c now t ids rows = Some (ids, rows)"
      by (subst claim_loop.simps) (auto simp: Let_def batch)
    ultimately show ?thesis by (simp add: update_where_id)
  next
    case True
    let ?ids = "ids @ map cj_id (filter (schedule_ok lib) ?batch)"
    let ?rows = "update_where (\<lambda>r. cj_id r \<in> cj_id ` set ?batch) (settle_job lib c now t) rows"
    have dL: "distinct (map cj_id ?L)" using less.prems by (simp add: distinct_order_by distinct_map_filter)
    have sub: "r \<in> set rows \<and> cj_claimable now r" if "r \<in> set ?batch" for r
      using in_set_takeD [OF that] by (auto simp: cj_due_def)
    have st: "fold (visit_job lib c now t) ?batch (ids, rows) = (?ids, ?rows)"
    proof (rule fold_visit_settles)
      show "distinct (map cj_id ?batch)" using distinct_take [OF dL, of ?n] by (simp only: take_map)
    qed (use less.prems sub in blast)+
    have fewer: "length (filter (cj_due c now) ?rows) < length (filter (cj_due c now) rows)"
      using fewer_due [OF assms(1), of now ?n rows lib t ids] True by (simp add: batch st)
    have rest: "due_jobs c now ?rows = drop ?n ?L"
      using due_jobs_rest [OF assms(1) less.prems, of now lib t ?n ids] by (simp add: st)
    have n: "nat (jc_limit c - int (length ?ids)) = ?n - length (filter (schedule_ok lib) ?batch)" by simp
    let ?more = "pick_jobs lib (?n - length (filter (schedule_ok lib) ?batch)) (drop ?n ?L)"
    have seen: "pick_jobs lib ?n ?L = ?batch @ ?more" by (rule pick_jobs_take) simp
    have "claim_loop lib c now t ids rows = claim_loop lib c now t ?ids ?rows"
      using True by (subst claim_loop.simps) (simp add: Let_def batch st)
    also have "\<dots> = Some (?ids @ map cj_id (filter (schedule_ok lib) ?more),
        update_where (\<lambda>r. cj_id r \<in> cj_id ` set ?more) (settle_job lib c now t) ?rows)"
      using less.hyps [OF fewer, of ?ids] less.prems by (simp add: Let_def rest n del: length_append)
    also have "update_where (\<lambda>r. cj_id r \<in> cj_id ` set ?more) (settle_job lib c now t) ?rows =
        update_where (\<lambda>r. cj_id r \<in> cj_id ` set ?batch \<union> cj_id ` set ?more) (settle_job lib c now t) rows"
    proof (rule update_where_compose)
      obtain m where "?more = take m (drop ?n ?L)" using pick_jobs_prefix by blast
      then have "set (map cj_id ?more) \<subseteq> set (drop ?n (map cj_id ?L))" by (auto simp: drop_map dest: in_set_takeD)
      moreover have "set (take ?n (map cj_id ?L)) \<inter> set (drop ?n (map cj_id ?L)) = {}"
        by (rule set_take_disj_set_drop_if_distinct [OF dL]) simp
      ultimately show "cj_id ` set ?batch \<inter> cj_id ` set ?more = {}" by (auto simp: take_map)
    qed simp
    finally show ?thesis by (simp add: seen Let_def image_Un)
  qed
qed

subsection \<open>The claimed jobs\<close>

lemma filter_prefix_ids:
  assumes "distinct (map cj_id rows)" and "seen = take m (due_jobs c now rows)"
  shows "filter (\<lambda>r. cj_id r \<in> cj_id ` {x \<in> set seen. ok x}) (order_by cj_order rows) = filter ok seen"
proof -
  let ?O = "order_by cj_order rows"
  have dO: "distinct (map cj_id ?O)" using assms(1) by (simp add: distinct_order_by)
  have L: "due_jobs c now rows = filter (cj_due c now) ?O" by (simp add: order_by_filter)
  have sub: "set seen \<subseteq> set ?O" using assms(2) set_take_subset [of m "due_jobs c now rows"] by (auto simp: L)
  have "cj_id r \<in> cj_id ` {x \<in> set seen. ok x} \<longleftrightarrow> r \<in> set seen \<and> ok r" if "r \<in> set ?O" for r
    using sub that distinct_map_eq [OF dO] by (auto simp: image_iff)
  then have "filter (\<lambda>r. cj_id r \<in> cj_id ` {x \<in> set seen. ok x}) ?O = filter (\<lambda>r. r \<in> set seen \<and> ok r) ?O"
    by (rule filter_cong [OF refl])
  also have "\<dots> = filter ok (filter (\<lambda>r. r \<in> set seen) (filter (cj_due c now) ?O))"
    using assms(2) set_take_subset [of m "due_jobs c now rows"] by (auto simp: L intro!: filter_cong)
  also have "filter (\<lambda>r. r \<in> set seen) (filter (cj_due c now) ?O) = seen"
    unfolding assms(2) L using dO by (intro filter_take_self) (auto simp: distinct_map)
  finally show ?thesis .
qed

lemma claimed_rows:
  assumes "distinct (map cj_id rows)" and "seen = pick_jobs lib n (due_jobs c now rows)"
    and "rows' = update_where (\<lambda>r. cj_id r \<in> cj_id ` set seen) (settle_job lib c now t) rows"
  shows "order_by cj_order (select_where (\<lambda>r. cj_id r \<in> set (map cj_id (filter (schedule_ok lib) seen))) rows')
    = map (cj_lease c now t) (filter (schedule_ok lib) seen)"
proof -
  let ?ok = "filter (schedule_ok lib) seen" and ?f = "\<lambda>r. if cj_id r \<in> cj_id ` set seen then settle_job lib c now t r else r"
  let ?p = "\<lambda>r. cj_id r \<in> cj_id ` {x \<in> set seen. schedule_ok lib x}"
  have p: "?p (?f r) = ?p r" for r by simp
  have order: "cj_order (?f r) = cj_order r" for r
    by (simp add: cj_order_def settle_job_def cj_dead_def cj_release_def cj_lease_def split: sum.split)
  obtain m where m: "seen = take m (due_jobs c now rows)" using pick_jobs_prefix assms(2) by metis
  have "filter ?p rows' = map ?f (filter ?p rows)"
    unfolding assms(3) update_where_def filter_map comp_def p ..
  then have "order_by cj_order (filter ?p rows') = map ?f (order_by cj_order (filter ?p rows))"
    using order by (simp only: order_by_map)
  also have "order_by cj_order (filter ?p rows) = ?ok"
    by (simp only: order_by_filter filter_prefix_ids [OF assms(1) m])
  also have "map ?f ?ok = map (cj_lease c now t) ?ok"
    by (rule map_cong) (auto simp: settle_job_ok)
  finally show ?thesis by (simp add: select_where_def)
qed

lemma claim_due_jobs_pass:
  assumes "distinct (map cj_id rows)" and "1 \<le> jc_limit c" and "1 \<le> jc_lease_seconds c"
    and "\<not> given_blank (jc_tenant_id c)"
  shows "claim_due_jobs lib c now t rows =
    (let rows1 = cron_cleanup c now rows;
         seen = pick_jobs lib (nat (jc_limit c)) (due_jobs c now rows1)
     in Some (Inr (map (\<lambda>r. job_from_row (cj_lease c now t r)) (filter (schedule_ok lib) seen),
                   update_where (\<lambda>r. cj_id r \<in> cj_id ` set seen) (settle_job lib c now t) rows1)))"
proof -
  have d: "distinct (map cj_id (cron_cleanup c now rows))" using assms(1) by (simp add: cron_cleanup_def)
  show ?thesis
    using assms claim_loop_one_pass [OF assms(3) d, of lib now t "[]"] claimed_rows [OF d refl refl]
    by (simp add: claim_due_jobs_def Let_def comp_def del: set_map set_filter)
qed

subsection \<open>Properties\<close>

text \<open>C22: Claiming scheduled jobs always ends.  The loop asks for more jobs until it has leased as many as
  it may or none is due; jobs with an invalid schedule are buried and do not count, so the number of rounds
  is not bounded by the limit, but every round leaves strictly fewer jobs due.\<close>

theorem cron_claim_terminates: "\<exists>out. claim_due_jobs lib c now t rows = Some out"
proof (cases "1 \<le> jc_lease_seconds c")
  case True
  then obtain ids rows' where "claim_loop lib c now t [] (cron_cleanup c now rows) = Some (ids, rows')"
    using claim_loop_total by force
  then show ?thesis by (simp add: claim_due_jobs_def)
qed (simp add: claim_due_jobs_def)

text \<open>C27: The loop of a claim is one pass over the due jobs in order: with the jobs up to the one that fills
  the limit looked at, those with a valid schedule are leased and returned in the order in which they were
  due, those with an invalid schedule are buried with the reason, and no other job is touched after the
  jobs whose last lease ran out were buried.\<close>

theorem cron_claim_one_pass:
  assumes "distinct (map cj_id rows)" and "1 \<le> jc_limit c" and "1 \<le> jc_lease_seconds c"
    and "\<not> given_blank (jc_tenant_id c)"
  shows "claim_due_jobs lib c now t rows =
    (let rows1 = cron_cleanup c now rows;
         seen = pick_jobs lib (nat (jc_limit c)) (due_jobs c now rows1)
     in Some (Inr (map (\<lambda>r. job_from_row (cj_lease c now t r)) (filter (schedule_ok lib) seen),
                   update_where (\<lambda>r. cj_id r \<in> cj_id ` set seen) (settle_job lib c now t) rows1)))"
  using assms by (rule claim_due_jobs_pass)

definition demo_lib :: schedule_lib where
  "demo_lib = \<lparr>sl_zone_ok = (\<lambda>z t. z = ''UTC''), sl_rrule_ok = (\<lambda>b a z. b = ''FREQ=HOURLY''),
     sl_after = (\<lambda>b a z t. Inr (Some (a + 3600 * ((t - a) div 3600 + 1))))\<rparr>"

definition demo_job :: "string \<Rightarrow> string \<Rightarrow> int \<Rightarrow> cron_row" where
  "demo_job k zone run = new_cron_row (\<lambda>s. s) 0 k \<lparr>ja_tenant_id = ''t'', ja_source_id = ''s'', ja_name = ''n'',
     ja_payload = JObj [], ja_run_at = run, ja_rrule = Some ''FREQ=HOURLY'', ja_timezone = zone,
     ja_max_attempts = 5, ja_idempotency_key = None\<rparr>"

definition demo_jobs :: "cron_row list" where
  "demo_jobs = [demo_job ''a'' ''UTC'' 30, demo_job ''b'' ''Mars'' 10, demo_job ''c'' ''UTC'' 20, demo_job ''d'' ''UTC'' 900]"

definition demo_cron_claim :: cron_claim where
  "demo_cron_claim = \<lparr>jc_limit = 2, jc_lease_owner = ''w'', jc_lease_seconds = 60, jc_tenant_id = None\<rparr>"

theorem cron_claim_one_pass_witness:
  "\<exists>rows'. claim_due_jobs demo_lib demo_cron_claim 100 ''tok'' demo_jobs
     = Some (Inr (map (\<lambda>r. job_from_row (cj_lease demo_cron_claim 100 ''tok'' r)) [demo_job ''c'' ''UTC'' 20, demo_job ''a'' ''UTC'' 30], rows'))
    \<and> map cj_status rows' = [CjLeased, CjDeadLetter, CjLeased, CjPending]"
proof -
  let ?rows1 = "cron_cleanup demo_cron_claim 100 demo_jobs"
  have seen: "pick_jobs demo_lib (nat (jc_limit demo_cron_claim)) (due_jobs demo_cron_claim 100 ?rows1)
      = [demo_job ''b'' ''Mars'' 10, demo_job ''c'' ''UTC'' 20, demo_job ''a'' ''UTC'' 30]" by code_simp
  have ok: "filter (schedule_ok demo_lib) [demo_job ''b'' ''Mars'' 10, demo_job ''c'' ''UTC'' 20, demo_job ''a'' ''UTC'' 30]
      = [demo_job ''c'' ''UTC'' 20, demo_job ''a'' ''UTC'' 30]" by code_simp
  have st: "map cj_status (update_where (\<lambda>r. cj_id r \<in> cj_id ` set [demo_job ''b'' ''Mars'' 10, demo_job ''c'' ''UTC'' 20, demo_job ''a'' ''UTC'' 30])
      (settle_job demo_lib demo_cron_claim 100 ''tok'') ?rows1) = [CjLeased, CjDeadLetter, CjLeased, CjPending]" by code_simp
  have "distinct (map cj_id demo_jobs)" "1 \<le> jc_limit demo_cron_claim" "1 \<le> jc_lease_seconds demo_cron_claim"
    "\<not> given_blank (jc_tenant_id demo_cron_claim)" by code_simp+
  from cron_claim_one_pass [OF this, of demo_lib 100 "''tok''"] show ?thesis
    unfolding Let_def seen ok using st by (intro exI conjI)
qed

end
