(* ===== verification/Cron_Delivery.thy ===== *)
theory Cron_Delivery
  imports Cron_Claims Lease_Port
begin

section \<open>Publishing and cancelling scheduled jobs\<close>

text \<open>
  What \<open>cron/store.py\<close> guarantees over whole runs: the table stays consistent, an occurrence of a job is
  published once, in the transaction that advances the schedule, and a job that was cancelled or has
  finished is never leased or published again.
\<close>

subsection \<open>The invariant of the table\<close>

definition cj_row_ok :: "cron_row \<Rightarrow> bool" where
  "cj_row_ok r \<longleftrightarrow>
     (cj_status r = CjLeased \<longrightarrow> cj_lease_owner r \<noteq> None \<and> cj_lease_until r \<noteq> None \<and> cj_lease_token r \<noteq> None
        \<and> 1 \<le> cj_attempts r)
   \<and> (cj_status r \<noteq> CjLeased \<longrightarrow> cj_lease_owner r = None \<and> cj_lease_until r = None \<and> cj_lease_token r = None)
   \<and> 0 \<le> cj_attempts r"

definition cj_inv :: "cron_row list \<Rightarrow> bool" where
  "cj_inv rows \<longleftrightarrow> distinct (map cj_id rows) \<and> unique_key cj_key rows \<and> (\<forall>r \<in> set rows. cj_row_ok r)"

text \<open>The columns that no operation writes after the insert.\<close>

definition cj_envelope :: "cron_row \<Rightarrow> _" where
  "cj_envelope r = (cj_id r, cj_tenant_id r, cj_source_id r, cj_name r, cj_payload_json r, cj_schedule_anchor_at r,
     cj_rrule r, cj_timezone r, cj_max_attempts r, cj_idempotency_key r, cj_idempotency_fingerprint r, cj_created_at r)"

lemma cj_envelope_updates [simp]:
  "cj_envelope (cj_release st now r) = cj_envelope r" "cj_envelope (cj_dead err now r) = cj_envelope r"
  "cj_envelope (cj_lease c now t r) = cj_envelope r" "cj_envelope (cj_advance nx now r) = cj_envelope r"
  "cj_envelope (settle_job lib c now t r) = cj_envelope r"
  "cj_envelope (r\<lparr>cj_lease_until := u, cj_updated_at := now\<rparr>) = cj_envelope r"
  by (simp_all add: cj_envelope_def cj_release_def cj_dead_def cj_lease_def cj_advance_def settle_job_def
      split: option.split sum.split)

lemma cj_row_ok_updates:
  "cj_row_ok r \<Longrightarrow> st \<noteq> CjLeased \<Longrightarrow> cj_row_ok (cj_release st now r)"
  "cj_row_ok r \<Longrightarrow> cj_row_ok (cj_dead err now r)"
  "cj_row_ok r \<Longrightarrow> cj_row_ok (cj_lease c now t r)"
  "cj_row_ok r \<Longrightarrow> cj_row_ok (cj_advance nx now r)"
  "cj_row_ok r \<Longrightarrow> cj_row_ok (settle_job lib c now t r)"
  by (auto simp: cj_row_ok_def cj_release_def cj_dead_def cj_lease_def cj_advance_def settle_job_def
      split: option.split sum.split)

lemma cj_inv_update:
  assumes "cj_inv rows" and "\<And>r. cj_envelope (f r) = cj_envelope r"
    and "\<And>r. r \<in> set rows \<Longrightarrow> p r \<Longrightarrow> cj_row_ok r \<Longrightarrow> cj_row_ok (f r)"
  shows "cj_inv (update_where p f rows)"
proof -
  have env: "cj_id (f r) = cj_id r" "cj_key (f r) = cj_key r" for r
    using assms(2) [of r] by (auto simp: cj_envelope_def cj_key_def)
  have "\<forall>r \<in> set (update_where p f rows). cj_row_ok r"
    using assms(1,3) by (intro update_where_preserves) (auto simp: cj_inv_def)
  then show ?thesis using assms(1) by (simp add: cj_inv_def env unique_key_update_where)
qed

lemma insert_job_rows:
  "insert_job lib sha now uuid a rows = Inr (res, rows') \<Longrightarrow>
    rows' = rows \<or> cj_insert (new_cron_row sha now uuid a) rows = Inr rows'"
  by (auto simp: insert_job_def insert_new_job_def replay_job_def Let_def rbind_eq_Inr
      split: if_splits option.splits sum.splits)

lemma cj_inv_insert:
  assumes "cj_inv rows" and "insert_job lib sha now uuid a rows = Inr (res, rows')"
  shows "cj_inv rows'"
  using insert_job_rows [OF assms(2)]
proof
  let ?n = "new_cron_row sha now uuid a"
  assume "cj_insert ?n rows = Inr rows'"
  then have rows': "rows' = rows @ [?n]" and free: "\<And>r. r \<in> set rows \<Longrightarrow> cj_id r \<noteq> cj_id ?n \<and> (cj_key ?n \<noteq> None \<longrightarrow> cj_key r \<noteq> cj_key ?n)"
    by (auto simp: cj_insert_def split: if_splits)
  moreover have "cj_row_ok ?n" by (simp add: cj_row_ok_def new_cron_row_def)
  ultimately show ?thesis using assms(1) by (auto simp: cj_inv_def unique_key_append image_iff) metis
qed (use assms(1) in simp)

lemma claim_due_jobs_Inr:
  assumes "claim_due_jobs lib c now t rows = Some (Inr (jobs, rows'))" and "distinct (map cj_id rows)"
  obtains seen :: "cron_row list" where "\<And>r. r \<in> set seen \<Longrightarrow> r \<in> set (cron_cleanup c now rows) \<and> cj_due c now r"
    and "jobs = map (\<lambda>r. job_from_row (cj_lease c now t r)) (filter (schedule_ok lib) seen)"
    and "rows' = update_where (\<lambda>r. cj_id r \<in> cj_id ` set seen) (settle_job lib c now t) (cron_cleanup c now rows)"
proof -
  let ?L = "due_jobs c now (cron_cleanup c now rows)"
  have g: "1 \<le> jc_limit c" "1 \<le> jc_lease_seconds c" "\<not> given_blank (jc_tenant_id c)"
    using assms(1) by (auto simp: claim_due_jobs_def split: if_splits)
  define seen where "seen = pick_jobs lib (nat (jc_limit c)) ?L"
  obtain m where "seen = take m ?L" using pick_jobs_prefix unfolding seen_def by blast
  then have "set seen \<subseteq> set (filter (cj_due c now) (cron_cleanup c now rows))"
    using set_take_subset [of m ?L] by simp
  moreover have "jobs = map (\<lambda>r. job_from_row (cj_lease c now t r)) (filter (schedule_ok lib) seen)
      \<and> rows' = update_where (\<lambda>r. cj_id r \<in> cj_id ` set seen) (settle_job lib c now t) (cron_cleanup c now rows)"
    using assms(1) unfolding claim_due_jobs_pass [OF assms(2) g] Let_def seen_def [symmetric] by simp
  ultimately show thesis by (intro that [of seen]) auto
qed

lemma cj_inv_claim:
  assumes "cj_inv rows" and "claim_due_jobs lib c now t rows = Some (Inr (jobs, rows'))"
  shows "cj_inv rows'"
proof -
  have "cj_inv (cron_cleanup c now rows)"
    unfolding cron_cleanup_def using assms(1) by (rule cj_inv_update) (auto intro: cj_row_ok_updates)
  moreover obtain seen :: "cron_row list" where "rows' = update_where (\<lambda>r. cj_id r \<in> cj_id ` set seen) (settle_job lib c now t) (cron_cleanup c now rows)"
    using claim_due_jobs_Inr [OF assms(2)] assms(1) unfolding cj_inv_def by metis
  ultimately show ?thesis by (auto intro!: cj_inv_update intro: cj_row_ok_updates)
qed

definition cron_inv :: "cron_db \<Rightarrow> bool" where
  "cron_inv db \<longleftrightarrow> cj_inv (cd_jobs db) \<and> ev_inv (cd_events db)"

subsection \<open>What a dispatch does\<close>

lemma held_unique:
  assumes "distinct (map cj_id rows)" and "row \<in> set rows" and "cj_held k t row"
  shows "rowcount (cj_held k t) rows = 1"
proof -
  have "rowcount (cj_held k t) rows = 1 \<longleftrightarrow> (\<exists>r \<in> set rows. cj_held k t r)"
    by (rule rowcount_pk_eq_1 [where k = cj_id]) (use assms(1) in \<open>auto simp: cj_held_def\<close>)
  with assms show ?thesis by blast
qed

lemma dispatch_cases:
  assumes "dispatch_due_event lib sha fired uuid k t rcpt db = Inr (b, db')"
  obtains (refused) "\<not> b" and "db' = db"
  | (published) row e following where "b" and "row \<in> set (cd_jobs db)" and "cj_held k t row"
    and "null_gt (cj_lease_until row) fired"
    and "enqueue sha fired uuid (due_event rcpt row) (cd_events db) = Inr (e, cd_events db')"
    and "next_run_at lib (cj_schedule_anchor_at row) (cj_rrule row) (cj_timezone row) fired = Inr following"
    and "cd_jobs db' = update_where (cj_held k t) (cj_advance following fired) (cd_jobs db)"
proof (cases "fetchone (\<lambda>r. cj_held k t r \<and> null_gt (cj_lease_until r) fired) (cd_jobs db)")
  case None
  with assms show thesis by (intro refused) (auto simp: dispatch_due_event_def split: if_splits)
next
  case (Some row)
  note row = fetchone_SomeD [OF Some]
  from assms Some obtain e evs following where
    "enqueue sha fired uuid (due_event rcpt row) (cd_events db) = Inr (e, evs)"
    "next_run_at lib (cj_schedule_anchor_at row) (cj_rrule row) (cj_timezone row) fired = Inr following"
    "b" "db' = \<lparr>cd_jobs = update_where (cj_held k t) (cj_advance following fired) (cd_jobs db), cd_events = evs\<rparr>"
    by (auto simp: dispatch_due_event_def advance_completed_job_def rbind_eq_Inr split: if_splits)
  with row show thesis by (intro published) auto
qed

lemma cron_inv_dispatch:
  assumes "cron_inv db" and "dispatch_due_event lib sha fired uuid k t rcpt db = Inr (b, db')"
  shows "cron_inv db'"
  using assms(2)
proof (cases rule: dispatch_cases)
  case (published row e following)
  have "cj_inv (cd_jobs db')"
    unfolding published(7) using assms(1) by (intro cj_inv_update) (auto simp: cron_inv_def intro: cj_row_ok_updates)
  then show ?thesis using assms(1) published(5) by (auto simp: cron_inv_def intro: ev_inv_enqueue)
qed (use assms(1) in simp)

text \<open>A worker's attempt to publish: an error rolls everything back.\<close>

definition try_dispatch :: "schedule_lib \<Rightarrow> (string \<Rightarrow> string) \<Rightarrow> int \<times> string \<times> string \<Rightarrow> string \<Rightarrow> string \<Rightarrow> cron_db \<Rightarrow> bool \<times> cron_db" where
  "try_dispatch lib sha a k t db = (case a of (fired, uuid, rcpt) \<Rightarrow>
     (case dispatch_due_event lib sha fired uuid k t rcpt db of Inl _ \<Rightarrow> (False, db) | Inr out \<Rightarrow> out))"

definition cj_holds :: "cron_db \<Rightarrow> string \<Rightarrow> string \<Rightarrow> bool" where
  "cj_holds db k t \<longleftrightarrow> (\<exists>r \<in> set (cd_jobs db). cj_held k t r)"

lemma try_dispatch_cases:
  obtains (refused) "try_dispatch lib sha a k t db = (False, db)"
  | (published) fired uuid rcpt db' where "a = (fired, uuid, rcpt)" and "try_dispatch lib sha a k t db = (True, db')"
    and "dispatch_due_event lib sha fired uuid k t rcpt db = Inr (True, db')"
proof (cases a)
  case (fields fired uuid rcpt)
  show thesis
  proof (cases "dispatch_due_event lib sha fired uuid k t rcpt db")
    case (Inl e)
    then show thesis using fields by (intro refused) (simp add: try_dispatch_def)
  next
    case (Inr out)
    obtain b db' where out: "out = (b, db')" by (cases out)
    with Inr have "dispatch_due_event lib sha fired uuid k t rcpt db = Inr (b, db')" by simp
    then show thesis
      by (cases rule: dispatch_cases) (use Inr out fields in \<open>auto intro: refused published simp: try_dispatch_def\<close>)
  qed
qed

lemma advance_not_held: "\<not> cj_held k t (cj_advance following fired r)"
  by (auto simp: cj_held_def cj_advance_def cj_release_def split: option.splits)

lemma dispatch_releases:
  assumes "cron_inv db" and "dispatch_due_event lib sha fired uuid k t rcpt db = Inr (True, db')"
  shows "\<not> cj_holds db' k t'"
  using assms(2)
proof (cases rule: dispatch_cases)
  case (published row e following)
  have "\<not> cj_held k t' (if cj_held k t s then cj_advance following fired s else s)" if "s \<in> set (cd_jobs db)" for s
  proof (cases "s = row")
    case False
    then have "cj_id s \<noteq> k"
      using that published(2,3) assms(1) distinct_map_eq [of cj_id "cd_jobs db" s row]
      by (auto simp: cron_inv_def cj_inv_def cj_held_def)
    then show ?thesis by (simp add: cj_held_def)
  qed (use published(3) advance_not_held in simp)
  then show ?thesis by (simp add: cj_holds_def published(7) bex_update_where)
qed simp

interpretation cron_lease: lease_port cron_inv cj_holds "\<lambda>_. False" "try_dispatch lib sha"
proof (unfold_locales, goal_cases)
  case (1 s a k t)
  show ?case
    by (cases rule: try_dispatch_cases [of lib sha a k t s]) (use 1 in \<open>auto intro: cron_inv_dispatch\<close>)
next
  case (2 s a k t)
  then show ?case
    by (cases rule: try_dispatch_cases [of lib sha a k t s]) (auto simp: cj_holds_def elim: dispatch_cases)
next
  case (4 s a k t)
  then show ?case by (cases rule: try_dispatch_cases [of lib sha a k t s]) auto
next
  case (5 s a k t t')
  then show ?case
    by (cases rule: try_dispatch_cases [of lib sha a k t s]) (auto dest: dispatch_releases)
next
  case (6 s k' k a t t')
  show ?case
  proof (cases rule: try_dispatch_cases [of lib sha a k t s])
    case (published fired uuid rcpt db')
    from published(3) show ?thesis
    proof (cases rule: dispatch_cases)
      case (published row e following)
      have "cj_held k' t' (if cj_held k t r then cj_advance following fired r else r) = cj_held k' t' r" for r
        using 6(2) by (auto simp: cj_held_def)
      then show ?thesis
        using \<open>try_dispatch lib sha a k t s = (True, db')\<close> by (simp add: cj_holds_def published(7) bex_update_where)
    qed simp
  qed simp
qed simp

subsection \<open>Runs\<close>

datatype cron_op = CrInsert int string cron_args | CrClaim cron_claim int string | CrRenew int int string string
  | CrDispatch "int \<times> string \<times> string" string string | CrCancel int string string string | CrQueue ev_op

inductive cron_step :: "schedule_lib \<Rightarrow> (string \<Rightarrow> string) \<Rightarrow> cron_op \<Rightarrow> cron_db \<Rightarrow> cron_db \<Rightarrow> bool" for lib sha where
  cr_insert: "insert_job lib sha now uuid a (cd_jobs db) = Inr (res, jobs) \<Longrightarrow>
    cron_step lib sha (CrInsert now uuid a) db (db\<lparr>cd_jobs := jobs\<rparr>)"
| cr_claim: "claim_due_jobs lib c now t (cd_jobs db) = Some (Inr (claimed, jobs)) \<Longrightarrow>
    cron_step lib sha (CrClaim c now t) db (db\<lparr>cd_jobs := jobs\<rparr>)"
| cr_renew: "cron_renew_lease now secs k t (cd_jobs db) = Inr (b, jobs) \<Longrightarrow>
    cron_step lib sha (CrRenew now secs k t) db (db\<lparr>cd_jobs := jobs\<rparr>)"
| cr_dispatch: "try_dispatch lib sha a k t db = (b, db') \<Longrightarrow> cron_step lib sha (CrDispatch a k t) db db'"
| cr_cancel: "cancel_scheduled_job now k tn src db = Inr (res, db') \<Longrightarrow> cron_step lib sha (CrCancel now k tn src) db db'"
| cr_queue: "ev_step sha op (cd_events db) evs \<Longrightarrow> cron_step lib sha (CrQueue op) db (db\<lparr>cd_events := evs\<rparr>)"

lemma cancel_rows:
  assumes "cancel_scheduled_job now k tn src db = Inr (res, db')"
  shows "cd_events db' = cd_events db \<and> (cd_jobs db' = cd_jobs db \<or>
    cd_jobs db' = update_where (\<lambda>r. cj_in k tn src r \<and> (cj_status r = CjPending \<or> cj_status r = CjLeased))
      (cj_release CjCancelled now) (cd_jobs db))"
  using assms by (auto simp: cancel_scheduled_job_def rbind_eq_Inr Let_def split: if_splits option.splits)

lemma renew_rows:
  assumes "cron_renew_lease now secs k t rows = Inr (b, rows')"
  shows "rows' = update_where (\<lambda>r. cj_held k t r \<and> null_gt (cj_lease_until r) now)
    (\<lambda>r. r\<lparr>cj_lease_until := Some (now + secs), cj_updated_at := now\<rparr>) rows"
  using assms by (auto simp: cron_renew_lease_def Let_def split: if_splits)

lemma cron_step_inv: "cron_step lib sha op s t \<Longrightarrow> cron_inv s \<Longrightarrow> cron_inv t"
proof (induction rule: cron_step.induct)
  case (cr_renew now secs k t db b jobs)
  then show ?case
    by (auto dest!: renew_rows simp: cron_inv_def cj_row_ok_def cj_held_def intro!: cj_inv_update)
next
  case (cr_dispatch a k t db b db')
  then show ?case using cron_lease.inv_settle [of db lib sha a k t] by simp
next
  case (cr_cancel now k tn src db res db')
  then show ?case
    by (auto dest!: cancel_rows simp: cron_inv_def intro!: cj_inv_update intro: cj_row_ok_updates)
qed (auto simp: cron_inv_def intro: cj_inv_insert cj_inv_claim ev_step_inv)

text \<open>Fired, cancelled and buried jobs are final.\<close>

definition cj_final :: "cron_row \<Rightarrow> bool" where
  "cj_final r \<longleftrightarrow> cj_status r \<in> {CjFired, CjCancelled, CjDeadLetter}"

definition cj_later :: "cron_row \<Rightarrow> cron_row \<Rightarrow> bool" where
  "cj_later r r' \<longleftrightarrow> cj_envelope r' = cj_envelope r \<and> (cj_final r \<longrightarrow> r' = r)"

lemma cj_later_refl [simp]: "cj_later r r"
  by (simp add: cj_later_def)

lemma cj_later_trans: "cj_later r s \<Longrightarrow> cj_later s t \<Longrightarrow> cj_later r t"
  by (auto simp: cj_later_def)

lemma later_update:
  "(\<And>r. cj_envelope (f r) = cj_envelope r) \<Longrightarrow> (\<And>r. r \<in> set rows \<Longrightarrow> p r \<Longrightarrow> \<not> cj_final r) \<Longrightarrow>
    rows_extend cj_later rows (update_where p f rows)"
  by (rule rows_extend_update_where) (auto simp: cj_later_def)

lemma claim_later:
  assumes "cj_inv rows" and "claim_due_jobs lib c now t rows = Some (Inr (jobs, rows'))"
  shows "rows_extend cj_later rows rows'"
proof -
  let ?rows1 = "cron_cleanup c now rows"
  obtain seen :: "cron_row list" where seen: "\<And>r. r \<in> set seen \<Longrightarrow> r \<in> set ?rows1 \<and> cj_due c now r"
    and rows': "rows' = update_where (\<lambda>r. cj_id r \<in> cj_id ` set seen) (settle_job lib c now t) ?rows1"
    using claim_due_jobs_Inr [OF assms(2)] assms(1) unfolding cj_inv_def by metis
  have d: "distinct (map cj_id ?rows1)" using assms(1) by (simp add: cj_inv_def cron_cleanup_def)
  have "rows_extend cj_later rows ?rows1"
    unfolding cron_cleanup_def by (rule later_update) (auto simp: cj_exhausted_def cj_final_def)
  moreover have "rows_extend cj_later ?rows1 rows'"
    unfolding rows'
  proof (rule later_update)
    fix r assume r: "r \<in> set ?rows1" "cj_id r \<in> cj_id ` set seen"
    then obtain x where x: "x \<in> set seen" "cj_id x = cj_id r" by auto
    with seen have "x = r" by (intro distinct_map_eq [OF d _ r(1)]) auto
    with seen [OF x(1)] show "\<not> cj_final r" by (auto simp: cj_due_def cj_claimable_def cj_final_def)
  qed simp
  ultimately show ?thesis by (rule rows_extend_trans) (rule cj_later_trans)
qed

lemma cron_step_later: "cron_step lib sha op s t \<Longrightarrow> cron_inv s \<Longrightarrow> rows_extend cj_later (cd_jobs s) (cd_jobs t)"
proof (induction rule: cron_step.induct)
  case (cr_insert now uuid a db res jobs)
  then show ?case
    by (auto dest!: insert_job_rows simp: cj_insert_def split: if_splits intro!: rows_extend_refl rows_extend_append)
next
  case (cr_renew now secs k t db b jobs)
  then show ?case by (auto dest!: renew_rows intro!: later_update simp: cj_held_def cj_final_def)
next
  case (cr_dispatch a k t db b db')
  show ?case
  proof (cases rule: try_dispatch_cases [of lib sha a k t db])
    case (published fired uuid rcpt db1)
    from published(3) show ?thesis
    proof (cases rule: dispatch_cases)
      case (published row e following)
      then show ?thesis
        using cr_dispatch.hyps \<open>try_dispatch lib sha a k t db = (True, db1)\<close>
        by (auto intro!: later_update simp: cj_held_def cj_final_def)
    qed simp
  qed (use cr_dispatch in \<open>simp add: rows_extend_refl\<close>)
next
  case (cr_cancel now k tn src db res db')
  then show ?case
    by (auto dest!: cancel_rows intro!: later_update rows_extend_refl simp: cj_final_def)
qed (auto simp: cron_inv_def intro: claim_later rows_extend_refl)

lemma steps_cron_later:
  assumes "steps (cron_step lib sha) ops s t" and "cron_inv s"
  shows "rows_extend cj_later (cd_jobs s) (cd_jobs t)"
  using assms
proof (rule steps_preorder [where I = cron_inv])
  show "rows_extend cj_later (cd_jobs s) (cd_jobs s)" for s by (rule rows_extend_refl) simp
  show "rows_extend cj_later (cd_jobs s) (cd_jobs u)"
    if "rows_extend cj_later (cd_jobs s) (cd_jobs t)" "rows_extend cj_later (cd_jobs t) (cd_jobs u)" for s t u
    using that by (rule rows_extend_trans) (rule cj_later_trans)
qed (auto intro: cron_step_inv cron_step_later)

text \<open>A cancellation that found the job leaves it final.\<close>

lemma cancel_final:
  assumes "cron_inv db" and "cancel_scheduled_job now k tn src db = Inr (res, db')" and "res \<noteq> NotFound"
  shows "\<exists>r \<in> set (cd_jobs db'). cj_id r = k \<and> cj_final r"
proof -
  obtain row where f: "fetchone (cj_in k tn src) (cd_jobs db) = Some row"
    using assms(2,3) by (auto simp: cancel_scheduled_job_def rbind_eq_Inr Let_def split: if_splits option.splits)
  note row = fetchone_SomeD [OF f]
  show ?thesis
  proof (cases "cj_final row")
    case True
    then have "db' = db"
      using assms(2) f by (auto simp: cancel_scheduled_job_def rbind_eq_Inr Let_def cj_final_def split: if_splits)
    with True row show ?thesis by (auto simp: cj_in_def)
  next
    case False
    then have "cj_release CjCancelled now row \<in> set (cd_jobs db')"
      using assms(2) f row
      by (cases "cj_status row")
         (auto simp: cancel_scheduled_job_def rbind_eq_Inr Let_def cj_final_def set_update_where split: if_splits)
    moreover have "cj_id (cj_release CjCancelled now row) = k \<and> cj_final (cj_release CjCancelled now row)"
      using row by (simp add: cj_in_def cj_final_def cj_release_def)
    ultimately show ?thesis by blast
  qed
qed

lemma final_not_held:
  assumes "cron_inv db" and "r \<in> set (cd_jobs db)" and "cj_final r"
  shows "\<not> cj_holds db (cj_id r) t"
proof
  assume "cj_holds db (cj_id r) t"
  then obtain x where x: "x \<in> set (cd_jobs db)" "cj_id x = cj_id r" "cj_status x = CjLeased"
    by (auto simp: cj_holds_def cj_held_def)
  have "x = r" by (rule distinct_map_eq [OF _ x(1) assms(2) x(2)]) (use assms(1) in \<open>simp add: cron_inv_def cj_inv_def\<close>)
  with x(3) assms(3) show False by (auto simp: cj_final_def)
qed

lemma final_not_claimed:
  assumes "cron_inv db" and "r \<in> set (cd_jobs db)" and "cj_final r"
    and "claim_due_jobs lib c now t (cd_jobs db) = Some (Inr (jobs, rows'))"
  shows "cj_id r \<notin> job_id ` set jobs"
proof -
  have d: "distinct (map cj_id (cd_jobs db))" using assms(1) by (simp add: cron_inv_def cj_inv_def)
  obtain seen :: "cron_row list" where seen: "\<And>x. x \<in> set seen \<Longrightarrow> x \<in> set (cron_cleanup c now (cd_jobs db)) \<and> cj_due c now x"
    and jobs: "jobs = map (\<lambda>r. job_from_row (cj_lease c now t r)) (filter (schedule_ok lib) seen)"
    using claim_due_jobs_Inr [OF assms(4) d] by metis
  have r: "r \<in> set (cron_cleanup c now (cd_jobs db))"
    using assms(2,3) by (auto simp: cron_cleanup_def set_update_where cj_exhausted_def cj_final_def)
  have "cj_id x \<noteq> cj_id r" if "x \<in> set seen" for x
  proof
    assume "cj_id x = cj_id r"
    with seen [OF that] r d have "x = r" by (intro distinct_map_eq [of cj_id "cron_cleanup c now (cd_jobs db)"]) (auto simp: cron_cleanup_def)
    with seen [OF that] assms(3) show False by (auto simp: cj_due_def cj_claimable_def cj_final_def)
  qed
  then show ?thesis by (force simp: jobs job_from_row_def)
qed

subsection \<open>A concrete job\<close>

definition demo_cron_db :: cron_db where
  "demo_cron_db = \<lparr>cd_jobs = [cj_lease demo_cron_claim 100 ''tok'' (demo_job ''a'' ''UTC'' 30)], cd_events = []\<rparr>"

lemma demo_cron_inv: "cron_inv demo_cron_db"
  by (simp add: cron_inv_def demo_cron_db_def cj_inv_def cj_row_ok_def cj_lease_def demo_job_def new_cron_row_def
      unique_key_def demo_cron_claim_def split: option.split)

definition demo_dispatched :: "bool \<times> cron_db" where
  "demo_dispatched = (case dispatch_due_event demo_lib (\<lambda>s. s) 110 ''u'' ''cron_a'' ''tok'' ''agent'' demo_cron_db of
     Inr out \<Rightarrow> out | Inl _ \<Rightarrow> (False, demo_cron_db))"

lemma demo_dispatch:
  "dispatch_due_event demo_lib (\<lambda>s. s) 110 ''u'' ''cron_a'' ''tok'' ''agent'' demo_cron_db = Inr (True, snd demo_dispatched)"
proof -
  have "(case dispatch_due_event demo_lib (\<lambda>s. s) 110 ''u'' ''cron_a'' ''tok'' ''agent'' demo_cron_db of
      Inr (b, _) \<Rightarrow> b | Inl _ \<Rightarrow> False)" by code_simp
  then show ?thesis by (auto simp: demo_dispatched_def split: sum.splits)
qed

definition demo_cancelled :: "cancellation \<times> cron_db" where
  "demo_cancelled = (case cancel_scheduled_job 105 ''cron_a'' ''t'' ''s'' demo_cron_db of
     Inr out \<Rightarrow> out | Inl _ \<Rightarrow> (NotFound, demo_cron_db))"

lemma demo_cancel: "cancel_scheduled_job 105 ''cron_a'' ''t'' ''s'' demo_cron_db = Inr (Cancelled, snd demo_cancelled)"
proof -
  have "(case cancel_scheduled_job 105 ''cron_a'' ''t'' ''s'' demo_cron_db of
      Inr (out, _) \<Rightarrow> out = Cancelled | Inl _ \<Rightarrow> False)" by code_simp
  then show ?thesis by (auto simp: demo_cancelled_def split: sum.splits)
qed

subsection \<open>Properties\<close>

text \<open>C18: A due job is published exactly once per occurrence, together with the advance of its schedule.
  When a dispatch answers \<open>True\<close>, the job was leased under the given token; the queue has exactly one event
  under the key of the job and its run time, and it is the event of this occurrence; the job waits for the
  next recurrence with its attempts reset, or has fired when there is none; no other job was touched; and
  every further dispatch of the job, under whatever token, is refused until it is claimed again.\<close>

theorem cron_dispatch_publishes:
  assumes "cron_inv db" and "dispatch_due_event lib sha fired uuid k t rcpt db = Inr (True, db')"
  shows "\<exists>row following ev. row \<in> set (cd_jobs db) \<and> cj_held k t row
    \<and> filter (ev_by_key (cj_tenant_id row) (occurrence_key k (cj_run_at row))) (cd_events db') = [ev]
    \<and> event_replay_matches sha (due_event rcpt row) ev
    \<and> next_run_at lib (cj_schedule_anchor_at row) (cj_rrule row) (cj_timezone row) fired = Inr following
    \<and> cd_jobs db' = update_where (cj_held k t) (cj_advance following fired) (cd_jobs db)
    \<and> try_dispatch lib sha again k t' db' = (False, db')"
  using assms(2)
proof (cases rule: dispatch_cases)
  case (published row e following)
  have k: "cj_id row = k" using published(3) by (simp add: cj_held_def)
  have inv: "cron_inv db'" using assms by (rule cron_inv_dispatch)
  obtain ev where ev: "ev \<in> set (cd_events db')" "ev_by_key (cj_tenant_id row) (occurrence_key k (cj_run_at row)) ev"
    "event_replay_matches sha (due_event rcpt row) ev"
    using enqueue_records [OF published(5)] k by (auto simp: ev_recorded_def due_event_def)
  have "distinct (map (\<lambda>r. (ev_tenant_id r, ev_idempotency_key r)) (cd_events db'))"
    using inv by (simp add: cron_inv_def ev_inv_def)
  then have "filter (ev_by_key (cj_tenant_id row) (occurrence_key k (cj_run_at row))) (cd_events db') = [ev]"
    using ev(1,2) by (rule filter_pk [where x = "(cj_tenant_id row, occurrence_key k (cj_run_at row))"]) (auto simp: ev_by_key_def)
  moreover have "try_dispatch lib sha again k t' db' = (False, db')"
    using inv dispatch_releases [OF assms] by (rule cron_lease.settle_stale_pair)
  ultimately show ?thesis using published(2,3,6,7) ev(3) by blast
qed simp

theorem cron_dispatch_publishes_witness:
  "map ev_message_type (cd_events (snd demo_dispatched)) = [''CronJobDue'']
    \<and> map cj_run_at (cd_jobs (snd demo_dispatched)) = [3630]
    \<and> try_dispatch demo_lib (\<lambda>s. s) (111, ''v'', ''agent'') ''cron_a'' ''tok'' (snd demo_dispatched) = (False, snd demo_dispatched)"
proof (intro conjI)
  show "try_dispatch demo_lib (\<lambda>s. s) (111, ''v'', ''agent'') ''cron_a'' ''tok'' (snd demo_dispatched) = (False, snd demo_dispatched)"
    using cron_dispatch_publishes [OF demo_cron_inv demo_dispatch, of "(111, ''v'', ''agent'')" "''tok''"] by blast
qed code_simp+

text \<open>C17: Cancelling is final.  Once a cancellation has found the job, then after anything the store, its
  workers and the event queue do, the job is still in a final state: no claim returns it, and no worker,
  whatever lease token it holds from before, can publish it.\<close>

theorem cancelled_job_never_published:
  assumes "cron_inv db" and "cancel_scheduled_job now k tn src db = Inr (res, db1)" and "res \<noteq> NotFound"
    and "steps (cron_step lib sha) ops db1 db2"
  shows "try_dispatch lib sha a k t db2 = (False, db2)
    \<and> (\<forall>jobs rows'. claim_due_jobs lib c now' t' (cd_jobs db2) = Some (Inr (jobs, rows')) \<longrightarrow> k \<notin> job_id ` set jobs)"
proof -
  have inv1: "cron_inv db1" using cron_step_inv [OF cr_cancel [OF assms(2)] assms(1)] .
  have inv2: "cron_inv db2" using assms(4) inv1 by (rule steps_invariant) (rule cron_step_inv)
  obtain r where r: "r \<in> set (cd_jobs db1)" "cj_id r = k" "cj_final r" using cancel_final [OF assms(1-3)] by blast
  obtain r' where "r' \<in> set (cd_jobs db2)" "cj_later r r'"
    using rows_extend_member [OF steps_cron_later [OF assms(4) inv1] r(1)] by blast
  with r(3) have r2: "r \<in> set (cd_jobs db2)" by (simp add: cj_later_def)
  then show ?thesis
    using inv2 r cron_lease.settle_stale_pair [OF inv2 final_not_held [OF inv2 r2 r(3)]]
      final_not_claimed [OF inv2 r2 r(3)] by auto
qed

theorem cancelled_job_never_published_witness:
  "try_dispatch demo_lib (\<lambda>s. s) (110, ''u'', ''agent'') ''cron_a'' ''tok'' (snd demo_cancelled) = (False, snd demo_cancelled)
    \<and> map cj_status (cd_jobs (snd demo_cancelled)) = [CjCancelled]"
proof
  show "try_dispatch demo_lib (\<lambda>s. s) (110, ''u'', ''agent'') ''cron_a'' ''tok'' (snd demo_cancelled) = (False, snd demo_cancelled)"
    using cancelled_job_never_published [OF demo_cron_inv demo_cancel, of demo_lib "\<lambda>s. s" "[]" "snd demo_cancelled"
      "(110, ''u'', ''agent'')" "''tok''"] by simp
qed code_simp

end
