(* ===== verification/Batching.thy ===== *)
theory Batching
  imports Event_Queue History Python_Text
begin

section \<open>Batching of inbound messages\<close>

text \<open>
  Models \<open>batching/contracts.py\<close>, the rule engine of \<open>batching/rules.py\<close>, \<open>batching/store.py\<close> (tables
  \<open>inbound_batches\<close> and \<open>inbound_batch_messages\<close>, migrations 004, 011 and 015) and the evaluation of a batch
  in \<open>batching/worker.py\<close>.

  The lexical features of a message (\<open>extract_features\<close>: regular expressions and word lists over Cyrillic
  text) are an argument \<open>feat\<close> of the functions that use them; what is proved holds for every such function.
  \<open>payload_json\<close> and \<open>decision_json\<close> are written by \<open>json.dumps\<close> of a dict only; the model keeps the dict.
\<close>

subsection \<open>Dictionaries\<close>

type_synonym dict = "(string \<times> json) list"

definition dict_get :: "dict \<Rightarrow> string \<Rightarrow> json" where
  "dict_get d k = (case map_of d k of None \<Rightarrow> JNull | Some v \<Rightarrow> v)"

text \<open>\<open>d[k] = v\<close>: an existing key keeps its place.\<close>

fun dict_set :: "dict \<Rightarrow> string \<times> json \<Rightarrow> dict" where
  "dict_set [] kv = [kv]"
| "dict_set ((k, v) # d) kv = (if k = fst kv then kv # d else (k, v) # dict_set d kv)"

text \<open>\<open>{**d, k1: v1, \<dots>}\<close>\<close>

definition dict_merge :: "dict \<Rightarrow> dict \<Rightarrow> dict" where
  "dict_merge d new = foldl dict_set d new"

subsection \<open>Contracts\<close>

record inbound_message =
  im_tenant_id :: string
  im_channel :: string
  im_source_id :: string
  im_raw_event_id :: string
  im_text :: "string option"
  im_payload :: dict
  im_message_at :: int
  im_source_event_id :: "string option"

record message_features =
  mf_is_command :: bool
  mf_has_question_mark :: bool
  mf_has_imperative :: bool
  mf_has_explicit_target :: bool
  mf_has_continuation_marker :: bool
  mf_ends_with_continuation_word :: bool
  mf_ends_with_open_punctuation :: bool
  mf_is_short_dependent_phrase :: bool
  mf_gap_s_from_prev :: "int option"

definition default_features :: message_features where
  "default_features = \<lparr>mf_is_command = False, mf_has_question_mark = False, mf_has_imperative = False,
     mf_has_explicit_target = False, mf_has_continuation_marker = False, mf_ends_with_continuation_word = False,
     mf_ends_with_open_punctuation = False, mf_is_short_dependent_phrase = False, mf_gap_s_from_prev = None\<rparr>"

record batch_state =
  bs_batch_id :: string
  bs_tenant_id :: string
  bs_channel :: string
  bs_source_id :: string
  bs_messages :: "dict list"
  bs_features :: "message_features list"
  bs_now :: int
  bs_first_message_at :: int
  bs_last_message_at :: int
  bs_message_count :: int
  bs_quiet_window_s :: int
  bs_max_window_s :: int
  bs_max_count :: int

definition last_features :: "batch_state \<Rightarrow> message_features" where
  "last_features s = (if bs_features s = [] then default_features else last (bs_features s))"

definition quiet_elapsed :: "batch_state \<Rightarrow> bool" where
  "quiet_elapsed s = (bs_now s - bs_last_message_at s \<ge> bs_quiet_window_s s)"

definition max_window_elapsed :: "batch_state \<Rightarrow> bool" where
  "max_window_elapsed s = (bs_now s - bs_first_message_at s \<ge> bs_max_window_s s)"

definition max_count_reached :: "batch_state \<Rightarrow> bool" where
  "max_count_reached s = (bs_message_count s \<ge> bs_max_count s)"

datatype decision_kind = Wait | Flush | ForceFlush

record batch_rule =
  br_name :: string
  br_decision :: decision_kind
  br_weight :: int
  br_reason :: string
  br_predicate :: "batch_state \<Rightarrow> bool"

record batch_decision =
  bd_flush :: bool
  bd_wait_score :: int
  bd_flush_score :: int
  bd_matched_rules :: "string list"
  bd_reasons :: "string list"

subsection \<open>The rules\<close>

definition batch_rule :: "string \<Rightarrow> decision_kind \<Rightarrow> int \<Rightarrow> string \<Rightarrow> (batch_state \<Rightarrow> bool) \<Rightarrow> batch_rule" where
  "batch_rule name d w reason p =
     \<lparr>br_name = name, br_decision = d, br_weight = w, br_reason = reason, br_predicate = p\<rparr>"

definition RULES :: "batch_rule list" where
  "RULES = [
     batch_rule ''immediate_command'' ForceFlush 100 ''command/admin message''
       (\<lambda>s. mf_is_command (last_features s)),
     batch_rule ''max_window_elapsed'' ForceFlush 100 ''max batch window elapsed'' max_window_elapsed,
     batch_rule ''max_count_reached'' ForceFlush 100 ''max message count reached'' max_count_reached,
     batch_rule ''continuation_marker'' Wait 35 ''last message says more is coming''
       (\<lambda>s. mf_has_continuation_marker (last_features s)),
     batch_rule ''continuation_word'' Wait 25 ''last message ends with a continuation word''
       (\<lambda>s. mf_ends_with_continuation_word (last_features s)),
     batch_rule ''open_punctuation'' Wait 20 ''last message ends with open punctuation''
       (\<lambda>s. mf_ends_with_open_punctuation (last_features s)),
     batch_rule ''short_dependent_phrase'' Wait 20 ''last message is a dependent phrase''
       (\<lambda>s. mf_is_short_dependent_phrase (last_features s)),
     batch_rule ''rapid_same_source'' Wait 10 ''messages are arriving rapidly''
       (\<lambda>s. case mf_gap_s_from_prev (last_features s) of None \<Rightarrow> False | Some g \<Rightarrow> g \<le> 1),
     batch_rule ''quiet_window_elapsed'' Flush 45 ''quiet window elapsed'' quiet_elapsed,
     batch_rule ''question'' Flush 15 ''last message looks like a complete question''
       (\<lambda>s. mf_has_question_mark (last_features s)),
     batch_rule ''imperative'' Flush 25 ''last message contains an imperative request''
       (\<lambda>s. mf_has_imperative (last_features s)),
     batch_rule ''explicit_target'' Flush 20 ''last message has an explicit target/session/project''
       (\<lambda>s. mf_has_explicit_target (last_features s))]"

definition total_weight :: "(batch_rule \<Rightarrow> bool) \<Rightarrow> batch_rule list \<Rightarrow> int" where
  "total_weight p rules = sum_list (map br_weight (filter p rules))"

definition decide_batch :: "batch_state option \<Rightarrow> batch_decision" where
  "decide_batch state = (case state of
     None \<Rightarrow> \<lparr>bd_flush = False, bd_wait_score = 0, bd_flush_score = 0, bd_matched_rules = [], bd_reasons = []\<rparr>
   | Some s \<Rightarrow>
       if bs_messages s = []
       then \<lparr>bd_flush = False, bd_wait_score = 0, bd_flush_score = 0, bd_matched_rules = [], bd_reasons = []\<rparr>
       else
         let matched = filter (\<lambda>r. br_predicate r s) RULES;
             wait = total_weight (\<lambda>r. br_decision r = Wait) matched
         in if \<exists>r \<in> set matched. br_decision r = ForceFlush
            then \<lparr>bd_flush = True, bd_wait_score = wait,
                  bd_flush_score = total_weight (\<lambda>r. br_decision r = Flush \<or> br_decision r = ForceFlush) matched,
                  bd_matched_rules = map br_name matched, bd_reasons = map br_reason matched\<rparr>
            else let flush = total_weight (\<lambda>r. br_decision r = Flush) matched
                 in \<lparr>bd_flush = (flush \<ge> wait \<and> quiet_elapsed s), bd_wait_score = wait, bd_flush_score = flush,
                     bd_matched_rules = map br_name matched, bd_reasons = map br_reason matched\<rparr>)"

subsection \<open>Who wrote a message\<close>

definition nested_payload :: "dict \<Rightarrow> dict" where
  "nested_payload payload = (case dict_get payload ''payload'' of JObj d \<Rightarrow> d | _ \<Rightarrow> [])"

text \<open>\<open>payload.get(key)\<close>, then \<open>nested_payload.get(key)\<close>.\<close>

definition either_get :: "dict \<Rightarrow> string \<Rightarrow> json" where
  "either_get payload key = (let v = dict_get payload key in
     if v = JNull then dict_get (nested_payload payload) key else v)"

fun first_present :: "dict \<Rightarrow> string list \<Rightarrow> (string \<times> json) option" where
  "first_present payload [] = None"
| "first_present payload (k # ks) = (let v = either_get payload k in
     if v \<noteq> JNull then Some (k, v) else first_present payload ks)"

definition message_author_id :: "dict \<Rightarrow> string option" where
  "message_author_id payload =
     map_option (\<lambda>(k, v). py_str v) (first_present payload [''user_id'', ''from_user_id'', ''sender_id''])"

text \<open>\<open>s.split()\<close>\<close>

fun split_words :: "string \<Rightarrow> string \<Rightarrow> string list" where
  "split_words word [] = (if word = [] then [] else [word])"
| "split_words word (c # s) =
     (if is_space c then (if word = [] then split_words [] s else word # split_words [] s)
      else split_words (word @ [c]) s)"

definition non_empty_text :: "json \<Rightarrow> string option" where
  "non_empty_text v = (case v of
     JStr s \<Rightarrow> (let normalized = join '' '' (split_words [] s) in if normalized = [] then None else Some normalized)
   | _ \<Rightarrow> None)"

definition json_or :: "json \<Rightarrow> json \<Rightarrow> json" where
  "json_or a b = (if truthy a then a else b)"

fun first_some :: "'a option list \<Rightarrow> 'a option" where
  "first_some [] = None"
| "first_some (None # xs) = first_some xs"
| "first_some (Some x # xs) = Some x"

definition display_name_in :: "dict \<Rightarrow> string option" where
  "display_name_in d =
     first_some (map (\<lambda>k. non_empty_text (dict_get d k)) [''display_name'', ''author_name'', ''sender_name''])"

definition full_name_in :: "dict \<Rightarrow> string option" where
  "full_name_in d =
     (let first_name = non_empty_text (json_or (dict_get d ''first_name'') (dict_get d ''from_first_name''));
          last_name = non_empty_text (json_or (dict_get d ''last_name'') (dict_get d ''from_last_name''));
          full_name = join '' '' (List.map_filter (\<lambda>x. x) [first_name, last_name])
      in if full_name = [] then None else Some full_name)"

definition message_author_display_name :: "dict \<Rightarrow> string option" where
  "message_author_display_name payload =
     (let nested = nested_payload payload
      in first_some [display_name_in payload, display_name_in nested, full_name_in payload, full_name_in nested])"

definition message_author_username :: "dict \<Rightarrow> string option" where
  "message_author_username payload =
     (case first_some (map (\<lambda>d. non_empty_text (json_or (dict_get d ''username'') (dict_get d ''from_username'')))
             [payload, nested_payload payload]) of
        None \<Rightarrow> None
      | Some username \<Rightarrow>
          (let normalized = strip (dropWhile (\<lambda>c. c = CHR ''@'') username)
           in if normalized = [] then None else Some normalized))"

definition participant_identity :: "dict \<Rightarrow> string" where
  "participant_identity message =
     (case first_present message [''user_id'', ''from_user_id'', ''sender_id'', ''username'', ''from_username''] of
        None \<Rightarrow> ''anonymous''
      | Some (k, v) \<Rightarrow> k @ '':'' @ py_str v)"

subsection \<open>Tables\<close>

datatype bt_state = BtCollecting | BtRouted | BtCancelled

record batch_row =
  bt_id :: string
  bt_tenant_id :: string
  bt_channel :: string
  bt_source_id :: string
  bt_status :: bt_state
  bt_first_message_at :: int
  bt_last_message_at :: int
  bt_message_count :: int
  bt_decision_json :: dict
  bt_created_at :: int
  bt_updated_at :: int

record batch_message_row =
  bm_id :: string
  bm_batch_id :: string
  bm_tenant_id :: string
  bm_channel :: string
  bm_source_id :: string
  bm_raw_event_id :: string
  bm_source_event_id :: "string option"
  bm_payload_json :: dict
  bm_message_at :: int
  bm_created_at :: int

record batch_db =
  bb_batches :: "batch_row list"
  bb_messages :: "batch_message_row list"
  bb_history :: "message_row list"
  bb_events :: "event_row list"

text \<open>\<open>PRIMARY KEY(id)\<close> and the partial unique index on collecting batches of \<open>(tenant_id, channel, source_id)\<close>;
  \<open>UNIQUE(tenant_id, source_id, raw_event_id)\<close> and the reference to the batch for messages.\<close>

definition collecting_key :: "batch_row \<Rightarrow> (string \<times> string \<times> string) option" where
  "collecting_key r = (if bt_status r = BtCollecting
     then Some (bt_tenant_id r, bt_channel r, bt_source_id r) else None)"

definition insert_batch :: "batch_row \<Rightarrow> batch_db \<Rightarrow> batch_db result" where
  "insert_batch n db =
     (if \<exists>r \<in> set (bb_batches db). bt_id r = bt_id n \<or> (collecting_key n \<noteq> None \<and> collecting_key r = collecting_key n)
      then Inl IntegrityError else Inr (db\<lparr>bb_batches := bb_batches db @ [n]\<rparr>))"

definition bm_key :: "batch_message_row \<Rightarrow> string \<times> string \<times> string" where
  "bm_key r = (bm_tenant_id r, bm_source_id r, bm_raw_event_id r)"

definition insert_batch_message :: "batch_message_row \<Rightarrow> batch_db \<Rightarrow> batch_db result" where
  "insert_batch_message n db =
     (if (\<exists>r \<in> set (bb_messages db). bm_id r = bm_id n \<or> bm_key r = bm_key n)
         \<or> \<not> (\<exists>b \<in> set (bb_batches db). bt_id b = bm_batch_id n)
      then Inl IntegrityError else Inr (db\<lparr>bb_messages := bb_messages db @ [n]\<rparr>))"

subsection \<open>Appending a message\<close>

definition message_payload :: "inbound_message \<Rightarrow> dict" where
  "message_payload m = dict_merge (im_payload m)
     [(''channel'', JStr (im_channel m)), (''source_id'', JStr (im_source_id m)),
      (''raw_event_id'', JStr (im_raw_event_id m)), (''source_event_id'', opt_str (im_source_event_id m)),
      (''text'', opt_str (im_text m)), (''message_at'', JInt (im_message_at m))]"

definition bm_by_key :: "inbound_message \<Rightarrow> batch_message_row \<Rightarrow> bool" where
  "bm_by_key m r = (bm_tenant_id r = im_tenant_id m \<and> bm_source_id r = im_source_id m
     \<and> bm_raw_event_id r = im_raw_event_id m)"

definition batch_of :: "batch_row list \<Rightarrow> string \<Rightarrow> batch_row option" where
  "batch_of batches k = fetchone (\<lambda>b. bt_id b = k) batches"

text \<open>The join with the batch finds a message only together with its batch.\<close>

definition existing_message :: "inbound_message \<Rightarrow> batch_db \<Rightarrow> (batch_message_row \<times> batch_row) option" where
  "existing_message m db =
     (case fetchone (\<lambda>r. bm_by_key m r \<and> batch_of (bb_batches db) (bm_batch_id r) \<noteq> None) (bb_messages db) of
        None \<Rightarrow> None
      | Some r \<Rightarrow> map_option (\<lambda>b. (r, b)) (batch_of (bb_batches db) (bm_batch_id r)))"

definition inbound_replay_matches :: "inbound_message \<Rightarrow> batch_message_row \<Rightarrow> bool" where
  "inbound_replay_matches m r = (bm_channel r = im_channel m \<and> bm_source_event_id r = im_source_event_id m
     \<and> bm_message_at r = im_message_at m \<and> json_eq (JObj (bm_payload_json r)) (JObj (message_payload m)))"

definition bt_collecting :: "string \<Rightarrow> string \<Rightarrow> string \<Rightarrow> batch_row \<Rightarrow> bool" where
  "bt_collecting tenant channel source b = (bt_tenant_id b = tenant \<and> bt_channel b = channel
     \<and> bt_source_id b = source \<and> bt_status b = BtCollecting)"

text \<open>\<open>ORDER BY updated_at DESC LIMIT 1\<close>; the unique index leaves no ties.\<close>

definition open_batch :: "string \<Rightarrow> string \<Rightarrow> string \<Rightarrow> batch_row list \<Rightarrow> batch_row option" where
  "open_batch tenant channel source batches =
     (case rev (order_by bt_updated_at (select_where (bt_collecting tenant channel source) batches)) of
        [] \<Rightarrow> None | b # _ \<Rightarrow> Some b)"

definition new_batch_row :: "int \<Rightarrow> string \<Rightarrow> inbound_message \<Rightarrow> batch_row" where
  "new_batch_row now uuid m = \<lparr>bt_id = ''ib_'' @ uuid, bt_tenant_id = im_tenant_id m, bt_channel = im_channel m,
     bt_source_id = im_source_id m, bt_status = BtCollecting, bt_first_message_at = im_message_at m,
     bt_last_message_at = im_message_at m, bt_message_count = 0, bt_decision_json = [],
     bt_created_at = now, bt_updated_at = now\<rparr>"

definition new_batch_message :: "int \<Rightarrow> string \<Rightarrow> string \<Rightarrow> inbound_message \<Rightarrow> batch_message_row" where
  "new_batch_message now uuid batch_id m = \<lparr>bm_id = ''ibm_'' @ uuid, bm_batch_id = batch_id,
     bm_tenant_id = im_tenant_id m, bm_channel = im_channel m, bm_source_id = im_source_id m,
     bm_raw_event_id = im_raw_event_id m, bm_source_event_id = im_source_event_id m,
     bm_payload_json = message_payload m, bm_message_at = im_message_at m, bm_created_at = now\<rparr>"

definition inbound_history_args :: "inbound_message \<Rightarrow> message_args" where
  "inbound_history_args m = \<lparr>ha_tenant_id = im_tenant_id m, ha_source_id = im_source_id m,
     ha_channel = im_channel m, ha_direction = ''inbound'',
     ha_text = (case im_text m of None \<Rightarrow> [] | Some t \<Rightarrow> t), ha_source_message_id = im_raw_event_id m,
     ha_occurred_at = im_message_at m, ha_author_id = message_author_id (im_payload m),
     ha_author_username = message_author_username (im_payload m),
     ha_author_display_name = message_author_display_name (im_payload m),
     ha_source_event_id = im_source_event_id m, ha_metadata = None\<rparr>"

definition bt_in :: "string \<Rightarrow> string \<Rightarrow> string \<Rightarrow> batch_row \<Rightarrow> bool" where
  "bt_in k tenant source b = (bt_id b = k \<and> bt_tenant_id b = tenant \<and> bt_source_id b = source)"

definition bm_in :: "string \<Rightarrow> string \<Rightarrow> string \<Rightarrow> batch_message_row \<Rightarrow> bool" where
  "bm_in k tenant source r = (bm_batch_id r = k \<and> bm_tenant_id r = tenant \<and> bm_source_id r = source)"

definition count_message :: "int \<Rightarrow> string \<Rightarrow> inbound_message \<Rightarrow> batch_db \<Rightarrow> batch_db" where
  "count_message now batch_id m db = db\<lparr>bb_batches := update_where (bt_in batch_id (im_tenant_id m) (im_source_id m))
     (\<lambda>b. b\<lparr>bt_last_message_at := max (bt_last_message_at b) (im_message_at m),
           bt_message_count := int (rowcount (bm_in batch_id (im_tenant_id m) (im_source_id m)) (bb_messages db)),
           bt_updated_at := now\<rparr>) (bb_batches db)\<rparr>"

text \<open>The three ids of the new rows are the argument \<open>uuids\<close>.\<close>

definition append_new_message ::
  "int \<Rightarrow> string \<times> string \<times> string \<Rightarrow> inbound_message \<Rightarrow> batch_db \<Rightarrow> (string option \<times> batch_db) result" where
  "append_new_message now uuids m db = (case uuids of (u1, u2, u3) \<Rightarrow>
     rbind (case open_batch (im_tenant_id m) (im_channel m) (im_source_id m) (bb_batches db) of
              Some b \<Rightarrow> Inr (bt_id b, db)
            | None \<Rightarrow> rbind (insert_batch (new_batch_row now u1 m) db) (\<lambda>db'. Inr (''ib_'' @ u1, db'))) (\<lambda>(batch_id, db1).
     rbind (insert_batch_message (new_batch_message now u2 batch_id m) db1) (\<lambda>db2.
     rbind (record_message now u3 (inbound_history_args m) (bb_history db2)) (\<lambda>(_, h).
       Inr (Some batch_id, count_message now batch_id m (db2\<lparr>bb_history := h\<rparr>))))))"

definition append_inbound_message ::
  "int \<Rightarrow> string \<times> string \<times> string \<Rightarrow> inbound_message \<Rightarrow> batch_db \<Rightarrow> (string option \<times> batch_db) result" where
  "append_inbound_message now uuids m db = (case existing_message m db of
     Some (r, b) \<Rightarrow>
       rbind (require_idempotent_replay (inbound_replay_matches m r) ''inbound message'' (im_raw_event_id m) (bm_id r))
         (\<lambda>_. Inr (if bt_status b = BtCollecting then Some (bm_batch_id r) else None, db))
   | None \<Rightarrow> append_new_message now uuids m db)"

subsection \<open>Reading and routing a batch\<close>

fun features_of :: "(dict \<Rightarrow> dict option \<Rightarrow> message_features) \<Rightarrow> dict option \<Rightarrow> dict list \<Rightarrow> message_features list" where
  "features_of feat prev [] = []"
| "features_of feat prev (m # ms) = feat m prev # features_of feat (Some m) ms"

record windows =
  w_quiet :: int
  w_max :: int
  w_count :: int

definition load_state ::
  "(dict \<Rightarrow> dict option \<Rightarrow> message_features) \<Rightarrow> int \<Rightarrow> windows \<Rightarrow> string \<Rightarrow> string \<Rightarrow> string \<Rightarrow> batch_db \<Rightarrow> batch_state option" where
  "load_state feat now w batch_id tenant source db =
     (case fetchone (\<lambda>b. bt_in batch_id tenant source b \<and> bt_status b = BtCollecting) (bb_batches db) of
        None \<Rightarrow> None
      | Some b \<Rightarrow>
          (let messages = map bm_payload_json (order_by (\<lambda>r. (bm_message_at r, bm_created_at r))
                 (select_where (bm_in batch_id tenant source) (bb_messages db)))
           in Some \<lparr>bs_batch_id = batch_id, bs_tenant_id = bt_tenant_id b, bs_channel = bt_channel b,
                bs_source_id = bt_source_id b, bs_messages = messages, bs_features = features_of feat None messages,
                bs_now = now, bs_first_message_at = bt_first_message_at b, bs_last_message_at = bt_last_message_at b,
                bs_message_count = bt_message_count b, bs_quiet_window_s = w_quiet w, bs_max_window_s = w_max w,
                bs_max_count = w_count w\<rparr>))"

definition telemetry :: "batch_decision \<Rightarrow> batch_state option \<Rightarrow> dict" where
  "telemetry d state =
     [(''action'', JStr (if bd_flush d then ''flush'' else ''wait'')), (''wait_score'', JInt (bd_wait_score d)),
      (''flush_score'', JInt (bd_flush_score d)), (''matched_rules'', JArr (map JStr (bd_matched_rules d))),
      (''reasons'', JArr (map JStr (bd_reasons d)))] @
     (case state of None \<Rightarrow> [] | Some s \<Rightarrow>
        [(''message_count'', JInt (bs_message_count s)), (''age_s'', JInt (bs_now s - bs_first_message_at s)),
         (''quiet_age_s'', JInt (bs_now s - bs_last_message_at s)), (''quiet_window_s'', JInt (bs_quiet_window_s s)),
         (''max_window_s'', JInt (bs_max_window_s s)), (''max_count'', JInt (bs_max_count s))])"

definition store_decision ::
  "int \<Rightarrow> string \<Rightarrow> batch_decision \<Rightarrow> string \<Rightarrow> string \<Rightarrow> batch_state option \<Rightarrow> batch_db \<Rightarrow> batch_db" where
  "store_decision now batch_id d tenant source state db = db\<lparr>bb_batches := update_where (bt_in batch_id tenant source)
     (\<lambda>b. b\<lparr>bt_decision_json := telemetry d state, bt_updated_at := now\<rparr>) (bb_batches db)\<rparr>"

definition mark_routed :: "int \<Rightarrow> string \<Rightarrow> string \<Rightarrow> string \<Rightarrow> batch_db \<Rightarrow> bool \<times> batch_db" where
  "mark_routed now batch_id tenant source db =
     (let p = (\<lambda>b. bt_in batch_id tenant source b \<and> bt_status b = BtCollecting)
      in (rowcount p (bb_batches db) > 0,
          db\<lparr>bb_batches := update_where p (\<lambda>b. b\<lparr>bt_status := BtRouted, bt_updated_at := now\<rparr>) (bb_batches db)\<rparr>))"

text \<open>\<open>route_batch\<close>; the event's fields are those of an \<open>enqueue\<close> call.\<close>

definition route_batch ::
  "(string \<Rightarrow> string) \<Rightarrow> int \<Rightarrow> int \<Rightarrow> string \<Rightarrow> string \<Rightarrow> string \<Rightarrow> enqueue_args \<Rightarrow> batch_db \<Rightarrow> (bool \<times> batch_db) result" where
  "route_batch sha now1 now2 uuid batch_id source ev db =
     (let (routed, db1) = mark_routed now1 batch_id (ea_tenant_id ev) source db in
      if routed then rbind (enqueue sha now2 uuid ev (bb_events db1)) (\<lambda>(_, evs). Inr (True, db1\<lparr>bb_events := evs\<rparr>))
      else Inr (False, db1))"

text \<open>The loop over the messages: the participants seen so far and the lines of the text.\<close>

fun batch_lines :: "(string \<times> string) list \<Rightarrow> dict list \<Rightarrow> string list" where
  "batch_lines participants [] = []"
| "batch_lines participants (m # ms) =
     (let text = strip (py_str (json_or (dict_get m ''text'') (JStr []))) in
      if text = [] then batch_lines participants ms
      else
        let identity = participant_identity m;
            fresh = ''participant_'' @ nat_text (length participants + 1);
            reference = (case map_of participants identity of Some r \<Rightarrow> r | None \<Rightarrow> fresh);
            participants' = (if map_of participants identity = None then participants @ [(identity, fresh)] else participants);
            author = (case message_author_username m of
                        Some u \<Rightarrow> CHR ''@'' # u
                      | None \<Rightarrow> (case message_author_display_name m of Some d \<Rightarrow> d | None \<Rightarrow> reference))
        in (author @ '': '' @ text) # batch_lines participants' ms)"

definition batch_payload :: "batch_state \<Rightarrow> dict" where
  "batch_payload s = dict_merge (last (bs_messages s))
     [(''channel'', JStr (bs_channel s)), (''source_id'', JStr (bs_source_id s)),
      (''text'', JStr (join [CHR 0x0A] (batch_lines [] (bs_messages s)))), (''batch_id'', JStr (bs_batch_id s)),
      (''batch_message_count'', JInt (int (length (bs_messages s)))),
      (''batch_messages'', JArr (map JObj (bs_messages s))),
      (''batch_raw_event_ids'', JArr (map (\<lambda>m. dict_get m ''raw_event_id'') (bs_messages s))),
      (''first_message'', JObj (hd (bs_messages s)))]"

subsection \<open>Evaluating a batch\<close>

definition next_flush_deadline :: "int \<Rightarrow> int \<Rightarrow> int \<Rightarrow> int \<Rightarrow> int \<Rightarrow> int" where
  "next_flush_deadline first_at last_at now quiet max_w =
     (let quiet_deadline = last_at + quiet; max_deadline = first_at + max_w in
      if now < quiet_deadline then min quiet_deadline max_deadline
      else if now < max_deadline then max_deadline
      else now)"

definition batch_ready_event :: "string \<Rightarrow> string \<Rightarrow> string \<Rightarrow> batch_state \<Rightarrow> enqueue_args" where
  "batch_ready_event causation recipient message_type s = \<lparr>
     ea_tenant_id = bs_tenant_id s, ea_recipient = recipient, ea_message_type = message_type,
     ea_payload = JObj (batch_payload s), ea_idempotency_key = ''inbound-batch:'' @ bs_batch_id s,
     ea_priority = 100, ea_run_after = None, ea_max_attempts = 5, ea_correlation_id = Some (bs_batch_id s),
     ea_causation_id = Some causation\<rparr>"

definition flush_event :: "string \<Rightarrow> string \<Rightarrow> int \<Rightarrow> batch_state \<Rightarrow> enqueue_args" where
  "flush_event causation recipient run_after s = \<lparr>
     ea_tenant_id = bs_tenant_id s, ea_recipient = recipient, ea_message_type = ''FlushInboundBatch'',
     ea_payload = JObj [(''batch_id'', JStr (bs_batch_id s)), (''source_id'', JStr (bs_source_id s))],
     ea_idempotency_key = ''inbound-batch-flush:'' @ bs_batch_id s @ '':'' @ int_text run_after,
     ea_priority = 200, ea_run_after = Some run_after, ea_max_attempts = 5, ea_correlation_id = None,
     ea_causation_id = Some causation\<rparr>"

record evaluation =
  ev_causation :: string
  ev_in_recipient :: string
  ev_out_recipient :: string
  ev_out_message_type :: string
  ev_windows :: windows

definition schedule_flush ::
  "(string \<Rightarrow> string) \<Rightarrow> int \<Rightarrow> int \<Rightarrow> string \<Rightarrow> evaluation \<Rightarrow> batch_state \<Rightarrow> batch_db \<Rightarrow> batch_db result" where
  "schedule_flush sha now1 now2 uuid e s db =
     (let run_after = next_flush_deadline (bs_first_message_at s) (bs_last_message_at s) now1
            (w_quiet (ev_windows e)) (w_max (ev_windows e))
      in rbind (enqueue sha now2 uuid (flush_event (ev_causation e) (ev_in_recipient e) run_after s) (bb_events db))
           (\<lambda>(_, evs). Inr (db\<lparr>bb_events := evs\<rparr>)))"

text \<open>\<open>_evaluate_and_maybe_flush\<close> with \<open>_flush_batch\<close>.  Every store call is its own transaction: the stored
  decision stays when the following call raises, so the error carries the tables as they are then.  The
  four clock readings are \<open>t1\<close> to \<open>t4\<close>.\<close>

definition evaluate_and_maybe_flush ::
  "(string \<Rightarrow> string) \<Rightarrow> (dict \<Rightarrow> dict option \<Rightarrow> message_features) \<Rightarrow> int \<times> int \<times> int \<times> int \<Rightarrow> string \<Rightarrow> evaluation
    \<Rightarrow> string \<Rightarrow> string \<Rightarrow> string \<Rightarrow> batch_db \<Rightarrow> (py_error \<times> batch_db) + batch_db" where
  "evaluate_and_maybe_flush sha feat ts uuid e batch_id tenant source db = (case ts of (t1, t2, t3, t4) \<Rightarrow>
     (let state = load_state feat t1 (ev_windows e) batch_id tenant source db;
          decision = decide_batch state;
          db1 = store_decision t2 batch_id decision tenant source state db
      in case state of
           None \<Rightarrow> Inr db1
         | Some s \<Rightarrow>
             if bd_flush decision
             then (case route_batch sha t3 t4 uuid batch_id (bs_source_id s)
                          (batch_ready_event (ev_causation e) (ev_out_recipient e) (ev_out_message_type e) s) db1 of
                     Inl err \<Rightarrow> Inl (err, db1)
                   | Inr (_, db2) \<Rightarrow> Inr db2)
             else (case schedule_flush sha t3 t4 uuid e s db1 of
                     Inl err \<Rightarrow> Inl (err, db1)
                   | Inr db2 \<Rightarrow> Inr db2)))"

end
