(* ===== verification/Batching_Refinement.thy ===== *)
theory Batching_Refinement
  imports Batching
begin

section \<open>Batching as a buffer per conversation\<close>

text \<open>
  The contract of the batch store: for every conversation (tenant, channel, source) it is a buffer of the
  messages that wait and the sequence of the batches that were routed.  Appending adds to the buffer,
  routing moves the whole buffer to the end of the routed batches, and nothing else is visible.  The tables
  of \<open>batching/store.py\<close> implement this buffer.
\<close>

subsection \<open>The abstract buffer\<close>

type_synonym conv = "string \<times> string \<times> string"
type_synonym buffer = "conv \<Rightarrow> dict list \<times> dict list list"

datatype buf_act = BufIdle | BufAppend conv dict | BufRoute conv

fun buf_do :: "buf_act \<Rightarrow> buffer \<Rightarrow> buffer" where
  "buf_do BufIdle B = B"
| "buf_do (BufAppend k m) B = B(k := (fst (B k) @ [m], snd (B k)))"
| "buf_do (BufRoute k) B = B(k := ([], snd (B k) @ [fst (B k)]))"

text \<open>All messages of a conversation in the order of their arrival.\<close>

definition stream :: "buffer \<Rightarrow> conv \<Rightarrow> dict list" where
  "stream B k = concat (snd (B k)) @ fst (B k)"

lemma buf_do_stream: "\<exists>new. stream (buf_do a B) k = stream B k @ new"
  by (cases a) (auto simp: stream_def)

lemma buf_do_routed: "\<exists>new. snd (buf_do a B k) = snd (B k) @ new"
  by (cases a) auto

lemma fold_buf_do:
  "(\<exists>new. stream (fold buf_do acts B) k = stream B k @ new) \<and> (\<exists>new. snd (fold buf_do acts B k) = snd (B k) @ new)"
proof (induction acts arbitrary: B)
  case (Cons a acts)
  obtain n1 n2 where "stream (buf_do a B) k = stream B k @ n1" "snd (buf_do a B k) = snd (B k) @ n2"
    using buf_do_stream [of a B k] buf_do_routed [of a B k] by blast
  moreover obtain m1 m2 where "stream (fold buf_do acts (buf_do a B)) k = stream (buf_do a B) k @ m1"
    "snd (fold buf_do acts (buf_do a B) k) = snd (buf_do a B k) @ m2"
    using Cons.IH [of "buf_do a B"] by blast
  ultimately show ?case by simp
qed simp

subsection \<open>The tables as a buffer\<close>

definition bt_key :: "batch_row \<Rightarrow> conv" where
  "bt_key b = (bt_tenant_id b, bt_channel b, bt_source_id b)"

definition im_key :: "inbound_message \<Rightarrow> conv" where
  "im_key m = (im_tenant_id m, im_channel m, im_source_id m)"

definition content :: "batch_message_row list \<Rightarrow> string \<Rightarrow> dict list" where
  "content msgs i = map bm_payload_json (filter (\<lambda>r. bm_batch_id r = i) msgs)"

definition conv_batches :: "batch_db \<Rightarrow> conv \<Rightarrow> batch_row list" where
  "conv_batches db k = filter (\<lambda>b. bt_key b = k) (bb_batches db)"

definition abs_buffer :: "batch_db \<Rightarrow> buffer" where
  "abs_buffer db k =
     (concat (map (\<lambda>b. content (bb_messages db) (bt_id b)) (filter (\<lambda>b. bt_status b = BtCollecting) (conv_batches db k))),
      map (\<lambda>b. content (bb_messages db) (bt_id b)) (filter (\<lambda>b. bt_status b = BtRouted) (conv_batches db k)))"

text \<open>A message belongs to a batch of its own conversation; a batch has as many messages as it says, and at
  least one; only the newest batch of a conversation collects.\<close>

definition bt_inv :: "batch_db \<Rightarrow> bool" where
  "bt_inv db \<longleftrightarrow> distinct (map bt_id (bb_batches db)) \<and> distinct (map bm_id (bb_messages db))
   \<and> distinct (map bm_key (bb_messages db)) \<and> hm_inv (bb_history db) \<and> ev_inv (bb_events db)
   \<and> (\<forall>r \<in> set (bb_messages db). \<exists>b \<in> set (bb_batches db). bt_id b = bm_batch_id r
        \<and> bt_key b = (bm_tenant_id r, bm_channel r, bm_source_id r))
   \<and> (\<forall>b \<in> set (bb_batches db). bt_message_count b = int (length (content (bb_messages db) (bt_id b)))
        \<and> content (bb_messages db) (bt_id b) \<noteq> [])
   \<and> (\<forall>b \<in> set (bb_batches db). \<forall>x \<in> set (butlast (conv_batches db (bt_key b))). bt_status x \<noteq> BtCollecting)"

lemma content_append: "content (msgs @ [r]) i = content msgs i @ (if bm_batch_id r = i then [bm_payload_json r] else [])"
  by (simp add: content_def)

lemma filter_update_where_comm:
  "(\<And>b. p (f b) = p b) \<Longrightarrow> filter p (update_where q f rows) = update_where q f (filter p rows)"
  by (induction rows) auto

lemma map_filter_update:
  "(\<And>b. p (f b) = p b) \<Longrightarrow> (\<And>b. g (f b) = g b) \<Longrightarrow> map g (filter p (update_where q f rows)) = map g (filter p rows)"
  by (induction rows) auto

text \<open>Updates of the other columns of a batch.\<close>

definition same_batch :: "(batch_row \<Rightarrow> batch_row) \<Rightarrow> bool" where
  "same_batch f \<longleftrightarrow> (\<forall>b. bt_id (f b) = bt_id b \<and> bt_key (f b) = bt_key b \<and> bt_status (f b) = bt_status b)"

lemma conv_batches_update:
  "(\<And>b. bt_key (f b) = bt_key b) \<Longrightarrow>
    conv_batches (db\<lparr>bb_batches := update_where q f (bb_batches db)\<rparr>) k = update_where q f (conv_batches db k)"
  unfolding conv_batches_def by (simp add: filter_update_where_comm)

lemma abs_same_batch:
  assumes "same_batch f"
  shows "abs_buffer (db\<lparr>bb_batches := update_where q f (bb_batches db)\<rparr>) = abs_buffer db"
proof
  fix k
  have "map (\<lambda>b. content (bb_messages db) (bt_id b)) (filter (\<lambda>b. bt_status b = st) (update_where q f (conv_batches db k)))
      = map (\<lambda>b. content (bb_messages db) (bt_id b)) (filter (\<lambda>b. bt_status b = st) (conv_batches db k))" for st
    using assms by (intro map_filter_update) (auto simp: same_batch_def)
  then show "abs_buffer (db\<lparr>bb_batches := update_where q f (bb_batches db)\<rparr>) k = abs_buffer db k"
    using assms conv_batches_update [where f = f and q = q and db = db and k = k] by (simp add: abs_buffer_def same_batch_def)
qed

lemma butlast_update_where: "butlast (update_where q f rows) = update_where q f (butlast rows)"
  by (simp add: update_where_def map_butlast)

lemma collecting_last_row:
  assumes "\<forall>x \<in> set (butlast (conv_batches db (bt_key b))). bt_status x \<noteq> BtCollecting"
    and "b \<in> set (bb_batches db)" and "bt_status b = BtCollecting"
  shows "\<exists>R. conv_batches db (bt_key b) = R @ [b] \<and> (\<forall>x \<in> set R. bt_status x \<noteq> BtCollecting)"
proof -
  let ?L = "conv_batches db (bt_key b)"
  have b: "b \<in> set ?L" using assms(2) by (simp add: conv_batches_def)
  then have L: "?L = butlast ?L @ [last ?L]" by (cases ?L rule: rev_cases) auto
  with b assms(1,3) have "b = last ?L" by (metis Un_iff empty_iff empty_set set_ConsD set_append)
  with L assms(1) show ?thesis by metis
qed

lemma collecting_last:
  assumes "bt_inv db" and "b \<in> set (bb_batches db)" and "bt_status b = BtCollecting"
  shows "\<exists>R. conv_batches db (bt_key b) = R @ [b] \<and> (\<forall>x \<in> set R. bt_status x \<noteq> BtCollecting)"
  by (rule collecting_last_row) (use assms in \<open>auto simp: bt_inv_def\<close>)

lemma bt_inv_update:
  assumes "bt_inv db"
    and f: "\<And>b. bt_id (f b) = bt_id b" "\<And>b. bt_key (f b) = bt_key b" "\<And>b. bt_message_count (f b) = bt_message_count b"
      "\<And>b. bt_status (f b) = BtCollecting \<Longrightarrow> bt_status b = BtCollecting"
  shows "bt_inv (db\<lparr>bb_batches := update_where q f (bb_batches db)\<rparr>)"
proof -
  let ?db = "db\<lparr>bb_batches := update_where q f (bb_batches db)\<rparr>"
  have conv: "conv_batches ?db k = update_where q f (conv_batches db k)" for k
    by (rule conv_batches_update) (rule f)
  have "bt_status x \<noteq> BtCollecting" if b: "b \<in> set (bb_batches ?db)" and x: "x \<in> set (butlast (conv_batches ?db (bt_key b)))" for b x
  proof -
    obtain b0 where b0: "b0 \<in> set (bb_batches db)" "bt_key b = bt_key b0" using b f(2) by (auto simp: set_update_where)
    have "\<forall>x \<in> set (butlast (conv_batches db (bt_key b0))). bt_status x \<noteq> BtCollecting"
      using assms(1) b0(1) by (simp add: bt_inv_def)
    then show ?thesis using x f(4) unfolding conv butlast_update_where b0(2) by (auto simp: set_update_where)
  qed
  moreover have "\<forall>b \<in> set (bb_batches ?db). bt_message_count b = int (length (content (bb_messages db) (bt_id b)))
      \<and> content (bb_messages db) (bt_id b) \<noteq> []"
    using assms(1) f by (simp add: ball_update_where bt_inv_def)
  moreover have "\<exists>b \<in> set (bb_batches ?db). bt_id b = bm_batch_id r \<and> bt_key b = (bm_tenant_id r, bm_channel r, bm_source_id r)"
    if "r \<in> set (bb_messages db)" for r
  proof -
    obtain b where "b \<in> set (bb_batches db)" "bt_id b = bm_batch_id r" "bt_key b = (bm_tenant_id r, bm_channel r, bm_source_id r)"
      using assms(1) \<open>r \<in> set (bb_messages db)\<close> by (auto simp: bt_inv_def)
    then show ?thesis by (auto simp: bex_update_where f intro!: bexI [of _ b])
  qed
  ultimately show ?thesis using assms(1) f by (simp add: bt_inv_def)
qed

subsection \<open>Routing\<close>

lemma mark_routed_refines:
  assumes "bt_inv db" and "mark_routed now i tn src db = (routed, db')"
  shows "bt_inv db' \<and> bb_events db' = bb_events db \<and> bb_messages db' = bb_messages db
    \<and> (if routed then \<exists>b \<in> set (bb_batches db). bt_in i tn src b \<and> bt_status b = BtCollecting
          \<and> abs_buffer db' = buf_do (BufRoute (bt_key b)) (abs_buffer db)
       else db' = db)"
proof -
  let ?p = "\<lambda>b. bt_in i tn src b \<and> bt_status b = BtCollecting"
  let ?f = "\<lambda>b. b\<lparr>bt_status := BtRouted, bt_updated_at := now\<rparr>"
  have f: "bt_id (?f b) = bt_id b" "bt_key (?f b) = bt_key b" for b
    by (simp_all add: bt_key_def)
  have db': "db' = db\<lparr>bb_batches := update_where ?p ?f (bb_batches db)\<rparr>" and routed: "routed \<longleftrightarrow> (\<exists>b \<in> set (bb_batches db). ?p b)"
    using assms(2) by (auto simp: mark_routed_def Let_def rowcount_pos)
  have conv: "conv_batches db' k = update_where ?p ?f (conv_batches db k)" for k
    unfolding db' by (rule conv_batches_update) (rule f)
  have inv: "bt_inv db'" unfolding db' using assms(1) by (rule bt_inv_update) (simp_all add: bt_key_def)
  show ?thesis
  proof (cases routed)
    case False
    then have "update_where ?p ?f (bb_batches db) = bb_batches db" using routed by (intro update_where_id) blast
    then show ?thesis using inv False by (simp add: db')
  next
    case True
    then obtain b where b: "b \<in> set (bb_batches db)" "?p b" using routed by blast
    obtain R where R: "conv_batches db (bt_key b) = R @ [b]" "\<forall>x \<in> set R. bt_status x \<noteq> BtCollecting"
      using collecting_last [OF assms(1) b(1)] b(2) by blast
    have mine: "conv_batches db' (bt_key b) = R @ [?f b]"
      using R(2) b(2) by (simp add: conv R(1) update_where_id)
    have other: "conv_batches db' k = conv_batches db k" if "k \<noteq> bt_key b" for k
      unfolding conv
    proof (rule update_where_id)
      fix x assume x: "x \<in> set (conv_batches db k)"
      show "\<not> ?p x"
      proof
        assume "?p x"
        then have "bt_id x = bt_id b" using b(2) by (simp add: bt_in_def)
        then have "x = b"
          using x b(1) assms(1) distinct_map_eq [of bt_id "bb_batches db" x b] by (simp add: conv_batches_def bt_inv_def)
        with x that show False by (simp add: conv_batches_def)
      qed
    qed
    have "abs_buffer db' = buf_do (BufRoute (bt_key b)) (abs_buffer db)"
    proof
      fix k
      show "abs_buffer db' k = buf_do (BufRoute (bt_key b)) (abs_buffer db) k"
      proof (cases "k = bt_key b")
        case True
        have "filter (\<lambda>x. bt_status x = BtCollecting) R = []" using R(2) by (simp add: filter_empty_conv)
        then show ?thesis
          using True mine R(1) b(2) by (simp add: abs_buffer_def db')
      next
        case False
        then show ?thesis using other [OF False] by (simp add: abs_buffer_def db')
      qed
    qed
    then show ?thesis using True inv b by (auto simp: db')
  qed
qed

lemma bt_inv_events: "bt_inv db \<Longrightarrow> ev_inv evs \<Longrightarrow> bt_inv (db\<lparr>bb_events := evs\<rparr>)"
  by (simp add: bt_inv_def conv_batches_def)

lemma abs_events [simp]: "abs_buffer (db\<lparr>bb_events := evs\<rparr>) = abs_buffer db"
  by (simp add: abs_buffer_def conv_batches_def fun_eq_iff)

subsection \<open>Appending\<close>

lemma open_batch_None: "open_batch tn ch src bs = None \<Longrightarrow> b \<in> set bs \<Longrightarrow> \<not> bt_collecting tn ch src b"
proof -
  assume "open_batch tn ch src bs = None" and b: "b \<in> set bs"
  then have "set (rev (order_by bt_updated_at (select_where (bt_collecting tn ch src) bs))) = {}"
    by (cases "rev (order_by bt_updated_at (select_where (bt_collecting tn ch src) bs))") (simp_all add: open_batch_def)
  with b show ?thesis by (auto simp: select_where_def)
qed

lemma open_batch_Some: "open_batch tn ch src bs = Some b \<Longrightarrow> b \<in> set bs \<and> bt_collecting tn ch src b"
proof -
  assume "open_batch tn ch src bs = Some b"
  then have "b \<in> set (rev (order_by bt_updated_at (select_where (bt_collecting tn ch src) bs)))"
    by (cases "rev (order_by bt_updated_at (select_where (bt_collecting tn ch src) bs))") (simp_all add: open_batch_def)
  then show ?thesis by (auto simp: select_where_def)
qed

text \<open>The batch a message goes to: it collects for the message's conversation, and it is there.\<close>

definition batch_for :: "inbound_message \<Rightarrow> string \<Rightarrow> batch_db \<Rightarrow> bool" where
  "batch_for m i db \<longleftrightarrow> (\<exists>b \<in> set (bb_batches db). bt_id b = i \<and> bt_key b = im_key m \<and> bt_status b = BtCollecting)"

text \<open>The invariant while the new message is not yet stored: the new batch may be empty.\<close>

definition bt_inv_but :: "string \<Rightarrow> batch_db \<Rightarrow> bool" where
  "bt_inv_but i db \<longleftrightarrow> distinct (map bt_id (bb_batches db)) \<and> distinct (map bm_id (bb_messages db))
   \<and> distinct (map bm_key (bb_messages db)) \<and> hm_inv (bb_history db) \<and> ev_inv (bb_events db)
   \<and> (\<forall>r \<in> set (bb_messages db). \<exists>b \<in> set (bb_batches db). bt_id b = bm_batch_id r
        \<and> bt_key b = (bm_tenant_id r, bm_channel r, bm_source_id r))
   \<and> (\<forall>b \<in> set (bb_batches db). bt_id b \<noteq> i \<longrightarrow> bt_message_count b = int (length (content (bb_messages db) (bt_id b)))
        \<and> content (bb_messages db) (bt_id b) \<noteq> [])
   \<and> (\<forall>b \<in> set (bb_batches db). \<forall>x \<in> set (butlast (conv_batches db (bt_key b))). bt_status x \<noteq> BtCollecting)"

lemma bt_inv_but: "bt_inv db \<Longrightarrow> bt_inv_but i db"
  by (simp add: bt_inv_def bt_inv_but_def)

lemma content_new:
  "bt_inv db \<Longrightarrow> \<forall>b \<in> set (bb_batches db). bt_id b \<noteq> i \<Longrightarrow> content (bb_messages db) i = []"
  by (force simp: content_def filter_empty_conv bt_inv_def)

lemma insert_batch_refines:
  assumes "bt_inv db" and "insert_batch (new_batch_row now u m) db = Inr db'"
    and none: "open_batch (im_tenant_id m) (im_channel m) (im_source_id m) (bb_batches db) = None"
  shows "bt_inv_but (''ib_'' @ u) db' \<and> batch_for m (''ib_'' @ u) db' \<and> abs_buffer db' = abs_buffer db"
proof -
  let ?n = "new_batch_row now u m"
  have db': "db' = db\<lparr>bb_batches := bb_batches db @ [?n]\<rparr>" and new: "\<forall>b \<in> set (bb_batches db). bt_id b \<noteq> ''ib_'' @ u"
    using assms(2) by (auto simp: insert_batch_def new_batch_row_def split: if_splits)
  have n: "bt_id ?n = ''ib_'' @ u" "bt_key ?n = im_key m" "bt_status ?n = BtCollecting"
    by (simp_all add: new_batch_row_def bt_key_def im_key_def)
  have idle: "bt_status b \<noteq> BtCollecting" if "b \<in> set (conv_batches db (im_key m))" for b
    using open_batch_None [OF none, of b] that by (auto simp: conv_batches_def bt_collecting_def bt_key_def im_key_def)
  have conv: "conv_batches db' k = conv_batches db k @ (if k = im_key m then [?n] else [])" for k
    using n(2) by (simp add: conv_batches_def db')
  have msgs: "bb_messages db' = bb_messages db" by (simp add: db')
  have empty: "content (bb_messages db) (''ib_'' @ u) = []" using content_new [OF assms(1) new] .
  have "abs_buffer db' k = abs_buffer db k" for k
    using empty n idle msgs by (simp add: abs_buffer_def conv)
  moreover have "\<forall>x \<in> set (butlast (conv_batches db' (bt_key b))). bt_status x \<noteq> BtCollecting" if "b \<in> set (bb_batches db')" for b
  proof (cases "bt_key b = im_key m")
    case True
    then show ?thesis using idle by (simp add: conv)
  next
    case False
    then have "b \<in> set (bb_batches db)" using \<open>b \<in> set (bb_batches db')\<close> n(2) by (auto simp: db')
    then show ?thesis using False assms(1) by (simp add: conv bt_inv_def)
  qed
  moreover have "batch_for m (''ib_'' @ u) db'" using n by (auto simp: batch_for_def db')
  ultimately show ?thesis
    using assms(1) new n by (auto simp: bt_inv_but_def bt_inv_def db' fun_eq_iff) 
qed

lemma store_message_refines:
  assumes "bt_inv_but i db" and "batch_for m i db" and "insert_batch_message (new_batch_message now u i m) db = Inr db2"
    and "record_message now u' a (bb_history db2) = Inr (out, h)"
  shows "bt_inv (count_message now i m (db2\<lparr>bb_history := h\<rparr>))
    \<and> abs_buffer (count_message now i m (db2\<lparr>bb_history := h\<rparr>)) = buf_do (BufAppend (im_key m) (message_payload m)) (abs_buffer db)"
proof -
  let ?r = "new_batch_message now u i m"
  have db2: "db2 = db\<lparr>bb_messages := bb_messages db @ [?r]\<rparr>"
    and fresh: "\<forall>r \<in> set (bb_messages db). bm_id r \<noteq> bm_id ?r \<and> bm_key r \<noteq> bm_key ?r"
    using assms(3) by (auto simp: insert_batch_message_def split: if_splits)
  have r: "bm_batch_id ?r = i" "bm_payload_json ?r = message_payload m"
    "(bm_tenant_id ?r, bm_channel ?r, bm_source_id ?r) = im_key m"
    by (simp_all add: new_batch_message_def im_key_def)
  obtain b where b: "b \<in> set (bb_batches db)" "bt_id b = i" "bt_key b = im_key m" "bt_status b = BtCollecting"
    using assms(2) by (auto simp: batch_for_def)
  have d: "distinct (map bt_id (bb_batches db))" using assms(1) by (simp add: bt_inv_but_def)
  have only: "x = b" if "x \<in> set (bb_batches db)" "bt_id x = i" for x
    using that b d distinct_map_eq [of bt_id "bb_batches db" x b] by simp
  let ?f = "\<lambda>x. x\<lparr>bt_last_message_at := max (bt_last_message_at x) (im_message_at m),
      bt_message_count := int (rowcount (bm_in i (im_tenant_id m) (im_source_id m)) (bb_messages db2)), bt_updated_at := now\<rparr>"
  let ?db = "count_message now i m (db2\<lparr>bb_history := h\<rparr>)"
  let ?q = "bt_in i (im_tenant_id m) (im_source_id m)"
  have db: "?db = db2\<lparr>bb_history := h, bb_batches := update_where ?q ?f (bb_batches db)\<rparr>"
    by (simp add: count_message_def db2)
  have msgs: "bb_messages ?db = bb_messages db2" by (simp add: db)
  have fkey: "bt_key (?f x) = bt_key x" for x by (simp add: bt_key_def)
  have conv: "conv_batches ?db k = update_where ?q ?f (conv_batches db k)" for k
    unfolding db conv_batches_def using fkey by (simp add: filter_update_where_comm)
  have mine: "bm_in i (im_tenant_id m) (im_source_id m) r \<longleftrightarrow> bm_batch_id r = i" if row: "r \<in> set (bb_messages db2)" for r
  proof (cases "r = ?r")
    case False
    then obtain b' where "b' \<in> set (bb_batches db)" "bt_id b' = bm_batch_id r"
      "bt_key b' = (bm_tenant_id r, bm_channel r, bm_source_id r)"
      using row assms(1) by (auto simp: bt_inv_but_def db2)
    then show ?thesis using only [of b'] b(3) by (auto simp: bm_in_def bt_key_def im_key_def)
  qed (simp add: bm_in_def new_batch_message_def)
  have count: "int (rowcount (bm_in i (im_tenant_id m) (im_source_id m)) (bb_messages db2)) = int (length (content (bb_messages db2) i))"
    using mine by (simp add: rowcount_def content_def cong: filter_cong)
  have rest: "bt_message_count x = int (length (content (bb_messages db) (bt_id x))) \<and> content (bb_messages db) (bt_id x) \<noteq> []"
    if "x \<in> set (bb_batches db)" "bt_id x \<noteq> i" for x
    using assms(1) that by (simp add: bt_inv_but_def)
  have ok: "bt_message_count y = int (length (content (bb_messages db2) (bt_id y))) \<and> content (bb_messages db2) (bt_id y) \<noteq> []"
    if "x \<in> set (bb_batches db)" "y = (if ?q x then ?f x else x)" for x y
  proof (cases "bt_id x = i")
    case True
    then have "x = b" using only that(1) by blast
    then have "?q x" using b by (simp add: bt_in_def bt_key_def im_key_def)
    then show ?thesis using that(2) True count r(1) by (simp add: db2 content_append)
  next
    case False
    then have "y = x" using that(2) by (simp add: bt_in_def)
    then show ?thesis using False rest [OF that(1) False] r(1) by (simp add: db2 content_append)
  qed
  have "abs_buffer ?db k = buf_do (BufAppend (im_key m) (message_payload m)) (abs_buffer db) k" for k
  proof -
    have st: "map (\<lambda>x. content (bb_messages db2) (bt_id x)) (filter (\<lambda>x. bt_status x = st) (conv_batches ?db k))
        = map (\<lambda>x. content (bb_messages db2) (bt_id x)) (filter (\<lambda>x. bt_status x = st) (conv_batches db k))" for st
      unfolding conv by (rule map_filter_update) simp_all
    have cont: "content (bb_messages db2) (bt_id x) = content (bb_messages db) (bt_id x) @ (if x = b then [message_payload m] else [])"
      if "x \<in> set (conv_batches db k)" for x
    proof -
      have "bt_id x = i \<longleftrightarrow> x = b" using that only [of x] b(2) by (auto simp: conv_batches_def)
      moreover have "bb_messages db2 = bb_messages db @ [?r]" by (simp add: db2)
      ultimately show ?thesis by (simp only: content_append r) auto
    qed
    obtain R where R: "conv_batches db (bt_key b) = R @ [b]" "\<forall>x \<in> set R. bt_status x \<noteq> BtCollecting"
      using collecting_last_row [of db b] assms(1) b by (auto simp: bt_inv_but_def)
    have kept: "map (\<lambda>x. content (bb_messages db2) (bt_id x)) xs = map (\<lambda>x. content (bb_messages db) (bt_id x)) xs"
      if "set xs \<subseteq> set (conv_batches db k)" "b \<notin> set xs" for xs
      using that cont by (intro map_cong) auto
    show ?thesis
    proof (cases "k = im_key m")
      case True
      have no: "filter (\<lambda>x. bt_status x = BtCollecting) R = []" using R(2) by (simp add: filter_empty_conv)
      have "b \<notin> set R" using R(2) b(4) by blast
      then have "map (\<lambda>x. content (bb_messages db2) (bt_id x)) (filter (\<lambda>x. bt_status x = BtRouted) R)
          = map (\<lambda>x. content (bb_messages db) (bt_id x)) (filter (\<lambda>x. bt_status x = BtRouted) R)"
        using True R(1) b(3) by (intro kept) auto
      then show ?thesis
        unfolding abs_buffer_def msgs st using True R(1) no b(3,4) cont [of b] by simp
    next
      case False
      then have "b \<notin> set (conv_batches db k)" using b(3) by (simp add: conv_batches_def)
      then have same: "map (\<lambda>x. content (bb_messages db2) (bt_id x)) (filter p (conv_batches db k))
          = map (\<lambda>x. content (bb_messages db) (bt_id x)) (filter p (conv_batches db k))" for p
        by (intro kept) auto
      show ?thesis unfolding buf_do.simps fun_upd_other [OF False] abs_buffer_def msgs st same ..
    qed
  qed
  moreover have "bt_inv ?db"
    unfolding bt_inv_def
  proof (intro conjI ballI)
    fix y assume "y \<in> set (bb_batches ?db)"
    then obtain x where x: "x \<in> set (bb_batches db)" "y = (if ?q x then ?f x else x)"
      by (auto simp: db update_where_def)
    from ok [OF x] show "bt_message_count y = int (length (content (bb_messages ?db) (bt_id y)))"
      "content (bb_messages ?db) (bt_id y) \<noteq> []" by (simp_all add: msgs)
    fix z assume "z \<in> set (butlast (conv_batches ?db (bt_key y)))"
    moreover have "bt_key y = bt_key x" using x(2) fkey by simp
    ultimately show "bt_status z \<noteq> BtCollecting"
      using assms(1) x(1) unfolding conv butlast_update_where by (auto simp: set_update_where bt_inv_but_def)
  next
    fix r assume "r \<in> set (bb_messages ?db)"
    then have "r \<in> set (bb_messages db) \<or> r = ?r" unfolding msgs by (auto simp: db2)
    then have "\<exists>x \<in> set (bb_batches db). bt_id x = bm_batch_id r \<and> bt_key x = (bm_tenant_id r, bm_channel r, bm_source_id r)"
    proof
      assume "r \<in> set (bb_messages db)"
      then show ?thesis using assms(1) by (simp add: bt_inv_but_def)
    next
      assume "r = ?r"
      then show ?thesis using b(1-3) by (intro bexI [of _ b]) (simp_all add: new_batch_message_def im_key_def)
    qed
    then show "\<exists>x \<in> set (bb_batches ?db). bt_id x = bm_batch_id r \<and> bt_key x = (bm_tenant_id r, bm_channel r, bm_source_id r)"
      by (auto simp: db bex_update_where fkey intro!: bexI)
  next
    have parts: "bb_batches ?db = update_where ?q ?f (bb_batches db)" "bb_messages ?db = bb_messages db @ [?r]"
      "bb_history ?db = h" "bb_events ?db = bb_events db"
      by (simp_all add: db) (simp_all add: db2)
    have inv: "distinct (map bm_id (bb_messages db))" "distinct (map bm_key (bb_messages db))" "hm_inv (bb_history db)"
      "ev_inv (bb_events db)" "bb_history db2 = bb_history db"
      using assms(1) by (simp_all add: bt_inv_but_def db2)
    show "distinct (map bt_id (bb_batches ?db))" unfolding parts using d by simp
    show "distinct (map bm_id (bb_messages ?db))" "distinct (map bm_key (bb_messages ?db))"
      unfolding parts using inv(1,2) fresh by auto
    show "hm_inv (bb_history ?db)" unfolding parts using inv(3,5) assms(4) hm_inv_record by simp
    show "ev_inv (bb_events ?db)" unfolding parts by (rule inv(4))
  qed
  ultimately show ?thesis by (simp add: fun_eq_iff)
qed

text \<open>The message was received before.\<close>

definition received :: "inbound_message \<Rightarrow> batch_db \<Rightarrow> bool" where
  "received m db \<longleftrightarrow> (\<exists>r \<in> set (bb_messages db). bm_by_key m r)"

lemma existing_message_received:
  assumes "bt_inv db"
  shows "existing_message m db = None \<longleftrightarrow> \<not> received m db"
proof -
  have found: "batch_of (bb_batches db) (bm_batch_id r) \<noteq> None" if r: "r \<in> set (bb_messages db)" for r
  proof -
    obtain b where "b \<in> set (bb_batches db)" "bt_id b = bm_batch_id r" using assms r by (auto simp: bt_inv_def)
    then show ?thesis unfolding batch_of_def fetchone_None by blast
  qed
  have "existing_message m db = None \<longleftrightarrow>
      fetchone (\<lambda>r. bm_by_key m r \<and> batch_of (bb_batches db) (bm_batch_id r) \<noteq> None) (bb_messages db) = None"
    using found by (auto simp: existing_message_def split: option.splits dest: fetchone_SomeD)
  also have "\<dots> \<longleftrightarrow> \<not> received m db" using found by (auto simp: fetchone_None received_def)
  finally show ?thesis .
qed

lemma append_refines:
  assumes "bt_inv db" and "append_inbound_message now us m db = Inr (res, db')"
  shows "bt_inv db' \<and> (if received m db then db' = db
    else abs_buffer db' = buf_do (BufAppend (im_key m) (message_payload m)) (abs_buffer db))"
proof (cases "existing_message m db")
  case (Some rb)
  then show ?thesis using assms existing_message_received [OF assms(1), of m]
    by (auto simp: append_inbound_message_def rbind_eq_Inr split: prod.splits)
next
  case None
  obtain u1 u2 u3 where us: "us = (u1, u2, u3)" by (cases us)
  with None assms(2) obtain i db1 db2 out h where
    i: "(case open_batch (im_tenant_id m) (im_channel m) (im_source_id m) (bb_batches db) of
              Some b \<Rightarrow> Inr (bt_id b, db)
            | None \<Rightarrow> rbind (insert_batch (new_batch_row now u1 m) db) (\<lambda>db'. Inr (''ib_'' @ u1, db'))) = Inr (i, db1)"
    and m: "insert_batch_message (new_batch_message now u2 i m) db1 = Inr db2"
    and h: "record_message now u3 (inbound_history_args m) (bb_history db2) = Inr (out, h)"
    and db': "db' = count_message now i m (db2\<lparr>bb_history := h\<rparr>)"
    by (auto simp: append_inbound_message_def append_new_message_def rbind_eq_Inr)
  have "bt_inv_but i db1 \<and> batch_for m i db1 \<and> abs_buffer db1 = abs_buffer db"
  proof (cases "open_batch (im_tenant_id m) (im_channel m) (im_source_id m) (bb_batches db)")
    case None
    then show ?thesis using i insert_batch_refines [OF assms(1)] by (auto simp: rbind_eq_Inr)
  next
    case (Some b)
    then have "batch_for m (bt_id b) db"
      using open_batch_Some [OF Some] by (auto simp: batch_for_def bt_collecting_def bt_key_def im_key_def)
    then show ?thesis using i Some assms(1) by (auto intro: bt_inv_but)
  qed
  then show ?thesis
    using store_message_refines [OF _ _ m h] None existing_message_received [OF assms(1), of m] unfolding db' by auto
qed

subsection \<open>Evaluating\<close>

text \<open>The tables after an evaluation, whether or not it raised.\<close>

definition db_after :: "(py_error \<times> batch_db) + batch_db \<Rightarrow> batch_db" where
  "db_after out = (case out of Inl (e, db) \<Rightarrow> db | Inr db \<Rightarrow> db)"

lemma store_decision_refines:
  assumes "bt_inv db"
  shows "bt_inv (store_decision now i d tn src st db) \<and> abs_buffer (store_decision now i d tn src st db) = abs_buffer db"
  using assms unfolding store_decision_def
  by (intro conjI bt_inv_update abs_same_batch) (auto simp: same_batch_def bt_key_def)

lemma route_refines:
  assumes "bt_inv db" and "route_batch sha n1 n2 u i src ev db = Inr (routed, db')"
  shows "bt_inv db' \<and> (if routed then \<exists>b \<in> set (bb_batches db). bt_in i (ea_tenant_id ev) src b \<and> bt_status b = BtCollecting
      \<and> abs_buffer db' = buf_do (BufRoute (bt_key b)) (abs_buffer db) \<and> ev_recorded sha ev (bb_events db')
    else db' = db)"
proof -
  obtain r db1 where m: "mark_routed n1 i (ea_tenant_id ev) src db = (r, db1)" by (cases "mark_routed n1 i (ea_tenant_id ev) src db")
  note ref = mark_routed_refines [OF assms(1) m]
  show ?thesis
  proof (cases r)
    case True
    then obtain x evs where enq: "enqueue sha n2 u ev (bb_events db1) = Inr (x, evs)"
      and db': "db' = db1\<lparr>bb_events := evs\<rparr>" and "routed"
      using assms(2) m by (auto simp: route_batch_def rbind_eq_Inr)
    have "ev_inv evs" using ref enq by (auto simp: bt_inv_def intro: ev_inv_enqueue)
    then show ?thesis
      using ref True \<open>routed\<close> enqueue_records [OF enq] by (auto simp: db' bt_inv_events)
  next
    case False
    then show ?thesis using assms(2) m ref by (auto simp: route_batch_def)
  qed
qed

lemma evaluate_eq:
  assumes "st = load_state feat t1 (ev_windows e) i tn src db" and "db1 = store_decision t2 i (decide_batch st) tn src st db"
  shows "evaluate_and_maybe_flush sha feat (t1, t2, t3, t4) u e i tn src db = (case st of None \<Rightarrow> Inr db1
      | Some s \<Rightarrow> if bd_flush (decide_batch st)
          then (case route_batch sha t3 t4 u i (bs_source_id s)
                  (batch_ready_event (ev_causation e) (ev_out_recipient e) (ev_out_message_type e) s) db1 of
                  Inl err \<Rightarrow> Inl (err, db1) | Inr (_, db2) \<Rightarrow> Inr db2)
          else (case schedule_flush sha t3 t4 u e s db1 of Inl err \<Rightarrow> Inl (err, db1) | Inr db2 \<Rightarrow> Inr db2))"
  unfolding evaluate_and_maybe_flush_def assms Let_def prod.case ..

lemma evaluate_refines:
  assumes "bt_inv db"
  shows "bt_inv (db_after (evaluate_and_maybe_flush sha feat ts u e i tn src db))
    \<and> (\<exists>act. act \<in> insert BufIdle (range BufRoute)
        \<and> abs_buffer (db_after (evaluate_and_maybe_flush sha feat ts u e i tn src db)) = buf_do act (abs_buffer db))"
proof -
  obtain t1 t2 t3 t4 where ts: "ts = (t1, t2, t3, t4)" by (cases ts)
  define st where "st = load_state feat t1 (ev_windows e) i tn src db"
  define db1 where "db1 = store_decision t2 i (decide_batch st) tn src st db"
  have db1: "bt_inv db1" "abs_buffer db1 = abs_buffer db"
    using store_decision_refines [OF assms] by (simp_all add: db1_def)
  have idle: "\<exists>act. act \<in> insert BufIdle (range BufRoute) \<and> abs_buffer db1 = buf_do act (abs_buffer db)"
    using db1(2) by (intro exI [of _ BufIdle]) simp
  note eval = evaluate_eq [OF st_def db1_def, where sha = sha and ?t3.0 = t3 and ?t4.0 = t4 and u = u, folded ts]
  show ?thesis
  proof (cases st)
    case None
    then show ?thesis using db1(1) idle by (simp add: eval db_after_def)
  next
    case (Some s)
    show ?thesis
    proof (cases "bd_flush (decide_batch st)")
      case True
      let ?ev = "batch_ready_event (ev_causation e) (ev_out_recipient e) (ev_out_message_type e) s"
      let ?route = "route_batch sha t3 t4 u i (bs_source_id s) ?ev db1"
      have eval: "evaluate_and_maybe_flush sha feat ts u e i tn src db =
          (case ?route of Inl err \<Rightarrow> Inl (err, db1) | Inr (_, db2) \<Rightarrow> Inr db2)"
        using Some True by (simp add: eval)
      show ?thesis
      proof (cases ?route)
        case (Inl err)
        then show ?thesis using db1(1) idle by (simp add: eval db_after_def)
      next
        case (Inr out)
        then obtain routed db2 where r: "?route = Inr (routed, db2)" by (cases out) auto
        note ref = route_refines [OF db1(1) r]
        have "\<exists>act. act \<in> insert BufIdle (range BufRoute) \<and> abs_buffer db2 = buf_do act (abs_buffer db)"
        proof (cases routed)
          case True
          then obtain b where "abs_buffer db2 = buf_do (BufRoute (bt_key b)) (abs_buffer db)" using ref db1(2) by auto
          then show ?thesis by (intro exI [of _ "BufRoute (bt_key b)"]) simp
        qed (use ref idle in simp)
        with ref show ?thesis by (simp add: eval r db_after_def)
      qed
    next
      case False
      have eval: "evaluate_and_maybe_flush sha feat ts u e i tn src db =
          (case schedule_flush sha t3 t4 u e s db1 of Inl err \<Rightarrow> Inl (err, db1) | Inr db2 \<Rightarrow> Inr db2)"
        using Some False by (simp add: eval)
      show ?thesis
      proof (cases "schedule_flush sha t3 t4 u e s db1")
        case (Inr db2)
        then obtain x evs ev where "enqueue sha t4 u ev (bb_events db1) = Inr (x, evs)" "db2 = db1\<lparr>bb_events := evs\<rparr>"
          by (auto simp: schedule_flush_def Let_def rbind_eq_Inr)
        moreover from this(1) have "ev_inv evs" using db1(1) by (auto simp: bt_inv_def intro: ev_inv_enqueue)
        ultimately show ?thesis using db1 idle Inr by (auto simp: eval db_after_def bt_inv_events)
      qed (use db1(1) idle in \<open>simp add: eval db_after_def\<close>)
    qed
  qed
qed

subsection \<open>Runs\<close>

datatype batch_op =
    BtAppend int "string \<times> string \<times> string" inbound_message
  | BtEvaluate "int \<times> int \<times> int \<times> int" string evaluation string string string
  | BtQueue ev_op

inductive bt_step :: "(string \<Rightarrow> string) \<Rightarrow> (dict \<Rightarrow> dict option \<Rightarrow> message_features) \<Rightarrow> batch_op \<Rightarrow> batch_db \<Rightarrow> batch_db \<Rightarrow> bool"
  for sha feat where
  bt_append: "append_inbound_message now us m db = Inr (res, db') \<Longrightarrow> bt_step sha feat (BtAppend now us m) db db'"
| bt_evaluate: "bt_step sha feat (BtEvaluate ts u e i tn src) db
      (db_after (evaluate_and_maybe_flush sha feat ts u e i tn src db))"
| bt_queue: "ev_step sha op (bb_events db) evs \<Longrightarrow> bt_step sha feat (BtQueue op) db (db\<lparr>bb_events := evs\<rparr>)"

text \<open>What an operation does to the buffer: a message that was received before is not added again.\<close>

fun op_acts :: "batch_op \<Rightarrow> batch_db \<Rightarrow> buf_act set" where
  "op_acts (BtAppend now us m) db = {if received m db then BufIdle else BufAppend (im_key m) (message_payload m)}"
| "op_acts (BtEvaluate ts u e i tn src) db = insert BufIdle (range BufRoute)"
| "op_acts (BtQueue op) db = {BufIdle}"

lemma bt_step_refines:
  assumes "bt_step sha feat op db db'" and "bt_inv db"
  shows "bt_inv db' \<and> (\<exists>act \<in> op_acts op db. abs_buffer db' = buf_do act (abs_buffer db))"
  using assms
proof (induction rule: bt_step.induct)
  case (bt_append now us m db res db')
  then show ?case using append_refines [OF bt_append.prems bt_append.hyps] by auto
next
  case (bt_evaluate ts u e i tn src db)
  show ?case using evaluate_refines [OF bt_evaluate] unfolding op_acts.simps Bex_def .
next
  case (bt_queue op db evs)
  then have "ev_inv evs" by (auto simp: bt_inv_def intro: ev_step_inv)
  with bt_queue show ?case by (simp add: bt_inv_events)
qed

lemma bt_steps_refine:
  assumes "steps (bt_step sha feat) ops db db'" and "bt_inv db"
  shows "bt_inv db' \<and> (\<exists>acts. abs_buffer db' = fold buf_do acts (abs_buffer db))"
  using assms
proof (induction rule: steps.induct)
  case (steps_Nil s)
  then show ?case by (intro conjI exI [of _ "[]"]) simp_all
next
  case (steps_Cons op s t ops u)
  obtain act where act: "bt_inv t" "abs_buffer t = buf_do act (abs_buffer s)"
    using bt_step_refines [OF steps_Cons.hyps(1) steps_Cons.prems] by blast
  obtain acts where "bt_inv u" "abs_buffer u = fold buf_do acts (abs_buffer t)"
    using steps_Cons.IH [OF act(1)] by blast
  with act show ?case by (intro conjI exI [of _ "act # acts"]) simp_all
qed

subsection \<open>A batch that is due\<close>

lemma dict_get_set [simp]: "dict_get (dict_set d (k, v)) k' = (if k' = k then v else dict_get d k')"
  by (induction d "(k, v)" rule: dict_set.induct) (auto simp: dict_get_def)







subsection \<open>Properties\<close>

definition demo_inbound :: inbound_message where
  "demo_inbound = \<lparr>im_tenant_id = ''t'', im_channel = ''tg'', im_source_id = ''c'', im_raw_event_id = ''r1'',
     im_text = Some ''hi'', im_payload = [], im_message_at = 5, im_source_event_id = None\<rparr>"



definition empty_batch_db :: batch_db where
  "empty_batch_db = \<lparr>bb_batches = [], bb_messages = [], bb_history = [], bb_events = []\<rparr>"

definition demo_collecting :: batch_db where
  "demo_collecting = (case append_inbound_message 5 (''1'', ''2'', ''3'') demo_inbound empty_batch_db of
     Inr (_, db) \<Rightarrow> db | Inl _ \<Rightarrow> empty_batch_db)"

abbreviation demo_feat :: "dict \<Rightarrow> dict option \<Rightarrow> message_features" where
  "demo_feat \<equiv> \<lambda>_ _. default_features"

lemma bt_inv_empty: "bt_inv empty_batch_db"
  by (simp add: bt_inv_def empty_batch_db_def)

lemma demo_append: "append_inbound_message 5 (''1'', ''2'', ''3'') demo_inbound empty_batch_db = Inr (Some ''ib_1'', demo_collecting)"
  by code_simp


text \<open>C6: The tables of the batch store implement the abstract buffer: along every run of appends,
  evaluations and queue operations from consistent tables the messages of a conversation only grow at the
  end, the batches already routed stay, and each further operation does to the buffer what it stands for:
  appending a message that was not received before adds exactly this message to its conversation, a repeated
  one changes nothing, an evaluation routes one conversation's whole buffer or changes nothing, the operations
  of the queue change nothing.\<close>

theorem batching_refines_buffer:
  assumes "steps (bt_step sha feat) ops db db'" and "bt_inv db"
  shows "bt_inv db'
    \<and> (\<exists>new. stream (abs_buffer db') k = stream (abs_buffer db) k @ new)
    \<and> (\<exists>new. snd (abs_buffer db' k) = snd (abs_buffer db k) @ new)
    \<and> (bt_step sha feat op db' db'' \<longrightarrow> (\<exists>act \<in> op_acts op db'. abs_buffer db'' = buf_do act (abs_buffer db')))"
proof -
  obtain acts where acts: "bt_inv db'" "abs_buffer db' = fold buf_do acts (abs_buffer db)"
    using bt_steps_refine [OF assms] by blast
  then show ?thesis
    using fold_buf_do [of acts "abs_buffer db" k] bt_step_refines [of sha feat op db' db''] by auto
qed

theorem batching_refines_buffer_witness:
  "\<exists>act \<in> op_acts (BtAppend 6 (''4'', ''5'', ''6'') demo_inbound) demo_collecting.
     abs_buffer demo_collecting = buf_do act (abs_buffer demo_collecting)"
proof -
  have run: "steps (bt_step (\<lambda>s. s) demo_feat) [BtAppend 5 (''1'', ''2'', ''3'') demo_inbound] empty_batch_db demo_collecting"
    by (rule steps_Cons, rule bt_append [OF demo_append]) (rule steps_Nil)
  have "append_inbound_message 6 (''4'', ''5'', ''6'') demo_inbound demo_collecting = Inr (Some ''ib_1'', demo_collecting)"
    by code_simp
  then have "bt_step (\<lambda>s. s) demo_feat (BtAppend 6 (''4'', ''5'', ''6'') demo_inbound) demo_collecting demo_collecting"
    by (rule bt_append)
  then show ?thesis using batching_refines_buffer [OF run bt_inv_empty] by blast
qed



end
