(* ===== verification/Async_Programs.thy ===== *)
theory Async_Programs
  imports Idempotency
begin

section \<open>Asynchronous programs\<close>

text \<open>
  The workers of the platform are coroutines: between two \<open>await\<close>s a coroutine runs alone, at every
  \<open>await\<close> of a store or queue call other workers (of the same process or of another one) may run, and a
  worker may be stopped there for ever (a crash, or the cancellation of \<open>_LeaseGuard.process\<close> in
  \<open>runtime/worker_loop.py\<close>).  A program is therefore a tree of atomic steps on the shared state: \<open>Await f k\<close>
  performs the step \<open>f\<close> and goes on with the program that \<open>k\<close> gives for the state in which the step was
  performed.  A pool is the shared state together with the programs that are running on it.
\<close>

subsection \<open>Programs\<close>

datatype ('s, 'a) prog = Return 'a | Raise py_error | Await "'s \<Rightarrow> 's" "'s \<Rightarrow> ('s, 'a) prog"

primrec bind :: "('s, 'a) prog \<Rightarrow> ('a \<Rightarrow> ('s, 'b) prog) \<Rightarrow> ('s, 'b) prog" where
  "bind (Return x) c = c x"
| "bind (Raise e) c = Raise e"
| "bind (Await f k) c = Await f (\<lambda>s. bind (k s) c)"

text \<open>\<open>try: p except \<dots>: h\<close>\<close>

primrec catch :: "('s, 'a) prog \<Rightarrow> (py_error \<Rightarrow> ('s, 'a) prog) \<Rightarrow> ('s, 'a) prog" where
  "catch (Return x) h = Return x"
| "catch (Raise e) h = h e"
| "catch (Await f k) h = Await f (\<lambda>s. catch (k s) h)"

text \<open>An awaited store call; a call that raises leaves the state as it was.\<close>

definition call :: "('s \<Rightarrow> 'r \<times> 's) \<Rightarrow> ('s, 'r) prog" where
  "call f = Await (\<lambda>s. snd (f s)) (\<lambda>s. Return (fst (f s)))"

definition call_result :: "('s \<Rightarrow> ('r \<times> 's) result) \<Rightarrow> ('s, 'r) prog" where
  "call_result f = Await (\<lambda>s. case f s of Inl e \<Rightarrow> s | Inr (r, s') \<Rightarrow> s')
     (\<lambda>s. case f s of Inl e \<Rightarrow> Raise e | Inr (r, s') \<Rightarrow> Return r)"

lemma bind_call [simp]: "bind (call f) c = Await (\<lambda>s. snd (f s)) (\<lambda>s. c (fst (f s)))"
  by (simp add: call_def)

lemma bind_assoc: "bind (bind p c) d = bind p (\<lambda>x. bind (c x) d)"
  by (induction p) simp_all

subsection \<open>Undisturbed runs\<close>

primrec run :: "('s, 'a) prog \<Rightarrow> 's \<Rightarrow> 'a result \<times> 's" where
  "run (Return x) s = (Inr x, s)"
| "run (Raise e) s = (Inl e, s)"
| "run (Await f k) s = run (k s) (f s)"

lemma run_bind: "run (bind p c) s = (case run p s of (Inl e, t) \<Rightarrow> (Inl e, t) | (Inr x, t) \<Rightarrow> run (c x) t)"
  by (induction p arbitrary: s) simp_all

lemma run_catch: "run (catch p h) w = (case run p w of (Inl e, v) \<Rightarrow> run (h e) v | (Inr x, v) \<Rightarrow> (Inr x, v))"
  by (induction p arbitrary: w) simp_all

lemma run_call [simp]: "run (call f) s = (Inr (fst (f s)), snd (f s))"
  by (simp add: call_def)

subsection \<open>Pools of programs\<close>

type_synonym 's pool = "'s \<times> ('s, unit) prog list"

datatype ('e, 'x) move = MvEnv 'e | MvStart 'x | MvRun nat | MvStop nat

text \<open>\<open>env\<close> are the steps of everything that is not a worker of the pool; \<open>start\<close> is a step that makes new
  programs (a worker claims a batch).\<close>

inductive pool_step ::
  "('e \<Rightarrow> 's \<Rightarrow> 's \<Rightarrow> bool) \<Rightarrow> ('x \<Rightarrow> 's \<Rightarrow> ('s, unit) prog list \<Rightarrow> 's \<Rightarrow> bool) \<Rightarrow> ('e, 'x) move \<Rightarrow> 's pool \<Rightarrow> 's pool \<Rightarrow> bool"
  for env start where
  pool_env: "env e s t \<Longrightarrow> pool_step env start (MvEnv e) (s, ws) (t, ws)"
| pool_start: "start x s ps t \<Longrightarrow> pool_step env start (MvStart x) (s, ws) (t, ws @ ps)"
| pool_run: "i < length ws \<Longrightarrow> ws ! i = Await f k \<Longrightarrow> pool_step env start (MvRun i) (s, ws) (f s, ws[i := k s])"
| pool_stop: "i < length ws \<Longrightarrow> pool_step env start (MvStop i) (s, ws) (s, ws[i := Return ()])"

inductive_cases pool_stepE: "pool_step env start m (s, ws) (t, vs)"

text \<open>A schedule: every worker of the list makes its next step.\<close>

definition run_at :: "nat \<Rightarrow> 's pool \<Rightarrow> 's pool" where
  "run_at i P = (case snd P ! i of Await f k \<Rightarrow> (f (fst P), (snd P)[i := k (fst P)]) | _ \<Rightarrow> P)"

fun can_run :: "nat list \<Rightarrow> 's pool \<Rightarrow> bool" where
  "can_run [] P = True"
| "can_run (i # is) P = (i < length (snd P) \<and> (case snd P ! i of Await f k \<Rightarrow> True | _ \<Rightarrow> False) \<and> can_run is (run_at i P))"

lemma can_run_steps: "can_run is P \<Longrightarrow> steps (pool_step env start) (map MvRun is) P (fold run_at is P)"
proof (induction "is" P rule: can_run.induct)
  case (2 i "is" P)
  then obtain f k where "snd P ! i = Await f k" "i < length (snd P)" by (auto split: prog.splits)
  then have "pool_step env start (MvRun i) P (run_at i P)"
    using pool_run [of i "snd P" f k env start "fst P"] by (simp add: run_at_def)
  moreover have "steps (pool_step env start) (map MvRun is) (run_at i P) (fold run_at is (run_at i P))" using 2 by simp
  ultimately show ?case by (simp only: list.map fold.simps o_apply) (rule steps_Cons)
qed (simp add: steps_Nil)

lemma steps_snoc_list: "steps st as P Q \<Longrightarrow> steps st bs Q R \<Longrightarrow> steps st (as @ bs) P R"
  by (induction rule: steps.induct) (auto intro: steps_Cons)

subsection \<open>What a program may do\<close>

text \<open>Every worker of the pool is in a mode; in mode \<open>m\<close> it relies on \<open>rely m\<close> of the states in which it is
  scheduled, and its step from \<open>s\<close> to \<open>t\<close> takes it to a mode \<open>n\<close> with \<open>guar m s t n\<close>.\<close>

primrec conforms ::
  "('m \<Rightarrow> 's \<Rightarrow> bool) \<Rightarrow> ('m \<Rightarrow> 's \<Rightarrow> 's \<Rightarrow> 'm \<Rightarrow> bool) \<Rightarrow> ('s, 'a) prog \<Rightarrow> 'm \<Rightarrow> bool" where
  "conforms rely guar (Return x) m = True"
| "conforms rely guar (Raise e) m = True"
| "conforms rely guar (Await f k) m =
     (\<forall>s. rely m s \<longrightarrow> (\<exists>n. guar m s (f s) n \<and> conforms rely guar (k s) n))"

text \<open>A pool keeps an invariant on the state and the modes of its workers, when its workers conform to
  their modes, and the modes account for every step.  A worker that starts may be in any mode.\<close>

locale pool_modes =
  fixes env :: "'e \<Rightarrow> 's \<Rightarrow> 's \<Rightarrow> bool"
    and start :: "'x \<Rightarrow> 's \<Rightarrow> ('s, unit) prog list \<Rightarrow> 's \<Rightarrow> bool"
    and rely :: "'m \<Rightarrow> 's \<Rightarrow> bool"
    and guar :: "'m \<Rightarrow> 's \<Rightarrow> 's \<Rightarrow> 'm \<Rightarrow> bool"
    and inv :: "'s \<Rightarrow> 'm list \<Rightarrow> bool"
  assumes env_inv: "env e s t \<Longrightarrow> inv s ms \<Longrightarrow> inv t ms"
    and start_modes: "start x s ps t \<Longrightarrow> inv s ms \<Longrightarrow> \<exists>ns. inv t (ms @ ns) \<and> list_all2 (conforms rely guar) ps ns"
    and inv_rely: "inv s ms \<Longrightarrow> i < length ms \<Longrightarrow> rely (ms ! i) s"
    and run_inv: "inv s ms \<Longrightarrow> i < length ms \<Longrightarrow> guar (ms ! i) s t n \<Longrightarrow> inv t (ms[i := n])"
begin

definition pool_ok :: "'s pool \<Rightarrow> bool" where
  "pool_ok P \<longleftrightarrow> (\<exists>ms. inv (fst P) ms \<and> list_all2 (conforms rely guar) (snd P) ms)"

lemma pool_step_ok:
  assumes "pool_step env start mv P Q" and "pool_ok P"
  shows "pool_ok Q"
  using assms
proof (induction rule: pool_step.induct)
  case (pool_env e s t ws)
  then show ?case by (auto simp: pool_ok_def intro: env_inv)
next
  case (pool_start x s ps t ws)
  then obtain ms where ms: "inv s ms" "list_all2 (conforms rely guar) ws ms" by (auto simp: pool_ok_def)
  obtain ns where "inv t (ms @ ns)" "list_all2 (conforms rely guar) ps ns" using start_modes [OF pool_start.hyps ms(1)] by auto
  then show ?case using list_all2_appendI [OF ms(2)] by (auto simp: pool_ok_def)
next
  case (pool_run i ws f k s)
  then obtain ms where ms: "inv s ms" "list_all2 (conforms rely guar) ws ms" by (auto simp: pool_ok_def)
  then have i: "i < length ms" and "conforms rely guar (Await f k) (ms ! i)"
    using pool_run.hyps by (auto dest: list_all2_lengthD list_all2_nthD)
  then obtain n where n: "guar (ms ! i) s (f s) n" "conforms rely guar (k s) n"
    using inv_rely [OF ms(1) i] by auto
  have "inv (f s) (ms[i := n])" using run_inv [OF ms(1) i n(1)] .
  moreover have "list_all2 (conforms rely guar) (ws[i := k s]) (ms[i := n])"
    using ms(2) n(2) by (intro list_all2_update_cong) auto
  ultimately show ?case by (auto simp: pool_ok_def)
next
  case (pool_stop i ws s)
  then obtain ms where ms: "inv s ms" "list_all2 (conforms rely guar) ws ms" by (auto simp: pool_ok_def)
  then have "list_all2 (conforms rely guar) (ws[i := Return ()]) (ms[i := ms ! i])"
    by (intro list_all2_update_cong) auto
  then show ?case using ms(1) by (auto simp: pool_ok_def)
qed

lemma pool_steps_ok: "steps (pool_step env start) mvs P Q \<Longrightarrow> pool_ok P \<Longrightarrow> pool_ok Q"
  by (induction rule: steps.induct) (auto intro: pool_step_ok)

lemma empty_pool_ok: "inv s [] \<Longrightarrow> pool_ok (s, [])"
  by (auto simp: pool_ok_def)

theorem empty_pool_inv:
  assumes "steps (pool_step env start) mvs (s, []) (t, ws)" and "inv s []"
  shows "\<exists>ms. inv t ms"
  using pool_steps_ok [OF assms(1) empty_pool_ok [OF assms(2)]] by (auto simp: pool_ok_def)

end

text \<open>The usual case: every worker starts in one mode.\<close>

locale pool_invariant =
  fixes env :: "'e \<Rightarrow> 's \<Rightarrow> 's \<Rightarrow> bool"
    and start :: "'x \<Rightarrow> 's \<Rightarrow> ('s, unit) prog list \<Rightarrow> 's \<Rightarrow> bool"
    and rely :: "'m \<Rightarrow> 's \<Rightarrow> bool"
    and guar :: "'m \<Rightarrow> 's \<Rightarrow> 's \<Rightarrow> 'm \<Rightarrow> bool"
    and inv :: "'s \<Rightarrow> 'm list \<Rightarrow> bool"
    and idle :: 'm
  assumes env_keeps: "env e s t \<Longrightarrow> inv s ms \<Longrightarrow> inv t ms"
    and start_inv: "start x s ps t \<Longrightarrow> inv s ms \<Longrightarrow> inv t (ms @ replicate (length ps) idle)"
    and start_conforms: "start x s ps t \<Longrightarrow> p \<in> set ps \<Longrightarrow> conforms rely guar p idle"
    and rely_holds: "inv s ms \<Longrightarrow> i < length ms \<Longrightarrow> rely (ms ! i) s"
    and run_keeps: "inv s ms \<Longrightarrow> i < length ms \<Longrightarrow> guar (ms ! i) s t n \<Longrightarrow> inv t (ms[i := n])"

sublocale pool_invariant \<subseteq> pool_modes env start rely guar inv
proof
  show "\<exists>ns. inv t (ms @ ns) \<and> list_all2 (conforms rely guar) ps ns" if "start x s ps t" "inv s ms" for x s ps t ms
    using start_inv [OF that] start_conforms [OF that(1)]
    by (intro exI [of _ "replicate (length ps) idle"]) (auto simp: list_all2_conv_all_nth)
qed (fact env_keeps rely_holds run_keeps)+

end
