(* ===== verification/Action_Worker.thy ===== *)
theory Action_Worker
  imports Async_Programs Actions Event_Queue Python_Text
begin

section \<open>The action worker\<close>

text \<open>
  Models \<open>actions/worker.py\<close>, the registry of \<open>actions/registry.py\<close>, \<open>ActionRecord\<close> and
  \<open>ActionExecutionResult\<close> of \<open>actions/contracts.py\<close> and \<open>row_to_action\<close> of \<open>actions/sqlite.py\<close>: a worker
  takes the events of the queue \<open>actions\<close> and starts the external effect of the action they name.

  The world of the worker is the action table, the event queue, the clock and the effects that were started
  so far: \<open>aw_effects\<close> has one entry per call of an executor.  What an executor does is not code of the
  platform: its outcome is the argument \<open>exec\<close>, an arbitrary function, and \<open>registry\<close> says for which kinds there is an
  executor.  Every awaited call is one atomic step of the program (\<open>Async_Programs\<close>).
\<close>

subsection \<open>Contracts\<close>

record action_record =
  ar_id :: string
  ar_tenant_id :: string
  ar_source_id :: string
  ar_kind :: string
  ar_payload :: json
  ar_status :: action_state
  ar_approval_policy :: string
  ar_run_id :: "string option"
  ar_source_event_id :: "string option"
  ar_idempotency_key :: "string option"
  ar_approved_by :: "string option"
  ar_last_error :: "string option"

definition row_to_action :: "action_row \<Rightarrow> action_record" where
  "row_to_action r = \<lparr>ar_id = ac_id r, ar_tenant_id = ac_tenant_id r, ar_source_id = ac_source_id r,
     ar_kind = ac_kind r, ar_payload = (case ac_payload_json r of Encoded v \<Rightarrow> v | Raw t \<Rightarrow> JObj []),
     ar_status = ac_status r, ar_approval_policy = ac_approval_policy r, ar_run_id = ac_run_id r,
     ar_source_event_id = ac_source_event_id r, ar_idempotency_key = ac_idempotency_key r,
     ar_approved_by = ac_approved_by r, ar_last_error = ac_last_error r\<rparr>"

text \<open>What an executor may hand back, before it is validated: any values in the fields of an
  \<open>ActionExecutionResult\<close>, or another object.\<close>

record execution_value =
  xv_result :: json
  xv_status :: string
  xv_error :: json
  xv_retry_after_s :: json

text \<open>The texts of the exceptions are \<open>f"{type(exc).__name__}: {exc}"\<close>.\<close>

datatype exec_outcome =
    ExecReturned execution_value
  | ExecOtherObject
  | ExecNotStarted string
  | ExecRaised string

record execution_result =
  xr_result :: json
  xr_status :: string
  xr_error :: "string option"
  xr_retry_after_s :: "int option"

definition validate_action_execution_result :: "execution_value \<Rightarrow> execution_result result" where
  "validate_action_execution_result v =
     (if xv_status v \<notin> set [''queued'', ''executed'', ''permanent_failure'', ''retryable_failure'']
      then Inl (ValueError (''unsupported action result status: '' @ repr_str (xv_status v)))
      else case xv_result v of
        JObj kvs \<Rightarrow>
          rbind (case xv_error v of JNull \<Rightarrow> Inr None | JStr e \<Rightarrow> Inr (Some e)
                 | _ \<Rightarrow> Inl (TypeError ''action result error must be a string or None'')) (\<lambda>err.
          rbind (case xv_retry_after_s v of JNull \<Rightarrow> Inr None
                 | JInt i \<Rightarrow> if i < 0 then Inl (ValueError ''action result retry_after_s must be a non-negative integer or None'')
                             else Inr (Some i)
                 | _ \<Rightarrow> Inl (ValueError ''action result retry_after_s must be a non-negative integer or None'')) (\<lambda>retry.
            Inr \<lparr>xr_result = JObj kvs, xr_status = xv_status v, xr_error = err, xr_retry_after_s = retry\<rparr>))
      | _ \<Rightarrow> Inl (TypeError ''action result payload must be a dictionary''))"

subsection \<open>The world and its calls\<close>

record action_world =
  aw_clock :: int
  aw_actions :: "action_row list"
  aw_events :: "event_row list"
  aw_effects :: "action_record list"

type_synonym 'a action_prog = "(action_world, 'a) prog"

definition store_get :: "string \<Rightarrow> string \<Rightarrow> string \<Rightarrow> action_record option action_prog" where
  "store_get k tenant source = call (\<lambda>s. (map_option row_to_action (get_action k tenant source (aw_actions s)), s))"

definition store_change :: "action_change \<Rightarrow> string \<Rightarrow> string \<Rightarrow> string \<Rightarrow> bool action_prog" where
  "store_change ch k tenant source = call (\<lambda>s.
     (let (b, rows) = change_action ch (aw_clock s) k tenant source (aw_actions s) in (b, s\<lparr>aw_actions := rows\<rparr>)))"

text \<open>\<open>lease_token = NULL\<close> holds for no row.\<close>

definition queue_done :: "queue_event \<Rightarrow> bool action_prog" where
  "queue_done e = call (\<lambda>s. case qe_lease_token e of
       None \<Rightarrow> (False, s)
     | Some t \<Rightarrow> let (b, evs) = mark_done (aw_clock s) (qe_id e) t (aw_events s) in (b, s\<lparr>aw_events := evs\<rparr>))"

text \<open>\<open>run_after\<close> is \<open>int(time.time()) + delay\<close>.\<close>

definition queue_retry :: "queue_event \<Rightarrow> int \<Rightarrow> string \<Rightarrow> ev_state option action_prog" where
  "queue_retry e delay err = call (\<lambda>s. case qe_lease_token e of
       None \<Rightarrow> (None, s)
     | Some t \<Rightarrow> let (st, evs) = mark_retry (aw_clock s) (aw_clock s + delay) err (qe_id e) t (aw_events s)
                 in (st, s\<lparr>aw_events := evs\<rparr>))"

definition execute_effect :: "(action_record \<Rightarrow> exec_outcome) \<Rightarrow> action_record \<Rightarrow> exec_outcome action_prog" where
  "execute_effect exec a = call (\<lambda>s. (exec a, s\<lparr>aw_effects := aw_effects s @ [a]\<rparr>))"

subsection \<open>Processing one event\<close>

definition finish :: "queue_event \<Rightarrow> unit action_prog" where
  "finish e = bind (queue_done e) (\<lambda>_. Return ())"

definition terminal_status :: "action_state \<Rightarrow> bool" where
  "terminal_status st = (st \<in> set [ActExecuted, ActFailed, ActDenied, ActCancelled, ActUncertain])"

definition status_text :: "action_state \<Rightarrow> string" where
  "status_text st = (case st of ActPending \<Rightarrow> ''pending'' | ActApproved \<Rightarrow> ''approved'' | ActDenied \<Rightarrow> ''denied''
     | ActQueued \<Rightarrow> ''queued'' | ActExecuting \<Rightarrow> ''executing'' | ActExecuted \<Rightarrow> ''executed''
     | ActFailed \<Rightarrow> ''failed'' | ActCancelled \<Rightarrow> ''cancelled'' | ActUncertain \<Rightarrow> ''uncertain'')"

text \<open>What follows a status change that found the action in another state.\<close>

definition finish_or_raise :: "queue_event \<Rightarrow> string \<Rightarrow> string \<Rightarrow> string \<Rightarrow> string \<Rightarrow> unit action_prog" where
  "finish_or_raise e msg k tenant source = bind (store_get k tenant source) (\<lambda>current. case current of
     None \<Rightarrow> finish e
   | Some a \<Rightarrow> if terminal_status (ar_status a) then finish e
              else Raise (RuntimeError (msg @ repr_str (status_text (ar_status a)))))"

definition retry_action ::
  "queue_event \<Rightarrow> string \<Rightarrow> string \<Rightarrow> string \<Rightarrow> int \<Rightarrow> unit action_prog" where
  "retry_action e k source err retry_after_s =
     (let tenant = qe_tenant_id e in
      if qe_attempts e \<ge> qe_max_attempts e
      then bind (store_change (ChFailed err) k tenant source) (\<lambda>failed.
             if \<not> failed then finish_or_raise e (''action '' @ k @ '' could not be failed from '') k tenant source
             else bind (queue_retry e retry_after_s err) (\<lambda>_. Return ()))
      else bind (store_change (ChRetryable err) k tenant source) (\<lambda>retryable.
             if \<not> retryable
             then finish_or_raise e (''action '' @ k @ '' could not be moved to retryable state from '') k tenant source
             else bind (queue_retry e retry_after_s err) (\<lambda>st.
                    if st = Some EvDeadLetter
                    then bind (store_change (ChFailed err) k tenant source) (\<lambda>_. Return ())
                    else Return ())))"

definition error_or :: "string option \<Rightarrow> string \<Rightarrow> string" where
  "error_or err dflt = (case err of None \<Rightarrow> dflt | Some t \<Rightarrow> if t = [] then dflt else t)"

definition apply_action_result ::
  "queue_event \<Rightarrow> string \<Rightarrow> string \<Rightarrow> execution_result \<Rightarrow> int \<Rightarrow> unit action_prog" where
  "apply_action_result e k source r retry_backoff_s =
     (let tenant = qe_tenant_id e in
      if xr_status r = ''queued''
      then bind (store_change (ChQueued (Some (xr_result r))) k tenant source) (\<lambda>_. finish e)
      else if xr_status r = ''executed''
      then bind (store_change (ChExecuted (xr_result r)) k tenant source) (\<lambda>_. finish e)
      else if xr_status r = ''permanent_failure''
      then bind (store_change (ChFailed (error_or (xr_error r) ''action failed permanently'')) k tenant source) (\<lambda>_. finish e)
      else if xr_status r = ''retryable_failure''
      then retry_action e k source (error_or (xr_error r) ''action failed transiently'')
             (case xr_retry_after_s r of None \<Rightarrow> retry_backoff_s | Some t \<Rightarrow> t)
      else bind (store_change (ChUncertain (''unsupported action result status: '' @ repr_str (xr_status r))) k tenant source)
             (\<lambda>_. finish e))"

definition exec_failed :: "queue_event \<Rightarrow> string \<Rightarrow> string \<Rightarrow> string \<Rightarrow> unit action_prog" where
  "exec_failed e k source err =
     bind (store_change (ChUncertain err) k (qe_tenant_id e) source) (\<lambda>_. finish e)"

text \<open>\<open>registry.get\<close> and what the worker does without an executor.\<close>

definition no_executor :: "queue_event \<Rightarrow> string \<Rightarrow> string \<Rightarrow> string \<Rightarrow> unit action_prog" where
  "no_executor e k source kind =
     bind (store_change (ChFailed (''KeyError: '' @ repr_str (''no action executor registered for kind='' @ repr_str kind)))
             k (qe_tenant_id e) source) (\<lambda>_. finish e)"

definition settle_outcome :: "int \<Rightarrow> queue_event \<Rightarrow> string \<Rightarrow> string \<Rightarrow> exec_outcome \<Rightarrow> unit action_prog" where
  "settle_outcome retry_backoff_s e k source out = (case out of
       ExecNotStarted err \<Rightarrow> retry_action e k source err retry_backoff_s
     | ExecRaised err \<Rightarrow> exec_failed e k source err
     | ExecOtherObject \<Rightarrow> exec_failed e k source ''TypeError: action executor must return ActionExecutionResult''
     | ExecReturned v \<Rightarrow>
         (case validate_action_execution_result v of
            Inl err \<Rightarrow> exec_failed e k source (error_line err)
          | Inr r \<Rightarrow> apply_action_result e k source r retry_backoff_s))"

definition run_executor ::
  "(action_record \<Rightarrow> exec_outcome) \<Rightarrow> int \<Rightarrow> queue_event \<Rightarrow> string \<Rightarrow> string \<Rightarrow> unit action_prog" where
  "run_executor exec retry_backoff_s e k source =
     bind (store_get k (qe_tenant_id e) source) (\<lambda>refreshed. case refreshed of
       None \<Rightarrow> exec_failed e k source (''RuntimeError: action disappeared during execution: '' @ k)
     | Some a \<Rightarrow> bind (execute_effect exec a) (settle_outcome retry_backoff_s e k source))"

definition start_action ::
  "(string \<Rightarrow> bool) \<Rightarrow> (action_record \<Rightarrow> exec_outcome) \<Rightarrow> int \<Rightarrow> queue_event \<Rightarrow> string \<Rightarrow> string \<Rightarrow> string \<Rightarrow> unit action_prog" where
  "start_action registry exec retry_backoff_s e k source kind =
     bind (store_change ChExecuting k (qe_tenant_id e) source) (\<lambda>marked.
       if \<not> marked then finish e
       else if \<not> registry kind then no_executor e k source kind
       else run_executor exec retry_backoff_s e k source)"

definition exhausted_action :: "queue_event \<Rightarrow> string \<Rightarrow> string \<Rightarrow> unit action_prog" where
  "exhausted_action e k source =
     (let err = ''action execution lease expired after the maximum attempts before an external call started'';
          tenant = qe_tenant_id e
      in bind (store_change (ChFailed err) k tenant source) (\<lambda>failed.
           if \<not> failed then finish_or_raise e (''exhausted action '' @ k @ '' could not be failed from '') k tenant source
           else bind (queue_retry e 0 err) (\<lambda>_. Return ())))"

definition handle_action ::
  "(string \<Rightarrow> bool) \<Rightarrow> (action_record \<Rightarrow> exec_outcome) \<Rightarrow> int \<Rightarrow> queue_event \<Rightarrow> string \<Rightarrow> string \<Rightarrow> action_record \<Rightarrow> unit action_prog" where
  "handle_action registry exec retry_backoff_s e k source a =
     (if terminal_status (ar_status a) then finish e
      else if ar_status a = ActExecuting
      then (if qe_attempts e > 1
            then bind (store_change (ChUncertain ''execution lease expired before a durable outcome was recorded'')
                         k (qe_tenant_id e) source) (\<lambda>_. finish e)
            else finish e)
      else if ar_status a = ActQueued \<and> ar_last_error a = None then finish e
      else if qe_attempts e > qe_max_attempts e then exhausted_action e k source
      else if ar_status a \<noteq> ActApproved \<and> ar_status a \<noteq> ActQueued then finish e
      else start_action registry exec retry_backoff_s e k source (ar_kind a))"

text \<open>\<open>str(payload[key])\<close>; a payload that is not a dictionary raises a \<open>TypeError\<close>, which is not caught.\<close>

definition subscript_error :: "json \<Rightarrow> string" where
  "subscript_error v = (case v of
     JArr _ \<Rightarrow> ''list indices must be integers or slices, not str''
   | JStr _ \<Rightarrow> ''string indices must be integers, not '' @ repr_str ''str''
   | JInt _ \<Rightarrow> repr_str ''int'' @ '' object is not subscriptable''
   | JBool _ \<Rightarrow> repr_str ''bool'' @ '' object is not subscriptable''
   | JFloat _ _ \<Rightarrow> repr_str ''float'' @ '' object is not subscriptable''
   | _ \<Rightarrow> repr_str ''NoneType'' @ '' object is not subscriptable'')"

definition payload_str :: "json \<Rightarrow> string \<Rightarrow> string result" where
  "payload_str payload key = (case payload of
     JObj kvs \<Rightarrow> (case map_of kvs key of None \<Rightarrow> Inl (KeyError key) | Some v \<Rightarrow> Inr (py_str v))
   | _ \<Rightarrow> Inl (TypeError (subscript_error payload)))"

definition action_event_ids :: "json \<Rightarrow> (string \<times> string) result" where
  "action_event_ids payload =
     rbind (payload_str payload ''action_id'') (\<lambda>action_id.
     rbind (payload_str payload ''source_id'') (\<lambda>source_id.
       if action_id = [] \<or> source_id = [] then Inl (ValueError ''action_id and source_id must be non-empty'')
       else Inr (action_id, source_id)))"

definition process_action_queue_event ::
  "(string \<Rightarrow> bool) \<Rightarrow> (action_record \<Rightarrow> exec_outcome) \<Rightarrow> int \<Rightarrow> queue_event \<Rightarrow> unit action_prog" where
  "process_action_queue_event registry exec retry_backoff_s e = (case action_event_ids (qe_payload e) of
     Inl (TypeError m) \<Rightarrow> Raise (TypeError m)
   | Inl err \<Rightarrow> bind (queue_retry e retry_backoff_s (''bad action event payload: '' @ error_text err)) (\<lambda>_. Return ())
   | Inr (action_id, source_id) \<Rightarrow>
       bind (store_get action_id (qe_tenant_id e) source_id) (\<lambda>action. case action of
         None \<Rightarrow> finish e
       | Some a \<Rightarrow> handle_action registry exec retry_backoff_s e action_id source_id a))"

subsection \<open>Claiming\<close>

definition actions_claim :: "string \<Rightarrow> int \<Rightarrow> string \<Rightarrow> int \<Rightarrow> string option \<Rightarrow> claim_args" where
  "actions_claim recipient batch_size owner lease_seconds tenant = \<lparr>ca_recipient = recipient, ca_limit = batch_size,
     ca_lease_owner = owner, ca_lease_seconds = lease_seconds, ca_recover_exhausted = True, ca_tenant_id = tenant\<rparr>"

text \<open>One round of the polling worker: the claimed events, each with the program that processes it.\<close>

record actions_worker =
  wk_recipient :: string
  wk_batch_size :: int
  wk_owner :: string
  wk_lease_seconds :: int
  wk_tenant_id :: "string option"
  wk_registry :: "string \<Rightarrow> bool"
  wk_exec :: "action_record \<Rightarrow> exec_outcome"
  wk_retry_backoff_s :: int

definition run_actions_queue_worker ::
  "actions_worker \<Rightarrow> string \<Rightarrow> action_world \<Rightarrow> (unit action_prog list \<times> action_world) result" where
  "run_actions_queue_worker w token s =
     (if wk_batch_size w < 1 then Inl (ValueError ''batch_size must be positive'')
      else if wk_lease_seconds w < 1 then Inl (ValueError ''lease_seconds must be positive'')
      else if given_blank (wk_tenant_id w) then Inl (ValueError ''tenant_id must be non-empty when provided'')
      else rbind (claim_due (actions_claim (wk_recipient w) (wk_batch_size w) (wk_owner w) (wk_lease_seconds w) (wk_tenant_id w))
                    (aw_clock s) token (aw_events s)) (\<lambda>(claimed, evs).
        Inr (map (\<lambda>r. process_action_queue_event (wk_registry w) (wk_exec w) (wk_retry_backoff_s w) (row_to_queue_event r))
               claimed, s\<lparr>aw_events := evs\<rparr>)))"

end
