(* ===== verification/Effect_Pool.thy ===== *)
theory Effect_Pool
  imports Async_Programs
begin

section \<open>Effects that must not be repeated\<close>

text \<open>
  The action worker and the outbound worker follow one discipline: before the external effect of an item
  starts, the item is moved to a state from which no worker starts it (\<open>spent\<close>), and only the worker that
  made this move starts the effect.  Two guarantees follow for a pool of such workers, each proved here once:
  an item that is spent while no worker runs is never started afterwards (\<open>restart_pool\<close>), and an item
  without a start is started at most once (\<open>once_pool\<close>).
\<close>

locale effect_item =
  fixes tinv :: "'s \<Rightarrow> bool" \<comment> \<open>the invariant of the tables\<close>
    and spent :: "'s \<Rightarrow> bool"
    and starts :: "'s \<Rightarrow> nat" \<comment> \<open>how often the effect of the item was started\<close>
begin

text \<open>A step that starts nothing, keeps the invariant, and keeps the item spent.\<close>

definition quiet_step :: "'s \<Rightarrow> 's \<Rightarrow> bool" where
  "quiet_step s t \<longleftrightarrow> tinv t \<and> starts t = starts s \<and> (spent s \<longrightarrow> spent t)"

definition harmless :: "('s, 'a) prog \<Rightarrow> bool" where
  "harmless p \<longleftrightarrow> conforms (\<lambda>_ s. tinv s) (\<lambda>_ s t _. quiet_step s t) p ()"

lemma harmless_simps [simp]:
  "harmless (Return x)" "harmless (Raise e)"
  "harmless (Await f c) \<longleftrightarrow> (\<forall>s. tinv s \<longrightarrow> quiet_step s (f s) \<and> harmless (c s))"
  by (simp_all add: harmless_def)

lemma harmless_bind: "harmless p \<Longrightarrow> (\<And>x. harmless (c x)) \<Longrightarrow> harmless (bind p c)"
  by (induction p) auto

lemma harmless_catch: "harmless p \<Longrightarrow> (\<And>e. harmless (h e)) \<Longrightarrow> harmless (catch p h)"
  by (induction p) auto

lemma harmless_conforms:
  assumes "harmless p" and "\<And>s. rely m s \<Longrightarrow> tinv s" and "\<And>s t. rely m s \<Longrightarrow> quiet_step s t \<Longrightarrow> guar m s t m"
  shows "conforms rely guar p m"
  using assms(1) by (induction p) (use assms(2,3) in \<open>fastforce+\<close>)

text \<open>While the item is spent, the program leaves it so and starts nothing for it.\<close>

abbreviation calm_rely :: "unit \<Rightarrow> 's \<Rightarrow> bool" where
  "calm_rely \<equiv> \<lambda>_ s. tinv s \<and> spent s"

abbreviation calm_guar :: "unit \<Rightarrow> 's \<Rightarrow> 's \<Rightarrow> unit \<Rightarrow> bool" where
  "calm_guar \<equiv> \<lambda>_ s t _. tinv t \<and> spent t \<and> starts t = starts s"

abbreviation calm :: "('s, 'a) prog \<Rightarrow> bool" where
  "calm p \<equiv> conforms calm_rely calm_guar p ()"

lemma calm_Await: "calm (Await f k) \<longleftrightarrow> (\<forall>s. tinv s \<and> spent s \<longrightarrow> tinv (f s) \<and> spent (f s) \<and> starts (f s) = starts s \<and> calm (k s))"
  by auto

lemma harmless_calm: "harmless p \<Longrightarrow> calm p"
  by (erule harmless_conforms) (auto simp: quiet_step_def)

lemma calm_bind: "harmless p \<Longrightarrow> (\<And>x. calm (c x)) \<Longrightarrow> calm (bind p c)"
  by (induction p) (auto simp: quiet_step_def)

text \<open>A worker goes from unarmed to armed with the step that spends the item, and back to unarmed with its one
  start.\<close>

definition arm_rely :: "bool \<Rightarrow> 's \<Rightarrow> bool" where
  "arm_rely armed s \<longleftrightarrow> tinv s \<and> (armed \<longrightarrow> spent s)"

definition arm_guar :: "bool \<Rightarrow> 's \<Rightarrow> 's \<Rightarrow> bool \<Rightarrow> bool" where
  "arm_guar armed s t n \<longleftrightarrow> tinv t \<and> (spent s \<longrightarrow> spent t)
     \<and> (if \<not> armed then starts t = starts s \<and> (n \<longrightarrow> \<not> spent s \<and> spent t)
        else starts t = starts s \<or> (starts t = Suc (starts s) \<and> \<not> n))"

definition arm_inv :: "'s \<Rightarrow> bool list \<Rightarrow> bool" where
  "arm_inv s ms \<longleftrightarrow> tinv s
     \<and> (if spent s then starts s + length (filter id ms) \<le> 1 else starts s = 0 \<and> True \<notin> set ms)"

lemma arm_tinv: "arm_rely m s \<Longrightarrow> tinv s" "arm_inv s ms \<Longrightarrow> tinv s"
  by (simp_all add: arm_rely_def arm_inv_def)

abbreviation arms :: "('s, 'a) prog \<Rightarrow> bool \<Rightarrow> bool" where
  "arms p armed \<equiv> conforms arm_rely arm_guar p armed"

lemma harmless_arms: "harmless p \<Longrightarrow> arms p m"
  by (erule harmless_conforms) (auto simp: quiet_step_def arm_rely_def arm_guar_def)

lemma arms_bind: "harmless p \<Longrightarrow> (\<And>x. arms (c x) m) \<Longrightarrow> arms (bind p c) m"
proof (induction p)
  case (Await f k)
  have "arm_guar m s (f s) m" if "arm_rely m s" for s
    using Await.prems(1) that by (auto simp: arm_rely_def arm_guar_def quiet_step_def)
  moreover have "arms (bind (k s) c) m" if "arm_rely m s" for s
    using Await arm_tinv(1) [OF that] by simp
  ultimately show ?case by auto
qed auto

lemma arms_weaken: "arms p False \<Longrightarrow> arms p m"
proof (induction p)
  case (Await f k)
  have "\<exists>n. arm_guar m s (f s) n \<and> arms (k s) n" if r: "arm_rely m s" for s
  proof -
    have "arm_rely False s" using r by (simp add: arm_rely_def)
    then obtain n where n: "arm_guar False s (f s) n" "arms (k s) n" using Await.prems by auto
    then have "arm_guar m s (f s) n" using r by (cases m) (auto simp: arm_guar_def arm_rely_def)
    then show ?thesis using n(2) by blast
  qed
  then show ?case by simp
qed simp_all

text \<open>What follows an armed part may be anything that is safe for an unarmed worker.\<close>

lemma arms_seq: "arms p m \<Longrightarrow> (\<And>x. arms (c x) False) \<Longrightarrow> arms (bind p c) m"
proof (induction p arbitrary: m)
  case (Await f k)
  then show ?case by (fastforce simp del: split_paired_Ex)
qed (simp_all add: arms_weaken)

lemma calm_seq: "calm p \<Longrightarrow> (\<And>x. calm (c x)) \<Longrightarrow> calm (bind p c)"
  by (induction p) auto

lemma calm_catch: "calm p \<Longrightarrow> (\<And>e. calm (h e)) \<Longrightarrow> calm (catch p h)"
  by (induction p) auto

text \<open>The step that spends the item: it reports whether it did.\<close>

lemma arms_mark:
  assumes "\<And>s. tinv s \<Longrightarrow> quiet_step s (f s)" and "\<And>s. tinv s \<Longrightarrow> ok s \<Longrightarrow> \<not> spent s \<and> spent (f s)"
    and "\<And>s. ok s \<Longrightarrow> arms (k s) True" and "\<And>s. \<not> ok s \<Longrightarrow> arms (k s) False"
  shows "arms (Await f k) False"
proof -
  have "arm_guar False s (f s) (ok s)" if "arm_rely False s" for s
    using assms(1,2) [of s] that by (auto simp: arm_guar_def arm_rely_def quiet_step_def)
  moreover have "arms (k s) (ok s)" for s using assms(3,4) [of s] by (cases "ok s") auto
  ultimately show ?thesis by auto
qed

text \<open>The one start of an armed worker.\<close>

lemma arms_start:
  assumes "\<And>s. tinv s \<Longrightarrow> spent s \<Longrightarrow> tinv (f s) \<and> spent (f s) \<and> starts (f s) = Suc (starts s)"
    and "\<And>s. arms (k s) False"
  shows "arms (Await f k) True"
proof -
  have "arm_guar True s (f s) False" if "arm_rely True s" for s
    using assms(1) [of s] that by (auto simp: arm_guar_def arm_rely_def)
  then show ?thesis using assms(2) by auto
qed

end

subsection \<open>Pools\<close>

locale effect_pool = effect_item tinv spent starts
  for tinv :: "'s \<Rightarrow> bool" and spent :: "'s \<Rightarrow> bool" and starts :: "'s \<Rightarrow> nat" +
  fixes env :: "'e \<Rightarrow> 's \<Rightarrow> 's \<Rightarrow> bool"
    and start :: "'x \<Rightarrow> 's \<Rightarrow> ('s, unit) prog list \<Rightarrow> 's \<Rightarrow> bool"
  assumes env_quiet: "env e s t \<Longrightarrow> tinv s \<Longrightarrow> quiet_step s t"
    and start_quiet: "start x s ps t \<Longrightarrow> tinv s \<Longrightarrow> quiet_step s t"

locale restart_pool = effect_pool +
  assumes start_calm: "start x s ps t \<Longrightarrow> p \<in> set ps \<Longrightarrow> calm p"

sublocale restart_pool \<subseteq> calm_workers: pool_invariant env start calm_rely calm_guar
    "\<lambda>s ms. tinv s \<and> spent s \<and> starts s = n" "()" for n
proof (unfold_locales, goal_cases)
  case (1 e s t ms)
  then show ?case using env_quiet [OF 1(1)] by (auto simp: quiet_step_def)
next
  case (2 x s ps t ms)
  then show ?case using start_quiet [OF 2(1)] by (auto simp: quiet_step_def)
next
  case (3 x s ps t p)
  then show ?case by (rule start_calm)
qed auto

context restart_pool
begin

theorem spent_not_started:
  assumes "steps (pool_step env start) mvs (s, []) (t, ws)" and "tinv s" and "spent s"
  shows "spent t \<and> starts t = starts s"
  using calm_workers.empty_pool_inv [OF assms(1), of "starts s"] assms(2,3) by auto

end

locale once_pool = effect_pool +
  assumes start_arms: "start x s ps t \<Longrightarrow> p \<in> set ps \<Longrightarrow> arms p False"

lemma count_list_update:
  "i < length ms \<Longrightarrow> length (filter P (ms[i := n])) + (if P (ms ! i) then 1 else 0) = length (filter P ms) + (if P n then 1 else 0)"
proof -
  assume i: "i < length ms"
  have "length (filter P ms) = length (filter P (take i ms @ ms ! i # drop (Suc i) ms))"
    using id_take_nth_drop [OF i] by simp
  then show ?thesis by (simp add: upd_conv_take_nth_drop [OF i])
qed

lemma no_True: "True \<notin> set ms \<Longrightarrow> filter id ms = []"
  by (auto simp: filter_empty_conv)

context once_pool
begin

lemma quiet_arm_inv: "quiet_step s t \<Longrightarrow> arm_inv s ms \<Longrightarrow> arm_inv t ms"
  using no_True [of ms] by (auto simp: arm_inv_def quiet_step_def split: if_splits)

lemma arm_inv_idle: "arm_inv s ms \<Longrightarrow> arm_inv s (ms @ replicate n False)"
  by (auto simp: arm_inv_def split: if_splits)

lemma arm_inv_step:
  assumes "arm_inv s ms" and "i < length ms" and "arm_guar (ms ! i) s t n"
  shows "arm_inv t (ms[i := n])"
proof (cases "ms ! i")
  case False
  then show ?thesis using assms count_list_update [OF assms(2), of id n] no_True [of ms]
    by (auto simp: arm_inv_def arm_guar_def split: if_splits dest: set_update_subset_insert [THEN subsetD])
next
  case True
  then have "True \<in> set ms" using assms(2) nth_mem [of i ms] by simp
  then have "spent s" using assms(1) by (auto simp: arm_inv_def split: if_splits)
  then show ?thesis using assms count_list_update [OF assms(2), of id n] True
    by (cases n) (auto simp: arm_inv_def arm_guar_def simp flip: length_0_conv)
qed

end

sublocale once_pool \<subseteq> armed_workers: pool_invariant env start arm_rely arm_guar arm_inv False
proof (unfold_locales, goal_cases)
  case (1 e s t ms)
  then show ?case using quiet_arm_inv [OF env_quiet [OF 1(1) arm_tinv(2)]] by blast
next
  case (2 x s ps t ms)
  then show ?case using quiet_arm_inv [OF start_quiet [OF 2(1) arm_tinv(2)]] arm_inv_idle by blast
next
  case (3 x s ps t p)
  then show ?case by (rule start_arms)
next
  case (4 s ms i)
  then have "ms ! i \<Longrightarrow> True \<in> set ms" using nth_mem [of i ms] by metis
  then show ?case using 4 by (auto simp: arm_inv_def arm_rely_def split: if_splits)
next
  case (5 s ms i t n)
  then show ?case by (rule arm_inv_step)
qed

context once_pool
begin

theorem started_once:
  assumes "steps (pool_step env start) mvs (s, []) (t, ws)" and "tinv s" and "starts s = 0"
  shows "starts t \<le> 1"
proof -
  have "arm_inv s []" using assms(2,3) by (simp add: arm_inv_def)
  then obtain ms where "arm_inv t ms" using armed_workers.empty_pool_inv [OF assms(1)] by blast
  then show ?thesis by (auto simp: arm_inv_def split: if_splits)
qed

theorem tables_kept:
  assumes "steps (pool_step env start) mvs (s, []) (t, ws)" and "tinv s" and "starts s = 0"
  shows "tinv t"
proof -
  have "arm_inv s []" using assms(2,3) by (simp add: arm_inv_def)
  then obtain ms where "arm_inv t ms" using armed_workers.empty_pool_inv [OF assms(1)] by blast
  then show ?thesis by (rule arm_tinv(2))
qed

end

end
