(* ===== verification/Action_Worker_Safety.thy ===== *)
theory Action_Worker_Safety
  imports Action_Worker Effect_Pool
begin

section \<open>Effects of actions under interleaving and crashes\<close>

text \<open>
  Any number of action workers run at the same time, in any order of their store calls; each may stop for
  ever at every \<open>await\<close>; meanwhile actions are inserted, approved, denied and settled by others, the queue is
  used by others, and leases expire.  An action whose start was recorded and whose outcome was not is never
  started again, and an action whose executor always ends in a definite outcome is started at most once.
\<close>

subsection \<open>The system\<close>

datatype aw_env = EnvActions action_op | EnvQueue ev_op | EnvClock int

text \<open>What is done to actions outside the workers: nobody else starts an action or takes it back to \<open>queued\<close>.\<close>

fun outside_op :: "action_op \<Rightarrow> bool" where
  "outside_op (OpInsert now uuid a) = True"
| "outside_op (OpChange ch now k tn src) =
     (case ch of ChExecuting \<Rightarrow> False | ChQueued _ \<Rightarrow> False | ChRetryable _ \<Rightarrow> False | _ \<Rightarrow> True)"

inductive aw_env_step :: "(string \<Rightarrow> string) \<Rightarrow> aw_env \<Rightarrow> action_world \<Rightarrow> action_world \<Rightarrow> bool" for sha where
  env_actions: "ac_step op (aw_actions s) rows \<Longrightarrow> outside_op op \<Longrightarrow> aw_env_step sha (EnvActions op) s (s\<lparr>aw_actions := rows\<rparr>)"
| env_queue: "ev_step sha op (aw_events s) evs \<Longrightarrow> aw_env_step sha (EnvQueue op) s (s\<lparr>aw_events := evs\<rparr>)"
| env_clock: "aw_env_step sha (EnvClock now) s (s\<lparr>aw_clock := now\<rparr>)"

text \<open>A round of a worker starts a program for every event it claimed; \<open>ok\<close> says which workers there are.\<close>

definition aw_start ::
  "(actions_worker \<Rightarrow> bool) \<Rightarrow> actions_worker \<times> string \<Rightarrow> action_world \<Rightarrow> unit action_prog list \<Rightarrow> action_world \<Rightarrow> bool" where
  "aw_start ok x s ps t \<longleftrightarrow> ok (fst x) \<and> run_actions_queue_worker (fst x) (snd x) s = Inr (ps, t)"

abbreviation aw_step where
  "aw_step sha ok \<equiv> pool_step (aw_env_step sha) (aw_start ok)"

subsection \<open>Actions that cannot start\<close>

definition spent_states :: "action_state set" where
  "spent_states = {ActExecuting, ActExecuted, ActFailed, ActDenied, ActCancelled, ActUncertain}"

text \<open>The action is there and is in a state that no worker starts it from.\<close>

definition spent :: "string \<Rightarrow> string \<Rightarrow> string \<Rightarrow> action_world \<Rightarrow> bool" where
  "spent k tn src s \<longleftrightarrow> (\<exists>r \<in> set (aw_actions s). ac_is k tn src r)
     \<and> (\<forall>r \<in> set (aw_actions s). ac_is k tn src r \<longrightarrow> ac_status r \<in> spent_states)"

definition starts :: "string \<Rightarrow> string \<Rightarrow> string \<Rightarrow> action_world \<Rightarrow> nat" where
  "starts k tn src s = length (filter (\<lambda>a. ar_id a = k \<and> ar_tenant_id a = tn \<and> ar_source_id a = src) (aw_effects s))"

lemma spent_cong: "aw_actions t = aw_actions s \<Longrightarrow> spent k tn src t = spent k tn src s"
  by (simp add: spent_def)

lemma starts_cong: "aw_effects t = aw_effects s \<Longrightarrow> starts k tn src t = starts k tn src s"
  by (simp add: starts_def)

lemma ac_is_update: "ac_envelope (f r) = ac_envelope r \<Longrightarrow> ac_is k tn src (f r) = ac_is k tn src r"
  by (simp add: ac_envelope_def ac_is_def)

lemma spent_update:
  assumes "spent k tn src s" and "aw_actions t = update_where p f (aw_actions s)"
    and "\<And>r. ac_envelope (f r) = ac_envelope r"
    and "\<And>r. p r \<Longrightarrow> ac_is k tn src r \<Longrightarrow> ac_status r \<in> spent_states \<Longrightarrow> ac_status (f r) \<in> spent_states"
  shows "spent k tn src t"
proof -
  have "ac_is k tn src (f r) = ac_is k tn src r" for r by (simp add: ac_is_update assms(3))
  then show ?thesis using assms(1,4) unfolding spent_def assms(2) ball_update_where bex_update_where by auto
qed

lemma spent_change:
  assumes "spent k tn src s" and "aw_actions t = snd (change_action ch now k' tn' src' (aw_actions s))"
    and "outside_op (OpChange ch now k' tn' src') \<or> (k', tn', src') \<noteq> (k, tn, src) \<or> ch = ChExecuting"
  shows "spent k tn src t"
proof -
  show ?thesis
    using assms(2,3) by (cases ch)
      (auto simp: change_action_defs ac_transition_def Let_def ac_envelope_def spent_states_def ac_is_def
        intro!: spent_update [OF assms(1)])
qed

lemma spent_insert:
  assumes "spent k tn src s" and "insert_action now uuid a (aw_actions s) = Inr (res, rows)" and "aw_actions t = rows"
  shows "spent k tn src t"
proof -
  have "\<not> (rows = aw_actions s @ [new_action_row now uuid a] \<and> ac_is k tn src (new_action_row now uuid a))"
  proof
    assume "rows = aw_actions s @ [new_action_row now uuid a] \<and> ac_is k tn src (new_action_row now uuid a)"
    moreover obtain r where "r \<in> set (aw_actions s)" "ac_is k tn src r" using assms(1) by (auto simp: spent_def)
    ultimately show False
      using assms(2) by (auto simp: insert_action_def insert_new_action_def replay_action_def Let_def ac_insert_def
          rbind_eq_Inr ac_conflict_def ac_is_def split: if_splits option.splits)
  qed
  then show ?thesis using insert_action_rows [OF assms(2)] assms(1,3) by (auto simp: spent_def)
qed

interpretation action_item: effect_item "\<lambda>s. ac_inv (aw_actions s)" "spent k tn src" "starts k tn src" for k tn src .

abbreviation harmless :: "string \<Rightarrow> string \<Rightarrow> string \<Rightarrow> 'a action_prog \<Rightarrow> bool" where
  "harmless k tn src \<equiv> action_item.harmless k tn src"

abbreviation quiet_step :: "string \<Rightarrow> string \<Rightarrow> string \<Rightarrow> action_world \<Rightarrow> action_world \<Rightarrow> bool" where
  "quiet_step k tn src \<equiv> action_item.quiet_step k tn src"

lemmas quiet_step_def = action_item.quiet_step_def
lemmas harmless_bind = action_item.harmless_bind

subsection \<open>Harmless programs\<close>

lemma quiet_other: "aw_actions t = aw_actions s \<Longrightarrow> aw_effects t = aw_effects s \<Longrightarrow> ac_inv (aw_actions s) \<Longrightarrow> quiet_step k tn src s t"
  by (simp add: quiet_step_def spent_def starts_def)

lemma harmless_get [simp]: "harmless k tn src (store_get k' tn' src')"
  by (simp add: store_get_def call_def quiet_other)

lemma harmless_done [simp]: "harmless k tn src (queue_done e)"
  by (auto simp: queue_done_def call_def split_beta Let_def intro!: quiet_other split: option.split)

lemma harmless_retry [simp]: "harmless k tn src (queue_retry e delay err)"
  by (auto simp: queue_retry_def call_def split_beta Let_def intro!: quiet_other split: option.split)

lemma quiet_change:
  assumes "ac_inv (aw_actions s)"
    and "outside_op (OpChange ch now k' tn' src') \<or> (k', tn', src') \<noteq> (k, tn, src) \<or> ch = ChExecuting"
  shows "quiet_step k tn src s (s\<lparr>aw_actions := snd (change_action ch now k' tn' src' (aw_actions s))\<rparr>)"
  using ac_inv_change [OF assms(1)] spent_change [OF _ _ assms(2), of s] by (auto simp: quiet_step_def starts_def)

lemma harmless_change:
  assumes "\<And>now. outside_op (OpChange ch now k' tn' src') \<or> (k', tn', src') \<noteq> (k, tn, src) \<or> ch = ChExecuting"
  shows "harmless k tn src (store_change ch k' tn' src')"
  using quiet_change [OF _ assms] by (simp add: store_change_def call_def split_beta Let_def)

lemma harmless_finish [simp]: "harmless k tn src (finish e)"
  unfolding finish_def by (intro harmless_bind) auto

lemma harmless_finish_or_raise [simp]: "harmless k tn src (finish_or_raise e msg k' tn' src')"
  unfolding finish_or_raise_def by (intro harmless_bind) (auto split: option.split)

lemma harmless_settle [simp]:
  "harmless k tn src (exec_failed e k' src' err)"
  "harmless k tn src (no_executor e k' src' kind)"
  "harmless k tn src (exhausted_action e k' src')"
  unfolding exec_failed_def no_executor_def exhausted_action_def Let_def
  by (auto intro!: harmless_bind harmless_change)

lemma harmless_retry_action:
  "(k', qe_tenant_id e, src') \<noteq> (k, tn, src) \<Longrightarrow> harmless k tn src (retry_action e k' src' err secs)"
  unfolding retry_action_def Let_def by (auto intro!: harmless_bind harmless_change)

text \<open>An outcome after which the action is not executed again.\<close>

definition definite :: "exec_outcome \<Rightarrow> bool" where
  "definite out = (case out of ExecNotStarted _ \<Rightarrow> False
     | ExecReturned v \<Rightarrow> xv_status v \<noteq> ''queued'' \<and> xv_status v \<noteq> ''retryable_failure'' | _ \<Rightarrow> True)"

lemma harmless_apply:
  "(k', qe_tenant_id e, src') \<noteq> (k, tn, src) \<or> xr_status r \<noteq> ''queued'' \<and> xr_status r \<noteq> ''retryable_failure''
    \<Longrightarrow> harmless k tn src (apply_action_result e k' src' r secs)"
  unfolding apply_action_result_def Let_def
  by (auto intro!: harmless_bind harmless_change harmless_retry_action)

lemma harmless_execute:
  assumes "(ar_id a, ar_tenant_id a, ar_source_id a) \<noteq> (k, tn, src)"
  shows "harmless k tn src (execute_effect exec a)"
  using assms by (auto simp: execute_effect_def call_def quiet_step_def starts_def spent_def)

lemma store_get_names:
  "get_action k tn src rows = Some r \<Longrightarrow> ar_id (row_to_action r) = k \<and> ar_tenant_id (row_to_action r) = tn
    \<and> ar_source_id (row_to_action r) = src"
  by (auto simp: get_action_def row_to_action_def ac_is_def dest!: fetchone_SomeD)

lemma harmless_settle_outcome:
  "(k', qe_tenant_id e, src') \<noteq> (k, tn, src) \<or> definite out \<Longrightarrow> harmless k tn src (settle_outcome secs e k' src' out)"
  by (auto simp: settle_outcome_def definite_def validate_action_execution_result_def rbind_def
      split: exec_outcome.split sum.splits py_error.split if_splits json.splits
      intro!: harmless_retry_action harmless_apply)

lemma harmless_run_executor:
  assumes "(k', qe_tenant_id e, src') \<noteq> (k, tn, src)"
  shows "harmless k tn src (run_executor exec secs e k' src')"
proof -
  have "harmless k tn src (bind (execute_effect exec a) (settle_outcome secs e k' src'))"
    if "(ar_id a, ar_tenant_id a, ar_source_id a) = (k', qe_tenant_id e, src')" for a
    using assms that by (intro harmless_bind harmless_execute harmless_settle_outcome) auto
  then show ?thesis
    unfolding run_executor_def store_get_def bind_call
    by (auto simp: quiet_other split: option.split dest: store_get_names)
qed

lemma harmless_start_other:
  "(k', qe_tenant_id e, src') \<noteq> (k, tn, src) \<Longrightarrow> harmless k tn src (start_action registry exec secs e k' src' kind)"
  unfolding start_action_def by (intro harmless_bind harmless_change) (auto intro: harmless_run_executor)

text \<open>Starting the action itself: the step that marks it, and what follows.\<close>

definition mark_step :: "string \<Rightarrow> string \<Rightarrow> string \<Rightarrow> action_world \<Rightarrow> bool \<times> action_row list" where
  "mark_step k tn src s = change_action ChExecuting (aw_clock s) k tn src (aw_actions s)"

lemma start_action_eq:
  "start_action registry exec secs e k src kind = Await (\<lambda>s. s\<lparr>aw_actions := snd (mark_step k (qe_tenant_id e) src s)\<rparr>)
     (\<lambda>s. if \<not> fst (mark_step k (qe_tenant_id e) src s) then finish e
          else if \<not> registry kind then no_executor e k src kind else run_executor exec secs e k src)"
  by (simp add: start_action_def store_change_def mark_step_def split_beta Let_def)

lemma mark_quiet: "ac_inv (aw_actions s) \<Longrightarrow> quiet_step k tn src s (s\<lparr>aw_actions := snd (mark_step k tn src s)\<rparr>)"
  unfolding mark_step_def by (intro quiet_change) simp_all

lemma marked_not_spent: "spent k tn src s \<Longrightarrow> \<not> fst (mark_step k tn src s)"
  by (auto simp: mark_step_def spent_def mark_executing_def ac_transition_def Let_def rowcount_pos spent_states_def)

lemma mark_spends:
  assumes "ac_inv (aw_actions s)" and "fst (mark_step k tn src s)"
  shows "spent k tn src (s\<lparr>aw_actions := snd (mark_step k tn src s)\<rparr>)"
proof -
  let ?p = "\<lambda>x. ac_is k tn src x \<and> ac_status x \<in> set [ActApproved, ActQueued]"
  let ?f = "\<lambda>x. x\<lparr>ac_status := ActExecuting, ac_updated_at := aw_clock s\<rparr>"
  have rows: "snd (mark_step k tn src s) = update_where ?p ?f (aw_actions s)"
    by (simp add: mark_step_def mark_executing_def ac_transition_def Let_def)
  obtain r where r: "r \<in> set (aw_actions s)" "?p r"
    using assms(2) by (auto simp: mark_step_def mark_executing_def ac_transition_def Let_def rowcount_pos)
  have only: "x = r" if "x \<in> set (aw_actions s)" "ac_is k tn src x" for x
    using that r assms(1) distinct_map_eq [of ac_id "aw_actions s" x r] by (simp add: ac_inv_def ac_is_def)
  have same: "ac_is k tn src (if ?p x then ?f x else x) = ac_is k tn src x" for x by (simp add: ac_is_def)
  have "\<exists>x \<in> set (update_where ?p ?f (aw_actions s)). ac_is k tn src x"
    unfolding bex_update_where same using r by blast
  moreover have "ac_status x \<in> spent_states" if x: "x \<in> set (update_where ?p ?f (aw_actions s))" "ac_is k tn src x" for x
  proof -
    obtain y where y: "y \<in> set (aw_actions s)" "x = (if ?p y then ?f y else y)"
      using x(1) by (force simp: update_where_def)
    with same x(2) have "ac_is k tn src y" by simp
    then have "?p y" using only [OF y(1)] r by simp
    then show ?thesis using y(2) by (simp add: spent_states_def)
  qed
  moreover have "spent k tn src (s\<lparr>aw_actions := rs\<rparr>)"
    if "\<exists>x \<in> set rs. ac_is k tn src x" "\<And>x. x \<in> set rs \<Longrightarrow> ac_is k tn src x \<Longrightarrow> ac_status x \<in> spent_states" for rs
    using that by (simp add: spent_def)
  ultimately show ?thesis unfolding rows by blast
qed

lemma harmless_uncertain [simp]: "harmless k tn src (bind (store_change (ChUncertain err) k' tn' src') (\<lambda>_. finish e))"
  by (intro harmless_bind harmless_change) simp_all

lemmas harmless_parts = harmless_finish harmless_settle harmless_uncertain
lemmas calm_parts [simp] = harmless_parts [THEN action_item.harmless_calm]
lemmas arms_parts [simp] = harmless_parts [THEN action_item.harmless_arms]

subsection \<open>A start that was recorded is not repeated\<close>

lemma calm_start [simp]: "action_item.calm k tn src (start_action registry exec secs e k' src' kind)"
proof (cases "(k', qe_tenant_id e, src') = (k, tn, src)")
  case True
  then show ?thesis
    using mark_quiet [of _ k tn src] marked_not_spent [of k tn src] action_item.harmless_calm [OF harmless_finish, of k tn src e]
    unfolding start_action_eq action_item.calm_Await by (auto simp: quiet_step_def)
qed (rule action_item.harmless_calm [OF harmless_start_other])

lemma calm_process: "action_item.calm k tn src (process_action_queue_event registry exec secs e)"
proof -
  have "action_item.calm k tn src (handle_action registry exec secs e k' src' a)" for k' src' a
    by (simp add: handle_action_def)
  then have "action_item.calm k tn src (bind (store_get k' tn' src') (\<lambda>action. case action of None \<Rightarrow> finish e
      | Some a \<Rightarrow> handle_action registry exec secs e k' src' a))" for k' tn' src'
    by (intro action_item.calm_bind harmless_get) (simp split: option.split)
  moreover have "action_item.calm k tn src (bind (queue_retry e delay err) (\<lambda>_. Return ()))" for delay err
    by (intro action_item.harmless_calm harmless_bind) simp_all
  ultimately show ?thesis
    unfolding process_action_queue_event_def by (simp split: sum.split py_error.split prod.split)
qed

lemma env_ac_inv: "aw_env_step sha e s t \<Longrightarrow> ac_inv (aw_actions s) \<Longrightarrow> ac_inv (aw_actions t)"
  by (induction rule: aw_env_step.induct) (auto intro: ac_step_inv)

lemma env_spent: "aw_env_step sha e s t \<Longrightarrow> spent k tn src s \<Longrightarrow> spent k tn src t"
proof (induction rule: aw_env_step.induct)
  case (env_actions op s rows)
  show ?case
  proof (cases op)
    case (OpInsert now uuid a)
    then obtain res where "insert_action now uuid a (aw_actions s) = Inr (res, rows)"
      using env_actions.hyps(1) by (auto simp: ac_step_simps)
    then show ?thesis using env_actions.prems by (rule_tac spent_insert) auto
  next
    case (OpChange ch now k' tn' src')
    then have "rows = snd (change_action ch now k' tn' src' (aw_actions s))"
      using env_actions.hyps(1) by (auto simp: ac_step_simps)
    then have "spent k tn src (s\<lparr>aw_actions := rows\<rparr>)"
      using spent_change [OF env_actions.prems, of "s\<lparr>aw_actions := rows\<rparr>" ch now k' tn' src'] env_actions.hyps(2) OpChange
      by simp
    then show ?thesis .
  qed
qed (simp_all add: spent_def)

lemma env_starts: "aw_env_step sha e s t \<Longrightarrow> starts k tn src t = starts k tn src s"
  by (induction rule: aw_env_step.induct) (simp_all add: starts_def)

lemma aw_start_frame:
  "aw_start ok x s ps t \<Longrightarrow> aw_actions t = aw_actions s \<and> aw_effects t = aw_effects s"
  by (auto simp: aw_start_def run_actions_queue_worker_def rbind_eq_Inr split: if_splits)

lemma aw_start_programs:
  "aw_start ok x s ps t \<Longrightarrow> p \<in> set ps \<Longrightarrow>
    \<exists>e. p = process_action_queue_event (wk_registry (fst x)) (wk_exec (fst x)) (wk_retry_backoff_s (fst x)) e \<and> ok (fst x)"
  by (auto simp: aw_start_def run_actions_queue_worker_def rbind_eq_Inr split: if_splits)

interpretation action_restart: restart_pool "\<lambda>s. ac_inv (aw_actions s)" "spent k tn src" "starts k tn src"
    "aw_env_step sha" "aw_start ok" for k tn src sha ok
proof (unfold_locales, goal_cases)
  case (1 e s t)
  then show ?case by (auto simp: quiet_step_def intro: env_ac_inv env_spent env_starts)
next
  case (2 x s ps t)
  then show ?case using aw_start_frame [OF 2(1)] by (simp add: quiet_other)
next
  case (3 x s ps t p)
  then show ?case using aw_start_programs calm_process by blast
qed

subsection \<open>At most one start\<close>

lemma arms_run_executor:
  assumes "\<And>a. ar_id a = k \<Longrightarrow> ar_tenant_id a = qe_tenant_id e \<Longrightarrow> ar_source_id a = src \<Longrightarrow> definite (exec a)"
  shows "action_item.arms k (qe_tenant_id e) src (run_executor exec secs e k src) True"
proof -
  let ?tn = "qe_tenant_id e"
  have effect: "action_item.arms k ?tn src (bind (execute_effect exec (row_to_action r)) (settle_outcome secs e k src)) True"
    if "get_action k ?tn src rows = Some r" for rows r
    unfolding execute_effect_def bind_call fst_conv snd_conv
    using store_get_names [OF that] assms
    by (intro action_item.arms_start action_item.harmless_arms harmless_settle_outcome) (auto simp: spent_def starts_def)
  have "action_item.arm_guar k ?tn src True s s True" if "action_item.arm_rely k ?tn src True s" for s
    using that by (simp add: action_item.arm_guar_def action_item.arm_rely_def)
  then show ?thesis
    unfolding run_executor_def store_get_def bind_call
    by (auto split: option.split intro!: exI [of _ True] effect)
qed

lemma arms_start_action:
  assumes "\<And>a. ar_id a = k \<Longrightarrow> ar_tenant_id a = tn \<Longrightarrow> ar_source_id a = src \<Longrightarrow> definite (exec a)"
  shows "action_item.arms k tn src (start_action registry exec secs e k' src' kind) False"
proof (cases "(k', qe_tenant_id e, src') = (k, tn, src)")
  case True
  then have eq: "k' = k" "qe_tenant_id e = tn" "src' = src" by auto
  show ?thesis
    unfolding start_action_eq eq using assms mark_spends marked_not_spent arms_run_executor [of k e src exec secs] eq(2)
    by (intro action_item.arms_mark [where ok = "\<lambda>s. fst (mark_step k tn src s)"])
       (auto intro: mark_quiet action_item.harmless_arms)
qed (rule action_item.harmless_arms [OF harmless_start_other])

lemma arms_process:
  assumes "\<And>a. ar_id a = k \<Longrightarrow> ar_tenant_id a = tn \<Longrightarrow> ar_source_id a = src \<Longrightarrow> definite (exec a)"
  shows "action_item.arms k tn src (process_action_queue_event registry exec secs e) False"
proof -
  have "action_item.arms k tn src (handle_action registry exec secs e k' src' a) False" for k' src' a
    by (simp add: handle_action_def arms_start_action [OF assms])
  then have "action_item.arms k tn src (bind (store_get k' tn' src') (\<lambda>action. case action of None \<Rightarrow> finish e
      | Some a \<Rightarrow> handle_action registry exec secs e k' src' a)) False" for k' tn' src'
    by (intro action_item.arms_bind harmless_get) (simp split: option.split)
  moreover have "action_item.arms k tn src (bind (queue_retry e delay err) (\<lambda>_. Return ())) False" for delay err
    by (intro action_item.harmless_arms harmless_bind) simp_all
  ultimately show ?thesis
    unfolding process_action_queue_event_def by (simp split: sum.split py_error.split prod.split)
qed

definition definite_for :: "string \<Rightarrow> string \<Rightarrow> string \<Rightarrow> actions_worker \<Rightarrow> bool" where
  "definite_for k tn src w \<longleftrightarrow>
     (\<forall>a. ar_id a = k \<and> ar_tenant_id a = tn \<and> ar_source_id a = src \<longrightarrow> definite (wk_exec w a))"

interpretation action_once: once_pool "\<lambda>s. ac_inv (aw_actions s)" "spent k tn src" "starts k tn src"
    "aw_env_step sha" "aw_start (definite_for k tn src)" for k tn src sha
proof (unfold_locales, goal_cases)
  case (1 x s ps t p)
  then show ?case using aw_start_programs [OF 1] arms_process by (auto simp: definite_for_def)
qed

subsection \<open>Processing an event without disturbance\<close>

lemma fetchone_update_where:
  "(\<And>r. p (f r) = p r) \<Longrightarrow> fetchone p (update_where q f rs) = map_option (\<lambda>r. if q r then f r else r) (fetchone p rs)"
  by (induction rs) auto

lemma transition_found:
  assumes "get_action k tn src rows = Some r" and "ac_status r \<in> set from" and "\<And>r. ac_envelope (f r) = ac_envelope r"
  shows "\<exists>rows'. ac_transition from f k tn src rows = (True, rows') \<and> get_action k tn src rows' = Some (f r)"
proof -
  have r: "r \<in> set rows" "ac_is k tn src r" using assms(1) by (auto simp: get_action_def dest: fetchone_SomeD)
  have "fetchone (ac_is k tn src) (update_where (\<lambda>r. ac_is k tn src r \<and> ac_status r \<in> set from) f rows) = Some (f r)"
    using assms(1,2) r(2) by (subst fetchone_update_where) (simp_all add: get_action_def ac_is_update assms(3))
  then show ?thesis using r assms(2) by (auto simp: ac_transition_def Let_def rowcount_pos get_action_def)
qed

lemma transition_status:
  assumes "get_action k tn src rows = Some r" and "ac_status r \<in> set from" and "\<And>r. ac_envelope (f r) = ac_envelope r"
    and "\<And>r. ac_status (f r) = st"
  shows "\<exists>rows'. ac_transition from f k tn src rows = (True, rows') \<and> (\<exists>r'. get_action k tn src rows' = Some r' \<and> ac_status r' = st)"
  using transition_found [where f = f, OF assms(1-3)] assms(4) by blast

text \<open>What becomes of the action and of the event after an outcome; \<open>final\<close>: it was the last attempt.\<close>

definition outcome_states :: "bool \<Rightarrow> exec_outcome \<Rightarrow> action_state \<times> ev_state" where
  "outcome_states final out =
     (let retry = (if final then (ActFailed, EvDeadLetter) else (ActQueued, EvRetrying)) in
      case out of
        ExecNotStarted _ \<Rightarrow> retry
      | ExecReturned v \<Rightarrow>
          (case validate_action_execution_result v of
             Inl _ \<Rightarrow> (ActUncertain, EvDone)
           | Inr r \<Rightarrow>
               if xr_status r = ''queued'' then (ActQueued, EvDone)
               else if xr_status r = ''executed'' then (ActExecuted, EvDone)
               else if xr_status r = ''permanent_failure'' then (ActFailed, EvDone)
               else retry)
      | _ \<Rightarrow> (ActUncertain, EvDone))"

text \<open>The state of the action and of the event that is processed.\<close>

definition at_states :: "string \<Rightarrow> string \<Rightarrow> string \<Rightarrow> string \<Rightarrow> action_world \<Rightarrow> action_state \<times> ev_state \<Rightarrow> bool" where
  "at_states k tn src eid s st \<longleftrightarrow> (\<exists>r x. get_action k tn src (aw_actions s) = Some r \<and> x \<in> set (aw_events s)
     \<and> ev_id x = eid \<and> (ac_status r, ev_status x) = st)"

definition holds_event :: "queue_event \<Rightarrow> action_world \<Rightarrow> bool" where
  "holds_event e s \<longleftrightarrow> (\<exists>tok x. qe_lease_token e = Some tok \<and> x \<in> set (aw_events s) \<and> ev_held (qe_id e) tok x
     \<and> ev_attempts x = qe_attempts e \<and> ev_max_attempts x = qe_max_attempts e) \<and> ev_inv (aw_events s)"

lemma run_finish:
  assumes "holds_event e s" and "get_action k tn src (aw_actions s) = Some r"
  shows "\<exists>t. run (finish e) s = (Inr (), t) \<and> aw_effects t = aw_effects s \<and> at_states k tn src (qe_id e) t (ac_status r, EvDone)"
proof -
  obtain tok x where x: "qe_lease_token e = Some tok" "x \<in> set (aw_events s)" "ev_held (qe_id e) tok x"
    using assms(1) by (auto simp: holds_event_def)
  have "\<exists>y \<in> set (update_where (ev_held (qe_id e) tok) (ev_release EvDone (aw_clock s)) (aw_events s)).
      ev_id y = qe_id e \<and> ev_status y = EvDone"
    unfolding bex_update_where using x(2,3) by (intro bexI [of _ x]) (simp_all add: ev_release_def ev_held_def)
  then show ?thesis
    using x assms(2) by (auto simp: finish_def queue_done_def run_bind mark_done_def Let_def at_states_def)
qed

lemma run_queue_retry:
  assumes "holds_event e s"
  defines "st \<equiv> (if qe_attempts e \<ge> qe_max_attempts e then EvDeadLetter else EvRetrying)"
  shows "\<exists>t. run (queue_retry e delay err) s = (Inr (Some st), t) \<and> aw_effects t = aw_effects s \<and> aw_actions t = aw_actions s
    \<and> (\<exists>y \<in> set (aw_events t). ev_id y = qe_id e \<and> ev_status y = st)"
proof -
  obtain tok x where x: "qe_lease_token e = Some tok" "x \<in> set (aw_events s)" "ev_held (qe_id e) tok x"
    "ev_attempts x = qe_attempts e" "ev_max_attempts x = qe_max_attempts e" and d: "distinct (map ev_id (aw_events s))"
    using assms(1) by (auto simp: holds_event_def)
  have one: "fetchone (ev_held (qe_id e) tok) (aw_events s) = Some x" "filter (ev_held (qe_id e) tok) (aw_events s) = [x]"
    using d x(2,3) by (auto intro!: fetchone_pk [where k = ev_id] filter_pk [where k = ev_id and x = "qe_id e"] simp: ev_held_def)
  let ?f = "\<lambda>r. (ev_release st (aw_clock s) r)\<lparr>ev_run_after := aw_clock s + delay, ev_last_error := Some err\<rparr>"
  have "\<exists>y \<in> set (update_where (ev_held (qe_id e) tok) ?f (aw_events s)). ev_id y = qe_id e \<and> ev_status y = st"
    unfolding bex_update_where using x(2,3) by (intro bexI [of _ x]) (simp_all add: ev_release_def ev_held_def)
  then show ?thesis
    using x one by (simp add: queue_retry_def mark_retry_def rowcount_def Let_def st_def)
qed

text \<open>A status change that finds the action in a state it may start from.\<close>

definition change_to :: "action_change \<Rightarrow> (action_state set \<times> action_state) option" where
  "change_to ch = (case ch of
     ChExecuting \<Rightarrow> Some ({ActApproved, ActQueued}, ActExecuting)
   | ChQueued _ \<Rightarrow> Some ({ActExecuting}, ActQueued)
   | ChExecuted _ \<Rightarrow> Some ({ActExecuting, ActQueued}, ActExecuted)
   | ChFailed _ \<Rightarrow> Some ({ActApproved, ActExecuting, ActQueued}, ActFailed)
   | ChRetryable _ \<Rightarrow> Some ({ActExecuting}, ActQueued)
   | ChUncertain _ \<Rightarrow> Some ({ActExecuting}, ActUncertain)
   | _ \<Rightarrow> None)"

lemma run_change:
  assumes "get_action k tn src (aw_actions s) = Some r" and "change_to ch = Some (S, st)" and "ac_status r \<in> S"
  shows "\<exists>t r'. run (store_change ch k tn src) s = (Inr True, t) \<and> aw_effects t = aw_effects s \<and> aw_events t = aw_events s
    \<and> get_action k tn src (aw_actions t) = Some r' \<and> ac_status r' = st"
proof -
  have "\<exists>rows r'. change_action ch (aw_clock s) k tn src (aw_actions s) = (True, rows) \<and> get_action k tn src rows = Some r' \<and> ac_status r' = st"
    using assms(2,3)
    by (cases ch) (auto simp: change_to_def change_action_defs ac_envelope_def intro!: transition_status [OF assms(1)])
  then show ?thesis by (auto simp: store_change_def)
qed

lemma run_change_finish:
  assumes "get_action k tn src (aw_actions s) = Some r" and "change_to ch = Some (S, st)" and "ac_status r \<in> S"
    and "holds_event e s"
  shows "\<exists>t. run (bind (store_change ch k tn src) (\<lambda>_. finish e)) s = (Inr (), t) \<and> aw_effects t = aw_effects s
    \<and> at_states k tn src (qe_id e) t (st, EvDone)"
proof -
  obtain u r' where u: "run (store_change ch k tn src) s = (Inr True, u)" "aw_effects u = aw_effects s" "aw_events u = aw_events s"
    "get_action k tn src (aw_actions u) = Some r'" "ac_status r' = st"
    using run_change [OF assms(1-3)] by blast
  then have "holds_event e u" using assms(4) by (simp add: holds_event_def)
  then show ?thesis using run_finish [OF _ u(4)] u by (auto simp: run_bind)
qed

lemma run_retry_action:
  assumes "get_action k (qe_tenant_id e) src (aw_actions s) = Some r" and "ac_status r = ActExecuting" and "holds_event e s"
  shows "\<exists>t. run (retry_action e k src err secs) s = (Inr (), t) \<and> aw_effects t = aw_effects s
    \<and> at_states k (qe_tenant_id e) src (qe_id e) t
        (if qe_attempts e \<ge> qe_max_attempts e then (ActFailed, EvDeadLetter) else (ActQueued, EvRetrying))"
proof -
  define final where "final = (qe_attempts e \<ge> qe_max_attempts e)"
  let ?ch = "if final then ChFailed err else ChRetryable err"
  obtain u r' where u: "run (store_change ?ch k (qe_tenant_id e) src) s = (Inr True, u)" "aw_effects u = aw_effects s"
    "aw_events u = aw_events s" "get_action k (qe_tenant_id e) src (aw_actions u) = Some r'"
    "ac_status r' = (if final then ActFailed else ActQueued)"
    using run_change [OF assms(1), of ?ch] assms(2) by (cases final) (auto simp: change_to_def)
  have "holds_event e u" using assms(3) u(3) by (simp add: holds_event_def)
  then show ?thesis
    using run_queue_retry [of e u secs err] u
    by (cases final) (auto simp: retry_action_def Let_def run_bind final_def at_states_def)
qed

lemma run_settle_outcome:
  assumes "get_action k (qe_tenant_id e) src (aw_actions s) = Some r" and "ac_status r = ActExecuting" and "holds_event e s"
  shows "\<exists>t. run (settle_outcome secs e k src out) s = (Inr (), t) \<and> aw_effects t = aw_effects s
    \<and> at_states k (qe_tenant_id e) src (qe_id e) t (outcome_states (qe_attempts e \<ge> qe_max_attempts e) out)"
proof -
  note retry = run_retry_action [OF assms]
  have settle: "\<exists>t. run (bind (store_change ch k (qe_tenant_id e) src) (\<lambda>_. finish e)) s = (Inr (), t) \<and> aw_effects t = aw_effects s
      \<and> at_states k (qe_tenant_id e) src (qe_id e) t (st, EvDone)" if "change_to ch = Some (S, st)" "ActExecuting \<in> S" for ch S st
    using run_change_finish [OF assms(1) that(1) _ assms(3)] that(2) assms(2) by simp
  have failed: "\<exists>t. run (exec_failed e k src err) s = (Inr (), t) \<and> aw_effects t = aw_effects s
      \<and> at_states k (qe_tenant_id e) src (qe_id e) t (ActUncertain, EvDone)" for err
    unfolding exec_failed_def by (rule settle) (auto simp: change_to_def)
  show ?thesis
  proof (cases out)
    case (ExecReturned v)
    show ?thesis
    proof (cases "validate_action_execution_result v")
      case (Inl err)
      then show ?thesis using failed ExecReturned by (cases err) (auto simp: settle_outcome_def outcome_states_def)
    next
      case (Inr x)
      then have "xr_status x \<in> set [''queued'', ''executed'', ''permanent_failure'', ''retryable_failure'']"
        by (auto simp: validate_action_execution_result_def rbind_eq_Inr split: if_splits json.splits)
      then consider "xr_status x = ''queued''" | "xr_status x = ''executed''" | "xr_status x = ''permanent_failure''"
        | "xr_status x = ''retryable_failure''" by auto
      then show ?thesis
        by cases (use Inr ExecReturned retry settle in
          \<open>simp_all add: settle_outcome_def outcome_states_def apply_action_result_def Let_def change_to_def\<close>)
    qed
  qed (use failed retry in \<open>simp_all add: settle_outcome_def outcome_states_def Let_def\<close>)
qed

subsection \<open>A concrete world\<close>

definition demo_execution :: enqueue_args where
  "demo_execution = \<lparr>ea_tenant_id = ''t'', ea_recipient = ''actions'', ea_message_type = ''ExecuteAction'',
     ea_payload = JObj [(''action_id'', JStr ''act_a''), (''source_id'', JStr ''chat'')], ea_idempotency_key = ''x'',
     ea_priority = 100, ea_run_after = None, ea_max_attempts = 5, ea_correlation_id = None, ea_causation_id = None\<rparr>"

definition demo_world :: action_world where
  "demo_world = \<lparr>aw_clock = 10, aw_actions = [demo_approved],
     aw_events = [new_event_row (\<lambda>s. s) 6 ''x'' demo_execution], aw_effects = []\<rparr>"

definition demo_value :: "string \<Rightarrow> execution_value" where
  "demo_value st = \<lparr>xv_result = JObj [], xv_status = st, xv_error = JNull, xv_retry_after_s = JNull\<rparr>"

definition demo_worker :: "string \<Rightarrow> actions_worker" where
  "demo_worker st = \<lparr>wk_recipient = ''actions'', wk_batch_size = 5, wk_owner = ''h'', wk_lease_seconds = 60,
     wk_tenant_id = None, wk_registry = (\<lambda>_. True), wk_exec = (\<lambda>_. ExecReturned (demo_value st)), wk_retry_backoff_s = 30\<rparr>"

definition started_pool :: "actions_worker \<Rightarrow> string \<Rightarrow> action_world pool \<Rightarrow> action_world pool" where
  "started_pool w tok P = (case run_actions_queue_worker w tok (fst P) of Inl e \<Rightarrow> P | Inr (ps, t) \<Rightarrow> (t, snd P @ ps))"

definition late_pool :: "action_world pool \<Rightarrow> action_world pool" where
  "late_pool P = (fst P\<lparr>aw_clock := 100\<rparr>, snd P)"

lemma started_pool_step:
  assumes "run_actions_queue_worker w tok (fst P) = Inr (ps, t)" and "ok w"
  shows "pool_step env (aw_start ok) (MvStart (w, tok)) P (started_pool w tok P)"
  using pool_start [of "aw_start ok" "(w, tok)" "fst P" ps t env "snd P"] assms
  by (cases P) (simp add: aw_start_def started_pool_def)

lemma late_pool_step: "pool_step (aw_env_step sha) start (MvEnv (EnvClock 100)) P (late_pool P)"
  using pool_env [of "aw_env_step sha" "EnvClock 100" "fst P" "fst P\<lparr>aw_clock := 100\<rparr>" start "snd P"] env_clock
  by (cases P) (simp add: late_pool_def)

lemma demo_start:
  assumes "ok (demo_worker st)"
  shows "pool_step env (aw_start ok) (MvStart (demo_worker st, tok)) P (started_pool (demo_worker st) tok P)"
proof -
  have "\<exists>ps t. run_actions_queue_worker (demo_worker st) tok (fst P) = Inr (ps, t)"
    by (simp add: run_actions_queue_worker_def demo_worker_def claim_due_def actions_claim_def split: prod.split)
  with assms show ?thesis by (blast intro: started_pool_step)
qed

lemma demo_world_inv: "ac_inv (aw_actions demo_world)"
  using demo_action_inv by (simp add: demo_world_def)

subsection \<open>Properties\<close>

text \<open>C3: A start that was recorded and whose outcome was not is never repeated.  When every worker has
  stopped while an action is \<open>executing\<close>, then however the workers are restarted, interleaved and stopped
  again, whatever their executors answer, and whatever is done to actions and events meanwhile, no executor
  is called for this action again, and the action stays in a state that no worker starts an action from.\<close>

theorem lost_start_not_repeated:
  assumes "ac_inv (aw_actions s)" and "get_action k tn src (aw_actions s) = Some r" and "ac_status r = ActExecuting"
    and "steps (aw_step sha (\<lambda>_. True)) mvs (s, []) (t, ws)"
  shows "starts k tn src t = starts k tn src s
    \<and> (\<exists>r'. get_action k tn src (aw_actions t) = Some r' \<and> ac_status r' \<in> spent_states)"
proof -
  have r: "r \<in> set (aw_actions s)" "ac_is k tn src r" using assms(2) by (auto simp: get_action_def dest: fetchone_SomeD)
  have "ac_status x \<in> spent_states" if "x \<in> set (aw_actions s)" "ac_is k tn src x" for x
  proof -
    have "x = r" using that r assms(1) distinct_map_eq [of ac_id "aw_actions s" x r] by (simp add: ac_inv_def ac_is_def)
    then show ?thesis using assms(3) by (simp add: spent_states_def)
  qed
  then have "spent k tn src s" using r unfolding spent_def by blast
  then have t: "spent k tn src t" "starts k tn src t = starts k tn src s"
    using action_restart.spent_not_started [OF assms(4,1)] by blast+
  then obtain r' where "get_action k tn src (aw_actions t) = Some r'"
    unfolding get_action_def spent_def by (metis fetchone_None not_None_eq)
  moreover from this have "ac_status r' \<in> spent_states" using t(1) by (auto simp: spent_def get_action_def dest: fetchone_SomeD)
  ultimately show ?thesis using t(2) by blast
qed

definition demo_lost :: action_world where
  "demo_lost = demo_world\<lparr>aw_actions := [demo_approved\<lparr>ac_status := ActExecuting, ac_updated_at := 6\<rparr>]\<rparr>"

theorem lost_start_not_repeated_witness:
  "starts ''act_a'' ''t'' ''chat'' (fst (started_pool (demo_worker ''executed'') ''tok'' (demo_lost, []))) = 0"
proof -
  have inv: "ac_inv (aw_actions demo_lost)" 
    using ac_inv_change [OF demo_action_inv(2), of ChExecuting 6 "''act_a''" "''t''" "''chat''"] unfolding demo_execute
    by (simp add: demo_lost_def)
  have get: "get_action ''act_a'' ''t'' ''chat'' (aw_actions demo_lost) = Some (demo_approved\<lparr>ac_status := ActExecuting, ac_updated_at := 6\<rparr>)"
    by code_simp
  let ?P = "started_pool (demo_worker ''executed'') ''tok'' (demo_lost, [])"
  have first: "aw_step (\<lambda>s. s) (\<lambda>_. True) (MvStart (demo_worker ''executed'', ''tok'')) (demo_lost, []) ?P" by (rule demo_start) simp
  have "steps (aw_step (\<lambda>s. s) (\<lambda>_. True)) [MvStart (demo_worker ''executed'', ''tok'')] (demo_lost, []) (fst ?P, snd ?P)"
    unfolding prod.collapse by (rule steps_Cons, rule first) (rule steps_Nil)
  from lost_start_not_repeated [OF inv get _ this] show ?thesis by (simp add: starts_def demo_lost_def demo_world_def)
qed

text \<open>C16: An action whose executor ends in a definite outcome (executed, failed permanently, or an exception)
  is started at most once, whatever number of workers processes however many events for it, in every
  interleaving of their store calls, with expiring leases and with crashes at every point.\<close>

theorem definite_action_started_once:
  assumes "ac_inv (aw_actions s)" and "starts k tn src s = 0"
    and "steps (aw_step sha (definite_for k tn src)) mvs (s, []) (t, ws)"
  shows "starts k tn src t \<le> 1"
  using assms(3,1,2) by (rule action_once.started_once)

definition demo_started :: "action_world pool" where
  "demo_started = fold run_at [0, 0, 0, 0, 0, 0] (started_pool (demo_worker ''executed'') ''tok'' (demo_world, []))"

theorem definite_action_started_once_witness:
  "starts ''act_a'' ''t'' ''chat'' (fst demo_started) \<le> 1 \<and> starts ''act_a'' ''t'' ''chat'' (fst demo_started) = 1"
proof
  have ok: "definite_for ''act_a'' ''t'' ''chat'' (demo_worker ''executed'')"
    by (simp add: definite_for_def definite_def demo_worker_def demo_value_def)
  have first: "aw_step (\<lambda>s. s) (definite_for ''act_a'' ''t'' ''chat'') (MvStart (demo_worker ''executed'', ''tok'')) (demo_world, [])
      (started_pool (demo_worker ''executed'') ''tok'' (demo_world, []))"
    using ok by (rule demo_start)
  have "can_run [0, 0, 0, 0, 0, 0] (started_pool (demo_worker ''executed'') ''tok'' (demo_world, []))" by code_simp
  from steps_Cons [OF first can_run_steps [OF this]]
  have "steps (aw_step (\<lambda>s. s) (definite_for ''act_a'' ''t'' ''chat''))
      (MvStart (demo_worker ''executed'', ''tok'') # map MvRun [0, 0, 0, 0, 0, 0]) (demo_world, []) (fst demo_started, snd demo_started)"
    by (simp add: demo_started_def)
  then show "starts ''act_a'' ''t'' ''chat'' (fst demo_started) \<le> 1"
    by (rule definite_action_started_once [OF demo_world_inv, rotated]) (simp add: starts_def demo_world_def)
  show "starts ''act_a'' ''t'' ''chat'' (fst demo_started) = 1" by code_simp
qed

text \<open>Processing the event of an approved action (or of one that waits for a retry) without disturbance
  calls the executor exactly once, with the action in state \<open>executing\<close>, and records the outcome: executed,
  failed, handed on, to be retried (failed on the last attempt), or uncertain for an exception and for every
  malformed answer; the event is done, waits for its retry, or is a dead letter accordingly.\<close>

theorem action_outcome_recorded:
  assumes "action_event_ids (qe_payload e) = Inr (k, src)" and "holds_event e s"
    and "get_action k (qe_tenant_id e) src (aw_actions s) = Some r"
    and "ac_status r = ActApproved \<or> ac_status r = ActQueued \<and> ac_last_error r \<noteq> None"
    and "qe_attempts e \<le> qe_max_attempts e" and "registry (ac_kind r)"
  shows "\<exists>t a. run (process_action_queue_event registry exec secs e) s = (Inr (), t)
    \<and> aw_effects t = aw_effects s @ [a] \<and> ar_id a = k \<and> ar_status a = ActExecuting
    \<and> at_states k (qe_tenant_id e) src (qe_id e) t (outcome_states (qe_attempts e \<ge> qe_max_attempts e) (exec a))"
proof -
  let ?tn = "qe_tenant_id e"
  have start: "run (process_action_queue_event registry exec secs e) s = run (start_action registry exec secs e k src (ac_kind r)) s"
    using assms(1,3-5)
    by (auto simp: process_action_queue_event_def store_get_def run_bind handle_action_def row_to_action_def terminal_status_def)
  have "ac_status r \<in> {ActApproved, ActQueued}" using assms(4) by auto
  then obtain u r' where u: "run (store_change ChExecuting k ?tn src) s = (Inr True, u)" "aw_effects u = aw_effects s"
    "aw_events u = aw_events s" "get_action k ?tn src (aw_actions u) = Some r'" "ac_status r' = ActExecuting"
    using run_change [OF assms(3), of ChExecuting] by (auto simp: change_to_def)
  let ?a = "row_to_action r'" and ?v = "u\<lparr>aw_effects := aw_effects u @ [row_to_action r']\<rparr>"
  have a: "ar_id ?a = k" "ar_status ?a = ActExecuting" using store_get_names [OF u(4)] u(5) by (simp_all add: row_to_action_def)
  have v: "get_action k ?tn src (aw_actions ?v) = Some r'" "holds_event e ?v"
    using u assms(2) by (simp_all add: holds_event_def)
  have "run (start_action registry exec secs e k src (ac_kind r)) s = run (settle_outcome secs e k src (exec ?a)) ?v"
    using u assms(6) by (simp add: start_action_def run_bind run_executor_def store_get_def execute_effect_def)
  with start run_settle_outcome [OF v(1) u(5) v(2), of secs "exec ?a"] u(2) a show ?thesis by auto
qed

definition demo_claimed :: "event_row list" where
  "demo_claimed = (case claim_due (actions_claim ''actions'' 5 ''h'' 60 None) 10 ''tok'' (aw_events demo_world) of
     Inr (claimed, evs) \<Rightarrow> evs | Inl _ \<Rightarrow> [])"

theorem action_outcome_recorded_witness:
  "\<exists>t a. run (process_action_queue_event (\<lambda>_. True) (\<lambda>_. ExecRaised ''boom'') 30 (row_to_queue_event (hd demo_claimed)))
      (demo_world\<lparr>aw_events := demo_claimed\<rparr>) = (Inr (), t)
    \<and> aw_effects t = [a] \<and> at_states ''act_a'' ''t'' ''chat'' ''evt_x'' t (ActUncertain, EvDone)"
proof -
  let ?e = "row_to_queue_event (hd demo_claimed)" and ?s = "demo_world\<lparr>aw_events := demo_claimed\<rparr>"
  have e: "qe_tenant_id ?e = ''t''" "qe_id ?e = ''evt_x''" "qe_attempts ?e \<le> qe_max_attempts ?e"
    "action_event_ids (qe_payload ?e) = Inr (''act_a'', ''chat'')" by code_simp+
  have get: "get_action ''act_a'' (qe_tenant_id ?e) ''chat'' (aw_actions ?s) = Some demo_approved"
    unfolding e by code_simp
  have claimed: "length demo_claimed = 1" "ev_held ''evt_x'' ''tok'' (hd demo_claimed)" "qe_lease_token ?e = Some ''tok''"
    "ev_lease_owner (hd demo_claimed) = Some ''h''" "ev_lease_until (hd demo_claimed) = Some 70" "ev_attempts (hd demo_claimed) = 1"
    by code_simp+
  then obtain x where x: "demo_claimed = [x]" by (auto simp: length_Suc_conv)
  have "holds_event ?e ?s"
    using claimed e(2) unfolding holds_event_def x
    by (auto simp: ev_inv_def ev_row_ok_def ev_held_def row_to_queue_event_def)
  moreover have "ac_status demo_approved = ActApproved" by (simp add: demo_action_defs)
  ultimately show ?thesis
    using action_outcome_recorded [OF e(4) _ get, of "\<lambda>_. True" "\<lambda>_. ExecRaised ''boom''" 30] e(1-3)
    by (fastforce simp: outcome_states_def demo_world_def)
qed

text \<open>C29: A hand-off can be repeated: with an executor that always reports that the action was handed on
  (\<open>queued\<close>), a worker that read the approved action and lost its lease before it marked the action as
  executing starts it a second time, after another worker handed it on: \<open>mark_executing\<close> accepts every
  queued action.\<close>

theorem action_handoff_repeated:
  "\<exists>mvs t ws. steps (aw_step (\<lambda>s. s) (\<lambda>w. w = demo_worker ''queued'')) mvs (demo_world, []) (t, ws)
    \<and> starts ''act_a'' ''t'' ''chat'' demo_world = 0 \<and> starts ''act_a'' ''t'' ''chat'' t = 2"
proof -
  define w where "w = demo_worker ''queued''"
  define P1 where "P1 = started_pool w ''tok1'' (demo_world, [])"
  define P2 where "P2 = fold run_at [0] P1"
  define P4 where "P4 = started_pool w ''tok2'' (late_pool P2)"
  define Q where "Q = fold run_at [1, 1, 1, 1, 1, 1, 0, 0, 0] P4"
  note defs = Q_def P4_def P2_def P1_def w_def
  let ?step = "aw_step (\<lambda>s. s) (\<lambda>v. v = w)"
  have s1: "?step (MvStart (w, ''tok1'')) (demo_world, []) P1" and s3: "?step (MvStart (w, ''tok2'')) (late_pool P2) P4"
    unfolding P1_def P4_def w_def by (rule demo_start, rule refl)+
  have "can_run [0] P1" unfolding defs by code_simp
  then have r1: "steps ?step (map MvRun [0]) P1 P2" unfolding P2_def by (rule can_run_steps)
  have "can_run [1, 1, 1, 1, 1, 1, 0, 0, 0] P4" unfolding defs by code_simp
  then have r2: "steps ?step (map MvRun [1, 1, 1, 1, 1, 1, 0, 0, 0]) P4 Q" unfolding Q_def by (rule can_run_steps)
  have late: "?step (MvEnv (EnvClock 100)) P2 (late_pool P2)" by (rule late_pool_step)
  have run: "\<exists>mvs. steps ?step mvs (demo_world, []) (fst Q, snd Q)"
    unfolding prod.collapse
    by (rule exI, rule steps_snoc_list, rule steps_Cons, rule s1, rule r1, rule steps_Cons, rule late, rule steps_Cons, rule s3, rule r2)
  have two: "starts ''act_a'' ''t'' ''chat'' (fst Q) = 2" unfolding defs by code_simp
  have none: "starts ''act_a'' ''t'' ''chat'' demo_world = 0" by code_simp
  show ?thesis using run two none unfolding w_def by blast
qed

end
