(* ===== verification/Outbound_Worker.thy ===== *)
theory Outbound_Worker
  imports Effect_Pool Dialogue_Plans Python_Text
begin

section \<open>The outbound worker\<close>

text \<open>
  Models \<open>outbound/worker.py\<close>, the registry of \<open>outbound/registry.py\<close> and \<open>SendResult\<close> of
  \<open>outbound/contracts.py\<close>: a worker claims messages of one channel, admits each to sending, calls the
  channel's sender and records the outcome.  The sender is an arbitrary function; \<open>sw_sends\<close> has one entry per
  call of a sender.  The latency log is not modelled.  A message is sent at most once, in every interleaving
  of workers, crashes, claims, new messages and dialogue plans, unless its sender reports that it may be sent
  again.
\<close>

subsection \<open>Contracts\<close>

record send_value =
  sv_metadata :: json
  sv_status :: string
  sv_error :: json
  sv_retry_after_s :: json

datatype send_outcome =
    SendReturned send_value
  | SendOtherObject
  | SendNotStarted string
  | SendRaised string

record send_result =
  sr_metadata :: json
  sr_status :: string
  sr_error :: "string option"
  sr_retry_after_s :: "int option"

definition validate_send_result :: "send_value \<Rightarrow> send_result result" where
  "validate_send_result v =
     (if sv_status v \<notin> set [''sent'', ''retryable_failure'', ''permanent_failure'']
      then Inl (ValueError (''unsupported outbound send result status: '' @ repr_str (sv_status v)))
      else case sv_metadata v of
        JObj kvs \<Rightarrow>
          rbind (case sv_error v of JNull \<Rightarrow> Inr None | JStr e \<Rightarrow> Inr (Some e)
                 | _ \<Rightarrow> Inl (TypeError ''outbound send result error must be a string or None'')) (\<lambda>err.
          rbind (case sv_retry_after_s v of JNull \<Rightarrow> Inr None
                 | JInt i \<Rightarrow> if i < 0 then Inl (ValueError ''outbound send result retry_after_s must be a non-negative integer or None'')
                             else Inr (Some i)
                 | _ \<Rightarrow> Inl (ValueError ''outbound send result retry_after_s must be a non-negative integer or None'')) (\<lambda>retry.
            Inr \<lparr>sr_metadata = JObj kvs, sr_status = sv_status v, sr_error = err, sr_retry_after_s = retry\<rparr>))
      | _ \<Rightarrow> Inl (TypeError ''outbound send result metadata must be a dictionary''))"

subsection \<open>The world and its calls\<close>

record send_world =
  sw_clock :: int
  sw_db :: conv_db
  sw_sends :: "outbound_row list"

type_synonym 'a send_prog = "(send_world, 'a) prog"

text \<open>\<open>lease_token = NULL\<close> holds for no row.\<close>

definition call_sending :: "outbound_row \<Rightarrow> bool send_prog" where
  "call_sending m = call (\<lambda>s. case ob_lease_token m of
       None \<Rightarrow> (False, s)
     | Some t \<Rightarrow> let (b, db) = mark_sending (sw_clock s) (ob_id m) t (sw_db s) in (b, s\<lparr>sw_db := db\<rparr>))"

definition call_sent :: "string \<Rightarrow> json \<Rightarrow> outbound_row \<Rightarrow> bool send_prog" where
  "call_sent uuid metadata m = call_result (\<lambda>s. case ob_lease_token m of
       None \<Rightarrow> Inr (False, s)
     | Some t \<Rightarrow> rbind (mark_sent (sw_clock s) uuid (Some metadata) (ob_id m) t (sw_db s)) (\<lambda>(b, db).
         Inr (b, s\<lparr>sw_db := db\<rparr>)))"

definition call_uncertain :: "string \<Rightarrow> outbound_row \<Rightarrow> bool send_prog" where
  "call_uncertain err m = call (\<lambda>s. case ob_lease_token m of
       None \<Rightarrow> (False, s)
     | Some t \<Rightarrow> let (b, rows) = outbound_mark_uncertain (sw_clock s) err (ob_id m) t (db_outbound (sw_db s))
                 in (b, s\<lparr>sw_db := (sw_db s)\<lparr>db_outbound := rows\<rparr>\<rparr>))"

definition call_dead_letter :: "string \<Rightarrow> outbound_row \<Rightarrow> bool send_prog" where
  "call_dead_letter err m = call (\<lambda>s. case ob_lease_token m of
       None \<Rightarrow> (False, s)
     | Some t \<Rightarrow> let (b, rows) = outbound_mark_dead_letter (sw_clock s) err (ob_id m) t (db_outbound (sw_db s))
                 in (b, s\<lparr>sw_db := (sw_db s)\<lparr>db_outbound := rows\<rparr>\<rparr>))"

definition call_retry :: "int \<Rightarrow> string \<Rightarrow> outbound_row \<Rightarrow> ob_state option send_prog" where
  "call_retry delay err m = call (\<lambda>s. case ob_lease_token m of
       None \<Rightarrow> (None, s)
     | Some t \<Rightarrow> let (st, rows) = outbound_mark_retry (sw_clock s) (sw_clock s + delay) err (ob_id m) t (db_outbound (sw_db s))
                 in (st, s\<lparr>sw_db := (sw_db s)\<lparr>db_outbound := rows\<rparr>\<rparr>))"

definition send_effect :: "(outbound_row \<Rightarrow> send_outcome) \<Rightarrow> outbound_row \<Rightarrow> send_outcome send_prog" where
  "send_effect sender m = call (\<lambda>s. (sender m, s\<lparr>sw_sends := sw_sends s @ [m]\<rparr>))"

subsection \<open>Sending one message\<close>

definition text_or :: "string option \<Rightarrow> string \<Rightarrow> string" where
  "text_or err dflt = (case err of None \<Rightarrow> dflt | Some t \<Rightarrow> if t = [] then dflt else t)"

definition apply_send_result :: "string \<Rightarrow> int \<Rightarrow> outbound_row \<Rightarrow> send_result \<Rightarrow> bool send_prog" where
  "apply_send_result uuid retry_backoff_s m r =
     (if sr_status r = ''sent'' then call_sent uuid (sr_metadata r) m
      else if sr_status r = ''retryable_failure''
      then bind (call_retry (case sr_retry_after_s r of None \<Rightarrow> retry_backoff_s | Some t \<Rightarrow> t)
                   (text_or (sr_error r) ''outbound send failed transiently'') m) (\<lambda>st. Return (st \<noteq> None))
      else if sr_status r = ''permanent_failure''
      then call_dead_letter (text_or (sr_error r) ''outbound send failed permanently'') m
      else Raise (ValueError (''unsupported outbound send result status: '' @ repr_str (sr_status r))))"

text \<open>The \<open>try\<close> block after the send, and its two handlers.\<close>

definition settle_send :: "string \<Rightarrow> int \<Rightarrow> outbound_row \<Rightarrow> send_outcome \<Rightarrow> bool send_prog" where
  "settle_send uuid retry_backoff_s m out = (case out of
     SendNotStarted err \<Rightarrow> bind (call_retry retry_backoff_s err m) (\<lambda>st. Return (st \<noteq> None))
   | SendRaised err \<Rightarrow> call_uncertain err m
   | SendOtherObject \<Rightarrow> call_uncertain ''TypeError: channel sender must return SendResult'' m
   | SendReturned v \<Rightarrow>
       catch (case validate_send_result v of Inl e \<Rightarrow> Raise e | Inr r \<Rightarrow> apply_send_result uuid retry_backoff_s m r)
         (\<lambda>e. call_uncertain (error_line e) m))"

definition send_message ::
  "(outbound_row \<Rightarrow> send_outcome) \<Rightarrow> (string \<Rightarrow> string) \<Rightarrow> int \<Rightarrow> outbound_row \<Rightarrow> unit send_prog" where
  "send_message sender uuid retry_backoff_s m =
     bind (call_sending m) (\<lambda>admitted.
       if \<not> admitted then Return ()
       else bind (send_effect sender m) (\<lambda>out.
            bind (settle_send (uuid (ob_id m)) retry_backoff_s m out) (\<lambda>_. Return ())))"

subsection \<open>Claiming\<close>

record outbound_worker =
  ow_channel :: string
  ow_tenant_id :: "string option"
  ow_batch_size :: int
  ow_owner :: string
  ow_lease_seconds :: int
  ow_retry_backoff_s :: int
  ow_senders :: "string \<Rightarrow> (outbound_row \<Rightarrow> send_outcome) option"
  ow_uuid :: "string \<Rightarrow> string"

definition sender_for :: "outbound_worker \<Rightarrow> (outbound_row \<Rightarrow> send_outcome) result" where
  "sender_for w = (case ow_senders w (ow_channel w) of
     None \<Rightarrow> Inl (KeyError (''no outbound sender registered for channel='' @ repr_str (ow_channel w)))
   | Some sender \<Rightarrow> Inr sender)"

definition run_outbound_queue_worker ::
  "outbound_worker \<Rightarrow> string \<Rightarrow> send_world \<Rightarrow> (unit send_prog list \<times> send_world) result" where
  "run_outbound_queue_worker w token s =
     (if ow_batch_size w < 1 then Inl (ValueError ''batch_size must be positive'')
      else if ow_lease_seconds w < 1 then Inl (ValueError ''lease_seconds must be positive'')
      else if given_blank (ow_tenant_id w) then Inl (ValueError ''tenant_id must be non-empty when provided'')
      else rbind (sender_for w) (\<lambda>sender.
           rbind (outbound_claim_due \<lparr>oc_channel = ow_channel w, oc_limit = ow_batch_size w, oc_lease_owner = ow_owner w,
                    oc_lease_seconds = ow_lease_seconds w, oc_tenant_id = ow_tenant_id w\<rparr> (sw_clock s) token (sw_db s))
             (\<lambda>(claimed, db). Inr (map (send_message sender (ow_uuid w) (ow_retry_backoff_s w)) claimed, s\<lparr>sw_db := db\<rparr>))))"

end
