(* ===== verification/Outbound_Worker_Safety.thy ===== *)
theory Outbound_Worker_Safety
  imports Outbound_Worker
begin

section \<open>Sends under interleaving and crashes\<close>

text \<open>
  The outbound workers keep the discipline of \<open>Effect_Pool\<close>.  Meanwhile messages are enqueued, leases are
  claimed and renewed by others, and dialogue plans close tasks and suppress their messages.
\<close>

subsection \<open>The system\<close>

datatype sw_env = EnvStore cv_op | EnvTime int

text \<open>Only workers admit messages to sending and settle them.\<close>

fun sw_outside :: "cv_op \<Rightarrow> bool" where
  "sw_outside (CvOutbound (OSending now k t)) = False"
| "sw_outside (CvOutbound (OSettle a k t)) = False"
| "sw_outside op = True"

inductive sw_env_step :: "(string \<Rightarrow> string) \<Rightarrow> sw_env \<Rightarrow> send_world \<Rightarrow> send_world \<Rightarrow> bool" for sha where
  sw_store: "cv_step sha op (sw_db s) db \<Longrightarrow> sw_outside op \<Longrightarrow> sw_env_step sha (EnvStore op) s (s\<lparr>sw_db := db\<rparr>)"
| sw_time: "sw_env_step sha (EnvTime now) s (s\<lparr>sw_clock := now\<rparr>)"

definition sw_start ::
  "(outbound_worker \<Rightarrow> bool) \<Rightarrow> outbound_worker \<times> string \<Rightarrow> send_world \<Rightarrow> unit send_prog list \<Rightarrow> send_world \<Rightarrow> bool" where
  "sw_start ok x s ps t \<longleftrightarrow> ok (fst x) \<and> run_outbound_queue_worker (fst x) (snd x) s = Inr (ps, t)"

abbreviation sw_step where
  "sw_step sha ok \<equiv> pool_step (sw_env_step sha) (sw_start ok)"

subsection \<open>Messages that cannot be sent\<close>

definition unsendable :: "ob_state set" where
  "unsendable = {ObSending, ObSent, ObUncertain, ObDeadLetter, ObCancelled}"

definition spent_rows :: "string \<Rightarrow> outbound_row list \<Rightarrow> bool" where
  "spent_rows k rows \<longleftrightarrow> k \<in> ob_id ` set rows \<and> (\<forall>r \<in> set rows. ob_id r = k \<longrightarrow> ob_status r \<in> unsendable)"

abbreviation spent_msg :: "string \<Rightarrow> send_world \<Rightarrow> bool" where
  "spent_msg k s \<equiv> spent_rows k (db_outbound (sw_db s))"

definition sends :: "string \<Rightarrow> send_world \<Rightarrow> nat" where
  "sends k s = length (filter (\<lambda>m. ob_id m = k) (sw_sends s))"

lemma spent_rows_update:
  assumes "spent_rows k rows" and "\<And>r. ob_id (f r) = ob_id r"
    and "\<And>r. r \<in> set rows \<Longrightarrow> p r \<Longrightarrow> ob_id r = k \<Longrightarrow> ob_status r \<in> unsendable \<Longrightarrow> ob_status (f r) \<in> unsendable"
  shows "spent_rows k (update_where p f rows)"
proof -
  have "ob_id ` set (update_where p f rows) = ob_id ` set rows"
    unfolding set_map [symmetric] by (simp add: map_update_where [where k = ob_id] assms(2))
  then show ?thesis using assms(1,3) unfolding spent_rows_def ball_update_where by (auto simp: assms(2))
qed

lemma ob_release_proj [simp]: "ob_id (ob_release st err now r) = ob_id r" "ob_status (ob_release st err now r) = st"
  by (simp_all add: ob_release_def)

lemma spent_cleanup: "spent_rows k rows \<Longrightarrow> spent_rows k (ob_cleanup c now rows)"
  unfolding ob_cleanup_def Let_def by (intro spent_rows_update) (auto simp: unsendable_def)

lemma spent_claim:
  assumes "spent_rows k rows"
  shows "spent_rows k (snd (outbound_claim_txn c now t rows))"
proof -
  let ?rows = "ob_cleanup c now rows"
  let ?ids = "map ob_id (ob_candidates c now ?rows)"
  have s: "spent_rows k ?rows" by (rule spent_cleanup [OF assms])
  have "k \<notin> set ?ids"
  proof
    assume "k \<in> set ?ids"
    then obtain r where "r \<in> set (ob_candidates c now ?rows)" "ob_id r = k" by auto
    then have "r \<in> set ?rows" "ob_due c now ?rows r" "ob_id r = k"
      by (auto simp: ob_candidates_def select_where_def dest!: in_set_takeD)
    then show False using s by (auto simp: spent_rows_def ob_due_def unsendable_def)
  qed
  then have "spent_rows k (update_where (\<lambda>r. ob_id r \<in> set ?ids) (ob_lease c now t) ?rows)"
    by (intro spent_rows_update [OF s]) (auto simp: ob_lease_def)
  then show ?thesis using s by (simp add: outbound_claim_txn_def Let_def)
qed

lemma spent_append: "spent_rows k rows \<Longrightarrow> ob_id n \<noteq> k \<Longrightarrow> spent_rows k (rows @ [n])"
  by (auto simp: spent_rows_def)

lemma spent_suppressed:
  assumes "spent_rows k rows" and "list_all2 ob_suppressed rows rows'"
  shows "spent_rows k rows'"
proof -
  have "list_all2 (\<lambda>r r'. ob_id r' = ob_id r \<and> (ob_status r \<in> unsendable \<longrightarrow> ob_status r' \<in> unsendable)) rows rows'"
    using assms(2) by (rule list_all2_mono) (auto simp: ob_suppressed_def unsendable_def)
  then have "map ob_id rows' = map ob_id rows" and "\<forall>r' \<in> set rows'. \<exists>r \<in> set rows. ob_id r' = ob_id r
      \<and> (ob_status r \<in> unsendable \<longrightarrow> ob_status r' \<in> unsendable)"
    by (induction rule: list_all2_induct) auto
  then show ?thesis using assms(1) unfolding spent_rows_def by (metis list.set_map)
qed

lemma spent_outside:
  assumes "cv_step sha op db db'" and "sw_outside op" and "cv_ok db" and "spent_rows k (db_outbound db)"
  shows "spent_rows k (db_outbound db')"
  using assms
proof (induction rule: cv_step.induct)
  case (cv_outbound op db db')
  from cv_outbound show ?case
  proof (induction rule: ob_step.induct)
    case (ob_enqueue now uuid a db res db')
    let ?n = "new_outbound_row sha now uuid a"
    have "db' = db \<or> (db_outbound db' = db_outbound db @ [?n] \<and> ob_id ?n \<notin> ob_id ` set (db_outbound db))"
      using enqueue_outbound_cases [OF ob_enqueue(1)] by (auto simp: insert_outbound_def split: if_splits)
    then show ?case using ob_enqueue by (auto simp: spent_rows_def)
  next
    case (ob_claim c now t db claimed db')
    then show ?case using outbound_claim_Inr [OF ob_claim(1)] spent_claim [of k "db_outbound db" c now t] by simp
  next
    case (ob_renew now secs i t db b db')
    then show ?case by (auto simp: outbound_renew_lease_def Let_def split: if_splits intro!: spent_rows_update)
  qed simp_all
next
  case (cv_plan now uuid plan db res db')
  then obtain db1 new where "plan_step db db1" "db' = db1\<lparr>db_plans := db_plans db @ new\<rparr>"
    using apply_plan_step [OF cv_plan(1)] by (auto simp: cv_ok_def)
  then show ?case using cv_plan(4) by (auto simp: plan_step_def intro: spent_suppressed)
qed

subsection \<open>The worker's programs\<close>

interpretation send_item: effect_item "\<lambda>s. cv_ok (sw_db s)" "spent_msg k" "sends k" for k .

lemma quiet_call:
  assumes "cv_ok (sw_db s)" and "cv_step sha (CvOutbound op) (sw_db s) db"
    and "spent_rows k (db_outbound (sw_db s)) \<Longrightarrow> spent_rows k (db_outbound db)"
  shows "send_item.quiet_step k s (s\<lparr>sw_db := db\<rparr>)"
  using cv_step_ok [OF assms(2,1)] assms(3) by (auto simp: send_item.quiet_step_def sends_def)

lemma quiet_same: "cv_ok (sw_db s) \<Longrightarrow> send_item.quiet_step k s s"
  by (simp add: send_item.quiet_step_def)

lemma spent_sending: "spent_rows k (db_outbound db) \<Longrightarrow> spent_rows k (db_outbound (snd (mark_sending now i t db)))"
  by (auto simp: mark_sending_def Let_def unsendable_def split: option.split intro!: spent_rows_update)

text \<open>A settlement that leaves the message unsendable; a retry of another message does not concern it.\<close>

lemma spent_settle:
  assumes "spent_rows k (db_outbound db)" and "(\<forall>now ra err. a \<noteq> SendRetry now ra err) \<or> i \<noteq> k"
  shows "spent_rows k (db_outbound (snd (ob_settle a i t db)))"
proof -
  have "spent_rows k (snd (ob_settle_rows a i t (db_outbound db)))"
    using assms
    by (cases a) (auto simp: outbound_mark_uncertain_def outbound_mark_dead_letter_def outbound_mark_retry_def Let_def
        ob_held_def ob_sending_def unsendable_def ob_sent_def split: option.split intro!: spent_rows_update)
  then show ?thesis using ob_settle_cases [of a i t db] assms(1) by (metis snd_conv)
qed

lemma quiet_settle:
  assumes "cv_ok (sw_db s)" and "(\<forall>now ra err. a \<noteq> SendRetry now ra err) \<or> i \<noteq> k"
  shows "send_item.quiet_step k s (s\<lparr>sw_db := snd (ob_settle a i t (sw_db s))\<rparr>)"
  using assms(1)
  by (rule quiet_call [where sha = id and op = "OSettle a i t"])
     (auto intro: spent_settle [OF _ assms(2)] cv_outbound [OF ob_settled [of _ _ _ _ "fst (ob_settle a i t (sw_db s))"]])

lemma harmless_sent [simp]: "send_item.harmless k (call_sent uuid meta m)"
proof -
  have "send_item.quiet_step k s (s\<lparr>sw_db := db\<rparr>)"
    if "cv_ok (sw_db s)" "mark_sent (sw_clock s) uuid (Some meta) i t (sw_db s) = Inr (b, db)" for s i t b db
    using quiet_settle [OF that(1), of "SendConfirmed (sw_clock s) uuid (Some meta)" i k t] that(2) by simp
  then show ?thesis
    by (auto simp: call_sent_def call_result_def quiet_same rbind_def split: option.split sum.split)
qed

lemma harmless_dead [simp]: "send_item.harmless k (call_dead_letter err m)"
  using quiet_settle [of _ "SendDead _ err" "ob_id m" k]
  by (auto simp: call_dead_letter_def call_def quiet_same case_prod_unfold Let_def split: option.split)

lemma harmless_unsure [simp]: "send_item.harmless k (call_uncertain err m)"
  using quiet_settle [of _ "SendUncertain _ err" "ob_id m" k]
  by (auto simp: call_uncertain_def call_def quiet_same case_prod_unfold Let_def split: option.split)

lemma harmless_again:
  assumes "ob_id m \<noteq> k"
  shows "send_item.harmless k (call_retry delay err m)"
  using quiet_settle [where a = "SendRetry _ _ err" and i = "ob_id m" and k = k] assms
  by (auto simp: call_retry_def call_def quiet_same case_prod_unfold Let_def split: option.split)

text \<open>An outcome after which the message is not sent again.\<close>

definition final_send :: "send_outcome \<Rightarrow> bool" where
  "final_send out = (case out of SendNotStarted _ \<Rightarrow> False | SendReturned v \<Rightarrow> sv_status v \<noteq> ''retryable_failure'' | _ \<Rightarrow> True)"

lemma harmless_apply_send:
  "ob_id m \<noteq> k \<or> sr_status r \<noteq> ''retryable_failure'' \<Longrightarrow> send_item.harmless k (apply_send_result uuid secs m r)"
  by (auto simp: apply_send_result_def intro!: send_item.harmless_bind harmless_again)

lemma validate_send_status: "validate_send_result v = Inr r \<Longrightarrow> sr_status r = sv_status v"
  by (auto simp: validate_send_result_def rbind_eq_Inr split: if_splits json.splits)

lemma harmless_settle_send:
  assumes "ob_id m \<noteq> k \<or> final_send out"
  shows "send_item.harmless k (settle_send uuid secs m out)"
proof (cases out)
  case (SendReturned v)
  show ?thesis
  proof (cases "validate_send_result v")
    case (Inr r)
    then show ?thesis using assms SendReturned validate_send_status [OF Inr]
      by (auto simp: settle_send_def final_send_def intro!: send_item.harmless_catch harmless_apply_send)
  qed (simp add: settle_send_def SendReturned)
qed (use assms in \<open>auto simp: settle_send_def final_send_def intro!: send_item.harmless_bind harmless_again\<close>)

text \<open>Admission to sending.\<close>

definition admit :: "outbound_row \<Rightarrow> send_world \<Rightarrow> bool \<times> send_world" where
  "admit m s = (case ob_lease_token m of
       None \<Rightarrow> (False, s)
     | Some t \<Rightarrow> let (b, db) = mark_sending (sw_clock s) (ob_id m) t (sw_db s) in (b, s\<lparr>sw_db := db\<rparr>))"

lemma send_message_eq:
  "send_message sender uuid secs m = Await (\<lambda>s. snd (admit m s)) (\<lambda>s. if \<not> fst (admit m s) then Return ()
     else bind (send_effect sender m) (\<lambda>out. bind (settle_send (uuid (ob_id m)) secs m out) (\<lambda>_. Return ())))"
  by (simp add: send_message_def call_sending_def admit_def)

lemma admit_quiet:
  assumes "cv_ok (sw_db s)"
  shows "send_item.quiet_step k s (snd (admit m s))"
proof (cases "ob_lease_token m")
  case (Some t)
  have "cv_step id (CvOutbound (OSending (sw_clock s) (ob_id m) t)) (sw_db s) (snd (mark_sending (sw_clock s) (ob_id m) t (sw_db s)))"
    by (intro cv_outbound ob_sending) (rule surjective_pairing)
  then have "send_item.quiet_step k s (s\<lparr>sw_db := snd (mark_sending (sw_clock s) (ob_id m) t (sw_db s))\<rparr>)"
    by (rule quiet_call [OF assms]) (rule spent_sending)
  then show ?thesis using Some by (simp add: admit_def case_prod_unfold Let_def)
qed (simp add: admit_def quiet_same assms)

lemma admitted_not_spent: "spent_rows k (db_outbound (sw_db s)) \<Longrightarrow> ob_id m = k \<Longrightarrow> \<not> fst (admit m s)"
  by (auto simp: admit_def mark_sending_def Let_def case_prod_unfold spent_rows_def unsendable_def ob_leased_def
      split: option.split dest!: fetchone_SomeD)


lemma harmless_send_other:
  assumes "ob_id m \<noteq> k"
  shows "send_item.harmless k (send_message sender uuid secs m)"
proof -
  have "send_item.harmless k (send_effect sender m)"
    using assms by (simp add: send_effect_def call_def send_item.quiet_step_def sends_def)
  then show ?thesis
    using assms by (auto simp: send_message_eq admit_quiet intro!: send_item.harmless_bind harmless_settle_send)
qed

lemma calm_send: "send_item.calm k (send_message sender uuid secs m)"
proof (cases "ob_id m = k")
  case True
  then show ?thesis
    using admit_quiet [of _ k m] admitted_not_spent [of k _ m]
    unfolding send_message_eq send_item.calm_Await by (auto simp: send_item.quiet_step_def)
qed (rule send_item.harmless_calm [OF harmless_send_other])


subsection \<open>Pools of outbound workers\<close>

lemma sw_env_quiet:
  assumes "sw_env_step sha e s t" and "cv_ok (sw_db s)"
  shows "send_item.quiet_step k s t"
  using assms
  by (induction rule: sw_env_step.induct)
     (auto simp: send_item.quiet_step_def sends_def intro: cv_step_ok spent_outside)

lemma sw_start_claims:
  assumes "sw_start ok x s ps t"
  shows "\<exists>sender c claimed db. ok (fst x) \<and> ow_senders (fst x) (ow_channel (fst x)) = Some sender
    \<and> outbound_claim_due c (sw_clock s) (snd x) (sw_db s) = Inr (claimed, db) \<and> t = s\<lparr>sw_db := db\<rparr>
    \<and> ps = map (send_message sender (ow_uuid (fst x)) (ow_retry_backoff_s (fst x))) claimed"
  using assms
  by (auto simp: sw_start_def run_outbound_queue_worker_def sender_for_def rbind_eq_Inr split: if_splits option.splits)

lemma sw_start_quiet:
  assumes "sw_start ok x s ps t" and "cv_ok (sw_db s)"
  shows "send_item.quiet_step k s t"
proof -
  obtain c claimed db where c: "outbound_claim_due c (sw_clock s) (snd x) (sw_db s) = Inr (claimed, db)" "t = s\<lparr>sw_db := db\<rparr>"
    using sw_start_claims [OF assms(1)] by blast
  have step: "cv_step id (CvOutbound (OClaim c (sw_clock s) (snd x))) (sw_db s) db"
    by (intro cv_outbound ob_claim) (rule c(1))
  show ?thesis
    unfolding c(2) using assms(2) step by (rule quiet_call) (use spent_outside [OF step _ assms(2)] in simp)
qed

interpretation send_restart: restart_pool "\<lambda>s. cv_ok (sw_db s)" "spent_msg k" "sends k" "sw_env_step sha" "sw_start ok"
  for k sha ok
proof (unfold_locales, goal_cases)
  case (3 x s ps t p)
  then show ?case using sw_start_claims [OF 3(1)] calm_send by auto
qed (auto intro: sw_env_quiet sw_start_quiet)



subsection \<open>A concrete pool\<close>

definition demo_sender :: "string \<Rightarrow> outbound_worker" where
  "demo_sender st = \<lparr>ow_channel = ''telegram'', ow_tenant_id = None, ow_batch_size = 5, ow_owner = ''h'', ow_lease_seconds = 60,
     ow_retry_backoff_s = 30, ow_senders = (\<lambda>_. Some (\<lambda>_. SendReturned \<lparr>sv_metadata = JObj [], sv_status = st, sv_error = JNull,
     sv_retry_after_s = JNull\<rparr>)), ow_uuid = (\<lambda>i. i)\<rparr>"



definition claimed_pool :: "outbound_worker \<Rightarrow> string \<Rightarrow> send_world pool \<Rightarrow> send_world pool" where
  "claimed_pool w tok P = (case run_outbound_queue_worker w tok (fst P) of Inl e \<Rightarrow> P | Inr (ps, t) \<Rightarrow> (t, snd P @ ps))"

lemma demo_claimed_step:
  assumes "ok (demo_sender st)"
  shows "pool_step env (sw_start ok) (MvStart (demo_sender st, tok)) P (claimed_pool (demo_sender st) tok P)"
proof -
  obtain ps t where "run_outbound_queue_worker (demo_sender st) tok (fst P) = Inr (ps, t)"
    by (fastforce simp: run_outbound_queue_worker_def demo_sender_def sender_for_def outbound_claim_due_def case_prod_unfold Let_def)
  with assms pool_start [of "sw_start ok" "(demo_sender st, tok)" "fst P" ps t env "snd P"]
  show ?thesis by (cases P) (simp add: sw_start_def claimed_pool_def)
qed



subsection \<open>Properties\<close>




text \<open>A message that is being sent when every worker stops is never sent again by the workers, and so is
  one that was sent, cancelled, given up or found uncertain, whatever the senders answer and whatever is
  enqueued, claimed and planned meanwhile.\<close>

theorem lost_send_not_repeated:
  assumes "cv_ok (sw_db s)" and "m \<in> set (db_outbound (sw_db s))" and "ob_status m \<in> unsendable"
    and "steps (sw_step sha (\<lambda>_. True)) mvs (s, []) (t, ws)"
  shows "sends (ob_id m) t = sends (ob_id m) s
    \<and> (\<exists>m' \<in> set (db_outbound (sw_db t)). ob_id m' = ob_id m \<and> ob_status m' \<in> unsendable)"
proof -
  have "distinct (map ob_id (db_outbound (sw_db s)))" using assms(1) by (auto simp: cv_ok_def conv_ok_def ob_ok_def ob_inv_def)
  then have "spent_msg (ob_id m) s"
    using assms(2,3) distinct_map_eq [of ob_id "db_outbound (sw_db s)" _ m] by (auto simp: spent_rows_def)
  then have "spent_msg (ob_id m) t \<and> sends (ob_id m) t = sends (ob_id m) s"
    using send_restart.spent_not_started [OF assms(4,1)] by blast
  then show ?thesis by (auto simp: spent_rows_def)
qed

definition demo_lost_world :: send_world where
  "demo_lost_world = \<lparr>sw_clock = 100, sw_db = demo_db, sw_sends = []\<rparr>"

lemma demo_lost_ok: "cv_ok (sw_db demo_lost_world)"
  using demo_db_ok demo_dialogue_inv(2) by (simp add: cv_ok_def demo_lost_world_def demo_db_def dg_inv_def)

theorem lost_send_not_repeated_witness:
  "sends ''out_a'' (fst (claimed_pool (demo_sender ''sent'') ''tok2'' (demo_lost_world, []))) = 0"
proof -
  let ?P = "claimed_pool (demo_sender ''sent'') ''tok2'' (demo_lost_world, [])"
  have claim: "sw_step (\<lambda>s. s) (\<lambda>_. True) (MvStart (demo_sender ''sent'', ''tok2'')) (demo_lost_world, []) ?P"
    by (rule demo_claimed_step) simp
  have run: "steps (sw_step (\<lambda>s. s) (\<lambda>_. True)) [MvStart (demo_sender ''sent'', ''tok2'')] (demo_lost_world, []) (fst ?P, snd ?P)"
    unfolding prod.collapse by (rule steps_Cons, rule claim) (rule steps_Nil)
  have "demo_sending_row \<in> set (db_outbound (sw_db demo_lost_world))" by (simp add: demo_lost_world_def demo_db_def)
  moreover have "ob_status demo_sending_row \<in> unsendable" by (simp add: demo_sending_row_def unsendable_def)
  moreover have "ob_id demo_sending_row = ''out_a''" by (simp add: demo_outbound_defs)
  moreover have "sends ''out_a'' demo_lost_world = 0" by (simp add: sends_def demo_lost_world_def)
  ultimately show ?thesis using lost_send_not_repeated [OF demo_lost_ok _ _ run, of demo_sending_row] by simp
qed

end
