(* ===== verification/Sessions.thy ===== *)
theory Sessions
  imports Idempotent_Port Python_Text
begin

section \<open>Runtime sessions and their mailboxes\<close>

text \<open>
  Models \<open>sessions/store.py\<close>, \<open>sessions/events.py\<close> and \<open>sessions/mailbox.py\<close> on the tables
  \<open>runtime_sessions\<close>, \<open>session_mailbox\<close> and \<open>runtime_session_events\<close> (migrations 005, 010, 011 and 015).
  A prompt that waits for an execution session is \<open>queued\<close>, then \<open>sending\<close> (claimed by a worker; a time in
  \<open>accepted_at\<close> says that the backend took it), and at the end \<open>sent\<close>, \<open>failed\<close> or \<open>cancelled\<close>.
  The status columns have \<open>CHECK\<close> constraints, so a status is a value of a datatype.
\<close>

subsection \<open>Tables\<close>

datatype session_state = SsStarting | SsIdle | SsBusy | SsClosing | SsClosed | SsFailed

definition session_state_text :: "session_state \<Rightarrow> string" where
  "session_state_text st = (case st of SsStarting \<Rightarrow> ''starting'' | SsIdle \<Rightarrow> ''idle'' | SsBusy \<Rightarrow> ''busy''
     | SsClosing \<Rightarrow> ''closing'' | SsClosed \<Rightarrow> ''closed'' | SsFailed \<Rightarrow> ''failed'')"

record session_row =
  rs_id :: string
  rs_tenant_id :: string
  rs_source_id :: string
  rs_owner_id :: "string option"
  rs_kind :: string
  rs_backend :: string
  rs_backend_session_id :: string
  rs_title :: string
  rs_cwd :: string
  rs_status :: session_state
  rs_current_action_id :: "string option"
  rs_last_used_at :: "int option"
  rs_last_error :: "string option"
  rs_metadata_json :: stored_json
  rs_created_at :: int
  rs_updated_at :: int

datatype mailbox_state = MbQueued | MbSending | MbSent | MbFailed | MbCancelled

record mailbox_row =
  mb_id :: string
  mb_session_id :: string
  mb_tenant_id :: string
  mb_source_id :: string
  mb_source_event_id :: "string option"
  mb_action_id :: "string option"
  mb_prompt :: string
  mb_status :: mailbox_state
  mb_result_json :: "stored_json option"
  mb_last_error :: "string option"
  mb_sent_at :: "int option"
  mb_created_at :: int
  mb_updated_at :: int
  mb_accepted_at :: "int option"
  mb_attempts :: int
  mb_max_attempts :: int
  mb_run_after :: int
  mb_backend_receipt_json :: "stored_json option"
  mb_idempotency_key :: "string option"

record session_event_row =
  se_id :: string
  se_session_id :: string
  se_action_id :: "string option"
  se_direction :: string
  se_payload_text :: string
  se_marker :: "string option"
  se_created_at :: int

record session_db =
  sd_sessions :: "session_row list"
  sd_mailbox :: "mailbox_row list"
  sd_events :: "session_event_row list"

definition empty_session_db :: session_db where
  "empty_session_db = \<lparr>sd_sessions = [], sd_mailbox = [], sd_events = []\<rparr>"

subsection \<open>The session store\<close>

definition rs_in :: "string \<Rightarrow> string \<Rightarrow> string \<Rightarrow> session_row \<Rightarrow> bool" where
  "rs_in k tenant source r \<longleftrightarrow> rs_id r = k \<and> rs_tenant_id r = tenant \<and> rs_source_id r = source"

record session_args =
  sn_tenant_id :: string
  sn_source_id :: string
  sn_kind :: string
  sn_backend :: string
  sn_backend_session_id :: string
  sn_owner_id :: "string option"
  sn_title :: string
  sn_cwd :: string
  sn_status :: session_state
  sn_metadata :: "json option"

definition new_session_row :: "int \<Rightarrow> string \<Rightarrow> session_args \<Rightarrow> session_row" where
  "new_session_row now uuid a = \<lparr>rs_id = ''rs_'' @ uuid, rs_tenant_id = sn_tenant_id a, rs_source_id = sn_source_id a,
     rs_owner_id = sn_owner_id a, rs_kind = sn_kind a, rs_backend = sn_backend a,
     rs_backend_session_id = sn_backend_session_id a, rs_title = sn_title a, rs_cwd = sn_cwd a, rs_status = sn_status a,
     rs_current_action_id = None, rs_last_used_at = Some now, rs_last_error = None,
     rs_metadata_json = Encoded (case sn_metadata a of None \<Rightarrow> JObj [] | Some m \<Rightarrow> m),
     rs_created_at = now, rs_updated_at = now\<rparr>"

definition insert_session :: "int \<Rightarrow> string \<Rightarrow> session_args \<Rightarrow> session_db \<Rightarrow> (string \<times> session_db) result" where
  "insert_session now uuid a db =
     (let n = new_session_row now uuid a in
      if rs_id n \<in> rs_id ` set (sd_sessions db) then Inl IntegrityError
      else Inr (rs_id n, db\<lparr>sd_sessions := sd_sessions db @ [n]\<rparr>))"

definition get_session :: "string \<Rightarrow> string \<Rightarrow> string \<Rightarrow> session_db \<Rightarrow> session_row option" where
  "get_session k tenant source db = fetchone (rs_in k tenant source) (sd_sessions db)"

definition list_active_sessions :: "string \<Rightarrow> int \<Rightarrow> string option \<Rightarrow> session_db \<Rightarrow> session_row list" where
  "list_active_sessions tenant limit after db = sql_limit limit (order_by rs_id
     (select_where (\<lambda>r. rs_tenant_id r = tenant \<and> rs_status r \<noteq> SsClosed
        \<and> (case after of None \<Rightarrow> True | Some a \<Rightarrow> rs_id r > a)) (sd_sessions db)))"

definition rs_set :: "session_state \<Rightarrow> string option \<Rightarrow> string option \<Rightarrow> int \<Rightarrow> session_row \<Rightarrow> session_row" where
  "rs_set st action err now r = r\<lparr>rs_status := st, rs_current_action_id := action, rs_last_error := err,
     rs_updated_at := now, rs_last_used_at := Some now\<rparr>"

definition set_session_status ::
  "int \<Rightarrow> string \<Rightarrow> session_state \<Rightarrow> string \<Rightarrow> string \<Rightarrow> string option \<Rightarrow> string option \<Rightarrow> session_db \<Rightarrow> session_db" where
  "set_session_status now k st tenant source action err db =
     db\<lparr>sd_sessions := update_where (rs_in k tenant source) (rs_set st action err now) (sd_sessions db)\<rparr>"

subsection \<open>The audit log of a session\<close>

record session_event_args =
  sx_session_id :: string
  sx_tenant_id :: string
  sx_source_id :: string
  sx_direction :: string
  sx_payload_text :: string
  sx_action_id :: "string option"
  sx_marker :: "string option"

definition record_session_event :: "int \<Rightarrow> string \<Rightarrow> session_event_args \<Rightarrow> session_db \<Rightarrow> (string \<times> session_db) result" where
  "record_session_event now uuid a db =
     (let k = ''rse_'' @ uuid;
          inserted = rowcount (rs_in (sx_session_id a) (sx_tenant_id a) (sx_source_id a)) (sd_sessions db)
      in if inserted \<noteq> 1 then Inl (LookupError ''runtime session was not found in the requested conversation'')
         else if sx_direction a \<notin> set [''input'', ''output'', ''control''] \<or> k \<in> se_id ` set (sd_events db) then Inl IntegrityError
         else Inr (k, db\<lparr>sd_events := sd_events db @ [\<lparr>se_id = k, se_session_id = sx_session_id a, se_action_id = sx_action_id a,
           se_direction = sx_direction a, se_payload_text = sx_payload_text a, se_marker = sx_marker a, se_created_at = now\<rparr>]\<rparr>))"

subsection \<open>Enqueueing a prompt\<close>

definition mb_in :: "string \<Rightarrow> string \<Rightarrow> string \<Rightarrow> mailbox_row \<Rightarrow> bool" where
  "mb_in k tenant source r \<longleftrightarrow> mb_id r = k \<and> mb_tenant_id r = tenant \<and> mb_source_id r = source"

definition mb_of :: "string \<Rightarrow> string \<Rightarrow> string \<Rightarrow> mailbox_row \<Rightarrow> bool" where
  "mb_of session tenant source r \<longleftrightarrow> mb_session_id r = session \<and> mb_tenant_id r = tenant \<and> mb_source_id r = source"

record prompt_args =
  pa_session_id :: string
  pa_tenant_id :: string
  pa_source_id :: string
  pa_prompt :: string
  pa_action_id :: "string option"
  pa_source_event_id :: "string option"
  pa_idempotency_key :: "string option"

definition mb_by_action :: "prompt_args \<Rightarrow> mailbox_row \<Rightarrow> bool" where
  "mb_by_action a r \<longleftrightarrow> mb_tenant_id r = pa_tenant_id a \<and> mb_source_id r = pa_source_id a
     \<and> pa_action_id a \<noteq> None \<and> mb_action_id r = pa_action_id a"

definition mb_by_key :: "prompt_args \<Rightarrow> mailbox_row \<Rightarrow> bool" where
  "mb_by_key a r \<longleftrightarrow> mb_tenant_id r = pa_tenant_id a \<and> mb_source_id r = pa_source_id a
     \<and> pa_idempotency_key a \<noteq> None \<and> mb_idempotency_key r = pa_idempotency_key a"

text \<open>The rows that the two queries find: \<open>existing_rows\<close> of the code.\<close>

definition existing_prompts :: "prompt_args \<Rightarrow> mailbox_row list \<Rightarrow> mailbox_row list" where
  "existing_prompts a rows =
     (case fetchone (mb_by_action a) rows of None \<Rightarrow> [] | Some r \<Rightarrow> [r])
     @ (case fetchone (mb_by_key a) rows of None \<Rightarrow> [] | Some r \<Rightarrow> [r])"

definition prompt_replays :: "prompt_args \<Rightarrow> mailbox_row list \<Rightarrow> mailbox_row \<Rightarrow> bool" where
  "prompt_replays a existing r \<longleftrightarrow> (\<forall>x \<in> set existing. mb_id x = mb_id r) \<and> mb_session_id r = pa_session_id a
     \<and> mb_prompt r = pa_prompt a \<and> mb_action_id r = pa_action_id a \<and> mb_source_event_id r = pa_source_event_id a"

definition prompt_key :: "prompt_args \<Rightarrow> string" where
  "prompt_key a = (case pa_idempotency_key a of
     Some k \<Rightarrow> if k = [] then ''action:'' @ (case pa_action_id a of None \<Rightarrow> ''None'' | Some x \<Rightarrow> x) else k
   | None \<Rightarrow> ''action:'' @ (case pa_action_id a of None \<Rightarrow> ''None'' | Some x \<Rightarrow> x))"

definition new_mailbox_row :: "int \<Rightarrow> string \<Rightarrow> prompt_args \<Rightarrow> mailbox_row" where
  "new_mailbox_row now uuid a = \<lparr>mb_id = ''sm_'' @ uuid, mb_session_id = pa_session_id a, mb_tenant_id = pa_tenant_id a,
     mb_source_id = pa_source_id a, mb_source_event_id = pa_source_event_id a, mb_action_id = pa_action_id a,
     mb_prompt = pa_prompt a, mb_status = MbQueued, mb_result_json = None, mb_last_error = None, mb_sent_at = None,
     mb_created_at = now, mb_updated_at = now, mb_accepted_at = None, mb_attempts = 0, mb_max_attempts = 3,
     mb_run_after = 0, mb_backend_receipt_json = None, mb_idempotency_key = pa_idempotency_key a\<rparr>"

definition enqueue_prompt :: "int \<Rightarrow> string \<Rightarrow> prompt_args \<Rightarrow> session_db \<Rightarrow> ((string \<times> bool) \<times> session_db) result" where
  "enqueue_prompt now uuid a db = (case existing_prompts a (sd_mailbox db) of
     r # rs \<Rightarrow>
       rbind (require_idempotent_replay (prompt_replays a (r # rs) r) ''session mailbox item'' (prompt_key a) (mb_id r)) (\<lambda>_.
         Inr ((mb_id r, False), db))
   | [] \<Rightarrow>
       (case get_session (pa_session_id a) (pa_tenant_id a) (pa_source_id a) db of
          None \<Rightarrow> Inl (RuntimeError ''runtime session not found'')
        | Some s \<Rightarrow>
            if rs_status s \<notin> set [SsIdle, SsBusy]
            then Inl (RuntimeError (''runtime session status '' @ repr_str (session_state_text (rs_status s))
                   @ '' does not accept mailbox prompts''))
            else let n = new_mailbox_row now uuid a in
              if mb_id n \<in> mb_id ` set (sd_mailbox db) then Inl IntegrityError
              else Inr ((mb_id n, True), db\<lparr>sd_mailbox := sd_mailbox db @ [n]\<rparr>)))"

subsection \<open>Claiming a delivery\<close>

definition has_pending :: "string \<Rightarrow> session_db \<Rightarrow> bool" where
  "has_pending session db = (\<exists>r \<in> set (sd_mailbox db). mb_session_id r = session \<and> mb_status r \<in> set [MbQueued, MbSending])"

definition backend_matches :: "string option \<Rightarrow> string \<Rightarrow> bool" where
  "backend_matches pre backend = (case pre of None \<Rightarrow> True | Some p \<Rightarrow> take (length p) backend = p)"

definition validate_backend_prefix :: "string option \<Rightarrow> unit result" where
  "validate_backend_prefix pre =
     (if pre = Some [] then Inl (ValueError ''backend_prefix must be a non-empty string or None'') else Inr ())"

definition mb_blocked :: "string \<Rightarrow> string \<Rightarrow> string \<Rightarrow> mailbox_row list \<Rightarrow> bool" where
  "mb_blocked session tenant source rows = (\<exists>b \<in> set rows. mb_of session tenant source b \<and> mb_status b = MbSending)"

definition mb_accepted_due :: "int \<Rightarrow> mailbox_row \<Rightarrow> bool" where
  "mb_accepted_due now r \<longleftrightarrow> mb_status r = MbSending \<and> mb_accepted_at r \<noteq> None \<and> mb_run_after r \<le> now"

definition mb_ready :: "string \<Rightarrow> string option \<Rightarrow> int \<Rightarrow> session_db \<Rightarrow> mailbox_row \<Rightarrow> bool" where
  "mb_ready tenant pre now db m \<longleftrightarrow> mb_tenant_id m = tenant
     \<and> (\<exists>s \<in> set (sd_sessions db). rs_in (mb_session_id m) (mb_tenant_id m) (mb_source_id m) s
          \<and> backend_matches pre (rs_backend s)
          \<and> (mb_accepted_due now m
             \<or> (mb_status m = MbQueued \<and> mb_run_after m \<le> now \<and> rs_status s = SsIdle
                \<and> \<not> mb_blocked (mb_session_id m) (mb_tenant_id m) (mb_source_id m) (sd_mailbox db))))"

text \<open>One group per session and conversation, with the smallest priority, creation time and \<open>rowid\<close>.\<close>

definition ready_sessions ::
  "int \<Rightarrow> string \<Rightarrow> int \<Rightarrow> string option \<Rightarrow> session_db \<Rightarrow> (string \<times> string) list result" where
  "ready_sessions now tenant limit pre db = rbind (validate_backend_prefix pre) (\<lambda>_.
     let rows = filter (\<lambda>x. mb_ready tenant pre now db (snd x)) (with_rowid (sd_mailbox db));
         grp = (\<lambda>x. (mb_session_id (snd x), mb_source_id (snd x)));
         prio = (\<lambda>x. if mb_status (snd x) = MbSending \<and> mb_accepted_at (snd x) \<noteq> None then (0::int) else 1);
         least = (\<lambda>g. let xs = filter (\<lambda>x. grp x = g) rows in
                    (Min (set (map prio xs)), Min (set (map (\<lambda>x. mb_created_at (snd x)) xs)), Min (set (map fst xs))))
     in Inr (sql_limit limit (order_by least (remdups (map grp rows)))))"

definition first_by :: "('r \<Rightarrow> 'k::linorder) \<Rightarrow> ('r \<Rightarrow> bool) \<Rightarrow> 'r list \<Rightarrow> 'r option" where
  "first_by k p rows = (case order_by k (select_where p rows) of [] \<Rightarrow> None | r # _ \<Rightarrow> Some r)"

definition mb_claim :: "int \<Rightarrow> mailbox_row \<Rightarrow> mailbox_row" where
  "mb_claim now r = r\<lparr>mb_status := MbSending, mb_attempts := mb_attempts r + 1, mb_updated_at := now, mb_last_error := None\<rparr>"

definition claim_next :: "int \<Rightarrow> string \<Rightarrow> string \<Rightarrow> string \<Rightarrow> session_db \<Rightarrow> mailbox_row option \<times> session_db" where
  "claim_next now session tenant source db = (case
     first_by (\<lambda>r. case mb_accepted_at r of None \<Rightarrow> 0 | Some a \<Rightarrow> a)
       (\<lambda>r. mb_of session tenant source r \<and> mb_accepted_due now r) (sd_mailbox db) of
     Some r \<Rightarrow> (Some r, db)
   | None \<Rightarrow>
       (case fetchone (\<lambda>s. rs_in session tenant source s \<and> rs_status s = SsIdle) (sd_sessions db) of
          None \<Rightarrow> (None, db)
        | Some s \<Rightarrow>
            (case first_by mb_created_at (\<lambda>r. mb_of session tenant source r \<and> mb_status r = MbQueued \<and> mb_run_after r \<le> now
                    \<and> \<not> mb_blocked session tenant source (sd_mailbox db)) (sd_mailbox db) of
               None \<Rightarrow> (None, db)
             | Some item \<Rightarrow>
                 let rows = update_where (\<lambda>r. mb_in (mb_id item) tenant source r \<and> mb_status r = MbQueued) (mb_claim now) (sd_mailbox db)
                 in (fetchone (mb_in (mb_id item) tenant source) rows, db\<lparr>sd_mailbox := rows\<rparr>))))"

subsection \<open>Settling a delivery\<close>

text \<open>A delivery that the backend has accepted.\<close>

definition mb_held :: "string \<Rightarrow> string \<Rightarrow> string \<Rightarrow> mailbox_row \<Rightarrow> bool" where
  "mb_held k tenant source r \<longleftrightarrow> mb_in k tenant source r \<and> mb_status r = MbSending \<and> mb_accepted_at r \<noteq> None"

definition json_or_empty :: "json option \<Rightarrow> json" where
  "json_or_empty v = (case v of None \<Rightarrow> JObj [] | Some j \<Rightarrow> if truthy j then j else JObj [])"

definition mb_finish :: "json \<Rightarrow> int \<Rightarrow> mailbox_row \<Rightarrow> mailbox_row" where
  "mb_finish v now r = r\<lparr>mb_status := MbSent, mb_result_json := Some (Encoded v), mb_updated_at := now, mb_sent_at := Some now\<rparr>"

definition mailbox_mark_sent :: "int \<Rightarrow> json option \<Rightarrow> string \<Rightarrow> string \<Rightarrow> string \<Rightarrow> session_db \<Rightarrow> session_db" where
  "mailbox_mark_sent now v k tenant source db =
     db\<lparr>sd_mailbox := update_where (mb_held k tenant source) (mb_finish (json_or_empty v) now) (sd_mailbox db)\<rparr>"

definition mark_accepted :: "int \<Rightarrow> json option \<Rightarrow> string \<Rightarrow> string \<Rightarrow> string \<Rightarrow> session_db \<Rightarrow> session_db" where
  "mark_accepted now receipt k tenant source db =
     db\<lparr>sd_mailbox := update_where (\<lambda>r. mb_in k tenant source r \<and> mb_status r = MbSending \<and> mb_accepted_at r = None)
       (\<lambda>r. r\<lparr>mb_accepted_at := Some now, mb_backend_receipt_json := Some (Encoded (json_or_empty receipt)),
              mb_run_after := now, mb_updated_at := now\<rparr>) (sd_mailbox db)\<rparr>"

text \<open>The update of the session that ends each of the settlements below; it raises when the session is gone.\<close>

definition settle_session ::
  "string \<Rightarrow> session_state \<Rightarrow> string option \<Rightarrow> string option \<Rightarrow> int \<Rightarrow> string \<Rightarrow> string \<Rightarrow> string \<Rightarrow> session_db \<Rightarrow> session_db result" where
  "settle_session gone st action err now session tenant source db =
     (if rowcount (rs_in session tenant source) (sd_sessions db) \<noteq> 1 then Inl (RuntimeError gone)
      else Inr (set_session_status now session st tenant source action err db))"

definition defer_accepted ::
  "int \<Rightarrow> string \<Rightarrow> string \<Rightarrow> string \<Rightarrow> string \<Rightarrow> string option \<Rightarrow> string \<Rightarrow> int \<Rightarrow> session_db \<Rightarrow> (bool \<times> session_db) result" where
  "defer_accepted now k session tenant source action err retry_after_s db = (case fetchone (mb_held k tenant source) (sd_mailbox db) of
     None \<Rightarrow> Inr (True, db)
   | Some row \<Rightarrow>
       let attempts = mb_attempts row + 1; terminal = (attempts \<ge> mb_max_attempts row); text = prefix_chars 500 err;
           f = (if terminal
                then (\<lambda>r. r\<lparr>mb_status := MbFailed, mb_attempts := attempts, mb_last_error := Some text, mb_updated_at := now\<rparr>)
                else (\<lambda>r. r\<lparr>mb_attempts := attempts, mb_run_after := now + max 1 retry_after_s, mb_last_error := Some text, mb_updated_at := now\<rparr>))
       in rbind (settle_session ''runtime session disappeared while deferring accepted delivery''
                   (if terminal then SsFailed else SsBusy) (if terminal then None else action) (Some text) now session tenant source
                   (db\<lparr>sd_mailbox := update_where (mb_held k tenant source) f (sd_mailbox db)\<rparr>)) (\<lambda>db'. Inr (terminal, db')))"

definition defer_pending ::
  "int \<Rightarrow> string \<Rightarrow> string \<Rightarrow> string \<Rightarrow> string \<Rightarrow> string option \<Rightarrow> string \<Rightarrow> int \<Rightarrow> session_db \<Rightarrow> session_db result" where
  "defer_pending now k session tenant source action err retry_after_s db =
     (let text = prefix_chars 500 err in
      if rowcount (mb_held k tenant source) (sd_mailbox db) \<noteq> 1
      then Inl (RuntimeError ''accepted mailbox delivery is no longer pending'')
      else settle_session ''runtime session disappeared while deferring pending delivery'' SsBusy action (Some text) now
             session tenant source
             (db\<lparr>sd_mailbox := update_where (mb_held k tenant source)
                (\<lambda>r. r\<lparr>mb_run_after := now + max 1 retry_after_s, mb_last_error := Some text, mb_updated_at := now\<rparr>) (sd_mailbox db)\<rparr>))"

definition complete_delivery ::
  "int \<Rightarrow> string \<Rightarrow> string \<Rightarrow> string \<Rightarrow> string \<Rightarrow> json \<Rightarrow> session_state \<Rightarrow> string option \<Rightarrow> session_db \<Rightarrow> session_db result" where
  "complete_delivery now k session tenant source v st action db =
     (if rowcount (mb_held k tenant source) (sd_mailbox db) \<noteq> 1
      then Inl (RuntimeError ''accepted mailbox delivery is no longer completable'')
      else settle_session ''runtime session disappeared while completing delivery'' st action None now session tenant source
             (db\<lparr>sd_mailbox := update_where (mb_held k tenant source) (mb_finish v now) (sd_mailbox db)\<rparr>))"

definition mb_fail :: "string \<Rightarrow> int \<Rightarrow> mailbox_row \<Rightarrow> mailbox_row" where
  "mb_fail err now r = r\<lparr>mb_status := MbFailed, mb_last_error := Some (prefix_chars 500 err), mb_updated_at := now\<rparr>"

definition fail_delivery ::
  "int \<Rightarrow> string \<Rightarrow> string \<Rightarrow> string \<Rightarrow> string \<Rightarrow> string \<Rightarrow> session_db \<Rightarrow> session_db result" where
  "fail_delivery now k session tenant source err db =
     (let p = (\<lambda>r. mb_in k tenant source r \<and> mb_status r = MbSending) in
      if rowcount p (sd_mailbox db) \<noteq> 1 then Inl (RuntimeError ''mailbox delivery is no longer fail-able'')
      else settle_session ''runtime session disappeared while failing delivery'' SsFailed None (Some (prefix_chars 500 err)) now
             session tenant source (db\<lparr>sd_mailbox := update_where p (mb_fail err now) (sd_mailbox db)\<rparr>))"

definition requeue :: "int \<Rightarrow> string \<Rightarrow> string \<Rightarrow> string \<Rightarrow> string \<Rightarrow> session_db \<Rightarrow> session_db" where
  "requeue now k tenant source err db =
     db\<lparr>sd_mailbox := update_where (\<lambda>r. mb_in k tenant source r \<and> mb_status r = MbSending \<and> mb_accepted_at r = None)
       (\<lambda>r. r\<lparr>mb_status := MbQueued, mb_last_error := Some (prefix_chars 500 err), mb_updated_at := now\<rparr>) (sd_mailbox db)\<rparr>"

definition mailbox_mark_failed :: "int \<Rightarrow> string \<Rightarrow> string \<Rightarrow> string \<Rightarrow> string \<Rightarrow> session_db \<Rightarrow> session_db" where
  "mailbox_mark_failed now k tenant source err db =
     db\<lparr>sd_mailbox := update_where (mb_in k tenant source) (mb_fail err now) (sd_mailbox db)\<rparr>"

subsection \<open>Deliveries that were interrupted\<close>

definition mb_stale :: "string \<Rightarrow> string option \<Rightarrow> int \<Rightarrow> session_db \<Rightarrow> mailbox_row \<Rightarrow> bool" where
  "mb_stale tenant pre cutoff db m \<longleftrightarrow> mb_tenant_id m = tenant \<and> mb_status m = MbSending \<and> mb_accepted_at m = None
     \<and> mb_updated_at m \<le> cutoff
     \<and> (\<exists>s \<in> set (sd_sessions db). rs_in (mb_session_id m) (mb_tenant_id m) (mb_source_id m) s
          \<and> backend_matches pre (rs_backend s))"

definition stale_rows :: "string \<Rightarrow> string option \<Rightarrow> int \<Rightarrow> int \<Rightarrow> session_db \<Rightarrow> mailbox_row list" where
  "stale_rows tenant pre cutoff limit db =
     sql_limit limit (order_by mb_updated_at (select_where (mb_stale tenant pre cutoff db) (sd_mailbox db)))"

definition fail_stale_sending ::
  "int \<Rightarrow> string \<Rightarrow> int \<Rightarrow> string \<Rightarrow> int \<Rightarrow> string option \<Rightarrow> session_db \<Rightarrow> (mailbox_row list \<times> session_db) result" where
  "fail_stale_sending now tenant older_than_s reason limit pre db =
     (if older_than_s < 0 then Inl (ValueError ''older_than_s must be a non-negative integer'')
      else rbind (validate_backend_prefix pre) (\<lambda>_.
        let rows = stale_rows tenant pre (now - older_than_s) limit db;
            ids = map mb_id rows; sessions = map mb_session_id rows; text = prefix_chars 500 reason
        in Inr (rows, db\<lparr>
             sd_mailbox := update_where (\<lambda>r. mb_tenant_id r = tenant \<and> mb_id r \<in> set ids \<and> mb_status r = MbSending \<and> mb_accepted_at r = None)
               (\<lambda>r. r\<lparr>mb_status := MbFailed, mb_last_error := Some text,
                      mb_result_json := Some (Encoded (JObj [(''delivery'', JStr ''uncertain'')])), mb_updated_at := now\<rparr>) (sd_mailbox db),
             sd_sessions := update_where (\<lambda>s. rs_tenant_id s = tenant \<and> rs_id s \<in> set sessions \<and> rs_status s \<in> set [SsIdle, SsBusy])
               (rs_set SsFailed None (Some text) now) (sd_sessions db)\<rparr>)))"

end
