(* ===== verification/Session_Lifecycle.thy ===== *)
theory Session_Lifecycle
  imports Sessions Async_Programs
begin

section \<open>Closing sessions\<close>

text \<open>
  Models \<open>sessions/lifecycle.py\<close>, the boundary checks of \<open>sessions/backend.py\<close> and the lookup of
  \<open>sessions/registry.py\<close>.  Closing a session claims it in one transaction (\<open>closing\<close>), closes it at its
  backend and records the outcome; each of these is an atomic step of the program \<open>close_session\<close>.

  A session backend is not code of the platform: it is a record of arbitrary functions of the whole world
  (so its answers may differ from call to call) together with the tenant and conversation it is bound to.
  \<open>xw_sends\<close> and \<open>xw_closes\<close> have one entry per call of \<open>send\<close> and \<open>close\<close>.  Identifiers come from the
  arbitrary function \<open>uuid\<close>.
\<close>

subsection \<open>The world and its backends\<close>

record sent_prompt =
  sent_item :: string
  sent_session :: string
  sent_backend_session :: string
  sent_text :: string

record session_world =
  xw_clock :: int
  xw_db :: session_db
  xw_sends :: "sent_prompt list"
  xw_closes :: "string list"

type_synonym 'a session_prog = "(session_world, 'a) prog"

record send_receipt =
  sp_backend_operation_id :: "string option"
  sp_metadata :: "json option"

text \<open>What a backend may hand back, before it is validated.  A text of an exception is
  \<open>f"{type(exc).__name__}: {exc}"\<close>.\<close>

datatype receipt_metadata = MdNone | MdJson json | MdUnserializable

datatype backend_send = BkNoReceipt | BkReceipt json receipt_metadata | BkOtherObject | BkSendRaised string

datatype backend_capture = CapReturned json json | CapOtherObject | CapRaised string

datatype backend_close = CloseDone | CloseRaised py_error

record session_backend =
  bk_tenant_id :: "string option"
  bk_source_id :: "string option"
  bk_conversation_scope :: "conversation_scope option"
  bk_send :: "session_world \<Rightarrow> string \<Rightarrow> string \<Rightarrow> backend_send"
  bk_capture :: "session_world \<Rightarrow> string \<Rightarrow> backend_capture"
  bk_capture_delivery :: "(session_world \<Rightarrow> string \<Rightarrow> send_receipt \<Rightarrow> backend_capture) option"
  bk_abort_delivery :: "(session_world \<Rightarrow> string \<Rightarrow> send_receipt \<Rightarrow> string option) option"
  bk_close :: "session_world \<Rightarrow> string \<Rightarrow> backend_close"

subsection \<open>Boundaries\<close>

text \<open>A resource without an attribute has \<open>None\<close> in its place.\<close>

definition bound_conversation_scope :: "session_backend \<Rightarrow> conversation_scope option result" where
  "bound_conversation_scope b = (case (bk_tenant_id b, bk_source_id b) of
     (Some t, Some s) \<Rightarrow> rbind (ConversationScope t s) (\<lambda>scope. Inr (Some scope))
   | _ \<Rightarrow> Inr (bk_conversation_scope b))"

definition ensure_tenant_boundary :: "session_backend \<Rightarrow> string \<Rightarrow> string \<Rightarrow> unit result" where
  "ensure_tenant_boundary b tenant name =
     rbind (case bk_tenant_id b of Some t \<Rightarrow> Inr (Some t)
            | None \<Rightarrow> rbind (bound_conversation_scope b) (\<lambda>scope. Inr (map_option cs_tenant_id scope))) (\<lambda>bound. case bound of
       None \<Rightarrow> Inr ()
     | Some t \<Rightarrow> if t = tenant then Inr ()
         else Inl (TenantBoundaryError (name @ '' is bound to tenant '' @ repr_str t @ '', not '' @ repr_str tenant)))"

definition ensure_conversation_boundary :: "session_backend \<Rightarrow> string \<Rightarrow> string \<Rightarrow> string \<Rightarrow> unit result" where
  "ensure_conversation_boundary b tenant source name =
     rbind (ensure_tenant_boundary b tenant name) (\<lambda>_.
     rbind (bound_conversation_scope b) (\<lambda>scope. case scope of
       None \<Rightarrow> Inr ()
     | Some sc \<Rightarrow> if cs_source_id sc = source then Inr ()
         else Inl (TenantBoundaryError (name @ '' is bound to conversation '' @ repr_str (cs_source_id sc) @ '', not '' @ repr_str source))))"

subsection \<open>Claiming a session for closing\<close>

record close_result =
  cl_session_id :: string
  cl_backend_session_id :: "string option"
  cl_closed :: bool
  cl_status :: "session_state option"
  cl_reason :: "string option"
  cl_error :: "string option"
  cl_cancelled_mailbox_count :: nat

definition not_closed :: "string \<Rightarrow> session_row option \<Rightarrow> string option \<Rightarrow> string option \<Rightarrow> close_result" where
  "not_closed k row reason err = \<lparr>cl_session_id = k, cl_backend_session_id = map_option rs_backend_session_id row,
     cl_closed = False, cl_status = map_option rs_status row, cl_reason = reason, cl_error = err, cl_cancelled_mailbox_count = 0\<rparr>"

definition pending_mailbox_counts :: "string \<Rightarrow> session_db \<Rightarrow> nat \<times> nat" where
  "pending_mailbox_counts session db =
     (rowcount (\<lambda>r. mb_session_id r = session \<and> mb_status r = MbQueued) (sd_mailbox db),
      rowcount (\<lambda>r. mb_session_id r = session \<and> mb_status r = MbSending) (sd_mailbox db))"

definition claim_session_for_close ::
  "int \<Rightarrow> bool \<Rightarrow> string \<Rightarrow> string \<Rightarrow> string \<Rightarrow> session_db \<Rightarrow> (close_result + session_row option \<times> nat) \<times> session_db" where
  "claim_session_for_close now force k tenant source db = (case fetchone (rs_in k tenant source) (sd_sessions db) of
     None \<Rightarrow> (Inl (not_closed k None (Some ''session not found'') None), db)
   | Some row \<Rightarrow>
       if rs_status row = SsClosed then (Inl (not_closed k (Some row) (Some ''session already closed'') None), db)
       else if rs_status row = SsClosing then (Inl (not_closed k (Some row) (Some ''session already closing'') None), db)
       else let (queued, sending) = pending_mailbox_counts k db in
         if sending \<noteq> 0 then (Inl (not_closed k (Some row) (Some ''session has sending mailbox items'') None), db)
         else if queued \<noteq> 0 \<and> \<not> force then (Inl (not_closed k (Some row) (Some ''session has pending mailbox items'') None), db)
         else if rs_status row \<notin> set [SsIdle, SsFailed]
         then (Inl (not_closed k (Some row) (Some (''session status '' @ repr_str (session_state_text (rs_status row))
                 @ '' is not closable'')) None), db)
         else let p = (\<lambda>r. mb_session_id r = k \<and> mb_status r = MbQueued);
                  mail = (if queued \<noteq> 0 \<and> force
                          then update_where p (\<lambda>r. r\<lparr>mb_status := MbCancelled, mb_last_error := Some ''session closed forcefully'',
                                 mb_updated_at := now\<rparr>) (sd_mailbox db)
                          else sd_mailbox db);
                  cancelled = (if queued \<noteq> 0 \<and> force then rowcount p (sd_mailbox db) else 0);
                  sess = update_where (\<lambda>r. rs_in k tenant source r \<and> rs_status r = rs_status row)
                           (rs_set SsClosing None None now) (sd_sessions db)
              in (Inr (fetchone (rs_in k tenant source) sess, cancelled), db\<lparr>sd_mailbox := mail, sd_sessions := sess\<rparr>))"

subsection \<open>Recording the outcome\<close>

definition control_event :: "string \<Rightarrow> string \<Rightarrow> string \<Rightarrow> string \<Rightarrow> string \<Rightarrow> session_event_args" where
  "control_event k tenant source text marker = \<lparr>sx_session_id = k, sx_tenant_id = tenant, sx_source_id = source,
     sx_direction = ''control'', sx_payload_text = text, sx_action_id = None, sx_marker = Some marker\<rparr>"

definition record_close_failure ::
  "int \<Rightarrow> string \<Rightarrow> string \<Rightarrow> string \<Rightarrow> string \<Rightarrow> string \<Rightarrow> session_db \<Rightarrow> session_db result" where
  "record_close_failure now uuid k tenant source err db =
     rbind (record_session_event now uuid (control_event k tenant source (''close failed: '' @ err)
              (''session.lifecycle.close_failed:'' @ int_text now))
              (set_session_status now k SsFailed tenant source None (Some err) db)) (\<lambda>(_, db'). Inr db')"

definition record_closed ::
  "int \<Rightarrow> string \<Rightarrow> string \<Rightarrow> string \<Rightarrow> string \<Rightarrow> string \<Rightarrow> session_db \<Rightarrow> session_db result" where
  "record_closed now uuid k tenant source reason db =
     rbind (record_session_event now uuid (control_event k tenant source reason (''session.lifecycle.closed:'' @ int_text now))
              (set_session_status now k SsClosed tenant source None None db)) (\<lambda>(_, db'). Inr db')"

subsection \<open>Closing one session\<close>

definition store_call :: "(int \<Rightarrow> session_db \<Rightarrow> 'a \<times> session_db) \<Rightarrow> 'a session_prog" where
  "store_call f = call (\<lambda>s. let (x, db) = f (xw_clock s) (xw_db s) in (x, s\<lparr>xw_db := db\<rparr>))"

definition store_call_result :: "(int \<Rightarrow> session_db \<Rightarrow> ('a \<times> session_db) result) \<Rightarrow> 'a session_prog" where
  "store_call_result f = call_result (\<lambda>s. rbind (f (xw_clock s) (xw_db s)) (\<lambda>(x, db). Inr (x, s\<lparr>xw_db := db\<rparr>)))"

definition store_txn :: "(session_world \<Rightarrow> session_db \<Rightarrow> session_db result) \<Rightarrow> unit session_prog" where
  "store_txn f = call_result (\<lambda>s. rbind (f s (xw_db s)) (\<lambda>db. Inr ((), s\<lparr>xw_db := db\<rparr>)))"

definition close_effect :: "session_backend \<Rightarrow> string \<Rightarrow> backend_close session_prog" where
  "close_effect b k = call (\<lambda>s. (bk_close b s k, s\<lparr>xw_closes := xw_closes s @ [k]\<rparr>))"

definition finish_close ::
  "(session_world \<Rightarrow> string) \<Rightarrow> int \<Rightarrow> string \<Rightarrow> string \<Rightarrow> string \<Rightarrow> string \<Rightarrow> session_row \<Rightarrow> nat \<Rightarrow> backend_close \<Rightarrow> close_result session_prog" where
  "finish_close uuid now k tenant source reason row cancelled out =
     (let failed = (\<lambda>e. catch (store_txn (\<lambda>s. record_close_failure now (uuid s) k tenant source (error_line e)))
                     (\<lambda>pe. Raise (ExceptionGroup ''session close and failed-state persistence both failed'' [e, pe])))
      in case out of
        CloseRaised e \<Rightarrow> bind (failed e) (\<lambda>_. if \<not> is_exception e then Raise e else Return \<lparr>cl_session_id = k, cl_backend_session_id = Some (rs_backend_session_id row),
            cl_closed = False, cl_status = Some SsFailed, cl_reason = None, cl_error = Some (error_line e), cl_cancelled_mailbox_count = cancelled\<rparr>)
      | CloseDone \<Rightarrow> bind (store_txn (\<lambda>s. record_closed now (uuid s) k tenant source reason)) (\<lambda>_.
            Return \<lparr>cl_session_id = k, cl_backend_session_id = Some (rs_backend_session_id row), cl_closed = True,
              cl_status = Some SsClosed, cl_reason = Some reason, cl_error = None, cl_cancelled_mailbox_count = cancelled\<rparr>))"

definition close_session ::
  "(string \<Rightarrow> session_backend option) \<Rightarrow> (session_world \<Rightarrow> string) \<Rightarrow> string \<Rightarrow> bool \<Rightarrow> int option
    \<Rightarrow> string \<Rightarrow> string \<Rightarrow> string \<Rightarrow> close_result session_prog" where
  "close_session backends uuid reason force given k tenant source =
     bind (store_call (\<lambda>clock db. ((get_session k tenant source db, case given of None \<Rightarrow> clock | Some n \<Rightarrow> n), db))) (\<lambda>(initial, now).
     case initial of
       None \<Rightarrow> Return (not_closed k None (Some ''session not found'') None)
     | Some row0 \<Rightarrow>
         if rs_status row0 = SsClosed then Return (not_closed k (Some row0) (Some ''session already closed'') None)
         else case backends (rs_backend row0) of
           None \<Rightarrow> Return (not_closed k (Some row0) None (Some (''no backend registered for '' @ repr_str (rs_backend row0))))
         | Some b \<Rightarrow>
             (case ensure_conversation_boundary b (rs_tenant_id row0) (rs_source_id row0) (''session backend '' @ repr_str (rs_backend row0)) of
                Inl e \<Rightarrow> (case e of TenantBoundaryError m \<Rightarrow> Return (not_closed k (Some row0) None (Some m)) | _ \<Rightarrow> Raise e)
              | Inr _ \<Rightarrow>
                  bind (store_call (\<lambda>_. claim_session_for_close now force k tenant source)) (\<lambda>claim. case claim of
                    Inl res \<Rightarrow> Return res
                  | Inr (None, _) \<Rightarrow> Raise AssertionError
                  | Inr (Some row, cancelled) \<Rightarrow>
                      bind (close_effect b (rs_backend_session_id row))
                        (finish_close uuid now k tenant source reason row cancelled))))"

subsection \<open>Abandoned close operations\<close>

definition close_uncertain :: string where
  "close_uncertain = ''session close outcome is uncertain after lifecycle recovery''"

fun recover_rows ::
  "int \<Rightarrow> string \<Rightarrow> (nat \<Rightarrow> string) \<Rightarrow> session_row list \<Rightarrow> session_db \<Rightarrow> (string list \<times> session_db) result" where
  "recover_rows now tenant uuid [] db = Inr ([], db)"
| "recover_rows now tenant uuid (row # rows) db =
     (let p = (\<lambda>r. rs_id r = rs_id row \<and> rs_tenant_id r = tenant \<and> rs_status r = SsClosing) in
      if rowcount p (sd_sessions db) \<noteq> 1 then recover_rows now tenant uuid rows db
      else rbind (record_session_event now (uuid (length rows)) (control_event (rs_id row) tenant (rs_source_id row) close_uncertain
                    (''session.lifecycle.close_uncertain:'' @ int_text now))
                    (db\<lparr>sd_sessions := update_where p (rs_set SsFailed None (Some close_uncertain) now) (sd_sessions db)\<rparr>)) (\<lambda>(_, db1).
           rbind (recover_rows now tenant uuid rows db1) (\<lambda>(ids, db2). Inr (rs_id row # ids, db2))))"

text \<open>\<open>uuid i\<close> is the identifier for the session that has \<open>i\<close> sessions after it.\<close>

definition recover_stale_closing_sessions ::
  "int \<Rightarrow> (nat \<Rightarrow> string) \<Rightarrow> string \<Rightarrow> int \<Rightarrow> int \<Rightarrow> session_db \<Rightarrow> (string list \<times> session_db) result" where
  "recover_stale_closing_sessions now uuid tenant older_than_s limit db =
     (if older_than_s < 0 then Inl (ValueError ''older_than_s must be non-negative'')
      else if limit < 1 then Inl (ValueError ''limit must be positive'')
      else recover_rows now tenant uuid
        (sql_limit limit (order_by (\<lambda>r. (rs_updated_at r, rs_id r)) (select_where
           (\<lambda>r. rs_tenant_id r = tenant \<and> rs_status r = SsClosing \<and> rs_updated_at r \<le> now - older_than_s) (sd_sessions db)))) db)"

subsection \<open>Idle sessions\<close>

record lifecycle_policy =
  lp_max_active_sessions_per_source :: "int option"
  lp_idle_ttl_s :: "int option"

definition SessionLifecyclePolicy :: "int option \<Rightarrow> int option \<Rightarrow> lifecycle_policy result" where
  "SessionLifecyclePolicy max_active ttl =
     (if (case max_active of None \<Rightarrow> False | Some n \<Rightarrow> n < 1) then Inl (ValueError ''max_active_sessions_per_source must be positive'')
      else if (case ttl of None \<Rightarrow> False | Some n \<Rightarrow> n < 0) then Inl (ValueError ''idle_ttl_s must be non-negative'')
      else Inr \<lparr>lp_max_active_sessions_per_source = max_active, lp_idle_ttl_s = ttl\<rparr>)"

definition rs_last_activity :: "session_row \<Rightarrow> int" where
  "rs_last_activity r = (case rs_last_used_at r of None \<Rightarrow> rs_updated_at r | Some t \<Rightarrow> t)"

definition lifecycle_scope :: "string \<Rightarrow> string option \<Rightarrow> string option \<Rightarrow> session_row \<Rightarrow> bool" where
  "lifecycle_scope tenant source pre r \<longleftrightarrow> rs_tenant_id r = tenant \<and> backend_matches pre (rs_backend r) \<and> opt_clause source (rs_source_id r)"

definition idle_ttl_candidates :: "string \<Rightarrow> string option \<Rightarrow> string option \<Rightarrow> int \<Rightarrow> session_db \<Rightarrow> session_row list" where
  "idle_ttl_candidates tenant source pre cutoff db = order_by (\<lambda>r. (rs_last_activity r, rs_created_at r))
     (select_where (\<lambda>r. lifecycle_scope tenant source pre r \<and> rs_status r = SsIdle \<and> rs_last_activity r \<le> cutoff
        \<and> \<not> has_pending (rs_id r) db) (sd_sessions db))"

text \<open>\<open>last_used_at or updated_at or created_at\<close>: zero counts as absent.\<close>

definition rs_overflow_key :: "session_row \<Rightarrow> int" where
  "rs_overflow_key r = (case rs_last_used_at r of
     Some t \<Rightarrow> if t \<noteq> 0 then t else if rs_updated_at r \<noteq> 0 then rs_updated_at r else rs_created_at r
   | None \<Rightarrow> if rs_updated_at r \<noteq> 0 then rs_updated_at r else rs_created_at r)"

definition overflow_candidates :: "string \<Rightarrow> string option \<Rightarrow> string option \<Rightarrow> int \<Rightarrow> session_db \<Rightarrow> session_row list" where
  "overflow_candidates tenant source pre max_active db =
     (let rows = order_by (\<lambda>r. (rs_source_id r, - rs_last_activity r, - rs_created_at r))
                   (select_where (\<lambda>r. lifecycle_scope tenant source pre r \<and> rs_status r \<noteq> SsClosed) (sd_sessions db));
          over = concat (map (\<lambda>src. drop (nat max_active) (filter (\<lambda>r. rs_source_id r = src) rows)) (remdups (map rs_source_id rows)))
      in order_by (\<lambda>r. (rs_source_id r, rs_overflow_key r))
           (filter (\<lambda>r. rs_status r = SsIdle \<and> \<not> has_pending (rs_id r) db) over))"

definition select_close_candidates ::
  "int \<Rightarrow> string \<Rightarrow> lifecycle_policy \<Rightarrow> string option \<Rightarrow> string option \<Rightarrow> session_db \<Rightarrow> (string \<times> string \<times> string) list" where
  "select_close_candidates now tenant policy source pre db =
     (let old = (case lp_idle_ttl_s policy of None \<Rightarrow> []
                 | Some ttl \<Rightarrow> map (\<lambda>r. (rs_id r, rs_source_id r, ''idle session exceeded ttl of '' @ int_text ttl @ ''s''))
                     (idle_ttl_candidates tenant source pre (now - ttl) db));
          more = (case lp_max_active_sessions_per_source policy of None \<Rightarrow> []
                  | Some n \<Rightarrow> map (\<lambda>r. (rs_id r, rs_source_id r, ''source exceeded active session limit of '' @ int_text n))
                      (overflow_candidates tenant source pre n db))
      in old @ filter (\<lambda>c. fst c \<notin> set (map fst old)) more)"

primrec close_each ::
  "(string \<Rightarrow> session_backend option) \<Rightarrow> (session_world \<Rightarrow> string) \<Rightarrow> int \<Rightarrow> string
    \<Rightarrow> (string \<times> string \<times> string) list \<Rightarrow> close_result list session_prog" where
  "close_each backends uuid now tenant [] = Return []"
| "close_each backends uuid now tenant (c # cs) =
     bind (close_session backends uuid (snd (snd c)) False (Some now) (fst c) tenant (fst (snd c))) (\<lambda>r.
     bind (close_each backends uuid now tenant cs) (\<lambda>rs. Return (r # rs)))"

definition close_idle_sessions ::
  "(string \<Rightarrow> session_backend option) \<Rightarrow> (session_world \<Rightarrow> string) \<Rightarrow> lifecycle_policy \<Rightarrow> string option \<Rightarrow> string option \<Rightarrow> int option
    \<Rightarrow> string \<Rightarrow> close_result list session_prog" where
  "close_idle_sessions backends uuid policy source pre given tenant = (case validate_backend_prefix pre of
     Inl e \<Rightarrow> Raise e
   | Inr _ \<Rightarrow> bind (store_call (\<lambda>clock db. let now = (case given of None \<Rightarrow> clock | Some n \<Rightarrow> n)
                in ((now, select_close_candidates now tenant policy source pre db), db)))
                (\<lambda>(now, cs). close_each backends uuid now tenant cs))"

end
