(* ===== verification/Session_Worker.thy ===== *)
theory Session_Worker
  imports Session_Lifecycle
begin

section \<open>The session mailbox worker\<close>

text \<open>
  Models \<open>sessions/mailbox_worker.py\<close> and the row decoders of \<open>sessions/sqlite.py\<close>.  One round of the worker
  (\<open>drain_store_once\<close>) fails deliveries that were interrupted, finds the sessions with work, and for each of
  them claims one item and delivers it: it marks the session busy, sends the prompt to the backend (only when
  the backend has not accepted it before), records the acceptance, captures the answer and settles the item.
  Every awaited call is one atomic step.  Reading the clock is a step of its own, so that time may pass before
  it.  The polling loop around the rounds is not modelled beyond arbitrary scheduling.  The event store is
  always present; the refresh of the search snapshots touches no table of the model and its errors are
  swallowed, so it is left out.
\<close>

subsection \<open>Decoded rows\<close>

record runtime_session =
  rt_id :: string
  rt_tenant_id :: string
  rt_source_id :: string
  rt_kind :: string
  rt_backend :: string
  rt_backend_session_id :: string
  rt_status :: session_state
  rt_owner_id :: "string option"
  rt_title :: string
  rt_cwd :: string
  rt_current_action_id :: "string option"
  rt_last_error :: "string option"
  rt_metadata :: json

record mailbox_item =
  mi_id :: string
  mi_session_id :: string
  mi_tenant_id :: string
  mi_source_id :: string
  mi_prompt :: string
  mi_status :: mailbox_state
  mi_action_id :: "string option"
  mi_source_event_id :: "string option"
  mi_last_error :: "string option"
  mi_accepted_at :: "int option"
  mi_attempts :: int
  mi_max_attempts :: int
  mi_run_after :: int
  mi_backend_receipt :: "(string \<times> json) list"

definition json_dict :: "stored_json option \<Rightarrow> (string \<times> json) list" where
  "json_dict v = (case v of Some (Encoded (JObj kvs)) \<Rightarrow> kvs | _ \<Rightarrow> [])"

definition row_to_session :: "session_row \<Rightarrow> runtime_session" where
  "row_to_session r = \<lparr>rt_id = rs_id r, rt_tenant_id = rs_tenant_id r, rt_source_id = rs_source_id r, rt_kind = rs_kind r,
     rt_backend = rs_backend r, rt_backend_session_id = rs_backend_session_id r, rt_status = rs_status r,
     rt_owner_id = rs_owner_id r, rt_title = rs_title r, rt_cwd = rs_cwd r, rt_current_action_id = rs_current_action_id r,
     rt_last_error = rs_last_error r,
     rt_metadata = (case rs_metadata_json r of Encoded v \<Rightarrow> v | Raw t \<Rightarrow> JObj [])\<rparr>"

definition row_to_mailbox_item :: "mailbox_row \<Rightarrow> mailbox_item" where
  "row_to_mailbox_item r = \<lparr>mi_id = mb_id r, mi_session_id = mb_session_id r, mi_tenant_id = mb_tenant_id r,
     mi_source_id = mb_source_id r, mi_prompt = mb_prompt r, mi_status = mb_status r, mi_action_id = mb_action_id r,
     mi_source_event_id = mb_source_event_id r, mi_last_error = mb_last_error r, mi_accepted_at = mb_accepted_at r,
     mi_attempts = mb_attempts r, mi_max_attempts = mb_max_attempts r, mi_run_after = mb_run_after r,
     mi_backend_receipt = json_dict (mb_backend_receipt_json r)\<rparr>"

subsection \<open>Validation of what a backend returns\<close>

definition send_receipt_payload :: "backend_send \<Rightarrow> (send_receipt option \<times> json option) result" where
  "send_receipt_payload out = (case out of
     BkNoReceipt \<Rightarrow> Inr (None, None)
   | BkReceipt op md \<Rightarrow>
       rbind (case op of JNull \<Rightarrow> Inr None | JStr i \<Rightarrow> Inr (Some i)
              | _ \<Rightarrow> Inl (TypeError ''SendReceipt.backend_operation_id must be a string or None'')) (\<lambda>i.
       rbind (case md of MdNone \<Rightarrow> Inr (None, JObj []) | MdJson (JObj kvs) \<Rightarrow> Inr (Some (JObj kvs), JObj kvs)
              | MdJson _ \<Rightarrow> Inl (TypeError ''SendReceipt.metadata must be a dictionary or None'')
              | MdUnserializable \<Rightarrow> Inl (TypeError ''SendReceipt.metadata must be JSON serializable'')) (\<lambda>(given, stored).
         Inr (Some \<lparr>sp_backend_operation_id = i, sp_metadata = given\<rparr>,
              Some (JObj [(''backend_operation_id'', case i of None \<Rightarrow> JNull | Some x \<Rightarrow> JStr x), (''metadata'', stored)]))))
   | BkOtherObject \<Rightarrow> Inl (TypeError ''session backend send() must return SendReceipt or None'')
   | BkSendRaised t \<Rightarrow> Inl (RuntimeError t))"

text \<open>The text \<open>f"{type(exc).__name__}: {exc}"\<close> of what \<open>send\<close> or its validation raised.\<close>

definition send_error :: "backend_send \<Rightarrow> py_error \<Rightarrow> string" where
  "send_error out e = (case out of BkSendRaised t \<Rightarrow> t | _ \<Rightarrow> error_line e)"

definition capture_result :: "backend_capture \<Rightarrow> string + string \<times> bool" where
  "capture_result out = (case out of
     CapReturned text timed_out \<Rightarrow>
       (case text of JStr t \<Rightarrow> (case timed_out of JBool b \<Rightarrow> Inr (t, b)
          | _ \<Rightarrow> Inl (error_line (TypeError ''CaptureResult.timed_out must be a boolean'')))
        | _ \<Rightarrow> Inl (error_line (TypeError ''CaptureResult.text must be a string'')))
   | CapOtherObject \<Rightarrow> Inl (error_line (TypeError ''session backend capture() must return CaptureResult''))
   | CapRaised t \<Rightarrow> Inl t)"

definition receipt_from_payload :: "(string \<times> json) list \<Rightarrow> send_receipt option" where
  "receipt_from_payload kvs = (if kvs = [] then None else Some
     \<lparr>sp_backend_operation_id = (case map_of kvs ''backend_operation_id'' of Some (JStr i) \<Rightarrow> Some i | _ \<Rightarrow> None),
      sp_metadata = (case map_of kvs ''metadata'' of Some (JObj m) \<Rightarrow> Some (JObj m) | _ \<Rightarrow> None)\<rparr>)"

definition bounded_exception_text :: "string \<Rightarrow> string" where
  "bounded_exception_text detail = (if length detail \<le> 500 then detail else take 497 detail @ ''...'')"

subsection \<open>Delivering one item\<close>

definition clock_now :: "int session_prog" where
  "clock_now = call (\<lambda>s. (xw_clock s, s))"

definition prompt_effect :: "session_backend \<Rightarrow> runtime_session \<Rightarrow> mailbox_item \<Rightarrow> backend_send session_prog" where
  "prompt_effect b sess item = call (\<lambda>s. (bk_send b s (rt_backend_session_id sess) (mi_prompt item),
     s\<lparr>xw_sends := xw_sends s @ [\<lparr>sent_item = mi_id item, sent_session = rt_id sess,
         sent_backend_session = rt_backend_session_id sess, sent_text = mi_prompt item\<rparr>]\<rparr>))"

definition capture_effect :: "session_backend \<Rightarrow> string \<Rightarrow> send_receipt option \<Rightarrow> backend_capture session_prog" where
  "capture_effect b k receipt = call (\<lambda>s. (case (receipt, bk_capture_delivery b) of
     (Some r, Some f) \<Rightarrow> f s k r | _ \<Rightarrow> bk_capture b s k, s))"

definition fail_item :: "mailbox_item \<Rightarrow> runtime_session \<Rightarrow> string \<Rightarrow> unit session_prog" where
  "fail_item item sess err = store_txn (\<lambda>s. fail_delivery (xw_clock s) (mi_id item) (rt_id sess) (mi_tenant_id item) (mi_source_id item) err)"

definition record_item_event ::
  "(session_world \<Rightarrow> string) \<Rightarrow> mailbox_item \<Rightarrow> runtime_session \<Rightarrow> string \<Rightarrow> string \<Rightarrow> unit session_prog" where
  "record_item_event uuid item sess direction text = catch
     (store_txn (\<lambda>s db. rbind (record_session_event (xw_clock s) (uuid s) \<lparr>sx_session_id = rt_id sess,
        sx_tenant_id = mi_tenant_id item, sx_source_id = mi_source_id item, sx_direction = direction, sx_payload_text = text,
        sx_action_id = mi_action_id item, sx_marker = Some (''mailbox:'' @ mi_id item @ '':'' @ direction)\<rparr> db) (\<lambda>(_, db'). Inr db')))
     (\<lambda>_. Return ())"

definition CAPTURE_RETRY_AFTER_S :: int where
  "CAPTURE_RETRY_AFTER_S = 5"

text \<open>A capture that timed out.\<close>

definition settle_timeout ::
  "int \<Rightarrow> session_backend \<Rightarrow> mailbox_item \<Rightarrow> runtime_session \<Rightarrow> send_receipt option \<Rightarrow> int option \<Rightarrow> unit session_prog" where
  "settle_timeout timeout b item sess receipt accepted_at =
     bind clock_now (\<lambda>now.
       if (case accepted_at of None \<Rightarrow> False | Some a \<Rightarrow> now - a \<ge> timeout)
       then let deadline = ''backend capture deadline exceeded for accepted delivery'' in
            (case (receipt, bk_abort_delivery b) of
               (Some r, Some f) \<Rightarrow>
                 bind (call (\<lambda>s. (f s (rt_backend_session_id sess) r, s))) (\<lambda>out. fail_item item sess (case out of
                   None \<Rightarrow> deadline | Some t \<Rightarrow> deadline @ ''; backend abort failed: '' @ bounded_exception_text t))
             | _ \<Rightarrow> fail_item item sess deadline)
       else store_txn (\<lambda>s. defer_pending (xw_clock s) (mi_id item) (rt_id sess) (mi_tenant_id item) (mi_source_id item)
              (mi_action_id item) ''backend capture timed out; accepted delivery remains pending'' CAPTURE_RETRY_AFTER_S))"

definition settle_capture ::
  "(session_world \<Rightarrow> string) \<Rightarrow> int \<Rightarrow> session_backend \<Rightarrow> mailbox_item \<Rightarrow> runtime_session \<Rightarrow> send_receipt option
    \<Rightarrow> int option \<Rightarrow> string + string \<times> bool \<Rightarrow> unit session_prog" where
  "settle_capture uuid timeout b item sess receipt accepted_at out = (case out of
     Inl err \<Rightarrow> bind (store_call_result (\<lambda>now. defer_accepted now (mi_id item) (rt_id sess) (mi_tenant_id item) (mi_source_id item)
                  (mi_action_id item) err CAPTURE_RETRY_AFTER_S)) (\<lambda>_. Return ())
   | Inr (text, timed_out) \<Rightarrow>
       if timed_out then settle_timeout timeout b item sess receipt accepted_at
       else bind (store_txn (\<lambda>s. complete_delivery (xw_clock s) (mi_id item) (rt_id sess) (mi_tenant_id item) (mi_source_id item)
              (JObj [(''output'', JStr text), (''timed_out'', JBool False)]) SsIdle None)) (\<lambda>_.
            if blank text then Return () else record_item_event uuid item sess ''output'' text))"

definition capture_item ::
  "(session_world \<Rightarrow> string) \<Rightarrow> int \<Rightarrow> session_backend \<Rightarrow> mailbox_item \<Rightarrow> runtime_session \<Rightarrow> send_receipt option
    \<Rightarrow> int option \<Rightarrow> unit session_prog" where
  "capture_item uuid timeout b item sess receipt accepted_at =
     bind (capture_effect b (rt_backend_session_id sess) receipt) (\<lambda>out.
       settle_capture uuid timeout b item sess receipt accepted_at (capture_result out))"

text \<open>The part for an item that no backend has accepted yet.\<close>

definition deliver_item ::
  "(session_world \<Rightarrow> string) \<Rightarrow> int \<Rightarrow> session_backend \<Rightarrow> mailbox_item \<Rightarrow> runtime_session \<Rightarrow> unit session_prog" where
  "deliver_item uuid timeout b item sess =
     bind (prompt_effect b sess item) (\<lambda>out. case send_receipt_payload out of
       Inl e \<Rightarrow> fail_item item sess (''delivery outcome is uncertain; automatic resend disabled: '' @ send_error out e)
     | Inr (receipt, payload) \<Rightarrow>
         bind (store_call (\<lambda>now db. ((), mark_accepted now payload (mi_id item) (mi_tenant_id item) (mi_source_id item) db))) (\<lambda>_.
         bind clock_now (\<lambda>accepted_at.
         bind (record_item_event uuid item sess ''input'' (mi_prompt item)) (\<lambda>_.
           capture_item uuid timeout b item sess receipt (Some accepted_at)))))"

definition send_item ::
  "(string \<Rightarrow> session_backend option) \<Rightarrow> (session_world \<Rightarrow> string) \<Rightarrow> int \<Rightarrow> mailbox_item \<Rightarrow> runtime_session \<Rightarrow> unit session_prog" where
  "send_item backends uuid timeout item sess =
     (if rt_id sess \<noteq> mi_session_id item \<or> rt_tenant_id sess \<noteq> mi_tenant_id item \<or> rt_source_id sess \<noteq> mi_source_id item
      then store_call (\<lambda>now db. ((), mailbox_mark_failed now (mi_id item) (mi_tenant_id item) (mi_source_id item)
             ''runtime session does not belong to mailbox conversation'' db))
      else case backends (rt_backend sess) of
        None \<Rightarrow> fail_item item sess (''no backend registered for '' @ repr_str (rt_backend sess))
      | Some b \<Rightarrow>
          (case ensure_conversation_boundary b (rt_tenant_id sess) (rt_source_id sess) (''session backend '' @ repr_str (rt_backend sess)) of
             Inl e \<Rightarrow> (case e of TenantBoundaryError m \<Rightarrow> fail_item item sess m | _ \<Rightarrow> Raise e)
           | Inr _ \<Rightarrow>
               bind (store_call (\<lambda>now db. ((), set_session_status now (rt_id sess) SsBusy (mi_tenant_id item) (mi_source_id item)
                       (mi_action_id item) None db))) (\<lambda>_.
                 if mi_accepted_at item = None then deliver_item uuid timeout b item sess
                 else capture_item uuid timeout b item sess (receipt_from_payload (mi_backend_receipt item)) (mi_accepted_at item))))"

subsection \<open>One round of the worker\<close>

definition BATCH_SIZE :: int where
  "BATCH_SIZE = 5"

record mailbox_worker =
  mw_tenant_id :: string
  mw_backends :: "string \<Rightarrow> session_backend option"
  mw_stale_sending_s :: int
  mw_capture_pending_timeout_s :: int
  mw_backend_prefix :: "string option"
  mw_uuid :: "session_world \<Rightarrow> string"

definition process_claim :: "mailbox_worker \<Rightarrow> runtime_session \<Rightarrow> mailbox_item option \<Rightarrow> nat session_prog" where
  "process_claim w sess claimed = (case claimed of
     None \<Rightarrow> Return 0
   | Some item \<Rightarrow> bind (send_item (mw_backends w) (mw_uuid w) (mw_capture_pending_timeout_s w) item sess) (\<lambda>_. Return 1))"

definition drain_session :: "mailbox_worker \<Rightarrow> string \<times> string \<Rightarrow> nat session_prog" where
  "drain_session w g =
     bind (store_call (\<lambda>_ db. (map_option row_to_session (get_session (fst g) (mw_tenant_id w) (snd g) db), db))) (\<lambda>found. case found of
       None \<Rightarrow> Return 0
     | Some sess \<Rightarrow>
         bind (store_call (\<lambda>now db. let (item, db') = claim_next now (fst g) (mw_tenant_id w) (snd g) db
                 in (map_option row_to_mailbox_item item, db'))) (process_claim w sess))"

primrec drain_sessions :: "mailbox_worker \<Rightarrow> (string \<times> string) list \<Rightarrow> nat session_prog" where
  "drain_sessions w [] = Return 0"
| "drain_sessions w (g # gs) = bind (drain_session w g) (\<lambda>n. bind (drain_sessions w gs) (\<lambda>m. Return (n + m)))"

definition drain_store_once :: "mailbox_worker \<Rightarrow> nat session_prog" where
  "drain_store_once w =
     (if mw_stale_sending_s w < 0 then Raise (ValueError ''stale_sending_s must be a non-negative integer'')
      else if mw_capture_pending_timeout_s w < 1 then Raise (ValueError ''capture_pending_timeout_s must be positive'')
      else bind (store_call_result (\<lambda>now. fail_stale_sending now (mw_tenant_id w) (mw_stale_sending_s w)
               ''session mailbox item was left in sending after worker interruption'' BATCH_SIZE (mw_backend_prefix w))) (\<lambda>stale.
           bind (store_call_result (\<lambda>now db. rbind (ready_sessions now (mw_tenant_id w) BATCH_SIZE (mw_backend_prefix w) db) (\<lambda>gs. Inr (gs, db)))) (\<lambda>ready.
           bind (drain_sessions w ready) (\<lambda>n. Return (length stale + n)))))"

end
