(* ===== verification/Session_Safety.thy ===== *)
theory Session_Safety
  imports Session_Worker Effect_Pool
begin

section \<open>Deliveries and closed sessions under interleaving and crashes\<close>

text \<open>
  The mailbox workers, the close operations and the rest of the platform run together, in any interleaving,
  and any of them may be stopped for ever at any await.  A prompt is handed to a backend at most once, and a
  session that was closed while no worker was running stays closed.  \<open>requeue\<close> of \<open>sessions/mailbox.py\<close> is
  called nowhere in the platform and is not among the steps.
\<close>

subsection \<open>The system\<close>

datatype session_env =
    EnvCreate int string session_args
  | EnvPrompt int string prompt_args
  | EnvRecover int "nat \<Rightarrow> string" string int int
  | EnvClock int

inductive session_env_step :: "session_env \<Rightarrow> session_world \<Rightarrow> session_world \<Rightarrow> bool" where
  env_create: "insert_session now uuid a (xw_db s) = Inr (k, db) \<Longrightarrow> session_env_step (EnvCreate now uuid a) s (s\<lparr>xw_db := db\<rparr>)"
| env_prompt: "enqueue_prompt now uuid a (xw_db s) = Inr (r, db) \<Longrightarrow> session_env_step (EnvPrompt now uuid a) s (s\<lparr>xw_db := db\<rparr>)"
| env_recover: "recover_stale_closing_sessions now us tenant older limit (xw_db s) = Inr (ks, db) \<Longrightarrow>
    session_env_step (EnvRecover now us tenant older limit) s (s\<lparr>xw_db := db\<rparr>)"
| env_clock: "session_env_step (EnvClock now) s (s\<lparr>xw_clock := now\<rparr>)"

datatype session_job =
    DrainJob mailbox_worker
  | CloseJob "string \<Rightarrow> session_backend option" "session_world \<Rightarrow> string" string bool "int option" string string string
  | CloseIdleJob "string \<Rightarrow> session_backend option" "session_world \<Rightarrow> string" lifecycle_policy "string option" "string option"
      "int option" string

primrec job_program :: "session_job \<Rightarrow> unit session_prog" where
  "job_program (DrainJob w) = bind (drain_store_once w) (\<lambda>_. Return ())"
| "job_program (CloseJob bs u reason force given k tenant source) = bind (close_session bs u reason force given k tenant source) (\<lambda>_. Return ())"
| "job_program (CloseIdleJob bs u policy source pre given tenant) = bind (close_idle_sessions bs u policy source pre given tenant) (\<lambda>_. Return ())"

definition job_start :: "session_job \<Rightarrow> session_world \<Rightarrow> unit session_prog list \<Rightarrow> session_world \<Rightarrow> bool" where
  "job_start j s ps t \<longleftrightarrow> ps = [job_program j] \<and> t = s"

abbreviation session_step where
  "session_step \<equiv> pool_step session_env_step job_start"

subsection \<open>Store calls\<close>

text \<open>A property of the tables that a store call keeps is kept by its step.\<close>

lemma store_steps:
  "bind (store_call f) c = Await (\<lambda>s. s\<lparr>xw_db := snd (f (xw_clock s) (xw_db s))\<rparr>) (\<lambda>s. c (fst (f (xw_clock s) (xw_db s))))"
  by (simp add: store_call_def case_prod_unfold Let_def)

lemma store_call_result_eq:
  "store_call_result f = Await (\<lambda>s. case f (xw_clock s) (xw_db s) of Inl e \<Rightarrow> s | Inr (x, db) \<Rightarrow> s\<lparr>xw_db := db\<rparr>)
     (\<lambda>s. case f (xw_clock s) (xw_db s) of Inl e \<Rightarrow> Raise e | Inr (x, db) \<Rightarrow> Return x)"
  unfolding store_call_result_def call_result_def by (auto intro!: ext split: sum.splits)

lemma store_txn_eq:
  "store_txn f = Await (\<lambda>s. case f s (xw_db s) of Inl e \<Rightarrow> s | Inr db \<Rightarrow> s\<lparr>xw_db := db\<rparr>)
     (\<lambda>s. case f s (xw_db s) of Inl e \<Rightarrow> Raise e | Inr db \<Rightarrow> Return ())"
  unfolding store_txn_def call_result_def by (auto intro!: ext split: sum.splits)

lemma store_call_eq:
  "store_call f = Await (\<lambda>s. s\<lparr>xw_db := snd (f (xw_clock s) (xw_db s))\<rparr>) (\<lambda>s. Return (fst (f (xw_clock s) (xw_db s))))"
  unfolding store_call_def call_def by (auto intro!: ext simp: case_prod_unfold Let_def)

text \<open>Settlements change the status of the sessions and move items out of \<open>sending\<close>.\<close>

lemma rs_set_proj [simp]: "rs_id (rs_set st a e now r) = rs_id r" "rs_status (rs_set st a e now r) = st"
  by (simp_all add: rs_set_def)

lemma set_session_status_mailbox [simp]: "sd_mailbox (set_session_status now k st t src a e db) = sd_mailbox db"
  by (simp add: set_session_status_def)

lemma settle_session_mailbox: "settle_session g st a e now k t src db = Inr db' \<Longrightarrow> sd_mailbox db' = sd_mailbox db"
  by (auto simp: settle_session_def split: if_splits)

lemma record_event_keeps:
  "record_session_event now u a db = Inr (x, db') \<Longrightarrow> sd_mailbox db' = sd_mailbox db \<and> sd_sessions db' = sd_sessions db"
  by (auto simp: record_session_event_def Let_def split: if_splits)

lemma close_records_mailbox:
  "record_close_failure now u k t src e db = Inr db' \<Longrightarrow> sd_mailbox db' = sd_mailbox db"
  "record_closed now u k t src e db = Inr db' \<Longrightarrow> sd_mailbox db' = sd_mailbox db"
  by (auto simp: record_close_failure_def record_closed_def rbind_eq_Inr dest: record_event_keeps)

subsection \<open>Prompts that cannot be sent\<close>

definition mb_place :: "mailbox_row \<Rightarrow> string \<times> string \<times> string" where
  "mb_place r = (mb_session_id r, mb_tenant_id r, mb_source_id r)"

text \<open>At most one delivery per session is in flight.\<close>

definition serial_deliveries :: "mailbox_row list \<Rightarrow> bool" where
  "serial_deliveries rows \<longleftrightarrow> (\<forall>a \<in> set rows. \<forall>b \<in> set rows.
     mb_status a = MbSending \<and> mb_status b = MbSending \<and> mb_place a = mb_place b \<longrightarrow> mb_id a = mb_id b)"

definition sd_ok :: "session_db \<Rightarrow> bool" where
  "sd_ok db \<longleftrightarrow> distinct (map mb_id (sd_mailbox db)) \<and> serial_deliveries (sd_mailbox db)
     \<and> (\<forall>m \<in> set (sd_mailbox db). mb_status m = MbQueued \<longrightarrow> mb_accepted_at m = None)"

definition prompt_spent :: "string \<Rightarrow> session_db \<Rightarrow> bool" where
  "prompt_spent k db \<longleftrightarrow> k \<in> mb_id ` set (sd_mailbox db) \<and> (\<forall>m \<in> set (sd_mailbox db). mb_id m = k \<longrightarrow> mb_status m \<noteq> MbQueued)"

definition prompt_sends :: "string \<Rightarrow> session_world \<Rightarrow> nat" where
  "prompt_sends k s = length (filter (\<lambda>x. sent_item x = k) (xw_sends s))"

text \<open>The mailbox keeps its invariant, and no item goes back to \<open>queued\<close>.\<close>

definition mail_kept :: "session_db \<Rightarrow> session_db \<Rightarrow> bool" where
  "mail_kept db db' \<longleftrightarrow> sd_ok db \<longrightarrow> sd_ok db' \<and> (\<forall>k. prompt_spent k db \<longrightarrow> prompt_spent k db')"

lemma mail_kept_same: "sd_mailbox db' = sd_mailbox db \<Longrightarrow> mail_kept db db'"
  by (simp add: mail_kept_def sd_ok_def prompt_spent_def)

lemma mail_kept_trans: "mail_kept a b \<Longrightarrow> mail_kept b c \<Longrightarrow> mail_kept a c"
  by (simp add: mail_kept_def)

definition settled_from :: "mailbox_row \<Rightarrow> mailbox_row \<Rightarrow> bool" where
  "settled_from r r' \<longleftrightarrow> mb_id r' = mb_id r \<and> mb_place r' = mb_place r \<and> mb_status r' \<noteq> MbQueued
     \<and> (mb_status r' = MbSending \<longrightarrow> mb_status r = MbSending)"

lemma serial_update:
  assumes "\<And>r. p r \<Longrightarrow> settled_from r (f r)" and "serial_deliveries rows"
  shows "serial_deliveries (update_where p f rows)"
proof -
  have old: "\<exists>r \<in> set rows. mb_id x = mb_id r \<and> mb_place x = mb_place r \<and> mb_status r = MbSending"
    if x: "x \<in> set (update_where p f rows)" "mb_status x = MbSending" for x
  proof -
    obtain r where "r \<in> set rows" "x = (if p r then f r else r)" using x(1) by (auto simp: update_where_def)
    then show ?thesis using x(2) assms(1) [of r] by (intro bexI [of _ r]) (auto simp: settled_from_def split: if_splits)
  qed
  show ?thesis unfolding serial_deliveries_def
  proof (intro ballI impI, elim conjE)
    fix a b assume a: "a \<in> set (update_where p f rows)" "mb_status a = MbSending"
      and b: "b \<in> set (update_where p f rows)" "mb_status b = MbSending" and ab: "mb_place a = mb_place b"
    obtain r where r: "r \<in> set rows" "mb_id a = mb_id r" "mb_place a = mb_place r" "mb_status r = MbSending"
      using old [OF a] by blast
    obtain q where q: "q \<in> set rows" "mb_id b = mb_id q" "mb_place b = mb_place q" "mb_status q = MbSending"
      using old [OF b] by blast
    have "mb_id r = mb_id q" using assms(2) [unfolded serial_deliveries_def, rule_format, OF r(1) q(1)] r(3,4) q(3,4) ab by simp
    then show "mb_id a = mb_id b" using r(2) q(2) by simp
  qed
qed

lemma serial_append: "serial_deliveries rows \<Longrightarrow> mb_status n \<noteq> MbSending \<Longrightarrow> serial_deliveries (rows @ [n])"
  unfolding serial_deliveries_def set_append list.set by blast

lemma mail_kept_update:
  assumes "sd_mailbox db' = update_where p f (sd_mailbox db)"
    and "\<And>r. p r \<Longrightarrow> settled_from r (f r)"
  shows "mail_kept db db'"
proof -
  have f: "\<And>r. p r \<Longrightarrow> mb_id (f r) = mb_id r \<and> mb_status (f r) \<noteq> MbQueued" using assms(2) by (simp add: settled_from_def)
  have ids: "map mb_id (sd_mailbox db') = map mb_id (sd_mailbox db)"
    using f by (simp add: assms(1) update_where_def)
  then have "mb_id ` set (sd_mailbox db') = mb_id ` set (sd_mailbox db)" unfolding set_map [symmetric] by simp
  moreover have "serial_deliveries (sd_mailbox db) \<Longrightarrow> serial_deliveries (sd_mailbox db')"
    unfolding assms(1) using assms(2) by (rule serial_update)
  ultimately show ?thesis
    using ids f unfolding mail_kept_def sd_ok_def prompt_spent_def by (auto simp: assms(1) ball_update_where)
qed

lemma mail_kept_settle:
  assumes "settle_session g st a e now k t src (db\<lparr>sd_mailbox := update_where p f (sd_mailbox db)\<rparr>) = Inr db'"
    and "\<And>r. p r \<Longrightarrow> settled_from r (f r)"
  shows "mail_kept db db'"
  using settle_session_mailbox [OF assms(1)] by (intro mail_kept_update [where p = p and f = f, OF _ assms(2)]) simp_all

lemma settlements_keep:
  "mail_kept db (mailbox_mark_sent now v k t src db)"
  "mail_kept db (mark_accepted now w k t src db)"
  "mail_kept db (mailbox_mark_failed now k t src err db)"
  "mail_kept db (set_session_status now k st t src a e db)"
  unfolding mailbox_mark_sent_def mark_accepted_def mailbox_mark_failed_def
  by (rule mail_kept_update, simp, force simp: settled_from_def mb_place_def mb_held_def mb_finish_def mb_fail_def)+ (simp add: mail_kept_same)

lemma defer_accepted_keeps: "defer_accepted now k sess t src a err d db = Inr (b, db') \<Longrightarrow> mail_kept db db'"
  by (auto simp: defer_accepted_def Let_def rbind_eq_Inr mb_held_def settled_from_def mb_place_def mail_kept_same split: option.splits if_splits
      elim!: mail_kept_settle)

lemma delivery_results_keep:
  "defer_pending now k sess t src a err d db = Inr db' \<Longrightarrow> mail_kept db db'"
  "complete_delivery now k sess t src v st a db = Inr db' \<Longrightarrow> mail_kept db db'"
  "fail_delivery now k sess t src err db = Inr db' \<Longrightarrow> mail_kept db db'"
  by (auto simp: defer_pending_def complete_delivery_def fail_delivery_def Let_def mb_held_def mb_finish_def mb_fail_def
      settled_from_def mb_place_def split: if_splits elim!: mail_kept_settle)

lemma fail_stale_keeps: "fail_stale_sending now t older why n pre db = Inr (rows, db') \<Longrightarrow> mail_kept db db'"
  by (auto simp: fail_stale_sending_def Let_def rbind_eq_Inr settled_from_def mb_place_def split: if_splits intro!: mail_kept_update)

lemma claim_for_close_keeps: "mail_kept db (snd (claim_session_for_close now force k t src db))"
proof -
  have "mail_kept db (db\<lparr>sd_mailbox := update_where (\<lambda>r. mb_session_id r = k \<and> mb_status r = MbQueued)
      (\<lambda>r. r\<lparr>mb_status := MbCancelled, mb_last_error := Some ''session closed forcefully'', mb_updated_at := now\<rparr>) (sd_mailbox db),
      sd_sessions := ss\<rparr>)" for ss
    by (rule mail_kept_update, simp, simp add: settled_from_def mb_place_def)
  then show ?thesis
    unfolding claim_session_for_close_def Let_def pending_mailbox_counts_def
    by (auto split: option.split simp: mail_kept_same)
qed

lemma recover_rows_keeps: "recover_rows now t us rows db = Inr (ks, db') \<Longrightarrow> sd_mailbox db' = sd_mailbox db"
proof (induction now t us rows db arbitrary: ks db' rule: recover_rows.induct)
  case (2 now tenant uuid row rows db)
  then show ?case by (fastforce simp: Let_def rbind_eq_Inr dest: record_event_keeps split: if_splits)
qed simp


lemma first_by_SomeD: "first_by k p rows = Some r \<Longrightarrow> r \<in> set rows \<and> p r \<and> (\<forall>x \<in> set rows. p x \<longrightarrow> k r \<le> k x)"
proof -
  assume "first_by k p rows = Some r"
  then obtain rest where o: "order_by k (select_where p rows) = r # rest" by (auto simp: first_by_def split: list.splits)
  then have "set (r # rest) = set (filter p rows)" by (metis set_order_by select_where_def)
  moreover have "\<forall>x \<in> set rest. k r \<le> k x" using sorted_order_by [of k "select_where p rows"] by (simp add: o)
  ultimately show ?thesis by auto
qed

lemma claim_next_cases:
  assumes "claim_next now sess t src db = (res, db')" and "sd_ok db"
  obtains (none) "res = None" "db' = db"
  | (accepted) r where "res = Some r" "db' = db" "r \<in> set (sd_mailbox db)" "mb_of sess t src r" "mb_accepted_due now r"
  | (claimed) r s where "res = Some (mb_claim now r)" "r \<in> set (sd_mailbox db)" "mb_of sess t src r" "mb_status r = MbQueued"
      "mb_run_after r \<le> now" "\<not> mb_blocked sess t src (sd_mailbox db)"
      "\<forall>x \<in> set (sd_mailbox db). mb_of sess t src x \<and> mb_status x = MbQueued \<and> mb_run_after x \<le> now \<longrightarrow> mb_created_at r \<le> mb_created_at x"
      "db' = db\<lparr>sd_mailbox := update_where (\<lambda>x. mb_in (mb_id r) t src x \<and> mb_status x = MbQueued) (mb_claim now) (sd_mailbox db)\<rparr>"
      "s \<in> set (sd_sessions db)" "rs_in sess t src s" "rs_status s = SsIdle"
proof -
  let ?acc = "first_by (\<lambda>r. case mb_accepted_at r of None \<Rightarrow> 0 | Some a \<Rightarrow> a) (\<lambda>r. mb_of sess t src r \<and> mb_accepted_due now r) (sd_mailbox db)"
  let ?ses = "fetchone (\<lambda>s. rs_in sess t src s \<and> rs_status s = SsIdle) (sd_sessions db)"
  let ?new = "first_by mb_created_at (\<lambda>r. mb_of sess t src r \<and> mb_status r = MbQueued \<and> mb_run_after r \<le> now
     \<and> \<not> mb_blocked sess t src (sd_mailbox db)) (sd_mailbox db)"
  consider (A) r where "?acc = Some r" | (N) "?acc = None" "?ses = None \<or> ?new = None" | (C) s r where "?acc = None" "?ses = Some s" "?new = Some r"
    by (cases ?acc; cases ?ses; cases ?new) auto
  then show thesis
  proof cases
    case A
    then have "res = Some r" "db' = db" using assms(1) by (simp_all add: claim_next_def)
    then show ?thesis using first_by_SomeD [OF A] by (intro accepted) blast+
  next
    case N
    then show ?thesis using assms(1) none by (auto simp: claim_next_def split: option.splits)
  next
    case C
    let ?rows = "update_where (\<lambda>x. mb_in (mb_id r) t src x \<and> mb_status x = MbQueued) (mb_claim now) (sd_mailbox db)"
    note r = first_by_SomeD [OF C(3)]
    have "map mb_id ?rows = map mb_id (sd_mailbox db)" by (simp add: update_where_def mb_claim_def)
    then have d: "distinct (map mb_id ?rows)" using assms(2) by (simp add: sd_ok_def)
    have m: "mb_claim now r \<in> set ?rows" using r by (auto simp: set_update_where mb_in_def mb_of_def)
    have "fetchone (mb_in (mb_id r) t src) ?rows = Some (mb_claim now r)"
      using r m by (intro fetchone_pk [OF d]) (auto simp: mb_in_def mb_of_def mb_claim_def)
    then show ?thesis using assms(1) C r fetchone_SomeD [OF C(2)] by (intro claimed) (auto simp: claim_next_def Let_def)
  qed
qed


lemma claim_next_keeps: "mail_kept db (snd (claim_next now sess t src db))"
proof -
  obtain res db' where c: "claim_next now sess t src db = (res, db')" by fastforce
  have "mail_kept db db'" if ok: "sd_ok db"
    using c ok
  proof (cases rule: claim_next_cases)
    case (claimed r s)
    let ?p = "\<lambda>x. mb_in (mb_id r) t src x \<and> mb_status x = MbQueued"
    have "map mb_id (sd_mailbox db') = map mb_id (sd_mailbox db)" by (simp add: claimed(8) update_where_def mb_claim_def)
    moreover from this have "mb_id ` set (sd_mailbox db') = mb_id ` set (sd_mailbox db)" unfolding set_map [symmetric] by simp
    moreover have "serial_deliveries (sd_mailbox db')"
      unfolding serial_deliveries_def
    proof (intro ballI impI)
      fix a b assume ab: "a \<in> set (sd_mailbox db')" "b \<in> set (sd_mailbox db')"
        and "mb_status a = MbSending \<and> mb_status b = MbSending \<and> mb_place a = mb_place b"
      have old: "x \<in> set (sd_mailbox db) \<and> mb_place x \<noteq> (sess, t, src) \<or> mb_id x = mb_id r \<and> mb_place x = (sess, t, src)"
        if "x \<in> set (sd_mailbox db')" "mb_status x = MbSending" for x
      proof -
        obtain y where y: "y \<in> set (sd_mailbox db)" "x = (if ?p y then mb_claim now y else y)"
          using \<open>x \<in> set (sd_mailbox db')\<close> by (auto simp: claimed(8) update_where_def)
        have "?p y \<Longrightarrow> y = r" using distinct_map_eq [of mb_id "sd_mailbox db" y r] ok claimed(2) y(1) by (auto simp: sd_ok_def mb_in_def)
        then show ?thesis using y that(2) claimed(3,6)
          by (auto simp: mb_place_def mb_of_def mb_blocked_def mb_claim_def split: if_splits)
      qed
      have "serial_deliveries (sd_mailbox db)" using ok by (simp add: sd_ok_def)
      then show "mb_id a = mb_id b" using old [OF ab(1)] old [OF ab(2)]
        \<open>mb_status a = MbSending \<and> mb_status b = MbSending \<and> mb_place a = mb_place b\<close>
        unfolding serial_deliveries_def by metis
    qed
    ultimately show ?thesis using ok unfolding mail_kept_def sd_ok_def prompt_spent_def
      by (auto simp: claimed(8) ball_update_where mb_claim_def)
  qed (simp_all add: mail_kept_same)
  then show ?thesis using c by (auto simp: mail_kept_def)
qed

subsection \<open>Programs that send nothing\<close>

interpretation prompt_item: effect_item "\<lambda>s. sd_ok (xw_db s)" "\<lambda>s. prompt_spent k (xw_db s)" "prompt_sends k" for k .

lemma quiet_db: "mail_kept (xw_db s) db \<Longrightarrow> sd_ok (xw_db s) \<Longrightarrow> prompt_item.quiet_step k s (s\<lparr>xw_db := db\<rparr>)"
  by (auto simp: prompt_item.quiet_step_def mail_kept_def prompt_sends_def)

lemma quiet_id [simp]: "sd_ok (xw_db s) \<Longrightarrow> prompt_item.quiet_step k s s"
  by (simp add: prompt_item.quiet_step_def)

lemma harmless_store_call: "(\<And>now db. mail_kept db (snd (f now db))) \<Longrightarrow> prompt_item.harmless k (store_call f)"
  by (simp add: store_call_eq quiet_db)

lemma harmless_store_call_result:
  "(\<And>now db x db'. f now db = Inr (x, db') \<Longrightarrow> mail_kept db db') \<Longrightarrow> prompt_item.harmless k (store_call_result f)"
  by (auto simp: store_call_result_eq quiet_db quiet_id split: sum.split)

lemma harmless_store_txn: "(\<And>s db db'. f s db = Inr db' \<Longrightarrow> mail_kept db db') \<Longrightarrow> prompt_item.harmless k (store_txn f)"
  by (auto simp: store_txn_eq quiet_db quiet_id split: sum.split)

lemma harmless_read: "prompt_item.harmless k (call (\<lambda>s. (f s, s)))"
  by (simp add: call_def quiet_id)

lemma harmless_fail_item: "prompt_item.harmless k (fail_item item sess err)"
  unfolding fail_item_def by (rule harmless_store_txn) (rule delivery_results_keep(3))

lemma harmless_record_event: "prompt_item.harmless k (record_item_event u item sess d text)"
  unfolding record_item_event_def
  by (intro prompt_item.harmless_catch harmless_store_txn)
     (auto simp: rbind_eq_Inr dest!: record_event_keeps intro!: mail_kept_same)

lemma harmless_settle_timeout: "prompt_item.harmless k (settle_timeout timeout b item sess r acc)"
  unfolding settle_timeout_def Let_def clock_now_def
  by (intro prompt_item.harmless_bind harmless_read)
     (auto split: option.split intro!: harmless_fail_item harmless_store_txn prompt_item.harmless_bind harmless_read
       dest: delivery_results_keep(1))

lemma harmless_settle_capture: "prompt_item.harmless k (settle_capture u timeout b item sess r acc out)"
  unfolding settle_capture_def
  by (auto split: sum.split intro!: prompt_item.harmless_bind harmless_store_call_result harmless_store_txn harmless_settle_timeout
      harmless_record_event dest: defer_accepted_keeps delivery_results_keep(2))

lemma harmless_capture_item: "prompt_item.harmless k (capture_item u timeout b item sess r acc)"
  unfolding capture_item_def capture_effect_def
  by (intro prompt_item.harmless_bind harmless_read harmless_settle_capture)

lemma harmless_busy: "prompt_item.harmless k (store_call (\<lambda>now db. ((), set_session_status now i st t src a e db)))"
  by (rule harmless_store_call) (simp add: settlements_keep)

text \<open>An item that a backend has accepted is not sent again.\<close>

lemma harmless_send_accepted: "mi_accepted_at item \<noteq> None \<Longrightarrow> prompt_item.harmless k (send_item bs u timeout item sess)"
  unfolding send_item_def
  by (auto simp: settlements_keep split: option.split sum.split py_error.split
      intro!: prompt_item.harmless_bind harmless_store_call harmless_fail_item harmless_busy harmless_capture_item)

lemma harmless_accept: "prompt_item.harmless k (store_call (\<lambda>now db. ((), mark_accepted now v i t src db)))"
  by (rule harmless_store_call) (simp add: settlements_keep)

lemma harmless_after_send:
  "prompt_item.harmless k (case send_receipt_payload out of
     Inl e \<Rightarrow> fail_item item sess (text e)
   | Inr (receipt, payload) \<Rightarrow>
       bind (store_call (\<lambda>now db. ((), mark_accepted now payload i t src db))) (\<lambda>_.
       bind clock_now (\<lambda>acc. bind (record_item_event u item sess d p) (\<lambda>_. capture_item u timeout b item sess receipt (Some acc)))))"
  by (auto simp: clock_now_def split: sum.split intro!: harmless_fail_item prompt_item.harmless_bind harmless_accept harmless_read
      harmless_record_event harmless_capture_item)

lemma prompt_effect_bind:
  "bind (prompt_effect b sess item) c = Await (\<lambda>s. s\<lparr>xw_sends := xw_sends s @ [\<lparr>sent_item = mi_id item, sent_session = rt_id sess,
         sent_backend_session = rt_backend_session_id sess, sent_text = mi_prompt item\<rparr>]\<rparr>)
     (\<lambda>s. c (bk_send b s (rt_backend_session_id sess) (mi_prompt item)))"
  by (simp add: prompt_effect_def)

text \<open>Sending another item is no start of this one.\<close>

lemma harmless_prompt_other: "mi_id item \<noteq> k \<Longrightarrow> prompt_item.harmless k (send_item bs u timeout item sess)"
proof (cases "mi_accepted_at item")
  case None
  assume other: "mi_id item \<noteq> k"
  have "prompt_item.harmless k (deliver_item u timeout b item sess)" for b
    unfolding deliver_item_def prompt_effect_bind prompt_item.harmless_simps
    using other by (auto simp: prompt_item.quiet_step_def prompt_sends_def intro: harmless_after_send)
  then show ?thesis unfolding send_item_def
    by (auto simp: settlements_keep None split: option.split sum.split py_error.split
        intro!: prompt_item.harmless_bind harmless_store_call harmless_fail_item harmless_busy)
qed (simp add: harmless_send_accepted)


subsection \<open>The one send of an item\<close>

lemma arms_deliver: "mi_id item = k \<Longrightarrow> prompt_item.arms k (deliver_item u timeout b item sess) True"
  unfolding deliver_item_def prompt_effect_bind
  by (rule prompt_item.arms_start) (simp add: prompt_sends_def, rule prompt_item.harmless_arms, rule harmless_after_send)

lemma arms_send_item: "mi_id item = k \<Longrightarrow> prompt_item.arms k (send_item bs u timeout item sess) True"
proof (cases "mi_accepted_at item")
  case None
  assume k: "mi_id item = k"
  have fail: "prompt_item.arms k (fail_item item sess err) True" for err
    by (rule prompt_item.harmless_arms) (rule harmless_fail_item)
  have lost: "prompt_item.arms k (store_call (\<lambda>now db. ((), mailbox_mark_failed now i t src err db))) True" for i t src err
    by (rule prompt_item.harmless_arms, rule harmless_store_call) (simp add: settlements_keep)
  show ?thesis unfolding send_item_def
    using k fail lost None
    by (auto split: option.split sum.split py_error.split intro!: prompt_item.arms_bind harmless_busy arms_deliver)
qed (auto intro: prompt_item.harmless_arms harmless_send_accepted)

text \<open>The claim spends the item that it takes from the queue.\<close>

definition claims_fresh :: "string \<Rightarrow> int \<Rightarrow> string \<Rightarrow> string \<Rightarrow> string \<Rightarrow> session_db \<Rightarrow> bool" where
  "claims_fresh k now sess t src db = (case fst (claim_next now sess t src db) of
     None \<Rightarrow> False | Some r \<Rightarrow> mb_id r = k \<and> mb_accepted_at r = None)"

lemma claims_fresh_spends:
  assumes "sd_ok db" and "claims_fresh k now sess t src db"
  shows "\<not> prompt_spent k db \<and> prompt_spent k (snd (claim_next now sess t src db))"
proof -
  obtain res db' where c: "claim_next now sess t src db = (res, db')" by fastforce
  from c assms(1) show ?thesis
  proof (cases rule: claim_next_cases)
    case (claimed r s)
    then have k: "mb_id r = k" using assms(2) by (simp add: claims_fresh_def c mb_claim_def)
    let ?rows = "update_where (\<lambda>x. mb_in (mb_id r) t src x \<and> mb_status x = MbQueued) (mb_claim now) (sd_mailbox db)"
    have "map mb_id ?rows = map mb_id (sd_mailbox db)" by (simp add: update_where_def mb_claim_def)
    then have d: "distinct (map mb_id ?rows)" using assms(1) by (simp add: sd_ok_def)
    have m: "mb_claim now r \<in> set ?rows" using claimed(2,3,4) by (auto simp: set_update_where mb_in_def mb_of_def)
    have "mb_status x \<noteq> MbQueued" if "x \<in> set ?rows" "mb_id x = k" for x
      using distinct_map_eq [OF d that(1) m] that(2) k by (simp add: mb_claim_def)
    moreover have "k = mb_id (mb_claim now r)" using k by (simp add: mb_claim_def)
    ultimately have "prompt_spent k db'" using m unfolding claimed(8) prompt_spent_def by auto
    then show ?thesis using claimed(2,4) k c by (auto simp: prompt_spent_def)
  qed (use assms(2) c in \<open>auto simp: claims_fresh_def mb_accepted_due_def\<close>)
qed

lemma drain_session_eq:
  "bind (store_call (\<lambda>now db. let (item, db') = claim_next now i t src db in (map_option row_to_mailbox_item item, db'))) c
   = Await (\<lambda>s. s\<lparr>xw_db := snd (claim_next (xw_clock s) i t src (xw_db s))\<rparr>)
       (\<lambda>s. c (map_option row_to_mailbox_item (fst (claim_next (xw_clock s) i t src (xw_db s)))))"
  by (simp add: store_steps case_prod_unfold Let_def)

lemma arms_process_fresh:
  assumes "claims_fresh k now i t src db"
  shows "prompt_item.arms k (process_claim w sess (map_option row_to_mailbox_item (fst (claim_next now i t src db)))) True"
  using assms
  by (auto simp: claims_fresh_def process_claim_def row_to_mailbox_item_def split: option.splits intro!: prompt_item.arms_seq arms_send_item)

lemma arms_process_other:
  assumes "\<not> claims_fresh k now i t src db"
  shows "prompt_item.arms k (process_claim w sess (map_option row_to_mailbox_item (fst (claim_next now i t src db)))) False"
proof (cases "fst (claim_next now i t src db)")
  case (Some r)
  have "prompt_item.harmless k (send_item bs u timeout (row_to_mailbox_item r) sess)" for bs u timeout
    using assms harmless_prompt_other [of "row_to_mailbox_item r" k] harmless_send_accepted [of "row_to_mailbox_item r" k]
    by (auto simp: Some claims_fresh_def row_to_mailbox_item_def)
  then show ?thesis by (auto simp: Some process_claim_def intro!: prompt_item.harmless_arms prompt_item.harmless_bind)
qed (simp add: process_claim_def)

lemma arms_drain_session: "prompt_item.arms k (drain_session w g) False"
proof -
  let ?ok = "\<lambda>s. claims_fresh k (xw_clock s) (fst g) (mw_tenant_id w) (snd g) (xw_db s)"
  let ?db = "\<lambda>s. snd (claim_next (xw_clock s) (fst g) (mw_tenant_id w) (snd g) (xw_db s))"
  let ?res = "\<lambda>s. fst (claim_next (xw_clock s) (fst g) (mw_tenant_id w) (snd g) (xw_db s))"
  have claim: "prompt_item.arms k (Await (\<lambda>s. s\<lparr>xw_db := ?db s\<rparr>) (\<lambda>s. process_claim w sess (map_option row_to_mailbox_item (?res s)))) False"
    for sess
  proof (rule prompt_item.arms_mark [where ok = ?ok], goal_cases)
    case (1 s)
    then show ?case by (rule quiet_db [OF claim_next_keeps])
  next
    case (2 s)
    then show ?case using claims_fresh_spends by simp
  qed (rule arms_process_fresh arms_process_other; assumption)+
  show ?thesis unfolding drain_session_def drain_session_eq
  proof (rule prompt_item.arms_bind, rule harmless_store_call, goal_cases)
    case (2 found)
    show ?case by (cases found) (use claim in \<open>simp_all only: option.case conforms.simps\<close>)
  qed (simp add: mail_kept_same)
qed

lemma arms_drain: "prompt_item.arms k (drain_store_once w) False"
proof -
  have "prompt_item.arms k (drain_sessions w gs) False" for gs
    by (induction gs) (auto intro!: prompt_item.arms_seq arms_drain_session)
  then have rest: "prompt_item.arms k (bind (drain_sessions w gs) (\<lambda>n. Return (m + n))) False" for gs m
    by (rule prompt_item.arms_seq) simp
  have sweep: "prompt_item.harmless k (store_call_result (\<lambda>now. fail_stale_sending now t older why n pre))" for t older why n pre
    by (rule harmless_store_call_result) (rule fail_stale_keeps)
  have ready: "prompt_item.harmless k (store_call_result (\<lambda>now db. rbind (ready_sessions now t n pre db) (\<lambda>gs. Inr (gs, db))))" for t n pre
    by (rule harmless_store_call_result) (auto simp: rbind_eq_Inr mail_kept_same)
  show ?thesis unfolding drain_store_once_def
    using prompt_item.arms_bind [OF sweep prompt_item.arms_bind [OF ready rest]] by simp
qed

lemma harmless_close_session: "prompt_item.harmless k (close_session bs u reason force given i t src)"
proof -
  have fin: "prompt_item.harmless k (finish_close u now i t src reason row n out)" for now row n out
    unfolding finish_close_def Let_def
    by (auto split: backend_close.split intro!: prompt_item.harmless_bind prompt_item.harmless_catch harmless_store_txn mail_kept_same
        dest: close_records_mailbox)
  have "prompt_item.harmless k (close_effect b x)" for b x
    by (simp add: close_effect_def call_def prompt_item.quiet_step_def prompt_sends_def)
  then show ?thesis unfolding close_session_def
    by (auto split: option.split sum.split py_error.split simp: claim_for_close_keeps mail_kept_same
        intro!: prompt_item.harmless_bind harmless_store_call fin)
qed

lemma harmless_close_idle: "prompt_item.harmless k (close_idle_sessions bs u policy src pre given t)"
proof -
  have "prompt_item.harmless k (close_each bs u now t cs)" for now cs
    by (induction cs) (auto intro!: prompt_item.harmless_bind harmless_close_session)
  then show ?thesis unfolding close_idle_sessions_def
    by (auto split: sum.split simp: mail_kept_same Let_def intro!: prompt_item.harmless_bind harmless_store_call)
qed


lemma enqueue_prompt_mailbox:
  assumes "enqueue_prompt now uuid a db = Inr (r, db')"
  shows "db' = db \<or> (\<exists>n s. n = new_mailbox_row now uuid a \<and> mb_id n \<notin> mb_id ` set (sd_mailbox db) \<and> db' = db\<lparr>sd_mailbox := sd_mailbox db @ [n]\<rparr>
    \<and> s \<in> set (sd_sessions db) \<and> rs_in (mb_session_id n) (mb_tenant_id n) (mb_source_id n) s \<and> rs_status s \<in> {SsIdle, SsBusy})"
  using assms
  by (auto simp: enqueue_prompt_def Let_def rbind_eq_Inr get_session_def new_mailbox_row_def
      dest!: fetchone_SomeD split: list.splits option.splits if_splits)

lemma enqueue_prompt_keeps: "enqueue_prompt now uuid a db = Inr (r, db') \<Longrightarrow> mail_kept db db'"
  using enqueue_prompt_mailbox [of now uuid a db r db']
  by (auto simp: mail_kept_def sd_ok_def prompt_spent_def new_mailbox_row_def intro!: serial_append)

lemma session_env_quiet: "session_env_step e s t \<Longrightarrow> sd_ok (xw_db s) \<Longrightarrow> prompt_item.quiet_step k s t"
proof (induction rule: session_env_step.induct)
  case (env_create now uuid a s i db)
  then show ?case by (intro quiet_db mail_kept_same) (auto simp: insert_session_def Let_def split: if_splits)
next
  case (env_prompt now uuid a s r db)
  then show ?case by (intro quiet_db enqueue_prompt_keeps)
next
  case (env_recover now us tenant older limit s ks db)
  then show ?case by (intro quiet_db mail_kept_same) (auto simp: recover_stale_closing_sessions_def dest: recover_rows_keeps split: if_splits)
qed (simp add: prompt_item.quiet_step_def prompt_sends_def)

lemma arms_job: "prompt_item.arms k (job_program j) False"
proof (cases j)
  case (DrainJob w)
  then show ?thesis by (auto intro!: prompt_item.arms_seq arms_drain)
qed (auto intro!: prompt_item.harmless_arms prompt_item.harmless_bind harmless_close_session harmless_close_idle)

interpretation prompt_once: once_pool "\<lambda>s. sd_ok (xw_db s)" "\<lambda>s. prompt_spent k (xw_db s)" "prompt_sends k" session_env_step job_start for k
proof (unfold_locales, goal_cases)
  case (1 e s t)
  then show ?case by (rule session_env_quiet)
next
  case (2 x s ps t)
  then show ?case by (simp add: job_start_def)
next
  case (3 x s ps t p)
  then show ?case by (auto simp: job_start_def intro: arms_job)
qed

subsection \<open>Closed sessions\<close>

definition session_closed :: "string \<Rightarrow> session_db \<Rightarrow> bool" where
  "session_closed k db \<longleftrightarrow> k \<in> rs_id ` set (sd_sessions db) \<and> (\<forall>s \<in> set (sd_sessions db). rs_id s = k \<longrightarrow> rs_status s = SsClosed)
     \<and> \<not> has_pending k db"

definition session_sends :: "string \<Rightarrow> session_world \<Rightarrow> nat" where
  "session_sends k s = length (filter (\<lambda>x. sent_session x = k) (xw_sends s))"

abbreviation pending :: "mailbox_row \<Rightarrow> bool" where
  "pending m \<equiv> mb_status m \<in> {MbQueued, MbSending}"

text \<open>Steps on the tables that leave a closed session closed.\<close>

definition closed_kept :: "string \<Rightarrow> session_db \<Rightarrow> session_db \<Rightarrow> bool" where
  "closed_kept k db db' \<longleftrightarrow> (session_closed k db \<longrightarrow> session_closed k db')"

lemma has_pending_alt: "has_pending k db \<longleftrightarrow> (\<exists>m \<in> set (sd_mailbox db). mb_session_id m = k \<and> pending m)"
  by (auto simp: has_pending_def)

lemma closed_kept_same: "closed_kept k db (db\<lparr>sd_events := es\<rparr>)" "closed_kept k db db"
  by (simp_all add: closed_kept_def session_closed_def has_pending_def)

lemma closed_kept_mailbox:
  assumes "\<And>r. p r \<Longrightarrow> mb_session_id (f r) = mb_session_id r" and "\<And>r. p r \<Longrightarrow> pending (f r) \<Longrightarrow> pending r"
  shows "closed_kept k db (db\<lparr>sd_mailbox := update_where p f (sd_mailbox db)\<rparr>)"
  using assms unfolding closed_kept_def session_closed_def has_pending_alt by (auto simp: bex_update_where)

lemma closed_kept_sessions:
  assumes "\<And>s. p s \<Longrightarrow> rs_id s = k \<Longrightarrow> rs_status s \<noteq> SsClosed" and "\<And>s. rs_id (f s) = rs_id s"
  shows "closed_kept k db (db\<lparr>sd_sessions := update_where p f (sd_sessions db)\<rparr>)"
proof -
  have "map rs_id (update_where p f (sd_sessions db)) = map rs_id (sd_sessions db)" by (simp add: update_where_def assms(2))
  then have "rs_id ` set (update_where p f (sd_sessions db)) = rs_id ` set (sd_sessions db)" unfolding set_map [symmetric] by simp
  then show ?thesis using assms unfolding closed_kept_def session_closed_def has_pending_alt by (auto simp: ball_update_where)
qed

lemma closed_kept_trans: "closed_kept k a b \<Longrightarrow> closed_kept k b c \<Longrightarrow> closed_kept k a c"
  by (simp add: closed_kept_def)


lemma closed_kept_status: "i \<noteq> k \<Longrightarrow> closed_kept k db (set_session_status now i st t src a e db)"
  unfolding set_session_status_def by (rule closed_kept_sessions) (auto simp: rs_in_def)

lemma closed_kept_settle:
  assumes "settle_session g st a e now i t src (db\<lparr>sd_mailbox := update_where p f (sd_mailbox db)\<rparr>) = Inr db'" and "i \<noteq> k"
    and "\<And>r. p r \<Longrightarrow> mb_session_id (f r) = mb_session_id r \<and> pending r"
  shows "closed_kept k db db'"
proof (rule closed_kept_trans)
  show "closed_kept k db (db\<lparr>sd_mailbox := update_where p f (sd_mailbox db)\<rparr>)" using assms(3) by (intro closed_kept_mailbox) auto
  show "closed_kept k (db\<lparr>sd_mailbox := update_where p f (sd_mailbox db)\<rparr>) db'"
    using assms(1,2) by (auto simp: settle_session_def split: if_splits intro: closed_kept_status)
qed

lemma closed_kept_defer: "defer_accepted now x i t src a err d db = Inr (b, db') \<Longrightarrow> i \<noteq> k \<Longrightarrow> closed_kept k db db'"
  by (auto simp: defer_accepted_def Let_def rbind_eq_Inr mb_held_def closed_kept_same split: option.splits if_splits
      elim!: closed_kept_settle)

lemma closed_kept_results:
  "defer_pending now x i t src a err d db = Inr db' \<Longrightarrow> i \<noteq> k \<Longrightarrow> closed_kept k db db'"
  "complete_delivery now x i t src v st a db = Inr db' \<Longrightarrow> i \<noteq> k \<Longrightarrow> closed_kept k db db'"
  "fail_delivery now x i t src err db = Inr db' \<Longrightarrow> i \<noteq> k \<Longrightarrow> closed_kept k db db'"
  by (auto simp: defer_pending_def complete_delivery_def fail_delivery_def Let_def mb_held_def mb_finish_def mb_fail_def
      split: if_splits elim!: closed_kept_settle)

lemma closed_kept_mail_steps:
  "closed_kept k db (mark_accepted now v x t src db)"
  "closed_kept k db (mailbox_mark_failed now x t src err db)"
  unfolding mark_accepted_def mailbox_mark_failed_def
  by (rule closed_kept_mailbox; simp add: mb_fail_def)+

lemma closed_kept_event: "record_session_event now u a db = Inr (x, db') \<Longrightarrow> closed_kept k db db'"
  by (auto simp: record_session_event_def Let_def closed_kept_same split: if_splits)

lemma closed_kept_both:
  assumes "\<And>r. p r \<Longrightarrow> mb_session_id (f r) = mb_session_id r" and "\<And>r. p r \<Longrightarrow> pending (f r) \<Longrightarrow> pending r"
    and "\<And>s. q s \<Longrightarrow> rs_id s = k \<Longrightarrow> rs_status s \<noteq> SsClosed" and "\<And>s. rs_id (g s) = rs_id s"
  shows "closed_kept k db (db\<lparr>sd_mailbox := update_where p f (sd_mailbox db), sd_sessions := update_where q g (sd_sessions db)\<rparr>)"
proof -
  let ?d = "db\<lparr>sd_mailbox := update_where p f (sd_mailbox db)\<rparr>"
  have "closed_kept k db ?d" using assms(1,2) by (rule closed_kept_mailbox)
  moreover have "closed_kept k ?d (?d\<lparr>sd_sessions := update_where q g (sd_sessions ?d)\<rparr>)" using assms(3,4) by (rule closed_kept_sessions)
  ultimately have "closed_kept k db (?d\<lparr>sd_sessions := update_where q g (sd_sessions ?d)\<rparr>)" by (rule closed_kept_trans)
  then show ?thesis by simp
qed

lemma closed_kept_stale: "fail_stale_sending now t older why n pre db = Inr (rows, db') \<Longrightarrow> closed_kept k db db'"
  unfolding fail_stale_sending_def Let_def rbind_eq_Inr
  by (clarsimp split: if_splits simp: rbind_eq_Inr) (rule closed_kept_both; auto)

lemma closed_kept_recover: "recover_rows now t us rows db = Inr (ks, db') \<Longrightarrow> closed_kept k db db'"
proof (induction now t us rows db arbitrary: ks db' rule: recover_rows.induct)
  case (2 now tenant uuid row rows db)
  let ?p = "\<lambda>r. rs_id r = rs_id row \<and> rs_tenant_id r = tenant \<and> rs_status r = SsClosing"
  let ?d = "db\<lparr>sd_sessions := update_where ?p (rs_set SsFailed None (Some close_uncertain) now) (sd_sessions db)\<rparr>"
  let ?e = "control_event (rs_id row) tenant (rs_source_id row) close_uncertain (''session.lifecycle.close_uncertain:'' @ int_text now)"
  show ?case
  proof (cases "rowcount ?p (sd_sessions db) \<noteq> 1")
    case True
    then show ?thesis using 2 by (simp add: Let_def)
  next
    case False
    then obtain x db1 ks1 where e: "record_session_event now (uuid (length rows)) ?e ?d = Inr (x, db1)"
      and r: "recover_rows now tenant uuid rows db1 = Inr (ks1, db')"
      using "2.prems" by (auto simp: Let_def rbind_eq_Inr)
    have "closed_kept k db ?d" by (rule closed_kept_sessions) simp_all
    then have "closed_kept k db db1" by (rule closed_kept_trans) (rule closed_kept_event [OF e])
    then show ?thesis by (rule closed_kept_trans) (rule "2.IH"(2) [OF refl False r])
  qed
qed (simp add: closed_kept_same)

text \<open>In a closed session there is nothing to claim.\<close>

lemma closed_claim_None: "session_closed k db \<Longrightarrow> claim_next now k t src db = (None, db)"
proof -
  assume c: "session_closed k db"
  have "first_by key (\<lambda>r. mb_of k t src r \<and> mb_accepted_due now r) (sd_mailbox db) = None" for key :: "mailbox_row \<Rightarrow> int"
  proof (rule ccontr)
    assume "first_by key (\<lambda>r. mb_of k t src r \<and> mb_accepted_due now r) (sd_mailbox db) \<noteq> None"
    then obtain r where "first_by key (\<lambda>r. mb_of k t src r \<and> mb_accepted_due now r) (sd_mailbox db) = Some r" by blast
    from first_by_SomeD [OF this] c show False
      by (auto simp: session_closed_def has_pending_def mb_of_def mb_accepted_due_def)
  qed
  moreover have "fetchone (\<lambda>s. rs_in k t src s \<and> rs_status s = SsIdle) (sd_sessions db) = None"
    using c by (auto simp: fetchone_None session_closed_def rs_in_def)
  ultimately show ?thesis by (simp add: claim_next_def)
qed

lemma closed_kept_claim: "closed_kept k db (snd (claim_next now i t src db))"
proof -
  have "closed_kept k db (db\<lparr>sd_mailbox := update_where (\<lambda>r. mb_in x t src r \<and> mb_status r = MbQueued) (mb_claim now) (sd_mailbox db)\<rparr>)" for x
    by (rule closed_kept_mailbox) (simp_all add: mb_claim_def)
  then show ?thesis by (auto simp: claim_next_def Let_def closed_kept_same split: option.split)
qed

lemma closed_kept_claim_close: "i \<noteq> k \<Longrightarrow> closed_kept k db (snd (claim_session_for_close now force i t src db))"
proof -
  assume i: "i \<noteq> k"
  have s: "closed_kept k d (d\<lparr>sd_sessions := update_where (\<lambda>r. rs_in i t src r \<and> rs_status r = st) (rs_set SsClosing None None now) (sd_sessions d)\<rparr>)"
    for d st using i by (intro closed_kept_sessions) (auto simp: rs_in_def)
  have m: "closed_kept k db (db\<lparr>sd_mailbox := update_where (\<lambda>r. mb_session_id r = i \<and> mb_status r = MbQueued)
      (\<lambda>r. r\<lparr>mb_status := MbCancelled, mb_last_error := Some ''session closed forcefully'', mb_updated_at := now\<rparr>) (sd_mailbox db)\<rparr>)"
    by (rule closed_kept_mailbox) simp_all
  show ?thesis
    using s [of db] closed_kept_trans [OF m s]
    unfolding claim_session_for_close_def Let_def pending_mailbox_counts_def
    by (auto split: option.split simp: closed_kept_same)
qed


text \<open>No invariant of the tables is needed.\<close>

definition any_tables :: "session_world \<Rightarrow> bool" where
  "any_tables s = True"

lemma any_tablesI: "any_tables s"
  by (simp add: any_tables_def)

interpretation closed_item: effect_item any_tables "\<lambda>s. session_closed k (xw_db s)" "session_sends k" for k .

lemma calm_db: "closed_kept k (xw_db s) db \<Longrightarrow> session_closed k (xw_db s)
   \<Longrightarrow> session_closed k (xw_db (s\<lparr>xw_db := db\<rparr>)) \<and> session_sends k (s\<lparr>xw_db := db\<rparr>) = session_sends k s"
  by (simp add: closed_kept_def session_sends_def)

lemma calm_store_call: "(\<And>now db. closed_kept k db (snd (f now db))) \<Longrightarrow> closed_item.calm k (store_call f)"
  unfolding store_call_eq closed_item.calm_Await by (auto simp: any_tables_def closed_kept_def session_sends_def)

lemma calm_store_call_result:
  "(\<And>now db x db'. f now db = Inr (x, db') \<Longrightarrow> closed_kept k db db') \<Longrightarrow> closed_item.calm k (store_call_result f)"
  unfolding store_call_result_eq closed_item.calm_Await by (auto simp: any_tables_def closed_kept_def session_sends_def split: sum.split)

lemma calm_store_txn: "(\<And>s db db'. f s db = Inr db' \<Longrightarrow> closed_kept k db db') \<Longrightarrow> closed_item.calm k (store_txn f)"
  unfolding store_txn_eq closed_item.calm_Await by (auto simp: any_tables_def closed_kept_def session_sends_def split: sum.split)

lemma calm_read: "closed_item.calm k (call (\<lambda>s. (f s, s)))"
  unfolding call_def closed_item.calm_Await by (simp add: any_tables_def)

lemma calm_clock: "closed_item.calm k clock_now"
  unfolding clock_now_def by (rule calm_read)

text \<open>Everything that a worker does for an item of another session.\<close>

lemma calm_fail_item: "rt_id sess \<noteq> k \<Longrightarrow> closed_item.calm k (fail_item item sess err)"
  unfolding fail_item_def by (rule calm_store_txn) (erule closed_kept_results(3))

lemma calm_record_event: "closed_item.calm k (record_item_event u item sess d text)"
  unfolding record_item_event_def
  by (intro closed_item.calm_catch calm_store_txn) (auto simp: rbind_eq_Inr dest: closed_kept_event)

lemma calm_settle_timeout: "rt_id sess \<noteq> k \<Longrightarrow> closed_item.calm k (settle_timeout timeout b item sess r acc)"
  unfolding settle_timeout_def Let_def clock_now_def
  by (intro closed_item.calm_seq calm_read)
     (auto split: option.split intro!: calm_fail_item calm_store_txn closed_item.calm_seq calm_read elim: closed_kept_results(1))

lemma calm_settle_capture: "rt_id sess \<noteq> k \<Longrightarrow> closed_item.calm k (settle_capture u timeout b item sess r acc out)"
proof -
  assume k: "rt_id sess \<noteq> k"
  have d: "closed_item.calm k (store_call_result (\<lambda>now. defer_accepted now i (rt_id sess) t src a err n))" for i t src a err n
    by (rule calm_store_call_result) (erule closed_kept_defer [OF _ k])
  have c: "closed_item.calm k (store_txn (\<lambda>s. complete_delivery (xw_clock s) i (rt_id sess) t src v st a))" for i t src v st a
    by (rule calm_store_txn) (erule closed_kept_results(2) [OF _ k])
  show ?thesis unfolding settle_capture_def
    by (auto split: sum.split intro!: closed_item.calm_seq d c calm_settle_timeout [OF k] calm_record_event)
qed

lemma calm_capture_item: "rt_id sess \<noteq> k \<Longrightarrow> closed_item.calm k (capture_item u timeout b item sess r acc)"
  unfolding capture_item_def capture_effect_def by (intro closed_item.calm_seq calm_read calm_settle_capture)

lemma calm_deliver_item: "rt_id sess \<noteq> k \<Longrightarrow> closed_item.calm k (deliver_item u timeout b item sess)"
proof -
  assume k: "rt_id sess \<noteq> k"
  have accept: "closed_item.calm k (store_call (\<lambda>now db. ((), mark_accepted now v i t src db)))" for v i t src
    by (rule calm_store_call) (simp add: closed_kept_mail_steps)
  have after: "closed_item.calm k (case send_receipt_payload out of
       Inl e \<Rightarrow> fail_item item sess (msg e)
     | Inr (receipt, payload) \<Rightarrow>
         bind (store_call (\<lambda>now db. ((), mark_accepted now payload (mi_id item) (mi_tenant_id item) (mi_source_id item) db))) (\<lambda>_.
         bind clock_now (\<lambda>acc. bind (record_item_event u item sess d p) (\<lambda>_. capture_item u timeout b item sess receipt (Some acc)))))"
    for out msg d p
    by (cases "send_receipt_payload out")
       (auto split: prod.split intro!: calm_fail_item [OF k] closed_item.calm_seq accept calm_clock calm_record_event calm_capture_item [OF k])
  show ?thesis
    unfolding deliver_item_def prompt_effect_bind closed_item.calm_Await
    by (intro allI impI conjI after) (use k in \<open>simp_all add: any_tables_def session_sends_def\<close>)
qed

lemma calm_send_item: "rt_id sess \<noteq> k \<Longrightarrow> closed_item.calm k (send_item bs u timeout item sess)"
proof -
  assume k: "rt_id sess \<noteq> k"
  have busy: "i \<noteq> k \<Longrightarrow> closed_item.calm k (store_call (\<lambda>now db. ((), set_session_status now i st t src a e db)))" for i st t src a e
    by (intro calm_store_call) (simp add: closed_kept_status)
  have lost: "closed_item.calm k (store_call (\<lambda>now db. ((), mailbox_mark_failed now i t src err db)))" for i t src err
    by (rule calm_store_call) (simp add: closed_kept_mail_steps)
  show ?thesis unfolding send_item_def using k
    by (auto split: option.split sum.split py_error.split
        intro!: closed_item.calm_seq calm_fail_item [OF k] busy lost calm_deliver_item [OF k] calm_capture_item [OF k])
qed

lemma calm_drain_session: "closed_item.calm k (drain_session w g)"
proof -
  have work: "closed_item.calm k (process_claim w sess c)" if "rt_id sess \<noteq> k" for sess c
    unfolding process_claim_def by (auto split: option.split intro!: closed_item.calm_seq calm_send_item that)
  have claim: "closed_item.calm k (Await (\<lambda>s. s\<lparr>xw_db := snd (claim_next (xw_clock s) (fst g) (mw_tenant_id w) (snd g) (xw_db s))\<rparr>)
     (\<lambda>s. process_claim w sess (map_option row_to_mailbox_item (fst (claim_next (xw_clock s) (fst g) (mw_tenant_id w) (snd g) (xw_db s))))))"
    if "rt_id sess = fst g" for sess
    unfolding closed_item.calm_Await
  proof (intro allI impI, elim conjE)
    fix s :: session_world assume c: "session_closed k (xw_db s)"
    have "closed_item.calm k (process_claim w sess (map_option row_to_mailbox_item
        (fst (claim_next (xw_clock s) (fst g) (mw_tenant_id w) (snd g) (xw_db s)))))"
    proof (cases "fst g = k")
      case True
      then show ?thesis using closed_claim_None [OF c] by (simp add: process_claim_def)
    qed (use work that in auto)
    then show "any_tables (s\<lparr>xw_db := snd (claim_next (xw_clock s) (fst g) (mw_tenant_id w) (snd g) (xw_db s))\<rparr>) \<and> session_closed k (xw_db (s\<lparr>xw_db := snd (claim_next (xw_clock s) (fst g) (mw_tenant_id w) (snd g) (xw_db s))\<rparr>))
        \<and> session_sends k (s\<lparr>xw_db := snd (claim_next (xw_clock s) (fst g) (mw_tenant_id w) (snd g) (xw_db s))\<rparr>) = session_sends k s
        \<and> closed_item.calm k (process_claim w sess (map_option row_to_mailbox_item
            (fst (claim_next (xw_clock s) (fst g) (mw_tenant_id w) (snd g) (xw_db s)))))"
      using calm_db [OF closed_kept_claim c] any_tablesI by blast
  qed
  have found: "closed_item.calm k (case map_option row_to_session (get_session (fst g) (mw_tenant_id w) (snd g) db) of
       None \<Rightarrow> Return 0
     | Some sess \<Rightarrow> bind (store_call (\<lambda>now db. let (item, db') = claim_next now (fst g) (mw_tenant_id w) (snd g) db
         in (map_option row_to_mailbox_item item, db'))) (process_claim w sess))" for db
  proof (cases "get_session (fst g) (mw_tenant_id w) (snd g) db")
    case (Some row)
    then have "rt_id (row_to_session row) = fst g"
      by (auto simp: get_session_def rs_in_def row_to_session_def dest!: fetchone_SomeD)
    then show ?thesis unfolding Some option.map option.case drain_session_eq by (rule claim)
  qed simp
  show ?thesis unfolding drain_session_def
    by (subst store_steps, subst closed_item.calm_Await, intro allI impI conjI)
       (rule any_tablesI, simp, simp add: session_sends_def, simp only: fst_conv found)
qed

lemma calm_drain: "closed_item.calm k (drain_store_once w)"
proof -
  have gs: "closed_item.calm k (drain_sessions w gs)" for gs
    by (induction gs) (auto intro!: closed_item.calm_seq calm_drain_session)
  have sweep: "closed_item.calm k (store_call_result (\<lambda>now. fail_stale_sending now t older why n pre))" for t older why n pre
    by (rule calm_store_call_result) (rule closed_kept_stale)
  have ready: "closed_item.calm k (store_call_result (\<lambda>now db. rbind (ready_sessions now t n pre db) (\<lambda>gs. Inr (gs, db))))" for t n pre
    by (rule calm_store_call_result) (auto simp: rbind_eq_Inr closed_kept_same)
  show ?thesis unfolding drain_store_once_def
    by (auto intro!: closed_item.calm_seq sweep ready gs)
qed

text \<open>Closing another session, and closing a session that is closed.\<close>

lemma calm_finish_close: "i \<noteq> k \<Longrightarrow> closed_item.calm k (finish_close u now i t src reason row n out)"
proof -
  assume i: "i \<noteq> k"
  have ev: "record_session_event now u' a (set_session_status now i st t src x e db) = Inr (y, db') \<Longrightarrow> closed_kept k db db'"
    for u' a st x e db y db'
    by (rule closed_kept_trans [OF closed_kept_status [OF i] closed_kept_event])
  have f: "closed_item.calm k (store_txn (\<lambda>s. record_close_failure now (u s) i t src err))" for err
    by (rule calm_store_txn) (auto simp: record_close_failure_def rbind_eq_Inr dest: ev)
  have c: "closed_item.calm k (store_txn (\<lambda>s. record_closed now (u s) i t src err))" for err
    by (rule calm_store_txn) (auto simp: record_closed_def rbind_eq_Inr dest: ev)
  show ?thesis unfolding finish_close_def Let_def
    by (auto split: backend_close.split intro!: closed_item.calm_seq closed_item.calm_catch f c)
qed

lemma calm_close_session: "closed_item.calm k (close_session bs u reason force given i t src)"
proof (cases "i = k")
  case True
  have "rs_status row = SsClosed" if "session_closed k db" "get_session i t src db = Some row" for db row
    using that True by (auto simp: session_closed_def get_session_def rs_in_def dest!: fetchone_SomeD)
  then show ?thesis unfolding close_session_def store_steps closed_item.calm_Await
    by (auto simp: any_tables_def session_sends_def split: option.split)
next
  case False
  have claim: "closed_item.calm k (store_call (\<lambda>_. claim_session_for_close now force i t src))" for now
    using False by (intro calm_store_call closed_kept_claim_close)
  have look: "closed_item.calm k (store_call (\<lambda>clock db. ((get_session i t src db, case given of None \<Rightarrow> clock | Some n \<Rightarrow> n), db)))"
    by (rule calm_store_call) (simp add: closed_kept_same)
  have "closed_item.calm k (close_effect b x)" for b x
    unfolding close_effect_def call_def closed_item.calm_Await by (simp add: any_tables_def session_sends_def)
  then show ?thesis unfolding close_session_def
    by (auto split: option.split sum.split py_error.split
        intro!: closed_item.calm_seq look claim calm_finish_close [OF False])
qed

lemma calm_close_idle: "closed_item.calm k (close_idle_sessions bs u policy src pre given t)"
proof -
  have each: "closed_item.calm k (close_each bs u now t cs)" for now cs
    by (induction cs) (auto intro!: closed_item.calm_seq calm_close_session)
  have "closed_item.calm k (store_call (\<lambda>clock db. let now = case given of None \<Rightarrow> clock | Some n \<Rightarrow> n
      in ((now, select_close_candidates now t policy src pre db), db)))"
    by (rule calm_store_call) (simp add: closed_kept_same Let_def)
  then show ?thesis unfolding close_idle_sessions_def
    by (auto split: sum.split intro!: closed_item.calm_seq each)
qed

lemma closed_env_quiet: "session_env_step e s t \<Longrightarrow> closed_item.quiet_step k s t"
proof (induction rule: session_env_step.induct)
  case (env_create now uuid a s i db)
  then obtain n where n: "rs_id n \<notin> rs_id ` set (sd_sessions (xw_db s))" "db = xw_db s\<lparr>sd_sessions := sd_sessions (xw_db s) @ [n]\<rparr>"
    by (auto simp: insert_session_def Let_def split: if_splits)
  then have "closed_kept k (xw_db s) db" by (auto simp: closed_kept_def session_closed_def has_pending_def)
  then show ?case unfolding closed_item.quiet_step_def by (simp add: any_tables_def session_sends_def closed_kept_def)
next
  case (env_prompt now uuid a s r db)
  then show ?case using enqueue_prompt_mailbox [of now uuid a "xw_db s" r db]
    unfolding closed_item.quiet_step_def by (auto simp: any_tables_def session_sends_def session_closed_def has_pending_def new_mailbox_row_def rs_in_def)
next
  case (env_recover now us tenant older limit s ks db)
  then have "closed_kept k (xw_db s) db" by (auto simp: recover_stale_closing_sessions_def split: if_splits dest: closed_kept_recover)
  then show ?case unfolding closed_item.quiet_step_def by (simp add: any_tables_def session_sends_def closed_kept_def)
next
  case (env_clock now s)
  show ?case unfolding closed_item.quiet_step_def by (simp add: any_tables_def session_sends_def)
qed

lemma calm_job: "closed_item.calm k (job_program j)"
  by (cases j) (auto intro!: closed_item.calm_seq calm_drain calm_close_session calm_close_idle)

interpretation closed_restart: restart_pool any_tables "\<lambda>s. session_closed k (xw_db s)" "session_sends k" session_env_step job_start for k
proof (unfold_locales, goal_cases)
  case (1 e s t)
  from 1(1) show ?case by (rule closed_env_quiet)
next
  case (2 x s ps t)
  then show ?case unfolding closed_item.quiet_step_def by (simp add: job_start_def any_tables_def)
next
  case (3 x s ps t p)
  then show ?case by (auto simp: job_start_def intro: calm_job)
qed

end
