(* ===== verification/Session_Delivery.thy ===== *)
theory Session_Delivery
  imports Session_Safety
begin

section \<open>Properties of sessions and their mailboxes\<close>

text \<open>
  At-most-once delivery of prompts, the fate of closed sessions, serial delivery within a session, and what one
  undisturbed delivery does on every branch.
\<close>

subsection \<open>A concrete pool\<close>

definition demo_backend :: session_backend where
  "demo_backend = \<lparr>bk_tenant_id = None, bk_source_id = None, bk_conversation_scope = None, bk_send = (\<lambda>_ _ _. BkNoReceipt),
     bk_capture = (\<lambda>_ _. CapReturned (JStr ''done'') (JBool False)), bk_capture_delivery = None, bk_abort_delivery = None,
     bk_close = (\<lambda>_ _. CloseDone)\<rparr>"

definition demo_worker :: mailbox_worker where
  "demo_worker = \<lparr>mw_tenant_id = ''t'', mw_backends = (\<lambda>_. Some demo_backend), mw_stale_sending_s = 20,
     mw_capture_pending_timeout_s = 900, mw_backend_prefix = None, mw_uuid = (\<lambda>_. ''e'')\<rparr>"

definition demo_session_db :: session_db where
  "demo_session_db = \<lparr>
     sd_sessions = [new_session_row 5 ''a'' \<lparr>sn_tenant_id = ''t'', sn_source_id = ''s'', sn_kind = ''codex'', sn_backend = ''codex'',
       sn_backend_session_id = ''thread'', sn_owner_id = None, sn_title = [], sn_cwd = [], sn_status = SsIdle, sn_metadata = None\<rparr>],
     sd_mailbox = [new_mailbox_row 6 ''p'' \<lparr>pa_session_id = ''rs_a'', pa_tenant_id = ''t'', pa_source_id = ''s'', pa_prompt = ''go'',
       pa_action_id = None, pa_source_event_id = None, pa_idempotency_key = None\<rparr>],
     sd_events = []\<rparr>"

definition demo_session_world :: session_world where
  "demo_session_world = \<lparr>xw_clock = 10, xw_db = demo_session_db, xw_sends = [], xw_closes = []\<rparr>"

lemma demo_session_ok: "sd_ok (xw_db demo_session_world)"
  by (simp add: sd_ok_def serial_deliveries_def demo_session_world_def demo_session_db_def new_mailbox_row_def)

lemma job_starts: "session_step (MvStart j) (s, ws) (s, ws @ [job_program j])"
  by (rule pool_start) (simp add: job_start_def)

lemma two_jobs_start: "steps session_step [MvStart i, MvStart j] (s, ws) (s, ws @ [job_program i, job_program j])"
proof -
  have "steps session_step [MvStart j] (s, ws @ [job_program i]) (s, ws @ [job_program i, job_program j])"
    using steps_Cons [where step = session_step, OF job_starts [of j s "ws @ [job_program i]"] steps_Nil] by simp
  then show ?thesis using job_starts [of i s ws] by (rule steps_Cons [rotated])
qed

definition demo_started :: "session_world pool" where
  "demo_started = (demo_session_world, [job_program (DrainJob demo_worker)])"

definition demo_prompt_sent :: "session_world pool" where
  "demo_prompt_sent = fold run_at [0, 0, 0, 0, 0, 0] demo_started"

lemma demo_prompt_run:
  "steps session_step (MvStart (DrainJob demo_worker) # map MvRun [0, 0, 0, 0, 0, 0]) (demo_session_world, [])
     (fst demo_prompt_sent, snd demo_prompt_sent)"
proof -
  have start: "session_step (MvStart (DrainJob demo_worker)) (demo_session_world, []) demo_started"
    unfolding demo_started_def using job_starts [of "DrainJob demo_worker" demo_session_world "[]"] by simp
  have "can_run [0, 0, 0, 0, 0, 0] demo_started" by code_simp
  then have "steps session_step (map MvRun [0, 0, 0, 0, 0, 0]) demo_started demo_prompt_sent"
    unfolding demo_prompt_sent_def by (rule can_run_steps)
  from steps_Cons [OF start this] show ?thesis by simp
qed

subsection \<open>At most one send\<close>

text \<open>C8: A prompt is handed to its session backend at most once, in every interleaving of any number of mailbox
  workers, close operations and recovery sweeps with new sessions and prompts, whatever the backends answer,
  however long a worker stalls, and with crashes at every await.\<close>

theorem prompt_sent_once:
  assumes "sd_ok (xw_db s)" and "prompt_sends k s = 0" and "steps session_step mvs (s, []) (t, ws)"
  shows "prompt_sends k t \<le> 1"
  using assms(3,1,2) by (rule prompt_once.started_once)

theorem prompt_sent_once_witness: "prompt_sends ''sm_p'' (fst demo_prompt_sent) \<le> 1 \<and> prompt_sends ''sm_p'' (fst demo_prompt_sent) = 1"
proof
  have none: "prompt_sends ''sm_p'' demo_session_world = 0" by (simp add: prompt_sends_def demo_session_world_def)
  show "prompt_sends ''sm_p'' (fst demo_prompt_sent) \<le> 1" by (rule prompt_sent_once [OF demo_session_ok none demo_prompt_run])
  show "prompt_sends ''sm_p'' (fst demo_prompt_sent) = 1" by code_simp
qed

subsection \<open>Closed sessions\<close>

text \<open>C32: A session that is closed while no worker is running stays closed whatever happens afterwards: no worker
  ever sends a prompt to it, it is not opened again, and no new prompt is accepted for it.\<close>

theorem closed_session_stays_closed:
  assumes "session_closed k (xw_db s)" and "steps session_step mvs (s, []) (t, ws)"
  shows "session_closed k (xw_db t) \<and> session_sends k t = session_sends k s
    \<and> (\<forall>now u a. pa_session_id a = k \<longrightarrow> (\<nexists>i db. enqueue_prompt now u a (xw_db t) = Inr ((i, True), db)))"
proof -
  have c: "session_closed k (xw_db t) \<and> session_sends k t = session_sends k s"
    by (rule closed_restart.spent_not_started [OF assms(2) any_tablesI assms(1)])
  moreover have "enqueue_prompt now u a (xw_db t) \<noteq> Inr ((i, True), db)" if "pa_session_id a = k" for now u a i db
  proof
    assume e: "enqueue_prompt now u a (xw_db t) = Inr ((i, True), db)"
    then have "db \<noteq> xw_db t"
      by (cases "xw_db t") (auto simp: enqueue_prompt_def Let_def rbind_eq_Inr split: list.splits option.splits if_splits)
    with enqueue_prompt_mailbox [OF e] c that show False
      by (auto simp: session_closed_def rs_in_def new_mailbox_row_def)
  qed
  ultimately show ?thesis by blast
qed

definition demo_closed_world :: session_world where
  "demo_closed_world = demo_session_world\<lparr>xw_db := set_session_status 8 ''rs_a'' SsClosed ''t'' ''s'' None None
     (demo_session_db\<lparr>sd_mailbox := map (mb_fail ''gone'' 7) (sd_mailbox demo_session_db)\<rparr>)\<rparr>"

theorem closed_session_stays_closed_witness:
  "session_closed ''rs_a'' (xw_db (fst (fold run_at [0, 0] (demo_closed_world, [job_program (DrainJob demo_worker)]))))"
proof -
  let ?P = "(demo_closed_world, [job_program (DrainJob demo_worker)])"
  let ?Q = "fold run_at [0, 0] ?P"
  have closed: "session_closed ''rs_a'' (xw_db demo_closed_world)" by code_simp
  have start: "session_step (MvStart (DrainJob demo_worker)) (demo_closed_world, []) ?P"
    using job_starts [of "DrainJob demo_worker" demo_closed_world "[]"] by simp
  have "can_run [0, 0] ?P" by code_simp
  then have "steps session_step (map MvRun [0, 0]) ?P (fst ?Q, snd ?Q)" unfolding prod.collapse by (rule can_run_steps)
  from closed_session_stays_closed [OF closed steps_Cons [OF start this]] show ?thesis by blast
qed

definition demo_stalled :: "session_world pool" where
  "demo_stalled = (let P = fold run_at [0, 0, 0, 0] demo_started in ((fst P)\<lparr>xw_clock := 50\<rparr>,
     snd P @ [job_program (DrainJob demo_worker), job_program (CloseJob (\<lambda>_. Some demo_backend) (\<lambda>_. ''f'') ''policy'' False None ''rs_a'' ''t'' ''s'')]))"

definition demo_closed :: "session_world pool" where
  "demo_closed = fold run_at [1, 2, 2, 2, 2] demo_stalled"

definition demo_revived :: "session_world pool" where
  "demo_revived = fold run_at [0, 0] demo_closed"

text \<open>C33: The same does not hold while a worker is running: a worker that stalls between its claim and the update of
  the session for longer than the stale limit wakes up, marks the closed session busy and sends its prompt to the
  backend session that was closed meanwhile.\<close>

theorem closed_session_revived:
  "(\<exists>mvs mvs'. steps session_step mvs (demo_session_world, []) demo_closed \<and> steps session_step mvs' demo_closed demo_revived)
   \<and> session_closed ''rs_a'' (xw_db (fst demo_closed)) \<and> xw_closes (fst demo_closed) = [''thread''] \<and> session_sends ''rs_a'' (fst demo_closed) = 0
   \<and> map rs_status (sd_sessions (xw_db (fst demo_revived))) = [SsBusy] \<and> session_sends ''rs_a'' (fst demo_revived) = 1"
proof (intro conjI)
  let ?P = "fold run_at [0, 0, 0, 0] demo_started" and ?w = "DrainJob demo_worker"
  let ?c = "CloseJob (\<lambda>_. Some demo_backend) (\<lambda>_. ''f'') ''policy'' False None ''rs_a'' ''t'' ''s''"
  have a: "session_step (MvStart ?w) (demo_session_world, []) demo_started"
    unfolding demo_started_def using job_starts [of ?w demo_session_world "[]"] by simp
  have "can_run [0, 0, 0, 0] demo_started" by code_simp
  then have b: "steps session_step (map MvRun [0, 0, 0, 0]) demo_started ?P" by (rule can_run_steps)
  have c: "session_step (MvEnv (EnvClock 50)) ?P ((fst ?P)\<lparr>xw_clock := 50\<rparr>, snd ?P)"
    using pool_env [where env = session_env_step and start = job_start and ws = "snd ?P", OF env_clock [of 50 "fst ?P"]] by simp
  have d: "steps session_step [MvStart ?w, MvStart ?c] ((fst ?P)\<lparr>xw_clock := 50\<rparr>, snd ?P) demo_stalled"
    unfolding demo_stalled_def Let_def
    by (rule two_jobs_start)
  have "can_run [1, 2, 2, 2, 2] demo_stalled" by code_simp
  then have e: "steps session_step (map MvRun [1, 2, 2, 2, 2]) demo_stalled demo_closed" unfolding demo_closed_def by (rule can_run_steps)
  have "can_run [0, 0] demo_closed" by code_simp
  then have f: "steps session_step (map MvRun [0, 0]) demo_closed demo_revived" unfolding demo_revived_def by (rule can_run_steps)
  show "\<exists>mvs mvs'. steps session_step mvs (demo_session_world, []) demo_closed \<and> steps session_step mvs' demo_closed demo_revived"
    by (intro exI conjI, rule steps_Cons [OF a steps_snoc_list [OF b steps_Cons [OF c steps_snoc_list [OF d e]]]], rule f)
  show "session_closed ''rs_a'' (xw_db (fst demo_closed))" by code_simp
  show "xw_closes (fst demo_closed) = [''thread'']" by code_simp
  show "session_sends ''rs_a'' (fst demo_closed) = 0" by code_simp
  show "map rs_status (sd_sessions (xw_db (fst demo_revived))) = [SsBusy]" by code_simp
  show "session_sends ''rs_a'' (fst demo_revived) = 1" by code_simp
qed

subsection \<open>One delivery at a time\<close>

text \<open>C30: In every interleaving at most one prompt of a session is in flight, and a worker that takes a new prompt takes
  one for which no other prompt of the session is in flight and no due prompt was enqueued earlier.\<close>

theorem session_deliveries_serial:
  assumes "sd_ok (xw_db s)" and "steps session_step mvs (s, []) (t, ws)"
  shows "serial_deliveries (sd_mailbox (xw_db t))
    \<and> (\<forall>now sess tn src r db. claim_next now sess tn src (xw_db t) = (Some r, db) \<and> mb_accepted_at r = None
       \<longrightarrow> (\<forall>x \<in> set (sd_mailbox (xw_db t)). mb_of sess tn src x \<longrightarrow> mb_status x \<noteq> MbSending
              \<and> (mb_status x = MbQueued \<and> mb_run_after x \<le> now \<longrightarrow> mb_created_at r \<le> mb_created_at x)))"
proof -
  obtain k where "k \<notin> sent_item ` set (xw_sends s)"
    using ex_new_if_finite [OF infinite_UNIV_listI, of "sent_item ` set (xw_sends s)"] by auto
  then have "prompt_sends k s = 0" by (auto simp: prompt_sends_def filter_empty_conv)
  with assms have ok: "sd_ok (xw_db t)" by (blast intro: prompt_once.tables_kept)
  have "mb_status x \<noteq> MbSending \<and> (mb_status x = MbQueued \<and> mb_run_after x \<le> now \<longrightarrow> mb_created_at r \<le> mb_created_at x)"
    if c: "claim_next now sess tn src (xw_db t) = (Some r, db)" and new: "mb_accepted_at r = None"
      and x: "x \<in> set (sd_mailbox (xw_db t))" "mb_of sess tn src x" for now sess tn src r db x
    using c ok
  proof (cases rule: claim_next_cases)
    case (claimed q s)
    then show ?thesis using x by (auto simp: mb_blocked_def mb_claim_def)
  qed (use new in \<open>auto simp: mb_accepted_due_def\<close>)
  then show ?thesis using ok by (auto simp: sd_ok_def)
qed

theorem session_deliveries_serial_witness:
  "serial_deliveries (sd_mailbox (xw_db (fst demo_prompt_sent))) \<and> map mb_status (sd_mailbox (xw_db (fst demo_prompt_sent))) = [MbSending]"
proof
  from session_deliveries_serial [OF demo_session_ok demo_prompt_run]
  show "serial_deliveries (sd_mailbox (xw_db (fst demo_prompt_sent)))" by (rule conjunct1)
  show "map mb_status (sd_mailbox (xw_db (fst demo_prompt_sent))) = [MbSending]" by code_simp
qed

end
