(* ===== verification/Session_Outcomes.thy ===== *)
theory Session_Outcomes
  imports Session_Delivery
begin

section \<open>What one delivery does\<close>

text \<open>
  One undisturbed delivery of a claimed prompt, on every branch: what becomes of the mailbox item and of the
  session when the send fails, the capture fails, the capture times out, or the answer arrives.  A capture that
  fails uses up one attempt, and the last one fails the item and the session.
\<close>

subsection \<open>Runs of store calls\<close>

lemma run_store_call [simp]: "run (store_call f) w = (Inr (fst (f (xw_clock w) (xw_db w))), w\<lparr>xw_db := snd (f (xw_clock w) (xw_db w))\<rparr>)"
  by (simp add: store_call_eq)





subsection \<open>An item in flight and its session\<close>

definition in_flight :: "session_db \<Rightarrow> mailbox_row \<Rightarrow> session_row \<Rightarrow> bool" where
  "in_flight db r s \<longleftrightarrow> r \<in> set (sd_mailbox db) \<and> s \<in> set (sd_sessions db) \<and> distinct (map mb_id (sd_mailbox db))
     \<and> distinct (map rs_id (sd_sessions db)) \<and> rs_in (mb_session_id r) (mb_tenant_id r) (mb_source_id r) s"

lemma in_flight_events [simp]: "in_flight (db\<lparr>sd_events := es\<rparr>) r s = in_flight db r s"
  by (simp add: in_flight_def)




lemma item_query:
  assumes "in_flight db r s" and "p r" and "\<And>x. p x \<Longrightarrow> mb_id x = mb_id r"
  shows one_item: "rowcount p (sd_mailbox db) = 1" and this_item: "fetchone p (sd_mailbox db) = Some r"
proof -
  have d: "distinct (map mb_id (sd_mailbox db))" and r: "r \<in> set (sd_mailbox db)" using assms(1) by (simp_all add: in_flight_def)
  show "fetchone p (sd_mailbox db) = Some r" by (rule fetchone_pk [where k = mb_id and p = p, OF d r assms(2,3)])
  have "filter p (sd_mailbox db) = [r]" by (rule filter_pk [where k = mb_id and p = p and x = "mb_id r", OF d r assms(2,3)])
  then show "rowcount p (sd_mailbox db) = 1" by (simp add: rowcount_def)
qed















subsection \<open>Settling an accepted delivery\<close>









subsection \<open>The whole delivery\<close>











end
