(* ===== verification/Checkpoints.thy ===== *)
theory Checkpoints
  imports Python_Text
begin

section \<open>Durable checkpoints of a model execution\<close>

text \<open>
  Models \<open>execution.py\<close> (the trusted context of one execution and its tool allowlist) and
  \<open>llm/checkpoint.py\<close> (the typed checkpoint that the planner keeps beside a run, and its JSON form), with
  \<open>SendReceipt\<close> of \<open>sessions/backend.py\<close>.

  The frozen dataclasses are records; the constructor with its \<open>__post_init__\<close> is a function to a result.
  A field that the dataclass declares as \<open>str\<close>, \<open>int\<close> or a tuple of these has that type in the model, so the
  \<open>isinstance\<close> tests of the constructors can only fail where a constructor is fed from a JSON payload: a
  field that arrives there unchecked (\<open>deadline_at\<close>) is a \<^typ>\<open>pyval\<close>.
\<close>

subsection \<open>Execution context and tool allowlist\<close>

type_synonym tool_selector = "string option \<times> string"

record tool_execution_context =
  tx_scope :: conversation_scope
  tx_execution_id :: string
  tx_task_id :: "string option"

definition ToolExecutionContext ::
  "conversation_scope \<Rightarrow> string \<Rightarrow> string option \<Rightarrow> tool_execution_context result" where
  "ToolExecutionContext scope execution_id task_id =
     (if blank execution_id then Inl (ValueError ''execution_id must be a non-empty string'')
      else if (case task_id of None \<Rightarrow> False | Some t \<Rightarrow> blank t)
        then Inl (ValueError ''task_id must be a non-empty string when provided'')
      else Inr \<lparr>tx_scope = scope, tx_execution_id = execution_id, tx_task_id = task_id\<rparr>)"

definition repr_selector :: "tool_selector \<Rightarrow> string" where
  "repr_selector s = ''('' @ (case fst s of None \<Rightarrow> ''None'' | Some n \<Rightarrow> repr_str n) @ '', '' @ repr_str (snd s) @ '')''"

text \<open>The loop of \<open>validate_dynamic_tool_allowlist\<close> with its accumulators \<open>normalized\<close> and \<open>seen\<close>.\<close>

fun validate_selectors :: "tool_selector list \<Rightarrow> tool_selector set \<Rightarrow> tool_selector list \<Rightarrow> tool_selector list result" where
  "validate_selectors normalized seen [] = Inr normalized"
| "validate_selectors normalized seen (s # ss) =
     (if (case fst s of None \<Rightarrow> False | Some n \<Rightarrow> blank n)
        then Inl (ValueError ''dynamic tool selector namespace must be non-empty or None'')
      else if blank (snd s) then Inl (ValueError ''dynamic tool selector name must be non-empty'')
      else if s \<in> seen then Inl (ValueError (''duplicate dynamic tool selector: '' @ repr_selector s))
      else validate_selectors (normalized @ [s]) (insert s seen) ss)"

definition validate_dynamic_tool_allowlist :: "tool_selector list option \<Rightarrow> tool_selector list option result" where
  "validate_dynamic_tool_allowlist allowlist = (case allowlist of
     None \<Rightarrow> Inr None
   | Some ss \<Rightarrow> rbind (validate_selectors [] {} ss) (\<lambda>ns. Inr (Some ns)))"

subsection \<open>The binding\<close>

record checkpoint_binding =
  cb_run_id :: string
  cb_backend_kind :: string
  cb_model :: string
  cb_conversation_scope :: conversation_scope
  cb_cwd :: string
  cb_env_home :: string
  cb_task_id :: "string option"
  cb_execution_id :: "string option"
  cb_dynamic_tool_allowlist :: "tool_selector list option"
  cb_output_schema :: "json option"

text \<open>The constructor; its argument is the record of the arguments, apart from the schema, which is still an
  unchecked object.\<close>

definition binding_identity :: "checkpoint_binding \<Rightarrow> (string \<times> string) list" where
  "binding_identity b = [(''run_id'', cb_run_id b), (''backend_kind'', cb_backend_kind b), (''model'', cb_model b),
     (''cwd'', cb_cwd b), (''env_home'', cb_env_home b)]"

definition LlmCheckpointBinding :: "checkpoint_binding \<Rightarrow> pyval option \<Rightarrow> checkpoint_binding result" where
  "LlmCheckpointBinding b schema =
     (case List.find (\<lambda>(n, v). blank v) (binding_identity b) of
        Some (n, v) \<Rightarrow> Inl (ValueError (n @ '' must be a non-empty string''))
      | None \<Rightarrow>
          rbind (validate_dynamic_tool_allowlist (cb_dynamic_tool_allowlist b)) (\<lambda>allowlist.
          rbind (case schema of None \<Rightarrow> Inr None
                 | Some v \<Rightarrow> rbind (require_json_object ''checkpoint output_schema'' v) (\<lambda>j. Inr (Some j))) (\<lambda>js.
          Inr (b\<lparr>cb_dynamic_tool_allowlist := allowlist, cb_output_schema := js\<rparr>))))"

definition for_request ::
  "string \<Rightarrow> string \<Rightarrow> string \<Rightarrow> string \<Rightarrow> string \<Rightarrow> conversation_scope option \<Rightarrow> tool_execution_context option
    \<Rightarrow> tool_selector list option \<Rightarrow> pyval option \<Rightarrow> checkpoint_binding result" where
  "for_request run_id backend_kind model cwd env_home scope ctx allowlist schema = (case scope of
     None \<Rightarrow> Inl (ValueError ''a durable LLM checkpoint requires a trusted conversation scope'')
   | Some sc \<Rightarrow>
       if (case ctx of None \<Rightarrow> False | Some x \<Rightarrow> tx_scope x \<noteq> sc)
       then Inl (ValueError ''LLM execution context does not match checkpoint conversation scope'')
       else LlmCheckpointBinding \<lparr>cb_run_id = run_id, cb_backend_kind = backend_kind, cb_model = model,
         cb_conversation_scope = sc, cb_cwd = cwd, cb_env_home = env_home,
         cb_task_id = (case ctx of None \<Rightarrow> None | Some x \<Rightarrow> tx_task_id x),
         cb_execution_id = (case ctx of None \<Rightarrow> None | Some x \<Rightarrow> Some (tx_execution_id x)),
         cb_dynamic_tool_allowlist = allowlist, cb_output_schema = None\<rparr> schema)"

subsection \<open>JSON of the binding\<close>

definition binding_to_json :: "checkpoint_binding \<Rightarrow> json" where
  "binding_to_json b = JObj [
     (''run_id'', JStr (cb_run_id b)),
     (''backend_kind'', JStr (cb_backend_kind b)),
     (''model'', JStr (cb_model b)),
     (''conversation_scope'', JObj [(''tenant_id'', JStr (cs_tenant_id (cb_conversation_scope b))),
                                     (''source_id'', JStr (cs_source_id (cb_conversation_scope b)))]),
     (''cwd'', JStr (cb_cwd b)),
     (''env_home'', JStr (cb_env_home b)),
     (''task_id'', opt_str (cb_task_id b)),
     (''execution_id'', opt_str (cb_execution_id b)),
     (''dynamic_tool_allowlist'', case cb_dynamic_tool_allowlist b of None \<Rightarrow> JNull
        | Some ss \<Rightarrow> JArr (map (\<lambda>(ns, n). JArr [opt_str ns, JStr n]) ss)),
     (''output_schema'', case cb_output_schema b of None \<Rightarrow> JNull | Some j \<Rightarrow> j)]"

text \<open>\<open>payload.get(name)\<close> of a JSON object: \<open>None\<close> when the key is missing.\<close>

definition json_get :: "json \<Rightarrow> string \<Rightarrow> json" where
  "json_get v k = (case v of JObj kvs \<Rightarrow> (case map_of kvs k of None \<Rightarrow> JNull | Some w \<Rightarrow> w) | _ \<Rightarrow> JNull)"

definition checkpoint_string :: "json \<Rightarrow> string \<Rightarrow> string result" where
  "checkpoint_string payload name = (case json_get payload name of
     JStr s \<Rightarrow> Inr s | _ \<Rightarrow> Inl (TypeError (''LLM checkpoint '' @ name @ '' must be a string'')))"

definition optional_string :: "json \<Rightarrow> string \<Rightarrow> string option result" where
  "optional_string payload name = (case json_get payload name of
     JNull \<Rightarrow> Inr None | JStr s \<Rightarrow> Inr (Some s)
   | _ \<Rightarrow> Inl (TypeError (''LLM checkpoint '' @ name @ '' must be a string or None'')))"

definition optional_object :: "string \<Rightarrow> json \<Rightarrow> json option result" where
  "optional_object label v =
     (if v = JNull then Inr None else rbind (require_json_object label (py_of_json v)) (\<lambda>j. Inr (Some j)))"

fun read_selector :: "json \<Rightarrow> tool_selector result" where
  "read_selector (JArr [ns, n]) =
     (case ns of
        JNull \<Rightarrow> (case n of JStr s \<Rightarrow> Inr (None, s) | _ \<Rightarrow> Inl (TypeError ''LLM checkpoint tool name must be a string''))
      | JStr m \<Rightarrow> (case n of JStr s \<Rightarrow> Inr (Some m, s) | _ \<Rightarrow> Inl (TypeError ''LLM checkpoint tool name must be a string''))
      | _ \<Rightarrow> Inl (TypeError ''LLM checkpoint tool namespace must be a string or None''))"
| "read_selector _ = Inl (TypeError ''LLM checkpoint tool selector must contain two items'')"

fun read_selectors :: "json list \<Rightarrow> tool_selector list result" where
  "read_selectors [] = Inr []"
| "read_selectors (v # vs) = rbind (read_selector v) (\<lambda>s. rbind (read_selectors vs) (\<lambda>ss. Inr (s # ss)))"

definition read_allowlist :: "json \<Rightarrow> tool_selector list option result" where
  "read_allowlist v = (case v of
     JNull \<Rightarrow> Inr None
   | JArr vs \<Rightarrow> rbind (read_selectors vs) (\<lambda>ss. Inr (Some ss))
   | _ \<Rightarrow> Inl (TypeError ''LLM checkpoint dynamic_tool_allowlist must be a list or None''))"

definition binding_from_json :: "pyval \<Rightarrow> checkpoint_binding result" where
  "binding_from_json value =
     rbind (require_json_object ''LLM checkpoint binding'' value) (\<lambda>payload.
     rbind (require_json_object ''LLM checkpoint conversation_scope'' (py_of_json (json_get payload ''conversation_scope''))) (\<lambda>scope_value.
     rbind (read_allowlist (json_get payload ''dynamic_tool_allowlist'')) (\<lambda>allowlist.
     rbind (optional_object ''LLM checkpoint output_schema'' (json_get payload ''output_schema'')) (\<lambda>schema.
     rbind (checkpoint_string payload ''run_id'') (\<lambda>run_id.
     rbind (checkpoint_string payload ''backend_kind'') (\<lambda>backend_kind.
     rbind (checkpoint_string payload ''model'') (\<lambda>model.
     rbind (checkpoint_string scope_value ''tenant_id'') (\<lambda>tenant.
     rbind (checkpoint_string scope_value ''source_id'') (\<lambda>source.
     rbind (ConversationScope tenant source) (\<lambda>scope.
     rbind (checkpoint_string payload ''cwd'') (\<lambda>cwd.
     rbind (checkpoint_string payload ''env_home'') (\<lambda>env_home.
     rbind (optional_string payload ''task_id'') (\<lambda>task_id.
     rbind (optional_string payload ''execution_id'') (\<lambda>execution_id.
     LlmCheckpointBinding \<lparr>cb_run_id = run_id, cb_backend_kind = backend_kind, cb_model = model,
       cb_conversation_scope = scope, cb_cwd = cwd, cb_env_home = env_home, cb_task_id = task_id,
       cb_execution_id = execution_id, cb_dynamic_tool_allowlist = allowlist, cb_output_schema = None\<rparr>
       (map_option py_of_json schema)))))))))))))))"

subsection \<open>The checkpoint\<close>

datatype checkpoint_state = CkOpened | CkSending | CkAccepted | CkPausing | CkPaused | CkCompleted | CkCancelled | CkFailed

definition checkpoint_states :: "(string \<times> checkpoint_state) list" where
  "checkpoint_states = [(''opened'', CkOpened), (''sending'', CkSending), (''accepted'', CkAccepted), (''pausing'', CkPausing),
     (''paused'', CkPaused), (''completed'', CkCompleted), (''cancelled'', CkCancelled), (''failed'', CkFailed)]"

definition state_text :: "checkpoint_state \<Rightarrow> string" where
  "state_text s = (case s of CkOpened \<Rightarrow> ''opened'' | CkSending \<Rightarrow> ''sending'' | CkAccepted \<Rightarrow> ''accepted''
     | CkPausing \<Rightarrow> ''pausing'' | CkPaused \<Rightarrow> ''paused'' | CkCompleted \<Rightarrow> ''completed'' | CkCancelled \<Rightarrow> ''cancelled''
     | CkFailed \<Rightarrow> ''failed'')"

text \<open>The metadata of a receipt is whatever object the backend put there.\<close>

record checkpoint_receipt =
  cr_backend_operation_id :: "string option"
  cr_metadata :: "pyval option"

text \<open>An absent deadline is \<open>PyNone\<close>.\<close>

record execution_checkpoint =
  ec_binding :: checkpoint_binding
  ec_state :: checkpoint_state
  ec_session_id :: "string option"
  ec_receipt :: "checkpoint_receipt option"
  ec_turn_index :: int
  ec_text :: "string option"
  ec_deadline_at :: pyval

text \<open>\<open>math.isfinite\<close> converts an integer to a float first, which fails from \<open>2\<^sup>1\<^sup>0\<^sup>2\<^sup>4 - 2\<^sup>9\<^sup>7\<^sup>0\<close> on (the first
  integer that rounds to \<open>2\<^sup>1\<^sup>0\<^sup>2\<^sup>4\<close>).\<close>

definition float_overflow :: "int \<Rightarrow> bool" where
  "float_overflow i \<longleftrightarrow> \<bar>i\<bar> \<ge> 2 ^ 1024 - 2 ^ 970"

definition deadline_error :: py_error where
  "deadline_error = ValueError ''checkpoint deadline_at must be a finite positive timestamp''"

definition check_deadline :: "pyval \<Rightarrow> unit result" where
  "check_deadline d = (case d of
     PyNone \<Rightarrow> Inr ()
   | PyInt i \<Rightarrow> if float_overflow i then Inl (OverflowError ''int too large to convert to float'')
       else if i \<le> 0 then Inl deadline_error else Inr ()
   | PyFloat q t \<Rightarrow> if q \<le> 0 then Inl deadline_error else Inr ()
   | _ \<Rightarrow> Inl deadline_error)"

text \<open>The constructor; the state is still a text.\<close>

definition LlmExecutionCheckpoint ::
  "checkpoint_binding \<Rightarrow> string \<Rightarrow> string option \<Rightarrow> checkpoint_receipt option \<Rightarrow> int \<Rightarrow> string option \<Rightarrow> pyval
    \<Rightarrow> execution_checkpoint result" where
  "LlmExecutionCheckpoint b state session_id receipt turn_index tx deadline =
     rbind (check_deadline deadline) (\<lambda>_.
     case map_of checkpoint_states state of
       None \<Rightarrow> Inl (ValueError (''unsupported LLM checkpoint state: '' @ repr_str state))
     | Some st \<Rightarrow>
         if (case session_id of None \<Rightarrow> False | Some k \<Rightarrow> blank k)
           then Inl (ValueError ''session_id must be a non-empty string or None'')
         else if turn_index < 0 then Inl (ValueError ''turn_index must be a non-negative integer'')
         else if st \<in> {CkOpened, CkSending} \<and> receipt \<noteq> None
           then Inl (ValueError (state @ '' checkpoint cannot contain a delivery receipt''))
         else if st \<in> {CkAccepted, CkPausing, CkPaused} \<and> receipt = None
           then Inl (ValueError (state @ '' checkpoint requires an acknowledged delivery receipt''))
         else if st = CkCompleted \<and> (session_id = None \<or> tx = None)
           then Inl (ValueError ''completed checkpoint requires a session id and final text'')
         else Inr \<lparr>ec_binding = b, ec_state = st, ec_session_id = session_id, ec_receipt = receipt,
           ec_turn_index = turn_index, ec_text = tx, ec_deadline_at = deadline\<rparr>)"

text \<open>\<open>to_json\<close> returns a dict; only the metadata of the receipt is checked on the way.\<close>

definition checkpoint_to_json :: "execution_checkpoint \<Rightarrow> pyval result" where
  "checkpoint_to_json c =
     rbind (case ec_receipt c of
        None \<Rightarrow> Inr JNull
      | Some r \<Rightarrow>
          rbind (case cr_metadata r of None \<Rightarrow> Inr JNull | Some m \<Rightarrow> require_json_object ''SendReceipt.metadata'' m) (\<lambda>md.
          Inr (JObj [(''backend_operation_id'', opt_str (cr_backend_operation_id r)), (''metadata'', md)]))) (\<lambda>receipt.
     Inr (PyDict ([
       (PyStr ''version'', PyInt 1),
       (PyStr ''binding'', py_of_json (binding_to_json (ec_binding c))),
       (PyStr ''state'', PyStr (state_text (ec_state c))),
       (PyStr ''session_id'', py_of_json (opt_str (ec_session_id c))),
       (PyStr ''receipt'', py_of_json receipt),
       (PyStr ''turn_index'', PyInt (ec_turn_index c)),
       (PyStr ''text'', py_of_json (opt_str (ec_text c)))]
       @ (if ec_deadline_at c \<noteq> PyNone then [(PyStr ''deadline_at'', ec_deadline_at c)] else []))))"

definition read_receipt :: "json \<Rightarrow> checkpoint_receipt option result" where
  "read_receipt v =
     (if v = JNull then Inr None
      else rbind (require_json_object ''LLM checkpoint receipt'' (py_of_json v)) (\<lambda>rp.
        rbind (optional_string rp ''backend_operation_id'') (\<lambda>op.
        rbind (optional_object ''LLM checkpoint receipt metadata'' (json_get rp ''metadata'')) (\<lambda>md.
        Inr (Some \<lparr>cr_backend_operation_id = op, cr_metadata = map_option py_of_json md\<rparr>)))))"

definition checkpoint_from_json :: "pyval \<Rightarrow> execution_checkpoint result" where
  "checkpoint_from_json value =
     rbind (require_json_object ''LLM execution checkpoint'' value) (\<lambda>payload.
     if \<not> json_eq (json_get payload ''version'') (JInt 1) then Inl (ValueError ''unsupported LLM checkpoint version'')
     else case json_get payload ''state'' of
       JStr state \<Rightarrow>
         rbind (read_receipt (json_get payload ''receipt'')) (\<lambda>receipt.
         rbind (optional_string payload ''session_id'') (\<lambda>session_id.
         rbind (optional_string payload ''text'') (\<lambda>tx.
         case json_get payload ''turn_index'' of
           JInt turn_index \<Rightarrow>
             rbind (binding_from_json (py_of_json (json_get payload ''binding''))) (\<lambda>b.
             LlmExecutionCheckpoint b state session_id receipt turn_index tx (py_of_json (json_get payload ''deadline_at'')))
         | _ \<Rightarrow> Inl (TypeError ''LLM checkpoint turn_index must be an integer''))))
     | _ \<Rightarrow> Inl (TypeError ''LLM checkpoint state must be a string''))"


subsection \<open>Valid checkpoints\<close>

text \<open>What a consumer of a checkpoint may rely on.\<close>

definition valid_selector :: "tool_selector \<Rightarrow> bool" where
  "valid_selector s \<longleftrightarrow> (case fst s of None \<Rightarrow> True | Some n \<Rightarrow> \<not> blank n) \<and> \<not> blank (snd s)"

definition valid_scope :: "conversation_scope \<Rightarrow> bool" where
  "valid_scope sc \<longleftrightarrow> \<not> blank (cs_tenant_id sc) \<and> \<not> blank (cs_source_id sc)"

definition is_object :: "json \<Rightarrow> bool" where
  "is_object j \<longleftrightarrow> (case j of JObj _ \<Rightarrow> True | _ \<Rightarrow> False)"

definition valid_binding :: "checkpoint_binding \<Rightarrow> bool" where
  "valid_binding b \<longleftrightarrow> (\<forall>(n, v) \<in> set (binding_identity b). \<not> blank v) \<and> valid_scope (cb_conversation_scope b)
     \<and> (case cb_dynamic_tool_allowlist b of None \<Rightarrow> True | Some ss \<Rightarrow> distinct ss \<and> list_all valid_selector ss)
     \<and> (case cb_output_schema b of None \<Rightarrow> True | Some j \<Rightarrow> is_object j)"

definition valid_deadline :: "pyval \<Rightarrow> bool" where
  "valid_deadline d \<longleftrightarrow> (case d of PyNone \<Rightarrow> True | PyInt i \<Rightarrow> 0 < i \<and> \<not> float_overflow i | PyFloat q t \<Rightarrow> 0 < q | _ \<Rightarrow> False)"

text \<open>A receipt is there exactly while a delivery may be in flight, and a completed execution has its result.\<close>

definition valid_progress :: "execution_checkpoint \<Rightarrow> bool" where
  "valid_progress c \<longleftrightarrow> (case ec_state c of
     CkOpened \<Rightarrow> ec_receipt c = None | CkSending \<Rightarrow> ec_receipt c = None
   | CkAccepted \<Rightarrow> ec_receipt c \<noteq> None | CkPausing \<Rightarrow> ec_receipt c \<noteq> None | CkPaused \<Rightarrow> ec_receipt c \<noteq> None
   | CkCompleted \<Rightarrow> ec_session_id c \<noteq> None \<and> ec_text c \<noteq> None
   | CkCancelled \<Rightarrow> True | CkFailed \<Rightarrow> True)"

definition valid_checkpoint :: "execution_checkpoint \<Rightarrow> bool" where
  "valid_checkpoint c \<longleftrightarrow> valid_binding (ec_binding c) \<and> valid_progress c \<and> valid_deadline (ec_deadline_at c)
     \<and> 0 \<le> ec_turn_index c \<and> (case ec_session_id c of None \<Rightarrow> True | Some k \<Rightarrow> \<not> blank k)"

text \<open>A backend's metadata can be stored: it is absent or a JSON object.\<close>

definition storable_receipt :: "execution_checkpoint \<Rightarrow> bool" where
  "storable_receipt c \<longleftrightarrow> (case ec_receipt c of None \<Rightarrow> True | Some r \<Rightarrow> (case cr_metadata r of None \<Rightarrow> True
     | Some m \<Rightarrow> (case require_json_object ''SendReceipt.metadata'' m of Inl _ \<Rightarrow> False | Inr _ \<Rightarrow> True)))"

subsection \<open>Reading and writing the parts\<close>

lemma require_json_object_iff: "require_json_object l v = Inr j \<longleftrightarrow> is_object j \<and> v = py_of_json j"
  by (cases v; cases j) (auto simp: require_json_object_def is_object_def rbind_eq_Inr require_json_iff)

lemma require_json_object_py: "is_object j \<Longrightarrow> require_json_object l (py_of_json j) = Inr j"
  by (simp add: require_json_object_iff)

lemma json_get_simps [simp]:
  "json_get (JObj []) k = JNull"
  "json_get (JObj ((n, v) # kvs)) k = (if n = k then v else json_get (JObj kvs) k)"
  by (simp_all add: json_get_def)

lemma is_object_JObj [simp]: "is_object (JObj kvs)" "\<not> is_object JNull"
  by (simp_all add: is_object_def)

lemma opt_str_read [simp]:
  "json_get p n = opt_str v \<Longrightarrow> optional_string p n = Inr v"
  by (cases v) (simp_all add: optional_string_def opt_str_def)

lemma py_of_json_inj [simp]: "py_of_json v = py_of_json w \<longleftrightarrow> v = w"
  by (metis require_json_iff(1) sum.inject(2))

lemma optional_object_read: "optional_object l v = Inr r \<longleftrightarrow>
    (case r of None \<Rightarrow> v = JNull | Some j \<Rightarrow> is_object j \<and> v = j)"
  by (cases "v = JNull"; cases r) (auto simp: optional_object_def rbind_eq_Inr require_json_object_iff)

lemma validate_selectors_iff:
  "validate_selectors ns seen ss = Inr rs \<longleftrightarrow>
     rs = ns @ ss \<and> distinct ss \<and> set ss \<inter> seen = {} \<and> list_all valid_selector ss"
proof (induction ns seen ss rule: validate_selectors.induct)
  case (2 ns seen s ss)
  have ok: "(case fst s of None \<Rightarrow> False | Some n \<Rightarrow> blank n) \<or> blank (snd s) \<longleftrightarrow> \<not> valid_selector s"
    by (auto simp: valid_selector_def split: option.split)
  show ?case
  proof (cases "valid_selector s \<and> s \<notin> seen")
    case True
    then show ?thesis using 2 ok by auto
  next
    case False
    then show ?thesis using ok by (cases "blank (snd s)") (auto split: option.splits)
  qed
qed auto

lemma validate_allowlist_iff:
  "validate_dynamic_tool_allowlist a = Inr r \<longleftrightarrow>
     r = a \<and> (case a of None \<Rightarrow> True | Some ss \<Rightarrow> distinct ss \<and> list_all valid_selector ss)"
  by (cases a) (auto simp: validate_dynamic_tool_allowlist_def rbind_eq_Inr validate_selectors_iff)

lemma read_selectors_written:
  "read_selectors (map (\<lambda>(ns, n). JArr [opt_str ns, JStr n]) ss) = Inr ss"
proof (induction ss)
  case (Cons s ss)
  obtain ns n where "s = (ns, n)" by (cases s)
  then show ?case using Cons by (cases ns) (simp_all add: opt_str_def)
qed simp

lemma ConversationScope_iff:
  "ConversationScope t s = Inr sc \<longleftrightarrow> valid_scope sc \<and> cs_tenant_id sc = t \<and> cs_source_id sc = s"
  by (cases sc) (auto simp: ConversationScope_def valid_scope_def)

lemma schema_checked_iff:
  "(case schema of None \<Rightarrow> Inr None | Some v \<Rightarrow> rbind (require_json_object l v) (\<lambda>j. Inr (Some j))) = Inr r
     \<longleftrightarrow> schema = map_option py_of_json r \<and> (case r of None \<Rightarrow> True | Some j \<Rightarrow> is_object j)"
  by (cases schema; cases r) (auto simp: rbind_eq_Inr require_json_object_iff)

lemma LlmCheckpointBinding_iff:
  "LlmCheckpointBinding b schema = Inr b' \<longleftrightarrow>
     (\<forall>(n, v) \<in> set (binding_identity b). \<not> blank v)
     \<and> (case cb_dynamic_tool_allowlist b of None \<Rightarrow> True | Some ss \<Rightarrow> distinct ss \<and> list_all valid_selector ss)
     \<and> schema = map_option py_of_json (cb_output_schema b')
     \<and> (case cb_output_schema b' of None \<Rightarrow> True | Some j \<Rightarrow> is_object j)
     \<and> b' = b\<lparr>cb_output_schema := cb_output_schema b'\<rparr>"
proof (cases "List.find (\<lambda>(n, v). blank v) (binding_identity b)")
  case None
  then have "\<forall>(n, v) \<in> set (binding_identity b). \<not> blank v" by (auto simp: find_None_iff)
  then show ?thesis
    using None by (auto simp: LlmCheckpointBinding_def rbind_eq_Inr validate_allowlist_iff schema_checked_iff)
next
  case (Some p)
  then have "\<exists>(n, v) \<in> set (binding_identity b). blank v"
    by (auto simp: find_Some_iff) (metis case_prodI nth_mem)
  then show ?thesis using Some by (auto simp: LlmCheckpointBinding_def split: prod.splits)
qed


subsection \<open>The binding is read back as it was written\<close>

lemma binding_round_trip:
  assumes "valid_binding b"
  shows "binding_from_json (py_of_json (binding_to_json b)) = Inr b"
proof -
  let ?j = "binding_to_json b" and ?sc = "cb_conversation_scope b"
  have obj: "require_json_object l (py_of_json ?j) = Inr ?j" for l
    by (rule require_json_object_py) (simp add: binding_to_json_def)
  have scope: "require_json_object l (py_of_json (json_get ?j ''conversation_scope'')) =
      Inr (JObj [(''tenant_id'', JStr (cs_tenant_id ?sc)), (''source_id'', JStr (cs_source_id ?sc))])" for l
    by (subst require_json_object_iff) (simp add: binding_to_json_def)
  have allowlist: "read_allowlist (json_get ?j ''dynamic_tool_allowlist'') = Inr (cb_dynamic_tool_allowlist b)"
    by (simp add: binding_to_json_def read_allowlist_def read_selectors_written split: option.split)
  have schema: "optional_object l (json_get ?j ''output_schema'') = Inr (cb_output_schema b)" for l
    using assms by (subst optional_object_read) (auto simp: binding_to_json_def valid_binding_def split: option.splits)
  have strs: "checkpoint_string ?j ''run_id'' = Inr (cb_run_id b)" "checkpoint_string ?j ''backend_kind'' = Inr (cb_backend_kind b)"
    "checkpoint_string ?j ''model'' = Inr (cb_model b)" "checkpoint_string ?j ''cwd'' = Inr (cb_cwd b)"
    "checkpoint_string ?j ''env_home'' = Inr (cb_env_home b)"
    "optional_string ?j ''task_id'' = Inr (cb_task_id b)" "optional_string ?j ''execution_id'' = Inr (cb_execution_id b)"
    by (simp_all add: checkpoint_string_def binding_to_json_def)
  have sc: "ConversationScope (cs_tenant_id ?sc) (cs_source_id ?sc) = Inr ?sc"
    using assms by (simp add: ConversationScope_iff valid_binding_def)
  have "LlmCheckpointBinding (b\<lparr>cb_output_schema := None\<rparr>) (map_option py_of_json (cb_output_schema b)) = Inr b"
    using assms by (subst LlmCheckpointBinding_iff) (simp add: valid_binding_def binding_identity_def)
  moreover have "b\<lparr>cb_output_schema := None\<rparr> = \<lparr>cb_run_id = cb_run_id b, cb_backend_kind = cb_backend_kind b, cb_model = cb_model b,
      cb_conversation_scope = ?sc, cb_cwd = cb_cwd b, cb_env_home = cb_env_home b, cb_task_id = cb_task_id b,
      cb_execution_id = cb_execution_id b, cb_dynamic_tool_allowlist = cb_dynamic_tool_allowlist b, cb_output_schema = None\<rparr>"
    by (cases b) simp
  ultimately show ?thesis
    by (simp add: binding_from_json_def obj scope allowlist schema strs sc checkpoint_string_def [of "JObj _"])
qed

lemma binding_from_json_valid:
  assumes "binding_from_json v = Inr b"
  shows "valid_binding b"
proof -
  from assms obtain b0 schema t s where
    b: "LlmCheckpointBinding b0 schema = Inr b" and sc: "ConversationScope t s = Inr (cb_conversation_scope b0)"
    by (auto simp: binding_from_json_def rbind_eq_Inr)
  have e: "b = b0\<lparr>cb_output_schema := cb_output_schema b\<rparr>" using b by (simp only: LlmCheckpointBinding_iff)
  have same: "binding_identity b = binding_identity b0" "cb_conversation_scope b = cb_conversation_scope b0"
      "cb_dynamic_tool_allowlist b = cb_dynamic_tool_allowlist b0"
    by (subst e, simp add: binding_identity_def)+
  have "valid_scope (cb_conversation_scope b0)" using sc by (simp only: ConversationScope_iff)
  then show ?thesis using b unfolding valid_binding_def same LlmCheckpointBinding_iff by blast
qed


subsection \<open>The checkpoint is read back as it was written\<close>

lemma check_deadline_iff: "check_deadline d = Inr u \<longleftrightarrow> valid_deadline d"
  by (cases d) (auto simp: check_deadline_def valid_deadline_def)

lemma checkpoint_states_iff: "map_of checkpoint_states t = Some s \<longleftrightarrow> t = state_text s"
  by (cases s) (auto simp: checkpoint_states_def state_text_def)

lemma guards_passed:
  "(if g then Inl e else if g1 then Inl e1 else if g2 then Inl e2 else if g3 then Inl e3 else if g4 then Inl e4 else Inr x) = Inr y
     \<longleftrightarrow> y = x \<and> \<not> g \<and> \<not> g1 \<and> \<not> g2 \<and> \<not> g3 \<and> \<not> g4"
  by auto

lemma LlmExecutionCheckpoint_known:
  assumes "valid_binding b"
    and "c' = \<lparr>ec_binding = b, ec_state = st, ec_session_id = k, ec_receipt = r, ec_turn_index = n, ec_text = tx, ec_deadline_at = d\<rparr>"
  shows "LlmExecutionCheckpoint b (state_text st) k r n tx d = Inr c \<longleftrightarrow> c = c' \<and> valid_checkpoint c'"
proof -
  have "map_of checkpoint_states (state_text st) = Some st" by (simp add: checkpoint_states_iff)
  note state = this
  show ?thesis
  proof (cases "check_deadline d")
    case (Inl e)
    then have "\<not> valid_deadline d" using check_deadline_iff [of d] by auto
    then show ?thesis using Inl assms(2) by (simp add: LlmExecutionCheckpoint_def valid_checkpoint_def)
  next
    case (Inr u)
    then have dl: "valid_deadline d" using check_deadline_iff [of d] by auto
    have eval: "LlmExecutionCheckpoint b (state_text st) k r n tx d =
       (if (case k of None \<Rightarrow> False | Some k' \<Rightarrow> blank k') then Inl (ValueError ''session_id must be a non-empty string or None'')
         else if n < 0 then Inl (ValueError ''turn_index must be a non-negative integer'')
         else if st \<in> {CkOpened, CkSending} \<and> r \<noteq> None
           then Inl (ValueError (state_text st @ '' checkpoint cannot contain a delivery receipt''))
         else if st \<in> {CkAccepted, CkPausing, CkPaused} \<and> r = None
           then Inl (ValueError (state_text st @ '' checkpoint requires an acknowledged delivery receipt''))
         else if st = CkCompleted \<and> (k = None \<or> tx = None)
           then Inl (ValueError ''completed checkpoint requires a session id and final text'')
         else Inr c')"
      unfolding LlmExecutionCheckpoint_def Inr state assms(2) by (simp only: rbind_simps option.case)
    have valid: "valid_checkpoint c' \<longleftrightarrow> \<not> (case k of None \<Rightarrow> False | Some k' \<Rightarrow> blank k') \<and> \<not> n < 0
        \<and> \<not> (st \<in> {CkOpened, CkSending} \<and> r \<noteq> None) \<and> \<not> (st \<in> {CkAccepted, CkPausing, CkPaused} \<and> r = None)
        \<and> \<not> (st = CkCompleted \<and> (k = None \<or> tx = None))"
      using assms(1) dl unfolding assms(2)
      by (cases st; cases k) (simp_all add: valid_checkpoint_def valid_progress_def not_less conj_ac)
    show ?thesis unfolding eval guards_passed valid by (rule refl)
  qed
qed

lemma LlmExecutionCheckpoint_valid:
  assumes "valid_binding b" and "LlmExecutionCheckpoint b t k r n tx d = Inr c"
  shows "valid_checkpoint c"
proof -
  obtain st where "map_of checkpoint_states t = Some st"
    using assms(2) by (auto simp: LlmExecutionCheckpoint_def rbind_eq_Inr split: option.splits)
  then have "t = state_text st" by (simp add: checkpoint_states_iff)
  then have "LlmExecutionCheckpoint b (state_text st) k r n tx d = Inr c" using assms(2) by simp
  then show ?thesis by (simp only: LlmExecutionCheckpoint_known [OF assms(1) refl])
qed

lemma read_receipt_written:
  assumes "case r of None \<Rightarrow> js = JNull | Some x \<Rightarrow> js = JObj [(''backend_operation_id'', opt_str (cr_backend_operation_id x)), (''metadata'', md)]
      \<and> (case cr_metadata x of None \<Rightarrow> md = JNull | Some m \<Rightarrow> is_object md \<and> m = py_of_json md)"
  shows "read_receipt js = Inr r"
proof (cases r)
  case (Some x)
  define md' where "md' = (case cr_metadata x of None \<Rightarrow> None | Some m \<Rightarrow> Some md)"
  have "optional_object l md = Inr md'" for l
    using assms Some by (subst optional_object_read) (auto simp: md'_def split: option.splits)
  moreover have "map_option py_of_json md' = cr_metadata x"
    using assms Some by (auto simp: md'_def split: option.splits)
  moreover have "require_json_object l (py_of_json js) = Inr js" for l
    using assms Some by (simp add: require_json_object_iff)
  ultimately show ?thesis using assms Some by (simp add: read_receipt_def)
qed (use assms in \<open>simp add: read_receipt_def\<close>)

lemma valid_deadline_json:
  assumes "valid_deadline d"
  obtains j where "d = py_of_json j"
  using assms by (cases d) (auto simp: valid_deadline_def intro: that [of JNull] that [of "JInt _"] that [of "JFloat _ _"])

definition checkpoint_json :: "execution_checkpoint \<Rightarrow> json \<Rightarrow> json \<Rightarrow> json" where
  "checkpoint_json c receipt dl = JObj ([
       (''version'', JInt 1), (''binding'', binding_to_json (ec_binding c)), (''state'', JStr (state_text (ec_state c))),
       (''session_id'', opt_str (ec_session_id c)), (''receipt'', receipt), (''turn_index'', JInt (ec_turn_index c)),
       (''text'', opt_str (ec_text c))] @ (if dl \<noteq> JNull then [(''deadline_at'', dl)] else []))"

lemma checkpoint_json_get:
  "json_get (checkpoint_json c r dl) ''version'' = JInt 1"
  "json_get (checkpoint_json c r dl) ''binding'' = binding_to_json (ec_binding c)"
  "json_get (checkpoint_json c r dl) ''state'' = JStr (state_text (ec_state c))"
  "json_get (checkpoint_json c r dl) ''session_id'' = opt_str (ec_session_id c)"
  "json_get (checkpoint_json c r dl) ''receipt'' = r"
  "json_get (checkpoint_json c r dl) ''turn_index'' = JInt (ec_turn_index c)"
  "json_get (checkpoint_json c r dl) ''text'' = opt_str (ec_text c)"
  "json_get (checkpoint_json c r dl) ''deadline_at'' = dl"
  by (simp_all add: checkpoint_json_def)

lemma checkpoint_to_jsonE:
  assumes "checkpoint_to_json c = Inr v" and "ec_deadline_at c = py_of_json dl"
  obtains receipt where "v = py_of_json (checkpoint_json c receipt dl)" and "read_receipt receipt = Inr (ec_receipt c)"
proof -
  have nil: "py_of_json dl = PyNone \<longleftrightarrow> dl = JNull" by (metis py_of_json_eq(1))
  obtain receipt where
    r: "(case ec_receipt c of None \<Rightarrow> Inr JNull
      | Some r \<Rightarrow> rbind (case cr_metadata r of None \<Rightarrow> Inr JNull | Some m \<Rightarrow> require_json_object ''SendReceipt.metadata'' m) (\<lambda>md.
          Inr (JObj [(''backend_operation_id'', opt_str (cr_backend_operation_id r)), (''metadata'', md)]))) = Inr receipt"
    and v: "v = py_of_json (checkpoint_json c receipt dl)"
    using assms by (auto simp: checkpoint_to_json_def rbind_eq_Inr checkpoint_json_def nil split: if_splits)
  have "read_receipt receipt = Inr (ec_receipt c)"
  proof (cases "ec_receipt c")
    case None
    then show ?thesis using r by (simp add: read_receipt_def)
  next
    case (Some x)
    then obtain md where "receipt = JObj [(''backend_operation_id'', opt_str (cr_backend_operation_id x)), (''metadata'', md)]"
      and "case cr_metadata x of None \<Rightarrow> md = JNull | Some m \<Rightarrow> is_object md \<and> m = py_of_json md"
      using r by (auto simp: rbind_eq_Inr require_json_object_iff split: option.splits)
    then show ?thesis using Some by (intro read_receipt_written [where md = md]) simp
  qed
  then show thesis using v that by blast
qed

lemma checkpoint_from_json_written:
  assumes "valid_checkpoint c" and "ec_deadline_at c = py_of_json dl" and "read_receipt r = Inr (ec_receipt c)"
  shows "checkpoint_from_json (py_of_json (checkpoint_json c r dl)) = Inr c"
proof -
  have b: "valid_binding (ec_binding c)" using assms(1) by (simp add: valid_checkpoint_def)
  have "require_json_object l (py_of_json (checkpoint_json c r dl)) = Inr (checkpoint_json c r dl)" for l
    by (simp add: require_json_object_iff checkpoint_json_def)
  moreover have "LlmExecutionCheckpoint (ec_binding c) (state_text (ec_state c)) (ec_session_id c) (ec_receipt c) (ec_turn_index c)
      (ec_text c) (ec_deadline_at c) = Inr c"
    using assms(1) by (subst LlmExecutionCheckpoint_known [OF b, where c' = c]) simp_all
  ultimately show ?thesis
    by (simp add: checkpoint_from_json_def checkpoint_json_get assms(3) binding_round_trip [OF b] assms(2) [symmetric])
qed

lemma checkpoint_written_read:
  assumes "valid_checkpoint c" and "storable_receipt c"
  shows "rbind (checkpoint_to_json c) checkpoint_from_json = Inr c"
proof -
  obtain dl where dl: "ec_deadline_at c = py_of_json dl"
    using assms(1) valid_deadline_json unfolding valid_checkpoint_def by metis
  have "\<exists>v. checkpoint_to_json c = Inr v"
    using assms(2) by (auto simp: storable_receipt_def checkpoint_to_json_def split: option.splits sum.splits)
  then obtain v where v: "checkpoint_to_json c = Inr v" ..
  then obtain r where "v = py_of_json (checkpoint_json c r dl)" "read_receipt r = Inr (ec_receipt c)"
    using dl by (rule checkpoint_to_jsonE)
  then show ?thesis using v assms(1) dl by (simp add: checkpoint_from_json_written)
qed

definition demo_binding :: checkpoint_binding where
  "demo_binding = \<lparr>cb_run_id = ''ar_1'', cb_backend_kind = ''codex'', cb_model = ''m'',
     cb_conversation_scope = \<lparr>cs_tenant_id = ''t'', cs_source_id = ''s''\<rparr>, cb_cwd = ''/w'', cb_env_home = ''/h'', cb_task_id = None,
     cb_execution_id = Some ''e'', cb_dynamic_tool_allowlist = Some [(None, ''search''), (Some ''mem'', ''search'')],
     cb_output_schema = Some (JObj [(''type'', JStr ''object'')])\<rparr>"

definition demo_checkpoint :: execution_checkpoint where
  "demo_checkpoint = \<lparr>ec_binding = demo_binding, ec_state = CkAccepted, ec_session_id = Some ''th_1'',
     ec_receipt = Some \<lparr>cr_backend_operation_id = Some ''turn_1'', cr_metadata = Some (PyDict [(PyStr ''n'', PyInt 1)])\<rparr>,
     ec_turn_index = 2, ec_text = None, ec_deadline_at = PyFloat (5 / 2) ''2.5''\<rparr>"

lemma demo_checkpoint_ok: "valid_checkpoint demo_checkpoint" "storable_receipt demo_checkpoint"
  by code_simp+

text \<open>C34: A checkpoint that satisfies the constructor's rules and whose receipt metadata is a JSON object is written by
  \<open>to_json\<close> without an error, and \<open>from_json\<close> reads exactly that checkpoint back: nothing that a resumed execution
  depends on (the trusted binding with its tool allowlist and schema, the state, the receipt, the turn, the deadline) is
  lost or changed by persistence.\<close>

theorem checkpoint_round_trip:
  assumes "valid_checkpoint c" and "storable_receipt c"
  shows "rbind (checkpoint_to_json c) checkpoint_from_json = Inr c"
  using assms by (rule checkpoint_written_read)

lemma checkpoint_round_trip_witness:
  "valid_checkpoint demo_checkpoint \<and> storable_receipt demo_checkpoint
   \<and> rbind (checkpoint_to_json demo_checkpoint) checkpoint_from_json = Inr demo_checkpoint"
  using checkpoint_round_trip [of demo_checkpoint] demo_checkpoint_ok by simp

definition demo_payload :: pyval where
  "demo_payload = PyDict [(PyStr ''version'', PyInt 1), (PyStr ''state'', PyStr ''opened''), (PyStr ''turn_index'', PyInt 0),
     (PyStr ''binding'', py_of_json (binding_to_json demo_binding))]"

definition demo_opened :: execution_checkpoint where
  "demo_opened = \<lparr>ec_binding = demo_binding, ec_state = CkOpened, ec_session_id = None, ec_receipt = None, ec_turn_index = 0,
     ec_text = None, ec_deadline_at = PyNone\<rparr>"

lemma demo_payload_read: "checkpoint_from_json demo_payload = Inr demo_opened"
  by code_simp

text \<open>C35: Whatever payload was stored, a checkpoint that \<open>from_json\<close> returns is well formed: the identity fields and the
  scope are not blank, the tool allowlist has no blank and no repeated selector, the schema is a JSON object, the deadline is a
  positive finite number, and the receipt is present in exactly the states of an acknowledged delivery.\<close>

theorem checkpoint_from_json_valid:
  assumes "checkpoint_from_json v = Inr c"
  shows "valid_checkpoint c"
proof -
  obtain p where p: "require_json_object ''LLM execution checkpoint'' v = Inr p"
    using assms by (auto simp: checkpoint_from_json_def rbind_eq_Inr)
  obtain t where t: "json_get p ''state'' = JStr t"
    using assms p by (cases "json_get p ''state''") (simp_all add: checkpoint_from_json_def split: if_split_asm)
  obtain n where n: "json_get p ''turn_index'' = JInt n"
    using assms p t by (cases "json_get p ''turn_index''") (auto simp: checkpoint_from_json_def rbind_eq_Inr split: if_split_asm)
  obtain b0 w k r tx d where b: "binding_from_json w = Inr b0"
    and c: "LlmExecutionCheckpoint b0 t k r n tx d = Inr c"
    using assms p t n by (auto simp: checkpoint_from_json_def rbind_eq_Inr split: if_split_asm)
  show ?thesis using c by (rule LlmExecutionCheckpoint_valid [OF binding_from_json_valid [OF b]])
qed


lemma checkpoint_from_json_valid_witness:
  "checkpoint_from_json demo_payload = Inr demo_opened \<and> valid_checkpoint demo_opened"
  using checkpoint_from_json_valid [of demo_payload demo_opened] demo_payload_read by simp

end
