(* ===== verification/Model_Boundary.thy ===== *)
theory Model_Boundary
  imports Checkpoints
begin

section \<open>What a model may see\<close>

text \<open>
  Models \<open>model_boundary.py\<close> and \<open>context/redaction.py\<close>: before an event, the planner context or metadata is put into a
  prompt, the value of every field whose name is on the redaction list is replaced by a marker, at any depth.  With it
  come the records that cross the boundary: \<open>AgentEvent\<close> (\<open>agent/contracts.py\<close>) and \<open>PlannerContext\<close>
  (\<open>context/contracts.py\<close>).  The fields of a planner context are JSON values, because a policy may replace any of them.
\<close>

subsection \<open>Records\<close>

record agent_event =
  ae_id :: string
  ae_tenant_id :: string
  ae_recipient :: string
  ae_message_type :: string
  ae_payload :: json
  ae_correlation_id :: "string option"
  ae_causation_id :: "string option"

record planner_context =
  px_trigger :: json
  px_session_routing :: json
  px_batch :: json
  px_sessions :: json
  px_mailbox :: json
  px_actions :: json
  px_outbound :: json
  px_cron :: json

definition context_to_dict :: "planner_context \<Rightarrow> json" where
  "context_to_dict c = JObj [(''trigger'', px_trigger c), (''session_routing'', px_session_routing c), (''batch'', px_batch c),
     (''sessions'', px_sessions c), (''mailbox'', px_mailbox c), (''actions'', px_actions c), (''outbound'', px_outbound c),
     (''cron'', px_cron c)]"

subsection \<open>Redaction\<close>

record redaction_policy =
  rp_redact_keys :: "string list"
  rp_replacement_prefix :: string

definition default_redact_keys :: "string list" where
  "default_redact_keys = [''actor_id'', ''approved_by'', ''batch_raw_event_ids'', ''causation_id'', ''chat_id'', ''correlation_id'',
     ''destination_id'', ''from_first_name'', ''from_user_id'', ''from_username'', ''owner_id'', ''raw'', ''raw_event_id'',
     ''source_event_id'', ''source_id'', ''registered_by_user_id'', ''tenant_id'', ''update_id'', ''user_id'', ''username'']"

definition default_policy :: redaction_policy where
  "default_policy = \<lparr>rp_redact_keys = default_redact_keys, rp_replacement_prefix = ''[redacted''\<rparr>"

definition replacement :: "redaction_policy \<Rightarrow> string \<Rightarrow> string" where
  "replacement p key = rp_replacement_prefix p @ '':'' @ key @ '']''"

fun redact_value_for_model :: "redaction_policy \<Rightarrow> json \<Rightarrow> json"
  and redact_fields :: "redaction_policy \<Rightarrow> (string \<times> json) list \<Rightarrow> (string \<times> json) list"
  and redact_items :: "redaction_policy \<Rightarrow> json list \<Rightarrow> json list"
where
  "redact_value_for_model p (JObj kvs) = JObj (redact_fields p kvs)"
| "redact_value_for_model p (JArr js) = JArr (redact_items p js)"
| "redact_value_for_model p v = v"
| "redact_fields p [] = []"
| "redact_fields p ((k, v) # kvs) =
     (k, if k \<in> set (rp_redact_keys p) then JStr (replacement p k) else redact_value_for_model p v) # redact_fields p kvs"
| "redact_items p [] = []"
| "redact_items p (v # vs) = redact_value_for_model p v # redact_items p vs"

definition redact_id :: "redaction_policy \<Rightarrow> string \<Rightarrow> string option \<Rightarrow> string option" where
  "redact_id p key v = (if v \<noteq> None \<and> v \<noteq> Some [] \<and> key \<in> set (rp_redact_keys p) then Some (replacement p key) else v)"

definition redact_agent_event_for_model :: "redaction_policy \<Rightarrow> agent_event \<Rightarrow> agent_event" where
  "redact_agent_event_for_model p e = \<lparr>ae_id = ae_id e,
     ae_tenant_id = (if ''tenant_id'' \<in> set (rp_redact_keys p) then replacement p ''tenant_id'' else ae_tenant_id e),
     ae_recipient = ae_recipient e, ae_message_type = ae_message_type e, ae_payload = redact_value_for_model p (ae_payload e),
     ae_correlation_id = redact_id p ''correlation_id'' (ae_correlation_id e),
     ae_causation_id = redact_id p ''causation_id'' (ae_causation_id e)\<rparr>"

definition get_or_empty :: "json \<Rightarrow> string \<Rightarrow> json" where
  "get_or_empty data key = (if truthy (json_get data key) then json_get data key else JArr [])"

definition redact_planner_context_for_model :: "redaction_policy \<Rightarrow> planner_context \<Rightarrow> planner_context" where
  "redact_planner_context_for_model p c =
     (let data = redact_value_for_model p (context_to_dict c) in
      \<lparr>px_trigger = json_get data ''trigger'', px_session_routing = json_get data ''session_routing'', px_batch = json_get data ''batch'',
       px_sessions = get_or_empty data ''sessions'', px_mailbox = get_or_empty data ''mailbox'',
       px_actions = get_or_empty data ''actions'', px_outbound = get_or_empty data ''outbound'', px_cron = get_or_empty data ''cron''\<rparr>)"

subsection \<open>Values that differ in redacted fields only\<close>

fun same_visible :: "string list \<Rightarrow> json \<Rightarrow> json \<Rightarrow> bool"
  and same_visible_fields :: "string list \<Rightarrow> (string \<times> json) list \<Rightarrow> (string \<times> json) list \<Rightarrow> bool"
  and same_visible_items :: "string list \<Rightarrow> json list \<Rightarrow> json list \<Rightarrow> bool"
where
  "same_visible ks (JObj fs) w = (case w of JObj gs \<Rightarrow> same_visible_fields ks fs gs | _ \<Rightarrow> False)"
| "same_visible ks (JArr vs) w = (case w of JArr ws \<Rightarrow> same_visible_items ks vs ws | _ \<Rightarrow> False)"
| "same_visible ks v w = (v = w)"
| "same_visible_fields ks [] gs = (gs = [])"
| "same_visible_fields ks ((k, v) # fs) gs = (case gs of [] \<Rightarrow> False
     | (l, w) # gs' \<Rightarrow> k = l \<and> (k \<in> set ks \<or> same_visible ks v w) \<and> same_visible_fields ks fs gs')"
| "same_visible_items ks [] ws = (ws = [])"
| "same_visible_items ks (v # vs) ws = (case ws of [] \<Rightarrow> False | w # ws' \<Rightarrow> same_visible ks v w \<and> same_visible_items ks vs ws')"

lemma redact_same_visible:
  "same_visible (rp_redact_keys p) v w \<Longrightarrow> redact_value_for_model p v = redact_value_for_model p w"
  "same_visible_fields (rp_redact_keys p) fs gs \<Longrightarrow> redact_fields p fs = redact_fields p gs"
  "same_visible_items (rp_redact_keys p) vs ws \<Longrightarrow> redact_items p vs = redact_items p ws"
proof (induction p v and p fs and p vs arbitrary: w and gs and ws
    rule: redact_value_for_model_redact_fields_redact_items.induct)
qed (auto split: json.splits list.splits)

end
