(* ===== verification/Planner_Runs.thy ===== *)
theory Planner_Runs
  imports Checkpoints Lease_Port
begin

section \<open>Planner runs\<close>

text \<open>
  Models \<open>runs/store.py\<close> on the table \<open>agent_runs\<close> (migrations 002, 013, 018, 024 and 031) and the journal
  \<open>_RunExecutionJournal\<close> of \<open>runtime/planner.py\<close>, through which a model execution keeps its checkpoint in the row of
  its run.  A run is identified by the conversation and the operation key (event, model, prompt version); a worker owns
  it by a lease token, and another worker may take it over when it has not been touched for \<open>stale_after_s\<close> seconds.
  The class \<open>SQLiteRunStore\<close> forwards to these functions.

  The output of a run is the JSON object that the planner hands over (\<open>default=str\<close>, which would print other objects, is
  not modelled).
\<close>

subsection \<open>Rows\<close>

datatype run_status = RunRunning | RunWaitingApproval | RunCompleted | RunFailed

record run_row =
  rn_id :: string
  rn_tenant_id :: string
  rn_source_id :: "string option"
  rn_trigger_event_id :: string
  rn_status :: run_status
  rn_input_summary :: "string option"
  rn_output_json :: "stored_json option"
  rn_model :: "string option"
  rn_prompt_version :: "string option"
  rn_operation_key :: "string option"
  rn_input_fingerprint :: "string option"
  rn_lease_token :: "string option"
  rn_llm_checkpoint_json :: "stored_json option"
  rn_created_at :: int
  rn_updated_at :: int

text \<open>The keyword arguments of \<open>claim_run\<close>, and what it answers.\<close>

record run_args =
  na_tenant_id :: string
  na_source_id :: string
  na_trigger_event_id :: string
  na_model :: string
  na_prompt_version :: string
  na_input_summary :: "string option"
  na_input_fingerprint :: string
  na_stale_after_s :: int

record planner_run_claim =
  pc_id :: string
  pc_status :: run_status
  pc_acquired :: bool
  pc_lease_token :: "string option"
  pc_output :: "json option"

subsection \<open>Claiming a run\<close>

definition operation_key :: "run_args \<Rightarrow> string" where
  "operation_key a = canonical (JArr [JStr (na_trigger_event_id a), JStr (na_model a), JStr (na_prompt_version a)])"

definition load_output :: "stored_json option \<Rightarrow> json option result" where
  "load_output payload = (case payload of
     None \<Rightarrow> Inr None
   | Some (Encoded v) \<Rightarrow> if is_object v then Inr (Some v) else Inl (ValueError ''agent run output must be a JSON object'')
   | Some (Raw t) \<Rightarrow> Inl JSONDecodeError)"

definition new_run_row :: "int \<Rightarrow> string \<Rightarrow> string \<Rightarrow> run_args \<Rightarrow> run_row" where
  "new_run_row now uuid token a = \<lparr>
     rn_id = ''ar_'' @ uuid, rn_tenant_id = na_tenant_id a, rn_source_id = Some (na_source_id a),
     rn_trigger_event_id = na_trigger_event_id a, rn_status = RunRunning, rn_input_summary = na_input_summary a,
     rn_output_json = None, rn_model = Some (na_model a), rn_prompt_version = Some (na_prompt_version a),
     rn_operation_key = Some (operation_key a), rn_input_fingerprint = Some (na_input_fingerprint a),
     rn_lease_token = Some token, rn_llm_checkpoint_json = None, rn_created_at = now, rn_updated_at = now\<rparr>"

definition run_by_key :: "run_args \<Rightarrow> run_row \<Rightarrow> bool" where
  "run_by_key a r \<longleftrightarrow> rn_tenant_id r = na_tenant_id a \<and> rn_source_id r = Some (na_source_id a)
     \<and> rn_operation_key r = Some (operation_key a)"

text \<open>The primary key and \<open>idx_agent_runs_conversation_operation\<close>.\<close>

definition run_conflict :: "run_row \<Rightarrow> run_row \<Rightarrow> bool" where
  "run_conflict n r \<longleftrightarrow> rn_id r = rn_id n \<or>
     (rn_source_id n \<noteq> None \<and> rn_operation_key n \<noteq> None \<and> rn_tenant_id r = rn_tenant_id n
      \<and> rn_source_id r = rn_source_id n \<and> rn_operation_key r = rn_operation_key n)"

definition insert_run :: "run_row \<Rightarrow> run_row list \<Rightarrow> run_row list result" where
  "insert_run n rows = (if \<exists>r \<in> set rows. run_conflict n r then Inl IntegrityError else Inr (rows @ [n]))"

definition retake_run :: "int \<Rightarrow> string \<Rightarrow> string option \<Rightarrow> run_row \<Rightarrow> run_row" where
  "retake_run now token summary r = r\<lparr>rn_status := RunRunning, rn_input_summary := summary, rn_output_json := None,
     rn_lease_token := Some token, rn_updated_at := now\<rparr>"

definition claim_existing_run ::
  "int \<Rightarrow> string \<Rightarrow> run_args \<Rightarrow> run_row \<Rightarrow> run_row list \<Rightarrow> (planner_run_claim \<times> run_row list) result" where
  "claim_existing_run now token a r rows =
     rbind (require_idempotent_replay (rn_input_fingerprint r = Some (na_input_fingerprint a))
              ''planner run'' (operation_key a) (rn_id r)) (\<lambda>_.
     rbind (load_output (rn_output_json r)) (\<lambda>output.
     if rn_status r \<in> {RunCompleted, RunWaitingApproval} \<and> output \<noteq> None
     then Inr (\<lparr>pc_id = rn_id r, pc_status = rn_status r, pc_acquired = False, pc_lease_token = None, pc_output = output\<rparr>, rows)
     else if rn_status r = RunRunning \<and> rn_updated_at r > now - na_stale_after_s a
     then Inr (\<lparr>pc_id = rn_id r, pc_status = RunRunning, pc_acquired = False, pc_lease_token = None, pc_output = None\<rparr>, rows)
     else Inr (\<lparr>pc_id = rn_id r, pc_status = RunRunning, pc_acquired = True, pc_lease_token = Some token, pc_output = None\<rparr>,
               update_where (\<lambda>x. rn_id x = rn_id r) (retake_run now token (na_input_summary a)) rows)))"

definition claim_run ::
  "int \<Rightarrow> string \<Rightarrow> string \<Rightarrow> run_args \<Rightarrow> run_row list \<Rightarrow> (planner_run_claim \<times> run_row list) result" where
  "claim_run now uuid token a rows =
     (if blank (na_tenant_id a) \<or> blank (na_source_id a)
        then Inl (ValueError ''tenant_id and source_id must be non-empty'')
      else if blank (na_input_fingerprint a) then Inl (ValueError ''input_fingerprint must be non-empty'')
      else if na_stale_after_s a < 1 then Inl (ValueError ''stale_after_s must be positive'')
      else case fetchone (run_by_key a) rows of
        None \<Rightarrow>
          rbind (insert_run (new_run_row now uuid token a) rows) (\<lambda>rows'.
          Inr (\<lparr>pc_id = ''ar_'' @ uuid, pc_status = RunRunning, pc_acquired = True, pc_lease_token = Some token, pc_output = None\<rparr>, rows'))
      | Some r \<Rightarrow> claim_existing_run now token a r rows)"

subsection \<open>Finishing a run and its checkpoint\<close>

definition run_owned :: "string \<Rightarrow> string \<Rightarrow> run_row \<Rightarrow> bool" where
  "run_owned k token r \<longleftrightarrow> rn_id r = k \<and> rn_status r = RunRunning \<and> rn_lease_token r = Some token"

fun final_status :: "string \<Rightarrow> run_status option" where
  "final_status s = (if s = ''completed'' then Some RunCompleted else if s = ''waiting_approval'' then Some RunWaitingApproval
     else if s = ''failed'' then Some RunFailed else None)"

definition finish_run :: "int \<Rightarrow> run_status \<Rightarrow> json option \<Rightarrow> run_row \<Rightarrow> run_row" where
  "finish_run now st output r = r\<lparr>rn_status := st, rn_output_json := map_option Encoded output, rn_lease_token := None,
     rn_updated_at := now\<rparr>"

definition finalize_run ::
  "int \<Rightarrow> string \<Rightarrow> string \<Rightarrow> string \<Rightarrow> json option \<Rightarrow> run_row list \<Rightarrow> (bool \<times> run_row list) result" where
  "finalize_run now k token status output rows = (case final_status status of
     None \<Rightarrow> Inl (ValueError (''unsupported planner run status: '' @ status))
   | Some st \<Rightarrow> Inr (0 < rowcount (run_owned k token) rows, update_where (run_owned k token) (finish_run now st output) rows))"

definition load_run_checkpoint :: "string \<Rightarrow> string \<Rightarrow> run_row list \<Rightarrow> json option result" where
  "load_run_checkpoint k token rows = (case fetchone (run_owned k token) rows of
     None \<Rightarrow> Inl (RunCheckpointLeaseLostError ''planner run lease was lost while loading its checkpoint'')
   | Some r \<Rightarrow> (case rn_llm_checkpoint_json r of
        None \<Rightarrow> Inr None
      | Some (Raw t) \<Rightarrow> Inl JSONDecodeError
      | Some (Encoded v) \<Rightarrow> rbind (require_json_object ''planner run checkpoint'' (py_of_json v)) (\<lambda>j. Inr (Some j))))"

definition put_checkpoint :: "int \<Rightarrow> json \<Rightarrow> run_row \<Rightarrow> run_row" where
  "put_checkpoint now j r = r\<lparr>rn_llm_checkpoint_json := Some (Encoded j), rn_updated_at := now\<rparr>"

definition save_run_checkpoint ::
  "int \<Rightarrow> string \<Rightarrow> string \<Rightarrow> pyval \<Rightarrow> run_row list \<Rightarrow> (bool \<times> run_row list) result" where
  "save_run_checkpoint now k token checkpoint rows =
     rbind (require_json_object ''planner run checkpoint'' checkpoint) (\<lambda>j.
     Inr (0 < rowcount (run_owned k token) rows,
          update_where (run_owned k token) (put_checkpoint now j) rows))"

subsection \<open>The journal of an execution\<close>

definition journal_load :: "string \<Rightarrow> string \<Rightarrow> run_row list \<Rightarrow> execution_checkpoint option result" where
  "journal_load k token rows = (case load_run_checkpoint k token rows of
     Inl (RunCheckpointLeaseLostError m) \<Rightarrow>
       Inl (PlannerRunLeaseLostError (''planner run lease was lost while loading its checkpoint: '' @ k))
   | Inl e \<Rightarrow> Inl e
   | Inr None \<Rightarrow> Inr None
   | Inr (Some payload) \<Rightarrow> (case checkpoint_from_json (py_of_json payload) of
        Inl (TypeError m) \<Rightarrow> Inl (NonRetryableEventError ''persisted LLM checkpoint is invalid'')
      | Inl (ValueError m) \<Rightarrow> Inl (NonRetryableEventError ''persisted LLM checkpoint is invalid'')
      | Inl (KeyError m) \<Rightarrow> Inl (NonRetryableEventError ''persisted LLM checkpoint is invalid'')
      | Inl e \<Rightarrow> Inl e
      | Inr c \<Rightarrow> if cb_run_id (ec_binding c) \<noteq> k
          then Inl (NonRetryableEventError ''persisted LLM checkpoint belongs to a different planner run'')
          else Inr (Some c)))"

definition journal_save ::
  "int \<Rightarrow> string \<Rightarrow> string \<Rightarrow> execution_checkpoint \<Rightarrow> run_row list \<Rightarrow> run_row list result" where
  "journal_save now k token c rows =
     (if cb_run_id (ec_binding c) \<noteq> k
      then Inl (NonRetryableEventError ''LLM checkpoint cannot change its planner run binding'')
      else rbind (checkpoint_to_json c) (\<lambda>payload.
           rbind (save_run_checkpoint now k token payload rows) (\<lambda>(saved, rows').
           if \<not> saved then Inl (PlannerRunLeaseLostError (''planner run lease was lost while saving its checkpoint: '' @ k))
           else Inr rows')))"


subsection \<open>The table and its operations\<close>

definition run_key :: "run_row \<Rightarrow> (string \<times> string \<times> string) option" where
  "run_key r = (case (rn_source_id r, rn_operation_key r) of
     (Some s, Some key) \<Rightarrow> Some (rn_tenant_id r, s, key) | _ \<Rightarrow> None)"

definition run_inv :: "run_row list \<Rightarrow> bool" where
  "run_inv rows \<longleftrightarrow> distinct (map rn_id rows) \<and> unique_key run_key rows
     \<and> (\<forall>r \<in> set rows. rn_status r = RunRunning \<longleftrightarrow> rn_lease_token r \<noteq> None)"

datatype run_op =
    RunClaim int string string run_args
  | RunFinalize int string string string "json option"
  | RunSave int string string pyval

definition run_apply :: "run_op \<Rightarrow> run_row list \<Rightarrow> run_row list" where
  "run_apply op rows = (case op of
     RunClaim now uuid token a \<Rightarrow> (case claim_run now uuid token a rows of Inl e \<Rightarrow> rows | Inr (c, rows') \<Rightarrow> rows')
   | RunFinalize now k token st output \<Rightarrow> (case finalize_run now k token st output rows of Inl e \<Rightarrow> rows | Inr (b, rows') \<Rightarrow> rows')
   | RunSave now k token cp \<Rightarrow> (case save_run_checkpoint now k token cp rows of Inl e \<Rightarrow> rows | Inr (b, rows') \<Rightarrow> rows'))"

definition run_step :: "run_op \<Rightarrow> run_row list \<Rightarrow> run_row list \<Rightarrow> bool" where
  "run_step op s t \<longleftrightarrow> t = run_apply op s"

text \<open>The token that an operation would give to a run.\<close>

fun grants_token :: "run_op \<Rightarrow> string option" where
  "grants_token (RunClaim now uuid token a) = Some token"
| "grants_token _ = None"

fun saves_for :: "run_op \<Rightarrow> string option" where
  "saves_for (RunSave now k token cp) = Some k"
| "saves_for _ = None"

definition run_answered :: "run_row \<Rightarrow> bool" where
  "run_answered r \<longleftrightarrow> rn_status r \<in> {RunCompleted, RunWaitingApproval}
     \<and> (case rn_output_json r of Some (Encoded v) \<Rightarrow> is_object v | _ \<Rightarrow> False)"

lemma run_key_by_key: "run_by_key a r \<longleftrightarrow> run_key r = Some (na_tenant_id a, na_source_id a, operation_key a)"
  by (auto simp: run_by_key_def run_key_def split: option.splits)

lemma retake_run_columns [simp]:
  "rn_id (retake_run now t sm r) = rn_id r" "run_key (retake_run now t sm r) = run_key r"
  "rn_input_fingerprint (retake_run now t sm r) = rn_input_fingerprint r"
  "rn_llm_checkpoint_json (retake_run now t sm r) = rn_llm_checkpoint_json r"
  "rn_lease_token (retake_run now t sm r) = Some t" "rn_status (retake_run now t sm r) = RunRunning"
  by (simp_all add: retake_run_def run_key_def split: option.split)

lemma finish_run_columns [simp]:
  "rn_id (finish_run now st out r) = rn_id r" "run_key (finish_run now st out r) = run_key r"
  "rn_input_fingerprint (finish_run now st out r) = rn_input_fingerprint r"
  "rn_llm_checkpoint_json (finish_run now st out r) = rn_llm_checkpoint_json r"
  "rn_lease_token (finish_run now st out r) = None" "rn_status (finish_run now st out r) = st"
  by (simp_all add: finish_run_def run_key_def split: option.split)

lemma put_checkpoint_columns [simp]:
  "rn_id (put_checkpoint now j r) = rn_id r" "run_key (put_checkpoint now j r) = run_key r"
  "rn_input_fingerprint (put_checkpoint now j r) = rn_input_fingerprint r"
  "rn_lease_token (put_checkpoint now j r) = rn_lease_token r" "rn_status (put_checkpoint now j r) = rn_status r"
  "rn_output_json (put_checkpoint now j r) = rn_output_json r"
  "rn_llm_checkpoint_json (put_checkpoint now j r) = Some (Encoded j)"
  by (simp_all add: put_checkpoint_def run_key_def split: option.split)

lemma new_run_row_columns [simp]:
  "rn_id (new_run_row now uuid t a) = ''ar_'' @ uuid" "run_key (new_run_row now uuid t a) = Some (na_tenant_id a, na_source_id a, operation_key a)"
  "rn_lease_token (new_run_row now uuid t a) = Some t" "rn_status (new_run_row now uuid t a) = RunRunning"
  by (simp_all add: new_run_row_def run_key_def)

lemma final_status_running: "final_status st \<noteq> Some RunRunning"
  by simp

text \<open>A claim inserts a run, leaves the table as it is, or takes over a run that has no answer.\<close>

lemma claim_runE:
  assumes "claim_run now uuid token a rows = Inr (c, rows')"
  obtains (new) "fetchone (run_by_key a) rows = None" "insert_run (new_run_row now uuid token a) rows = Inr rows'"
      "pc_id c = ''ar_'' @ uuid" "pc_acquired c" "rows' = rows @ [new_run_row now uuid token a]"
    | (kept) "\<not> pc_acquired c" "rows' = rows"
    | (retaken) r where "r \<in> set rows" "run_by_key a r" "pc_id c = rn_id r" "pc_acquired c" "\<not> run_answered r"
      "rows' = update_where (\<lambda>x. rn_id x = rn_id r) (retake_run now token (na_input_summary a)) rows"
proof (cases "fetchone (run_by_key a) rows")
  case None
  then show thesis using assms new by (auto simp: claim_run_def rbind_eq_Inr insert_run_def split: if_splits)
next
  case (Some r)
  then have r: "r \<in> set rows" "run_by_key a r" by (auto dest: fetchone_SomeD)
  have ex: "claim_existing_run now token a r rows = Inr (c, rows')"
    using assms Some by (simp add: claim_run_def split: if_splits)
  then obtain out where out: "load_output (rn_output_json r) = Inr out" by (auto simp: claim_existing_run_def rbind_eq_Inr)
  show thesis
  proof (cases "pc_acquired c")
    case True
    have "\<not> (rn_status r \<in> {RunCompleted, RunWaitingApproval} \<and> out \<noteq> None)"
      using ex out True by (auto simp: claim_existing_run_def rbind_eq_Inr split: if_splits)
    then have "\<not> run_answered r" using out by (auto simp: run_answered_def load_output_def split: option.splits stored_json.splits)
    moreover have "pc_id c = rn_id r" "rows' = update_where (\<lambda>x. rn_id x = rn_id r) (retake_run now token (na_input_summary a)) rows"
      using ex out True by (auto simp: claim_existing_run_def rbind_eq_Inr split: if_splits)
    ultimately show ?thesis using r True retaken by blast
  next
    case False
    then have "rows' = rows" using ex out by (auto simp: claim_existing_run_def rbind_eq_Inr split: if_splits)
    then show ?thesis using False kept by blast
  qed
qed

lemma run_conflict_new:
  "run_conflict (new_run_row now uuid t a) r \<longleftrightarrow> rn_id r = ''ar_'' @ uuid \<or> run_by_key a r"
  by (auto simp: run_conflict_def run_by_key_def new_run_row_def)

lemma run_inv_insert:
  assumes "run_inv rows" and "insert_run (new_run_row now uuid t a) rows = Inr rows'"
  shows "run_inv rows'"
proof -
  let ?n = "new_run_row now uuid t a"
  have no: "rn_id r \<noteq> ''ar_'' @ uuid" "\<not> run_by_key a r" if "r \<in> set rows" for r
    using assms(2) that by (auto simp: insert_run_def run_conflict_new split: if_splits)
  have "unique_key run_key (rows @ [?n])" "distinct (map rn_id (rows @ [?n]))"
    using assms(1) no by (auto simp: run_inv_def unique_key_append run_key_by_key) fastforce
  then show ?thesis using assms by (auto simp: run_inv_def insert_run_def split: if_splits)
qed

lemma run_inv_update:
  assumes "run_inv rows" and "\<And>r. rn_id (f r) = rn_id r" and "\<And>r. run_key (f r) = run_key r"
    and "\<And>r. p r \<Longrightarrow> rn_status r = RunRunning \<longleftrightarrow> rn_lease_token r \<noteq> None \<Longrightarrow> rn_status (f r) = RunRunning \<longleftrightarrow> rn_lease_token (f r) \<noteq> None"
  shows "run_inv (update_where p f rows)"
  using assms by (auto simp: run_inv_def unique_key_update_where set_update_where)

lemma run_inv_claim: "run_inv rows \<Longrightarrow> claim_run now uuid token a rows = Inr (c, rows') \<Longrightarrow> run_inv rows'"
  by (erule claim_runE) (auto intro: run_inv_insert run_inv_update)

lemma run_inv_finalize: "run_inv rows \<Longrightarrow> finalize_run now k token st out rows = Inr (b, rows') \<Longrightarrow> run_inv rows'"
  by (auto simp: finalize_run_def split: option.splits if_splits simp del: final_status.simps
      intro!: run_inv_update) (use final_status_running in metis)+

lemma run_inv_save: "run_inv rows \<Longrightarrow> save_run_checkpoint now k token cp rows = Inr (b, rows') \<Longrightarrow> run_inv rows'"
  by (auto simp: save_run_checkpoint_def rbind_eq_Inr intro!: run_inv_update)

lemma run_step_inv: "run_step op s t \<Longrightarrow> run_inv s \<Longrightarrow> run_inv t"
  by (cases op) (auto simp: run_step_def run_apply_def split: sum.split
      intro: run_inv_claim run_inv_finalize run_inv_save)

lemma steps_run_inv: "steps run_step ops s t \<Longrightarrow> run_inv s \<Longrightarrow> run_inv t"
  by (erule steps_invariant) (blast intro: run_step_inv)+

lemma run_inv_Nil: "run_inv []"
  by (simp add: run_inv_def)


subsection \<open>The lease contract\<close>

abbreviation run_live :: "run_row \<Rightarrow> bool" where
  "run_live r \<equiv> rn_status r = RunRunning"

abbreviation run_holds :: "run_row list \<Rightarrow> string \<Rightarrow> string \<Rightarrow> bool" where
  "run_holds \<equiv> table_holds rn_id run_live rn_lease_token"

definition run_settle :: "int \<times> string \<times> json option \<Rightarrow> string \<Rightarrow> string \<Rightarrow> run_row list \<Rightarrow> bool \<times> run_row list" where
  "run_settle a k token rows = (case a of (now, st, output) \<Rightarrow>
     (case finalize_run now k token st output rows of Inl e \<Rightarrow> (False, rows) | Inr p \<Rightarrow> p))"

definition run_accepts :: "int \<times> string \<times> json option \<Rightarrow> run_row \<Rightarrow> bool" where
  "run_accepts a r \<longleftrightarrow> final_status (fst (snd a)) \<noteq> None \<and> run_live r"

definition run_claim_ids :: "int \<times> string \<times> run_args \<Rightarrow> string \<Rightarrow> run_row list \<Rightarrow> string list \<times> run_row list" where
  "run_claim_ids c token rows = (case c of (now, uuid, a) \<Rightarrow>
     (case claim_run now uuid token a rows of
        Inl e \<Rightarrow> ([], rows) | Inr (cl, rows') \<Rightarrow> (if pc_acquired cl then [pc_id cl] else [], rows')))"


lemma run_owned_row_held: "run_owned k t = row_held rn_id run_live rn_lease_token k t"
  by (auto simp: fun_eq_iff run_owned_def row_held_def)

lemma run_settle_known:
  "final_status st = Some s \<Longrightarrow> run_settle (now, st, out) k t rows =
     (table_holds rn_id run_live rn_lease_token rows k t, update_where (run_owned k t) (finish_run now s out) rows)"
  by (auto simp: run_settle_def finalize_run_def run_owned_row_held table_holds_def rowcount_pos simp del: final_status.simps)

lemma run_settle_unknown: "final_status st = None \<Longrightarrow> run_settle (now, st, out) k t rows = (False, rows)"
  by (simp add: run_settle_def finalize_run_def del: final_status.simps)

lemma run_accepts_known:
  "final_status st = Some s \<Longrightarrow> run_accepts (now, st, out) = run_live"
  "final_status st = None \<Longrightarrow> run_accepts (now, st, out) = (\<lambda>_. False)"
  by (auto simp: fun_eq_iff run_accepts_def simp del: final_status.simps)

interpretation run_lease: guarded_table rn_id run_live rn_lease_token run_inv run_accepts run_settle
proof (unfold_locales, goal_cases)
  case (1 rows)
  then show ?case by (simp add: run_inv_def)
next
  case (2 rows a k t)
  obtain now st out where a: "a = (now, st, out)" by (cases a)
  show ?case
  proof (cases "finalize_run now k t st out rows")
    case (Inr p)
    then show ?thesis using 2 run_inv_finalize [of rows now k t st out "fst p" "snd p"] by (simp add: a run_settle_def)
  qed (use 2 in \<open>simp add: a run_settle_def\<close>)
next
  case (3 a r)
  then show ?case by (simp add: run_accepts_def)
next
  case (4 rows a k t)
  obtain now st out where a: "a = (now, st, out)" by (cases a)
  show ?case
  proof (cases "final_status st")
    case None
    then show ?thesis
      by (intro exI [of _ "finish_run now RunFailed out"])
         (auto simp: a run_settle_unknown run_accepts_known table_holds_def row_held_def update_where_id simp del: final_status.simps)
  next
    case (Some s)
    have "s \<noteq> RunRunning" using Some final_status_running by metis
    then show ?thesis
      by (intro exI [of _ "finish_run now s out"])
         (simp add: a run_settle_known [OF Some] run_accepts_known(1) [OF Some] run_owned_row_held del: final_status.simps)
  qed
qed

lemma run_claim_ids_cases:
  assumes "run_inv rows"
  obtains (kept) "run_claim_ids c t rows = ([], rows)"
    | (granted) k f rows1 where "fst (run_claim_ids c t rows) = [k]" "snd (run_claim_ids c t rows) = update_where (\<lambda>r. rn_id r = k) f rows1"
      "k \<in> rn_id ` set rows1" "\<And>r. r \<in> set rows1 \<Longrightarrow> rn_id r \<noteq> k \<Longrightarrow> r \<in> set rows" "\<And>r. rn_id r = k \<Longrightarrow> r \<in> set rows1 \<Longrightarrow> rn_id (f r) = k \<and> run_live (f r) \<and> rn_lease_token (f r) = Some t"
proof -
  obtain now uuid a where c: "c = (now, uuid, a)" by (cases c)
  show thesis
  proof (cases "claim_run now uuid t a rows")
    case (Inl e)
    then show ?thesis by (intro kept) (simp add: c run_claim_ids_def)
  next
    case (Inr p)
    obtain cl rows' where p: "p = (cl, rows')" by (cases p)
    then have claim: "claim_run now uuid t a rows = Inr (cl, rows')" using Inr by simp
    from claim show ?thesis
    proof (cases rule: claim_runE)
      case new
      have "rn_id r \<noteq> ''ar_'' @ uuid" if "r \<in> set rows" for r
        using new(2) that by (auto simp: insert_run_def run_conflict_new split: if_splits)
      then show ?thesis using claim new
        by (intro granted [of "''ar_'' @ uuid" "\<lambda>r. r" rows']) (auto simp: c run_claim_ids_def update_where_def)
    next
      case kept
      then show ?thesis using claim that(1) by (simp add: c run_claim_ids_def)
    next
      case (retaken r)
      then show ?thesis using claim
        by (intro granted [of "rn_id r" "retake_run now t (na_input_summary a)" rows]) (auto simp: c run_claim_ids_def)
    qed
  qed
qed

interpretation run_claims: claim_port run_inv run_holds "\<lambda>a. \<forall>r. run_live r \<longrightarrow> run_accepts a r" run_settle run_claim_ids
proof (unfold_locales, goal_cases)
  case (1 rows c t)
  then show ?case
    by (cases c) (auto simp: run_claim_ids_def split: sum.split intro: run_inv_claim)
next
  case (2 rows k c t t')
  from 2(1) show ?case
  proof (cases rule: run_claim_ids_cases [where c = c and t = t])
    case kept
    then show ?thesis using 2(2) by simp
  next
    case (granted k' f rows1)
    then have k: "k' = k" using 2(2) by simp
    have "row_held rn_id run_live rn_lease_token k t' (if rn_id r = k' then f r else r) \<longleftrightarrow> rn_id r = k \<and> t' = t"
      if "r \<in> set rows1" for r
      using granted(5) [of r] that k by (auto simp: row_held_def)
    moreover obtain r where "r \<in> set rows1" "rn_id r = k" using granted(3) k by auto
    ultimately show ?thesis unfolding granted(2) table_holds_def bex_update_where by blast
  qed
next
  case (3 rows k c t t')
  from 3(1) show ?case
  proof (cases rule: run_claim_ids_cases [where c = c and t = t])
    case kept
    then show ?thesis using 3(3) by simp
  next
    case (granted k' f rows1)
    then have k: "k' \<noteq> k" using 3(2) by auto
    then show ?thesis using 3(3) granted(4,5) unfolding granted(2) table_holds_def bex_update_where
      by (fastforce simp: row_held_def split: if_splits)
  qed
qed


subsection \<open>Owners and former owners\<close>

lemma run_holds_iff: "run_holds rows k t \<longleftrightarrow> (\<exists>r \<in> set rows. run_owned k t r)"
  by (simp add: table_holds_def run_owned_row_held)

lemma acquired_claim_ids:
  assumes "claim_run now uuid token a rows = Inr (c, rows1)" and "pc_acquired c"
  shows "run_claim_ids (now, uuid, a) token rows = ([pc_id c], rows1)"
  using assms by (simp add: run_claim_ids_def)

lemma claim_holds:
  assumes "run_inv rows" and "claim_run now uuid token a rows = Inr (c, rows1)" and "pc_acquired c"
  shows "run_holds rows1 (pc_id c) t \<longleftrightarrow> t = token"
  using run_claims.claim_grants [OF assms(1), of "pc_id c" "(now, uuid, a)" token t]
  by (simp add: acquired_claim_ids [OF assms(2,3)])

lemma claim_holds_before:
  assumes "run_inv rows" and "claim_run now uuid token a rows = Inr (c, rows1)" and "run_holds rows1 k t" and "t \<noteq> token"
  shows "run_holds rows k t"
proof (cases "pc_acquired c")
  case True
  note ids = acquired_claim_ids [OF assms(2) True]
  have "k \<noteq> pc_id c" using claim_holds [OF assms(1,2) True] assms(3,4) by auto
  then show ?thesis using run_claims.claim_others [OF assms(1), of k "(now, uuid, a)" token t] assms(3) by (simp add: ids)
next
  case False
  then have "rows1 = rows" using assms(2) by (auto elim: claim_runE)
  then show ?thesis using assms(3) by simp
qed

lemma refused:
  assumes "\<not> run_holds rows k t"
  shows "final_status st \<noteq> None \<Longrightarrow> finalize_run now k t st out rows = Inr (False, rows)"
    and "load_run_checkpoint k t rows = Inl (RunCheckpointLeaseLostError ''planner run lease was lost while loading its checkpoint'')"
    and "save_run_checkpoint now k t cp rows = Inr (b, rows') \<Longrightarrow> b = False \<and> rows' = rows"
proof -
  have no: "\<not> run_owned k t r" if "r \<in> set rows" for r using assms that by (auto simp: run_holds_iff)
  then have u: "update_where (run_owned k t) f rows = rows" for f by (intro update_where_id)
  have z: "rowcount (run_owned k t) rows = 0" using no by (simp add: rowcount_eq_0)
  show "final_status st \<noteq> None \<Longrightarrow> finalize_run now k t st out rows = Inr (False, rows)"
    by (auto simp: finalize_run_def u z simp del: final_status.simps)
  show "load_run_checkpoint k t rows = Inl (RunCheckpointLeaseLostError ''planner run lease was lost while loading its checkpoint'')"
  proof -
    have "fetchone (run_owned k t) rows = None" using no by (simp add: fetchone_None)
    then show ?thesis by (simp add: load_run_checkpoint_def)
  qed
  show "save_run_checkpoint now k t cp rows = Inr (b, rows') \<Longrightarrow> b = False \<and> rows' = rows"
    by (auto simp: save_run_checkpoint_def rbind_eq_Inr u z)
qed

lemma token_not_regained:
  assumes "run_step op s s'" and "run_inv s" and "grants_token op \<noteq> Some t" and "\<not> run_holds s k t"
  shows "\<not> run_holds s' k t"
proof (cases op)
  case (RunClaim now uuid token a)
  show ?thesis
  proof (cases "claim_run now uuid token a s")
    case (Inr p)
    then show ?thesis
      using claim_holds_before [OF assms(2), of now uuid token a "fst p" s' k t] assms RunClaim
      by (cases p) (auto simp: run_step_def run_apply_def)
  qed (use assms RunClaim in \<open>simp add: run_step_def run_apply_def\<close>)
next
  case (RunFinalize now k' t' st out)
  have "rn_status r \<noteq> RunRunning \<or> rn_id r \<noteq> k \<or> rn_lease_token r \<noteq> Some t" if "r \<in> set s" for r
    using assms(4) that by (auto simp: run_holds_iff run_owned_def)
  then show ?thesis using assms(1) RunFinalize
    by (auto simp: run_step_def run_apply_def finalize_run_def run_holds_iff run_owned_def set_update_where
        split: option.splits simp del: final_status.simps)
next
  case (RunSave now k' t' cp)
  have "rn_status r \<noteq> RunRunning \<or> rn_id r \<noteq> k \<or> rn_lease_token r \<noteq> Some t" if "r \<in> set s" for r
    using assms(4) that by (auto simp: run_holds_iff run_owned_def)
  then show ?thesis using assms(1) RunSave
    by (cases "require_json_object ''planner run checkpoint'' cp")
       (auto simp: run_step_def run_apply_def save_run_checkpoint_def run_holds_iff run_owned_def set_update_where)
qed

lemma steps_token_not_regained:
  assumes "steps run_step ops s s'" and "run_inv s" and "Some t \<notin> set (map grants_token ops)" and "\<not> run_holds s k t"
  shows "\<not> run_holds s' k t"
proof -
  from assms(1) have "run_inv s' \<and> \<not> run_holds s' k t"
  proof (rule steps_invariant [where I = "\<lambda>s. run_inv s \<and> \<not> run_holds s k t"])
    fix op s1 s2 assume h: "op \<in> set ops" "run_step op s1 s2" "run_inv s1 \<and> \<not> run_holds s1 k t"
    moreover have "grants_token op \<noteq> Some t" using assms(3) h(1) by force
    ultimately show "run_inv s2 \<and> \<not> run_holds s2 k t" using run_step_inv token_not_regained by blast
  qed (use assms in simp)
  then show ?thesis by simp
qed

subsection \<open>Rows over time\<close>

text \<open>A run never changes its identity, and never changes at all once it has an answer; its checkpoint is only replaced
  by a save.\<close>

definition run_later :: "bool \<Rightarrow> string \<Rightarrow> run_row \<Rightarrow> run_row \<Rightarrow> bool" where
  "run_later keep k r r' \<longleftrightarrow> rn_id r' = rn_id r \<and> run_key r' = run_key r \<and> rn_input_fingerprint r' = rn_input_fingerprint r
     \<and> (run_answered r \<longrightarrow> r' = r) \<and> (keep \<and> rn_id r = k \<longrightarrow> rn_llm_checkpoint_json r' = rn_llm_checkpoint_json r)"

lemma run_later_refl: "run_later keep k r r"
  by (simp add: run_later_def)

lemma run_later_trans: "run_later keep k a b \<Longrightarrow> run_later keep k b c \<Longrightarrow> run_later keep k a c"
  by (auto simp: run_later_def)

lemma answered_not_owned: "run_answered r \<Longrightarrow> \<not> run_owned k t r"
  by (auto simp: run_answered_def run_owned_def)

lemma run_step_later:
  assumes "run_step op s s'" and "run_inv s" and "keep \<Longrightarrow> saves_for op \<noteq> Some k"
  shows "rows_extend (run_later keep k) s s'"
proof (cases op)
  case (RunClaim now uuid token a)
  show ?thesis
  proof (cases "claim_run now uuid token a s")
    case (Inl e)
    then show ?thesis using assms(1) RunClaim by (simp add: run_step_def run_apply_def rows_extend_refl run_later_refl)
  next
    case (Inr p)
    then have "claim_run now uuid token a s = Inr (fst p, s')"
      using assms(1) RunClaim by (cases p) (simp add: run_step_def run_apply_def)
    then show ?thesis
    proof (cases rule: claim_runE)
      case (retaken r)
      have "x = r" if "x \<in> set s" "rn_id x = rn_id r" for x
        using assms(2) retaken(1) that by (auto simp: run_inv_def dest: distinct_map_eq)
      then show ?thesis unfolding retaken(6) using retaken(5)
        by (intro rows_extend_update_where run_later_refl) (auto simp: run_later_def)
    qed (simp_all add: rows_extend_append rows_extend_refl run_later_refl)
  qed
next
  case (RunFinalize now k' t' st out)
  then show ?thesis using assms(1)
    by (auto simp: run_step_def run_apply_def finalize_run_def run_later_refl rows_extend_refl run_later_def answered_not_owned
        split: option.splits simp del: final_status.simps intro!: rows_extend_update_where)
next
  case (RunSave now k' t' cp)
  then show ?thesis using assms(1,3)
    by (cases "require_json_object ''planner run checkpoint'' cp")
       (auto simp: run_step_def run_apply_def save_run_checkpoint_def run_later_refl rows_extend_refl run_later_def run_owned_def
        run_answered_def intro!: rows_extend_update_where)
qed

lemma steps_run_later:
  assumes "steps run_step ops s s'" and "run_inv s" and "keep \<Longrightarrow> Some k \<notin> set (map saves_for ops)"
  shows "rows_extend (run_later keep k) s s'"
  using assms
proof (induction rule: steps.induct)
  case (steps_Cons op s t ops u)
  have "rows_extend (run_later keep k) s t" using steps_Cons by (intro run_step_later) auto
  moreover have "rows_extend (run_later keep k) t u" using steps_Cons run_step_inv by auto
  ultimately show ?case by (rule rows_extend_trans) (rule run_later_trans)
qed (simp add: rows_extend_refl run_later_refl)


subsection \<open>Properties\<close>

definition demo_run_args :: run_args where
  "demo_run_args = \<lparr>na_tenant_id = ''t'', na_source_id = ''s'', na_trigger_event_id = ''evt_1'', na_model = ''m'',
     na_prompt_version = ''v1'', na_input_summary = None, na_input_fingerprint = ''fp'', na_stale_after_s = 10\<rparr>"

definition demo_run_row :: run_row where
  "demo_run_row = new_run_row 1 ''1'' ''tok'' demo_run_args"

lemma demo_claims:
  "claim_run 1 ''1'' ''tok'' demo_run_args [] = Inr (\<lparr>pc_id = ''ar_1'', pc_status = RunRunning, pc_acquired = True,
     pc_lease_token = Some ''tok'', pc_output = None\<rparr>, [demo_run_row])"
  "claim_run 20 ''2'' ''tok2'' demo_run_args [demo_run_row] = Inr (\<lparr>pc_id = ''ar_1'', pc_status = RunRunning, pc_acquired = True,
     pc_lease_token = Some ''tok2'', pc_output = None\<rparr>, [retake_run 20 ''tok2'' None demo_run_row])"
  by code_simp+

lemma demo_run_inv: "run_inv [demo_run_row]"
  using run_inv_claim [OF run_inv_Nil demo_claims(1)] by simp

text \<open>C12: Fencing of planner runs: once a worker has claimed a run, a former owner of it is shut out for good.  Whatever
  claims, final states and checkpoints follow, as long as no claim draws the old token again, the former owner can neither
  finalise the run nor read or write its checkpoint, and its attempts change nothing.\<close>

theorem superseded_owner_fenced:
  assumes "run_inv rows" and "claim_run now uuid token a rows = Inr (c, rows1)" and "pc_acquired c" and "old \<noteq> token"
    and "steps run_step ops rows1 rows2" and "Some old \<notin> set (map grants_token ops)"
    and "status \<in> {''completed'', ''waiting_approval'', ''failed''}"
  shows "finalize_run now' (pc_id c) old status output rows2 = Inr (False, rows2)
    \<and> load_run_checkpoint (pc_id c) old rows2 = Inl (RunCheckpointLeaseLostError ''planner run lease was lost while loading its checkpoint'')
    \<and> (\<forall>b rows3. save_run_checkpoint now' (pc_id c) old cp rows2 = Inr (b, rows3) \<longrightarrow> b = False \<and> rows3 = rows2)"
proof -
  have "\<not> run_holds rows1 (pc_id c) old" using claim_holds [OF assms(1-3)] assms(4) by simp
  then have gone: "\<not> run_holds rows2 (pc_id c) old"
    using steps_token_not_regained [OF assms(5) run_inv_claim [OF assms(1,2)] assms(6)] by blast
  have "final_status status \<noteq> None" using assms(7) by auto
  then show ?thesis using refused [OF gone] by blast
qed

lemma superseded_owner_fenced_witness:
  "finalize_run 30 ''ar_1'' ''tok'' ''completed'' (Some (JObj [])) [retake_run 20 ''tok2'' None demo_run_row]
     = Inr (False, [retake_run 20 ''tok2'' None demo_run_row])"
  using superseded_owner_fenced [OF demo_run_inv demo_claims(2), of "''tok''" "[]" "[retake_run 20 ''tok2'' None demo_run_row]"
      "''completed''" 30 "Some (JObj [])"]
  by simp

text \<open>The answer of a planner run is final: a run that was completed (or put to approval) with an output is never
  changed again by any sequence of claims, finalisations and checkpoint writes, and every later claim of the same operation with
  the same input is answered with exactly this output and without a lease, so no worker runs the model for it again.\<close>

theorem run_answer_final:
  assumes "run_inv rows" and "r \<in> set rows" and "run_answered r" and "steps run_step ops rows rows'"
    and "run_by_key a r" and "rn_input_fingerprint r = Some (na_input_fingerprint a)"
    and "claim_run now uuid token a rows' = Inr (c, rows'')"
  shows "r \<in> set rows' \<and> rows'' = rows' \<and> \<not> pc_acquired c \<and> pc_id c = rn_id r
    \<and> (\<exists>v. rn_output_json r = Some (Encoded v) \<and> pc_output c = Some v)"
proof -
  have inv: "run_inv rows'" using assms(1,4) by (simp add: steps_run_inv)
  obtain r' where "r' \<in> set rows'" "run_later False [] r r'"
    using steps_run_later [OF assms(4,1), of False "[]"] assms(2) by (auto dest: rows_extend_member)
  then have r: "r \<in> set rows'" using assms(3) by (simp add: run_later_def)
  have "fetchone (run_by_key a) rows' = Some r"
  proof (cases "fetchone (run_by_key a) rows'")
    case None
    then show ?thesis using r assms(5) by (auto simp: fetchone_None)
  next
    case (Some x)
    then have "x \<in> set rows'" "run_by_key a x" by (auto dest: fetchone_SomeD)
    then have "x = r" using inv r assms(5) unfolding run_inv_def run_key_by_key by (blast intro: unique_keyD)
    then show ?thesis using Some by simp
  qed
  then have "claim_existing_run now token a r rows' = Inr (c, rows'')"
    using assms(7) by (simp add: claim_run_def split: if_splits)
  moreover obtain v where v: "rn_output_json r = Some (Encoded v)" "is_object v" "rn_status r \<in> {RunCompleted, RunWaitingApproval}"
    using assms(3) by (auto simp: run_answered_def split: option.splits stored_json.splits)
  ultimately show ?thesis using r assms(6)
    by (auto simp: claim_existing_run_def require_idempotent_replay_def load_output_def)
qed

definition demo_answered :: run_row where
  "demo_answered = finish_run 5 RunCompleted (Some (JObj [(''llm_text'', JStr ''ok'')])) demo_run_row"

lemma demo_answered_run:
  "run_inv [demo_answered]" "run_answered demo_answered" "run_by_key demo_run_args demo_answered"
  "claim_run 100 ''2'' ''tok2'' demo_run_args [demo_answered] = Inr (\<lparr>pc_id = ''ar_1'', pc_status = RunCompleted, pc_acquired = False,
     pc_lease_token = None, pc_output = Some (JObj [(''llm_text'', JStr ''ok'')])\<rparr>, [demo_answered])"
  by code_simp+

lemma run_answer_final_witness:
  "\<exists>v. rn_output_json demo_answered = Some (Encoded v) \<and> v = JObj [(''llm_text'', JStr ''ok'')]"
  using run_answer_final [OF demo_answered_run(1) _ demo_answered_run(2) steps_Nil demo_answered_run(3) _ demo_answered_run(4)]
  by (simp add: demo_answered_def demo_run_row_def new_run_row_def finish_run_def demo_run_args_def)

lemma save_recorded:
  assumes "run_inv rows" and "save_run_checkpoint now k t cp rows = Inr (True, rows')"
  obtains r j where "r \<in> set rows'" "rn_id r = k" "rn_llm_checkpoint_json r = Some (Encoded j)" "is_object j" "cp = py_of_json j"
proof -
  obtain j where j: "require_json_object ''planner run checkpoint'' cp = Inr j"
    and rows': "rows' = update_where (run_owned k t) (put_checkpoint now j) rows" and "0 < rowcount (run_owned k t) rows"
    using assms(2) by (auto simp: save_run_checkpoint_def rbind_eq_Inr)
  then obtain r where "r \<in> set rows" "run_owned k t r" by (auto simp: rowcount_pos)
  then show thesis using j that [of "put_checkpoint now j r" j]
    by (auto simp: rows' set_update_where require_json_object_iff run_owned_def)
qed

text \<open>C15: Recovery: a checkpoint that the owner of a run saved through its journal is what the next owner loads.  After
  any operations of other workers on the table (other than saves for the same run), the worker that takes the run over gets back
  exactly the saved checkpoint, with the binding, the receipt and the turn that it needs to resume the same model thread.\<close>

theorem checkpoint_recovered:
  assumes "run_inv rows" and "valid_checkpoint cp" and "storable_receipt cp"
    and "journal_save now k old cp rows = Inr rows1" and "steps run_step ops rows1 rows2" and "Some k \<notin> set (map saves_for ops)"
    and "claim_run now' uuid token a rows2 = Inr (c, rows3)" and "pc_acquired c" and "pc_id c = k"
  shows "journal_load k token rows3 = Inr (Some cp)"
proof -
  obtain v where v: "checkpoint_to_json cp = Inr v" and save: "save_run_checkpoint now k old v rows = Inr (True, rows1)"
    and k: "cb_run_id (ec_binding cp) = k"
    using assms(4) by (auto simp: journal_save_def rbind_eq_Inr split: if_splits)
  have inv1: "run_inv rows1" using assms(1) save by (rule run_inv_save)
  obtain r j where r: "r \<in> set rows1" "rn_id r = k" "rn_llm_checkpoint_json r = Some (Encoded j)" "is_object j" "v = py_of_json j"
    using assms(1) save by (rule save_recorded)
  have "steps run_step (ops @ [RunClaim now' uuid token a]) rows1 rows3"
  proof -
    have "run_step (RunClaim now' uuid token a) rows2 rows3" using assms(7) by (simp add: run_step_def run_apply_def)
    with assms(5) show ?thesis by (induction rule: steps.induct) auto
  qed
  from steps_run_later [OF this inv1, of True k] have "rows_extend (run_later True k) rows1 rows3" using assms(6) by simp
  then obtain r' where r': "r' \<in> set rows3" "run_later True k r r'" using r(1) by (auto dest: rows_extend_member)
  have inv3: "run_inv rows3" using run_inv_claim [OF steps_run_inv [OF assms(5) inv1] assms(7)] .
  have "run_holds rows3 k token" using claim_holds [OF steps_run_inv [OF assms(5) inv1] assms(7,8)] assms(9) by simp
  then obtain x where x: "x \<in> set rows3" "run_owned k token x" by (auto simp: run_holds_iff)
  have "x = r'" using inv3 x r' r(2) by (auto simp: run_inv_def run_owned_def run_later_def dest: distinct_map_eq)
  then have own: "run_owned k token r'" using x(2) by simp
  have "fetchone (run_owned k token) rows3 = Some r'"
    using inv3 r'(1) own by (intro fetchone_pk [where k = rn_id]) (auto simp: run_inv_def run_owned_def)
  moreover have "rn_llm_checkpoint_json r' = Some (Encoded j)" using r' r by (simp add: run_later_def)
  ultimately have "load_run_checkpoint k token rows3 = Inr (Some j)"
    using r(4) by (simp add: load_run_checkpoint_def require_json_object_py)
  moreover have "checkpoint_from_json (py_of_json j) = Inr cp"
    using checkpoint_written_read [OF assms(2,3)] v r(5) by simp
  ultimately show ?thesis using k by (simp add: journal_load_def)
qed

definition demo_saved :: "run_row list" where
  "demo_saved = (case journal_save 2 ''ar_1'' ''tok'' demo_checkpoint [demo_run_row] of Inl e \<Rightarrow> [] | Inr rows \<Rightarrow> rows)"

definition demo_retaken :: "planner_run_claim \<times> run_row list" where
  "demo_retaken = (case claim_run 20 ''2'' ''tok2'' demo_run_args demo_saved of Inr p \<Rightarrow> p)"

lemma demo_recovery:
  "journal_save 2 ''ar_1'' ''tok'' demo_checkpoint [demo_run_row] = Inr demo_saved"
  "claim_run 20 ''2'' ''tok2'' demo_run_args demo_saved = Inr (fst demo_retaken, snd demo_retaken)"
  "pc_acquired (fst demo_retaken)" "pc_id (fst demo_retaken) = ''ar_1''"
  by code_simp+

lemma checkpoint_recovered_witness:
  "journal_load ''ar_1'' ''tok2'' (snd demo_retaken) = Inr (Some demo_checkpoint)"
  using checkpoint_recovered [OF demo_run_inv demo_checkpoint_ok demo_recovery(1) steps_Nil _ demo_recovery(2,3,4)] by simp

end
