(* ===== verification/Decision_Receipts.thy ===== *)
theory Decision_Receipts
  imports Checkpoints
begin

section \<open>Receipts of accepted decisions\<close>

text \<open>
  Models \<open>decisions/receipt_store.py\<close> on the table \<open>decision_dispatches\<close> (migration 026): one row per source event,
  which a worker leases while it plans, in which it records the decision that was accepted for the event, and in which
  it records the result of the dispatch.  The class \<open>SQLiteDecisionDispatchStore\<close> forwards to these functions.
\<close>

subsection \<open>Rows\<close>

datatype dispatch_status = DdPlanning | DdDispatching | DdCompleted

record receipt_row =
  dd_id :: string
  dd_tenant_id :: string
  dd_source_id :: string
  dd_trigger_event_id :: string
  dd_input_fingerprint :: string
  dd_status :: dispatch_status
  dd_lease_token :: "string option"
  dd_lease_until :: "int option"
  dd_run_id :: "string option"
  dd_model :: "string option"
  dd_prompt_version :: "string option"
  dd_decision_json :: "stored_json option"
  dd_decision_fingerprint :: "string option"
  dd_planner_result_json :: "stored_json option"
  dd_dispatch_context_json :: "stored_json option"
  dd_dispatch_target :: "string option"
  dd_effect_id :: "string option"
  dd_dispatch_result_json :: "stored_json option"
  dd_accepted_at :: "int option"
  dd_completed_at :: "int option"
  dd_created_at :: int
  dd_updated_at :: int

record dispatch_claim =
  dc_id :: string
  dc_status :: dispatch_status
  dc_acquired :: bool
  dc_lease_token :: "string option"
  dc_run_id :: "string option"
  dc_model :: "string option"
  dc_prompt_version :: "string option"
  dc_decision :: "json option"
  dc_planner_result :: "json option"
  dc_dispatch_context :: "json option"
  dc_dispatch_result :: "json option"

record receipt_args =
  da_tenant_id :: string
  da_source_id :: string
  da_trigger_event_id :: string
  da_input_fingerprint :: string
  da_stale_after_s :: int

subsection \<open>Reading a row\<close>

definition load_json_object :: "stored_json option \<Rightarrow> string \<Rightarrow> json option result" where
  "load_json_object payload label = (case payload of
     None \<Rightarrow> Inr None
   | Some (Raw t) \<Rightarrow> Inl JSONDecodeError
   | Some (Encoded v) \<Rightarrow> rbind (require_json_object (''decision dispatch '' @ label) (py_of_json v)) (\<lambda>j. Inr (Some j)))"

definition claim_from_row :: "(string \<Rightarrow> string) \<Rightarrow> receipt_row \<Rightarrow> bool \<Rightarrow> string option \<Rightarrow> dispatch_claim result" where
  "claim_from_row sha r acquired token =
     rbind (load_json_object (dd_decision_json r) ''decision'') (\<lambda>decision.
     if (case decision of None \<Rightarrow> False
         | Some d \<Rightarrow> dd_decision_fingerprint r \<noteq> Some (idempotency_fingerprint sha d))
     then Inl (ValueError (''decision dispatch fingerprint is invalid: '' @ dd_id r))
     else
       rbind (load_json_object (dd_planner_result_json r) ''planner result'') (\<lambda>planner.
       rbind (load_json_object (dd_dispatch_context_json r) ''dispatch context'') (\<lambda>context.
       rbind (load_json_object (dd_dispatch_result_json r) ''dispatch result'') (\<lambda>res.
       Inr \<lparr>dc_id = dd_id r, dc_status = dd_status r, dc_acquired = acquired, dc_lease_token = token, dc_run_id = dd_run_id r,
         dc_model = dd_model r, dc_prompt_version = dd_prompt_version r, dc_decision = decision, dc_planner_result = planner,
         dc_dispatch_context = context, dc_dispatch_result = res\<rparr>))))"

subsection \<open>Claiming\<close>

definition require_identity :: "string \<Rightarrow> string \<Rightarrow> string \<Rightarrow> unit result" where
  "require_identity tenant source event =
     (if blank tenant \<or> blank source \<or> blank event
      then Inl (ValueError ''decision dispatch tenant_id, source_id, and trigger_event_id must be non-empty'') else Inr ())"

definition new_receipt_row :: "int \<Rightarrow> string \<Rightarrow> string \<Rightarrow> receipt_args \<Rightarrow> receipt_row" where
  "new_receipt_row now uuid token a = \<lparr>dd_id = ''dd_'' @ uuid, dd_tenant_id = da_tenant_id a, dd_source_id = da_source_id a,
     dd_trigger_event_id = da_trigger_event_id a, dd_input_fingerprint = da_input_fingerprint a, dd_status = DdPlanning,
     dd_lease_token = Some token, dd_lease_until = Some (now + da_stale_after_s a), dd_run_id = None, dd_model = None,
     dd_prompt_version = None, dd_decision_json = None, dd_decision_fingerprint = None, dd_planner_result_json = None,
     dd_dispatch_context_json = None, dd_dispatch_target = None, dd_effect_id = None, dd_dispatch_result_json = None,
     dd_accepted_at = None, dd_completed_at = None, dd_created_at = now, dd_updated_at = now\<rparr>"

definition receipt_by_event :: "receipt_args \<Rightarrow> receipt_row \<Rightarrow> bool" where
  "receipt_by_event a r \<longleftrightarrow> dd_tenant_id r = da_tenant_id a \<and> dd_source_id r = da_source_id a
     \<and> dd_trigger_event_id r = da_trigger_event_id a"

text \<open>The primary key and \<open>UNIQUE(tenant_id, source_id, trigger_event_id)\<close>.\<close>

definition insert_receipt :: "receipt_row \<Rightarrow> receipt_row list \<Rightarrow> receipt_row list result" where
  "insert_receipt n rows =
     (if \<exists>r \<in> set rows. dd_id r = dd_id n \<or> (dd_tenant_id r = dd_tenant_id n \<and> dd_source_id r = dd_source_id n
        \<and> dd_trigger_event_id r = dd_trigger_event_id n)
      then Inl IntegrityError else Inr (rows @ [n]))"

definition receipt_open :: "receipt_row \<Rightarrow> bool" where
  "receipt_open r \<longleftrightarrow> dd_status r \<in> {DdPlanning, DdDispatching}"

definition lease_free :: "int \<Rightarrow> receipt_row \<Rightarrow> bool" where
  "lease_free now r \<longleftrightarrow> dd_lease_token r = None \<or> dd_lease_until r = None \<or> null_le (dd_lease_until r) now"

definition lease_receipt :: "int \<Rightarrow> int \<Rightarrow> string \<Rightarrow> receipt_row \<Rightarrow> receipt_row" where
  "lease_receipt now stale token r = r\<lparr>dd_lease_token := Some token, dd_lease_until := Some (now + stale), dd_updated_at := now\<rparr>"

definition claim_existing_receipt ::
  "(string \<Rightarrow> string) \<Rightarrow> int \<Rightarrow> string \<Rightarrow> receipt_args \<Rightarrow> receipt_row \<Rightarrow> receipt_row list \<Rightarrow> (dispatch_claim \<times> receipt_row list) result" where
  "claim_existing_receipt sha now token a r rows =
     rbind (require_idempotent_replay (dd_input_fingerprint r = da_input_fingerprint a) ''decision dispatch'' (da_trigger_event_id a) (dd_id r)) (\<lambda>_.
     if dd_status r = DdCompleted then rbind (claim_from_row sha r False None) (\<lambda>c. Inr (c, rows))
     else if dd_lease_token r \<noteq> None \<and> (case dd_lease_until r of None \<Rightarrow> 0 | Some u \<Rightarrow> u) > now
     then rbind (claim_from_row sha r False None) (\<lambda>c. Inr (c, rows))
     else
       let p = (\<lambda>x. dd_id x = dd_id r \<and> receipt_open x \<and> lease_free now x);
           rows' = update_where p (lease_receipt now (da_stale_after_s a) token) rows
       in case fetchone (\<lambda>x. dd_id x = dd_id r) rows' of
            None \<Rightarrow> Inl (RuntimeError ((if rowcount p rows = 0 then ''decision dispatch disappeared while claiming: ''
                                        else ''decision dispatch disappeared after claim: '') @ dd_id r))
          | Some current \<Rightarrow>
              if rowcount p rows = 0 then rbind (claim_from_row sha current False None) (\<lambda>c. Inr (c, rows'))
              else rbind (claim_from_row sha current True (Some token)) (\<lambda>c. Inr (c, rows')))"

definition claim_decision_dispatch ::
  "(string \<Rightarrow> string) \<Rightarrow> int \<Rightarrow> string \<Rightarrow> string \<Rightarrow> receipt_args \<Rightarrow> receipt_row list \<Rightarrow> (dispatch_claim \<times> receipt_row list) result" where
  "claim_decision_dispatch sha now uuid token a rows =
     rbind (require_identity (da_tenant_id a) (da_source_id a) (da_trigger_event_id a)) (\<lambda>_.
     if blank (da_input_fingerprint a) then Inl (ValueError ''decision dispatch input_fingerprint must be non-empty'')
     else if da_stale_after_s a < 1 then Inl (ValueError ''decision dispatch stale_after_s must be positive'')
     else case fetchone (receipt_by_event a) rows of
       None \<Rightarrow>
         rbind (insert_receipt (new_receipt_row now uuid token a) rows) (\<lambda>rows'.
         Inr (\<lparr>dc_id = ''dd_'' @ uuid, dc_status = DdPlanning, dc_acquired = True, dc_lease_token = Some token, dc_run_id = None,
               dc_model = None, dc_prompt_version = None, dc_decision = None, dc_planner_result = None,
               dc_dispatch_context = None, dc_dispatch_result = None\<rparr>, rows'))
     | Some r \<Rightarrow> claim_existing_receipt sha now token a r rows)"

subsection \<open>Accepting, completing, releasing\<close>

record accept_args =
  ca_run_id :: string
  ca_model :: string
  ca_prompt_version :: string
  ca_decision :: json
  ca_planner_result :: json
  ca_dispatch_context :: json

definition receipt_held :: "dispatch_status list \<Rightarrow> string \<Rightarrow> string \<Rightarrow> receipt_row \<Rightarrow> bool" where
  "receipt_held sts k token r \<longleftrightarrow> dd_id r = k \<and> dd_status r \<in> set sts \<and> dd_lease_token r = Some token"

definition accept_row :: "(string \<Rightarrow> string) \<Rightarrow> int \<Rightarrow> accept_args \<Rightarrow> receipt_row \<Rightarrow> receipt_row" where
  "accept_row sha now a r = r\<lparr>dd_status := DdDispatching, dd_run_id := Some (ca_run_id a), dd_model := Some (ca_model a),
     dd_prompt_version := Some (ca_prompt_version a), dd_decision_json := Some (Encoded (ca_decision a)),
     dd_decision_fingerprint := Some (idempotency_fingerprint sha (ca_decision a)),
     dd_planner_result_json := Some (Encoded (ca_planner_result a)), dd_dispatch_context_json := Some (Encoded (ca_dispatch_context a)),
     dd_accepted_at := Some now, dd_updated_at := now\<rparr>"

definition accept_decision_dispatch ::
  "(string \<Rightarrow> string) \<Rightarrow> int \<Rightarrow> string \<Rightarrow> string \<Rightarrow> accept_args \<Rightarrow> receipt_row list \<Rightarrow> (bool \<times> receipt_row list) result" where
  "accept_decision_dispatch sha now k token a rows =
     (if blank k \<or> blank token \<or> blank (ca_run_id a)
        then Inl (ValueError ''decision dispatch receipt_id, lease_token, and run_id must be non-empty'')
      else if blank (ca_model a) \<or> blank (ca_prompt_version a)
        then Inl (ValueError ''decision dispatch model and prompt_version must be non-empty'')
      else if \<not> is_object (ca_decision a) \<or> ca_decision a = JObj []
        then Inl (ValueError ''accepted decision must be a non-empty JSON object'')
      else if \<not> is_object (ca_planner_result a) \<or> \<not> is_object (ca_dispatch_context a)
        then Inl (TypeError ''planner_result and dispatch_context must be JSON objects'')
      else Inr (0 < rowcount (receipt_held [DdPlanning] k token) rows,
                update_where (receipt_held [DdPlanning] k token) (accept_row sha now a) rows))"

definition complete_row :: "int \<Rightarrow> json \<Rightarrow> receipt_row \<Rightarrow> receipt_row" where
  "complete_row now res r = r\<lparr>dd_status := DdCompleted,
     dd_dispatch_target := (case json_get res ''target'' of JNull \<Rightarrow> None | v \<Rightarrow> Some (py_str v)),
     dd_effect_id := (case json_get res ''id'' of JNull \<Rightarrow> None | v \<Rightarrow> Some (py_str v)),
     dd_dispatch_result_json := Some (Encoded res), dd_lease_token := None, dd_lease_until := None,
     dd_completed_at := Some now, dd_updated_at := now\<rparr>"

definition complete_decision_dispatch ::
  "int \<Rightarrow> string \<Rightarrow> string \<Rightarrow> json \<Rightarrow> receipt_row list \<Rightarrow> (bool \<times> receipt_row list) result" where
  "complete_decision_dispatch now k token res rows =
     (if blank k \<or> blank token then Inl (ValueError ''decision dispatch receipt_id and lease_token must be non-empty'')
      else if \<not> is_object res then Inl (TypeError ''dispatch_result must be a JSON object'')
      else if (case json_get res ''target'' of JStr t \<Rightarrow> blank t | _ \<Rightarrow> True)
        then Inl (ValueError ''dispatch_result target must be a non-empty string'')
      else if (case json_get res ''created'' of JBool b \<Rightarrow> False | _ \<Rightarrow> True) \<or> \<not> is_object (json_get res ''metadata'')
        then Inl (ValueError ''dispatch_result created and metadata fields are invalid'')
      else Inr (0 < rowcount (receipt_held [DdDispatching] k token) rows,
                update_where (receipt_held [DdDispatching] k token) (complete_row now res) rows))"

definition release_row :: "int \<Rightarrow> receipt_row \<Rightarrow> receipt_row" where
  "release_row now r = r\<lparr>dd_lease_token := None, dd_lease_until := None, dd_updated_at := now\<rparr>"

definition release_decision_dispatch ::
  "int \<Rightarrow> string \<Rightarrow> string \<Rightarrow> receipt_row list \<Rightarrow> (bool \<times> receipt_row list) result" where
  "release_decision_dispatch now k token rows =
     (if blank k \<or> blank token then Inl (ValueError ''decision dispatch receipt_id and lease_token must be non-empty'')
      else Inr (0 < rowcount (receipt_held [DdPlanning, DdDispatching] k token) rows,
                update_where (receipt_held [DdPlanning, DdDispatching] k token) (release_row now) rows))"


subsection \<open>The table and its operations\<close>

definition is_stored_object :: "stored_json option \<Rightarrow> bool" where
  "is_stored_object p \<longleftrightarrow> (case p of Some (Encoded v) \<Rightarrow> is_object v | _ \<Rightarrow> False)"

text \<open>A row has a decision, with its fingerprint, its planner result and its context, exactly when it is past planning; it has a
  result exactly when it is completed.\<close>

definition receipt_ok :: "(string \<Rightarrow> string) \<Rightarrow> receipt_row \<Rightarrow> bool" where
  "receipt_ok sha r \<longleftrightarrow>
     (if dd_status r = DdPlanning
      then dd_decision_json r = None \<and> dd_planner_result_json r = None \<and> dd_dispatch_context_json r = None
      else (\<exists>d. dd_decision_json r = Some (Encoded d) \<and> is_object d \<and> dd_decision_fingerprint r = Some (idempotency_fingerprint sha d))
        \<and> is_stored_object (dd_planner_result_json r) \<and> is_stored_object (dd_dispatch_context_json r) \<and> dd_run_id r \<noteq> None)
     \<and> (if dd_status r = DdCompleted then is_stored_object (dd_dispatch_result_json r) \<and> dd_lease_token r = None
        else dd_dispatch_result_json r = None)"

definition receipt_key :: "receipt_row \<Rightarrow> string \<times> string \<times> string" where
  "receipt_key r = (dd_tenant_id r, dd_source_id r, dd_trigger_event_id r)"

definition receipt_inv :: "(string \<Rightarrow> string) \<Rightarrow> receipt_row list \<Rightarrow> bool" where
  "receipt_inv sha rows \<longleftrightarrow> distinct (map dd_id rows) \<and> distinct (map receipt_key rows) \<and> (\<forall>r \<in> set rows. receipt_ok sha r)"

text \<open>What never changes in a row: its identity, the decision once there is one, and everything once it is completed.\<close>

definition receipt_later :: "receipt_row \<Rightarrow> receipt_row \<Rightarrow> bool" where
  "receipt_later r r' \<longleftrightarrow> dd_id r' = dd_id r \<and> receipt_key r' = receipt_key r \<and> dd_input_fingerprint r' = dd_input_fingerprint r
     \<and> (dd_status r \<noteq> DdPlanning \<longrightarrow> dd_status r' \<noteq> DdPlanning \<and> dd_decision_json r' = dd_decision_json r
         \<and> dd_run_id r' = dd_run_id r \<and> dd_planner_result_json r' = dd_planner_result_json r
         \<and> dd_dispatch_context_json r' = dd_dispatch_context_json r)
     \<and> (dd_status r = DdCompleted \<longrightarrow> r' = r)"

lemma receipt_later_refl: "receipt_later r r"
  by (simp add: receipt_later_def)

lemma receipt_later_trans: "receipt_later a b \<Longrightarrow> receipt_later b c \<Longrightarrow> receipt_later a c"
  by (auto simp: receipt_later_def)

lemma receipt_event_key: "receipt_by_event a r \<longleftrightarrow> receipt_key r = (da_tenant_id a, da_source_id a, da_trigger_event_id a)"
  by (auto simp: receipt_by_event_def receipt_key_def)

text \<open>The updates of the store, row by row.\<close>

lemma lease_receipt_row:
  assumes "receipt_ok sha r" and "receipt_open r"
  shows "receipt_ok sha (lease_receipt now st t r)" and "receipt_later r (lease_receipt now st t r)"
  using assms by (auto simp: receipt_ok_def lease_receipt_def receipt_open_def receipt_later_def receipt_key_def)

lemma release_row_row:
  assumes "receipt_ok sha r" and "receipt_open r"
  shows "receipt_ok sha (release_row now r)" and "receipt_later r (release_row now r)"
  using assms by (auto simp: receipt_ok_def release_row_def receipt_open_def receipt_later_def receipt_key_def)

lemma accept_row_row:
  assumes "receipt_ok sha r" and "dd_status r = DdPlanning" and "is_object (ca_decision a)" and "is_object (ca_planner_result a)"
    and "is_object (ca_dispatch_context a)"
  shows "receipt_ok sha (accept_row sha now a r)" and "receipt_later r (accept_row sha now a r)"
  using assms by (auto simp: receipt_ok_def accept_row_def receipt_later_def receipt_key_def is_stored_object_def)

lemma complete_row_row:
  assumes "receipt_ok sha r" and "dd_status r = DdDispatching" and "is_object res"
  shows "receipt_ok sha (complete_row now res r)" and "receipt_later r (complete_row now res r)"
  using assms by (auto simp: receipt_ok_def complete_row_def receipt_later_def receipt_key_def is_stored_object_def)

lemma receipt_update:
  assumes "receipt_inv sha rows" and "\<And>r. r \<in> set rows \<Longrightarrow> p r \<Longrightarrow> receipt_ok sha (f r) \<and> receipt_later r (f r)"
  shows "receipt_inv sha (update_where p f rows)" and "rows_extend receipt_later rows (update_where p f rows)"
proof -
  have same: "map k (update_where p f rows) = map k rows" if "\<And>r r'. receipt_later r r' \<Longrightarrow> k r' = k r" for k :: "receipt_row \<Rightarrow> 'k"
    using assms(2) that by (auto simp: update_where_def)
  have "map dd_id (update_where p f rows) = map dd_id rows" "map receipt_key (update_where p f rows) = map receipt_key rows"
    by (auto intro!: same simp: receipt_later_def)
  then show "receipt_inv sha (update_where p f rows)" using assms by (auto simp: receipt_inv_def set_update_where)
  show "rows_extend receipt_later rows (update_where p f rows)"
    using assms(2) by (intro rows_extend_update_where receipt_later_refl) simp
qed

lemma held_update:
  assumes "receipt_inv sha rows" and "rows' = update_where (receipt_held sts k t) f rows"
    and "\<And>r. receipt_ok sha r \<Longrightarrow> dd_status r \<in> set sts \<Longrightarrow> receipt_ok sha (f r) \<and> receipt_later r (f r)"
  shows "receipt_inv sha rows' \<and> rows_extend receipt_later rows rows'"
proof -
  have "receipt_ok sha (f r) \<and> receipt_later r (f r)" if "r \<in> set rows" "receipt_held sts k t r" for r
    using assms(1,3) that by (simp add: receipt_inv_def receipt_held_def)
  then show ?thesis unfolding assms(2) using receipt_update [OF assms(1)] by blast
qed

lemma accept_step:
  assumes "receipt_inv sha rows" and "accept_decision_dispatch sha now k t a rows = Inr (b, rows')"
  shows "receipt_inv sha rows' \<and> rows_extend receipt_later rows rows'"
proof (rule held_update [OF assms(1)])
  show "rows' = update_where (receipt_held [DdPlanning] k t) (accept_row sha now a) rows"
    using assms(2) by (simp add: accept_decision_dispatch_def split: if_splits)
  have "is_object (ca_decision a)" "is_object (ca_planner_result a)" "is_object (ca_dispatch_context a)"
    using assms(2) by (simp_all add: accept_decision_dispatch_def split: if_splits)
  then show "receipt_ok sha (accept_row sha now a r) \<and> receipt_later r (accept_row sha now a r)"
    if "receipt_ok sha r" "dd_status r \<in> set [DdPlanning]" for r
    using that by (simp add: accept_row_row)
qed

lemma complete_step:
  assumes "receipt_inv sha rows" and "complete_decision_dispatch now k t res rows = Inr (b, rows')"
  shows "receipt_inv sha rows' \<and> rows_extend receipt_later rows rows'"
proof (rule held_update [OF assms(1)])
  show "rows' = update_where (receipt_held [DdDispatching] k t) (complete_row now res) rows"
    using assms(2) by (simp add: complete_decision_dispatch_def split: if_splits)
  have "is_object res" using assms(2) by (simp add: complete_decision_dispatch_def split: if_splits)
  then show "receipt_ok sha (complete_row now res r) \<and> receipt_later r (complete_row now res r)"
    if "receipt_ok sha r" "dd_status r \<in> set [DdDispatching]" for r
    using that by (simp add: complete_row_row)
qed

lemma release_step:
  assumes "receipt_inv sha rows" and "release_decision_dispatch now k t rows = Inr (b, rows')"
  shows "receipt_inv sha rows' \<and> rows_extend receipt_later rows rows'"
proof (rule held_update [OF assms(1)])
  show "rows' = update_where (receipt_held [DdPlanning, DdDispatching] k t) (release_row now) rows"
    using assms(2) by (simp add: release_decision_dispatch_def split: if_splits)
  show "receipt_ok sha (release_row now r) \<and> receipt_later r (release_row now r)"
    if "receipt_ok sha r" "dd_status r \<in> set [DdPlanning, DdDispatching]" for r
    using that by (simp add: release_row_row receipt_open_def)
qed

text \<open>A row that the platform wrote is always readable.\<close>

lemma load_json_object_stored: "is_stored_object p \<Longrightarrow> \<exists>v. p = Some (Encoded v) \<and> load_json_object p l = Inr (Some v)"
  by (auto simp: is_stored_object_def load_json_object_def require_json_object_py split: option.splits stored_json.splits)

lemma claim_from_row_ok:
  assumes "receipt_ok sha r"
  obtains c where "claim_from_row sha r acquired token = Inr c" and "dc_id c = dd_id r" and "dc_status c = dd_status r"
    and "dc_acquired c = acquired" and "dc_lease_token c = token" and "dc_run_id c = dd_run_id r"
    and "map_option Encoded (dc_decision c) = dd_decision_json r"
    and "map_option Encoded (dc_planner_result c) = dd_planner_result_json r"
    and "map_option Encoded (dc_dispatch_context c) = dd_dispatch_context_json r"
    and "map_option Encoded (dc_dispatch_result c) = dd_dispatch_result_json r"
proof -
  have readable: "\<exists>v. load_json_object p l = Inr v \<and> map_option Encoded v = p" if "p = None \<or> is_stored_object p" for p l
    using that load_json_object_stored [of p l] by (auto simp: load_json_object_def)
  have "dd_decision_json r = None \<or> is_stored_object (dd_decision_json r)"
    using assms by (auto simp: receipt_ok_def is_stored_object_def split: if_splits)
  then obtain d where d: "load_json_object (dd_decision_json r) ''decision'' = Inr d" "map_option Encoded d = dd_decision_json r"
    using readable by blast
  have fp: "\<not> (case d of None \<Rightarrow> False | Some d' \<Rightarrow> dd_decision_fingerprint r \<noteq> Some (idempotency_fingerprint sha d'))"
    using assms d(2) by (auto simp: receipt_ok_def split: option.splits if_splits)
  obtain pr cx rs where "load_json_object (dd_planner_result_json r) ''planner result'' = Inr pr" "map_option Encoded pr = dd_planner_result_json r"
    "load_json_object (dd_dispatch_context_json r) ''dispatch context'' = Inr cx" "map_option Encoded cx = dd_dispatch_context_json r"
    "load_json_object (dd_dispatch_result_json r) ''dispatch result'' = Inr rs" "map_option Encoded rs = dd_dispatch_result_json r"
    using assms readable [of "dd_planner_result_json r"] readable [of "dd_dispatch_context_json r"] readable [of "dd_dispatch_result_json r"]
    unfolding receipt_ok_def by (metis (full_types))
  then show thesis using d fp by (intro that) (auto simp: claim_from_row_def)
qed


text \<open>What a claim tells about the row it was read from.\<close>

definition claim_reads :: "dispatch_claim \<Rightarrow> receipt_row \<Rightarrow> bool" where
  "claim_reads c r \<longleftrightarrow> dc_id c = dd_id r \<and> dc_status c = dd_status r \<and> dc_run_id c = dd_run_id r
     \<and> map_option Encoded (dc_decision c) = dd_decision_json r
     \<and> map_option Encoded (dc_planner_result c) = dd_planner_result_json r
     \<and> map_option Encoded (dc_dispatch_context c) = dd_dispatch_context_json r
     \<and> map_option Encoded (dc_dispatch_result c) = dd_dispatch_result_json r"

lemma claim_from_row_reads:
  assumes "receipt_ok sha r" and "claim_from_row sha r acquired token = Inr c"
  shows "claim_reads c r \<and> dc_acquired c = acquired \<and> dc_lease_token c = token"
  using claim_from_row_ok [OF assms(1), of acquired token] assms(2) unfolding claim_reads_def by (metis sum.inject(2))

lemma receipt_inv_insert:
  assumes "receipt_inv sha rows" and "insert_receipt (new_receipt_row now uuid t a) rows = Inr rows'"
  shows "receipt_inv sha rows' \<and> rows' = rows @ [new_receipt_row now uuid t a]"
proof -
  let ?n = "new_receipt_row now uuid t a"
  have "dd_id r \<noteq> dd_id ?n" "receipt_key r \<noteq> receipt_key ?n" if "r \<in> set rows" for r
    using assms(2) that by (auto simp: insert_receipt_def receipt_key_def split: if_splits)
  then have "distinct (map dd_id (rows @ [?n]))" "distinct (map receipt_key (rows @ [?n]))"
    using assms(1) by (auto simp: receipt_inv_def) metis+
  moreover have "receipt_ok sha ?n" by (simp add: receipt_ok_def new_receipt_row_def)
  moreover have "rows' = rows @ [?n]" using assms(2) by (simp add: insert_receipt_def split: if_splits)
  ultimately show ?thesis using assms(1) by (simp add: receipt_inv_def)
qed

lemma claim_existing_step:
  assumes "receipt_inv sha rows" and "r \<in> set rows" and "claim_existing_receipt sha now token a r rows = Inr (c, rows')"
  shows "receipt_inv sha rows' \<and> rows_extend receipt_later rows rows' \<and> (\<exists>r' \<in> set rows'. dd_id r' = dd_id r \<and> claim_reads c r'
    \<and> (dc_acquired c \<longrightarrow> dc_lease_token c = Some token \<and> receipt_open r'))"
proof -
  let ?p = "\<lambda>x. dd_id x = dd_id r \<and> receipt_open x \<and> lease_free now x"
  let ?rows = "update_where ?p (lease_receipt now (da_stale_after_s a) token) rows"
  have ok: "receipt_ok sha r" using assms(1,2) by (simp add: receipt_inv_def)
  have "receipt_ok sha (lease_receipt now (da_stale_after_s a) token x) \<and> receipt_later x (lease_receipt now (da_stale_after_s a) token x)"
    if "x \<in> set rows" "?p x" for x
    using assms(1) that lease_receipt_row [of sha x] by (simp add: receipt_inv_def)
  then have upd: "receipt_inv sha ?rows" "rows_extend receipt_later rows ?rows"
    by (blast intro: receipt_update [OF assms(1)])+
  consider (kept) "rows' = rows" "claim_from_row sha r False None = Inr c"
    | (leased) x where "rows' = ?rows" "fetchone (\<lambda>x. dd_id x = dd_id r) ?rows = Some x"
        "claim_from_row sha x False None = Inr c \<or> (0 < rowcount ?p rows \<and> claim_from_row sha x True (Some token) = Inr c)"
    using assms(3) by (auto simp: claim_existing_receipt_def Let_def rbind_eq_Inr split: if_splits option.splits)
  then show ?thesis
  proof cases
    case kept
    then have "claim_reads c r \<and> \<not> dc_acquired c" using claim_from_row_reads [OF ok] by blast
    then show ?thesis using kept assms(1,2) by (auto simp: rows_extend_refl receipt_later_refl)
  next
    case (leased x)
    have x: "x \<in> set ?rows" "dd_id x = dd_id r" using leased(2) by (auto dest: fetchone_SomeD)
    then have okx: "receipt_ok sha x" using upd(1) by (simp add: receipt_inv_def)
    have reads: "claim_reads c x" using leased(3) claim_from_row_reads [OF okx] by blast
    have "dc_lease_token c = Some token \<and> receipt_open x" if "dc_acquired c"
    proof -
      have rc: "0 < rowcount ?p rows" and tok: "dc_lease_token c = Some token"
        using leased(3) claim_from_row_reads [OF okx, of False None c] claim_from_row_reads [OF okx, of True "Some token" c] that by auto
      obtain y where y: "y \<in> set rows" "?p y" using rc by (auto simp: rowcount_pos)
      then have y': "lease_receipt now (da_stale_after_s a) token y \<in> set ?rows" by (auto simp: set_update_where)
      have eq: "dd_id x = dd_id (lease_receipt now (da_stale_after_s a) token y)" using y x(2) by (simp add: lease_receipt_def)
      have "distinct (map dd_id ?rows)" using upd(1) by (simp only: receipt_inv_def)
      then have "x = lease_receipt now (da_stale_after_s a) token y" using x(1) y' eq by (rule distinct_map_eq)
      then show ?thesis using y(2) tok by (simp add: receipt_open_def lease_receipt_def)
    qed
    then show ?thesis using leased(1) upd x reads by blast
  qed
qed

lemma claim_step:
  assumes "receipt_inv sha rows" and "claim_decision_dispatch sha now uuid token a rows = Inr (c, rows')"
  shows "receipt_inv sha rows' \<and> rows_extend receipt_later rows rows' \<and> (\<exists>r \<in> set rows'. receipt_by_event a r \<and> claim_reads c r
    \<and> (dc_acquired c \<longrightarrow> dc_lease_token c = Some token \<and> receipt_open r))"
proof (cases "fetchone (receipt_by_event a) rows")
  case None
  let ?n = "new_receipt_row now uuid token a"
  have ins: "insert_receipt ?n rows = Inr rows'"
    and c: "claim_reads c ?n" "dc_lease_token c = Some token"
    using assms(2) None by (auto simp: claim_decision_dispatch_def rbind_eq_Inr claim_reads_def new_receipt_row_def split: if_splits)
  have "receipt_inv sha rows'" "rows' = rows @ [?n]" using receipt_inv_insert [OF assms(1) ins] by blast+
  moreover have "receipt_by_event a ?n" "receipt_open ?n" by (simp_all add: receipt_by_event_def new_receipt_row_def receipt_open_def)
  ultimately show ?thesis using c by (auto simp: rows_extend_append receipt_later_refl)
next
  case (Some r)
  then have r: "r \<in> set rows" "receipt_by_event a r" by (auto dest: fetchone_SomeD)
  have ex: "claim_existing_receipt sha now token a r rows = Inr (c, rows')"
    using assms(2) Some by (auto simp: claim_decision_dispatch_def rbind_eq_Inr split: if_splits)
  from claim_existing_step [OF assms(1) r(1) ex] obtain r' where
    inv: "receipt_inv sha rows'" and later: "rows_extend receipt_later rows rows'" and r': "r' \<in> set rows'" "dd_id r' = dd_id r"
    and c: "claim_reads c r'" "dc_acquired c \<longrightarrow> dc_lease_token c = Some token \<and> receipt_open r'" by blast
  have "receipt_later r r'"
    using rows_extend_pair [OF later, of dd_id r r'] inv r r' by (simp add: receipt_inv_def receipt_later_def)
  then have "receipt_by_event a r'" using r(2) by (simp add: receipt_event_key receipt_later_def)
  then show ?thesis using inv later r' c by blast
qed


subsection \<open>Properties\<close>

datatype receipt_op =
    ReceiptClaim int string string receipt_args
  | ReceiptAccept int string string accept_args
  | ReceiptComplete int string string json
  | ReceiptRelease int string string

definition receipt_apply :: "(string \<Rightarrow> string) \<Rightarrow> receipt_op \<Rightarrow> receipt_row list \<Rightarrow> receipt_row list" where
  "receipt_apply sha op rows = (case op of
     ReceiptClaim now uuid token a \<Rightarrow> (case claim_decision_dispatch sha now uuid token a rows of Inl e \<Rightarrow> rows | Inr (c, rows') \<Rightarrow> rows')
   | ReceiptAccept now k token a \<Rightarrow> (case accept_decision_dispatch sha now k token a rows of Inl e \<Rightarrow> rows | Inr (b, rows') \<Rightarrow> rows')
   | ReceiptComplete now k token res \<Rightarrow> (case complete_decision_dispatch now k token res rows of Inl e \<Rightarrow> rows | Inr (b, rows') \<Rightarrow> rows')
   | ReceiptRelease now k token \<Rightarrow> (case release_decision_dispatch now k token rows of Inl e \<Rightarrow> rows | Inr (b, rows') \<Rightarrow> rows'))"

definition receipt_step :: "(string \<Rightarrow> string) \<Rightarrow> receipt_op \<Rightarrow> receipt_row list \<Rightarrow> receipt_row list \<Rightarrow> bool" where
  "receipt_step sha op s t \<longleftrightarrow> t = receipt_apply sha op s"

lemma receipt_step_ok:
  assumes "receipt_step sha op s t" and "receipt_inv sha s"
  shows "receipt_inv sha t \<and> rows_extend receipt_later s t"
proof -
  note refl = rows_extend_refl [where Q = receipt_later, OF receipt_later_refl]
  show ?thesis
  proof (cases op)
    case (ReceiptClaim now uuid token a)
    then show ?thesis using assms claim_step [OF assms(2), of now uuid token a]
      by (cases "claim_decision_dispatch sha now uuid token a s") (auto simp: receipt_step_def receipt_apply_def refl)
  next
    case (ReceiptAccept now k token a)
    then show ?thesis using assms accept_step [OF assms(2), of now k token a]
      by (cases "accept_decision_dispatch sha now k token a s") (auto simp: receipt_step_def receipt_apply_def refl)
  next
    case (ReceiptComplete now k token res)
    then show ?thesis using assms complete_step [OF assms(2), of now k token res]
      by (cases "complete_decision_dispatch now k token res s") (auto simp: receipt_step_def receipt_apply_def refl)
  next
    case (ReceiptRelease now k token)
    then show ?thesis using assms release_step [OF assms(2), of now k token]
      by (cases "release_decision_dispatch now k token s") (auto simp: receipt_step_def receipt_apply_def refl)
  qed
qed

lemma steps_receipt_ok:
  assumes "steps (receipt_step sha) ops s t" and "receipt_inv sha s"
  shows "receipt_inv sha t \<and> rows_extend receipt_later s t"
  using assms
proof (induction rule: steps.induct)
  case (steps_Nil s)
  then show ?case by (simp add: rows_extend_refl receipt_later_refl)
next
  case (steps_Cons op s t ops u)
  then have "receipt_inv sha t" "rows_extend receipt_later s t" using receipt_step_ok by blast+
  moreover have "receipt_inv sha u" "rows_extend receipt_later t u" using steps_Cons calculation by blast+
  ultimately show ?case using rows_extend_trans receipt_later_trans by blast
qed

lemma accept_recorded:
  assumes "accept_decision_dispatch sha now k t a rows = Inr (True, rows')"
  obtains r where "r \<in> set rows'" "dd_id r = k" "dd_status r = DdDispatching" "dd_decision_json r = Some (Encoded (ca_decision a))"
proof -
  have rows': "rows' = update_where (receipt_held [DdPlanning] k t) (accept_row sha now a) rows"
    and "0 < rowcount (receipt_held [DdPlanning] k t) rows"
    using assms by (auto simp: accept_decision_dispatch_def split: if_splits)
  then obtain x where "x \<in> set rows" "receipt_held [DdPlanning] k t x" by (auto simp: rowcount_pos)
  then show thesis using that [of "accept_row sha now a x"]
    by (auto simp: rows' set_update_where accept_row_def receipt_held_def)
qed

lemma accept_refused:
  assumes "receipt_inv sha rows" and "r \<in> set rows" and "dd_status r \<noteq> DdPlanning"
    and "accept_decision_dispatch sha now (dd_id r) t a rows = Inr (b, rows')"
  shows "\<not> b \<and> rows' = rows"
proof -
  have no: "\<not> receipt_held [DdPlanning] (dd_id r) t x" if "x \<in> set rows" for x
  proof
    assume h: "receipt_held [DdPlanning] (dd_id r) t x"
    then have "x = r" using assms(1,2) that by (auto simp: receipt_inv_def receipt_held_def dest: distinct_map_eq)
    then show False using h assms(3) by (simp add: receipt_held_def)
  qed
  then have "rowcount (receipt_held [DdPlanning] (dd_id r) t) rows = 0" by (simp add: rowcount_eq_0)
  then show ?thesis using assms(4) no by (auto simp: accept_decision_dispatch_def update_where_id split: if_splits)
qed

definition demo_receipt_args :: receipt_args where
  "demo_receipt_args = \<lparr>da_tenant_id = ''t'', da_source_id = ''s'', da_trigger_event_id = ''evt_1'', da_input_fingerprint = ''fp'',
     da_stale_after_s = 10\<rparr>"

definition demo_accept :: accept_args where
  "demo_accept = \<lparr>ca_run_id = ''ar_1'', ca_model = ''m'', ca_prompt_version = ''v1'', ca_decision = JObj [(''kind'', JStr ''reply'')],
     ca_planner_result = JObj [], ca_dispatch_context = JObj []\<rparr>"

definition demo_planning :: receipt_row where
  "demo_planning = new_receipt_row 1 ''1'' ''tok'' demo_receipt_args"

definition demo_accepted :: receipt_row where
  "demo_accepted = accept_row (\<lambda>x. x) 2 demo_accept demo_planning"

definition demo_reclaim :: "dispatch_claim \<times> receipt_row list" where
  "demo_reclaim = (case claim_decision_dispatch (\<lambda>x. x) 20 ''2'' ''tok2'' demo_receipt_args [demo_accepted] of Inr p \<Rightarrow> p)"

lemma demo_receipts:
  "receipt_inv (\<lambda>x. x) [demo_planning]"
  "accept_decision_dispatch (\<lambda>x. x) 2 ''dd_1'' ''tok'' demo_accept [demo_planning] = Inr (True, [demo_accepted])"
  "claim_decision_dispatch (\<lambda>x. x) 20 ''2'' ''tok2'' demo_receipt_args [demo_accepted] = Inr (fst demo_reclaim, snd demo_reclaim)"
  "dc_id (fst demo_reclaim) = ''dd_1''"
  by (simp add: receipt_inv_def receipt_ok_def demo_planning_def new_receipt_row_def) code_simp+

text \<open>One accepted decision per source event: after a decision was accepted for a receipt, whatever claims, acceptances,
  completions and releases follow, every worker that claims the event is told exactly this decision and never sent back to planning,
  and every further acceptance for the receipt is refused and changes nothing.\<close>

theorem accepted_decision_final:
  assumes "receipt_inv sha rows" and "accept_decision_dispatch sha now k t a rows = Inr (True, rows1)"
    and "steps (receipt_step sha) ops rows1 rows2"
    and "claim_decision_dispatch sha now' uuid token e rows2 = Inr (c, rows3)" and "dc_id c = k"
  shows "dc_decision c = Some (ca_decision a) \<and> dc_status c \<noteq> DdPlanning
    \<and> (\<forall>now'' t' a' b rows4. accept_decision_dispatch sha now'' k t' a' rows3 = Inr (b, rows4) \<longrightarrow> \<not> b \<and> rows4 = rows3)"
proof -
  have s1: "receipt_inv sha rows1" using accept_step [OF assms(1,2)] by blast
  have s2: "receipt_inv sha rows2" "rows_extend receipt_later rows1 rows2" using steps_receipt_ok [OF assms(3) s1] by blast+
  obtain r3 where s3: "receipt_inv sha rows3" "rows_extend receipt_later rows2 rows3" and r3: "r3 \<in> set rows3" "claim_reads c r3"
    using claim_step [OF s2(1) assms(4)] by blast
  obtain r where r: "r \<in> set rows1" "dd_id r = k" "dd_status r = DdDispatching" "dd_decision_json r = Some (Encoded (ca_decision a))"
    using assms(2) by (rule accept_recorded)
  have ext: "rows_extend receipt_later rows1 rows3" using s2(2) s3(2) receipt_later_trans rows_extend_trans by blast
  have "receipt_later r r3"
    using rows_extend_pair [OF ext, of dd_id r r3] s3(1) r r3 assms(5) by (simp add: receipt_inv_def receipt_later_def claim_reads_def)
  then have r3': "dd_status r3 \<noteq> DdPlanning" "dd_decision_json r3 = Some (Encoded (ca_decision a))" "dd_id r3 = k"
    using r by (simp_all add: receipt_later_def)
  have "dc_decision c = Some (ca_decision a)" "dc_status c \<noteq> DdPlanning" using r3(2) r3' by (auto simp: claim_reads_def)
  then show ?thesis using accept_refused [OF s3(1) r3(1) r3'(1)] r3'(3) by blast
qed

lemma accepted_decision_final_witness:
  "dc_decision (fst demo_reclaim) = Some (JObj [(''kind'', JStr ''reply'')]) \<and> dc_status (fst demo_reclaim) \<noteq> DdPlanning"
  using accepted_decision_final [OF demo_receipts(1,2) steps_Nil demo_receipts(3,4)] by (simp add: demo_accept_def)

end
