(* ===== verification/Planner.thy ===== *)
theory Planner
  imports Model_Boundary Planner_Runs Decision_Receipts Async_Programs
begin

section \<open>Planner turns\<close>

text \<open>
  Models \<open>runtime/planner.py\<close>: one planner turn (claim the run, route, build the context, ask the model, parse the decision,
  finalise the run) and one dispatch turn (claim the receipt of the event, plan, accept the decision, dispatch it, complete
  the receipt), with every error branch, as programs of atomic store calls.  With it come the contexts and results of
  \<open>decisions/dispatcher.py\<close> and the request and response of \<open>llm/contracts.py\<close>.

  Parameters are the session router, the context builder, the prompt builder, the model backend, the decision parser and the
  dispatcher.  The backend is a process that may use the journal of the run (\<open>llm_process\<close>).  The stores are the SQLite ones;
  the optional ports of \<open>run_planner_turn\<close> are given, and the latency log is not modelled.
\<close>

subsection \<open>Decisions\<close>

text \<open>A pydantic decision is given by its \<open>model_dump\<close>, a plain one by its kind and payload; an object of any other class by the
  name of the class.\<close>

datatype decision = PydanticDecision pyval | PlainDecision string json | OtherDecision string

text \<open>\<open>{**d, k: v}\<close>: the key keeps its place if it is already there.\<close>

fun fields_put :: "(string \<times> json) list \<Rightarrow> string \<Rightarrow> json \<Rightarrow> (string \<times> json) list" where
  "fields_put [] k v = [(k, v)]"
| "fields_put ((l, w) # fs) k v = (if l = k then (k, v) # fs else (l, w) # fields_put fs k v)"

definition fields_of :: "json \<Rightarrow> (string \<times> json) list" where
  "fields_of j = (case j of JObj fs \<Rightarrow> fs | _ \<Rightarrow> [])"

definition merge_fields :: "json \<Rightarrow> (string \<times> json) list \<Rightarrow> json" where
  "merge_fields j kvs = JObj (foldl (\<lambda>fs (k, v). fields_put fs k v) (fields_of j) kvs)"

definition serialize_decision :: "decision \<Rightarrow> json result" where
  "serialize_decision d = (case d of
     PydanticDecision dump \<Rightarrow> require_json_object ''decision'' dump
   | PlainDecision kind payload \<Rightarrow> Inr (merge_fields payload [(''kind'', JStr kind)])
   | OtherDecision cls \<Rightarrow> Inl (TypeError (''decision type has no serializable payload: '' @ cls)))"

text \<open>\<open>json.dumps(value, ensure_ascii=False, separators=(",", ":"))\<close>, in the order of insertion.\<close>

fun dumps :: "json \<Rightarrow> string" and dumps_items :: "json list \<Rightarrow> string list"
  and dumps_fields :: "(string \<times> json) list \<Rightarrow> string list"
where
  "dumps JNull = ''null''"
| "dumps (JBool b) = (if b then ''true'' else ''false'')"
| "dumps (JInt i) = int_text i"
| "dumps (JFloat q t) = t"
| "dumps (JStr s) = quote s"
| "dumps (JArr js) = ''['' @ join '','' (dumps_items js) @ '']''"
| "dumps (JObj kvs) = ''{'' @ join '','' (dumps_fields kvs) @ ''}''"
| "dumps_items [] = []"
| "dumps_items (j # js) = dumps j # dumps_items js"
| "dumps_fields [] = []"
| "dumps_fields ((k, v) # kvs) = (quote k @ '':'' @ dumps v) # dumps_fields kvs"

subsection \<open>Results and contexts\<close>

record planner_result =
  pr_run_id :: string
  pr_decision :: decision
  pr_llm_text :: string
  pr_session_metadata :: json
  pr_context :: planner_context

record dispatch_context =
  dx_tenant_id :: string
  dx_source_id :: string
  dx_run_id :: string
  dx_source_event_id :: string
  dx_actor_id :: "string option"
  dx_metadata :: json

record dispatch_extras =
  de_actor_id :: "string option"
  de_metadata :: json

record dispatch_result =
  ds_target :: string
  ds_id :: "string option"
  ds_created :: bool
  ds_status :: "string option"
  ds_metadata :: json

definition DispatchContext :: "dispatch_context \<Rightarrow> dispatch_context result" where
  "DispatchContext x =
     (if blank (dx_tenant_id x) \<or> blank (dx_source_id x) \<or> blank (dx_run_id x) \<or> blank (dx_source_event_id x)
      then Inl (ValueError ''dispatch context identity fields must be non-empty'')
      else rbind (require_json_object ''dispatch context metadata'' (py_of_json (dx_metadata x))) (\<lambda>_. Inr x))"

definition DispatchContextExtras :: "dispatch_extras \<Rightarrow> dispatch_extras result" where
  "DispatchContextExtras x =
     (if given_blank (de_actor_id x) then Inl (ValueError ''dispatch actor_id must be non-empty when provided'')
      else rbind (require_json_object ''dispatch context extras metadata'' (py_of_json (de_metadata x))) (\<lambda>_. Inr x))"

definition DispatchResult :: "dispatch_result \<Rightarrow> dispatch_result result" where
  "DispatchResult x = rbind (require_json_object ''dispatch result metadata'' (py_of_json (ds_metadata x))) (\<lambda>_. Inr x)"

subsection \<open>The event\<close>

definition event_source_id :: "agent_event \<Rightarrow> string result" where
  "event_source_id e = (case json_get (ae_payload e) ''source_id'' of
     JStr s \<Rightarrow> if blank s then Inl (ValueError ''planner event must contain a non-empty string source_id'') else Inr (strip s)
   | _ \<Rightarrow> Inl (ValueError ''planner event must contain a non-empty string source_id''))"

definition event_text :: "agent_event \<Rightarrow> string" where
  "event_text e = (let v = json_get (ae_payload e) ''text'' in if truthy v then py_str v else [])"

definition input_summary :: "agent_event \<Rightarrow> string" where
  "input_summary e = (if event_text e \<noteq> [] then prefix_chars 500 (event_text e) else ae_message_type e)"

definition input_fingerprint :: "(string \<Rightarrow> string) \<Rightarrow> agent_event \<Rightarrow> string" where
  "input_fingerprint sha e = idempotency_fingerprint sha (JObj [(''id'', JStr (ae_id e)), (''tenant_id'', JStr (ae_tenant_id e)),
     (''recipient'', JStr (ae_recipient e)), (''message_type'', JStr (ae_message_type e)), (''payload'', ae_payload e),
     (''correlation_id'', opt_str (ae_correlation_id e)), (''causation_id'', opt_str (ae_causation_id e))])"

record route_request =
  rq_tenant_id :: string
  rq_source_id :: string
  rq_text :: string
  rq_user_id :: "string option"
  rq_metadata :: json

definition route_request_of :: "agent_event \<Rightarrow> string \<Rightarrow> route_request" where
  "route_request_of e source = \<lparr>rq_tenant_id = ae_tenant_id e, rq_source_id = source, rq_text = event_text e,
     rq_user_id = (case json_get (ae_payload e) ''user_id'' of JNull \<Rightarrow> None | v \<Rightarrow> Some (py_str v)),
     rq_metadata = JObj [(''event_id'', JStr (ae_id e)), (''message_type'', JStr (ae_message_type e)), (''payload'', ae_payload e)]\<rparr>"

definition dispatch_context_of :: "agent_event \<Rightarrow> planner_result \<Rightarrow> dispatch_extras option \<Rightarrow> dispatch_context result" where
  "dispatch_context_of e planner extras =
     rbind (event_source_id e) (\<lambda>source.
     let user = json_get (ae_payload e) ''user_id'';
         given = (case extras of None \<Rightarrow> None | Some x \<Rightarrow> de_actor_id x);
         actor = (if given = None \<and> user \<noteq> JNull then Some (py_str user) else given)
     in DispatchContext \<lparr>dx_tenant_id = ae_tenant_id e, dx_source_id = source, dx_run_id = pr_run_id planner,
          dx_source_event_id = ae_id e, dx_actor_id = actor,
          dx_metadata = merge_fields (case extras of None \<Rightarrow> JObj [] | Some x \<Rightarrow> de_metadata x)
            [(''session_routing'', pr_session_metadata planner), (''planner_context'', context_to_dict (pr_context planner))]\<rparr>)"

subsection \<open>Serialized forms\<close>

definition serialize_planner_result :: "planner_result \<Rightarrow> json" where
  "serialize_planner_result p = JObj [(''run_id'', JStr (pr_run_id p)), (''llm_text'', JStr (pr_llm_text p)),
     (''session_metadata'', pr_session_metadata p), (''context'', context_to_dict (pr_context p))]"

definition serialize_dispatch_context :: "dispatch_context \<Rightarrow> json" where
  "serialize_dispatch_context x = JObj [(''tenant_id'', JStr (dx_tenant_id x)), (''source_id'', JStr (dx_source_id x)),
     (''run_id'', JStr (dx_run_id x)), (''source_event_id'', JStr (dx_source_event_id x)), (''actor_id'', opt_str (dx_actor_id x)),
     (''metadata'', dx_metadata x)]"

definition serialize_dispatch_result :: "dispatch_result \<Rightarrow> json" where
  "serialize_dispatch_result x = JObj [(''target'', JStr (ds_target x)), (''id'', opt_str (ds_id x)), (''created'', JBool (ds_created x)),
     (''status'', opt_str (ds_status x)), (''metadata'', ds_metadata x)]"

subsection \<open>Restoring\<close>

definition required_json_object :: "json \<Rightarrow> string \<Rightarrow> json result" where
  "required_json_object data key = (let v = json_get data key in
     if is_object v then Inr v else Inl (ValueError (''planner context '' @ key @ '' must be a JSON object'')))"

definition optional_json_object :: "json \<Rightarrow> string \<Rightarrow> json result" where
  "optional_json_object data key = (let v = json_get data key in
     if v = JNull \<or> is_object v then Inr v else Inl (ValueError (''planner context '' @ key @ '' must be a JSON object or null'')))"

fun check_objects :: "string \<Rightarrow> nat \<Rightarrow> json list \<Rightarrow> unit result" where
  "check_objects key i [] = Inr ()"
| "check_objects key i (v # vs) =
     rbind (require_json_object (''planner context '' @ key @ ''['' @ nat_text i @ '']'') (py_of_json v)) (\<lambda>_. check_objects key (Suc i) vs)"

definition json_object_list :: "json \<Rightarrow> string \<Rightarrow> json result" where
  "json_object_list data key = (case json_get data key of
     JArr vs \<Rightarrow> rbind (check_objects key 0 vs) (\<lambda>_. Inr (JArr vs))
   | _ \<Rightarrow> Inl (ValueError (''planner context '' @ key @ '' must be a JSON object list'')))"

definition restore_planner_context :: "json \<Rightarrow> planner_context result" where
  "restore_planner_context data =
     rbind (required_json_object data ''trigger'') (\<lambda>trigger.
     rbind (required_json_object data ''session_routing'') (\<lambda>routing.
     rbind (optional_json_object data ''batch'') (\<lambda>batch.
     rbind (json_object_list data ''sessions'') (\<lambda>sessions.
     rbind (json_object_list data ''mailbox'') (\<lambda>mailbox.
     rbind (json_object_list data ''actions'') (\<lambda>actions.
     rbind (json_object_list data ''outbound'') (\<lambda>outbound.
     rbind (json_object_list data ''cron'') (\<lambda>cron.
     Inr \<lparr>px_trigger = trigger, px_session_routing = routing, px_batch = batch, px_sessions = sessions, px_mailbox = mailbox,
       px_actions = actions, px_outbound = outbound, px_cron = cron\<rparr>))))))))"

definition restore_planner_result :: "(string \<Rightarrow> decision result) \<Rightarrow> string \<Rightarrow> json \<Rightarrow> planner_result result" where
  "restore_planner_result parse run_id output = (case json_get output ''llm_text'' of
     JStr llm_text \<Rightarrow>
       if \<not> is_object (json_get output ''planner_context'')
       then Inl (ValueError (''durable planner output is incomplete for run: '' @ run_id))
       else
         rbind (restore_planner_context (json_get output ''planner_context'')) (\<lambda>context.
         rbind (parse llm_text) (\<lambda>d.
         let routing = json_get output ''session_routing'' in
         Inr \<lparr>pr_run_id = run_id, pr_decision = d, pr_llm_text = llm_text,
           pr_session_metadata = (if is_object routing then routing else px_session_routing context), pr_context = context\<rparr>))
   | _ \<Rightarrow> Inl (ValueError (''durable planner output is incomplete for run: '' @ run_id)))"

definition restore_receipt_planner_result :: "(string \<Rightarrow> decision result) \<Rightarrow> dispatch_claim \<Rightarrow> planner_result result" where
  "restore_receipt_planner_result parse c = (case (dc_run_id c, dc_decision c, dc_planner_result c) of
     (Some run_id, Some d, Some p) \<Rightarrow>
       (case json_get p ''llm_text'' of
          JStr llm_text \<Rightarrow>
            if \<not> is_object (json_get p ''context'') then Inl (ValueError (''accepted planner result is incomplete: '' @ dc_id c))
            else if \<not> is_object (json_get p ''session_metadata'')
              then Inl (ValueError (''accepted planner session metadata is invalid: '' @ dc_id c))
            else if json_get p ''run_id'' \<noteq> JStr run_id then Inl (ValueError (''accepted planner run id is inconsistent: '' @ dc_id c))
            else
              rbind (parse (dumps d)) (\<lambda>decision.
              rbind (restore_planner_context (json_get p ''context'')) (\<lambda>context.
              Inr \<lparr>pr_run_id = run_id, pr_decision = decision, pr_llm_text = llm_text,
                pr_session_metadata = json_get p ''session_metadata'', pr_context = context\<rparr>))
        | _ \<Rightarrow> Inl (ValueError (''accepted planner result is incomplete: '' @ dc_id c)))
   | _ \<Rightarrow> Inl (ValueError (''accepted decision dispatch is incomplete: '' @ dc_id c)))"

definition optional_text :: "json \<Rightarrow> string option" where
  "optional_text v = (if v = JNull then None else Some (py_str v))"

definition restore_dispatch_context :: "dispatch_claim \<Rightarrow> dispatch_context result" where
  "restore_dispatch_context c = (case dc_dispatch_context c of
     Some data \<Rightarrow>
       if \<not> is_object data then Inl (ValueError (''accepted decision dispatch context is missing: '' @ dc_id c))
       else if \<not> is_object (json_get data ''metadata'') then Inl (ValueError (''accepted decision dispatch metadata is invalid: '' @ dc_id c))
       else (case (json_get data ''tenant_id'', json_get data ''source_id'', json_get data ''run_id'', json_get data ''source_event_id'') of
          (JStr tenant, JStr source, JStr run_id, JStr event) \<Rightarrow>
            DispatchContext \<lparr>dx_tenant_id = tenant, dx_source_id = source, dx_run_id = run_id, dx_source_event_id = event,
              dx_actor_id = optional_text (json_get data ''actor_id''), dx_metadata = json_get data ''metadata''\<rparr>
        | _ \<Rightarrow> Inl (ValueError (''accepted decision dispatch scope is invalid: '' @ dc_id c)))
   | None \<Rightarrow> Inl (ValueError (''accepted decision dispatch context is missing: '' @ dc_id c)))"

definition restore_dispatch_result :: "dispatch_claim \<Rightarrow> dispatch_result result" where
  "restore_dispatch_result c = (case dc_dispatch_result c of
     Some data \<Rightarrow>
       if \<not> is_object data then Inl (ValueError (''completed decision dispatch result is missing: '' @ dc_id c))
       else (case json_get data ''target'' of
          JStr target \<Rightarrow>
            if \<not> is_object (json_get data ''metadata'') then Inl (ValueError (''completed decision dispatch result is invalid: '' @ dc_id c))
            else (case json_get data ''created'' of
               JBool created \<Rightarrow> DispatchResult \<lparr>ds_target = target, ds_id = optional_text (json_get data ''id''), ds_created = created,
                 ds_status = optional_text (json_get data ''status''), ds_metadata = json_get data ''metadata''\<rparr>
             | _ \<Rightarrow> Inl (ValueError (''completed decision dispatch created flag is invalid: '' @ dc_id c)))
        | _ \<Rightarrow> Inl (ValueError (''completed decision dispatch result is invalid: '' @ dc_id c)))
   | None \<Rightarrow> Inl (ValueError (''completed decision dispatch result is missing: '' @ dc_id c)))"

record planner_dispatch_result =
  pd_planner :: planner_result
  pd_dispatch :: dispatch_result

definition restore_completed_dispatch :: "(string \<Rightarrow> decision result) \<Rightarrow> dispatch_claim \<Rightarrow> planner_dispatch_result result" where
  "restore_completed_dispatch parse c =
     rbind (restore_receipt_planner_result parse c) (\<lambda>p. rbind (restore_dispatch_result c) (\<lambda>d.
     Inr \<lparr>pd_planner = p, pd_dispatch = d\<rparr>))"

definition validate_dispatch_context :: "agent_event \<Rightarrow> string \<Rightarrow> string \<Rightarrow> dispatch_context \<Rightarrow> unit result" where
  "validate_dispatch_context e source run_id x =
     (if dx_tenant_id x \<noteq> ae_tenant_id e \<or> dx_source_id x \<noteq> source \<or> dx_source_event_id x \<noteq> ae_id e \<or> dx_run_id x \<noteq> run_id
      then Inl (ValueError ''decision dispatch context must match the source event and planner run'') else Inr ())"

fun exception_payload :: "py_error \<Rightarrow> (string \<times> json) list" where
  "exception_payload e =
     [(''error_type'', JStr (error_name e)), (''error'', JStr (error_text e))]
     @ (case e of ExceptionGroup m es \<Rightarrow> [(''errors'', JArr (map (\<lambda>x. JObj (exception_payload x)) es))] | _ \<Rightarrow> [])"


subsection \<open>The shared state\<close>

text \<open>The two tables, the clock, and the calls of the dispatcher so far.\<close>

record planner_world =
  pw_clock :: int
  pw_runs :: "run_row list"
  pw_receipts :: "receipt_row list"
  pw_dispatches :: "(dispatch_context \<times> decision) list"

type_synonym 'a planner_prog = "(planner_world, 'a) prog"

definition of_result :: "'a result \<Rightarrow> 'a planner_prog" where
  "of_result r = (case r of Inl e \<Rightarrow> Raise e | Inr x \<Rightarrow> Return x)"

definition runs_call :: "(planner_world \<Rightarrow> run_row list \<Rightarrow> ('a \<times> run_row list) result) \<Rightarrow> 'a planner_prog" where
  "runs_call f = call_result (\<lambda>s. rbind (f s (pw_runs s)) (\<lambda>(x, rows). Inr (x, s\<lparr>pw_runs := rows\<rparr>)))"

definition receipts_call :: "(planner_world \<Rightarrow> receipt_row list \<Rightarrow> ('a \<times> receipt_row list) result) \<Rightarrow> 'a planner_prog" where
  "receipts_call f = call_result (\<lambda>s. rbind (f s (pw_receipts s)) (\<lambda>(x, rows). Inr (x, s\<lparr>pw_receipts := rows\<rparr>)))"

text \<open>A call that leaves the two tables to others (a port outside the planner).\<close>

definition port_call :: "(planner_world \<Rightarrow> 'a result) \<Rightarrow> 'a planner_prog" where
  "port_call f = call_result (\<lambda>s. rbind (f s) (\<lambda>x. Inr (x, s)))"

subsection \<open>Requests to the model\<close>

record llm_request =
  lq_prompt :: string
  lq_system_prompt :: string
  lq_cwd :: string
  lq_env_home :: string
  lq_model :: string
  lq_conversation_scope :: conversation_scope
  lq_timeout_s :: int
  lq_total_timeout_s :: json
  lq_idle_timeout_s :: json
  lq_output_schema :: "json option"
  lq_execution_context :: "tool_execution_context option"
  lq_dynamic_tool_allowlist :: "tool_selector list option"
  lq_metadata :: json

record llm_response =
  lp_text :: string
  lp_session_id :: string
  lp_cost_usd :: json
  lp_duration_ms :: json
  lp_input_tokens :: json
  lp_output_tokens :: json
  lp_metadata :: json

text \<open>A backend at work: it reads and writes the journal of the run, does something outside (and sees the outcome), and ends with a
  response or an exception.\<close>

datatype llm_process =
    LlmEnd "llm_response result"
  | LlmOutside "planner_world \<Rightarrow> llm_process"
  | LlmLoad "execution_checkpoint option result \<Rightarrow> llm_process"
  | LlmSave execution_checkpoint "unit result \<Rightarrow> llm_process"

primrec run_llm :: "string \<Rightarrow> string \<Rightarrow> llm_process \<Rightarrow> llm_response planner_prog" where
  "run_llm k token (LlmEnd r) = of_result r"
| "run_llm k token (LlmOutside c) = Await (\<lambda>s. s) (\<lambda>s. run_llm k token (c s))"
| "run_llm k token (LlmLoad c) = Await (\<lambda>s. s) (\<lambda>s. run_llm k token (c (journal_load k token (pw_runs s))))"
| "run_llm k token (LlmSave cp c) =
     Await (\<lambda>s. case journal_save (pw_clock s) k token cp (pw_runs s) of Inl e \<Rightarrow> s | Inr rows \<Rightarrow> s\<lparr>pw_runs := rows\<rparr>)
           (\<lambda>s. run_llm k token (c (rbind (journal_save (pw_clock s) k token cp (pw_runs s)) (\<lambda>_. Inr ()))))"

text \<open>The configuration of a turn and the ports.\<close>

record planner_config =
  pf_model :: string
  pf_prompt_version :: string
  pf_cwd :: string
  pf_env_home :: string
  pf_timeout_s :: int
  pf_metadata :: json
  pf_model_redaction_policy :: redaction_policy
  pf_output_schema :: "json option"
  pf_execution_context :: "tool_execution_context option"
  pf_dynamic_tool_allowlist :: "tool_selector list option"
  pf_total_timeout_s :: json
  pf_idle_timeout_s :: json

record 'r planner_ports =
  pt_route :: "planner_world \<Rightarrow> route_request \<Rightarrow> 'r result"
  pt_build :: "planner_world \<Rightarrow> agent_event \<Rightarrow> 'r \<Rightarrow> planner_context result"
  pt_build_prompt :: "agent_event \<Rightarrow> json \<Rightarrow> planner_context \<Rightarrow> string result"
  pt_build_system_prompt :: "agent_event \<Rightarrow> json \<Rightarrow> planner_context \<Rightarrow> string result"
  pt_llm :: "llm_request \<Rightarrow> llm_process"
  pt_parse :: "string \<Rightarrow> decision result"
  pt_dispatch :: "planner_world \<Rightarrow> decision \<Rightarrow> dispatch_context \<Rightarrow> dispatch_result result"
  pt_token :: "planner_world \<Rightarrow> string"
  pt_uuid :: "planner_world \<Rightarrow> string"

definition build_llm_request ::
  "'r planner_ports \<Rightarrow> planner_config \<Rightarrow> agent_event \<Rightarrow> string \<Rightarrow> planner_context \<Rightarrow> llm_request result" where
  "build_llm_request p cfg e source context =
     (let policy = pf_model_redaction_policy cfg;
          model_event = redact_agent_event_for_model policy e;
          model_context = redact_planner_context_for_model policy context;
          routing = px_session_routing model_context
      in
      rbind (pt_build_prompt p model_event routing model_context) (\<lambda>prompt.
      rbind (pt_build_system_prompt p model_event routing model_context) (\<lambda>system_prompt.
      rbind (ConversationScope (ae_tenant_id e) source) (\<lambda>scope.
      rbind (require_json_object ''redacted planner metadata'' (py_of_json (redact_value_for_model policy (pf_metadata cfg)))) (\<lambda>metadata.
      Inr \<lparr>lq_prompt = prompt, lq_system_prompt = system_prompt, lq_cwd = pf_cwd cfg, lq_env_home = pf_env_home cfg,
        lq_model = pf_model cfg, lq_conversation_scope = scope, lq_timeout_s = pf_timeout_s cfg,
        lq_total_timeout_s = pf_total_timeout_s cfg, lq_idle_timeout_s = pf_idle_timeout_s cfg,
        lq_output_schema = pf_output_schema cfg, lq_execution_context = pf_execution_context cfg,
        lq_dynamic_tool_allowlist = pf_dynamic_tool_allowlist cfg,
        lq_metadata = merge_fields metadata [(''trigger_event_id'', JStr (ae_id e)), (''trigger_message_type'', JStr (ae_message_type e)),
          (''session_routing'', routing), (''planner_context'', context_to_dict model_context)]\<rparr>)))))"

subsection \<open>One planner turn\<close>

definition stale_after :: "planner_config \<Rightarrow> int" where
  "stale_after cfg = max (pf_timeout_s cfg + 30) 60"

definition run_args_of :: "(string \<Rightarrow> string) \<Rightarrow> planner_config \<Rightarrow> agent_event \<Rightarrow> string \<Rightarrow> run_args" where
  "run_args_of sha cfg e source = \<lparr>na_tenant_id = ae_tenant_id e, na_source_id = source, na_trigger_event_id = ae_id e,
     na_model = pf_model cfg, na_prompt_version = pf_prompt_version cfg, na_input_summary = Some (input_summary e),
     na_input_fingerprint = input_fingerprint sha e, na_stale_after_s = stale_after cfg\<rparr>"

definition finalize :: "string \<Rightarrow> string \<Rightarrow> string \<Rightarrow> json \<Rightarrow> unit planner_prog" where
  "finalize run_id token status output =
     bind (runs_call (\<lambda>s. finalize_run (pw_clock s) run_id token status (Some output))) (\<lambda>finalized.
     if finalized then Return () else Raise (PlannerRunLeaseLostError (''planner run lease was lost: '' @ run_id)))"

definition fail_turn :: "string \<Rightarrow> string \<Rightarrow> json \<Rightarrow> json \<Rightarrow> py_error \<Rightarrow> 'a planner_prog" where
  "fail_turn run_id token routing context e =
     (case e of PlannerRunLeaseLostError m \<Rightarrow> Raise e
      | _ \<Rightarrow> bind (catch (finalize run_id token ''failed''
                     (JObj (exception_payload e @ [(''session_routing'', routing), (''planner_context'', context)])))
                   (\<lambda>fe. Raise (ExceptionGroup ''planner turn failed and its failed state could not be persisted'' [e, fe])))
                 (\<lambda>_. Raise e))"

definition turn_output :: "json \<Rightarrow> llm_response \<Rightarrow> planner_context \<Rightarrow> json" where
  "turn_output decision r context = JObj [(''decision'', decision), (''llm_text'', JStr (lp_text r)),
     (''llm'', JObj [(''session_id'', JStr (lp_session_id r)), (''cost_usd'', lp_cost_usd r), (''duration_ms'', lp_duration_ms r),
        (''input_tokens'', lp_input_tokens r), (''output_tokens'', lp_output_tokens r), (''metadata'', lp_metadata r)]),
     (''session_routing'', px_session_routing context), (''planner_context'', context_to_dict context)]"

definition ask_model ::
  "'r planner_ports \<Rightarrow> planner_config \<Rightarrow> agent_event \<Rightarrow> string \<Rightarrow> string \<Rightarrow> string \<Rightarrow> planner_context \<Rightarrow> planner_result planner_prog" where
  "ask_model p cfg e source run_id token context =
     bind (of_result (build_llm_request p cfg e source context)) (\<lambda>request.
     bind (run_llm run_id token (pt_llm p request)) (\<lambda>response.
     bind (of_result (pt_parse p (lp_text response))) (\<lambda>d.
     bind (of_result (serialize_decision d)) (\<lambda>j.
     bind (finalize run_id token ''completed'' (turn_output j response context)) (\<lambda>_.
     Return \<lparr>pr_run_id = run_id, pr_decision = d, pr_llm_text = lp_text response,
       pr_session_metadata = px_session_routing context, pr_context = context\<rparr>)))))"

definition gather_context ::
  "'r planner_ports \<Rightarrow> agent_event \<Rightarrow> string \<Rightarrow> planner_context planner_prog" where
  "gather_context p e source =
     bind (port_call (\<lambda>s. pt_route p s (route_request_of e source))) (\<lambda>route. port_call (\<lambda>s. pt_build p s e route))"

definition run_planner_turn ::
  "(string \<Rightarrow> string) \<Rightarrow> 'r planner_ports \<Rightarrow> planner_config \<Rightarrow> agent_event \<Rightarrow> planner_result planner_prog" where
  "run_planner_turn sha p cfg e =
     bind (of_result (event_source_id e)) (\<lambda>source.
     bind (runs_call (\<lambda>s. claim_run (pw_clock s) (pt_uuid p s) (pt_token p s) (run_args_of sha cfg e source))) (\<lambda>run.
     if \<not> pc_acquired run
     then (case pc_output run of
             Some output \<Rightarrow> of_result (restore_planner_result (pt_parse p) (pc_id run) output)
           | None \<Rightarrow> Raise (PlannerRunInProgressError (''planner run is already active: '' @ pc_id run)))
     else case pc_lease_token run of
       None \<Rightarrow> Raise (RuntimeError (''acquired planner run has no lease token: '' @ pc_id run))
     | Some token \<Rightarrow>
         bind (catch (gather_context p e source) (fail_turn (pc_id run) token (JObj []) JNull)) (\<lambda>context.
         catch (ask_model p cfg e source (pc_id run) token context)
               (fail_turn (pc_id run) token (px_session_routing context) (context_to_dict context)))))"

subsection \<open>One dispatch turn\<close>

definition dispatch_call :: "'r planner_ports \<Rightarrow> decision \<Rightarrow> dispatch_context \<Rightarrow> dispatch_result planner_prog" where
  "dispatch_call p d x = Await (\<lambda>s. s\<lparr>pw_dispatches := pw_dispatches s @ [(x, d)]\<rparr>) (\<lambda>s. of_result (pt_dispatch p s d x))"

definition receipt_args_of :: "(string \<Rightarrow> string) \<Rightarrow> planner_config \<Rightarrow> agent_event \<Rightarrow> string \<Rightarrow> receipt_args" where
  "receipt_args_of sha cfg e source = \<lparr>da_tenant_id = ae_tenant_id e, da_source_id = source, da_trigger_event_id = ae_id e,
     da_input_fingerprint = input_fingerprint sha e, da_stale_after_s = stale_after cfg\<rparr>"

definition plan_and_accept ::
  "(string \<Rightarrow> string) \<Rightarrow> 'r planner_ports \<Rightarrow> planner_config \<Rightarrow> agent_event \<Rightarrow> dispatch_extras option \<Rightarrow> string \<Rightarrow> string
    \<Rightarrow> (planner_result \<times> dispatch_context) planner_prog" where
  "plan_and_accept sha p cfg e extras k token =
     bind (run_planner_turn sha p cfg e) (\<lambda>planner.
     bind (of_result (dispatch_context_of e planner extras)) (\<lambda>context.
     bind (of_result (serialize_decision (pr_decision planner))) (\<lambda>j.
     bind (receipts_call (\<lambda>s. accept_decision_dispatch sha (pw_clock s) k token \<lparr>ca_run_id = pr_run_id planner, ca_model = pf_model cfg,
             ca_prompt_version = pf_prompt_version cfg, ca_decision = j, ca_planner_result = serialize_planner_result planner,
             ca_dispatch_context = serialize_dispatch_context context\<rparr>)) (\<lambda>accepted.
     if accepted then Return (planner, context)
     else Raise (DecisionDispatchLeaseLostError (''decision dispatch lease was lost before acceptance: '' @ k))))))"

definition restore_accepted ::
  "'r planner_ports \<Rightarrow> agent_event \<Rightarrow> string \<Rightarrow> dispatch_claim \<Rightarrow> (planner_result \<times> dispatch_context) result" where
  "restore_accepted p e source c =
     rbind (restore_receipt_planner_result (pt_parse p) c) (\<lambda>planner.
     rbind (restore_dispatch_context c) (\<lambda>context.
     rbind (validate_dispatch_context e source (pr_run_id planner) context) (\<lambda>_. Inr (planner, context))))"

definition dispatch_and_complete ::
  "'r planner_ports \<Rightarrow> string \<Rightarrow> string \<Rightarrow> planner_result \<times> dispatch_context \<Rightarrow> planner_dispatch_result planner_prog" where
  "dispatch_and_complete p k token pc =
     bind (dispatch_call p (pr_decision (fst pc)) (snd pc)) (\<lambda>d.
     bind (receipts_call (\<lambda>s. complete_decision_dispatch (pw_clock s) k token (serialize_dispatch_result d))) (\<lambda>completed.
     if completed then Return \<lparr>pd_planner = fst pc, pd_dispatch = d\<rparr>
     else Raise (DecisionDispatchLeaseLostError (''decision dispatch lease was lost after effect dispatch: '' @ k))))"

definition release_after :: "string \<Rightarrow> string \<Rightarrow> py_error \<Rightarrow> 'a planner_prog" where
  "release_after k token e = (case e of
     DecisionDispatchLeaseLostError m \<Rightarrow> Raise e
   | _ \<Rightarrow> bind (catch (receipts_call (\<lambda>s. release_decision_dispatch (pw_clock s) k token))
                (\<lambda>re. Raise (ExceptionGroup ''decision dispatch failed and its lease could not be released'' [e, re]))) (\<lambda>released.
          if released then Raise e
          else Raise (ExceptionGroup ''decision dispatch failed after losing its lease''
                 [e, DecisionDispatchLeaseLostError (''decision dispatch lease was lost while handling failure: '' @ k)])))"

definition dispatch_claimed ::
  "(string \<Rightarrow> string) \<Rightarrow> 'r planner_ports \<Rightarrow> planner_config \<Rightarrow> agent_event \<Rightarrow> dispatch_extras option \<Rightarrow> string \<Rightarrow> dispatch_claim
    \<Rightarrow> planner_dispatch_result planner_prog" where
  "dispatch_claimed sha p cfg e extras source c =
     (if \<not> dc_acquired c
      then if dc_status c = DdCompleted then of_result (restore_completed_dispatch (pt_parse p) c)
           else Raise (DecisionDispatchInProgressError (''decision dispatch is already active: '' @ dc_id c))
      else case dc_lease_token c of
        None \<Rightarrow> Raise (RuntimeError (''acquired decision dispatch has no lease token: '' @ dc_id c))
      | Some token \<Rightarrow>
          catch (bind (case dc_status c of
                         DdPlanning \<Rightarrow> plan_and_accept sha p cfg e extras (dc_id c) token
                       | DdDispatching \<Rightarrow> of_result (restore_accepted p e source c)
                       | DdCompleted \<Rightarrow> Raise (ValueError (''acquired decision dispatch has unsupported status=''
                           @ repr_str ''completed'' @ '': '' @ dc_id c)))
                      (dispatch_and_complete p (dc_id c) token))
                (release_after (dc_id c) token))"

definition run_unreceipted_dispatch_turn ::
  "(string \<Rightarrow> string) \<Rightarrow> 'r planner_ports \<Rightarrow> planner_config \<Rightarrow> agent_event \<Rightarrow> dispatch_extras option \<Rightarrow> planner_dispatch_result planner_prog" where
  "run_unreceipted_dispatch_turn sha p cfg e extras =
     bind (run_planner_turn sha p cfg e) (\<lambda>planner.
     bind (of_result (dispatch_context_of e planner extras)) (\<lambda>context.
     bind (dispatch_call p (pr_decision planner) context) (\<lambda>d. Return \<lparr>pd_planner = planner, pd_dispatch = d\<rparr>)))"

text \<open>Whether receipts are used depends on the flag, on a given receipt store and on a given connection.\<close>

definition run_planner_dispatch_turn ::
  "(string \<Rightarrow> string) \<Rightarrow> 'r planner_ports \<Rightarrow> planner_config \<Rightarrow> bool option \<Rightarrow> bool \<Rightarrow> bool \<Rightarrow> dispatch_extras option \<Rightarrow> agent_event
    \<Rightarrow> planner_dispatch_result planner_prog" where
  "run_planner_dispatch_turn sha p cfg enabled has_store has_conn extras e =
     bind (of_result (event_source_id e)) (\<lambda>source.
     let receipts_enabled = (case enabled of None \<Rightarrow> has_store \<or> has_conn | Some b \<Rightarrow> b) in
     if receipts_enabled \<and> \<not> has_store \<and> \<not> has_conn
     then Raise (ValueError ''decision dispatch receipts require a DecisionDispatchStore'')
     else if \<not> receipts_enabled then run_unreceipted_dispatch_turn sha p cfg e extras
     else bind (receipts_call (\<lambda>s. claim_decision_dispatch sha (pw_clock s) (pt_uuid p s) (pt_token p s) (receipt_args_of sha cfg e source)))
            (dispatch_claimed sha p cfg e extras source))"

end
