(* ===== verification/Planner_Safety.thy ===== *)
theory Planner_Safety
  imports Planner Effect_Pool
begin

section \<open>One decision per event\<close>

text \<open>
  Any number of workers run dispatch turns for any events, interleaved at every store call and every call of a port, crashing
  anywhere, with leases that expire.  The theory shows that all calls of the dispatcher for one event pass the one decision that was
  accepted for it, and that an event whose dispatch is completed is never dispatched again.
\<close>

subsection \<open>Steps that dispatch nothing\<close>

definition receipts_grow :: "(string \<Rightarrow> string) \<Rightarrow> planner_world \<Rightarrow> planner_world \<Rightarrow> bool" where
  "receipts_grow sha s t \<longleftrightarrow> receipt_inv sha (pw_receipts t) \<and> rows_extend receipt_later (pw_receipts s) (pw_receipts t)"

definition calm_step :: "(string \<Rightarrow> string) \<Rightarrow> planner_world \<Rightarrow> planner_world \<Rightarrow> bool" where
  "calm_step sha s t \<longleftrightarrow> receipts_grow sha s t \<and> pw_dispatches t = pw_dispatches s"

definition calm_prog :: "(string \<Rightarrow> string) \<Rightarrow> 'a planner_prog \<Rightarrow> bool" where
  "calm_prog sha p \<longleftrightarrow> conforms (\<lambda>_ s. receipt_inv sha (pw_receipts s)) (\<lambda>_ s t _. calm_step sha s t) p ()"

lemma calm_prog_simps [simp]:
  "calm_prog sha (Return x)" "calm_prog sha (Raise e)"
  "calm_prog sha (Await f k) \<longleftrightarrow> (\<forall>s. receipt_inv sha (pw_receipts s) \<longrightarrow> calm_step sha s (f s) \<and> calm_prog sha (k s))"
  by (simp_all add: calm_prog_def)

lemma calm_prog_bind: "calm_prog sha p \<Longrightarrow> (\<And>x. calm_prog sha (c x)) \<Longrightarrow> calm_prog sha (bind p c)"
  by (induction p) auto

lemma calm_prog_catch: "calm_prog sha p \<Longrightarrow> (\<And>e. calm_prog sha (h e)) \<Longrightarrow> calm_prog sha (catch p h)"
  by (induction p) auto

lemma calm_prog_of_result [simp]: "calm_prog sha (of_result r)"
  by (simp add: of_result_def split: sum.split)

lemma receipts_grow_refl: "receipt_inv sha (pw_receipts s) \<Longrightarrow> pw_receipts t = pw_receipts s \<Longrightarrow> receipts_grow sha s t"
  by (simp add: receipts_grow_def rows_extend_refl receipt_later_refl)

lemma calm_runs_call [simp]: "calm_prog sha (runs_call f)"
  by (auto simp: runs_call_def call_result_def calm_step_def receipts_grow_refl rbind_def split: sum.split)

lemma calm_port_call [simp]: "calm_prog sha (port_call f)"
  by (auto simp: port_call_def call_result_def calm_step_def receipts_grow_refl rbind_def split: sum.split)

lemma calm_receipts_call:
  assumes "\<And>s x rows. receipt_inv sha (pw_receipts s) \<Longrightarrow> f s (pw_receipts s) = Inr (x, rows)
      \<Longrightarrow> receipt_inv sha rows \<and> rows_extend receipt_later (pw_receipts s) rows"
  shows "calm_prog sha (receipts_call f)"
  using assms
  by (auto simp: receipts_call_def call_result_def calm_step_def rbind_def receipts_grow_def rows_extend_refl receipt_later_refl
      split: sum.split)

lemma calm_run_llm: "calm_prog sha (run_llm k token q)"
  by (induction q) (auto simp: calm_step_def receipts_grow_refl split: sum.split)

lemma calm_finalize: "calm_prog sha (finalize k t st out)"
  unfolding finalize_def by (intro calm_prog_bind calm_runs_call) simp

lemma calm_fail_turn: "calm_prog sha (fail_turn k t r c e)"
  unfolding fail_turn_def by (auto split: py_error.split intro!: calm_prog_bind calm_prog_catch calm_finalize)

lemma calm_run_planner_turn: "calm_prog sha (run_planner_turn sha' p cfg e)"
  unfolding run_planner_turn_def gather_context_def ask_model_def
  by (intro calm_prog_bind calm_prog_of_result calm_runs_call)
     (auto split: option.split intro!: calm_prog_bind calm_prog_catch calm_finalize calm_fail_turn calm_run_llm)

lemma calm_complete: "calm_prog sha (receipts_call (\<lambda>s. complete_decision_dispatch (pw_clock s) k t (r s)))"
  by (intro calm_receipts_call) (rule complete_step)

lemma calm_release_after: "calm_prog sha (release_after k t e)"
  unfolding release_after_def
  by (auto split: py_error.split intro!: calm_prog_bind calm_prog_catch calm_receipts_call dest: release_step)

subsection \<open>Modes of a worker\<close>

definition dispatch_key :: "dispatch_context \<Rightarrow> string \<times> string \<times> string" where
  "dispatch_key x = (dx_tenant_id x, dx_source_id x, dx_source_event_id x)"

text \<open>The decision that a worker holds is the accepted one: it was serialised into the row, or it was parsed from the row.\<close>

definition agrees :: "(string \<Rightarrow> decision result) \<Rightarrow> json \<Rightarrow> decision \<Rightarrow> bool" where
  "agrees parse j d \<longleftrightarrow> serialize_decision d = Inr j \<or> parse (dumps j) = Inr d"

definition accepted_for :: "(string \<Rightarrow> decision result) \<Rightarrow> receipt_row list \<Rightarrow> string \<times> string \<times> string \<Rightarrow> decision \<Rightarrow> bool" where
  "accepted_for parse rows key d \<longleftrightarrow> (\<exists>r \<in> set rows. receipt_key r = key \<and> dd_status r \<noteq> DdPlanning
     \<and> (\<exists>j. dd_decision_json r = Some (Encoded j) \<and> agrees parse j d))"

datatype turn_mode = Idle | Planning string "string \<times> string \<times> string" | Armed "string \<times> string \<times> string" decision

definition mode_ok :: "(string \<Rightarrow> decision result) \<Rightarrow> turn_mode \<Rightarrow> receipt_row list \<Rightarrow> bool" where
  "mode_ok parse m rows = (case m of
     Idle \<Rightarrow> True
   | Planning k key \<Rightarrow> (\<exists>r \<in> set rows. dd_id r = k \<and> receipt_key r = key)
   | Armed key d \<Rightarrow> accepted_for parse rows key d)"

lemma accepted_for_later:
  assumes "accepted_for parse rows key d" and "rows_extend receipt_later rows rows'"
  shows "accepted_for parse rows' key d"
proof -
  obtain r j where r: "r \<in> set rows" "receipt_key r = key" "dd_status r \<noteq> DdPlanning" "dd_decision_json r = Some (Encoded j)"
    "agrees parse j d" using assms(1) by (auto simp: accepted_for_def)
  obtain r' where "r' \<in> set rows'" "receipt_later r r'" using assms(2) r(1) by (auto dest: rows_extend_member)
  then show ?thesis using r unfolding accepted_for_def by (auto simp: receipt_later_def)
qed

lemma mode_ok_later: "mode_ok parse m rows \<Longrightarrow> rows_extend receipt_later rows rows' \<Longrightarrow> mode_ok parse m rows'"
  by (cases m) (auto simp: mode_ok_def accepted_for_later receipt_later_def dest!: rows_extend_member)

definition turn_rely :: "(string \<Rightarrow> string) \<Rightarrow> (string \<Rightarrow> decision result) \<Rightarrow> turn_mode \<Rightarrow> planner_world \<Rightarrow> bool" where
  "turn_rely sha parse m s \<longleftrightarrow> receipt_inv sha (pw_receipts s) \<and> mode_ok parse m (pw_receipts s)"

definition turn_guar ::
  "(string \<Rightarrow> string) \<Rightarrow> (string \<Rightarrow> decision result) \<Rightarrow> turn_mode \<Rightarrow> planner_world \<Rightarrow> planner_world \<Rightarrow> turn_mode \<Rightarrow> bool" where
  "turn_guar sha parse m s t n \<longleftrightarrow> receipts_grow sha s t \<and> mode_ok parse n (pw_receipts t)
     \<and> (pw_dispatches t = pw_dispatches s
        \<or> (\<exists>x d. m = Armed (dispatch_key x) d \<and> pw_dispatches t = pw_dispatches s @ [(x, d)]))"

abbreviation turn_ok :: "(string \<Rightarrow> string) \<Rightarrow> (string \<Rightarrow> decision result) \<Rightarrow> 'a planner_prog \<Rightarrow> turn_mode \<Rightarrow> bool" where
  "turn_ok sha parse \<equiv> conforms (turn_rely sha parse) (turn_guar sha parse)"

lemma calm_guar: "turn_rely sha parse m s \<Longrightarrow> calm_step sha s t \<Longrightarrow> turn_guar sha parse m s t m"
  by (auto simp: turn_rely_def turn_guar_def calm_step_def receipts_grow_def intro: mode_ok_later)

lemma calm_turn_ok: "calm_prog sha p \<Longrightarrow> turn_ok sha parse p m"
proof (induction p)
  case (Await f k)
  show ?case unfolding conforms.simps
  proof (intro allI impI exI conjI)
    fix s assume "turn_rely sha parse m s"
    moreover from this have "receipt_inv sha (pw_receipts s)" by (simp add: turn_rely_def)
    ultimately show "turn_guar sha parse m s (f s) m" "turn_ok sha parse (k s) m"
      using Await by (auto intro: calm_guar)
  qed
qed simp_all

lemma calm_bind_turn_ok: "calm_prog sha p \<Longrightarrow> (\<And>x. turn_ok sha parse (c x) m) \<Longrightarrow> turn_ok sha parse (bind p c) m"
proof (induction p)
  case (Await f k)
  show ?case unfolding bind.simps conforms.simps
  proof (intro allI impI exI conjI)
    fix s assume "turn_rely sha parse m s"
    moreover from this have "receipt_inv sha (pw_receipts s)" by (simp add: turn_rely_def)
    ultimately show "turn_guar sha parse m s (f s) m" "turn_ok sha parse (bind (k s) c) m"
      using Await by (auto intro: calm_guar)
  qed
qed simp_all

lemma turn_ok_catch: "turn_ok sha parse p m \<Longrightarrow> (\<And>e. calm_prog sha (h e)) \<Longrightarrow> turn_ok sha parse (catch p h) m"
proof (induction p arbitrary: m)
  case (Await f k)
  have "\<exists>n. turn_guar sha parse m s (f s) n \<and> turn_ok sha parse (catch (k s) h) n" if r: "turn_rely sha parse m s" for s
  proof -
    obtain n where "turn_guar sha parse m s (f s) n" "turn_ok sha parse (k s) n" using Await.prems(1) r by auto
    then show ?thesis using Await.IH [of "k s" n] Await.prems(2) by blast
  qed
  then show ?case by simp
qed (auto intro: calm_turn_ok)

lemma turn_ok_bind_calm: "turn_ok sha parse p m \<Longrightarrow> (\<And>x. calm_prog sha (c x)) \<Longrightarrow> turn_ok sha parse (bind p c) m"
proof (induction p arbitrary: m)
  case (Await f k)
  have "\<exists>n. turn_guar sha parse m s (f s) n \<and> turn_ok sha parse (bind (k s) c) n" if r: "turn_rely sha parse m s" for s
  proof -
    obtain n where "turn_guar sha parse m s (f s) n" "turn_ok sha parse (k s) n" using Await.prems(1) r by auto
    then show ?thesis using Await.IH [of "k s" n] Await.prems(2) by blast
  qed
  then show ?case by simp
qed (auto intro: calm_turn_ok)


subsection \<open>A dispatch turn\<close>

lemma dispatch_context_of_key:
  assumes "dispatch_context_of e planner extras = Inr x" and "event_source_id e = Inr source"
  shows "dispatch_key x = (ae_tenant_id e, source, ae_id e)"
  using assms by (auto simp: dispatch_context_of_def Let_def DispatchContext_def rbind_eq_Inr dispatch_key_def split: if_splits)

lemma turn_ok_dispatch:
  "turn_ok sha parse (dispatch_and_complete p k token (planner, x)) (Armed (dispatch_key x) (pr_decision planner))"
proof -
  let ?m = "Armed (dispatch_key x) (pr_decision planner)"
  let ?rest = "\<lambda>d. bind (receipts_call (\<lambda>s. complete_decision_dispatch (pw_clock s) k token (serialize_dispatch_result d))) (\<lambda>completed.
      if completed then Return \<lparr>pd_planner = planner, pd_dispatch = d\<rparr>
      else Raise (DecisionDispatchLeaseLostError (''decision dispatch lease was lost after effect dispatch: '' @ k)))"
  have rest: "calm_prog sha (?rest d)" for d by (intro calm_prog_bind calm_complete) simp
  have log: "turn_guar sha parse ?m s (s\<lparr>pw_dispatches := pw_dispatches s @ [(x, pr_decision planner)]\<rparr>) ?m"
    if "turn_rely sha parse ?m s" for s
    using that by (auto simp: turn_guar_def turn_rely_def receipts_grow_refl)
  have "turn_ok sha parse (bind (of_result r) ?rest) ?m" for r
    using calm_turn_ok [OF rest] by (cases r) (simp_all add: of_result_def)
  then show ?thesis using log unfolding dispatch_and_complete_def dispatch_call_def fst_conv snd_conv bind.simps conforms.simps by blast
qed

lemma accepted_row:
  assumes "receipt_inv sha rows" and "mode_ok parse (Planning k key) rows" and "serialize_decision d = Inr (ca_decision a)"
    and "accept_decision_dispatch sha now k t a rows = Inr (True, rows')"
  shows "accepted_for parse rows' key d"
proof -
  obtain r0 where r0: "r0 \<in> set rows" "dd_id r0 = k" "receipt_key r0 = key" using assms(2) by (auto simp: mode_ok_def)
  obtain r where r: "r \<in> set rows'" "dd_id r = k" "dd_status r = DdDispatching" "dd_decision_json r = Some (Encoded (ca_decision a))"
    using assms(4) by (rule accept_recorded)
  have grow: "receipt_inv sha rows'" "rows_extend receipt_later rows rows'" using accept_step [OF assms(1,4)] by blast+
  have "receipt_later r0 r"
    using rows_extend_pair [OF grow(2), of dd_id r0 r] grow(1) r0 r by (simp add: receipt_inv_def receipt_later_def)
  then have "receipt_key r = key" using r0(3) by (simp add: receipt_later_def)
  then show ?thesis using r assms(3) unfolding accepted_for_def agrees_def by (intro bexI [of _ r]) auto
qed

lemma receipts_call_bind:
  "bind (receipts_call f) c = Await (\<lambda>s. case f s (pw_receipts s) of Inl e \<Rightarrow> s | Inr (x, rows) \<Rightarrow> s\<lparr>pw_receipts := rows\<rparr>)
     (\<lambda>s. case f s (pw_receipts s) of Inl e \<Rightarrow> Raise e | Inr (x, rows) \<Rightarrow> c x)"
  by (auto simp: receipts_call_def call_result_def rbind_def fun_eq_iff split: sum.split)

lemma turn_ok_accept:
  assumes "serialize_decision (pr_decision planner) = Inr (ca_decision a)"
  shows "turn_ok sha parse (bind (receipts_call (\<lambda>s. accept_decision_dispatch sha (pw_clock s) k token a)) (\<lambda>accepted.
      bind (if accepted then Return (planner, x) else Raise err) (dispatch_and_complete p k token))) (Planning k (dispatch_key x))"
  unfolding receipts_call_bind conforms.simps
proof (intro allI impI)
  fix s assume rely: "turn_rely sha parse (Planning k (dispatch_key x)) s"
  then have inv: "receipt_inv sha (pw_receipts s)" and mode: "mode_ok parse (Planning k (dispatch_key x)) (pw_receipts s)"
    by (simp_all add: turn_rely_def)
  let ?r = "accept_decision_dispatch sha (pw_clock s) k token a (pw_receipts s)"
  let ?t = "case ?r of Inl e \<Rightarrow> s | Inr (x, rows) \<Rightarrow> s\<lparr>pw_receipts := rows\<rparr>"
  let ?next = "case ?r of Inl e \<Rightarrow> Raise e | Inr (b, rows) \<Rightarrow> bind (if b then Return (planner, x) else Raise err) (dispatch_and_complete p k token)"
  have grow: "calm_step sha s ?t"
    using accept_step [OF inv, of "pw_clock s" k token a] inv
    by (auto simp: calm_step_def receipts_grow_def rows_extend_refl receipt_later_refl split: sum.split)
  show "\<exists>n. turn_guar sha parse (Planning k (dispatch_key x)) s ?t n \<and> turn_ok sha parse ?next n"
  proof (cases "\<exists>rows. ?r = Inr (True, rows)")
    case True
    then obtain rows where r: "?r = Inr (True, rows)" ..
    have "accepted_for parse rows (dispatch_key x) (pr_decision planner)" using inv mode assms r by (rule accepted_row)
    then have "turn_guar sha parse (Planning k (dispatch_key x)) s ?t (Armed (dispatch_key x) (pr_decision planner))"
      using grow r by (simp add: turn_guar_def calm_step_def mode_ok_def)
    then show ?thesis using r turn_ok_dispatch by (intro exI conjI) auto
  next
    case False
    then have "turn_ok sha parse ?next (Planning k (dispatch_key x))" by (auto split: sum.split)
    then show ?thesis using calm_guar [OF rely grow] by blast
  qed
qed

lemma turn_ok_plan:
  assumes "event_source_id e = Inr source"
  shows "turn_ok sha parse (bind (plan_and_accept sha p cfg e extras k token) (dispatch_and_complete p k token))
    (Planning k (ae_tenant_id e, source, ae_id e))"
  unfolding plan_and_accept_def bind_assoc
proof (rule calm_bind_turn_ok [OF calm_run_planner_turn])
  fix planner
  let ?key = "(ae_tenant_id e, source, ae_id e)"
  show "turn_ok sha parse (bind (of_result (dispatch_context_of e planner extras)) (\<lambda>context.
      bind (of_result (serialize_decision (pr_decision planner))) (\<lambda>j.
      bind (receipts_call (\<lambda>s. accept_decision_dispatch sha (pw_clock s) k token \<lparr>ca_run_id = pr_run_id planner, ca_model = pf_model cfg,
             ca_prompt_version = pf_prompt_version cfg, ca_decision = j, ca_planner_result = serialize_planner_result planner,
             ca_dispatch_context = serialize_dispatch_context context\<rparr>)) (\<lambda>accepted.
      bind (if accepted then Return (planner, context)
        else Raise (DecisionDispatchLeaseLostError (''decision dispatch lease was lost before acceptance: '' @ k)))
        (dispatch_and_complete p k token))))) (Planning k ?key)"
  proof (cases "dispatch_context_of e planner extras")
    case (Inr x)
    have key: "dispatch_key x = ?key" using Inr assms by (rule dispatch_context_of_key)
    show ?thesis
    proof (cases "serialize_decision (pr_decision planner)")
      case j: (Inr j)
      show ?thesis unfolding Inr j of_result_def sum.case bind.simps key [symmetric] by (rule turn_ok_accept) (simp add: j)
    qed (simp add: Inr of_result_def)
  qed (simp add: of_result_def)
qed


lemma restored_agrees:
  assumes "restore_accepted p e source c = Inr (planner, x)" and "claim_reads c r" and "dd_status r \<noteq> DdPlanning" and "r \<in> set rows"
    and "receipt_key r = (ae_tenant_id e, source, ae_id e)"
  shows "dispatch_key x = receipt_key r \<and> accepted_for (pt_parse p) rows (receipt_key r) (pr_decision planner)"
proof -
  have planner: "restore_receipt_planner_result (pt_parse p) c = Inr planner"
    and x: "validate_dispatch_context e source (pr_run_id planner) x = Inr ()"
    using assms(1) by (auto simp: restore_accepted_def rbind_eq_Inr)
  obtain j where j: "dc_decision c = Some j" "pt_parse p (dumps j) = Inr (pr_decision planner)"
    using planner by (auto simp: restore_receipt_planner_result_def rbind_eq_Inr split: option.splits json.splits if_splits)
  have "dd_decision_json r = Some (Encoded j)" using assms(2) j(1) by (auto simp: claim_reads_def)
  then have "accepted_for (pt_parse p) rows (receipt_key r) (pr_decision planner)"
    using assms(3,4) j(2) unfolding accepted_for_def agrees_def by (intro bexI [of _ r]) auto
  moreover have "dispatch_key x = receipt_key r"
    using x assms(5) by (auto simp: validate_dispatch_context_def dispatch_key_def split: if_splits)
  ultimately show ?thesis by simp
qed

text \<open>The mode that a claim puts the worker in.\<close>

definition claimed_mode :: "'r planner_ports \<Rightarrow> agent_event \<Rightarrow> string \<Rightarrow> dispatch_claim \<Rightarrow> turn_mode" where
  "claimed_mode p e source c = (case dc_status c of
     DdPlanning \<Rightarrow> Planning (dc_id c) (ae_tenant_id e, source, ae_id e)
   | DdDispatching \<Rightarrow> (case restore_accepted p e source c of
        Inl err \<Rightarrow> Idle | Inr (planner, x) \<Rightarrow> Armed (dispatch_key x) (pr_decision planner))
   | DdCompleted \<Rightarrow> Idle)"

lemma turn_ok_claimed:
  assumes "event_source_id e = Inr source"
  shows "turn_ok sha (pt_parse p) (dispatch_claimed sha p cfg e extras source c) (claimed_mode p e source c)"
proof (cases "dc_lease_token c")
  case (Some token)
  let ?body = "case dc_status c of
                 DdPlanning \<Rightarrow> plan_and_accept sha p cfg e extras (dc_id c) token
               | DdDispatching \<Rightarrow> of_result (restore_accepted p e source c)
               | DdCompleted \<Rightarrow> Raise (ValueError (''acquired decision dispatch has unsupported status='' @ repr_str ''completed'' @ '': '' @ dc_id c))"
  have "turn_ok sha (pt_parse p) (bind ?body (dispatch_and_complete p (dc_id c) token)) (claimed_mode p e source c)"
  proof (cases "dc_status c")
    case DdPlanning
    then show ?thesis using turn_ok_plan [OF assms] by (simp add: claimed_mode_def)
  next
    case DdDispatching
    then show ?thesis using turn_ok_dispatch
      by (cases "restore_accepted p e source c") (auto simp: claimed_mode_def of_result_def)
  qed simp
  then have "turn_ok sha (pt_parse p) (catch (bind ?body (dispatch_and_complete p (dc_id c) token)) (release_after (dc_id c) token))
      (claimed_mode p e source c)"
    by (rule turn_ok_catch) (rule calm_release_after)
  then show ?thesis using Some unfolding dispatch_claimed_def by (simp add: calm_turn_ok)
qed (auto simp: dispatch_claimed_def intro!: calm_turn_ok)

lemma turn_ok_receipted:
  assumes "event_source_id e = Inr source"
  shows "turn_ok sha (pt_parse p) (bind (receipts_call (\<lambda>s. claim_decision_dispatch sha (pw_clock s) (pt_uuid p s) (pt_token p s)
      (receipt_args_of sha cfg e source))) (dispatch_claimed sha p cfg e extras source)) Idle"
  unfolding receipts_call_bind conforms.simps
proof (intro allI impI)
  fix s assume rely: "turn_rely sha (pt_parse p) Idle s"
  then have inv: "receipt_inv sha (pw_receipts s)" by (simp add: turn_rely_def)
  let ?a = "receipt_args_of sha cfg e source"
  let ?r = "claim_decision_dispatch sha (pw_clock s) (pt_uuid p s) (pt_token p s) ?a (pw_receipts s)"
  let ?t = "case ?r of Inl e \<Rightarrow> s | Inr (x, rows) \<Rightarrow> s\<lparr>pw_receipts := rows\<rparr>"
  let ?next = "case ?r of Inl e \<Rightarrow> Raise e | Inr (c, rows) \<Rightarrow> dispatch_claimed sha p cfg e extras source c"
  show "\<exists>n. turn_guar sha (pt_parse p) Idle s ?t n \<and> turn_ok sha (pt_parse p) ?next n"
  proof (cases ?r)
    case (Inl err)
    then show ?thesis using inv by (intro exI [of _ Idle]) (simp add: turn_guar_def receipts_grow_refl mode_ok_def)
  next
    case (Inr cr)
    obtain c rows where r: "?r = Inr (c, rows)" using Inr by (cases cr) simp
    obtain row where grow: "receipt_inv sha rows" "rows_extend receipt_later (pw_receipts s) rows"
      and row: "row \<in> set rows" "receipt_by_event ?a row" "claim_reads c row" using claim_step [OF inv r] by blast
    have key: "receipt_key row = (ae_tenant_id e, source, ae_id e)"
      using row(2) by (simp add: receipt_event_key receipt_args_of_def)
    have "mode_ok (pt_parse p) (claimed_mode p e source c) rows"
    proof (cases "dc_status c")
      case DdPlanning
      then show ?thesis using row key by (auto simp: claimed_mode_def mode_ok_def claim_reads_def)
    next
      case DdDispatching
      then have "dd_status row \<noteq> DdPlanning" using row(3) by (simp add: claim_reads_def)
      then show ?thesis using restored_agrees [OF _ row(3) _ row(1) key, of p] DdDispatching
        by (auto simp: claimed_mode_def mode_ok_def split: sum.split)
    qed (simp add: claimed_mode_def mode_ok_def)
    then have "turn_guar sha (pt_parse p) Idle s ?t (claimed_mode p e source c)"
      using r grow by (simp add: turn_guar_def receipts_grow_def)
    then show ?thesis using r turn_ok_claimed [OF assms, of sha p cfg extras c] by auto
  qed
qed

subsection \<open>Pools of planner workers\<close>

text \<open>A worker starts a dispatch turn with receipts for some event, with some ports and configuration; all workers use the same
  decision parser.  The clock may change at any time.\<close>

definition planner_env :: "int \<Rightarrow> planner_world \<Rightarrow> planner_world \<Rightarrow> bool" where
  "planner_env now s t \<longleftrightarrow> t = s\<lparr>pw_clock := now\<rparr>"

type_synonym 'r turn_start = "'r planner_ports \<times> planner_config \<times> bool \<times> bool \<times> dispatch_extras option \<times> agent_event"

definition planner_start ::
  "(string \<Rightarrow> string) \<Rightarrow> (string \<Rightarrow> decision result) \<Rightarrow> 'r turn_start \<Rightarrow> planner_world
    \<Rightarrow> (planner_world, unit) prog list \<Rightarrow> planner_world \<Rightarrow> bool" where
  "planner_start sha parse x s ps t = (case x of (p, cfg, has_store, has_conn, extras, e) \<Rightarrow>
     pt_parse p = parse \<and> t = s
     \<and> ps = [bind (run_planner_dispatch_turn sha p cfg (Some True) has_store has_conn extras e) (\<lambda>_. Return ())])"

definition turn_inv ::
  "(string \<Rightarrow> string) \<Rightarrow> (string \<Rightarrow> decision result) \<Rightarrow> planner_world \<Rightarrow> turn_mode list \<Rightarrow> bool" where
  "turn_inv sha parse s ms \<longleftrightarrow> receipt_inv sha (pw_receipts s)
     \<and> (\<forall>(x, d) \<in> set (pw_dispatches s). accepted_for parse (pw_receipts s) (dispatch_key x) d)
     \<and> (\<forall>m \<in> set ms. mode_ok parse m (pw_receipts s))"

interpretation planner_pool: pool_invariant planner_env "planner_start sha parse" "turn_rely sha parse" "turn_guar sha parse"
    "turn_inv sha parse" Idle for sha parse
proof (unfold_locales, goal_cases)
  case (1 now s t ms)
  then show ?case by (auto simp: planner_env_def turn_inv_def)
next
  case (2 x s ps t ms)
  then show ?case by (auto simp: planner_start_def turn_inv_def mode_ok_def split: prod.splits)
next
  case (3 x s ps t q)
  obtain p cfg has_store has_conn extras e where x: "x = (p, cfg, has_store, has_conn, extras, e)" by (cases x)
  have parse: "parse = pt_parse p"
    and q: "q = bind (run_planner_dispatch_turn sha p cfg (Some True) has_store has_conn extras e) (\<lambda>_. Return ())"
    using 3 by (auto simp: planner_start_def x)
  have "turn_ok sha parse (run_planner_dispatch_turn sha p cfg (Some True) has_store has_conn extras e) Idle"
  proof (cases "event_source_id e")
    case (Inr source)
    then show ?thesis using turn_ok_receipted [OF Inr, of sha p cfg extras]
      by (simp add: run_planner_dispatch_turn_def of_result_def parse)
  qed (simp add: run_planner_dispatch_turn_def of_result_def)
  then show ?case unfolding q by (rule turn_ok_bind_calm) simp
next
  case (4 s ms i)
  then show ?case by (auto simp: turn_inv_def turn_rely_def)
next
  case (5 s ms i t n)
  have grow: "receipt_inv sha (pw_receipts t)" "rows_extend receipt_later (pw_receipts s) (pw_receipts t)"
    using 5(3) by (simp_all add: turn_guar_def receipts_grow_def)
  have old: "mode_ok parse m (pw_receipts t)" if "m \<in> set ms" for m
    using 5(1) that grow(2) by (auto simp: turn_inv_def intro: mode_ok_later)
  have logs: "accepted_for parse (pw_receipts t) (dispatch_key x) d" if "(x, d) \<in> set (pw_dispatches t)" for x d
  proof (cases "(x, d) \<in> set (pw_dispatches s)")
    case True
    then show ?thesis using 5(1) grow(2) by (auto simp: turn_inv_def intro: accepted_for_later)
  next
    case False
    then have "ms ! i = Armed (dispatch_key x) d" using 5(3) that by (auto simp: turn_guar_def)
    then have "Armed (dispatch_key x) d \<in> set ms" using 5(2) nth_mem by metis
    from old [OF this] show ?thesis by (simp add: mode_ok_def)
  qed
  have "mode_ok parse n (pw_receipts t)" using 5(3) by (simp add: turn_guar_def)
  then have "mode_ok parse m (pw_receipts t)" if "m \<in> set (ms[i := n])" for m
    using that old set_update_subset_insert [of ms i n] by auto
  then show ?case using grow(1) logs by (auto simp: turn_inv_def)
qed


subsection \<open>Completed events\<close>

definition key_completed :: "string \<times> string \<times> string \<Rightarrow> planner_world \<Rightarrow> bool" where
  "key_completed key s \<longleftrightarrow> (\<exists>r \<in> set (pw_receipts s). receipt_key r = key \<and> dd_status r = DdCompleted)"

definition dispatch_count :: "string \<times> string \<times> string \<Rightarrow> planner_world \<Rightarrow> nat" where
  "dispatch_count key s = length (filter (\<lambda>(x, d). dispatch_key x = key) (pw_dispatches s))"

definition receipts_ok :: "(string \<Rightarrow> string) \<Rightarrow> planner_world \<Rightarrow> bool" where
  "receipts_ok sha s \<longleftrightarrow> receipt_inv sha (pw_receipts s)"

interpretation completed_item: effect_item "receipts_ok sha" "key_completed key" "dispatch_count key" for sha key .

lemma key_completed_later: "key_completed key s \<Longrightarrow> rows_extend receipt_later (pw_receipts s) (pw_receipts t) \<Longrightarrow> key_completed key t"
  unfolding key_completed_def by (auto simp: receipt_later_def dest!: rows_extend_member)

lemma calm_quiet_step: "calm_step sha s t \<Longrightarrow> completed_item.quiet_step sha key s t"
  by (auto simp: completed_item.quiet_step_def calm_step_def receipts_grow_def receipts_ok_def dispatch_count_def intro: key_completed_later)

lemma calm_harmless: "calm_prog sha p \<Longrightarrow> completed_item.harmless sha key p"
  by (induction p) (auto simp: receipts_ok_def intro: calm_quiet_step)

lemma dispatch_elsewhere_harmless:
  assumes "dispatch_key (snd pc) \<noteq> key"
  shows "completed_item.harmless sha key (dispatch_and_complete p k token pc)"
  unfolding dispatch_and_complete_def dispatch_call_def bind.simps completed_item.harmless_simps
proof (intro allI impI conjI)
  fix s assume "receipts_ok sha s"
  then show "completed_item.quiet_step sha key s (s\<lparr>pw_dispatches := pw_dispatches s @ [(snd pc, pr_decision (fst pc))]\<rparr>)"
    using assms by (simp add: completed_item.quiet_step_def receipts_ok_def dispatch_count_def key_completed_def)
qed (auto intro!: calm_harmless calm_prog_bind calm_complete)

lemma harmless_of_result_bind:
  "(\<And>x. r = Inr x \<Longrightarrow> completed_item.harmless sha key (c x)) \<Longrightarrow> completed_item.harmless sha key (bind (of_result r) c)"
  by (cases r) (simp_all add: of_result_def)

lemma plan_elsewhere_harmless:
  assumes "event_source_id e = Inr source" and "(ae_tenant_id e, source, ae_id e) \<noteq> key"
  shows "completed_item.harmless sha key (bind (plan_and_accept sha p cfg e extras k t) (dispatch_and_complete p k t))"
  unfolding plan_and_accept_def bind_assoc
proof (rule completed_item.harmless_bind [OF calm_harmless [OF calm_run_planner_turn]], rule harmless_of_result_bind,
    rule harmless_of_result_bind, rule completed_item.harmless_bind [OF calm_harmless [OF calm_receipts_call]])
  fix planner x accepted
  assume "dispatch_context_of e planner extras = Inr x"
  then have "dispatch_key x \<noteq> key" using dispatch_context_of_key assms by metis
  then show "completed_item.harmless sha key (bind (if accepted then Return (planner, x)
      else Raise (DecisionDispatchLeaseLostError (''decision dispatch lease was lost before acceptance: '' @ k))) (dispatch_and_complete p k t))"
    by (cases accepted) (simp_all add: dispatch_elsewhere_harmless)
qed (rule accept_step)

lemma claimed_elsewhere_harmless:
  assumes "event_source_id e = Inr source" and "(ae_tenant_id e, source, ae_id e) \<noteq> key"
  shows "completed_item.harmless sha key (dispatch_claimed sha p cfg e extras source c)"
proof -
  have restored: "dispatch_key x \<noteq> key" if "restore_accepted p e source c = Inr (planner, x)" for planner x
    using that assms(2)
    by (auto simp: restore_accepted_def rbind_eq_Inr validate_dispatch_context_def dispatch_key_def split: if_splits)
  have "completed_item.harmless sha key (bind (case dc_status c of
                 DdPlanning \<Rightarrow> plan_and_accept sha p cfg e extras (dc_id c) token
               | DdDispatching \<Rightarrow> of_result (restore_accepted p e source c)
               | DdCompleted \<Rightarrow> Raise err) (dispatch_and_complete p (dc_id c) token))" for token err
    using plan_elsewhere_harmless [OF assms] restored
    by (cases "dc_status c") (auto intro!: harmless_of_result_bind dispatch_elsewhere_harmless)
  note body = completed_item.harmless_catch [OF this calm_harmless [OF calm_release_after]]
  have "completed_item.harmless sha key (of_result r)" for r :: "planner_dispatch_result result" by (rule calm_harmless) simp
  then show ?thesis unfolding dispatch_claimed_def using body by (simp split: option.split)
qed

text \<open>In a state where the event is completed, a claim of it acquires nothing.\<close>

lemma completed_not_acquired:
  assumes "receipts_ok sha s" and "key_completed (da_tenant_id a, da_source_id a, da_trigger_event_id a) s"
    and "claim_decision_dispatch sha now uuid token a (pw_receipts s) = Inr (c, rows)"
  shows "\<not> dc_acquired c"
proof -
  have inv: "receipt_inv sha (pw_receipts s)" using assms(1) by (simp add: receipts_ok_def)
  obtain r' where grow: "receipt_inv sha rows" "rows_extend receipt_later (pw_receipts s) rows"
    and r': "r' \<in> set rows" "receipt_by_event a r'" "dc_acquired c \<longrightarrow> receipt_open r'"
    using claim_step [OF inv assms(3)] by blast
  obtain r where r: "r \<in> set (pw_receipts s)" "receipt_key r = (da_tenant_id a, da_source_id a, da_trigger_event_id a)" "dd_status r = DdCompleted"
    using assms(2) by (auto simp: key_completed_def)
  have "receipt_later r r'"
    using rows_extend_pair [OF grow(2), of receipt_key r r'] grow(1) r r'
    by (simp add: receipt_inv_def receipt_later_def receipt_event_key)
  then have "r' = r" using r(3) by (simp add: receipt_later_def)
  then show ?thesis using r'(3) r(3) by (auto simp: receipt_open_def)
qed

lemma dispatch_turn_calm:
  "completed_item.calm sha key (run_planner_dispatch_turn sha p cfg (Some True) has_store has_conn extras e)"
proof (cases "event_source_id e")
  case (Inr source)
  let ?claim = "\<lambda>s. claim_decision_dispatch sha (pw_clock s) (pt_uuid p s) (pt_token p s) (receipt_args_of sha cfg e source)"
  have "completed_item.calm sha key (bind (receipts_call ?claim) (dispatch_claimed sha p cfg e extras source))"
  proof (cases "(ae_tenant_id e, source, ae_id e) = key")
    case False
    have "calm_prog sha (receipts_call ?claim)" by (rule calm_receipts_call) (blast dest: claim_step)
    then show ?thesis
      by (intro completed_item.harmless_calm completed_item.harmless_bind calm_harmless claimed_elsewhere_harmless [OF Inr False])
  next
    case True
    show ?thesis unfolding receipts_call_bind completed_item.calm_Await
    proof (intro allI impI)
      fix s assume s: "receipts_ok sha s \<and> key_completed key s"
      let ?t = "case ?claim s (pw_receipts s) of Inl e \<Rightarrow> s | Inr (x, rows) \<Rightarrow> s\<lparr>pw_receipts := rows\<rparr>"
      let ?next = "case ?claim s (pw_receipts s) of Inl e \<Rightarrow> Raise e | Inr (c, rows) \<Rightarrow> dispatch_claimed sha p cfg e extras source c"
      have "calm_step sha s ?t"
        using claim_step [of sha "pw_receipts s" "pw_clock s" "pt_uuid p s" "pt_token p s" "receipt_args_of sha cfg e source"] s
        by (auto simp: calm_step_def receipts_grow_def receipts_ok_def rows_extend_refl receipt_later_refl split: sum.split)
      then have q: "completed_item.quiet_step sha key s ?t" by (rule calm_quiet_step)
      have key: "key_completed (da_tenant_id (receipt_args_of sha cfg e source), da_source_id (receipt_args_of sha cfg e source),
          da_trigger_event_id (receipt_args_of sha cfg e source)) s" using s True by (simp add: receipt_args_of_def)
      have "\<not> dc_acquired c" if "?claim s (pw_receipts s) = Inr (c, rows)" for c rows
        using completed_not_acquired [OF _ key that] s by simp
      then have "calm_prog sha ?next" by (auto simp: dispatch_claimed_def split: sum.split)
      then show "receipts_ok sha ?t \<and> key_completed key ?t \<and> dispatch_count key ?t = dispatch_count key s \<and> completed_item.calm sha key ?next"
        using q s completed_item.harmless_calm [OF calm_harmless] by (simp add: completed_item.quiet_step_def)
    qed
  qed
  then show ?thesis using Inr by (simp add: run_planner_dispatch_turn_def of_result_def)
qed (simp add: run_planner_dispatch_turn_def of_result_def)

interpretation completed_pool: restart_pool "receipts_ok sha" "key_completed key" "dispatch_count key" planner_env "planner_start sha parse"
  for sha key parse
proof (unfold_locales, goal_cases)
  case (1 now s t)
  then show ?case
    by (simp add: planner_env_def completed_item.quiet_step_def receipts_ok_def key_completed_def dispatch_count_def)
next
  case (2 x s ps t)
  then show ?case by (auto simp: planner_start_def completed_item.quiet_step_def)
next
  case (3 x s ps t q)
  obtain p cfg has_store has_conn extras e where x: "x = (p, cfg, has_store, has_conn, extras, e)" by (cases x)
  have q: "q = bind (run_planner_dispatch_turn sha p cfg (Some True) has_store has_conn extras e) (\<lambda>_. Return ())"
    using 3 by (auto simp: planner_start_def x)
  show ?case unfolding q by (rule completed_item.calm_seq [OF dispatch_turn_calm]) simp
qed

subsection \<open>A scenario\<close>

text \<open>A worker plans, accepts and dispatches a decision and crashes before it completes the receipt; when the lease has expired, a
  second worker takes the receipt over and dispatches again.\<close>

definition demo_planner_ports :: "unit planner_ports" where
  "demo_planner_ports = \<lparr>pt_route = (\<lambda>s q. Inr ()),
     pt_build = (\<lambda>s e r. Inr \<lparr>px_trigger = JObj [], px_session_routing = JObj [], px_batch = JNull, px_sessions = JArr [],
       px_mailbox = JArr [], px_actions = JArr [], px_outbound = JArr [], px_cron = JArr []\<rparr>),
     pt_build_prompt = (\<lambda>e r c. Inr ''p''), pt_build_system_prompt = (\<lambda>e r c. Inr ''s''),
     pt_llm = (\<lambda>q. LlmEnd (Inr \<lparr>lp_text = ''t'', lp_session_id = ''th'', lp_cost_usd = JNull, lp_duration_ms = JNull,
       lp_input_tokens = JNull, lp_output_tokens = JNull, lp_metadata = JNull\<rparr>)),
     pt_parse = (\<lambda>t. Inr (PlainDecision ''reply'' (JObj [(''text'', JStr ''hi'')]))),
     pt_dispatch = (\<lambda>s d x. Inr \<lparr>ds_target = ''outbound'', ds_id = Some ''out_1'', ds_created = True, ds_status = None, ds_metadata = JObj []\<rparr>),
     pt_token = (\<lambda>s. if pw_clock s = 0 then ''tok'' else ''tok2''), pt_uuid = (\<lambda>s. ''u'')\<rparr>"

definition demo_planner_config :: planner_config where
  "demo_planner_config = \<lparr>pf_model = ''m'', pf_prompt_version = ''v'', pf_cwd = ''/'', pf_env_home = ''/'', pf_timeout_s = 1,
     pf_metadata = JObj [], pf_model_redaction_policy = default_policy, pf_output_schema = None, pf_execution_context = None,
     pf_dynamic_tool_allowlist = None, pf_total_timeout_s = JNull, pf_idle_timeout_s = JNull\<rparr>"

definition demo_planner_event :: agent_event where
  "demo_planner_event = \<lparr>ae_id = ''evt'', ae_tenant_id = ''t'', ae_recipient = ''agent'', ae_message_type = ''M'',
     ae_payload = JObj [(''source_id'', JStr ''s'')], ae_correlation_id = None, ae_causation_id = None\<rparr>"

definition demo_planner_world :: planner_world where
  "demo_planner_world = \<lparr>pw_clock = 0, pw_runs = [], pw_receipts = [], pw_dispatches = []\<rparr>"

definition demo_turn_start :: "unit turn_start" where
  "demo_turn_start = (demo_planner_ports, demo_planner_config, True, False, None, demo_planner_event)"

definition with_turn :: "planner_world pool \<Rightarrow> planner_world pool" where
  "with_turn P = (fst P, snd P @ [bind (run_planner_dispatch_turn (\<lambda>x. x) demo_planner_ports demo_planner_config (Some True) True False None
     demo_planner_event) (\<lambda>_. Return ())])"

lemma with_turn_step:
  "pool_step planner_env (planner_start (\<lambda>x. x) (pt_parse demo_planner_ports)) (MvStart demo_turn_start) P (with_turn P)"
  using pool_start [of "planner_start (\<lambda>x. x) (pt_parse demo_planner_ports)" demo_turn_start "fst P" _ "fst P" planner_env "snd P"]
  by (cases P) (simp add: planner_start_def demo_turn_start_def with_turn_def)

definition later_clock :: "planner_world pool \<Rightarrow> planner_world pool" where
  "later_clock P = ((fst P)\<lparr>pw_clock := 100\<rparr>, snd P)"

lemma later_clock_step: "pool_step planner_env start (MvEnv 100) P (later_clock P)"
  by (cases P) (auto simp: later_clock_def planner_env_def intro: pool_env)

definition demo_crashed :: "planner_world pool" where
  "demo_crashed = fold run_at [0, 0, 0, 0, 0, 0, 0] (with_turn (demo_planner_world, []))"

definition demo_redispatched :: "planner_world pool" where
  "demo_redispatched = fold run_at [1, 1] (with_turn (later_clock demo_crashed))"

lemma demo_planner_run:
  "\<exists>mvs :: (int, unit turn_start) move list.
     steps (pool_step planner_env (planner_start (\<lambda>x. x) (pt_parse demo_planner_ports))) mvs (demo_planner_world, []) demo_redispatched"
proof -
  let ?st = "pool_step planner_env (planner_start (\<lambda>x. x) (pt_parse demo_planner_ports))"
  have "can_run [0, 0, 0, 0, 0, 0, 0] (with_turn (demo_planner_world, []))" by code_simp
  then have a: "steps ?st (map MvRun [0, 0, 0, 0, 0, 0, 0]) (with_turn (demo_planner_world, [])) demo_crashed"
    unfolding demo_crashed_def by (rule can_run_steps)
  have "can_run [1, 1] (with_turn (later_clock demo_crashed))" unfolding demo_crashed_def by code_simp
  then have b: "steps ?st (map MvRun [1, 1]) (with_turn (later_clock demo_crashed)) demo_redispatched"
    unfolding demo_redispatched_def by (rule can_run_steps)
  from steps_snoc_list [OF steps_Cons [OF with_turn_step a] steps_Cons [OF later_clock_step steps_Cons [OF with_turn_step b]]]
  show ?thesis by blast
qed

lemma demo_redispatched_log:
  "map snd (pw_dispatches (fst demo_redispatched)) = replicate 2 (PlainDecision ''reply'' (JObj [(''text'', JStr ''hi'')]))"
  "map (\<lambda>x. dispatch_key (fst x)) (pw_dispatches (fst demo_redispatched)) = replicate 2 (''t'', ''s'', ''evt'')"
  unfolding demo_redispatched_def demo_crashed_def by code_simp+

subsection \<open>Properties\<close>

text \<open>C2: At most one decision per source event: in every interleaving of any number of planner workers, with models that answer
  differently each time, crashes at every point and leases that expire while a worker is still planning, all calls of the dispatcher for
  one event pass the same decision, namely the one that was accepted for the event: each dispatched decision is the one whose JSON form
  was recorded, or was parsed from that record.\<close>

theorem one_decision_dispatched:
  assumes "receipt_inv sha (pw_receipts s)" and "pw_dispatches s = []"
    and "steps (pool_step planner_env (planner_start sha parse)) mvs (s, []) (t, ws)"
  shows "\<exists>j. \<forall>(x, d) \<in> set (pw_dispatches t). dispatch_key x = key \<longrightarrow> serialize_decision d = Inr j \<or> parse (dumps j) = Inr d"
proof -
  have "turn_inv sha parse s []" using assms(1,2) by (simp add: turn_inv_def)
  then obtain ms where inv: "turn_inv sha parse t ms" using planner_pool.empty_pool_inv [OF assms(3)] by blast
  then have acc: "accepted_for parse (pw_receipts t) (dispatch_key x) d" if "(x, d) \<in> set (pw_dispatches t)" for x d
    using that by (auto simp: turn_inv_def)
  show ?thesis
  proof (cases "\<exists>r \<in> set (pw_receipts t). receipt_key r = key \<and> (\<exists>j. dd_decision_json r = Some (Encoded j))")
    case False
    then show ?thesis using acc by (fastforce simp: accepted_for_def)
  next
    case True
    then obtain r j where r: "r \<in> set (pw_receipts t)" "receipt_key r = key" "dd_decision_json r = Some (Encoded j)" by blast
    have uniq: "q = r" if "q \<in> set (pw_receipts t)" "receipt_key q = key" for q
      using inv r that by (auto simp: turn_inv_def receipt_inv_def dest: distinct_map_eq)
    have "agrees parse j d" if "(x, d) \<in> set (pw_dispatches t)" "dispatch_key x = key" for x d
      using acc [OF that(1)] uniq that(2) r(3) by (auto simp: accepted_for_def)
    then show ?thesis by (intro exI [of _ j]) (auto simp: agrees_def)
  qed
qed

lemma one_decision_dispatched_witness:
  "\<exists>j. \<forall>(x, d) \<in> set (pw_dispatches (fst demo_redispatched)). dispatch_key x = (''t'', ''s'', ''evt'')
     \<longrightarrow> serialize_decision d = Inr j \<or> pt_parse demo_planner_ports (dumps j) = Inr d"
proof -
  obtain mvs :: "(int, unit turn_start) move list" where "steps (pool_step planner_env (planner_start (\<lambda>x. x) (pt_parse demo_planner_ports))) mvs (demo_planner_world, [])
      (fst demo_redispatched, snd demo_redispatched)" using demo_planner_run by auto
  from one_decision_dispatched [OF _ _ this] show ?thesis by (simp add: demo_planner_world_def receipt_inv_def)
qed


definition demo_completed :: "planner_world pool" where
  "demo_completed = (fst (fold run_at [0, 0, 0, 0, 0, 0, 0, 0] (with_turn (demo_planner_world, []))), [])"

definition demo_replayed :: "planner_world pool" where
  "demo_replayed = fold run_at [0] (with_turn demo_completed)"

lemma demo_completed_facts:
  "receipts_ok (\<lambda>x. x) (fst demo_completed)" "key_completed (''t'', ''s'', ''evt'') (fst demo_completed)"
  "dispatch_count (''t'', ''s'', ''evt'') (fst demo_completed) = 1" "can_run [0] (with_turn demo_completed)"
proof -
  show "key_completed (''t'', ''s'', ''evt'') (fst demo_completed)" "dispatch_count (''t'', ''s'', ''evt'') (fst demo_completed) = 1"
    "can_run [0] (with_turn demo_completed)"
    unfolding demo_completed_def by code_simp+
  have run: "can_run [0, 0, 0, 0, 0, 0, 0, 0] (with_turn (demo_planner_world, []))" by code_simp
  let ?Q = "fold run_at [0, 0, 0, 0, 0, 0, 0, 0] (with_turn (demo_planner_world, []))"
  have st: "steps (pool_step planner_env (planner_start (\<lambda>x. x) (pt_parse demo_planner_ports)))
      (MvStart demo_turn_start # map MvRun [0, 0, 0, 0, 0, 0, 0, 0]) (demo_planner_world, []) (fst ?Q, snd ?Q)"
    unfolding prod.collapse by (rule steps_Cons [OF with_turn_step can_run_steps [OF run]])
  have init: "turn_inv (\<lambda>x. x) (pt_parse demo_planner_ports) demo_planner_world []"
    by (simp add: turn_inv_def demo_planner_world_def receipt_inv_def)
  from planner_pool.empty_pool_inv [OF st init] obtain ms where "turn_inv (\<lambda>x. x) (pt_parse demo_planner_ports) (fst ?Q) ms" ..
  then have "turn_inv (\<lambda>x. x) (pt_parse demo_planner_ports) (fst demo_completed) ms" by (simp only: demo_completed_def fst_conv)
  then show "receipts_ok (\<lambda>x. x) (fst demo_completed)" by (simp add: turn_inv_def receipts_ok_def)
qed

text \<open>C9: A completed dispatch is never repeated: when the receipt of an event is completed and no worker runs (after a restart, or
  when the event is delivered again), then whatever dispatch turns are started for whatever events, in every interleaving, the dispatcher
  is never called for this event again and the receipt stays completed.\<close>

theorem completed_never_dispatched_again:
  assumes "receipt_inv sha (pw_receipts s)" and "key_completed key s"
    and "steps (pool_step planner_env (planner_start sha parse)) mvs (s, []) (t, ws)"
  shows "key_completed key t \<and> dispatch_count key t = dispatch_count key s"
  using completed_pool.spent_not_started [OF assms(3)] assms(1,2) by (simp add: receipts_ok_def)

lemma completed_never_dispatched_again_witness:
  "dispatch_count (''t'', ''s'', ''evt'') (fst demo_replayed) = 1"
proof -
  have "steps (pool_step planner_env (planner_start (\<lambda>x. x) (pt_parse demo_planner_ports))) (MvStart demo_turn_start # map MvRun [0])
      (fst demo_completed, []) (fst demo_replayed, snd demo_replayed)"
    using steps_Cons [OF with_turn_step can_run_steps [OF demo_completed_facts(4)]]
    by (simp add: demo_replayed_def demo_completed_def)
  from completed_never_dispatched_again [OF _ demo_completed_facts(2) this] show ?thesis
    using demo_completed_facts(1,3) by (simp add: receipts_ok_def)
qed

end
