(* ===== verification/Planner_Inputs.thy ===== *)
theory Planner_Inputs
  imports Planner
begin

section \<open>What reaches the model and what survives a crash\<close>

text \<open>
  Two properties of the data that a planner turn hands over: the request to the model depends on the visible part of the event and of
  the context only, and a turn that is resumed from its receipt works with the same planner result and the same dispatch context as
  the turn that accepted the decision.
\<close>

subsection \<open>Visible parts\<close>







subsection \<open>Properties\<close>


















end
