(* ===== verification/Decision_Effects.thy ===== *)
theory Decision_Effects
  imports Planner Action_Worker Approvals Outbound_Delivery Cron Sessions
begin

section \<open>Dispatching a decision\<close>

text \<open>
  Models \<open>decisions/dispatcher.py\<close> (the registry of handlers and the four handlers that turn a decision into an outbound message, an
  action, a prompt of a session or a scheduled job) and \<open>insert_action_and_execution_event\<close> of \<open>decisions/sqlite.py\<close>.  Each handler
  makes one call of a store.

  A decision object is an app-defined class: its \<open>kind\<close>, its attributes and its payload without the kind are parameters
  (\<open>decision_view\<close>).  A handler option is a text (the name of an attribute, or the value itself), a JSON object, or a function.
\<close>

subsection \<open>Options of the handlers\<close>

record decision_view =
  dv_kind :: "decision \<Rightarrow> json"
  dv_attr :: "decision \<Rightarrow> string \<Rightarrow> json option"
  dv_dump_without_kind :: "decision \<Rightarrow> pyval"

datatype resolver = ResText string | ResObject json | ResCall "decision \<Rightarrow> dispatch_context \<Rightarrow> json result"

definition decision_kind :: "decision_view \<Rightarrow> decision \<Rightarrow> string result" where
  "decision_kind v d = (case dv_kind v d of
     JStr k \<Rightarrow> if k = [] then Inl (ValueError ''decision object must expose non-empty string `kind`'') else Inr k
   | _ \<Rightarrow> Inl (ValueError ''decision object must expose non-empty string `kind`''))"

definition resolve :: "decision_view \<Rightarrow> resolver \<Rightarrow> decision \<Rightarrow> dispatch_context \<Rightarrow> json result" where
  "resolve v r d x = (case r of
     ResCall f \<Rightarrow> f d x
   | ResText t \<Rightarrow> Inr (case dv_attr v d t of Some w \<Rightarrow> w | None \<Rightarrow> JStr t)
   | ResObject j \<Rightarrow> Inr j)"

definition decision_payload :: "decision_view \<Rightarrow> decision \<Rightarrow> json result" where
  "decision_payload v d = (case d of
     PydanticDecision dump \<Rightarrow> require_json_object ''decision payload'' (dv_dump_without_kind v d)
   | PlainDecision kind payload \<Rightarrow> require_json_object ''decision payload'' (py_of_json payload)
   | OtherDecision cls \<Rightarrow> Inl (TypeError (''decision type has no serializable payload: '' @ cls)))"

definition resolve_payload :: "decision_view \<Rightarrow> resolver option \<Rightarrow> decision \<Rightarrow> dispatch_context \<Rightarrow> json result" where
  "resolve_payload v r d x = (case r of
     None \<Rightarrow> decision_payload v d
   | Some q \<Rightarrow> rbind (resolve v q d x) (\<lambda>j. require_json_object ''resolved decision payload'' (py_of_json j)))"

definition resolve_str :: "decision_view \<Rightarrow> resolver \<Rightarrow> decision \<Rightarrow> dispatch_context \<Rightarrow> string result" where
  "resolve_str v r d x = rbind (resolve v r d x) (\<lambda>j. Inr (py_str j))"

text \<open>\<open>_optional_str(_resolve(option, \<dots>)) if option else None\<close>; an empty text counts as not given.\<close>

definition resolve_optional :: "decision_view \<Rightarrow> resolver option \<Rightarrow> decision \<Rightarrow> dispatch_context \<Rightarrow> string option result" where
  "resolve_optional v r d x = (case r of
     None \<Rightarrow> Inr None
   | Some (ResText []) \<Rightarrow> Inr None
   | Some q \<Rightarrow> rbind (resolve v q d x) (\<lambda>j. Inr (optional_text j)))"

definition dispatch_idempotency_key ::
  "decision_view \<Rightarrow> resolver option \<Rightarrow> string \<Rightarrow> decision \<Rightarrow> dispatch_context \<Rightarrow> string result" where
  "dispatch_idempotency_key v r pre d x = (case r of
     Some q \<Rightarrow> resolve_str v q d x
   | None \<Rightarrow> rbind (decision_kind v d) (\<lambda>k. Inr (pre @ '':'' @ k @ '':'' @ dx_source_event_id x)))"

definition resolved_int :: "decision_view \<Rightarrow> resolver \<Rightarrow> decision \<Rightarrow> dispatch_context \<Rightarrow> int result" where
  "resolved_int v r d x = rbind (resolve v r d x) (\<lambda>j. case j of
     JInt i \<Rightarrow> Inr i
   | JFloat q t \<Rightarrow> Inr (if q < 0 then ceiling q else floor q)
   | JStr t \<Rightarrow> (case int_of_text t of
        Some i \<Rightarrow> Inr i
      | None \<Rightarrow> Inl (ValueError (''invalid literal for int() with base 10: '' @ repr_str t)))
   | _ \<Rightarrow> Inl (TypeError ''resolved value must be an integer or numeric string''))"

subsection \<open>An action with its execution event\<close>

record action_dispatch_result =
  ad_action_id :: string
  ad_created :: bool
  ad_status :: "action_state option"

text \<open>One transaction on \<open>actions\<close> and \<open>event_queue\<close>; the two clock readings and the two fresh ids are arguments.\<close>

definition insert_action_and_execution_event ::
  "(string \<Rightarrow> string) \<Rightarrow> int \<Rightarrow> int \<Rightarrow> string \<Rightarrow> string \<Rightarrow> action_args \<Rightarrow> bool \<Rightarrow> approval_db
    \<Rightarrow> (action_dispatch_result \<times> approval_db) result" where
  "insert_action_and_execution_event sha now1 now2 uuid1 uuid2 a enqueue_when_approved db =
     rbind (insert_action now1 uuid1 a (ap_actions db)) (\<lambda>((action_id, created), acts).
     let status = map_option ac_status (get_action action_id (aa_tenant_id a) (aa_source_id a) acts) in
     rbind (if enqueue_when_approved \<and> status = Some ActApproved
            then enqueue sha now2 uuid2 (execution_event (aa_tenant_id a) (aa_source_id a) action_id ''actions'' (aa_source_event_id a))
                   (ap_events db)
            else Inr (None, ap_events db)) (\<lambda>(_, evs).
     Inr (\<lparr>ad_action_id = action_id, ad_created = created, ad_status = status\<rparr>, \<lparr>ap_actions = acts, ap_events = evs\<rparr>)))"

subsection \<open>Handlers\<close>

record effects_db =
  fx_approvals :: approval_db
  fx_conv :: conv_db
  fx_sessions :: session_db
  fx_jobs :: "cron_row list"

record outbound_handler =
  oh_channel :: resolver
  oh_destination_id :: resolver
  oh_text :: resolver
  oh_payload :: "resolver option"
  oh_idempotency_key :: "resolver option"

record action_handler =
  ah_action_kind :: "resolver option"
  ah_payload :: "resolver option"
  ah_approval_policy :: resolver
  ah_idempotency_key :: "resolver option"
  ah_enqueue_when_approved :: bool

record session_handler =
  sh_session_id :: resolver
  sh_prompt :: resolver
  sh_action_id :: "resolver option"
  sh_idempotency_key :: "resolver option"

record cron_handler =
  jh_name :: resolver
  jh_run_at :: resolver
  jh_payload :: "resolver option"
  jh_rrule :: "resolver option"
  jh_timezone :: resolver
  jh_idempotency_key :: "resolver option"

datatype decision_handler =
    OutboundDecisionHandler outbound_handler
  | ActionDecisionHandler action_handler
  | SessionMailboxDecisionHandler session_handler
  | CronDecisionHandler cron_handler

text \<open>What a dispatch draws from outside: the clock readings and fresh ids of the store call, the digest and the calendar.\<close>

record dispatch_env =
  en_now1 :: int
  en_now2 :: int
  en_uuid1 :: string
  en_uuid2 :: string

definition outbound_request_of :: "decision_view \<Rightarrow> outbound_handler \<Rightarrow> decision \<Rightarrow> dispatch_context \<Rightarrow> outbound_request result" where
  "outbound_request_of v h d x =
     rbind (resolve_str v (oh_channel h) d x) (\<lambda>channel.
     rbind (resolve_str v (oh_destination_id h) d x) (\<lambda>destination.
     rbind (resolve_str v (oh_text h) d x) (\<lambda>body.
     rbind (resolve_payload v (oh_payload h) d x) (\<lambda>payload.
     rbind (dispatch_idempotency_key v (oh_idempotency_key h) ''outbound'' d x) (\<lambda>key.
     Inr \<lparr>or_tenant_id = dx_tenant_id x, or_source_id = dx_source_id x, or_channel = channel, or_destination_id = destination,
       or_text = body, or_idempotency_key = key, or_payload = Some payload, or_priority = 100, or_run_after = None, or_max_attempts = 5,
       or_correlation_id = Some (dx_source_event_id x), or_ordering_key = None, or_ordering_position = None, or_task_reference = None,
       or_reply_to_message_id = None, or_message_thread_id = None\<rparr>)))))"

definition action_args_of :: "decision_view \<Rightarrow> action_handler \<Rightarrow> decision \<Rightarrow> dispatch_context \<Rightarrow> action_args result" where
  "action_args_of v h d x =
     rbind (case ah_action_kind h of Some r \<Rightarrow> Inr r | None \<Rightarrow> rbind (decision_kind v d) (\<lambda>k. Inr (ResText k))) (\<lambda>kind_option.
     rbind (resolve_str v kind_option d x) (\<lambda>kind.
     rbind (resolve_payload v (ah_payload h) d x) (\<lambda>payload.
     rbind (resolve_str v (ah_approval_policy h) d x) (\<lambda>policy.
     rbind (dispatch_idempotency_key v (ah_idempotency_key h) ''action'' d x) (\<lambda>key.
     Inr \<lparr>aa_tenant_id = dx_tenant_id x, aa_source_id = dx_source_id x, aa_kind = kind, aa_payload = payload,
       aa_run_id = Some (dx_run_id x), aa_approval_policy = policy, aa_source_event_id = Some (dx_source_event_id x),
       aa_idempotency_key = Some key\<rparr>)))))"

definition prompt_args_of :: "decision_view \<Rightarrow> session_handler \<Rightarrow> decision \<Rightarrow> dispatch_context \<Rightarrow> prompt_args result" where
  "prompt_args_of v h d x =
     rbind (resolve_str v (sh_session_id h) d x) (\<lambda>session.
     rbind (resolve_str v (sh_prompt h) d x) (\<lambda>prompt.
     rbind (resolve_optional v (sh_action_id h) d x) (\<lambda>action_id.
     rbind (dispatch_idempotency_key v (sh_idempotency_key h) ''session-mailbox'' d x) (\<lambda>key.
     Inr \<lparr>pa_session_id = session, pa_tenant_id = dx_tenant_id x, pa_source_id = dx_source_id x, pa_prompt = prompt,
       pa_action_id = action_id, pa_source_event_id = Some (dx_source_event_id x), pa_idempotency_key = Some key\<rparr>))))"

definition cron_args_of :: "decision_view \<Rightarrow> cron_handler \<Rightarrow> decision \<Rightarrow> dispatch_context \<Rightarrow> cron_args result" where
  "cron_args_of v h d x =
     rbind (resolve_str v (jh_name h) d x) (\<lambda>name.
     rbind (resolve_payload v (jh_payload h) d x) (\<lambda>payload.
     rbind (resolved_int v (jh_run_at h) d x) (\<lambda>run_at.
     rbind (resolve_optional v (jh_rrule h) d x) (\<lambda>rrule.
     rbind (resolve_str v (jh_timezone h) d x) (\<lambda>timezone.
     rbind (dispatch_idempotency_key v (jh_idempotency_key h) ''cron'' d x) (\<lambda>key.
     Inr \<lparr>ja_tenant_id = dx_tenant_id x, ja_source_id = dx_source_id x, ja_name = name, ja_payload = payload, ja_run_at = run_at,
       ja_rrule = rrule, ja_timezone = timezone, ja_max_attempts = 5, ja_idempotency_key = Some key\<rparr>))))))"

definition plain_result :: "string \<Rightarrow> string \<Rightarrow> bool \<Rightarrow> string option \<Rightarrow> dispatch_result" where
  "plain_result target i created status =
     \<lparr>ds_target = target, ds_id = Some i, ds_created = created, ds_status = status, ds_metadata = JObj []\<rparr>"

definition handler_dispatch ::
  "(string \<Rightarrow> string) \<Rightarrow> schedule_lib \<Rightarrow> decision_view \<Rightarrow> dispatch_env \<Rightarrow> decision_handler \<Rightarrow> decision \<Rightarrow> dispatch_context \<Rightarrow> effects_db
    \<Rightarrow> (dispatch_result \<times> effects_db) result" where
  "handler_dispatch sha lib v n h d x db = (case h of
     OutboundDecisionHandler oh \<Rightarrow>
       rbind (outbound_request_of v oh d x) (\<lambda>a.
       rbind (enqueue_outbound_with_result sha (en_now1 n) (en_uuid1 n) a (fx_conv db)) (\<lambda>((i, created), conv).
       Inr (plain_result ''outbound'' i created None, db\<lparr>fx_conv := conv\<rparr>)))
   | ActionDecisionHandler ah \<Rightarrow>
       rbind (action_args_of v ah d x) (\<lambda>a.
       rbind (insert_action_and_execution_event sha (en_now1 n) (en_now2 n) (en_uuid1 n) (en_uuid2 n) a (ah_enqueue_when_approved ah)
                (fx_approvals db)) (\<lambda>(r, ap).
       Inr (plain_result ''action'' (ad_action_id r) (ad_created r) (map_option status_text (ad_status r)), db\<lparr>fx_approvals := ap\<rparr>)))
   | SessionMailboxDecisionHandler sh \<Rightarrow>
       rbind (prompt_args_of v sh d x) (\<lambda>a.
       rbind (enqueue_prompt (en_now1 n) (en_uuid1 n) a (fx_sessions db)) (\<lambda>((i, created), sdb).
       Inr (plain_result ''session_mailbox'' i created None, db\<lparr>fx_sessions := sdb\<rparr>)))
   | CronDecisionHandler jh \<Rightarrow>
       rbind (cron_args_of v jh d x) (\<lambda>a.
       rbind (insert_job lib sha (en_now1 n) (en_uuid1 n) a (fx_jobs db)) (\<lambda>((i, created), jobs).
       Inr (plain_result ''cron'' i created (Some ''pending''), db\<lparr>fx_jobs := jobs\<rparr>))))"

subsection \<open>The dispatcher\<close>

type_synonym dispatcher = "(string \<times> decision_handler) list"

definition register_handler :: "string \<Rightarrow> decision_handler \<Rightarrow> dispatcher \<Rightarrow> dispatcher result" where
  "register_handler kind h hs =
     (if kind = [] then Inl (ValueError ''decision kind must be a non-empty string'')
      else if map_of hs kind \<noteq> None then Inl (ValueError (''decision handler already registered for kind='' @ repr_str kind))
      else Inr (hs @ [(kind, h)]))"

definition registered_kinds :: "dispatcher \<Rightarrow> string list" where
  "registered_kinds hs = sort (map fst hs)"

definition dispatch_decision ::
  "(string \<Rightarrow> string) \<Rightarrow> schedule_lib \<Rightarrow> decision_view \<Rightarrow> dispatch_env \<Rightarrow> dispatcher \<Rightarrow> decision \<Rightarrow> dispatch_context \<Rightarrow> effects_db
    \<Rightarrow> (dispatch_result \<times> effects_db) result" where
  "dispatch_decision sha lib v n hs d x db =
     rbind (decision_kind v d) (\<lambda>kind. case map_of hs kind of
        None \<Rightarrow> Inl (KeyError (''no decision handler registered for kind='' @ repr_str kind))
      | Some h \<Rightarrow> handler_dispatch sha lib v n h d x db)"


subsection \<open>Repeated dispatches\<close>





definition demo_view :: decision_view where
  "demo_view = \<lparr>dv_kind = (\<lambda>d. JStr ''deploy''), dv_attr = (\<lambda>d t. None), dv_dump_without_kind = (\<lambda>d. PyDict [])\<rparr>"


definition demo_effects_context :: dispatch_context where
  "demo_effects_context = \<lparr>dx_tenant_id = ''t'', dx_source_id = ''s'', dx_run_id = ''ar_1'', dx_source_event_id = ''evt'', dx_actor_id = None,
     dx_metadata = JObj []\<rparr>"

definition demo_env :: "string \<Rightarrow> dispatch_env" where
  "demo_env u = \<lparr>en_now1 = 1, en_now2 = 1, en_uuid1 = u, en_uuid2 = u\<rparr>"

definition demo_effects_db :: effects_db where
  "demo_effects_db = \<lparr>fx_approvals = \<lparr>ap_actions = [], ap_events = []\<rparr>, fx_conv = empty_conv_db,
     fx_sessions = empty_session_db, fx_jobs = []\<rparr>"



definition demo_calendar :: schedule_lib where
  "demo_calendar = \<lparr>sl_zone_ok = (\<lambda>z t. True), sl_rrule_ok = (\<lambda>b a z. True), sl_after = (\<lambda>b a z t. Inr None)\<rparr>"





subsection \<open>Repeated messages\<close>

lemma enqueue_outbound_id:
  assumes "enqueue_outbound_with_result sha now uuid a db = Inr ((i, b), db')"
  shows "\<exists>r \<in> set (db_outbound db'). ob_id r = i \<and> ob_by_key a r"
proof -
  consider (old) r where "db' = db" "fetchone (ob_by_key a) (db_outbound db) = Some r" "i = ob_id r"
    | (new) "insert_outbound (new_outbound_row sha now uuid a) db = Inr db'" "i = new_outbound_id uuid"
    using enqueue_outbound_cases [OF assms] by blast
  then show ?thesis
  proof cases
    case old
    then show ?thesis using fetchone_SomeD by metis
  next
    case new
    then have "new_outbound_row sha now uuid a \<in> set (db_outbound db')" by (auto simp: insert_outbound_def split: if_splits)
    moreover have "ob_by_key a (new_outbound_row sha now uuid a)" "ob_id (new_outbound_row sha now uuid a) = i"
      using new(2) by (simp_all add: new_outbound_row_def ob_by_key_def)
    ultimately show ?thesis by blast
  qed
qed

lemma enqueue_outbound_again:
  assumes "ob_ok (db_outbound db)" and "enqueue_outbound_with_result sha now uuid a db = Inr ((i, b), db1)"
    and "steps (ob_step sha) ops db1 db2"
  shows "enqueue_outbound_with_result sha now' uuid' a db2 = Inr ((i, False), db2)"
proof -
  have ok1: "ob_ok (db_outbound db1)" using assms(1,2) by (auto intro: ob_ok_enqueue)
  have ok2: "ob_ok (db_outbound db2)" using assms(3) ok1 by (rule steps_ob_ok)
  from assms(3) have "ob_ok (db_outbound db2) \<and> ob_recorded sha a db2 \<and> (\<exists>r \<in> set (db_outbound db2). ob_id r = i \<and> ob_by_key a r)"
  proof (rule steps_invariant)
    show "ob_ok (db_outbound db1) \<and> ob_recorded sha a db1 \<and> (\<exists>r \<in> set (db_outbound db1). ob_id r = i \<and> ob_by_key a r)"
      using ok1 enqueue_outbound_records [OF assms(2)] enqueue_outbound_id [OF assms(2)] by blast
    fix l s t
    assume st: "ob_step sha l s t" and I: "ob_ok (db_outbound s) \<and> ob_recorded sha a s \<and> (\<exists>r \<in> set (db_outbound s). ob_id r = i \<and> ob_by_key a r)"
    then obtain r where r: "r \<in> set (db_outbound s)" "ob_id r = i" "ob_by_key a r" by blast
    obtain r' where "r' \<in> set (db_outbound t)" "ob_evolves r r'"
      using rows_extend_member [OF ob_step_extend [OF st] r(1)] I by blast
    then have "\<exists>r \<in> set (db_outbound t). ob_id r = i \<and> ob_by_key a r"
      using r(2,3) by (auto simp: ob_evolves_def ob_envelope_def ob_by_key_def intro!: bexI [of _ r'])
    then show "ob_ok (db_outbound t) \<and> ob_recorded sha a t \<and> (\<exists>r \<in> set (db_outbound t). ob_id r = i \<and> ob_by_key a r)"
      using st I ob_step_ok outbound_idem.other_keeps by blast
  qed
  then obtain r j where r: "r \<in> set (db_outbound db2)" "ob_id r = i" "ob_by_key a r"
    and j: "enqueue_outbound_with_result sha now' uuid' a db2 = Inr ((j, False), db2)"
    using enqueue_outbound_recorded by blast
  obtain q where q: "q \<in> set (db_outbound db2)" "ob_id q = j" "ob_by_key a q" using enqueue_outbound_id [OF j] by blast
  have "ob_inv (db_outbound db2)" using ok2 by (simp add: ob_ok_def)
  then have "q = r" using ob_fetch_by_key r q by (metis option.inject)
  then show ?thesis using j q(2) r(2) by simp
qed

lemma handler_outbound:
  assumes "handler_dispatch sha lib v n (OutboundDecisionHandler h) d x db = Inr (r, db')"
  obtains a i b where "outbound_request_of v h d x = Inr a"
    and "enqueue_outbound_with_result sha (en_now1 n) (en_uuid1 n) a (fx_conv db) = Inr ((i, b), fx_conv db')"
    and "ds_id r = Some i" and "ds_created r = b"
  using assms by (auto simp: handler_dispatch_def rbind_eq_Inr plain_result_def)

text \<open>A decision that is dispatched again sends no second message: once the outbound handler has gone through for a decision and its
  context, then after any further operations of the outbound queue every other dispatch of the same decision for the same event answers with
  the same message, reports that nothing was created, and leaves the queue as it is.\<close>

theorem redispatched_message_absorbed:
  assumes "ob_ok (db_outbound (fx_conv db))"
    and "handler_dispatch sha lib v n (OutboundDecisionHandler h) d x db = Inr (r, db1)"
    and "steps (ob_step sha) ops (fx_conv db1) (fx_conv db2)"
    and "handler_dispatch sha lib v n' (OutboundDecisionHandler h) d x db2 = Inr (r', db3)"
  shows "ds_id r' = ds_id r \<and> \<not> ds_created r' \<and> fx_conv db3 = fx_conv db2"
proof -
  obtain a i b where a: "outbound_request_of v h d x = Inr a" and r: "ds_id r = Some i"
    and enq: "enqueue_outbound_with_result sha (en_now1 n) (en_uuid1 n) a (fx_conv db) = Inr ((i, b), fx_conv db1)"
    using assms(2) by (rule handler_outbound) blast
  have again: "enqueue_outbound_with_result sha (en_now1 n') (en_uuid1 n') a (fx_conv db2) = Inr ((i, False), fx_conv db2)"
    using assms(1) enq assms(3) by (rule enqueue_outbound_again)
  obtain a' i' b' where "outbound_request_of v h d x = Inr a'" "ds_id r' = Some i'" "ds_created r' = b'"
    "enqueue_outbound_with_result sha (en_now1 n') (en_uuid1 n') a' (fx_conv db2) = Inr ((i', b'), fx_conv db3)"
    using assms(4) by (rule handler_outbound) blast
  then show ?thesis using a again r by simp
qed


definition demo_message_of :: "string \<Rightarrow> effects_db \<Rightarrow> dispatch_result \<times> effects_db" where
  "demo_message_of u db = (case handler_dispatch (\<lambda>t. t) demo_calendar demo_view (demo_env u)
     (OutboundDecisionHandler \<lparr>oh_channel = ResText ''telegram'', oh_destination_id = ResText ''c'', oh_text = ResText ''hi'', oh_payload = None,
        oh_idempotency_key = None\<rparr>) (PlainDecision ''reply'' (JObj [])) demo_effects_context db of Inr p \<Rightarrow> p)"

lemma demo_messages:
  "handler_dispatch (\<lambda>t. t) demo_calendar demo_view (demo_env ''1'')
     (OutboundDecisionHandler \<lparr>oh_channel = ResText ''telegram'', oh_destination_id = ResText ''c'', oh_text = ResText ''hi'', oh_payload = None,
        oh_idempotency_key = None\<rparr>) (PlainDecision ''reply'' (JObj [])) demo_effects_context demo_effects_db
     = Inr (fst (demo_message_of ''1'' demo_effects_db), snd (demo_message_of ''1'' demo_effects_db))"
  "handler_dispatch (\<lambda>t. t) demo_calendar demo_view (demo_env ''2'')
     (OutboundDecisionHandler \<lparr>oh_channel = ResText ''telegram'', oh_destination_id = ResText ''c'', oh_text = ResText ''hi'', oh_payload = None,
        oh_idempotency_key = None\<rparr>) (PlainDecision ''reply'' (JObj [])) demo_effects_context (snd (demo_message_of ''1'' demo_effects_db))
     = Inr (fst (demo_message_of ''2'' (snd (demo_message_of ''1'' demo_effects_db))),
            snd (demo_message_of ''2'' (snd (demo_message_of ''1'' demo_effects_db))))"
  by code_simp+

lemma redispatched_message_absorbed_witness:
  "ds_id (fst (demo_message_of ''2'' (snd (demo_message_of ''1'' demo_effects_db)))) = ds_id (fst (demo_message_of ''1'' demo_effects_db))
   \<and> \<not> ds_created (fst (demo_message_of ''2'' (snd (demo_message_of ''1'' demo_effects_db))))"
proof -
  have "ob_ok (db_outbound (fx_conv demo_effects_db))" by (simp add: demo_effects_db_def empty_conv_db_def ob_ok_def ob_inv_def ob_ordered_def)
  from redispatched_message_absorbed [OF this demo_messages(1) steps_Nil demo_messages(2)] show ?thesis by simp
qed

end
