(* ===== verification/Agent_Worker.thy ===== *)
theory Agent_Worker
  imports Event_Queue Model_Boundary Async_Programs
begin

section \<open>The agent worker\<close>

text \<open>
  Models \<open>agent/worker.py\<close> and \<open>runtime/failures.py\<close>: a worker claims due events of its recipient from the queue, hands
  each to the handler of the application and settles the event by what the handler did.

  The handler and its outcome observer are parameters: programs on the state of the application, which may await
  anything there.  The ten second limit of the observer belongs to its program.  What a handler writes to the event queue is
  covered by the other writers of the queue, which may do anything at any time.  The latency log is not modelled.
\<close>

subsection \<open>Failures\<close>

fun is_non_retryable_event_error :: "py_error \<Rightarrow> bool" where
  "is_non_retryable_event_error (NonRetryableEventError m) = True"
| "is_non_retryable_event_error (ExceptionGroup m es) = list_ex is_non_retryable_event_error es"
| "is_non_retryable_event_error e = False"

fun event_error_detail :: "py_error \<Rightarrow> string" where
  "event_error_detail (ExceptionGroup m es) = join ''; '' (map event_error_detail es)"
| "event_error_detail e = error_line e"

subsection \<open>The world of the worker\<close>

datatype event_outcome = OutcomeDone | OutcomeRetrying | OutcomeDeadLetter

text \<open>\<open>gw_handled\<close> logs the calls of the handler, in their order.\<close>

record 'h agent_world =
  gw_clock :: int
  gw_events :: "event_row list"
  gw_app :: 'h
  gw_handled :: "agent_event list"

type_synonym ('h, 'a) agent_prog = "('h agent_world, 'a) prog"

text \<open>A program of the application runs on its part of the world.\<close>

primrec on_app :: "('h, 'a) prog \<Rightarrow> ('h, 'a) agent_prog" where
  "on_app (Return x) = Return x"
| "on_app (Raise e) = Raise e"
| "on_app (Await f k) = Await (\<lambda>s. s\<lparr>gw_app := f (gw_app s)\<rparr>) (\<lambda>s. on_app (k (gw_app s)))"

record 'h agent_handler =
  ah_handle :: "agent_event \<Rightarrow> ('h, unit) prog"
  ah_on_event_outcome :: "(agent_event \<Rightarrow> event_outcome \<Rightarrow> ('h, unit) prog) option"

definition agent_event_of :: "queue_event \<Rightarrow> agent_event" where
  "agent_event_of e = \<lparr>ae_id = qe_id e, ae_tenant_id = qe_tenant_id e, ae_recipient = qe_recipient e,
     ae_message_type = qe_message_type e, ae_payload = qe_payload e, ae_correlation_id = qe_correlation_id e,
     ae_causation_id = qe_causation_id e\<rparr>"

subsection \<open>Calls\<close>

text \<open>\<open>lease_token = NULL\<close> holds for no row.\<close>

definition agent_settle :: "queue_event \<Rightarrow> (int \<Rightarrow> string \<Rightarrow> event_row list \<Rightarrow> 'r \<times> event_row list) \<Rightarrow> 'r \<Rightarrow> ('h, 'r) agent_prog" where
  "agent_settle e f none = call (\<lambda>s. case qe_lease_token e of
       None \<Rightarrow> (none, s)
     | Some t \<Rightarrow> let (x, evs) = f (gw_clock s) t (gw_events s) in (x, s\<lparr>gw_events := evs\<rparr>))"

definition agent_done :: "queue_event \<Rightarrow> ('h, bool) agent_prog" where
  "agent_done e = agent_settle e (\<lambda>now t. mark_done now (qe_id e) t) False"

definition agent_dead_letter :: "queue_event \<Rightarrow> string \<Rightarrow> ('h, bool) agent_prog" where
  "agent_dead_letter e err = agent_settle e (\<lambda>now t. mark_dead_letter now (qe_id e) t err) False"

definition agent_retry :: "queue_event \<Rightarrow> int \<Rightarrow> string \<Rightarrow> ('h, ev_state option) agent_prog" where
  "agent_retry e delay err = agent_settle e (\<lambda>now t. mark_retry now (now + delay) err (qe_id e) t) None"

definition call_handler :: "'h agent_handler \<Rightarrow> agent_event \<Rightarrow> ('h, unit) agent_prog" where
  "call_handler h ae = bind (call (\<lambda>s. ((), s\<lparr>gw_handled := gw_handled s @ [ae]\<rparr>))) (\<lambda>_. on_app (ah_handle h ae))"

definition notify_outcome :: "'h agent_handler \<Rightarrow> agent_event \<Rightarrow> event_outcome \<Rightarrow> ('h, unit) agent_prog" where
  "notify_outcome h ae outcome = (case ah_on_event_outcome h of
     None \<Rightarrow> Return ()
   | Some observe \<Rightarrow> catch (on_app (observe ae outcome)) (\<lambda>e. if is_exception e then Return () else Raise e))"

subsection \<open>One event\<close>

definition notified :: "'h agent_handler \<Rightarrow> agent_event \<Rightarrow> event_outcome \<Rightarrow> bool \<Rightarrow> ('h, bool) agent_prog" where
  "notified h ae outcome changed =
     bind (if changed then notify_outcome h ae outcome else Return ()) (\<lambda>_. Return changed)"

definition handler_failed :: "'h agent_handler \<Rightarrow> int \<Rightarrow> queue_event \<Rightarrow> py_error \<Rightarrow> ('h, bool) agent_prog" where
  "handler_failed h retry_backoff_s e exc =
     (let ae = agent_event_of e in
      if is_non_retryable_event_error exc
      then bind (agent_dead_letter e (event_error_detail exc)) (notified h ae OutcomeDeadLetter)
      else bind (agent_retry e retry_backoff_s (error_line exc)) (\<lambda>status.
        notified h ae (if status = Some EvDeadLetter then OutcomeDeadLetter else OutcomeRetrying) (status \<noteq> None)))"

definition handle_event :: "'h agent_handler \<Rightarrow> int \<Rightarrow> queue_event \<Rightarrow> ('h, bool) agent_prog" where
  "handle_event h retry_backoff_s e =
     (let ae = agent_event_of e in
      catch (bind (call_handler h ae) (\<lambda>_. bind (agent_done e) (notified h ae OutcomeDone)))
        (\<lambda>exc. if is_exception exc then handler_failed h retry_backoff_s e exc else Raise exc))"

definition process_event :: "'h agent_handler \<Rightarrow> int \<Rightarrow> queue_event \<Rightarrow> ('h, unit) agent_prog" where
  "process_event h retry_backoff_s e = bind (handle_event h retry_backoff_s e) (\<lambda>_. Return ())"

subsection \<open>A batch\<close>

record 'h agent_worker =
  gk_handler :: "'h agent_handler"
  gk_tenant_id :: "string option"
  gk_recipient :: string
  gk_batch_size :: int
  gk_lease_seconds :: int
  gk_retry_backoff_s :: int
  gk_hostname :: string

definition lease_owner :: "string \<Rightarrow> string \<Rightarrow> string" where
  "lease_owner hostname recipient = hostname @ ''/'' @ recipient"

definition agent_claim :: "'h agent_worker \<Rightarrow> claim_args" where
  "agent_claim w = \<lparr>ca_recipient = gk_recipient w, ca_limit = gk_batch_size w,
     ca_lease_owner = lease_owner (gk_hostname w) (gk_recipient w), ca_lease_seconds = gk_lease_seconds w,
     ca_recover_exhausted = False, ca_tenant_id = gk_tenant_id w\<rparr>"

definition run_agent_queue_worker ::
  "'h agent_worker \<Rightarrow> string \<Rightarrow> 'h agent_world \<Rightarrow> (('h, unit) agent_prog list \<times> 'h agent_world) result" where
  "run_agent_queue_worker w token s =
     (if gk_batch_size w < 1 then Inl (ValueError ''batch_size must be positive'')
      else if gk_lease_seconds w < 1 then Inl (ValueError ''lease_seconds must be positive'')
      else if given_blank (gk_tenant_id w) then Inl (ValueError ''tenant_id must be non-empty when provided'')
      else rbind (claim_due (agent_claim w) (gw_clock s) token (gw_events s)) (\<lambda>(claimed, evs).
        Inr (map (\<lambda>r. process_event (gk_handler w) (gk_retry_backoff_s w) (row_to_queue_event r)) claimed,
             s\<lparr>gw_events := evs\<rparr>)))"

end
