(* ===== verification/Agent_Delivery.thy ===== *)
theory Agent_Delivery
  imports Agent_Worker
begin

section \<open>What the agent worker guarantees\<close>

text \<open>
  Any number of agent workers run, interleaved at every await, crashing anywhere, with leases that expire and are renewed, while
  the rest of the platform uses the queue.  The number of calls of the handler for an event is bounded by the attempts that
  the event has left.  For one undisturbed event, the theory says what becomes of it on every outcome of the handler.
\<close>

subsection \<open>Attempts that are left\<close>

text \<open>How often a worker can still claim an event: a queued event once at least, whatever its maximum.\<close>

definition attempts_left :: "event_row \<Rightarrow> int" where
  "attempts_left r = (if ev_final r then 0 else if ev_status r = EvQueued then max 1 (ev_max_attempts r)
     else max 0 (ev_max_attempts r - ev_attempts r))"

definition cheaper :: "event_row \<Rightarrow> event_row \<Rightarrow> bool" where
  "cheaper r r' \<longleftrightarrow> ev_id r' = ev_id r \<and> attempts_left r' \<le> attempts_left r"

lemma attempts_left_nonneg: "0 \<le> attempts_left r"
  by (auto simp: attempts_left_def max_def)

lemma cheaper_refl [simp]: "cheaper r r"
  by (simp add: cheaper_def)

lemma cheaper_trans: "cheaper r s \<Longrightarrow> cheaper s t \<Longrightarrow> cheaper r t"
  by (auto simp: cheaper_def)

lemma cheaper_final: "ev_id r' = ev_id r \<Longrightarrow> ev_final r' \<Longrightarrow> cheaper r r'"
  using attempts_left_nonneg [of r] by (simp add: cheaper_def attempts_left_def)

lemma lease_costs:
  assumes "ev_due c now r" and "ev_row_ok r" and "\<not> ca_recover_exhausted c"
  shows "attempts_left (ev_lease c now t r) + 1 \<le> attempts_left r"
  using assms by (cases "ev_status r") (auto simp: ev_due_def ev_row_ok_def ev_lease_def attempts_left_def ev_final_def)

text \<open>No operation of the queue gives attempts back, unless a claim asks for exhausted events.\<close>

fun no_recovery :: "ev_op \<Rightarrow> bool" where
  "no_recovery (OpClaim c now t) = (\<not> ca_recover_exhausted c)"
| "no_recovery _ = True"

lemma cheaper_done: "rows_extend cheaper rows (snd (mark_done now k t rows))"
  unfolding mark_done_def snd_conv
  by (rule rows_extend_update_where) (auto intro!: cheaper_final simp: ev_release_def ev_final_def)

lemma cheaper_dead: "rows_extend cheaper rows (snd (mark_dead_letter now k t err rows))"
  unfolding mark_dead_letter_def snd_conv
  by (rule rows_extend_update_where) (auto intro!: cheaper_final simp: ev_release_def ev_final_def)

lemma cheaper_retry:
  assumes "ev_inv rows"
  shows "rows_extend cheaper rows (snd (mark_retry now ra err k t rows))"
proof (cases "fetchone (ev_held k t) rows")
  case None
  then show ?thesis by (simp add: mark_retry_def rows_extend_refl)
next
  case (Some row)
  let ?st = "if ev_attempts row \<ge> ev_max_attempts row then EvDeadLetter else EvRetrying"
  let ?f = "\<lambda>r. (ev_release ?st now r)\<lparr>ev_run_after := ra, ev_last_error := Some err\<rparr>"
  have "r = row" if "r \<in> set rows" "ev_held k t r" for r using ev_fetch_held [OF assms that] Some by simp
  then have "rows_extend cheaper rows (update_where (ev_held k t) ?f rows)"
    by (intro rows_extend_update_where) (auto simp: cheaper_def attempts_left_def ev_final_def ev_release_def ev_held_def)
  then show ?thesis using Some assms by (simp add: mark_retry_eq Let_def)
qed

lemma cheaper_settle: "ev_inv rows \<Longrightarrow> rows_extend cheaper rows (snd (ev_settle a k t rows))"
  by (cases a) (use cheaper_done cheaper_dead cheaper_retry in \<open>auto simp: case_prod_unfold Let_def\<close>)

lemma cheaper_renew: "renew_lease now secs k t rows = Inr (b, rows') \<Longrightarrow> rows_extend cheaper rows rows'"
  by (auto simp: renew_lease_def Let_def cheaper_def attempts_left_def ev_final_def split: if_splits
      intro!: rows_extend_update_where)

text \<open>A claim takes one attempt of every event it returns.\<close>

lemma distinct_count: "distinct xs \<Longrightarrow> count_list xs x = (if x \<in> set xs then 1 else 0)"
  by (induction xs) auto

lemma claim_costs:
  assumes inv: "ev_inv rows" and "claim_due c now t rows = Inr (claimed, rows')" and nr: "\<not> ca_recover_exhausted c" and r: "r \<in> set rows"
  shows "\<exists>r' \<in> set rows'. ev_id r' = ev_id r
    \<and> attempts_left r' + int (count_list (map ev_id claimed) (ev_id r)) \<le> attempts_left r"
proof -
  let ?ids = "map ev_id (ev_candidates c now rows)"
  have txn: "claim_txn c now t rows = (claimed, rows')" using claim_due_Inr [OF assms(2)] by simp
  have ids: "map ev_id claimed = ?ids"
    using claim_txn_result [OF ev_inv_distinct [OF inv], of c now t] txn by simp
  have "distinct (map ev_id (select_where (ev_due c now) rows))"
    using ev_inv_distinct [OF inv] by (simp add: select_where_def distinct_map_filter)
  then have "distinct (map ev_id (order_by ev_order (select_where (ev_due c now) rows)))" by (simp add: order_by_def distinct_map)
  then have "distinct ?ids" by (simp add: ev_candidates_def take_map [symmetric])
  then have count: "count_list ?ids (ev_id r) = (if ev_id r \<in> set ?ids then 1 else 0)"
    by (simp add: distinct_count)
  let ?f = "\<lambda>r. if ev_id r \<in> ev_id ` set (ev_candidates c now rows) then ev_lease c now t r
      else if ev_exhausted c now r then ev_expire now r else r"
  have "rows' = map ?f rows" using claim_txn_map [OF inv, of c now t] txn by simp
  then have "?f r \<in> set rows'" using r by auto
  moreover have "attempts_left (?f r) + int (count_list (map ev_id claimed) (ev_id r)) \<le> attempts_left r"
  proof (cases "ev_id r \<in> set ?ids")
    case True
    then have "ev_due c now r" using ev_candidate_iff [OF inv r] by auto
    then show ?thesis using lease_costs [of c now r t] nr inv r True ids count by (auto simp: ev_inv_def)
  next
    case False
    then show ?thesis using ids count attempts_left_nonneg [of r]
      by (auto simp: attempts_left_def ev_final_def ev_expire_def ev_release_def)
  qed
  moreover have "ev_id (?f r) = ev_id r" by simp
  ultimately show ?thesis by blast
qed

subsection \<open>Workers and the rest of the platform\<close>

datatype 'h agent_env = EnvQueue ev_op | EnvClock int | EnvApp 'h

inductive agent_env_step :: "(string \<Rightarrow> string) \<Rightarrow> 'h agent_env \<Rightarrow> 'h agent_world \<Rightarrow> 'h agent_world \<Rightarrow> bool" for sha where
  env_queue: "ev_step sha op (gw_events s) evs \<Longrightarrow> no_recovery op \<Longrightarrow> agent_env_step sha (EnvQueue op) s (s\<lparr>gw_events := evs\<rparr>)"
| env_clock: "agent_env_step sha (EnvClock now) s (s\<lparr>gw_clock := now\<rparr>)"
| env_app: "agent_env_step sha (EnvApp a) s (s\<lparr>gw_app := a\<rparr>)"

definition agent_start :: "'h agent_worker \<times> string \<Rightarrow> 'h agent_world \<Rightarrow> ('h, unit) agent_prog list \<Rightarrow> 'h agent_world \<Rightarrow> bool" where
  "agent_start x s ps t \<longleftrightarrow> run_agent_queue_worker (fst x) (snd x) s = Inr (ps, t)"

definition handled_count :: "string \<Rightarrow> 'h agent_world \<Rightarrow> nat" where
  "handled_count k s = count_list (map ae_id (gw_handled s)) k"

text \<open>A worker is in mode \<open>Some k\<close> until it calls the handler for the event \<open>k\<close>, afterwards in mode \<open>None\<close>.\<close>

definition agent_rely :: "string option \<Rightarrow> 'h agent_world \<Rightarrow> bool" where
  "agent_rely m s \<longleftrightarrow> ev_inv (gw_events s)"

definition agent_guar :: "string option \<Rightarrow> 'h agent_world \<Rightarrow> 'h agent_world \<Rightarrow> string option \<Rightarrow> bool" where
  "agent_guar m s t n \<longleftrightarrow> n = None \<and> ev_inv (gw_events t) \<and> rows_extend cheaper (gw_events s) (gw_events t)
     \<and> map ae_id (gw_handled t) = map ae_id (gw_handled s) @ (case m of None \<Rightarrow> [] | Some k \<Rightarrow> [k])"

definition agent_inv :: "string \<Rightarrow> int \<Rightarrow> 'h agent_world \<Rightarrow> string option list \<Rightarrow> bool" where
  "agent_inv k most s ms \<longleftrightarrow> ev_inv (gw_events s) \<and> (\<exists>r \<in> set (gw_events s). ev_id r = k
     \<and> int (handled_count k s) + int (count_list ms (Some k)) + attempts_left r \<le> most)"

abbreviation quiet :: "('h, 'a) agent_prog \<Rightarrow> bool" where
  "quiet p \<equiv> conforms agent_rely agent_guar p None"

lemma quiet_on_app: "quiet (on_app p)"
  by (induction p) (auto simp: agent_rely_def agent_guar_def rows_extend_refl)

lemma quiet_bind: "quiet p \<Longrightarrow> (\<And>x. quiet (c x)) \<Longrightarrow> quiet (bind p c)"
  by (induction p) (auto simp: agent_guar_def)

lemma quiet_catch: "quiet p \<Longrightarrow> (\<And>e. quiet (h e)) \<Longrightarrow> quiet (catch p h)"
  by (induction p) (auto simp: agent_guar_def)

lemma quiet_agent_settle:
  assumes "\<And>now t rows. ev_inv rows \<Longrightarrow> ev_inv (snd (f now t rows)) \<and> rows_extend cheaper rows (snd (f now t rows))"
  shows "quiet (agent_settle e f none)"
  using assms by (auto simp: agent_settle_def call_def agent_rely_def agent_guar_def case_prod_unfold Let_def rows_extend_refl
      split: option.splits)

lemma quiet_calls:
  "quiet (agent_done e)" "quiet (agent_dead_letter e err)" "quiet (agent_retry e delay err)" "quiet (notified h ae oc b)"
proof -
  show "quiet (agent_done e)" unfolding agent_done_def by (rule quiet_agent_settle) (simp add: ev_inv_done cheaper_done)
  show "quiet (agent_dead_letter e err)"
    unfolding agent_dead_letter_def by (rule quiet_agent_settle) (simp add: ev_inv_dead cheaper_dead)
  show "quiet (agent_retry e delay err)"
    unfolding agent_retry_def by (rule quiet_agent_settle) (simp add: ev_inv_retry cheaper_retry)
  show "quiet (notified h ae oc b)"
    unfolding notified_def notify_outcome_def by (auto intro!: quiet_bind quiet_catch quiet_on_app split: option.splits)
qed

lemma quiet_failed: "quiet (handler_failed h delay e exc)"
  by (auto simp: handler_failed_def Let_def intro!: quiet_bind quiet_calls)

lemma process_conforms: "conforms agent_rely agent_guar (process_event h delay e) (Some (qe_id e))"
proof -
  have "quiet (bind (catch (bind (on_app (ah_handle h ae)) (\<lambda>_. bind (agent_done e) (notified h ae OutcomeDone)))
      (\<lambda>exc. if is_exception exc then handler_failed h delay e exc else Raise exc)) (\<lambda>_. Return ()))" for ae
    by (auto intro!: quiet_bind quiet_catch quiet_on_app quiet_calls quiet_failed)
  then show ?thesis
    by (simp add: process_event_def handle_event_def call_handler_def Let_def bind_assoc agent_rely_def agent_guar_def
        agent_event_of_def rows_extend_refl)
qed

lemma agent_inv_run:
  assumes inv: "agent_inv k most s ms" and i: "i < length ms" and g: "agent_guar (ms ! i) s t n"
  shows "agent_inv k most t (ms[i := n])"
proof -
  obtain r where r: "r \<in> set (gw_events s)" "ev_id r = k"
    "int (handled_count k s) + int (count_list ms (Some k)) + attempts_left r \<le> most" using inv by (auto simp: agent_inv_def)
  obtain r' where r': "r' \<in> set (gw_events t)" "cheaper r r'" using g r(1) rows_extend_member by (fastforce simp: agent_guar_def)
  have "ms = take i ms @ ms ! i # drop (Suc i) ms" using i by (simp add: id_take_nth_drop)
  then have "count_list ms (Some k) = count_list (take i ms) (Some k) + count_list [ms ! i] (Some k) + count_list (drop (Suc i) ms) (Some k)"
    by (metis append_Cons append_Nil count_list_append add.assoc)
  moreover have "ms[i := n] = take i ms @ n # drop (Suc i) ms" using i by (simp add: upd_conv_take_nth_drop)
  then have "count_list (ms[i := n]) (Some k) = count_list (take i ms) (Some k) + count_list (drop (Suc i) ms) (Some k)"
    using g by (simp add: count_list_append agent_guar_def)
  moreover have "handled_count k t = handled_count k s + count_list [ms ! i] (Some k)"
    using g by (auto simp: handled_count_def agent_guar_def count_list_append split: option.splits)
  ultimately show ?thesis using r r' g by (auto simp: agent_inv_def cheaper_def agent_guar_def)
qed

lemma env_cheaper:
  assumes "ev_step sha op rows rows'" and "no_recovery op" and inv: "ev_inv rows" and r: "r \<in> set rows"
  shows "\<exists>r' \<in> set rows'. cheaper r r'"
  using assms(1)
proof cases
  case (step_enqueue now uuid a res)
  then show ?thesis using r by (auto dest!: enqueue_rows intro!: bexI [of _ r])
next
  case (step_claim c now t claimed)
  then show ?thesis using claim_costs [OF inv step_claim(2) _ r] assms(2) by (fastforce simp: cheaper_def)
next
  case (step_settle a k t b)
  then show ?thesis using rows_extend_member [OF cheaper_settle [OF inv, of a k t] r] by simp
next
  case (step_renew now secs k t b)
  then show ?thesis using rows_extend_member [OF cheaper_renew r] by auto
qed

lemma agent_inv_env: "agent_env_step sha e s t \<Longrightarrow> agent_inv k most s ms \<Longrightarrow> agent_inv k most t ms"
proof (induction rule: agent_env_step.induct)
  case (env_queue op s evs)
  then obtain r where r: "r \<in> set (gw_events s)" "ev_id r = k" "ev_inv (gw_events s)"
    "int (handled_count k s) + int (count_list ms (Some k)) + attempts_left r \<le> most" by (auto simp: agent_inv_def)
  obtain r' where "r' \<in> set evs" "cheaper r r'" using env_cheaper [OF env_queue(1,2) r(3,1)] by auto
  then show ?case using r ev_step_inv [OF env_queue(1) r(3)] by (auto simp: agent_inv_def cheaper_def handled_count_def)
qed (simp_all add: agent_inv_def handled_count_def)

lemma agent_inv_start:
  assumes "agent_start x s ps t" and inv: "agent_inv k most s ms"
  shows "\<exists>ns. agent_inv k most t (ms @ ns) \<and> list_all2 (conforms agent_rely agent_guar) ps ns"
proof -
  obtain w token where x: "x = (w, token)" by (cases x)
  obtain claimed evs where c: "claim_due (agent_claim w) (gw_clock s) token (gw_events s) = Inr (claimed, evs)"
    and ps: "ps = map (\<lambda>r. process_event (gk_handler w) (gk_retry_backoff_s w) (row_to_queue_event r)) claimed"
    and t: "t = s\<lparr>gw_events := evs\<rparr>"
    using assms(1) by (auto simp: x agent_start_def run_agent_queue_worker_def rbind_eq_Inr split: if_splits)
  let ?ns = "map (\<lambda>r. Some (ev_id r)) claimed"
  obtain r where r: "r \<in> set (gw_events s)" "ev_id r = k" "ev_inv (gw_events s)"
    "int (handled_count k s) + int (count_list ms (Some k)) + attempts_left r \<le> most" using inv by (auto simp: agent_inv_def)
  have "ev_inv evs" using ev_step_inv [OF step_claim [OF c] r(3)] .
  moreover obtain r' where "r' \<in> set evs" "ev_id r' = k"
    "attempts_left r' + int (count_list (map ev_id claimed) k) \<le> attempts_left r"
    using claim_costs [OF r(3) c _ r(1)] r(2) by (auto simp: agent_claim_def)
  moreover have "count_list ?ns (Some k) = count_list (map ev_id claimed) k" by (induction claimed) auto
  ultimately have "agent_inv k most t (ms @ ?ns)"
    using r(4) by (auto simp: agent_inv_def t handled_count_def count_list_append intro!: bexI [of _ r'])
  moreover have "list_all2 (conforms agent_rely agent_guar) ps ?ns"
    unfolding ps using process_conforms [of _ _ "row_to_queue_event r" for r]
    by (auto simp: list_all2_conv_all_nth row_to_queue_event_def)
  ultimately show ?thesis by blast
qed

interpretation agent_pool: pool_modes "agent_env_step sha" agent_start agent_rely agent_guar "agent_inv k most"
proof (unfold_locales, goal_cases)
  case (1 e s t ms)
  then show ?case by (rule agent_inv_env)
next
  case (2 x s ps t ms)
  then show ?case by (rule agent_inv_start)
next
  case (3 s ms i)
  then show ?case by (simp add: agent_inv_def agent_rely_def)
next
  case (4 s ms i t n)
  then show ?case by (rule agent_inv_run)
qed

text \<open>C14: The handler of the application is called for an event at most as often as the event has attempts left, in every
  interleaving of any number of agent workers with the rest of the platform, with crashes at every await and expiring leases; for an
  event that is done or dead-lettered it is not called again.\<close>

theorem handler_calls_bounded:
  assumes "ev_inv (gw_events s)" and "r \<in> set (gw_events s)"
    and "steps (pool_step (agent_env_step sha) agent_start) mvs (s, []) (t, ws)"
  shows "int (handled_count (ev_id r) t) \<le> int (handled_count (ev_id r) s) + attempts_left r"
proof -
  have "agent_inv (ev_id r) (int (handled_count (ev_id r) s) + attempts_left r) s []" using assms(1,2) by (auto simp: agent_inv_def)
  from agent_pool.empty_pool_inv [OF assms(3) this] obtain ms
    where "agent_inv (ev_id r) (int (handled_count (ev_id r) s) + attempts_left r) t ms" ..
  then obtain r' where "int (handled_count (ev_id r) t) + int (count_list ms (Some (ev_id r))) + attempts_left r'
      \<le> int (handled_count (ev_id r) s) + attempts_left r" by (auto simp: agent_inv_def)
  then show ?thesis using attempts_left_nonneg [of r'] by linarith
qed

definition demo_agent_worker :: "int agent_worker" where
  "demo_agent_worker = \<lparr>gk_handler = \<lparr>ah_handle = (\<lambda>ae. Await (\<lambda>n. n + 1) (\<lambda>n. Raise (RuntimeError ''no model''))),
     ah_on_event_outcome = None\<rparr>, gk_tenant_id = None, gk_recipient = ''agent'', gk_batch_size = 5, gk_lease_seconds = 60,
     gk_retry_backoff_s = 30, gk_hostname = ''host''\<rparr>"

definition demo_agent_world :: "int agent_world" where
  "demo_agent_world = \<lparr>gw_clock = 10, gw_events = [demo_row], gw_app = 0, gw_handled = []\<rparr>"

definition demo_agent_leased :: event_row where
  "demo_agent_leased = ev_lease (agent_claim demo_agent_worker) 10 ''tok'' demo_row"

definition demo_agent_started :: "int agent_world pool" where
  "demo_agent_started = (demo_agent_world\<lparr>gw_events := [demo_agent_leased]\<rparr>,
     [process_event (gk_handler demo_agent_worker) 30 (row_to_queue_event demo_agent_leased)])"

lemma demo_agent_claimed:
  "claim_due (agent_claim demo_agent_worker) 10 ''tok'' [demo_row] = Inr ([demo_agent_leased], [demo_agent_leased])"
proof -
  have "ev_due (agent_claim demo_agent_worker) 10 demo_row" "\<not> ev_exhausted (agent_claim demo_agent_worker) 10 demo_row"
    by (simp_all add: ev_due_def ev_exhausted_def demo_row_def new_event_row_def demo_event_def agent_claim_def demo_agent_worker_def)
  then show ?thesis
    by (simp add: claim_due_def claim_txn_def Let_def select_where_def order_by_def demo_agent_leased_def)
       (simp add: agent_claim_def demo_agent_worker_def)
qed

lemma demo_agent_start:
  "steps (pool_step (agent_env_step sha) agent_start) [MvStart (demo_agent_worker, ''tok''), MvRun 0] (demo_agent_world, [])
     (run_at 0 demo_agent_started)"
proof -
  have "run_agent_queue_worker demo_agent_worker ''tok'' demo_agent_world = Inr (snd demo_agent_started, fst demo_agent_started)"
    using demo_agent_claimed by (simp add: run_agent_queue_worker_def demo_agent_world_def demo_agent_started_def)
      (simp add: demo_agent_worker_def)
  then have "agent_start (demo_agent_worker, ''tok'') demo_agent_world (snd demo_agent_started) (fst demo_agent_started)"
    by (simp add: agent_start_def)
  then have st: "pool_step (agent_env_step sha) agent_start (MvStart (demo_agent_worker, ''tok'')) (demo_agent_world, []) demo_agent_started"
    using pool_start [of agent_start _ _ "snd demo_agent_started" "fst demo_agent_started" _ "[]"] by simp
  have "can_run [0] demo_agent_started"
    by (simp add: demo_agent_started_def process_event_def handle_event_def call_handler_def Let_def)
  from steps_Cons [OF st can_run_steps [OF this]] show ?thesis by simp
qed

lemma handler_calls_bounded_witness:
  "int (handled_count ''evt_u'' (fst (run_at 0 demo_agent_started))) \<le> int (handled_count ''evt_u'' demo_agent_world) + 2
   \<and> handled_count ''evt_u'' (fst (run_at 0 demo_agent_started)) = 1"
proof -
  have "steps (pool_step (agent_env_step (\<lambda>x. x)) agent_start) [MvStart (demo_agent_worker, ''tok''), MvRun 0] (demo_agent_world, [])
     (fst (run_at 0 demo_agent_started), snd (run_at 0 demo_agent_started))" using demo_agent_start by simp
  from handler_calls_bounded [OF _ _ this, of demo_row] show ?thesis
    using demo_inv(1)
    by (simp add: demo_agent_world_def attempts_left_def ev_final_def demo_row_def new_event_row_def demo_event_def)
       (simp add: run_at_def demo_agent_started_def process_event_def handle_event_def call_handler_def Let_def handled_count_def
         demo_agent_world_def agent_event_of_def row_to_queue_event_def demo_agent_leased_def ev_lease_def demo_row_def new_event_row_def)
qed

subsection \<open>One event, undisturbed\<close>

lemma run_on_app: "run (on_app p) s = (fst (run p (gw_app s)), s\<lparr>gw_app := snd (run p (gw_app s))\<rparr>)"
  by (induction p arbitrary: s) simp_all

text \<open>Nothing but the application's part changes when the observer is told.\<close>

lemma run_notified:
  "\<exists>x a. run (notified h ae oc b) s = (x, s\<lparr>gw_app := a\<rparr>) \<and> (\<forall>e. x = Inl e \<longrightarrow> \<not> is_exception e)"
proof (cases "b \<and> ah_on_event_outcome h \<noteq> None")
  case True
  then obtain f where f: "ah_on_event_outcome h = Some f" by auto
  then show ?thesis using True
    by (cases "fst (run (f ae oc) (gw_app s))")
       (auto simp: notified_def notify_outcome_def run_bind run_catch run_on_app split: if_splits)
next
  case False
  then have "run (notified h ae oc b) s = (Inr b, s\<lparr>gw_app := gw_app s\<rparr>)"
    by (auto simp: notified_def notify_outcome_def split: option.splits)
  then show ?thesis by blast
qed

text \<open>What a handler's outcome means for the row of its event.\<close>

definition verdict :: "int \<Rightarrow> int \<Rightarrow> unit result \<Rightarrow> event_row \<Rightarrow> event_row" where
  "verdict now delay res r = (case res of
     Inr _ \<Rightarrow> ev_release EvDone now r
   | Inl exc \<Rightarrow>
       if \<not> is_exception exc then r
       else if is_non_retryable_event_error exc then (ev_release EvDeadLetter now r)\<lparr>ev_last_error := Some (event_error_detail exc)\<rparr>
       else (ev_release (if ev_attempts r \<ge> ev_max_attempts r then EvDeadLetter else EvRetrying) now r)
         \<lparr>ev_run_after := now + delay, ev_last_error := Some (error_line exc)\<rparr>)"

lemma verdict_simps:
  "verdict now delay (Inr ()) = ev_release EvDone now"
  "is_exception exc \<Longrightarrow> is_non_retryable_event_error exc \<Longrightarrow> verdict now delay (Inl exc)
     = (\<lambda>r. (ev_release EvDeadLetter now r)\<lparr>ev_last_error := Some (event_error_detail exc)\<rparr>)"
  "is_exception exc \<Longrightarrow> \<not> is_non_retryable_event_error exc \<Longrightarrow> verdict now delay (Inl exc)
     = (\<lambda>r. (ev_release (if ev_attempts r \<ge> ev_max_attempts r then EvDeadLetter else EvRetrying) now r)
         \<lparr>ev_run_after := now + delay, ev_last_error := Some (error_line exc)\<rparr>)"
  "\<not> is_exception exc \<Longrightarrow> verdict now delay (Inl exc) = (\<lambda>r. r)"
  by (rule ext, simp add: verdict_def)+

lemma run_agent_settle:
  "qe_lease_token e = Some t \<Longrightarrow> run (agent_settle e f none) s
     = (Inr (fst (f (gw_clock s) t (gw_events s))), s\<lparr>gw_events := snd (f (gw_clock s) t (gw_events s))\<rparr>)"
  by (simp add: agent_settle_def case_prod_unfold Let_def)

lemma mark_retry_rows:
  assumes inv: "ev_inv rows" and "r \<in> set rows" and "ev_held (ev_id r) tok r"
  shows "snd (mark_retry now ra err (ev_id r) tok rows) = update_where (ev_held (ev_id r) tok)
    (\<lambda>x. (ev_release (if ev_attempts x \<ge> ev_max_attempts x then EvDeadLetter else EvRetrying) now x)
       \<lparr>ev_run_after := ra, ev_last_error := Some err\<rparr>) rows"
proof -
  note r = ev_fetch_held [OF assms]
  have "x = r" if "x \<in> set rows" "ev_held (ev_id r) tok x" for x using ev_fetch_held [OF inv that] r by simp
  then show ?thesis using r by (auto simp: mark_retry_eq [OF inv] Let_def update_where_def)
qed

text \<open>C38: An undisturbed event is handed to the handler once, with its content, and the row is settled by the outcome: done; or
  dead-lettered with the details of every part of the failure, when any part of it must not be repeated; or retrying after the back-off, or
  dead-lettered when no attempt is left; or untouched when the worker is cancelled.  What the observer does cannot change it.\<close>

theorem agent_event_settled:
  assumes inv: "ev_inv (gw_events s)" and r: "r \<in> set (gw_events s)" and held: "ev_held (ev_id r) tok r"
    and ae: "ae = agent_event_of (row_to_queue_event r)"
  shows "gw_handled (snd (run (handle_event h delay (row_to_queue_event r)) s)) = gw_handled s @ [ae]
    \<and> gw_events (snd (run (handle_event h delay (row_to_queue_event r)) s))
      = update_where (ev_held (ev_id r) tok) (verdict (gw_clock s) delay (fst (run (ah_handle h ae) (gw_app s)))) (gw_events s)"
proof -
  let ?e = "row_to_queue_event r" and ?H = "ev_held (ev_id r) tok"
  define u where "u = s\<lparr>gw_handled := gw_handled s @ [ae], gw_app := snd (run (ah_handle h ae) (gw_app s))\<rparr>"
  have tok: "qe_lease_token ?e = Some tok" "qe_id ?e = ev_id r" using held by (simp_all add: row_to_queue_event_def ev_held_def)
  note retry = mark_retry_rows [OF inv r held]
  have handler: "run (call_handler h ae) s = (fst (run (ah_handle h ae) (gw_app s)), u)"
    by (simp add: call_handler_def run_on_app u_def)
  note settle = agent_done_def agent_dead_letter_def agent_retry_def run_agent_settle [OF tok(1)] tok(2)
  have told: "gw_handled (snd (run (notified h ae oc b) w)) = gw_handled w" "gw_events (snd (run (notified h ae oc b) w)) = gw_events w"
    "run (notified h ae oc b) w = (Inl x, v) \<Longrightarrow> \<not> is_exception x" for oc b w x v
    using run_notified [of h ae oc b w] by auto
  show ?thesis
  proof (cases "fst (run (ah_handle h ae) (gw_app s))")
    case (Inr y)
    let ?w = "u\<lparr>gw_events := snd (mark_done (gw_clock u) (ev_id r) tok (gw_events u))\<rparr>"
    let ?b = "fst (mark_done (gw_clock u) (ev_id r) tok (gw_events u))"
    have "snd (run (handle_event h delay ?e) s) = snd (run (notified h ae OutcomeDone ?b) ?w)"
      using told(3) [of OutcomeDone ?b ?w] handler Inr
      by (auto simp: handle_event_def Let_def ae [symmetric] run_catch run_bind settle split: prod.splits sum.splits)
    then show ?thesis using told(1,2) Inr by (simp add: u_def verdict_simps mark_done_def)
  next
    case (Inl x)
    have failed: "run (handle_event h delay ?e) s = (if is_exception x then run (handler_failed h delay ?e x) u else (Inl x, u))"
      using handler Inl by (simp add: handle_event_def Let_def ae [symmetric] run_catch run_bind)
    consider "\<not> is_exception x" | "is_exception x" "is_non_retryable_event_error x" | "is_exception x" "\<not> is_non_retryable_event_error x" by blast
    then show ?thesis
    proof cases
      case 1
      then show ?thesis using failed Inl by (simp add: u_def verdict_simps update_where_def)
    next
      case 2
      then show ?thesis using failed Inl told
        by (simp add: handler_failed_def Let_def ae [symmetric] run_bind settle u_def verdict_simps mark_dead_letter_def)
    next
      case 3
      show ?thesis using 3 failed Inl told
        by (simp add: handler_failed_def Let_def ae [symmetric] run_bind settle u_def verdict_simps retry)
    qed
  qed
qed

lemma agent_event_settled_witness:
  "map ev_status (gw_events (snd (run (handle_event (gk_handler demo_agent_worker) 30 (row_to_queue_event demo_agent_leased))
     (fst demo_agent_started)))) = [EvRetrying]"
proof -
  have "ev_inv [demo_agent_leased]"
    using demo_inv(1) by (simp add: ev_inv_def demo_agent_leased_def ev_row_ok_lease)
  moreover have held: "ev_held (ev_id demo_agent_leased) ''tok'' demo_agent_leased"
    by (simp add: ev_held_def demo_agent_leased_def ev_lease_def)
  ultimately have "gw_events (snd (run (handle_event (gk_handler demo_agent_worker) 30 (row_to_queue_event demo_agent_leased))
      (fst demo_agent_started))) = update_where (ev_held (ev_id demo_agent_leased) ''tok'')
        (verdict 10 30 (Inl (RuntimeError ''no model''))) [demo_agent_leased]"
    using agent_event_settled [of "fst demo_agent_started" demo_agent_leased "''tok''" _ "gk_handler demo_agent_worker" 30]
    by (simp add: demo_agent_started_def demo_agent_world_def demo_agent_worker_def)
  then show ?thesis using held
    by (simp add: verdict_def demo_agent_leased_def ev_lease_def ev_release_def demo_row_def new_event_row_def demo_event_def)
qed

end
