(* ===== verification/Memory.thy ===== *)
theory Memory
  imports Idempotent_Port
begin

section \<open>Memory records\<close>

text \<open>
  Models \<open>memory/store.py\<close> on the table \<open>memory_records\<close> (migrations 009, 015 and 019): notes that an agent keeps for a
  conversation, found by id or by a search, and forgotten by marking them.  The full-text index is a parameter: for a query and the
  indexed table it gives the rank of each row that matches.  A confidence is a finite number.
\<close>

subsection \<open>Rows\<close>

record memory_row =
  mr_id :: string
  mr_tenant_id :: string
  mr_source_id :: string
  mr_scope :: string
  mr_subject_id :: string
  mr_kind :: string
  mr_text :: string
  mr_metadata_json :: stored_json
  mr_confidence :: rat
  mr_source_event_id :: "string option"
  mr_created_by :: "string option"
  mr_idempotency_key :: "string option"
  mr_expires_at :: "int option"
  mr_deleted_at :: "int option"
  mr_created_at :: int
  mr_updated_at :: int

record remember_args =
  mm_tenant_id :: string
  mm_source_id :: string
  mm_scope :: string
  mm_subject_id :: string
  mm_text :: string
  mm_kind :: string
  mm_metadata :: "(string \<times> json) list option"
  mm_confidence :: rat
  mm_source_event_id :: "string option"
  mm_created_by :: "string option"
  mm_idempotency_key :: "string option"
  mm_expires_at :: "int option"

subsection \<open>Remembering\<close>

definition memory_metadata :: "remember_args \<Rightarrow> json" where
  "memory_metadata a = JObj (case mm_metadata a of None \<Rightarrow> [] | Some kvs \<Rightarrow> kvs)"

definition new_memory_row :: "int \<Rightarrow> string \<Rightarrow> remember_args \<Rightarrow> memory_row" where
  "new_memory_row now uuid a = \<lparr>mr_id = ''mem_'' @ uuid, mr_tenant_id = mm_tenant_id a, mr_source_id = mm_source_id a,
     mr_scope = mm_scope a, mr_subject_id = mm_subject_id a, mr_kind = mm_kind a, mr_text = mm_text a,
     mr_metadata_json = Encoded (memory_metadata a), mr_confidence = mm_confidence a,
     mr_source_event_id = mm_source_event_id a, mr_created_by = mm_created_by a, mr_idempotency_key = mm_idempotency_key a,
     mr_expires_at = mm_expires_at a, mr_deleted_at = None, mr_created_at = now, mr_updated_at = now\<rparr>"

text \<open>\<open>PRIMARY KEY(id)\<close> and the partial unique index on \<open>(tenant_id, source_id, idempotency_key)\<close>.\<close>

definition mr_key :: "memory_row \<Rightarrow> (string \<times> string \<times> string) option" where
  "mr_key r = map_option (\<lambda>key. (mr_tenant_id r, mr_source_id r, key)) (mr_idempotency_key r)"

definition mr_insert :: "memory_row \<Rightarrow> memory_row list \<Rightarrow> memory_row list result" where
  "mr_insert n rows = (if \<exists>r \<in> set rows. mr_id r = mr_id n \<or> (mr_key n \<noteq> None \<and> mr_key r = mr_key n)
     then Inl IntegrityError else Inr (rows @ [n]))"

definition memory_replays :: "remember_args \<Rightarrow> memory_row \<Rightarrow> bool" where
  "memory_replays a r \<longleftrightarrow> mr_scope r = mm_scope a \<and> mr_subject_id r = mm_subject_id a \<and> mr_kind r = mm_kind a
     \<and> mr_text r = mm_text a \<and> stored_json_matches (Some (mr_metadata_json r)) (memory_metadata a)
     \<and> mr_confidence r = mm_confidence a \<and> mr_source_event_id r = mm_source_event_id a
     \<and> mr_created_by r = mm_created_by a \<and> mr_expires_at r = mm_expires_at a"

definition mr_by_key :: "remember_args \<Rightarrow> string \<Rightarrow> memory_row \<Rightarrow> bool" where
  "mr_by_key a key r \<longleftrightarrow> mr_tenant_id r = mm_tenant_id a \<and> mr_source_id r = mm_source_id a \<and> mr_idempotency_key r = Some key"

definition validate_remember :: "remember_args \<Rightarrow> unit result" where
  "validate_remember a =
     (if blank (mm_tenant_id a) then Inl (ValueError ''tenant_id is required'')
      else if blank (mm_source_id a) then Inl (ValueError ''source_id is required'')
      else if blank (mm_scope a) then Inl (ValueError ''scope is required'')
      else if blank (mm_subject_id a) then Inl (ValueError ''subject_id is required'')
      else if blank (mm_text a) then Inl (ValueError ''text is required'')
      else Inr ())"

definition remember :: "int \<Rightarrow> string \<Rightarrow> remember_args \<Rightarrow> memory_row list \<Rightarrow> ((string \<times> bool) \<times> memory_row list) result" where
  "remember now uuid a rows =
     rbind (validate_remember a) (\<lambda>_.
     let n = new_memory_row now uuid a in
     case mm_idempotency_key a of
       None \<Rightarrow> rbind (mr_insert n rows) (\<lambda>rows'. Inr ((mr_id n, True), rows'))
     | Some key \<Rightarrow>
         (case mr_insert n rows of
            Inr rows' \<Rightarrow> Inr ((mr_id n, True), rows')
          | Inl e \<Rightarrow>
              (case fetchone (mr_by_key a key) rows of
                 None \<Rightarrow> Inl (RuntimeError ''memory insert conflict did not resolve to the idempotency key'')
               | Some existing \<Rightarrow>
                   rbind (require_idempotent_replay (memory_replays a existing) ''memory record'' key (mr_id existing))
                     (\<lambda>_. Inr ((mr_id existing, False), rows)))))"

subsection \<open>Reading\<close>

record memory_record =
  mo_id :: string
  mo_tenant_id :: string
  mo_source_id :: string
  mo_scope :: string
  mo_subject_id :: string
  mo_kind :: string
  mo_text :: string
  mo_metadata :: "(string \<times> json) list"
  mo_confidence :: rat
  mo_source_event_id :: "string option"
  mo_created_by :: "string option"
  mo_idempotency_key :: "string option"
  mo_expires_at :: "int option"
  mo_deleted_at :: "int option"
  mo_created_at :: int
  mo_updated_at :: int

definition memory_json_dict :: "stored_json \<Rightarrow> (string \<times> json) list" where
  "memory_json_dict v = (case v of Encoded (JObj kvs) \<Rightarrow> kvs | _ \<Rightarrow> [])"

definition row_to_memory :: "memory_row \<Rightarrow> memory_record" where
  "row_to_memory r = \<lparr>mo_id = mr_id r, mo_tenant_id = mr_tenant_id r, mo_source_id = mr_source_id r, mo_scope = mr_scope r,
     mo_subject_id = mr_subject_id r, mo_kind = mr_kind r, mo_text = mr_text r,
     mo_metadata = memory_json_dict (mr_metadata_json r), mo_confidence = mr_confidence r,
     mo_source_event_id = mr_source_event_id r, mo_created_by = mr_created_by r, mo_idempotency_key = mr_idempotency_key r,
     mo_expires_at = mr_expires_at r, mo_deleted_at = mr_deleted_at r, mo_created_at = mr_created_at r,
     mo_updated_at = mr_updated_at r\<rparr>"

definition mr_in :: "string \<Rightarrow> string \<Rightarrow> memory_row \<Rightarrow> bool" where
  "mr_in tenant source r \<longleftrightarrow> mr_tenant_id r = tenant \<and> mr_source_id r = source"

definition mr_live :: "int \<Rightarrow> memory_row \<Rightarrow> bool" where
  "mr_live now r \<longleftrightarrow> mr_deleted_at r = None \<and> (mr_expires_at r = None \<or> null_gt (mr_expires_at r) now)"

definition get_memory :: "int \<Rightarrow> string \<Rightarrow> string \<Rightarrow> string \<Rightarrow> memory_row list \<Rightarrow> memory_record option" where
  "get_memory now k tenant source rows =
     map_option row_to_memory (fetchone (\<lambda>r. mr_in tenant source r \<and> mr_id r = k \<and> mr_live now r) rows)"

subsection \<open>Searching\<close>

text \<open>\<open>_TOKEN_RE.findall\<close>: the maximal runs of at least three token characters.\<close>

definition token_char :: "char \<Rightarrow> bool" where
  "token_char c \<longleftrightarrow> (let n = (of_char c :: nat) in 65 \<le> n \<and> n \<le> 90 \<or> 97 \<le> n \<and> n \<le> 122 \<or> 48 \<le> n \<and> n \<le> 57)
     \<or> c \<in> set ''_./-''"

fun token_runs :: "string \<Rightarrow> string \<Rightarrow> string list" where
  "token_runs acc [] = (if acc = [] then [] else [rev acc])"
| "token_runs acc (c # cs) =
     (if token_char c then token_runs (c # acc) cs
      else (if acc = [] then [] else [rev acc]) @ token_runs [] cs)"

definition strip_chars :: "string \<Rightarrow> string \<Rightarrow> string" where
  "strip_chars chars s = rev (dropWhile (\<lambda>c. c \<in> set chars) (rev (dropWhile (\<lambda>c. c \<in> set chars) s)))"

definition memory_tokens :: "string \<Rightarrow> string list" where
  "memory_tokens t = map (\<lambda>w. map ascii_lower (strip_chars ''./-_'' w))
     (filter (\<lambda>w. strip_chars ''./-_'' w \<noteq> []) (filter (\<lambda>w. 3 \<le> length w) (token_runs [] t)))"

definition match_query :: "string list \<Rightarrow> string" where
  "match_query tokens = join '' OR '' (map (\<lambda>t. [CHR 0x22] @ t @ [CHR 0x22]) (sort (remdups tokens)))"

record search_args =
  se_tenant_id :: string
  se_source_id :: string
  se_query :: string
  se_scope :: "string option"
  se_subject_id :: "string option"
  se_kind :: "string option"
  se_limit :: int

definition search_filter :: "int \<Rightarrow> search_args \<Rightarrow> memory_row \<Rightarrow> bool" where
  "search_filter now a r \<longleftrightarrow> mr_in (se_tenant_id a) (se_source_id a) r \<and> mr_live now r
     \<and> opt_clause (se_scope a) (mr_scope r) \<and> opt_clause (se_subject_id a) (mr_subject_id r) \<and> opt_clause (se_kind a) (mr_kind r)"

definition safe_limit :: "int \<Rightarrow> nat" where
  "safe_limit limit = nat (max 1 (min limit 50))"

text \<open>\<open>ORDER BY updated_at DESC, rowid DESC\<close>.\<close>

definition newest_first :: "memory_row list \<Rightarrow> memory_row list" where
  "newest_first rows = rev (order_by mr_updated_at rows)"

definition search_memory ::
  "(string \<Rightarrow> memory_row list \<Rightarrow> memory_row \<Rightarrow> rat option) \<Rightarrow> int \<Rightarrow> search_args \<Rightarrow> memory_row list \<Rightarrow> memory_record list" where
  "search_memory fts now a rows =
     (let tokens = memory_tokens (se_query a) in
      if tokens = [] then map row_to_memory (take (safe_limit (se_limit a)) (newest_first (select_where (search_filter now a) rows)))
      else let rank = fts (match_query tokens) rows in
        map row_to_memory (take (safe_limit (se_limit a))
          (order_by (\<lambda>r. the (rank r)) (newest_first (select_where (\<lambda>r. rank r \<noteq> None \<and> search_filter now a r) rows)))))"

subsection \<open>Forgetting\<close>

definition forget_memory :: "int \<Rightarrow> string \<Rightarrow> string \<Rightarrow> string \<Rightarrow> memory_row list \<Rightarrow> bool \<times> memory_row list" where
  "forget_memory now k tenant source rows =
     (let p = (\<lambda>r. mr_in tenant source r \<and> mr_id r = k \<and> mr_deleted_at r = None)
      in (rowcount p rows > 0, update_where p (\<lambda>r. r\<lparr>mr_deleted_at := Some now, mr_updated_at := now\<rparr>) rows))"

subsection \<open>The table and its operations\<close>

definition mem_inv :: "memory_row list \<Rightarrow> bool" where
  "mem_inv rows \<longleftrightarrow> distinct (map mr_id rows) \<and> unique_key mr_key rows"

datatype mem_op = OpRemember int string remember_args | OpForget int string string string


inductive mem_step :: "mem_op \<Rightarrow> memory_row list \<Rightarrow> memory_row list \<Rightarrow> bool" where
  step_remember: "remember now uuid a rows = Inr (res, rows') \<Longrightarrow> mem_step (OpRemember now uuid a) rows rows'"
| step_forget: "forget_memory now k tenant source rows = (b, rows') \<Longrightarrow> mem_step (OpForget now k tenant source) rows rows'"

inductive_cases mem_stepE: "mem_step op rows rows'"

text \<open>A row keeps its content; once it is marked as deleted it does not change.\<close>

definition mr_later :: "memory_row \<Rightarrow> memory_row \<Rightarrow> bool" where
  "mr_later r r' \<longleftrightarrow> r' = r \<or> (mr_deleted_at r = None \<and> (\<exists>now. r' = r\<lparr>mr_deleted_at := Some now, mr_updated_at := now\<rparr>))"

lemma mr_laterD:
  "mr_later r r' \<Longrightarrow> mr_id r' = mr_id r" "mr_later r r' \<Longrightarrow> mr_in t s r' = mr_in t s r" "mr_later r r' \<Longrightarrow> mr_key r' = mr_key r"
  "mr_later r r' \<Longrightarrow> mr_deleted_at r \<noteq> None \<Longrightarrow> r' = r"
  by (auto simp: mr_later_def mr_in_def mr_key_def)

lemma mr_later_refl [simp]: "mr_later r r"
  by (simp add: mr_later_def)

lemma new_memory_row_simps [simp]:
  "mr_id (new_memory_row now uuid a) = ''mem_'' @ uuid" "mr_tenant_id (new_memory_row now uuid a) = mm_tenant_id a"
  "mr_source_id (new_memory_row now uuid a) = mm_source_id a" "mr_idempotency_key (new_memory_row now uuid a) = mm_idempotency_key a"
  "mr_expires_at (new_memory_row now uuid a) = mm_expires_at a" "mr_deleted_at (new_memory_row now uuid a) = None"
  by (simp_all add: new_memory_row_def)

lemma remember_rows:
  assumes "remember now uuid a rows = Inr ((k, created), rows')"
  shows "if created then mr_insert (new_memory_row now uuid a) rows = Inr rows' \<and> k = ''mem_'' @ uuid
    else rows' = rows \<and> (\<exists>key r. mm_idempotency_key a = Some key \<and> fetchone (mr_by_key a key) rows = Some r \<and> mr_id r = k \<and> memory_replays a r)"
  using assms by (auto simp: remember_def Let_def rbind_eq_Inr require_idempotent_replay_def new_memory_row_def
      split: option.splits sum.splits if_splits)

lemma mr_insert_rows:
  "mr_insert n rows = Inr rows' \<Longrightarrow> rows' = rows @ [n] \<and> (\<forall>r \<in> set rows. mr_id r \<noteq> mr_id n \<and> (mr_key n \<noteq> None \<longrightarrow> mr_key r \<noteq> mr_key n))"
  by (auto simp: mr_insert_def split: if_splits)

lemma mem_inv_insert: "mem_inv rows \<Longrightarrow> mr_insert n rows = Inr rows' \<Longrightarrow> mem_inv rows'"
  by (drule mr_insert_rows) (auto simp: mem_inv_def unique_key_append)

lemma mem_step_inv: "mem_step op rows rows' \<Longrightarrow> mem_inv rows \<Longrightarrow> mem_inv rows'"
proof (induction rule: mem_step.induct)
  case (step_remember now uuid a rows res rows')
  then show ?case using remember_rows [of now uuid a rows "fst res" "snd res" rows'] mem_inv_insert
    by (auto split: if_splits)
next
  case (step_forget now k tenant source rows b rows')
  then show ?case
    by (auto simp: forget_memory_def Let_def mem_inv_def unique_key_update_where mr_key_def map_update_where)
qed

lemma mem_step_later: "mem_step op rows rows' \<Longrightarrow> rows_extend mr_later rows rows'"
proof (induction rule: mem_step.induct)
  case (step_remember now uuid a rows res rows')
  then show ?case using remember_rows [of now uuid a rows "fst res" "snd res" rows']
    by (auto dest!: mr_insert_rows split: if_splits intro: rows_extend_refl rows_extend_append)
next
  case (step_forget now k tenant source rows b rows')
  then show ?case by (auto simp: forget_memory_def Let_def mr_later_def intro!: rows_extend_update_where)
qed

lemma steps_mem_inv: "steps mem_step ops rows rows' \<Longrightarrow> mem_inv rows \<Longrightarrow> mem_inv rows'"
  by (erule steps_invariant) (auto intro: mem_step_inv)

text \<open>A deleted row stays deleted; a row that no operation of its conversation forgets stays as it is.\<close>

lemma steps_deleted:
  assumes "steps mem_step ops rows rows'" and "r \<in> set rows" and "mr_deleted_at r \<noteq> None"
  shows "r \<in> set rows'"
  using assms(1,2)
proof (rule steps_invariant)
  show "r \<in> set t" if "r \<in> set s" "mem_step l s t" for s t l
    using rows_extend_member [OF mem_step_later [OF that(2)] that(1)] mr_laterD(4) assms(3) by blast
qed

lemma step_unforgotten:
  assumes "mem_step op rows rows'" and "r \<in> set rows" and "\<And>now. op \<noteq> OpForget now (mr_id r) (mr_tenant_id r) (mr_source_id r)"
  shows "r \<in> set rows'"
  using assms
proof (induction rule: mem_step.induct)
  case (step_remember now uuid a rows res rows')
  then show ?case using remember_rows [of now uuid a rows "fst res" "snd res" rows'] by (auto dest!: mr_insert_rows split: if_splits)
next
  case (step_forget now k tenant source rows b rows')
  then have "\<not> (mr_in tenant source r \<and> mr_id r = k \<and> mr_deleted_at r = None)" by (auto simp: mr_in_def)
  then show ?case using step_forget by (auto simp: forget_memory_def Let_def update_where_def image_iff intro!: bexI [of _ r])
qed

lemma steps_unforgotten:
  assumes "steps mem_step ops rows rows'" and "r \<in> set rows"
    and "\<forall>op \<in> set ops. \<forall>now. op \<noteq> OpForget now (mr_id r) (mr_tenant_id r) (mr_source_id r)"
  shows "r \<in> set rows'"
  using assms by (induction rule: steps.induct) (auto intro: step_unforgotten)

lemma get_memory_row:
  assumes "mem_inv rows" and "r \<in> set rows" and "mr_in tenant source r"
  shows "get_memory now (mr_id r) tenant source rows = (if mr_live now r then Some (row_to_memory r) else None)"
proof (cases "mr_live now r")
  case True
  then have "fetchone (\<lambda>x. mr_in tenant source x \<and> mr_id x = mr_id r \<and> mr_live now x) rows = Some r"
    using assms by (intro fetchone_pk [where k = mr_id]) (auto simp: mem_inv_def)
  then show ?thesis using True by (simp add: get_memory_def)
next
  case False
  then have "\<not> (mr_in tenant source x \<and> mr_id x = mr_id r \<and> mr_live now x)" if "x \<in> set rows" for x
    using that assms distinct_map_eq [of mr_id rows x r] by (auto simp: mem_inv_def)
  then show ?thesis using False by (auto simp: get_memory_def fetchone_def find_None_iff)
qed


lemma search_memory_rows:
  "x \<in> set (search_memory fts now a rows) \<Longrightarrow> \<exists>r \<in> set rows. x = row_to_memory r \<and> search_filter now a r"
  by (auto simp: search_memory_def Let_def newest_first_def select_where_def split: if_splits dest!: in_set_takeD)

subsection \<open>Properties\<close>

definition demo_memory :: remember_args where
  "demo_memory = \<lparr>mm_tenant_id = ''t'', mm_source_id = ''chat'', mm_scope = ''user'', mm_subject_id = ''u1'', mm_text = ''likes tea'',
     mm_kind = ''note'', mm_metadata = None, mm_confidence = 1, mm_source_event_id = None, mm_created_by = None,
     mm_idempotency_key = Some ''k'', mm_expires_at = Some 100\<rparr>"

definition demo_memory_row :: memory_row where
  "demo_memory_row = new_memory_row 5 ''u'' demo_memory"


lemma demo_remembered: "remember 5 ''u'' demo_memory [] = Inr ((''mem_u'', True), [demo_memory_row])"
  by (simp add: remember_def validate_remember_def demo_memory_row_def new_memory_row_def mr_insert_def demo_memory_def blank_def)
     (simp add: is_space_def py_whitespace_def)

lemma demo_mem_inv: "mem_inv [demo_memory_row]"
  by (simp add: mem_inv_def unique_key_def split: option.splits)

text \<open>What was remembered is kept: as long as the conversation does not forget a record and it has not expired, whatever else is
  remembered or forgotten in any conversation, reading it by its id gives the record with the content it was remembered with, and
  remembering it again under its key changes nothing and answers with the same id.\<close>

theorem remembered_until_forgotten:
  assumes inv: "mem_inv rows" and rem: "remember now uuid a rows = Inr ((k, True), rows1)" and ops: "steps mem_step ops rows1 rows2"
    and kept: "\<forall>op \<in> set ops. \<forall>n. op \<noteq> OpForget n k (mm_tenant_id a) (mm_source_id a)"
    and live: "mm_expires_at a = None \<or> null_gt (mm_expires_at a) later"
  shows "get_memory later k (mm_tenant_id a) (mm_source_id a) rows2 = Some (row_to_memory (new_memory_row now uuid a))
    \<and> (mm_idempotency_key a \<noteq> None \<and> wf_json (memory_metadata a) \<longrightarrow> remember later' uuid' a rows2 = Inr ((k, False), rows2))"
proof -
  let ?n = "new_memory_row now uuid a"
  have ins: "mr_insert ?n rows = Inr rows1" "k = ''mem_'' @ uuid" using remember_rows [OF rem] by simp_all
  have new: "rows1 = rows @ [?n]" "mem_inv rows1" "k = mr_id ?n"
    using mr_insert_rows [OF ins(1)] mem_inv_insert [OF inv ins(1)] ins(2) by simp_all
  have n2: "?n \<in> set rows2" "mem_inv rows2"
    using steps_unforgotten [OF ops, of ?n] steps_mem_inv [OF ops] kept new by simp_all
  have scope: "mr_in (mm_tenant_id a) (mm_source_id a) ?n" "mr_live later ?n"
    using live by (simp_all add: mr_in_def mr_live_def)
  have again: "remember later' uuid' a rows2 = Inr ((k, False), rows2)" if key: "mm_idempotency_key a = Some key" and wf: "wf_json (memory_metadata a)" for key
  proof -
    have k: "mr_key ?n = Some (mm_tenant_id a, mm_source_id a, key)" "mr_key (new_memory_row later' uuid' a) = mr_key ?n"
      using key by (simp_all add: mr_key_def)
    then have "mr_insert (new_memory_row later' uuid' a) rows2 = Inl IntegrityError" using n2(1) by (force simp: mr_insert_def)
    moreover have "fetchone (mr_by_key a key) rows2 = Some ?n"
    proof (cases "fetchone (mr_by_key a key) rows2")
      case None
      then show ?thesis using n2(1) key by (auto simp: fetchone_None mr_by_key_def)
    next
      case (Some r)
      then have "r \<in> set rows2" "mr_key r = mr_key ?n"
        using key by (auto simp: fetchone_def find_Some_iff mr_by_key_def mr_key_def)
      then show ?thesis using Some n2 unique_keyD [of mr_key rows2 r ?n] k(1) by (auto simp: mem_inv_def)
    qed
    moreover have "validate_remember a = Inr ()" using rem by (auto simp: remember_def rbind_eq_Inr)
    moreover have "memory_replays a ?n" using wf by (simp add: memory_replays_def new_memory_row_def)
    ultimately show ?thesis using key new(3) by (simp add: remember_def require_idempotent_replay_def)
  qed
  then show ?thesis using get_memory_row [OF n2(2,1) scope(1), of later] scope(2) new(3) by auto
qed

lemma remembered_until_forgotten_witness:
  "get_memory 50 ''mem_u'' ''t'' ''chat'' [demo_memory_row] = Some (row_to_memory demo_memory_row)
   \<and> remember 60 ''v'' demo_memory [demo_memory_row] = Inr ((''mem_u'', False), [demo_memory_row])"
  using remembered_until_forgotten [OF _ demo_remembered steps_Nil, of 50 60 "''v''"]
  by (simp add: mem_inv_def demo_memory_row_def [symmetric]) (simp add: demo_memory_def memory_metadata_def)

text \<open>A record that was forgotten is gone for good: whatever is remembered or forgotten afterwards, and also when it is remembered
  again under its key, it cannot be read by its id and no search of any conversation finds it.\<close>

theorem forgotten_memory_gone:
  assumes inv: "mem_inv rows" and "forget_memory now k tenant source rows = (True, rows1)" and ops: "steps mem_step ops rows1 rows2"
  shows "get_memory later k tenant source rows2 = None \<and> k \<notin> mo_id ` set (search_memory fts later a rows2)"
proof -
  let ?p = "\<lambda>r. mr_in tenant source r \<and> mr_id r = k \<and> mr_deleted_at r = None"
  let ?f = "\<lambda>r. r\<lparr>mr_deleted_at := Some now, mr_updated_at := now\<rparr>"
  have rows1: "rows1 = update_where ?p ?f rows" "0 < rowcount ?p rows"
    using assms(2) by (simp_all add: forget_memory_def Let_def)
  then obtain r where r: "r \<in> set rows" "?p r" by (auto simp: rowcount_def filter_empty_conv)
  have r1: "?f r \<in> set rows1" using r by (auto simp: rows1(1) update_where_def)
  have "mem_inv rows1" using mem_step_inv [OF step_forget [OF assms(2)] inv] .
  then have inv2: "mem_inv rows2" using steps_mem_inv [OF ops] by simp
  have r2: "?f r \<in> set rows2" using steps_deleted [OF ops r1] by simp
  have "get_memory later k tenant source rows2 = None"
    using get_memory_row [OF inv2 r2, of tenant source later] r(2) by (simp add: mr_in_def mr_live_def)
  moreover have "k \<noteq> mo_id x" if found: "x \<in> set (search_memory fts later a rows2)" for x
  proof
    assume "k = mo_id x"
    then obtain y where y: "y \<in> set rows2" "mr_id y = k" "search_filter later a y"
      using search_memory_rows [OF found] by (auto simp: row_to_memory_def)
    then have "y = ?f r" using inv2 r2 r(2) distinct_map_eq [of mr_id rows2 y "?f r"] by (auto simp: mem_inv_def)
    then show False using y(3) by (simp add: search_filter_def mr_live_def)
  qed
  ultimately show ?thesis by auto
qed

lemma forgotten_memory_gone_witness:
  "get_memory 50 ''mem_u'' ''t'' ''chat'' (snd (forget_memory 20 ''mem_u'' ''t'' ''chat'' [demo_memory_row])) = None
   \<and> get_memory 50 ''mem_u'' ''t'' ''chat'' [demo_memory_row] \<noteq> None"
proof -
  have "forget_memory 20 ''mem_u'' ''t'' ''chat'' [demo_memory_row]
      = (True, snd (forget_memory 20 ''mem_u'' ''t'' ''chat'' [demo_memory_row]))"
    by (simp add: forget_memory_def Let_def demo_memory_row_def new_memory_row_def demo_memory_def mr_in_def)
  from forgotten_memory_gone [OF demo_mem_inv this steps_Nil, of 50] show ?thesis
    by (simp add: get_memory_def fetchone_def mr_in_def mr_live_def demo_memory_row_def new_memory_row_def demo_memory_def)
qed




end
