(* ===== verification/Context_Builder.thy ===== *)
theory Context_Builder
  imports Planner Reconciliation Cron Sessions Batching
begin

section \<open>The context of a planner turn\<close>

text \<open>
  Models \<open>context/builder.py\<close> with the route result of \<open>sessions/routing.py\<close>: what the planner is told about the
  conversation of an event is read from the tables of the sessions, the mailbox, the actions, the outbound messages, the
  scheduled jobs and the batches.  Every list is limited, texts are clipped and fields with secret names are left out.  The order of rows
  that a query does not determine is their order in the table.
\<close>

subsection \<open>Limits, texts, payloads\<close>

record context_limits =
  cl_max_batch_messages :: int
  cl_max_sessions :: int
  cl_max_mailbox :: int
  cl_max_actions :: int
  cl_max_outbound :: int
  cl_max_cron :: int
  cl_max_text_chars :: int

definition default_context_limits :: context_limits where
  "default_context_limits = \<lparr>cl_max_batch_messages = 20, cl_max_sessions = 8, cl_max_mailbox = 12, cl_max_actions = 12,
     cl_max_outbound = 12, cl_max_cron = 12, cl_max_text_chars = 1200\<rparr>"

definition clip :: "string \<Rightarrow> int \<Rightarrow> string" where
  "clip t n = (if int (length t) \<le> n then t else if n \<le> 3 then replicate (nat n) CHR ''.''
     else take (nat (n - 3)) t @ ''...'')"

definition secret_keys :: "string list" where
  "secret_keys = [''auth_header'', ''token'', ''password'', ''secret'']"

fun compact_payload :: "int \<Rightarrow> json \<Rightarrow> json"
  and compact_fields :: "int \<Rightarrow> (string \<times> json) list \<Rightarrow> (string \<times> json) list"
  and compact_items :: "int \<Rightarrow> json list \<Rightarrow> json list"
where
  "compact_payload n (JObj kvs) = JObj (compact_fields n kvs)"
| "compact_payload n (JArr js) = JArr (take 20 (compact_items n js))"
| "compact_payload n (JStr s) = JStr (clip s n)"
| "compact_payload n v = v"
| "compact_fields n [] = []"
| "compact_fields n ((k, v) # kvs) =
     (if k \<in> set secret_keys then compact_fields n kvs else (k, compact_payload n v) # compact_fields n kvs)"
| "compact_items n [] = []"
| "compact_items n (v # vs) = compact_payload n v # compact_items n vs"

definition context_json :: "stored_json \<Rightarrow> json" where
  "context_json raw = (case raw of Encoded v \<Rightarrow> v | Raw t \<Rightarrow> JObj [])"

text \<open>\<open>str(payload.get(key) or "")\<close>\<close>

definition text_or_empty :: "json \<Rightarrow> string \<Rightarrow> string" where
  "text_or_empty payload key = (let v = json_get payload key in if truthy v then py_str v else [])"

definition context_source_id :: "agent_event \<Rightarrow> string result" where
  "context_source_id e = (let s = strip (text_or_empty (ae_payload e) ''source_id'') in
     if s = [] then Inl (ValueError ''planner event must contain a non-empty source_id'') else Inr s)"

definition opt_int :: "int option \<Rightarrow> json" where
  "opt_int v = (case v of None \<Rightarrow> JNull | Some i \<Rightarrow> JInt i)"

text \<open>\<open>int(v)\<close>\<close>

definition int_of_json :: "json \<Rightarrow> int result" where
  "int_of_json v = (case v of
     JInt i \<Rightarrow> Inr i
   | JBool b \<Rightarrow> Inr (if b then 1 else 0)
   | JFloat q t \<Rightarrow> Inr (if q < 0 then ceiling q else floor q)
   | JStr t \<Rightarrow> (case int_of_text t of
        Some i \<Rightarrow> Inr i
      | None \<Rightarrow> Inl (ValueError (''invalid literal for int() with base 10: '' @ repr_str t)))
   | _ \<Rightarrow> Inl (TypeError (''int() argument must be a string, a bytes-like object or a real number, not ''
        @ repr_str (case v of JArr _ \<Rightarrow> ''list'' | JObj _ \<Rightarrow> ''dict'' | _ \<Rightarrow> ''NoneType''))))"

subsection \<open>The tables\<close>

record context_db =
  cx_sessions :: "session_row list"
  cx_mailbox :: "mailbox_row list"
  cx_actions :: "action_row list"
  cx_outbound :: "outbound_row list"
  cx_cron :: "cron_row list"
  cx_batches :: "batch_row list"
  cx_batch_messages :: "batch_message_row list"

subsection \<open>The trigger and its batch\<close>

definition trigger_context :: "agent_event \<Rightarrow> string \<Rightarrow> json" where
  "trigger_context e source = JObj [(''event_id'', JStr (ae_id e)), (''tenant_id'', JStr (ae_tenant_id e)),
     (''recipient'', JStr (ae_recipient e)), (''message_type'', JStr (ae_message_type e)),
     (''correlation_id'', opt_str (ae_correlation_id e)), (''source_id'', JStr source),
     (''channel'', json_get (ae_payload e) ''channel''), (''user_id'', json_get (ae_payload e) ''user_id'')]"

definition message_context :: "context_limits \<Rightarrow> json \<Rightarrow> json" where
  "message_context limits payload = JObj [(''text'', JStr (clip (text_or_empty payload ''text'') (cl_max_text_chars limits))),
     (''message_at'', json_get payload ''message_at''), (''raw_event_id'', json_get payload ''raw_event_id''),
     (''source_event_id'', json_get payload ''source_event_id''),
     (''from_user_id'', if truthy (json_get payload ''from_user_id'') then json_get payload ''from_user_id'' else json_get payload ''user_id''),
     (''from_username'', json_get payload ''from_username'')]"

definition batch_rows :: "context_limits \<Rightarrow> string \<Rightarrow> string \<Rightarrow> string \<Rightarrow> context_db \<Rightarrow> batch_message_row list" where
  "batch_rows limits batch_id tenant source db = sql_limit (cl_max_batch_messages limits)
     (order_by (\<lambda>m. (bm_message_at m, bm_created_at m)) (select_where (\<lambda>m. bm_batch_id m = batch_id \<and> bm_tenant_id m = tenant
        \<and> bm_source_id m = source \<and> (\<exists>b \<in> set (cx_batches db). bt_id b = batch_id \<and> bt_tenant_id b = tenant \<and> bt_source_id b = source))
      (cx_batch_messages db)))"

definition batch_context :: "context_limits \<Rightarrow> agent_event \<Rightarrow> string \<Rightarrow> context_db \<Rightarrow> json result" where
  "batch_context limits e source db =
     (let payload = ae_payload e; n = cl_max_text_chars limits; batch_id = json_get payload ''batch_id'' in
      case json_get payload ''batch_messages'' of
        JArr (m # ms) \<Rightarrow>
          rbind (let c = json_get payload ''batch_message_count'' in if truthy c then int_of_json c else Inr (int (length (m # ms)))) (\<lambda>count.
          Inr (JObj [(''batch_id'', batch_id), (''message_count'', JInt count),
            (''text'', JStr (clip (text_or_empty payload ''text'') n)),
            (''messages'', JArr (map (message_context limits) (slice_to (cl_max_batch_messages limits) (m # ms))))]))
      | _ \<Rightarrow>
        (case batch_id of
           JStr k \<Rightarrow>
             (let rows = batch_rows limits k (ae_tenant_id e) source db; parsed = map (\<lambda>m. JObj (bm_payload_json m)) rows in
              if rows = [] then Inr JNull
              else Inr (JObj [(''batch_id'', JStr k), (''message_count'', JInt (int (length parsed))),
                (''text'', JStr (clip (join [CHR 0x0A] (map (\<lambda>p. text_or_empty p ''text'') parsed)) n)),
                (''messages'', JArr (map (message_context limits) parsed))]))
         | _ \<Rightarrow>
             (let t = text_or_empty payload ''text'' in
              Inr (JObj [(''batch_id'', JNull), (''message_count'', JInt (if t \<noteq> [] then 1 else 0)), (''text'', JStr (clip t n)),
                (''messages'', JArr [])]))))"

subsection \<open>Sessions and routing\<close>

record session_snapshot =
  sp_session_id :: string
  sp_kind :: string
  sp_backend :: string
  sp_status :: string
  sp_title :: "string option"
  sp_cwd :: "string option"
  sp_topic_key :: "string option"
  sp_summary :: "string option"
  sp_keywords :: "string list"
  sp_metadata :: "(string \<times> json) list"

record route_hint =
  rh_action :: string
  rh_confidence :: json
  rh_session_id :: "string option"
  rh_reasons :: "string list"
  rh_candidates :: "json list"

record route_result =
  rr_snapshots :: "session_snapshot list"
  rr_hint :: route_hint

definition snapshot_dict :: "session_snapshot \<Rightarrow> (string \<times> json) list" where
  "snapshot_dict p = [(''session_id'', JStr (sp_session_id p)), (''kind'', JStr (sp_kind p)), (''backend'', JStr (sp_backend p)),
     (''status'', JStr (sp_status p)), (''title'', opt_str (sp_title p)), (''cwd'', opt_str (sp_cwd p)),
     (''topic_key'', opt_str (sp_topic_key p)), (''summary'', opt_str (sp_summary p)),
     (''keywords'', JArr (map JStr (sp_keywords p))), (''metadata'', JObj (sp_metadata p))]"

definition mailbox_state_text :: "mailbox_state \<Rightarrow> string" where
  "mailbox_state_text st = (case st of MbQueued \<Rightarrow> ''queued'' | MbSending \<Rightarrow> ''sending'' | MbSent \<Rightarrow> ''sent''
     | MbFailed \<Rightarrow> ''failed'' | MbCancelled \<Rightarrow> ''cancelled'')"

text \<open>\<open>GROUP BY status\<close>: the groups that occur, in the order of their keys.\<close>

definition mailbox_counts :: "string \<Rightarrow> mailbox_row list \<Rightarrow> json" where
  "mailbox_counts session mailbox = JObj (List.map_filter (\<lambda>st.
     let c = rowcount (\<lambda>m. mb_session_id m = session \<and> mb_status m = st) mailbox
     in if c = 0 then None else Some (mailbox_state_text st, JInt (int c))) [MbFailed, MbQueued, MbSending])"

text \<open>A \<open>NULL\<close> is the smallest value, so it comes last.\<close>

definition desc :: "int option \<Rightarrow> int \<times> int" where
  "desc v = (case v of None \<Rightarrow> (1, 0) | Some i \<Rightarrow> (0, - i))"

text \<open>In \<open>routed_by_id\<close> the last snapshot of a session wins.\<close>

definition routed_base :: "session_snapshot list \<Rightarrow> string \<Rightarrow> (string \<times> json) list" where
  "routed_base routed session = (case find (\<lambda>p. sp_session_id p = session) (rev routed) of None \<Rightarrow> [] | Some p \<Rightarrow> snapshot_dict p)"

definition session_item :: "session_snapshot list \<Rightarrow> context_db \<Rightarrow> session_row \<Rightarrow> json" where
  "session_item routed db r = merge_fields (JObj (routed_base routed (rs_id r))) [(''session_id'', JStr (rs_id r)), (''kind'', JStr (rs_kind r)),
     (''backend'', JStr (rs_backend r)), (''status'', JStr (session_state_text (rs_status r))), (''title'', JStr (rs_title r)),
     (''cwd'', JStr (rs_cwd r)), (''last_used_at'', opt_int (rs_last_used_at r)), (''current_action_id'', opt_str (rs_current_action_id r)),
     (''last_error'', opt_str (rs_last_error r)), (''mailbox'', mailbox_counts (rs_id r) (cx_mailbox db))]"

definition session_rows :: "context_limits \<Rightarrow> string \<Rightarrow> string \<Rightarrow> context_db \<Rightarrow> session_row list" where
  "session_rows limits tenant source db = sql_limit (cl_max_sessions limits)
     (order_by (\<lambda>r. (desc (rs_last_used_at r), - rs_updated_at r)) (select_where (\<lambda>r. rs_tenant_id r = tenant \<and> rs_source_id r = source
        \<and> rs_status r \<in> set [SsStarting, SsIdle, SsBusy, SsClosing, SsFailed]) (cx_sessions db)))"

definition session_context :: "context_limits \<Rightarrow> agent_event \<Rightarrow> string \<Rightarrow> session_snapshot list \<Rightarrow> context_db \<Rightarrow> json list" where
  "session_context limits e source routed db =
     slice_to (cl_max_sessions limits) (map (session_item routed db) (session_rows limits (ae_tenant_id e) source db))"

definition hint_dict :: "route_hint \<Rightarrow> json" where
  "hint_dict h = JObj [(''action'', JStr (rh_action h)), (''confidence'', rh_confidence h), (''session_id'', opt_str (rh_session_id h)),
     (''reasons'', JArr (map JStr (rh_reasons h))), (''candidates'', JArr (rh_candidates h))]"

text \<open>A hint to a session that the context does not list is withdrawn.\<close>

definition checked_hint :: "route_hint \<Rightarrow> json list \<Rightarrow> route_hint" where
  "checked_hint h sessions =
     (if (case rh_session_id h of None \<Rightarrow> False | Some k \<Rightarrow> k \<in> set (map (\<lambda>i. py_str (json_get i ''session_id'')) sessions)) then h
      else if rh_action h = ''route_existing'' then h\<lparr>rh_session_id := None, rh_action := ''no_match'', rh_confidence := JFloat 0 ''0.0''\<rparr>
      else h\<lparr>rh_session_id := None\<rparr>)"

subsection \<open>Mailbox, actions, outbound messages, scheduled jobs\<close>

definition mailbox_entry :: "context_limits \<Rightarrow> mailbox_row \<times> session_row \<Rightarrow> json" where
  "mailbox_entry limits x = (case x of (m, s) \<Rightarrow> JObj [(''id'', JStr (mb_id m)), (''session_id'', JStr (mb_session_id m)),
     (''session_kind'', JStr (rs_kind s)), (''session_backend'', JStr (rs_backend s)), (''session_title'', JStr (rs_title s)),
     (''source_event_id'', opt_str (mb_source_event_id m)), (''action_id'', opt_str (mb_action_id m)),
     (''status'', JStr (mailbox_state_text (mb_status m))), (''prompt'', JStr (clip (mb_prompt m) (cl_max_text_chars limits))),
     (''last_error'', opt_str (mb_last_error m)), (''created_at'', JInt (mb_created_at m)), (''updated_at'', JInt (mb_updated_at m))])"

definition mailbox_context :: "context_limits \<Rightarrow> agent_event \<Rightarrow> string \<Rightarrow> context_db \<Rightarrow> json list" where
  "mailbox_context limits e source db = map (mailbox_entry limits) (sql_limit (cl_max_mailbox limits)
     (order_by (\<lambda>x. mb_created_at (fst x))
       (List.map_filter (\<lambda>m. map_option (Pair m) (fetchone (\<lambda>s. rs_id s = mb_session_id m) (cx_sessions db)))
         (select_where (\<lambda>m. mb_tenant_id m = ae_tenant_id e \<and> mb_source_id m = source
            \<and> mb_status m \<in> set [MbQueued, MbSending, MbFailed]) (cx_mailbox db)))))"

definition action_item :: "context_limits \<Rightarrow> action_row \<Rightarrow> json" where
  "action_item limits r = JObj [(''id'', JStr (ac_id r)), (''kind'', JStr (ac_kind r)), (''status'', JStr (action_status_text (ac_status r))),
     (''approval_policy'', JStr (ac_approval_policy r)), (''source_id'', JStr (ac_source_id r)),
     (''source_event_id'', opt_str (ac_source_event_id r)),
     (''payload'', compact_payload (cl_max_text_chars limits) (context_json (ac_payload_json r))),
     (''approved_by'', opt_str (ac_approved_by r)), (''approved_at'', opt_int (ac_approved_at r)), (''executed_at'', opt_int (ac_executed_at r)),
     (''last_error'', opt_str (ac_last_error r)), (''created_at'', JInt (ac_created_at r)), (''updated_at'', JInt (ac_updated_at r))]"

text \<open>\<open>ORDER BY updated_at DESC, rowid DESC\<close>.\<close>

definition action_context :: "context_limits \<Rightarrow> agent_event \<Rightarrow> string \<Rightarrow> context_db \<Rightarrow> json list" where
  "action_context limits e source db = map (action_item limits) (sql_limit (cl_max_actions limits) (rev (order_by ac_updated_at
     (select_where (\<lambda>r. ac_tenant_id r = ae_tenant_id e \<and> ac_source_id r = source
        \<and> ac_status r \<in> set [ActPending, ActApproved, ActQueued, ActExecuting, ActFailed, ActUncertain]) (cx_actions db)))))"

definition outbound_item :: "context_limits \<Rightarrow> outbound_row \<Rightarrow> json" where
  "outbound_item limits r = JObj [(''id'', JStr (ob_id r)), (''channel'', JStr (ob_channel r)), (''destination_id'', JStr (ob_destination_id r)),
     (''status'', JStr (ob_status_text (ob_status r))), (''text'', JStr (clip (ob_text r) (cl_max_text_chars limits))),
     (''attempts'', JInt (ob_attempts r)), (''max_attempts'', JInt (ob_max_attempts r)), (''correlation_id'', opt_str (ob_correlation_id r)),
     (''last_error'', opt_str (ob_last_error r)), (''run_after'', JInt (ob_run_after r)), (''created_at'', JInt (ob_created_at r)),
     (''updated_at'', JInt (ob_updated_at r))]"

definition outbound_context :: "context_limits \<Rightarrow> agent_event \<Rightarrow> string \<Rightarrow> context_db \<Rightarrow> json list" where
  "outbound_context limits e source db = map (outbound_item limits) (sql_limit (cl_max_outbound limits)
     (order_by (\<lambda>r. (ob_run_after r, ob_created_at r)) (select_where (\<lambda>r. ob_tenant_id r = ae_tenant_id e \<and> ob_source_id r = source
        \<and> ob_status r \<in> set [ObQueued, ObLeased, ObSending, ObRetrying, ObUncertain, ObDeadLetter]) (cx_outbound db))))"

definition cron_state_text :: "cj_state \<Rightarrow> string" where
  "cron_state_text st = (case st of CjPending \<Rightarrow> ''pending'' | CjLeased \<Rightarrow> ''leased'' | CjFired \<Rightarrow> ''fired''
     | CjCancelled \<Rightarrow> ''cancelled'' | CjDeadLetter \<Rightarrow> ''dead_letter'')"

definition cron_item :: "context_limits \<Rightarrow> cron_row \<Rightarrow> json" where
  "cron_item limits r = JObj [(''id'', JStr (cj_id r)), (''name'', JStr (cj_name r)), (''status'', JStr (cron_state_text (cj_status r))),
     (''run_at'', JInt (cj_run_at r)), (''rrule'', opt_str (cj_rrule r)), (''timezone'', JStr (cj_timezone r)),
     (''attempts'', JInt (cj_attempts r)), (''max_attempts'', JInt (cj_max_attempts r)),
     (''payload'', compact_payload (cl_max_text_chars limits) (cj_payload_json r)), (''last_error'', opt_str (cj_last_error r)),
     (''created_at'', JInt (cj_created_at r)), (''updated_at'', JInt (cj_updated_at r))]"

definition cron_context :: "context_limits \<Rightarrow> agent_event \<Rightarrow> string \<Rightarrow> context_db \<Rightarrow> json list" where
  "cron_context limits e source db = map (cron_item limits) (sql_limit (cl_max_cron limits)
     (order_by (\<lambda>r. (cj_run_at r, cj_created_at r)) (select_where (\<lambda>r. cj_tenant_id r = ae_tenant_id e \<and> cj_source_id r = source
        \<and> cj_status r \<in> set [CjPending, CjLeased, CjDeadLetter]) (cx_cron db))))"

subsection \<open>The whole context\<close>

definition build_context :: "context_limits \<Rightarrow> agent_event \<Rightarrow> route_result \<Rightarrow> context_db \<Rightarrow> planner_context result" where
  "build_context limits e rr db =
     rbind (context_source_id e) (\<lambda>source.
     let sessions = session_context limits e source (rr_snapshots rr) db in
     rbind (batch_context limits e source db) (\<lambda>batch.
     Inr \<lparr>px_trigger = trigger_context e source,
       px_session_routing = JObj [(''route_hint'', hint_dict (checked_hint (rr_hint rr) sessions)), (''sessions'', JArr sessions)],
       px_batch = batch, px_sessions = JArr sessions, px_mailbox = JArr (mailbox_context limits e source db),
       px_actions = JArr (action_context limits e source db), px_outbound = JArr (outbound_context limits e source db),
       px_cron = JArr (cron_context limits e source db)\<rparr>))"

subsection \<open>Isolation of conversations\<close>

text \<open>Two states of the tables with the same rows of one conversation.\<close>

definition same_conversation :: "string \<Rightarrow> string \<Rightarrow> context_db \<Rightarrow> context_db \<Rightarrow> bool" where
  "same_conversation t s db db' \<longleftrightarrow>
     filter (\<lambda>r. rs_tenant_id r = t \<and> rs_source_id r = s) (cx_sessions db) = filter (\<lambda>r. rs_tenant_id r = t \<and> rs_source_id r = s) (cx_sessions db')
   \<and> filter (\<lambda>r. mb_tenant_id r = t \<and> mb_source_id r = s) (cx_mailbox db) = filter (\<lambda>r. mb_tenant_id r = t \<and> mb_source_id r = s) (cx_mailbox db')
   \<and> filter (\<lambda>r. ac_tenant_id r = t \<and> ac_source_id r = s) (cx_actions db) = filter (\<lambda>r. ac_tenant_id r = t \<and> ac_source_id r = s) (cx_actions db')
   \<and> filter (\<lambda>r. ob_tenant_id r = t \<and> ob_source_id r = s) (cx_outbound db) = filter (\<lambda>r. ob_tenant_id r = t \<and> ob_source_id r = s) (cx_outbound db')
   \<and> filter (\<lambda>r. cj_tenant_id r = t \<and> cj_source_id r = s) (cx_cron db) = filter (\<lambda>r. cj_tenant_id r = t \<and> cj_source_id r = s) (cx_cron db')
   \<and> filter (\<lambda>r. bt_tenant_id r = t \<and> bt_source_id r = s) (cx_batches db) = filter (\<lambda>r. bt_tenant_id r = t \<and> bt_source_id r = s) (cx_batches db')
   \<and> filter (\<lambda>r. bm_tenant_id r = t \<and> bm_source_id r = s) (cx_batch_messages db) = filter (\<lambda>r. bm_tenant_id r = t \<and> bm_source_id r = s) (cx_batch_messages db')"

text \<open>A prompt waits for a session of its own conversation.\<close>

definition prompts_in_scope :: "session_row list \<Rightarrow> mailbox_row list \<Rightarrow> bool" where
  "prompts_in_scope ss ms \<longleftrightarrow> distinct (map rs_id ss)
     \<and> (\<forall>m \<in> set ms. \<exists>r \<in> set ss. rs_id r = mb_session_id m \<and> rs_tenant_id r = mb_tenant_id m \<and> rs_source_id r = mb_source_id m)"

lemma insert_session_in_scope:
  "insert_session now uuid a db = Inr (k, db') \<Longrightarrow> prompts_in_scope (sd_sessions db) (sd_mailbox db)
     \<Longrightarrow> prompts_in_scope (sd_sessions db') (sd_mailbox db')"
  by (auto simp: insert_session_def Let_def prompts_in_scope_def split: if_splits)

lemma enqueue_prompt_in_scope:
  assumes "enqueue_prompt now uuid a db = Inr (x, db')" and "prompts_in_scope (sd_sessions db) (sd_mailbox db)"
  shows "prompts_in_scope (sd_sessions db') (sd_mailbox db')"
proof -
  consider "db' = db" | r where "get_session (pa_session_id a) (pa_tenant_id a) (pa_source_id a) db = Some r"
      "db' = db\<lparr>sd_mailbox := sd_mailbox db @ [new_mailbox_row now uuid a]\<rparr>"
  proof (cases "existing_prompts a (sd_mailbox db)")
    case Nil
    then show ?thesis using assms(1) that(2)
      by (cases "get_session (pa_session_id a) (pa_tenant_id a) (pa_source_id a) db") (auto simp: enqueue_prompt_def Let_def split: if_splits)
  next
    case (Cons r rs)
    then show ?thesis using assms(1) that(1) by (auto simp: enqueue_prompt_def rbind_eq_Inr)
  qed
  then show ?thesis
  proof cases
    case (2 r)
    then have "r \<in> set (sd_sessions db)" "rs_in (pa_session_id a) (pa_tenant_id a) (pa_source_id a) r"
      by (auto simp: get_session_def fetchone_def find_Some_iff)
    then show ?thesis using 2 assms(2) by (auto simp: prompts_in_scope_def rs_in_def new_mailbox_row_def)
  qed (use assms(2) in simp)
qed

lemma prompt_of_session:
  assumes "prompts_in_scope ss ms" and "m \<in> set ms" and "r \<in> set ss" and "rs_id r = mb_session_id m"
  shows "rs_tenant_id r = mb_tenant_id m \<and> rs_source_id r = mb_source_id m"
proof -
  obtain x where "x \<in> set ss" "rs_id x = mb_session_id m" "rs_tenant_id x = mb_tenant_id m" "rs_source_id x = mb_source_id m"
    using assms(1,2) by (auto simp: prompts_in_scope_def)
  then show ?thesis using assms distinct_map_eq [of rs_id ss x r] by (auto simp: prompts_in_scope_def)
qed

text \<open>A query that asks for the conversation sees only its rows.\<close>

lemma filter_own:
  assumes "filter own xs = filter own ys"
  shows "filter (\<lambda>x. own x \<and> q x) xs = filter (\<lambda>x. own x \<and> q x) ys"
proof -
  have "filter q (filter own xs) = filter q (filter own ys)" by (simp only: assms)
  then show ?thesis by (simp only: filter_filter)
qed

lemma fetchone_own: "(\<And>x. x \<in> set xs \<Longrightarrow> p x \<Longrightarrow> own x) \<Longrightarrow> fetchone p xs = fetchone p (filter own xs)"
  by (induction xs) (auto simp: fetchone_def)

lemma map_filter_same: "(\<And>x. x \<in> set xs \<Longrightarrow> f x = g x) \<Longrightarrow> List.map_filter f xs = List.map_filter g xs"
  by (induction xs) (auto split: option.splits)

lemma rowcount_own: "(\<And>x. x \<in> set xs \<Longrightarrow> p x \<Longrightarrow> own x) \<Longrightarrow> rowcount p xs = rowcount p (filter own xs)"
  by (induction xs) (auto simp: rowcount_def)

lemma select_own:
  assumes "filter (\<lambda>x. a x = t \<and> b x = s) xs = filter (\<lambda>x. a x = t \<and> b x = s) ys"
  shows "select_where (\<lambda>x. a x = t \<and> b x = s \<and> q x) xs = select_where (\<lambda>x. a x = t \<and> b x = s \<and> q x) ys"
  using filter_own [OF assms, of q] by (simp only: select_where_def conj_assoc)

lemma session_rows_own:
  assumes "same_conversation t s db db'"
  shows "session_rows limits t s db = session_rows limits t s db'"
proof -
  have "filter (\<lambda>r. rs_tenant_id r = t \<and> rs_source_id r = s) (cx_sessions db) = filter (\<lambda>r. rs_tenant_id r = t \<and> rs_source_id r = s) (cx_sessions db')"
    using assms by (simp only: same_conversation_def)
  from select_own [OF this] show ?thesis by (simp only: session_rows_def)
qed

lemma mailbox_counts_own:
  assumes "prompts_in_scope ss ms" and "r \<in> set ss" and "rs_tenant_id r = t" and "rs_source_id r = s"
  shows "mailbox_counts (rs_id r) ms = mailbox_counts (rs_id r) (filter (\<lambda>m. mb_tenant_id m = t \<and> mb_source_id m = s) ms)"
proof -
  have "rowcount (\<lambda>m. mb_session_id m = rs_id r \<and> mb_status m = st) ms
      = rowcount (\<lambda>m. mb_session_id m = rs_id r \<and> mb_status m = st) (filter (\<lambda>m. mb_tenant_id m = t \<and> mb_source_id m = s) ms)" for st
    using prompt_of_session [OF assms(1) _ assms(2)] assms(3,4) by (intro rowcount_own) fastforce
  then show ?thesis by (simp only: mailbox_counts_def)
qed

lemma session_rows_in: "r \<in> set (session_rows limits t s db) \<Longrightarrow> r \<in> set (cx_sessions db) \<and> rs_tenant_id r = t \<and> rs_source_id r = s"
  by (auto simp: session_rows_def sql_limit_def select_where_def split: if_splits dest!: in_set_takeD)

lemma session_context_own:
  assumes same: "same_conversation (ae_tenant_id e) s db db'" and "prompts_in_scope (cx_sessions db) (cx_mailbox db)"
    and "prompts_in_scope (cx_sessions db') (cx_mailbox db')"
  shows "session_context limits e s routed db = session_context limits e s routed db'"
proof -
  have mail: "filter (\<lambda>m. mb_tenant_id m = ae_tenant_id e \<and> mb_source_id m = s) (cx_mailbox db)
      = filter (\<lambda>m. mb_tenant_id m = ae_tenant_id e \<and> mb_source_id m = s) (cx_mailbox db')"
    using same by (simp only: same_conversation_def)
  have "mailbox_counts (rs_id r) (cx_mailbox db) = mailbox_counts (rs_id r) (cx_mailbox db')"
    if r: "r \<in> set (session_rows limits (ae_tenant_id e) s db)" for r
  proof -
    note own = session_rows_in [OF r] session_rows_in [OF r [unfolded session_rows_own [OF same]]]
    show ?thesis using mailbox_counts_own [OF assms(2)] mailbox_counts_own [OF assms(3)] own mail by metis
  qed
  then have "map (session_item routed db) (session_rows limits (ae_tenant_id e) s db)
      = map (session_item routed db') (session_rows limits (ae_tenant_id e) s db)" by (simp add: session_item_def)
  then show ?thesis by (simp only: session_context_def session_rows_own [OF same, symmetric])
qed

lemma mailbox_context_own:
  assumes same: "same_conversation (ae_tenant_id e) s db db'" and sc: "prompts_in_scope (cx_sessions db) (cx_mailbox db)"
    and sc': "prompts_in_scope (cx_sessions db') (cx_mailbox db')"
  shows "mailbox_context limits e s db = mailbox_context limits e s db'"
proof -
  let ?t = "ae_tenant_id e"
  let ?own = "filter (\<lambda>r. rs_tenant_id r = ?t \<and> rs_source_id r = s)"
  let ?sel = "select_where (\<lambda>m. mb_tenant_id m = ?t \<and> mb_source_id m = s \<and> mb_status m \<in> set [MbQueued, MbSending, MbFailed])"
  have sel: "?sel (cx_mailbox db) = ?sel (cx_mailbox db')" using same by (intro select_own) (simp add: same_conversation_def)
  have fetch: "fetchone (\<lambda>r. rs_id r = mb_session_id m) (cx_sessions d) = fetchone (\<lambda>r. rs_id r = mb_session_id m) (?own (cx_sessions d))"
    if "prompts_in_scope (cx_sessions d) (cx_mailbox d)" "m \<in> set (?sel (cx_mailbox d))" for d m
    using prompt_of_session [OF that(1)] that(2) by (intro fetchone_own) (auto simp: select_where_def)
  have "map_option (Pair m) (fetchone (\<lambda>r. rs_id r = mb_session_id m) (cx_sessions db))
      = map_option (Pair m) (fetchone (\<lambda>r. rs_id r = mb_session_id m) (cx_sessions db'))" if m: "m \<in> set (?sel (cx_mailbox db))" for m
    using fetch [OF sc m] fetch [OF sc' m [unfolded sel]] same by (simp add: same_conversation_def)
  then have "List.map_filter (\<lambda>m. map_option (Pair m) (fetchone (\<lambda>r. rs_id r = mb_session_id m) (cx_sessions db))) (?sel (cx_mailbox db))
      = List.map_filter (\<lambda>m. map_option (Pair m) (fetchone (\<lambda>r. rs_id r = mb_session_id m) (cx_sessions db'))) (?sel (cx_mailbox db))"
    by (rule map_filter_same)
  then show ?thesis unfolding mailbox_context_def by (simp only: sel)
qed

lemma batch_rows_own:
  assumes "same_conversation t s db db'"
  shows "batch_rows limits k t s db = batch_rows limits k t s db'"
proof -
  let ?c = "\<lambda>d. \<exists>b \<in> set (cx_batches d). bt_id b = k \<and> bt_tenant_id b = t \<and> bt_source_id b = s"
  have own: "filter (\<lambda>b. bt_tenant_id b = t \<and> bt_source_id b = s) (cx_batches db) = filter (\<lambda>b. bt_tenant_id b = t \<and> bt_source_id b = s) (cx_batches db')"
    "filter (\<lambda>m. bm_tenant_id m = t \<and> bm_source_id m = s) (cx_batch_messages db) = filter (\<lambda>m. bm_tenant_id m = t \<and> bm_source_id m = s) (cx_batch_messages db')"
    using assms by (simp_all only: same_conversation_def)
  have in_own: "?c d \<longleftrightarrow> k \<in> bt_id ` set (filter (\<lambda>b. bt_tenant_id b = t \<and> bt_source_id b = s) (cx_batches d))" for d by auto
  have c: "?c db = ?c db'" unfolding in_own own(1) ..
  have "filter (\<lambda>m. bm_batch_id m = k \<and> bm_tenant_id m = t \<and> bm_source_id m = s \<and> C) (cx_batch_messages db)
      = filter (\<lambda>m. bm_batch_id m = k \<and> bm_tenant_id m = t \<and> bm_source_id m = s \<and> C) (cx_batch_messages db')" for C
    using filter_own [OF own(2), of "\<lambda>m. bm_batch_id m = k \<and> C"] by (simp only: conj_ac)
  then show ?thesis unfolding batch_rows_def select_where_def c by (rule arg_cong)
qed

text \<open>C11: What a planner is told about a conversation comes from that conversation alone: if two states of the platform agree on the rows of the
  event's conversation, however different the sessions, prompts, actions, messages, jobs and batches of all other conversations of the
  same organisation or of others are, the planner context of the event is the same.\<close>

theorem context_isolation:
  assumes "context_source_id e = Inr source" and same: "same_conversation (ae_tenant_id e) source db db'"
    and "prompts_in_scope (cx_sessions db) (cx_mailbox db)" and "prompts_in_scope (cx_sessions db') (cx_mailbox db')"
  shows "build_context limits e rr db = build_context limits e rr db'"
proof -
  have "batch_context limits e source db = batch_context limits e source db'" by (simp only: batch_context_def batch_rows_own [OF same])
  moreover have "action_context limits e source db = action_context limits e source db'"
    unfolding action_context_def using same by (subst select_own [of ac_tenant_id _ ac_source_id]) (simp_all only: same_conversation_def)
  moreover have "outbound_context limits e source db = outbound_context limits e source db'"
    unfolding outbound_context_def using same by (subst select_own [of ob_tenant_id _ ob_source_id]) (simp_all only: same_conversation_def)
  moreover have "cron_context limits e source db = cron_context limits e source db'"
    unfolding cron_context_def using same by (subst select_own [of cj_tenant_id _ cj_source_id]) (simp_all only: same_conversation_def)
  ultimately show ?thesis
    using session_context_own [OF same assms(3,4)] mailbox_context_own [OF same assms(3,4)] by (simp add: build_context_def assms(1))
qed

definition demo_context_event :: agent_event where
  "demo_context_event = \<lparr>ae_id = ''evt'', ae_tenant_id = ''t'', ae_recipient = ''agent'', ae_message_type = ''Message'',
     ae_payload = JObj [(''source_id'', JStr ''chat''), (''text'', JStr ''hello'')], ae_correlation_id = None, ae_causation_id = None\<rparr>"

definition demo_action :: "string \<Rightarrow> action_row" where
  "demo_action source = \<lparr>ac_id = ''act_'' @ source, ac_tenant_id = ''t'', ac_source_id = source, ac_run_id = None, ac_kind = ''http'',
     ac_payload_json = Encoded (JObj [(''url'', JStr ''u''), (''token'', JStr ''s3cret'')]), ac_status = ActPending,
     ac_approval_policy = ''manual'', ac_source_event_id = None, ac_idempotency_key = None, ac_approved_by = None, ac_approved_at = None,
     ac_executed_at = None, ac_result_json = None, ac_last_error = None, ac_created_at = 1, ac_updated_at = 1\<rparr>"

definition demo_context_db :: "action_row list \<Rightarrow> context_db" where
  "demo_context_db acts = \<lparr>cx_sessions = [], cx_mailbox = [], cx_actions = acts, cx_outbound = [], cx_cron = [], cx_batches = [],
     cx_batch_messages = []\<rparr>"

definition demo_route :: route_result where
  "demo_route = \<lparr>rr_snapshots = [], rr_hint = \<lparr>rh_action = ''no_match'', rh_confidence = JFloat 0 ''0.0'', rh_session_id = None,
     rh_reasons = [], rh_candidates = []\<rparr>\<rparr>"

lemma demo_context_source: "context_source_id demo_context_event = Inr ''chat''"
  by code_simp

lemma context_isolation_witness:
  "build_context default_context_limits demo_context_event demo_route (demo_context_db [demo_action ''chat'', demo_action ''other''])
   = build_context default_context_limits demo_context_event demo_route (demo_context_db [demo_action ''chat''])"
  by (rule context_isolation [OF demo_context_source])
     (simp_all add: same_conversation_def prompts_in_scope_def demo_context_db_def demo_action_def demo_context_event_def)

subsection \<open>What the context may contain\<close>








end
