(* ===== verification/Spec2Isabelle.thy ===== *)
theory Spec2Isabelle
  imports Approvals Outbound_Delivery Dialogue_Plans Dialogue_Search Reconciliation Cron_Delivery Batching_Refinement Action_Worker_Safety
    Outbound_Worker_Safety Session_Outcomes Planner_Safety Planner_Inputs Decision_Effects
    Agent_Delivery Memory Context_Builder
begin

text \<open>
  \<^bold>\<open>Verification of the Soveren agent platform\<close>

  The platform (\<open>src/src/soveren_agent_platform\<close>, paths below are relative to it) is the durable runtime of agent
  applications.  Inbound messages are collected into batches and routed as events of a durable queue; an agent worker
  claims an event and runs a planner turn: it gathers the context of the conversation, redacts it, asks a language model, accepts
  the decision in a receipt and dispatches it as an outbound message, an action, a prompt for an execution session or a
  scheduled job.  Workers then send the messages, execute approved actions, deliver the prompts and publish due jobs.  All state
  is in SQLite tables; every hand-over is protected by an idempotency key, a lease with a token, or a status guard, because a worker
  may crash or stall anywhere and another one takes its work over.  What must be correct is therefore what happens over all
  interleavings of store calls: nothing that was accepted is lost, nothing external is repeated that must not be, a worker that lost
  its lease cannot write, and one conversation cannot see another.

  \<^bold>\<open>How the code is modelled\<close>

  A table is a list of records in the order of the row ids, with the columns as fields; an SQL statement is one of the combinators of
  \<open>Prelude\<close> (\<open>select_where\<close>, \<open>update_where\<close>, \<open>fetchone\<close>, \<open>order_by\<close>, \<open>sql_limit\<close>), and uniqueness and
  foreign keys are checked by the insert functions, so that every constraint violation is an error value.  A store function is a function from its
  arguments and the table to \<^typ>\<open>'a result\<close>: \<open>Inl\<close> is the exception, with its message, and leaves the tables as they were (the
  transaction is rolled back).  The clock reading, the fresh identifier and the fresh lease token of a call are arguments.  Python
  strings are strings, Python integers are \<^typ>\<open>int\<close>, JSON values are the datatype \<open>json\<close>, floats are rationals with their text.

  A worker is a program (\<open>Async_Programs\<close>): a tree of atomic steps on the shared state, one for each \<open>await\<close> of a store or of an
  external party, with exceptions and handlers.  A pool runs any number of such programs in any interleaving; a program may be
  stopped for ever at every step (a crash or a cancellation) and the rest of the platform may act between any two steps.  This covers the
  polling loop of \<open>runtime/worker_loop.py\<close>, whose schedules are some of these.  The locales \<open>pool_modes\<close>, \<open>pool_invariant\<close>
  (\<open>Async_Programs\<close>), \<open>effect_item\<close>, \<open>restart_pool\<close> and \<open>once_pool\<close> (\<open>Effect_Pool\<close>) prove the rely-guarantee
  arguments once; the locales of \<open>Lease_Port\<close> state the contract of a leased table (a settlement goes through exactly for the holder
  of the token; claims of a row exclude each other) and \<open>Idempotent_Port\<close> the contract of an idempotent command (a command that went through is
  absorbed when it is issued again, whatever happened in between).  Every store that makes such a promise interprets the locale.

  Code that is not in the repository is a parameter: the SHA-256 digest (\<open>sha\<close>), the time zone and recurrence library
  (\<open>schedule_lib\<close>), the lexical features of a message (\<open>feat\<close>), SQLite's full-text index (\<open>fts\<close>), action executors, outbound senders, session
  backends, the handler of the application, and the ports of the planner (router, context builder, prompt builders, model
  backend, decision parser, dispatcher).  There is no fuel: every function is total, the one unbounded loop of the code (the claim of scheduled
  jobs) is a \<^theory_text>\<open>partial_function\<close> into options that is proved to end on every table.

  \<^bold>\<open>Theories, sources and results\<close>

  \<^item> \<open>Prelude\<close>, \<open>Python_Text\<close>, \<open>Idempotency\<close>: errors, SQL, strings, and \<open>json_types.py\<close>, \<open>idempotency.py\<close>,
    \<open>conversation.py\<close>.
  \<^item> \<open>Event_Queue\<close> (\<open>queue/\<close>): enqueue, claim, renew, settle.  Stale lease tokens are fenced, overlapping claims are disjoint, events
    are never lost and final events never change, attempts are bounded, a reused key with another command is refused.
  \<^item> \<open>Actions\<close>, \<open>Approvals\<close> (\<open>actions/store.py\<close>, \<open>approvals/runtime.py\<close>): the life cycle of an action; nothing is executed that
    was not approved; an approval and its execution event are one transaction.
  \<^item> \<open>Action_Worker\<close>, \<open>Action_Worker_Safety\<close> (\<open>actions/worker.py\<close>): an action that was executing when the workers stopped is not
    started again, and an action with a definite outcome is started once in every interleaving.
  \<^item> \<open>History\<close> (\<open>conversation_history/store.py\<close>): recording, pages, pruning.
  \<^item> \<open>Dialogue_Tables\<close>, \<open>Dialogue\<close>, \<open>Dialogue_Plans\<close>, \<open>Dialogue_Search\<close> (\<open>dialogue/\<close>): routing plans as one
    transaction, tasks and questions; a closed task sends nothing more, a question is resolved only after its delivery was confirmed.
  \<^item> \<open>Outbound\<close>, \<open>Outbound_Delivery\<close> (\<open>outbound/store.py\<close>): ordered sequences, admission against the dialogue, sends recorded
    with the history.  \<open>Outbound_Worker\<close>, \<open>Outbound_Worker_Safety\<close> (\<open>outbound/worker.py\<close>): a message is sent at most once.
  \<^item> \<open>Reconciliation\<close> (\<open>reconciliation/store.py\<close>): an effect with an uncertain outcome changes only by a recorded resolution.
  \<^item> \<open>Cron\<close>, \<open>Cron_Claims\<close>, \<open>Cron_Delivery\<close> (\<open>cron/store.py\<close>, \<open>cron/schedule.py\<close>): the claim loop ends and equals one pass
    over the due jobs; an occurrence is published once, in the transaction that advances the schedule; a cancelled job never fires.
  \<^item> \<open>Batching\<close>, \<open>Batching_Refinement\<close> (\<open>batching/\<close>): the rules, the store and the evaluation of a batch; the tables refine one buffer
    and one sequence of routed batches per conversation, and a batch past its window is flushed.
  \<^item> \<open>Sessions\<close>, \<open>Session_Lifecycle\<close>, \<open>Session_Worker\<close>, \<open>Session_Safety\<close>, \<open>Session_Delivery\<close>, \<open>Session_Outcomes\<close>
    (\<open>sessions/store.py\<close>, \<open>mailbox.py\<close>, \<open>lifecycle.py\<close>, \<open>backend.py\<close>, \<open>mailbox_worker.py\<close>): a prompt is handed to its backend at
    most once, deliveries of a session are serial, and what one delivery does on every branch.
  \<^item> \<open>Checkpoints\<close> (\<open>execution.py\<close>, \<open>llm/checkpoint.py\<close>): construction, encoding and decoding of model checkpoints.
  \<^item> \<open>Planner_Runs\<close> (\<open>runs/store.py\<close>), \<open>Decision_Receipts\<close> (\<open>decisions/receipt_store.py\<close>): leased runs with their checkpoint, and
    the receipt that accepts one decision per event.
  \<^item> \<open>Model_Boundary\<close> (\<open>model_boundary.py\<close>, \<open>context/redaction.py\<close>), \<open>Planner\<close>, \<open>Planner_Inputs\<close>, \<open>Planner_Safety\<close>
    (\<open>runtime/planner.py\<close>): planner and dispatch turns as programs.  For one event only one decision is ever dispatched, a completed
    dispatch is not repeated, and the model sees nothing that the redaction policy hides.
  \<^item> \<open>Decision_Effects\<close> (\<open>decisions/dispatcher.py\<close>, \<open>decisions/sqlite.py\<close>): the built-in handlers on the stores; dispatching a
    decision again has no further effect.
  \<^item> \<open>Agent_Worker\<close>, \<open>Agent_Delivery\<close> (\<open>agent/worker.py\<close>, \<open>runtime/failures.py\<close>): the handler is called at most as often as an event
    has attempts left, and every outcome of the handler settles the event.
  \<^item> \<open>Memory\<close> (\<open>memory/store.py\<close>): records are kept until they are forgotten or expire, forgotten records never come back, and
    conversations are isolated.
  \<^item> \<open>Context_Builder\<close> (\<open>context/builder.py\<close>): the planner context depends on the rows of one conversation only, respects its
    limits and carries no secret fields.

  \<^bold>\<open>What the proofs showed about the code\<close>

  Three theorems state behaviour that the documentation does not intend: a late worker starts an action again that another worker has already
  handed on (\<open>Action_Worker_Safety.action_handoff_repeated\<close>), a worker that stalls after its claim revives a session that was closed
  meanwhile (\<open>Session_Delivery.closed_session_revived\<close>), and a query of one backslash searches for texts that end in a percent sign
  (\<open>Dialogue_Search.search_backslash_misread\<close>).

  \<^bold>\<open>Not modelled\<close>

  The drivers of external systems (Docker sandbox, credential broker, Codex, tmux and HTTP backends, Telegram and GitHub clients),
  because their effects are outside the program: they appear as parameters with every outcome they may have.  The scoring of sessions and
  the search snapshots, whose word lists and regular expressions are over Cyrillic text: the router's result is an argument.  The parsing of
  decisions with Pydantic, prompt formatting, tool descriptions, the latency log, the asyncio loops (covered by arbitrary schedules), the
  asynchronous adapter classes that forward to the store functions, and the migration runner (the constraints of the current schema are
  part of the models).
\<close>

end
